(* ===== verification/Prelude.thy ===== *)
theory Prelude
  imports Main "HOL-Library.List_Lexorder" "HOL-Library.Char_ord" "HOL-Library.Product_Lexorder"
begin

text \<open>
  Shared vocabulary of the development.

  \<^item> A fallible, stateful operation of the program is a \<open>('e, 's, 'a) tx\<close>: a function of the
    state that either raises an error (\<open>Inl\<close>) or returns a value and the next state
    (\<open>Inr\<close>). A raised error leaves the caller with the state it had, which is what the
    \<open>ROLLBACK\<close> of a database transaction and an exception before the first assignment both do.
  \<^item> \<open>tx_rel R\<close> says that an operation moves the state along \<open>R\<close> only; a view that is kept
    (\<open>tx_frame\<close>) and an invariant that is kept (\<open>tx_inv\<close>) are such relations. The rules
    \<open>tx_rels\<close> follow the structure of an operation, so that a fact about a long handler is
    proved by applying the rules of its parts.
  \<^item> Tables are lists of rows; \<open>upd_where\<close> is SQL's \<open>UPDATE ... WHERE\<close>.
\<close>

section \<open>Operations that may raise\<close>

type_synonym ('e, 's, 'a) tx = "'s \<Rightarrow> 'e + ('a \<times> 's)"

definition tx_return :: "'a \<Rightarrow> ('e, 's, 'a) tx" where
  "tx_return x s = Inr (x, s)"

definition tx_raise :: "'e \<Rightarrow> ('e, 's, 'a) tx" where
  "tx_raise e s = Inl e"

definition tx_get :: "('s \<Rightarrow> 'a) \<Rightarrow> ('e, 's, 'a) tx" where
  "tx_get f s = Inr (f s, s)"

definition tx_modify :: "('s \<Rightarrow> 's) \<Rightarrow> ('e, 's, unit) tx" where
  "tx_modify f s = Inr ((), f s)"

definition tx_bind :: "('e, 's, 'a) tx \<Rightarrow> ('a \<Rightarrow> ('e, 's, 'b) tx) \<Rightarrow> ('e, 's, 'b) tx" where
  "tx_bind m f s = (case m s of Inl e \<Rightarrow> Inl e | Inr (x, s') \<Rightarrow> f x s')"

definition tx_seq :: "('e, 's, unit) tx \<Rightarrow> ('e, 's, 'b) tx \<Rightarrow> ('e, 's, 'b) tx" where
  "tx_seq m n = tx_bind m (\<lambda>_. n)"

text \<open>\<open>if bad: raise e\<close> as a statement.\<close>

definition tx_raise_if :: "bool \<Rightarrow> 'e \<Rightarrow> ('e, 's, unit) tx" where
  "tx_raise_if bad e = (if bad then tx_raise e else tx_return ())"

text \<open>A loop over a list, the state passed from one round to the next.\<close>

fun tx_each :: "('a \<Rightarrow> ('e, 's, 'b) tx) \<Rightarrow> 'a list \<Rightarrow> ('e, 's, 'b list) tx" where
  "tx_each f [] = tx_return []"
| "tx_each f (x # xs) =
     tx_bind (f x) (\<lambda>y. tx_bind (tx_each f xs) (\<lambda>ys. tx_return (y # ys)))"

text \<open>The state a caller sees after an operation: unchanged when it raised.\<close>

definition tx_state :: "('e, 's, 'a) tx \<Rightarrow> 's \<Rightarrow> 's" where
  "tx_state m s = (case m s of Inl _ \<Rightarrow> s | Inr (_, s') \<Rightarrow> s')"

named_theorems tx_rels \<open>rules that follow the structure of an operation\<close>

lemma tx_return_Inr [simp]: "tx_return x s = Inr (y, s') \<longleftrightarrow> y = x \<and> s' = s"
  by (auto simp: tx_return_def)

lemma tx_return_not_Inl [simp]: "tx_return x s \<noteq> Inl e"
  by (simp add: tx_return_def)

lemma tx_raise_eq [simp]: "tx_raise e s = r \<longleftrightarrow> r = Inl e"
  by (auto simp: tx_raise_def)

lemma tx_get_Inr [simp]: "tx_get f s = Inr (y, s') \<longleftrightarrow> y = f s \<and> s' = s"
  by (auto simp: tx_get_def)

lemma tx_modify_Inr [simp]: "tx_modify f s = Inr (y, s') \<longleftrightarrow> s' = f s"
  by (auto simp: tx_modify_def)

lemma tx_bind_Inr:
  "tx_bind m f s = Inr (y, s'') \<longleftrightarrow> (\<exists>x s'. m s = Inr (x, s') \<and> f x s' = Inr (y, s''))"
  by (auto simp: tx_bind_def split: sum.splits)

lemma tx_bind_Inl:
  "tx_bind m f s = Inl e \<longleftrightarrow> m s = Inl e \<or> (\<exists>x s'. m s = Inr (x, s') \<and> f x s' = Inl e)"
  by (auto simp: tx_bind_def split: sum.splits)

lemma tx_seq_Inr:
  "tx_seq m n s = Inr (y, s'') \<longleftrightarrow> (\<exists>s'. m s = Inr ((), s') \<and> n s' = Inr (y, s''))"
  by (auto simp: tx_seq_def tx_bind_Inr)

lemma tx_raise_if_Inr [simp]:
  "tx_raise_if bad e s = Inr (y, s') \<longleftrightarrow> \<not> bad \<and> s' = s"
  by (auto simp: tx_raise_if_def)

lemma tx_raise_if_Inl [simp]: "tx_raise_if bad e s = Inl e' \<longleftrightarrow> bad \<and> e' = e"
  by (auto simp: tx_raise_if_def)

lemmas tx_results = tx_bind_Inr tx_seq_Inr

lemma tx_eval [simp]:
  "tx_bind (tx_return x) f s = f x s"
  "tx_bind (tx_get g) f s = f (g s) s"
  "tx_bind (tx_modify h) k s = k () (h s)"
  "tx_bind (tx_raise_if False e) k s = k () s"
  "tx_bind (tx_raise_if True e) k s = Inl e"
  "tx_seq (tx_modify h) n s = n (h s)"
  "tx_seq (tx_raise_if False e) n s = n s"
  "tx_seq (tx_raise_if True e) n s = Inl e"
  by (simp_all add: tx_bind_def tx_seq_def tx_return_def tx_get_def tx_modify_def
      tx_raise_if_def tx_raise_def)

lemma tx_state_Inr: "m s = Inr (x, s') \<Longrightarrow> tx_state m s = s'"
  by (simp add: tx_state_def)

lemma tx_state_Inl: "m s = Inl e \<Longrightarrow> tx_state m s = s"
  by (simp add: tx_state_def)

section \<open>What an operation does to the state\<close>

text \<open>
  \<open>tx_at R m s\<close>: when \<open>m\<close> returns from \<open>s\<close>, the state moved along \<open>R\<close>, in any number of steps.
  \<open>tx_rel\<close> says so for every state. A view that is kept and an invariant that is kept are two
  relations, so one set of rules serves frames, invariants and simulations.
\<close>

definition tx_at :: "('s \<Rightarrow> 's \<Rightarrow> bool) \<Rightarrow> ('e, 's, 'a) tx \<Rightarrow> 's \<Rightarrow> bool" where
  "tx_at R m s \<longleftrightarrow> (\<forall>x s'. m s = Inr (x, s') \<longrightarrow> R\<^sup>*\<^sup>* s s')"

definition tx_rel :: "('s \<Rightarrow> 's \<Rightarrow> bool) \<Rightarrow> ('e, 's, 'a) tx \<Rightarrow> bool" where
  "tx_rel R m \<longleftrightarrow> (\<forall>s. tx_at R m s)"

abbreviation tx_frame :: "('s \<Rightarrow> 'v) \<Rightarrow> ('e, 's, 'a) tx \<Rightarrow> bool" where
  "tx_frame v \<equiv> tx_rel (\<lambda>s s'. v s' = v s)"

abbreviation tx_inv :: "('s \<Rightarrow> bool) \<Rightarrow> ('e, 's, 'a) tx \<Rightarrow> bool" where
  "tx_inv I \<equiv> tx_rel (\<lambda>s s'. I s \<longrightarrow> I s')"

lemma tx_relD: "tx_rel R m \<Longrightarrow> m s = Inr (x, s') \<Longrightarrow> R\<^sup>*\<^sup>* s s'"
  by (auto simp: tx_rel_def tx_at_def)

lemma tx_relI: "(\<And>s x s'. m s = Inr (x, s') \<Longrightarrow> R\<^sup>*\<^sup>* s s') \<Longrightarrow> tx_rel R m"
  by (auto simp: tx_rel_def tx_at_def)

lemma tx_rel_at: "tx_rel R m \<Longrightarrow> tx_at R m s"
  by (simp add: tx_rel_def)

lemma tx_rel_pointwise: "(\<And>s. tx_at R m s) \<Longrightarrow> tx_rel R m"
  by (simp add: tx_rel_def)

lemma tx_rel_mono: "tx_rel R m \<Longrightarrow> (\<And>s s'. R s s' \<Longrightarrow> R' s s') \<Longrightarrow> tx_rel R' m"
  unfolding tx_rel_def tx_at_def using mono_rtranclp [of R R'] by blast

lemma steps_view: "(\<lambda>s s'. v s' = v s)\<^sup>*\<^sup>* s s' \<Longrightarrow> v s' = v s"
  by (induction rule: rtranclp_induct) simp_all

lemma steps_keep: "(\<lambda>s s'. I s \<longrightarrow> I s')\<^sup>*\<^sup>* s s' \<Longrightarrow> I s \<Longrightarrow> I s'"
  by (induction rule: rtranclp_induct) simp_all

text \<open>Rule induction in the form the properties use it: a preorder that every step follows.\<close>

lemma steps_preorder:
  assumes "R\<^sup>*\<^sup>* s s'" and "\<And>s. Q s s" and "\<And>s t u. Q s t \<Longrightarrow> Q t u \<Longrightarrow> Q s u"
    and "\<And>s t. R s t \<Longrightarrow> Q s t"
  shows "Q s s'"
  using assms(1) by (induction rule: rtranclp_induct) (blast intro: assms(2-4))+

lemma tx_frameD: "tx_frame v m \<Longrightarrow> m s = Inr (x, s') \<Longrightarrow> v s' = v s"
  by (drule (1) tx_relD) (rule steps_view)

lemma tx_frameI: "(\<And>s x s'. m s = Inr (x, s') \<Longrightarrow> v s' = v s) \<Longrightarrow> tx_frame v m"
  by (rule tx_relI) (rule r_into_rtranclp)

lemma tx_invD: "tx_inv I m \<Longrightarrow> I s \<Longrightarrow> m s = Inr (x, s') \<Longrightarrow> I s'"
  using tx_relD [of _ m] steps_keep [of I] by metis

lemma tx_invI: "(\<And>s x s'. I s \<Longrightarrow> m s = Inr (x, s') \<Longrightarrow> I s') \<Longrightarrow> tx_inv I m"
  by (rule tx_relI) (rule r_into_rtranclp, blast)

lemma tx_rel_basic [tx_rels, intro, simp]:
  "tx_rel R (tx_return x)"
  "tx_rel R (tx_raise e)"
  "tx_rel R (tx_get f)"
  "tx_rel R (tx_raise_if b e)"
  by (auto intro!: tx_relI)

lemma tx_rel_modify [tx_rels]: "(\<And>s. R s (f s)) \<Longrightarrow> tx_rel R (tx_modify f)"
  by (auto intro!: tx_relI)

lemma tx_rel_bind [tx_rels]: "tx_rel R m \<Longrightarrow> (\<And>x. tx_rel R (f x)) \<Longrightarrow> tx_rel R (tx_bind m f)"
  unfolding tx_rel_def tx_at_def tx_bind_Inr by (meson rtranclp_trans)

lemma tx_rel_seq [tx_rels]: "tx_rel R m \<Longrightarrow> tx_rel R n \<Longrightarrow> tx_rel R (tx_seq m n)"
  unfolding tx_seq_def by (rule tx_rel_bind)

lemma tx_rel_if [tx_rels]:
  "(b \<Longrightarrow> tx_rel R m) \<Longrightarrow> (\<not> b \<Longrightarrow> tx_rel R n) \<Longrightarrow> tx_rel R (if b then m else n)"
  by simp

lemma tx_rel_option [tx_rels]:
  "(z = None \<Longrightarrow> tx_rel R m) \<Longrightarrow> (\<And>x. z = Some x \<Longrightarrow> tx_rel R (f x)) \<Longrightarrow>
    tx_rel R (case z of None \<Rightarrow> m | Some x \<Rightarrow> f x)"
  by (cases z) auto

lemma tx_rel_sum [tx_rels]:
  "(\<And>x. z = Inl x \<Longrightarrow> tx_rel R (f x)) \<Longrightarrow> (\<And>y. z = Inr y \<Longrightarrow> tx_rel R (g y)) \<Longrightarrow>
    tx_rel R (case z of Inl x \<Rightarrow> f x | Inr y \<Rightarrow> g y)"
  by (cases z) auto

lemma tx_rel_prod [tx_rels]:
  "(\<And>x y. z = (x, y) \<Longrightarrow> tx_rel R (f x y)) \<Longrightarrow> tx_rel R (case z of (x, y) \<Rightarrow> f x y)"
  by (cases z) auto

lemma tx_rel_let [tx_rels]: "tx_rel R (f t) \<Longrightarrow> tx_rel R (let x = t in f x)"
  by simp

lemma tx_rel_each: "(\<And>x. x \<in> set xs \<Longrightarrow> tx_rel R (f x)) \<Longrightarrow> tx_rel R (tx_each f xs)"
  by (induction xs) (auto intro!: tx_rel_bind)

text \<open>Rules that keep what is known of the state an operation starts from.\<close>

lemma tx_at_get: "tx_at R (f (g s)) s \<Longrightarrow> tx_at R (tx_bind (tx_get g) f) s"
  by (simp add: tx_at_def)

lemma tx_at_guard: "(\<not> b \<Longrightarrow> tx_at R n s) \<Longrightarrow> tx_at R (tx_seq (tx_raise_if b e) n) s"
  by (cases b) (simp_all add: tx_at_def)

lemma tx_at_bind: "tx_at R m s \<Longrightarrow> (\<And>x. tx_rel R (f x)) \<Longrightarrow> tx_at R (tx_bind m f) s"
  unfolding tx_rel_def tx_at_def tx_bind_Inr by (meson rtranclp_trans)

lemma tx_at_seq: "tx_at R m s \<Longrightarrow> tx_rel R n \<Longrightarrow> tx_at R (tx_seq m n) s"
  unfolding tx_seq_def by (rule tx_at_bind)

lemma tx_at_modify: "R s (f s) \<Longrightarrow> tx_at R (tx_modify f) s"
  by (auto simp: tx_at_def)

lemma tx_at_raise [simp]: "tx_at R (tx_raise e) s" "tx_at R (tx_return x) s"
  by (simp_all add: tx_at_def)

lemma tx_rel_bind_get: "(\<And>s. tx_rel R (f (g s))) \<Longrightarrow> tx_rel R (tx_bind (tx_get g) f)"
  by (rule tx_rel_pointwise) (rule tx_at_get, rule tx_rel_at)

section \<open>Tables\<close>

definition upd_where :: "('r \<Rightarrow> bool) \<Rightarrow> ('r \<Rightarrow> 'r) \<Rightarrow> 'r list \<Rightarrow> 'r list" where
  "upd_where p f rs = map (\<lambda>r. if p r then f r else r) rs"

text \<open>The number of rows an update would touch: the cursor's \<open>rowcount\<close>.\<close>

definition rowcount :: "('r \<Rightarrow> bool) \<Rightarrow> 'r list \<Rightarrow> nat" where
  "rowcount p rs = length (filter p rs)"

lemma upd_where_Nil [simp]: "upd_where p f [] = []"
  by (simp add: upd_where_def)

lemma upd_where_Cons [simp]:
  "upd_where p f (r # rs) = (if p r then f r else r) # upd_where p f rs"
  by (simp add: upd_where_def)

lemma length_upd_where [simp]: "length (upd_where p f rs) = length rs"
  by (simp add: upd_where_def)

lemma set_upd_where: "set (upd_where p f rs) = (\<lambda>r. if p r then f r else r) ` set rs"
  by (simp add: upd_where_def)

lemma in_upd_where:
  "r \<in> set (upd_where p f rs) \<longleftrightarrow> (\<exists>r0 \<in> set rs. r = (if p r0 then f r0 else r0))"
  by (auto simp: upd_where_def)

lemma map_upd_where_key:
  "(\<And>r. k (f r) = k r) \<Longrightarrow> map k (upd_where p f rs) = map k rs"
  by (induction rs) auto

lemma upd_where_none: "(\<And>r. r \<in> set rs \<Longrightarrow> \<not> p r) \<Longrightarrow> upd_where p f rs = rs"
  by (induction rs) auto

text \<open>The row a \<open>SELECT ... LIMIT 1\<close> returns: the first that matches.\<close>

lemma find_Some_D: "List.find p rs = Some r \<Longrightarrow> r \<in> set rs \<and> p r"
  by (auto simp: find_Some_iff)

lemma find_None_D: "List.find p rs = None \<Longrightarrow> r \<in> set rs \<Longrightarrow> \<not> p r"
  by (auto simp: find_None_iff)

lemma find_key_unique:
  assumes "distinct (map k rs)" and "r \<in> set rs"
  shows "List.find (\<lambda>x. k x = k r) rs = Some r"
  using assms by (induction rs) (auto dest: in_set_conv_nth [THEN iffD1])

lemma distinct_map_eqD:
  "distinct (map k rs) \<Longrightarrow> r \<in> set rs \<Longrightarrow> r' \<in> set rs \<Longrightarrow> k r = k r' \<Longrightarrow> r = r'"
  by (induction rs) (auto dest: image_eqI)

lemma rowcount_zero: "rowcount p rs = 0 \<longleftrightarrow> (\<forall>r \<in> set rs. \<not> p r)"
  by (simp add: rowcount_def filter_empty_conv)

lemma rowcount_key_le_one:
  assumes "distinct (map k rs)" and "\<And>r. p r \<Longrightarrow> k r = a"
  shows "rowcount p rs \<le> 1"
  using assms
proof (induction rs)
  case (Cons r rs)
  then have "p r \<Longrightarrow> filter p rs = []"
    by (auto simp: filter_empty_conv)
  with Cons show ?case by (auto simp: rowcount_def)
qed (simp add: rowcount_def)

section \<open>Options and maps\<close>

lemma map_le_update_new: "m k = None \<Longrightarrow> m \<subseteq>\<^sub>m m(k \<mapsto> v)"
  by (auto simp: map_le_def)

lemma Option_these_find: "List.find p xs \<noteq> None \<longleftrightarrow> (\<exists>x \<in> set xs. p x)"
  by (auto simp: find_None_iff)

end
