(* ===== verification/PyValue.thy ===== *)
theory PyValue
  imports Complex_Main Prelude
begin

text \<open>
  The values the program passes around as JSON (payloads, events, receipts): Python's
  \<open>None\<close>, booleans, integers, floats, strings, lists and dictionaries.

  A dictionary is an association list with distinct keys. Floats are exact rationals: the
  program uses them for amounts, confidences and ratios, never for NaN or infinities (which
  strict JSON excludes). Three equalities of the program are told apart: \<open>canon\<close> is the text
  equality of \<open>json.dumps(..., sort_keys=True)\<close>, \<open>py_eq\<close> is Python's \<open>==\<close> (order of keys and
  the type of a number do not matter), and \<open>=\<close> on \<open>json\<close> is identity of representation.
\<close>

section \<open>Values\<close>

datatype json =
    JNull
  | JBool bool
  | JInt int
  | JFloat rat
  | JStr string
  | JArr "json list"
  | JObj "(string \<times> json) list"

type_synonym dict = "(string \<times> json) list"

text \<open>\<open>d.get k\<close> as an option; \<open>None\<close> stands for an absent key.\<close>

definition dget :: "dict \<Rightarrow> string \<Rightarrow> json option" where
  "dget d k = map_of d k"

text \<open>\<open>d.get k\<close> as the value Python returns: \<open>None\<close> for an absent key.\<close>

definition dget0 :: "dict \<Rightarrow> string \<Rightarrow> json" where
  "dget0 d k = (case map_of d k of None \<Rightarrow> JNull | Some v \<Rightarrow> v)"

text \<open>\<open>d[k] = v\<close>: an existing key keeps its place, a new one goes last.\<close>

fun dput :: "string \<Rightarrow> json \<Rightarrow> dict \<Rightarrow> dict" where
  "dput k v [] = [(k, v)]"
| "dput k v ((k', v') # d) = (if k = k' then (k, v) # d else (k', v') # dput k v d)"

text \<open>\<open>d.pop(k, None)\<close>\<close>

definition dpop :: "string \<Rightarrow> dict \<Rightarrow> dict" where
  "dpop k d = filter (\<lambda>kv. fst kv \<noteq> k) d"

text \<open>\<open>d.update(e)\<close>\<close>

definition dupdate :: "dict \<Rightarrow> dict \<Rightarrow> dict" where
  "dupdate d e = fold (\<lambda>(k, v). dput k v) e d"

definition wf_dict :: "dict \<Rightarrow> bool" where
  "wf_dict d \<longleftrightarrow> distinct (map fst d)"

lemma dget_dput [simp]: "dget (dput k v d) k' = (if k' = k then Some v else dget d k')"
  unfolding dget_def by (induction d rule: dput.induct) auto

lemma dget0_dput [simp]: "dget0 (dput k v d) k' = (if k' = k then v else dget0 d k')"
  using dget_dput [of k v d k'] by (simp add: dget0_def dget_def)

lemma dget_Nil [simp]: "dget [] k = None" "dget0 [] k = JNull"
  by (simp_all add: dget_def dget0_def)

lemma dget_Cons [simp]:
  "dget ((k, v) # d) k' = (if k' = k then Some v else dget d k')"
  "dget0 ((k, v) # d) k' = (if k' = k then v else dget0 d k')"
  by (simp_all add: dget_def dget0_def)

lemma fst_set_dput: "fst ` set (dput k v d) = insert k (fst ` set d)"
  by (induction k v d rule: dput.induct) auto

lemma wf_dput [simp]: "wf_dict d \<Longrightarrow> wf_dict (dput k v d)"
  unfolding wf_dict_def
proof (induction k v d rule: dput.induct)
  case (2 k v k' v' d)
  then show ?case
    using fst_set_dput [of k v d] by auto
qed simp

lemma dget_dpop [simp]: "dget (dpop k d) k' = (if k' = k then None else dget d k')"
  unfolding dget_def dpop_def by (induction d) auto

lemma wf_dpop [simp]: "wf_dict d \<Longrightarrow> wf_dict (dpop k d)"
  by (simp add: wf_dict_def dpop_def distinct_map_filter)

lemma dget0_dpop [simp]: "dget0 (dpop k d) k' = (if k' = k then JNull else dget0 d k')"
  using dget_dpop [of k d k'] by (auto simp: dget0_def dget_def split: option.splits)

section \<open>Equality\<close>

text \<open>The canonical form of \<open>json.dumps(v, sort_keys=True)\<close>: keys sorted at every depth.\<close>

primrec canon :: "json \<Rightarrow> json" where
  "canon JNull = JNull"
| "canon (JBool b) = JBool b"
| "canon (JInt i) = JInt i"
| "canon (JFloat q) = JFloat q"
| "canon (JStr s) = JStr s"
| "canon (JArr vs) = JArr (map canon vs)"
| "canon (JObj d) = JObj (sort_key fst (map (map_prod id canon) d))"

definition canon_dict :: "dict \<Rightarrow> dict" where
  "canon_dict d = sort_key fst (map (map_prod id canon) d)"

text \<open>Python's \<open>==\<close>: \<open>True == 1 == 1.0\<close>, and dictionaries compare by key.\<close>

primrec py_norm :: "json \<Rightarrow> json" where
  "py_norm JNull = JNull"
| "py_norm (JBool b) = JFloat (if b then 1 else 0)"
| "py_norm (JInt i) = JFloat (of_int i)"
| "py_norm (JFloat q) = JFloat q"
| "py_norm (JStr s) = JStr s"
| "py_norm (JArr vs) = JArr (map py_norm vs)"
| "py_norm (JObj d) = JObj (sort_key fst (map (map_prod id py_norm) d))"

definition py_eq :: "json \<Rightarrow> json \<Rightarrow> bool" where
  "py_eq a b \<longleftrightarrow> py_norm a = py_norm b"

definition dict_eq :: "dict \<Rightarrow> dict \<Rightarrow> bool" where
  "dict_eq d e \<longleftrightarrow> py_eq (JObj d) (JObj e)"

lemma py_eq_refl [simp]: "py_eq a a"
  by (simp add: py_eq_def)

lemma py_eq_sym: "py_eq a b \<longleftrightarrow> py_eq b a"
  by (auto simp: py_eq_def)

lemma py_eq_trans: "py_eq a b \<Longrightarrow> py_eq b c \<Longrightarrow> py_eq a c"
  by (simp add: py_eq_def)

lemma dict_eq_refl [simp]: "dict_eq d d"
  by (simp add: dict_eq_def)

lemma dict_eq_sym: "dict_eq d e \<longleftrightarrow> dict_eq e d"
  unfolding dict_eq_def by (rule py_eq_sym)

lemma dict_eq_trans: "dict_eq d e \<Longrightarrow> dict_eq e f \<Longrightarrow> dict_eq d f"
  unfolding dict_eq_def by (rule py_eq_trans)

lemma map_of_map_prod: "map_of (map (map_prod id f) d) k = map_option f (map_of d k)"
  by (induction d) auto

lemma map_of_sort_key_fst:
  assumes "distinct (map fst d)"
  shows "map_of (sort_key fst d) = map_of d"
  by (rule map_of_eqI) (use assms in \<open>auto simp: distinct_map\<close>)

text \<open>The lookups of equal dictionaries are equal.\<close>

lemma dict_eq_dget:
  assumes "dict_eq d e" and "wf_dict d" and "wf_dict e"
  shows "map_option py_norm (dget d k) = map_option py_norm (dget e k)"
proof -
  have *: "map_of (sort_key fst (map (map_prod id py_norm) f)) k = map_option py_norm (map_of f k)"
    if "distinct (map fst f)" for f :: dict
  proof -
    have "distinct (map fst (map (map_prod id py_norm) f))"
      using that by (simp add: comp_def)
    from map_of_sort_key_fst [OF this] show ?thesis
      by (simp add: map_of_map_prod)
  qed
  show ?thesis
    using assms * unfolding dict_eq_def py_eq_def wf_dict_def dget_def by simp metis
qed

section \<open>Truth and conversions\<close>

text \<open>\<open>bool(v)\<close>\<close>

fun truthy :: "json \<Rightarrow> bool" where
  "truthy JNull = False"
| "truthy (JBool b) = b"
| "truthy (JInt i) = (i \<noteq> 0)"
| "truthy (JFloat q) = (q \<noteq> 0)"
| "truthy (JStr s) = (s \<noteq> [])"
| "truthy (JArr vs) = (vs \<noteq> [])"
| "truthy (JObj d) = (d \<noteq> [])"

text \<open>\<open>isinstance(v, (int, float))\<close>, which a boolean satisfies, and the number it stands for.\<close>

fun num_of :: "json \<Rightarrow> rat option" where
  "num_of (JBool b) = Some (if b then 1 else 0)"
| "num_of (JInt i) = Some (of_int i)"
| "num_of (JFloat q) = Some q"
| "num_of _ = None"

text \<open>\<open>isinstance(v, str) and v\<close>: a non-empty string.\<close>

fun nonempty_str :: "json \<Rightarrow> bool" where
  "nonempty_str (JStr s) = (s \<noteq> [])"
| "nonempty_str _ = False"

fun str_in :: "json \<Rightarrow> string list \<Rightarrow> bool" where
  "str_in (JStr s) xs = (s \<in> set xs)"
| "str_in _ xs = False"

text \<open>An optional string as JSON, and the text of an optional string (empty when absent).\<close>

definition jopt :: "string option \<Rightarrow> json" where
  "jopt z = (case z of None \<Rightarrow> JNull | Some s \<Rightarrow> JStr s)"

definition otext :: "string option \<Rightarrow> string" where
  "otext z = (case z of None \<Rightarrow> [] | Some s \<Rightarrow> s)"

text \<open>The text of a value that is a string or absent.\<close>

fun jtxt :: "json \<Rightarrow> string" where
  "jtxt (JStr s) = s"
| "jtxt _ = []"

lemma otext_simps [simp]: "otext None = []" "otext (Some s) = s"
  by (simp_all add: otext_def)

lemma jopt_simps [simp]: "jopt None = JNull" "jopt (Some s) = JStr s"
  by (simp_all add: jopt_def)

lemma jtxt_jopt [simp]: "jtxt (jopt z) = otext z"
  by (cases z) auto

lemma canon_JStr [simp]: "canon v = JStr s \<longleftrightarrow> v = JStr s"
  by (cases v) auto

text \<open>Sorting the keys of a text twice changes nothing.\<close>

lemma insort_key_map: "(\<And>x. k (h x) = k' x) \<Longrightarrow> insort_key k (h x) (map h xs) = map h (insort_key k' x xs)"
  by (induction xs) auto

lemma sort_key_map: "(\<And>x. k (h x) = k' x) \<Longrightarrow> sort_key k (map h xs) = map h (sort_key k' xs)"
  by (induction xs) (simp_all add: insort_key_map)

lemma sort_values_twice:
  assumes "\<And>x. x \<in> set d \<Longrightarrow> g (f (snd x)) = h (snd x)"
  shows "sort_key fst (map (map_prod id g) (sort_key fst (map (map_prod id f) d))) = sort_key fst (map (map_prod id h) d)"
proof -
  have "map (map_prod id g) (sort_key fst (map (map_prod id f) d))
      = sort_key fst (map (map_prod id g) (map (map_prod id f) d))"
    by (rule sort_key_map [symmetric]) simp
  also have "map (map_prod id g) (map (map_prod id f) d) = map (map_prod id h) d"
    using assms by (auto simp: map_prod_def split_def)
  finally have eq: "map (map_prod id g) (sort_key fst (map (map_prod id f) d)) = sort_key fst (map (map_prod id h) d)" .
  show ?thesis unfolding eq by (rule sort_key_id_if_sorted) (rule sorted_sort_key)
qed

lemma canon_canon: "canon (canon v) = canon v"
proof (induction v)
  case (JObj d)
  then have "sort_key fst (map (map_prod id canon) (sort_key fst (map (map_prod id canon) d)))
      = sort_key fst (map (map_prod id canon) d)"
    by (intro sort_values_twice) (auto simp: snds.simps)
  then show ?case by simp
qed auto

text \<open>\<open>str.strip()\<close> and \<open>str.isspace()\<close> on ASCII text.\<close>

definition py_space :: "char \<Rightarrow> bool" where
  "py_space c \<longleftrightarrow> (let n = of_char c :: nat in 9 \<le> n \<and> n \<le> 13 \<or> 28 \<le> n \<and> n \<le> 32)"

definition py_strip :: "string \<Rightarrow> string" where
  "py_strip s = rev (dropWhile py_space (rev (dropWhile py_space s)))"

definition py_blank :: "string \<Rightarrow> bool" where
  "py_blank s \<longleftrightarrow> list_all py_space s"

lemma all_dropWhile: "(\<forall>x \<in> set (dropWhile p s). p x) \<longleftrightarrow> (\<forall>x \<in> set s. p x)"
  by (induction s) auto

lemma py_strip_blank: "py_strip s = [] \<longleftrightarrow> py_blank s"
  by (simp add: py_strip_def py_blank_def list_all_iff dropWhile_eq_Nil_conv all_dropWhile)

text \<open>\<open>str.lower()\<close> on ASCII text.\<close>

definition char_lower :: "char \<Rightarrow> char" where
  "char_lower c = (let n = of_char c :: nat in if 65 \<le> n \<and> n \<le> 90 then char_of (n + 32) else c)"

definition py_lower :: "string \<Rightarrow> string" where
  "py_lower s = map char_lower s"

text \<open>Python's \<open>round\<close> to an integer: half to even.\<close>

definition py_round :: "rat \<Rightarrow> int" where
  "py_round q =
     (let f = \<lfloor>q\<rfloor>; r = q - of_int f
      in if r < 1 / 2 then f else if 1 / 2 < r then f + 1 else if even f then f else f + 1)"

lemma py_round_of_int [simp]: "py_round (of_int i) = i"
  by (simp add: py_round_def)

lemma py_round_near: "\<bar>of_int (py_round q) - q\<bar> \<le> 1 / 2"
proof -
  have "0 \<le> q - of_int \<lfloor>q\<rfloor>" "q - of_int \<lfloor>q\<rfloor> < 1"
    by linarith+
  then show ?thesis
    by (auto simp: py_round_def Let_def abs_le_iff)
qed

lemma py_round_nonneg: "0 \<le> q \<Longrightarrow> 0 \<le> py_round q"
  by (auto simp: py_round_def Let_def)

lemma py_round_mono: "p \<le> q \<Longrightarrow> py_round p \<le> py_round q"
proof -
  assume pq: "p \<le> q"
  show "py_round p \<le> py_round q"
  proof (cases "\<lfloor>p\<rfloor> = \<lfloor>q\<rfloor>")
    case True
    with pq show ?thesis by (auto simp: py_round_def Let_def)
  next
    case False
    with floor_mono [OF pq] have "\<lfloor>p\<rfloor> + 1 \<le> \<lfloor>q\<rfloor>" by linarith
    then show ?thesis by (auto simp: py_round_def Let_def)
  qed
qed

text \<open>Decimal rendering of an integer: \<open>str(i)\<close>.\<close>

fun nat_digits :: "nat \<Rightarrow> string" where
  "nat_digits n = (if n < 10 then [char_of (48 + n)]
                   else nat_digits (n div 10) @ [char_of (48 + n mod 10)])"

declare nat_digits.simps [simp del]

definition py_str_int :: "int \<Rightarrow> string" where
  "py_str_int i = (if i < 0 then CHR ''-'' # nat_digits (nat (- i)) else nat_digits (nat i))"

end
