(* ===== verification/ProvEvents.thy ===== *)
theory ProvEvents
  imports PyValue
begin

text \<open>
  The EventV2 contract (\<open>src/local_agent_dispatch/domain/events.py\<close>): the vocabulary of
  provenance events, \<open>stable_id\<close>, \<open>new_event\<close> and \<open>validate_event\<close>, which is checked in the
  order of the code and reports the first violation.

  \<open>uuid.uuid5\<close> in the module's namespace is the parameter \<open>u5\<close> of the definitions that build
  identifiers. The two regular expressions are matchers on text; as in Python, \<open>$\<close> also matches
  before a final newline. Text is ASCII.
\<close>

section \<open>Vocabulary\<close>

definition attempt_event_types :: "string list" where
  "attempt_event_types =
     [''attempt.queued'', ''attempt.reserved'', ''attempt.claimed'', ''attempt.started'',
      ''attempt.heartbeat'', ''artifact.observed'', ''attempt.validation'', ''attempt.completed'',
      ''attempt.failed'', ''attempt.abandoned'', ''attempt.review'', ''claim.promoted'',
      ''run.segment.started'', ''run.segment.finished'', ''run.segment.adopted'',
      ''checkpoint.recorded'', ''cleanup.intent'']"

definition event_types :: "string list" where
  "event_types = attempt_event_types"

definition id_kinds :: "string list" where
  "id_kinds =
     [''mission'', ''task'', ''plan_revision'', ''assignment'', ''reservation'', ''attempt'',
      ''event'', ''observation'', ''artifact'', ''claim'', ''human_decision'',
      ''policy_version'', ''legacy'', ''reconcile'']"

definition privacy_classes :: "string list" where
  "privacy_classes = [''public'', ''internal'', ''private'', ''unknown'']"

definition review_decisions :: "string list" where
  "review_decisions = [''approve'', ''abandon'', ''reroute'', ''escalate'']"

definition validation_outcomes :: "string list" where
  "validation_outcomes = [''passed'', ''failed'']"

definition evidence_qualities :: "string list" where
  "evidence_qualities = [''full'', ''legacy_incomplete'', ''reconciled'', ''unknown'']"

definition digest_fields :: "string list" where
  "digest_fields =
     [''cps_digest'', ''source_digest'', ''worktree_digest'', ''prompt_digest'',
      ''artifact_digest'', ''claim_contract_digest'']"

definition string_ref_fields :: "string list" where
  "string_ref_fields =
     [''mission_id'', ''task_id'', ''plan_revision_id'', ''assignment_id'', ''reservation_id'',
      ''policy_version_id'', ''run_id'', ''segment_id'', ''checkpoint_id'', ''provider'',
      ''pool_id'', ''model_id'', ''model_variant'', ''execution_host'', ''workload_host'',
      ''mount'', ''route'', ''validator'', ''prompt_ref'', ''claim_id'', ''review_event_id'']"

section \<open>Patterns\<close>

definition is_digit :: "char \<Rightarrow> bool" where
  "is_digit c \<longleftrightarrow> (let n = of_char c :: nat in 48 \<le> n \<and> n \<le> 57)"

definition is_lower_hex :: "char \<Rightarrow> bool" where
  "is_lower_hex c \<longleftrightarrow> is_digit c \<or> (let n = of_char c :: nat in 97 \<le> n \<and> n \<le> 102)"

text \<open>A template matches text of its shape: \<open>d\<close> stands for a digit, any other character for
  itself. The result is what follows the match.\<close>

fun match_template :: "string \<Rightarrow> string \<Rightarrow> string option" where
  "match_template [] s = Some s"
| "match_template (t # ts) [] = None"
| "match_template (t # ts) (c # cs) =
     (if (if t = CHR ''d'' then is_digit c else c = t) then match_template ts cs else None)"

definition match_zone :: "string \<Rightarrow> bool" where
  "match_zone s \<longleftrightarrow> s = ''Z'' \<or> match_template ''+dd:dd'' s = Some [] \<or> match_template ''-dd:dd'' s = Some []"

definition match_fraction_zone :: "string \<Rightarrow> bool" where
  "match_fraction_zone s \<longleftrightarrow>
     match_zone s \<or>
     (s \<noteq> [] \<and> hd s = CHR ''.'' \<and> takeWhile is_digit (tl s) \<noteq> [] \<and> match_zone (dropWhile is_digit (tl s)))"

definition at_end :: "(string \<Rightarrow> bool) \<Rightarrow> string \<Rightarrow> bool" where
  "at_end p s \<longleftrightarrow> p s \<or> s \<noteq> [] \<and> of_char (last s) = (10::nat) \<and> p (butlast s)"

definition timestamp_re :: "string \<Rightarrow> bool" where
  "timestamp_re = at_end (\<lambda>s. case match_template ''dddd-dd-ddTdd:dd:dd'' s of
     None \<Rightarrow> False | Some r \<Rightarrow> match_fraction_zone r)"

definition is_digest_of :: "string \<Rightarrow> nat \<Rightarrow> string \<Rightarrow> bool" where
  "is_digest_of algo n s \<longleftrightarrow>
     take (length algo) s = algo \<and> length s = length algo + n \<and> list_all is_lower_hex (drop (length algo) s)"

definition digest_re :: "string \<Rightarrow> bool" where
  "digest_re = at_end (\<lambda>s. is_digest_of ''sha256:'' 64 s \<or> is_digest_of ''sha512:'' 128 s)"

section \<open>Identifiers and construction\<close>

fun join_colon :: "string list \<Rightarrow> string" where
  "join_colon [] = []"
| "join_colon [p] = p"
| "join_colon (p # ps) = p @ '':'' @ join_colon ps"

text \<open>\<open>None\<close> is the \<open>StableIdError\<close> of an unknown kind.\<close>

definition stable_id :: "(string \<Rightarrow> string) \<Rightarrow> string \<Rightarrow> string list \<Rightarrow> string option" where
  "stable_id u5 kind parts =
     (if kind \<in> set id_kinds then Some (kind @ '':'' @ u5 (join_colon parts)) else None)"

definition event_id_for :: "(string \<Rightarrow> string) \<Rightarrow> string \<Rightarrow> string" where
  "event_id_for u5 key = ''event:'' @ u5 key"

lemma stable_id_event: "stable_id u5 ''event'' [key] = Some (event_id_for u5 key)"
  by (simp add: stable_id_def event_id_for_def id_kinds_def)

text \<open>\<open>new_event\<close>; \<open>now\<close> stands for \<open>now_iso()\<close>, read when no time stamp is given.\<close>

definition new_event ::
  "(string \<Rightarrow> string) \<Rightarrow> string \<Rightarrow> string \<Rightarrow> string \<Rightarrow> string \<Rightarrow> string option \<Rightarrow> json \<Rightarrow> string option \<Rightarrow>
    json \<Rightarrow> string option \<Rightarrow> string option \<Rightarrow> dict \<Rightarrow> dict" where
  "new_event u5 now etype source idem parent confidence tstamp privacy eid attempt payload =
     dupdate
       ([(''schema_version'', JInt 2),
         (''event_id'', JStr (if otext eid = [] then event_id_for u5 idem else otext eid)),
         (''event_type'', JStr etype),
         (''timestamp'', JStr (if otext tstamp = [] then now else otext tstamp)),
         (''causal_parent'', jopt parent),
         (''source'', JStr source),
         (''confidence'', confidence),
         (''privacy_class'', privacy),
         (''idempotency_key'', JStr idem)]
        @ (case attempt of None \<Rightarrow> [] | Some a \<Rightarrow> [(''attempt_id'', JStr a)]))
       payload"

section \<open>Validation\<close>

datatype event_error =
    BadSchemaVersion | BadEventType | BadEventId | BadTimestamp | BadCausalParent | BadSource
  | BadConfidence | BadPrivacyClass | BadIdempotencyKey | BadDigest string | BadReference string
  | MissingField string | BadOutcome | BadDecision | BadEvidenceQuality

definition first_error :: "(bool \<times> 'e) list \<Rightarrow> 'e option" where
  "first_error checks = map_option snd (List.find fst checks)"

definition valid_confidence :: "json \<Rightarrow> bool" where
  "valid_confidence v = (case v of JInt i \<Rightarrow> 0 \<le> i \<and> i \<le> 1 | JFloat q \<Rightarrow> 0 \<le> q \<and> q \<le> 1 | _ \<Rightarrow> False)"

definition valid_parent :: "dict \<Rightarrow> bool" where
  "valid_parent e = (case dget e ''causal_parent'' of None \<Rightarrow> False
     | Some v \<Rightarrow> v = JNull \<or> nonempty_str v)"

definition valid_digest :: "json \<Rightarrow> bool" where
  "valid_digest v = (case v of JStr s \<Rightarrow> digest_re s | _ \<Rightarrow> False)"

definition valid_timestamp :: "json \<Rightarrow> bool" where
  "valid_timestamp v = (case v of JStr s \<Rightarrow> timestamp_re s | _ \<Rightarrow> False)"

definition prefix_of :: "string \<Rightarrow> string \<Rightarrow> bool" where
  "prefix_of p s \<longleftrightarrow> take (length p) s = p"

text \<open>The checks every event passes, then those of the event's own type.\<close>

definition common_checks :: "dict \<Rightarrow> (bool \<times> event_error) list" where
  "common_checks e =
     [(\<not> py_eq (dget0 e ''schema_version'') (JInt 2), BadSchemaVersion),
      (\<not> str_in (dget0 e ''event_type'') event_types, BadEventType),
      (\<not> nonempty_str (dget0 e ''event_id''), BadEventId),
      (\<not> valid_timestamp (dget0 e ''timestamp''), BadTimestamp),
      (\<not> valid_parent e, BadCausalParent),
      (\<not> nonempty_str (dget0 e ''source''), BadSource),
      (\<not> valid_confidence (dget0 e ''confidence''), BadConfidence),
      (\<not> str_in (dget0 e ''privacy_class'') privacy_classes, BadPrivacyClass),
      (\<not> nonempty_str (dget0 e ''idempotency_key''), BadIdempotencyKey)]
     @ map (\<lambda>f. (dget0 e f \<noteq> JNull \<and> \<not> valid_digest (dget0 e f), BadDigest f)) digest_fields
     @ map (\<lambda>f. (dget0 e f \<noteq> JNull \<and> \<not> nonempty_str (dget0 e f), BadReference f)) string_ref_fields"

definition type_checks :: "dict \<Rightarrow> (bool \<times> event_error) list" where
  "type_checks e =
     (let t = jtxt (dget0 e ''event_type'');
          missing = (\<lambda>f. (\<not> nonempty_str (dget0 e f), MissingField f))
      in (if prefix_of ''attempt.'' t \<or> prefix_of ''artifact.'' t then [missing ''attempt_id''] else [])
         @ (if t = ''artifact.observed'' then map missing [''artifact_id'', ''artifact_digest''] else [])
         @ (if t = ''attempt.validation''
            then [(\<not> str_in (dget0 e ''outcome'') validation_outcomes, BadOutcome)] else [])
         @ (if t = ''attempt.review''
            then [(\<not> str_in (dget0 e ''decision'') review_decisions, BadDecision)] else [])
         @ (if t = ''claim.promoted''
            then map missing [''attempt_id'', ''claim_id'', ''review_event_id'']
                 @ [(\<not> valid_digest (dget0 e ''claim_contract_digest''), BadDigest ''claim_contract_digest''),
                    (dget0 e ''decision'' \<noteq> JStr ''approve'', BadDecision)]
            else [])
         @ [(dget0 e ''evidence_quality'' \<noteq> JNull \<and> \<not> str_in (dget0 e ''evidence_quality'') evidence_qualities,
             BadEvidenceQuality)])"

text \<open>\<open>None\<close> when the event satisfies the contract.\<close>

definition validate_event :: "dict \<Rightarrow> event_error option" where
  "validate_event e = first_error (common_checks e @ type_checks e)"

section \<open>What validation guarantees\<close>

lemma first_error_None: "first_error cs = None \<longleftrightarrow> (\<forall>c \<in> set cs. \<not> fst c)"
  by (auto simp: first_error_def find_None_iff)

lemma nonempty_str_iff: "nonempty_str v \<longleftrightarrow> (\<exists>s. v = JStr s \<and> s \<noteq> [])"
  by (cases v) auto

lemma str_in_iff: "str_in v xs \<longleftrightarrow> (\<exists>s. v = JStr s \<and> s \<in> set xs)"
  by (cases v) auto

lemma valid_parent_iff:
  "valid_parent e \<longleftrightarrow> dget e ''causal_parent'' = Some JNull
     \<or> (\<exists>s. dget e ''causal_parent'' = Some (JStr s) \<and> s \<noteq> [])"
  by (auto simp: valid_parent_def nonempty_str_iff split: option.splits)

lemma valid_event_common:
  assumes "validate_event e = None" and "(b, x) \<in> set (common_checks e)"
  shows "\<not> b"
proof -
  have "(b, x) \<in> set (common_checks e @ type_checks e)"
    using assms(2) by simp
  with assms(1) show ?thesis
    unfolding validate_event_def first_error_None by (metis fst_conv)
qed

lemma valid_event_type_check:
  assumes "validate_event e = None" and "(b, x) \<in> set (type_checks e)"
  shows "\<not> b"
proof -
  have "(b, x) \<in> set (common_checks e @ type_checks e)"
    using assms(2) by simp
  with assms(1) show ?thesis
    unfolding validate_event_def first_error_None by (metis fst_conv)
qed

lemma valid_event_id: "validate_event e = None \<Longrightarrow> \<exists>s. dget0 e ''event_id'' = JStr s \<and> s \<noteq> []"
  using valid_event_common [of e "\<not> nonempty_str (dget0 e ''event_id'')" BadEventId]
  by (auto simp: common_checks_def nonempty_str_iff str_in_iff)

lemma valid_event_key: "validate_event e = None \<Longrightarrow> \<exists>s. dget0 e ''idempotency_key'' = JStr s \<and> s \<noteq> []"
  using valid_event_common [of e "\<not> nonempty_str (dget0 e ''idempotency_key'')" BadIdempotencyKey]
  by (auto simp: common_checks_def nonempty_str_iff str_in_iff)

lemma valid_event_type: "validate_event e = None \<Longrightarrow> \<exists>s. dget0 e ''event_type'' = JStr s \<and> s \<in> set event_types"
  using valid_event_common [of e "\<not> str_in (dget0 e ''event_type'') event_types" BadEventType]
  by (auto simp: common_checks_def nonempty_str_iff str_in_iff)

lemma valid_event_parent: "validate_event e = None \<Longrightarrow> valid_parent e"
  using valid_event_common [of e "\<not> valid_parent e" BadCausalParent]
  by (auto simp: common_checks_def nonempty_str_iff str_in_iff)

lemma promotion_checks:
  assumes "dget0 e ''event_type'' = JStr ''claim.promoted''"
  shows "(\<not> nonempty_str (dget0 e ''attempt_id''), MissingField ''attempt_id'') \<in> set (type_checks e)"
    and "(\<not> nonempty_str (dget0 e ''review_event_id''), MissingField ''review_event_id'') \<in> set (type_checks e)"
    and "(\<not> valid_digest (dget0 e ''claim_contract_digest''), BadDigest ''claim_contract_digest'') \<in> set (type_checks e)"
    and "(dget0 e ''decision'' \<noteq> JStr ''approve'', BadDecision) \<in> set (type_checks e)"
  using assms by (simp_all add: type_checks_def Let_def)

lemma valid_promotion_fields:
  assumes "validate_event e = None" and "dget0 e ''event_type'' = JStr ''claim.promoted''"
  shows "\<exists>a. dget0 e ''attempt_id'' = JStr a \<and> a \<noteq> []"
    and "\<exists>r. dget0 e ''review_event_id'' = JStr r \<and> r \<noteq> []"
    and "valid_digest (dget0 e ''claim_contract_digest'')"
    and "dget0 e ''decision'' = JStr ''approve''"
  using promotion_checks [OF assms(2), THEN valid_event_type_check [OF assms(1)]]
  by (simp_all add: nonempty_str_iff)

lemma dupdate_Nil [simp]: "dupdate d [] = d"
  by (simp add: dupdate_def)

lemma dget_dupdate:
  "dget (dupdate d e) k = (case map_of (rev e) k of None \<Rightarrow> dget d k | Some v \<Rightarrow> Some v)"
proof (induction e arbitrary: d)
  case (Cons kv e)
  obtain a v where kv: "kv = (a, v)" by fastforce
  have "dupdate d (kv # e) = dupdate (dput a v d) e"
    by (simp add: dupdate_def kv)
  then show ?case
    using Cons.IH [of "dput a v d"] by (auto simp: kv map_add_def split: option.splits)
qed (simp add: dupdate_def)

lemma map_of_rev_None: "map_of (rev e) k = None \<longleftrightarrow> k \<notin> fst ` set e"
  by (simp add: map_of_eq_None_iff)

lemma dget0_dget: "dget0 d k = (case dget d k of None \<Rightarrow> JNull | Some v \<Rightarrow> v)"
  by (simp add: dget0_def dget_def)

text \<open>A field the payload does not name keeps the value \<open>new_event\<close> gave it.\<close>

lemma new_event_field:
  assumes "k \<notin> fst ` set payload"
  shows "dget (new_event u5 now etype source idem parent confidence tstamp privacy eid attempt payload) k
    = dget (new_event u5 now etype source idem parent confidence tstamp privacy eid attempt []) k"
  using assms unfolding new_event_def dget_dupdate by (simp add: map_of_rev_None [THEN iffD2])

lemma new_event_payload:
  assumes "wf_dict payload" and "(k, v) \<in> set payload"
  shows "dget (new_event u5 now etype source idem parent confidence tstamp privacy eid attempt payload) k = Some v"
proof -
  have "map_of (rev payload) k = Some v"
    using assms by (intro map_of_is_SomeI) (auto simp: wf_dict_def rev_map [symmetric])
  then show ?thesis
    by (simp add: new_event_def dget_dupdate)
qed

end
