(* ===== verification/CausalLedger.thy ===== *)
theory CausalLedger
  imports ProvEvents
begin

text \<open>
  The contract of a causal ledger, independent of where it is stored: an append-only log of
  EventV2 records in which identifiers and idempotency keys are unique, every causal parent is
  an earlier record, and a claim is promoted only on the evidence of its attempt.

  The program keeps two such ledgers, the in-memory \<open>EventStore\<close>
  (\<open>src/local_agent_dispatch/ledger/store.py\<close>) and the \<open>provenance_events\<close> table of
  \<open>scripts/sqlite_store.py\<close>. The locale \<open>causal_ledger\<close> states what one append may do to the
  log; its lemmas hold after any sequence of appends. It is interpreted on both models, in
  \<open>EventLedger\<close> and \<open>StoreProvenance\<close>. The gate of claim promotion, which the two files repeat
  line by line, is defined here once.
\<close>

section \<open>Records\<close>

definition ev_id :: "dict \<Rightarrow> string" where
  "ev_id e = jtxt (dget0 e ''event_id'')"

definition ev_key :: "dict \<Rightarrow> string" where
  "ev_key e = jtxt (dget0 e ''idempotency_key'')"

definition ev_is :: "string \<Rightarrow> dict \<Rightarrow> bool" where
  "ev_is t e \<longleftrightarrow> dget0 e ''event_type'' = JStr t"

text \<open>The parent reference: \<open>None\<close> for an explicit null.\<close>

definition ev_parent :: "dict \<Rightarrow> string option" where
  "ev_parent e = (case dget0 e ''causal_parent'' of JStr p \<Rightarrow> Some p | _ \<Rightarrow> None)"

section \<open>The promotion gate\<close>

datatype gate_error =
    GateNoCompletion | GateValidationNotPassed | GateNoApprovedReview | GateWrongParent | GateWrongReview

text \<open>\<open>chain\<close> is the attempt's records in append order, \<open>rec\<close> the offered promotion.\<close>

definition promotion_gate :: "dict list \<Rightarrow> dict \<Rightarrow> gate_error option" where
  "promotion_gate chain rec =
     (let validations = filter (ev_is ''attempt.validation'') chain;
          reviews = filter (ev_is ''attempt.review'') chain
      in first_error
        [(\<not> list_ex (ev_is ''attempt.completed'') chain, GateNoCompletion),
         (validations = [] \<or> dget0 (last validations) ''outcome'' \<noteq> JStr ''passed'', GateValidationNotPassed),
         (reviews = [] \<or> dget0 (last reviews) ''decision'' \<noteq> JStr ''approve'', GateNoApprovedReview),
         (dget0 rec ''causal_parent'' \<noteq> dget0 (last reviews) ''event_id'', GateWrongParent),
         (dget0 rec ''review_event_id'' \<noteq> dget0 rec ''causal_parent'', GateWrongReview)])"

text \<open>What an open gate shows: the evidence the promotion rests on.\<close>

definition supported :: "dict list \<Rightarrow> dict \<Rightarrow> bool" where
  "supported chain rec \<longleftrightarrow>
     (\<exists>c \<in> set chain. ev_is ''attempt.completed'' c) \<and>
     (\<exists>xs v ys. chain = xs @ v # ys \<and> ev_is ''attempt.validation'' v
        \<and> dget0 v ''outcome'' = JStr ''passed''
        \<and> (\<forall>y \<in> set ys. \<not> ev_is ''attempt.validation'' y)) \<and>
     (\<exists>xs r ys. chain = xs @ r # ys \<and> ev_is ''attempt.review'' r
        \<and> dget0 r ''decision'' = JStr ''approve''
        \<and> (\<forall>y \<in> set ys. \<not> ev_is ''attempt.review'' y)
        \<and> dget0 rec ''causal_parent'' = dget0 r ''event_id''
        \<and> dget0 rec ''review_event_id'' = dget0 r ''event_id'')"

lemma last_filter_split:
  "filter p xs \<noteq> [] \<Longrightarrow> \<exists>us v ws. xs = us @ v # ws \<and> v = last (filter p xs) \<and> p v \<and> (\<forall>w \<in> set ws. \<not> p w)"
proof (induction xs rule: rev_induct)
  case (snoc x xs)
  show ?case
  proof (cases "p x")
    case True
    then show ?thesis by (intro exI [of _ xs] exI [of _ x] exI [of _ "[]"]) simp
  next
    case False
    with snoc obtain us v ws where "xs = us @ v # ws" "v = last (filter p xs)" "p v" "\<forall>w \<in> set ws. \<not> p w"
      by auto
    with False show ?thesis
      by (intro exI [of _ us] exI [of _ v] exI [of _ "ws @ [x]"]) auto
  qed
qed simp

lemma last_filter_unsplit:
  "p v \<Longrightarrow> \<forall>w \<in> set ws. \<not> p w \<Longrightarrow> filter p (us @ v # ws) \<noteq> [] \<and> last (filter p (us @ v # ws)) = v"
  by (induction ws rule: rev_induct) auto

lemma promotion_gate_open: "promotion_gate chain rec = None \<longleftrightarrow> supported chain rec"
proof
  assume "promotion_gate chain rec = None"
  then have g: "list_ex (ev_is ''attempt.completed'') chain"
    "filter (ev_is ''attempt.validation'') chain \<noteq> []"
    "dget0 (last (filter (ev_is ''attempt.validation'') chain)) ''outcome'' = JStr ''passed''"
    "filter (ev_is ''attempt.review'') chain \<noteq> []"
    "dget0 (last (filter (ev_is ''attempt.review'') chain)) ''decision'' = JStr ''approve''"
    "dget0 rec ''causal_parent'' = dget0 (last (filter (ev_is ''attempt.review'') chain)) ''event_id''"
    "dget0 rec ''review_event_id'' = dget0 rec ''causal_parent''"
    by (auto simp: promotion_gate_def Let_def first_error_None)
  show "supported chain rec"
    unfolding supported_def
    using g(1,3,5-7) last_filter_split [OF g(2)] last_filter_split [OF g(4)]
    unfolding list_ex_iff by metis
next
  assume s: "supported chain rec"
  then obtain xs v ys where v: "chain = xs @ v # ys" "ev_is ''attempt.validation'' v"
      "dget0 v ''outcome'' = JStr ''passed''" "\<forall>y \<in> set ys. \<not> ev_is ''attempt.validation'' y"
    unfolding supported_def by metis
  from s obtain us r ws where r: "chain = us @ r # ws" "ev_is ''attempt.review'' r"
      "dget0 r ''decision'' = JStr ''approve''" "\<forall>y \<in> set ws. \<not> ev_is ''attempt.review'' y"
      "dget0 rec ''causal_parent'' = dget0 r ''event_id''" "dget0 rec ''review_event_id'' = dget0 r ''event_id''"
    unfolding supported_def by metis
  from s have "list_ex (ev_is ''attempt.completed'') chain"
    by (auto simp: supported_def list_ex_iff)
  then show "promotion_gate chain rec = None"
    using last_filter_unsplit [OF v(2,4), of xs, folded v(1)]
      last_filter_unsplit [OF r(2,4), of us, folded r(1)] v(3) r(3,5,6)
    by (simp add: promotion_gate_def Let_def first_error_None)
qed

section \<open>Sound logs\<close>

text \<open>
  \<open>att\<close> reads the attempt a record belongs to: the two ledgers differ only in how they compare
  that field.
\<close>

definition chain_of :: "(dict \<Rightarrow> string option) \<Rightarrow> dict list \<Rightarrow> string \<Rightarrow> dict list" where
  "chain_of att hist a = filter (\<lambda>e. att e = Some a) hist"

definition fits :: "(dict \<Rightarrow> string option) \<Rightarrow> dict list \<Rightarrow> dict \<Rightarrow> bool" where
  "fits att hist e \<longleftrightarrow>
     validate_event e = None \<and>
     ev_id e \<notin> ev_id ` set hist \<and>
     ev_key e \<notin> ev_key ` set hist \<and>
     (\<forall>p. ev_parent e = Some p \<longrightarrow> p \<in> ev_id ` set hist) \<and>
     (ev_is ''claim.promoted'' e \<longrightarrow> supported (chain_of att hist (jtxt (dget0 e ''attempt_id''))) e)"

definition sound_log :: "(dict \<Rightarrow> string option) \<Rightarrow> dict list \<Rightarrow> bool" where
  "sound_log att hist \<longleftrightarrow> (\<forall>i < length hist. fits att (take i hist) (hist ! i))"

lemma sound_log_Nil [simp]: "sound_log att []"
  by (simp add: sound_log_def)

lemma sound_log_snoc [simp]: "sound_log att (hist @ [e]) \<longleftrightarrow> sound_log att hist \<and> fits att hist e"
  unfolding sound_log_def by (auto simp: less_Suc_eq nth_append)

lemma sound_log_ids: "sound_log att hist \<Longrightarrow> distinct (map ev_id hist)"
  by (induction hist rule: rev_induct) (auto simp: fits_def)

lemma sound_log_keys: "sound_log att hist \<Longrightarrow> distinct (map ev_key hist)"
  by (induction hist rule: rev_induct) (auto simp: fits_def)

lemma sound_log_split:
  "sound_log att (xs @ e # ys) \<Longrightarrow> fits att xs e"
  unfolding sound_log_def by (auto dest!: spec [of _ "length xs"])

lemma sound_log_append: "sound_log att (xs @ ys) \<Longrightarrow> sound_log att xs"
  by (induction ys rule: rev_induct) (auto simp: append_assoc [symmetric] simp del: append_assoc)

text \<open>Every parent is an earlier record, so following parents ends at a root.\<close>

lemma sound_log_parent:
  assumes "sound_log att hist" and "e \<in> set hist" and "ev_parent e = Some p"
  shows "\<exists>xs f ys zs. hist = xs @ f # ys @ e # zs \<and> ev_id f = p"
proof -
  obtain us zs where us: "hist = us @ e # zs"
    using assms(2) by (meson split_list)
  with sound_log_split [of att us e zs] assms(1,3) obtain f where "f \<in> set us" "ev_id f = p"
    by (auto simp: fits_def)
  then obtain xs ys where "us = xs @ f # ys"
    by (meson split_list)
  with us \<open>ev_id f = p\<close> show ?thesis by auto
qed

lemma sound_log_promotion:
  assumes "sound_log att hist" and "e \<in> set hist" and "ev_is ''claim.promoted'' e"
  shows "\<exists>xs ys. hist = xs @ e # ys \<and> supported (chain_of att xs (jtxt (dget0 e ''attempt_id''))) e"
proof -
  obtain us zs where us: "hist = us @ e # zs"
    using assms(2) by (meson split_list)
  with sound_log_split [of att us e zs] assms(1,3) show ?thesis
    by (auto simp: fits_def)
qed

section \<open>The interface\<close>

text \<open>
  A store with a view \<open>hist\<close> of its log and an operation \<open>offer\<close> that may refuse a record, find
  it already present, or append it when it fits.
\<close>

locale causal_ledger =
  fixes att :: "dict \<Rightarrow> string option"
    and hist :: "'s \<Rightarrow> dict list"
    and ok :: "'s \<Rightarrow> bool"
    and offer :: "dict \<Rightarrow> 's \<Rightarrow> 'e + ('r \<times> 's)"
  assumes offer_effect: "ok s \<Longrightarrow> offer e s = Inr (r, s') \<Longrightarrow>
      hist s' = hist s \<or> hist s' = hist s @ [e] \<and> fits att (hist s) e"
    and offer_ok: "ok s \<Longrightarrow> offer e s = Inr (r, s') \<Longrightarrow> ok s'"
begin

text \<open>A run of offers: refused ones leave the store as it is.\<close>

definition offers :: "dict list \<Rightarrow> 's \<Rightarrow> 's" where
  "offers es s = fold (\<lambda>e. tx_state (offer e)) es s"

lemma offers_Nil [simp]: "offers [] s = s"
  by (simp add: offers_def)

lemma offers_Cons [simp]: "offers (e # es) s = offers es (tx_state (offer e) s)"
  by (simp add: offers_def)

lemma state_ok: "ok s \<Longrightarrow> ok (tx_state (offer e) s)"
  using offer_ok by (auto simp: tx_state_def split: sum.splits prod.splits)

lemma state_effect:
  "ok s \<Longrightarrow> hist (tx_state (offer e) s) = hist s \<or>
    hist (tx_state (offer e) s) = hist s @ [e] \<and> fits att (hist s) e"
  using offer_effect by (auto simp: tx_state_def split: sum.splits prod.splits)

lemma offers_ok: "ok s \<Longrightarrow> ok (offers es s)"
  by (induction es arbitrary: s) (auto intro: state_ok)

lemma state_sound: "ok s \<Longrightarrow> sound_log att (hist s) \<Longrightarrow> sound_log att (hist (tx_state (offer e) s))"
  using state_effect [of s e] by auto

lemma offers_sound: "ok s \<Longrightarrow> sound_log att (hist s) \<Longrightarrow> sound_log att (hist (offers es s))"
  by (induction es arbitrary: s) (auto intro: state_ok state_sound)

lemma offers_append_only: "ok s \<Longrightarrow> \<exists>new. hist (offers es s) = hist s @ new \<and> set new \<subseteq> set es"
proof (induction es arbitrary: s)
  case (Cons e es)
  from Cons.IH [OF state_ok [OF Cons.prems]] obtain new where
    new: "hist (offers es (tx_state (offer e) s)) = hist (tx_state (offer e) s) @ new" "set new \<subseteq> set es"
    by metis
  from state_effect [OF Cons.prems, of e] show ?case
  proof
    assume "hist (tx_state (offer e) s) = hist s"
    with new show ?case by (intro exI [of _ new]) auto
  next
    assume "hist (tx_state (offer e) s) = hist s @ [e] \<and> fits att (hist s) e"
    with new show ?case by (intro exI [of _ "e # new"]) auto
  qed
qed simp

lemma promoted_claims_supported:
  assumes "ok s" and "sound_log att (hist s)" and "e \<in> set (hist (offers es s))" and "ev_is ''claim.promoted'' e"
  shows "\<exists>xs ys. hist (offers es s) = xs @ e # ys
    \<and> supported (chain_of att xs (jtxt (dget0 e ''attempt_id''))) e"
  using sound_log_promotion [OF offers_sound [OF assms(1,2)] assms(3,4)] .

end

end
