(* ===== verification/Timestamps.thy ===== *)
theory Timestamps
  imports PyValue
begin

text \<open>
  The time stamps of the store (\<open>scripts/sqlite_store.py\<close>, \<open>utc_now\<close>, \<open>_parse_time\<close>,
  \<open>_is_expired\<close>, \<open>_lease_expiry\<close>).

  A stamp is text. The store writes \<open>datetime.isoformat()\<close> of an instant in UTC, reads stamps
  back with \<open>datetime.fromisoformat\<close> (the grammar of Python 3.10, the oldest version the
  project supports) and, inside SQL, compares them as text. An instant is its number of
  microseconds since 1970-01-01T00:00:00 UTC. The theory models both directions and proves
  that they agree on the stamps the store writes: reading returns the instant, and text order
  is the order of instants.
\<close>

section \<open>Calendar\<close>

definition days_before_year :: "int \<Rightarrow> int" where
  "days_before_year y = 365 * (y - 1) + (y - 1) div 4 - (y - 1) div 100 + (y - 1) div 400"

definition leap_year :: "int \<Rightarrow> bool" where
  "leap_year y \<longleftrightarrow> y mod 4 = 0 \<and> (y mod 100 \<noteq> 0 \<or> y mod 400 = 0)"

definition month_lengths :: "int \<Rightarrow> int list" where
  "month_lengths y = [31, if leap_year y then 29 else 28, 31, 30, 31, 30, 31, 31, 30, 31, 30, 31]"

lemma div_step:
  assumes "(0::int) < k"
  shows "(x + 1) div k = x div k + (if k dvd x + 1 then 1 else 0)"
proof -
  define q r where "q = x div k" and "r = x mod k"
  have x: "x = k * q + r" and r: "0 \<le> r" "r < k"
    using assms by (simp_all add: q_def r_def)
  show ?thesis
  proof (cases "r + 1 = k")
    case True
    with x have "x + 1 = k * q + k" by linarith
    then have x1: "x + 1 = k * (q + 1)" by (simp add: distrib_left)
    then have "(x + 1) div k = q + 1"
      using assms by simp
    moreover have "k dvd x + 1"
      using x1 by simp
    ultimately show ?thesis by (simp add: q_def)
  next
    case False
    with x r have *: "x + 1 = k * q + (r + 1)" "0 \<le> r + 1" "r + 1 < k"
      by linarith+
    from int_div_pos_eq [OF *] int_mod_pos_eq [OF *] r(1)
    have "(x + 1) div k = q" "(x + 1) mod k \<noteq> 0" by linarith+
    then show ?thesis by (simp add: q_def dvd_eq_mod_eq_0)
  qed
qed

lemma leap_sum:
  "(r \<Longrightarrow> q) \<Longrightarrow> (q \<Longrightarrow> p) \<Longrightarrow> (if p \<and> (\<not> q \<or> r) then 366 else 365) =
    365 + (if p then 1 else 0) - (if q then 1 else 0) + (if r then 1 else (0::int))"
  by (cases p; cases q; cases r; simp)

lemma year_sum:
  "(l::int) = 365 * y + a' - b' + c' \<Longrightarrow> a' = a + p \<Longrightarrow> b' = b + q \<Longrightarrow> c' = c + r \<Longrightarrow>
    l = 365 * (y - 1) + a - b + c + (365 + p - q + r)"
  by simp

lemma days_before_year_step:
  "days_before_year (y + 1) = days_before_year y + (if leap_year y then 366 else 365)"
proof -
  have s: "y div k = (y - 1) div k + (if k dvd y then 1 else 0)" if "0 < k" for k
    using div_step [OF that, of "y - 1"] unfolding diff_add_cancel .
  have d: "400 dvd y \<Longrightarrow> 100 dvd y" "100 dvd y \<Longrightarrow> 4 dvd y"
    by (erule dvd_trans [rotated], simp)+
  have l: "leap_year y \<longleftrightarrow> 4 dvd y \<and> (\<not> 100 dvd y \<or> 400 dvd y)"
    by (simp add: leap_year_def mod_eq_0_iff_dvd)
  have c: "(if leap_year y then 366 else 365) = 365 + (if 4 dvd y then 1 else 0)
      - (if 100 dvd y then 1 else 0) + (if 400 dvd y then 1 else (0::int))"
    unfolding l by (rule leap_sum) (use d in blast)+
  have k: "0 < (4::int)" "0 < (100::int)" "0 < (400::int)"
    by simp_all
  have "days_before_year (y + 1) = 365 * y + y div 4 - y div 100 + y div 400"
    by (simp add: days_before_year_def)
  then show ?thesis
    unfolding c days_before_year_def [of y]
    by (rule year_sum [OF _ s [OF k(1)] s [OF k(2)] s [OF k(3)]])
qed

lemma days_before_year_less: "days_before_year y < days_before_year (y + 1)"
  by (simp add: days_before_year_step)

lemma days_before_year_mono: "y \<le> z \<Longrightarrow> days_before_year y \<le> days_before_year z"
proof (induction z rule: int_ge_induct)
  case (step i)
  then show ?case using days_before_year_less [of i] by linarith
qed simp

text \<open>The year that contains a day of the proleptic calendar, by a search from below.\<close>

function year_from :: "int \<Rightarrow> int \<Rightarrow> int" where
  "year_from n y = (if days_before_year (y + 1) < n then year_from n (y + 1) else y)"
  by pat_completeness auto
termination
  by (relation "measure (\<lambda>(n, y). nat (n - days_before_year (y + 1)))")
    (use days_before_year_less [of "y + 1" for y] in \<open>auto simp: algebra_simps\<close>)

declare year_from.simps [simp del]

definition year_of :: "int \<Rightarrow> int" where
  "year_of n = year_from n ((n - 1) div 366 + 1)"

fun month_day :: "int list \<Rightarrow> int \<Rightarrow> int \<Rightarrow> int \<times> int" where
  "month_day [] m d = (m, d)"
| "month_day [l] m d = (m, d)"
| "month_day (l # ls) m d = (if d \<le> l then (m, d) else month_day ls (m + 1) (d - l))"

text \<open>\<open>date.toordinal\<close>: day 1 is 0001-01-01.\<close>

definition ordinal_of :: "int \<Rightarrow> int \<Rightarrow> int \<Rightarrow> int" where
  "ordinal_of y m d = days_before_year y + sum_list (take (nat (m - 1)) (month_lengths y)) + d"

lemma year_from_bounds:
  "days_before_year y < n \<Longrightarrow>
    days_before_year (year_from n y) < n \<and> n \<le> days_before_year (year_from n y + 1)"
proof (induction n y rule: year_from.induct)
  case (1 n y)
  then show ?case by (subst (1 2) year_from.simps) auto
qed

lemma year_of_bounds:
  assumes "1 \<le> n"
  shows "days_before_year (year_of n) < n" and "n \<le> days_before_year (year_of n + 1)"
proof -
  define q where "q = (n - 1) div 366"
  have q: "366 * q \<le> n - 1" "0 \<le> q"
    using assms unfolding q_def by (auto simp: pos_imp_zdiv_nonneg_iff)
  have "days_before_year (q + 1) \<le> 365 * q + q div 4 - q div 100 + q div 400"
    by (simp add: days_before_year_def)
  moreover have "q div 4 - q div 100 + q div 400 \<le> q"
  proof -
    have "q div 400 \<le> q div 100" using q(2) by (intro zdiv_mono2) auto
    moreover have "q div 4 \<le> q" using q(2) by presburger
    ultimately show ?thesis by linarith
  qed
  ultimately have "days_before_year (q + 1) < n"
    using q(1) by linarith
  from year_from_bounds [OF this]
  show "days_before_year (year_of n) < n" "n \<le> days_before_year (year_of n + 1)"
    by (simp_all add: year_of_def q_def)
qed

lemma year_of_unique:
  assumes "days_before_year y < n" and "n \<le> days_before_year (y + 1)" and "1 \<le> n"
  shows "year_of n = y"
proof -
  note b = year_of_bounds [OF assms(3)]
  show ?thesis
  proof (rule ccontr)
    assume "year_of n \<noteq> y"
    then consider "year_of n + 1 \<le> y" | "y + 1 \<le> year_of n" by linarith
    then show False
    proof cases
      case 1
      from days_before_year_mono [OF 1] b assms show False by linarith
    next
      case 2
      from days_before_year_mono [OF 2] b assms show False by linarith
    qed
  qed
qed

lemma year_of_mono:
  assumes "n \<le> n'" and "1 \<le> n"
  shows "year_of n \<le> year_of n'"
proof (rule ccontr)
  assume "\<not> year_of n \<le> year_of n'"
  then have "year_of n' + 1 \<le> year_of n" by linarith
  from days_before_year_mono [OF this] year_of_bounds [of n] year_of_bounds [of n'] assms
  show False by linarith
qed

lemma month_day_ge: "m \<le> fst (month_day ls m d)"
proof (induction ls m d rule: month_day.induct)
  case (3 l a ls m d)
  then show ?case by (auto split: if_splits)
qed auto

lemma month_day_less:
  "d < d' \<Longrightarrow> fst (month_day ls m d) < fst (month_day ls m d')
    \<or> fst (month_day ls m d) = fst (month_day ls m d') \<and> snd (month_day ls m d) < snd (month_day ls m d')"
proof (induction ls m d arbitrary: d' rule: month_day.induct)
  case (3 l a ls m d)
  show ?case
  proof (cases "d \<le> l \<and> l < d'")
    case True
    with month_day_ge [of "m + 1" "a # ls" "d' - l"] show ?thesis by auto
  next
    case False
    with 3 show ?thesis by auto
  qed
qed auto

text \<open>A day of the year splits into a month and a day of that month, and back.\<close>

lemma month_day_sum:
  assumes "ls \<noteq> []" and "1 \<le> d" and "d \<le> sum_list ls" and "list_all (\<lambda>l. 0 < l) ls"
  shows "\<exists>k < length ls. fst (month_day ls m d) = m + int k
     \<and> d = sum_list (take k ls) + snd (month_day ls m d)
     \<and> 1 \<le> snd (month_day ls m d) \<and> snd (month_day ls m d) \<le> ls ! k"
  using assms
proof (induction ls m d rule: month_day.induct)
  case (2 l m d)
  then show ?case by (intro exI [of _ 0]) auto
next
  case (3 l a ls m d)
  show ?case
  proof (cases "d \<le> l")
    case True
    with 3 show ?thesis by (intro exI [of _ 0]) auto
  next
    case False
    with 3 obtain k where k: "k < length (a # ls)"
        "fst (month_day (a # ls) (m + 1) (d - l)) = (m + 1) + int k"
        "d - l = sum_list (take k (a # ls)) + snd (month_day (a # ls) (m + 1) (d - l))"
        "1 \<le> snd (month_day (a # ls) (m + 1) (d - l))"
        "snd (month_day (a # ls) (m + 1) (d - l)) \<le> (a # ls) ! k"
      by auto
    with False show ?thesis
      by (intro exI [of _ "Suc k"]) auto
  qed
qed auto

lemma month_lengths_basic [simp]:
  "length (month_lengths y) = 12" "month_lengths y \<noteq> []" "list_all (\<lambda>l. 0 < l) (month_lengths y)"
  "sum_list (month_lengths y) = (if leap_year y then 366 else 365)"
  by (auto simp: month_lengths_def)

definition civil :: "int \<Rightarrow> int \<times> int \<times> int" where
  "civil n = (let y = year_of n; (m, d) = month_day (month_lengths y) 1 (n - days_before_year y)
              in (y, m, d))"

lemma civil_bounds:
  assumes "1 \<le> n" and "civil n = (y, m, d)"
  shows "y = year_of n" and "1 \<le> m" and "m \<le> 12" and "1 \<le> d"
    and "d \<le> month_lengths y ! nat (m - 1)" and "d \<le> 31" and "ordinal_of y m d = n"
proof -
  show y: "y = year_of n"
    using assms(2) by (auto simp: civil_def Let_def split: prod.splits)
  have md: "month_day (month_lengths y) 1 (n - days_before_year y) = (m, d)"
    using assms(2) y by (auto simp: civil_def Let_def split: prod.splits)
  have "1 \<le> n - days_before_year y"
    and "n - days_before_year y \<le> sum_list (month_lengths y)"
    using year_of_bounds [OF assms(1)] days_before_year_step [of y] y by auto
  from month_day_sum [OF _ this, of 1] md
  obtain k where k: "k < 12" "m = 1 + int k"
      "n - days_before_year y = sum_list (take k (month_lengths y)) + d"
      "1 \<le> d" "d \<le> month_lengths y ! k"
    by auto
  from k have "nat (m - 1) = k" by simp
  with k show "1 \<le> m" "m \<le> 12" "1 \<le> d" "d \<le> month_lengths y ! nat (m - 1)"
    "ordinal_of y m d = n"
    by (auto simp: ordinal_of_def)
  have "month_lengths y ! k \<le> 31"
    using k(1) by (auto simp: month_lengths_def nth_Cons split: nat.splits)
  with k show "d \<le> 31" by simp
qed

text \<open>Later days are later dates, field by field.\<close>

lemma civil_less:
  assumes "1 \<le> n" and "n < n'" and "civil n = (y, m, d)" and "civil n' = (y', m', d')"
  shows "y < y' \<or> y = y' \<and> (m < m' \<or> m = m' \<and> d < d')"
proof (cases "y = y'")
  case True
  have "y = year_of n" "y' = year_of n'"
    using assms by (auto intro: civil_bounds(1))
  with True assms(3,4)
  have "month_day (month_lengths y) 1 (n - days_before_year y) = (m, d)"
    and "month_day (month_lengths y) 1 (n' - days_before_year y) = (m', d')"
    by (auto simp: civil_def Let_def split: prod.splits)
  with month_day_less [of "n - days_before_year y" "n' - days_before_year y" "month_lengths y" 1]
    True assms(2) show ?thesis by auto
next
  case False
  have "y \<le> y'"
    using year_of_mono [of n n'] assms by (auto dest: civil_bounds(1) [rotated])
  with False show ?thesis by simp
qed

section \<open>Writing a stamp\<close>

text \<open>A number in decimal on a fixed width, leading zeros included.\<close>

fun pad :: "nat \<Rightarrow> int \<Rightarrow> string" where
  "pad 0 n = []"
| "pad (Suc w) n = pad w (n div 10) @ [char_of (48 + nat (n mod 10))]"

definition epoch_day :: int where
  "epoch_day = 719163"

definition day_us :: int where
  "day_us = 86400000000"

text \<open>The seven fields of an instant: year, month, day, hour, minute, second, microsecond.\<close>

definition fields :: "int \<Rightarrow> int \<times> int \<times> int \<times> int \<times> int \<times> int \<times> int" where
  "fields t =
     (let (y, m, d) = civil (t div day_us + epoch_day); r = t mod day_us
      in (y, m, d, r div 3600000000, r div 60000000 mod 60, r div 1000000 mod 60, r mod 1000000))"

text \<open>\<open>datetime.isoformat()\<close> in UTC: the fraction is left out when it is zero.\<close>

definition iso :: "int \<Rightarrow> string" where
  "iso t =
     (let (y, mo, d, h, mi, s, us) = fields t
      in pad 4 y @ ''-'' @ pad 2 mo @ ''-'' @ pad 2 d @ ''T'' @ pad 2 h @ '':'' @ pad 2 mi
         @ '':'' @ pad 2 s @ (if us = 0 then [] else ''.'' @ pad 6 us) @ ''+00:00'')"

text \<open>The instants \<open>datetime\<close> can hold: years 1 to 9999.\<close>

definition in_range :: "int \<Rightarrow> bool" where
  "in_range t \<longleftrightarrow> 1 \<le> t div day_us + epoch_day \<and> t div day_us + epoch_day \<le> 3652059"

section \<open>Reading a stamp\<close>

definition digit_of :: "char \<Rightarrow> int option" where
  "digit_of c = (let n = of_char c :: nat in if 48 \<le> n \<and> n \<le> 57 then Some (int n - 48) else None)"

fun num_from :: "int \<Rightarrow> string \<Rightarrow> int option" where
  "num_from acc [] = Some acc"
| "num_from acc (c # cs) =
     (case digit_of c of None \<Rightarrow> None | Some d \<Rightarrow> num_from (10 * acc + d) cs)"

text \<open>The next \<open>w\<close> digits and what follows them.\<close>

definition read_num :: "nat \<Rightarrow> string \<Rightarrow> (int \<times> string) option" where
  "read_num w s =
     (if length s < w then None
      else case num_from 0 (take w s) of None \<Rightarrow> None | Some n \<Rightarrow> Some (n, drop w s))"

definition read_char :: "char \<Rightarrow> string \<Rightarrow> string option" where
  "read_char c s = (case s of [] \<Rightarrow> None | x # xs \<Rightarrow> if x = c then Some xs else None)"

definition read_date :: "string \<Rightarrow> (int \<times> int \<times> int) option" where
  "read_date s = Option.bind (read_num 4 s) (\<lambda>(y, r1). Option.bind (read_char (CHR ''-'') r1) (\<lambda>r2.
     Option.bind (read_num 2 r2) (\<lambda>(m, r3). Option.bind (read_char (CHR ''-'') r3) (\<lambda>r4.
     Option.bind (read_num 2 r4) (\<lambda>(d, r5). if r5 = [] then Some (y, m, d) else None)))))"

definition read_frac :: "string \<Rightarrow> int option" where
  "read_frac s =
     (if length s = 6 then num_from 0 s
      else if length s = 3 then map_option (\<lambda>n. 1000 * n) (num_from 0 s) else None)"

text \<open>\<open>HH[:MM[:SS[.fff[fff]]]]\<close>\<close>

definition read_clock :: "string \<Rightarrow> (int \<times> int \<times> int \<times> int) option" where
  "read_clock s = Option.bind (read_num 2 s) (\<lambda>(h, r1).
     if r1 = [] then Some (h, 0, 0, 0) else Option.bind (read_char (CHR '':'') r1) (\<lambda>r2.
     Option.bind (read_num 2 r2) (\<lambda>(mi, r3).
     if r3 = [] then Some (h, mi, 0, 0) else Option.bind (read_char (CHR '':'') r3) (\<lambda>r4.
     Option.bind (read_num 2 r4) (\<lambda>(se, r5).
     if r5 = [] then Some (h, mi, se, 0) else Option.bind (read_char (CHR ''.'') r5) (\<lambda>r6.
     map_option (\<lambda>us. (h, mi, se, us)) (read_frac r6)))))))"

definition clock_us :: "int \<times> int \<times> int \<times> int \<Rightarrow> int" where
  "clock_us c = (case c of (h, mi, se, us) \<Rightarrow> ((h * 60 + mi) * 60 + se) * 1000000 + us)"

definition valid_clock :: "int \<times> int \<times> int \<times> int \<Rightarrow> bool" where
  "valid_clock c \<longleftrightarrow> (case c of (h, mi, se, us) \<Rightarrow> h < 24 \<and> mi < 60 \<and> se < 60)"

definition valid_date :: "int \<times> int \<times> int \<Rightarrow> bool" where
  "valid_date x \<longleftrightarrow> (case x of (y, m, d) \<Rightarrow>
     1 \<le> y \<and> 1 \<le> m \<and> m \<le> 12 \<and> 1 \<le> d \<and> d \<le> month_lengths y ! nat (m - 1))"

definition is_sign :: "char \<Rightarrow> bool" where
  "is_sign c \<longleftrightarrow> c = CHR ''+'' \<or> c = CHR ''-''"

text \<open>An offset with its sign; the empty text is a naive time, read as UTC.\<close>

definition read_zone :: "string \<Rightarrow> int option" where
  "read_zone z = (case z of [] \<Rightarrow> Some 0 | c # cs \<Rightarrow>
     if length z \<in> {6, 9, 16} then
       Option.bind (read_clock cs) (\<lambda>k.
         if clock_us k < day_us then Some (if c = CHR ''-'' then - clock_us k else clock_us k)
         else None)
     else None)"

definition instant_of :: "int \<times> int \<times> int \<Rightarrow> int \<times> int \<times> int \<times> int \<Rightarrow> int \<Rightarrow> int" where
  "instant_of dt c off =
     (case dt of (y, m, d) \<Rightarrow> (ordinal_of y m d - epoch_day) * day_us + clock_us c - off)"

text \<open>\<open>datetime.fromisoformat\<close> of Python 3.10; a separator of one character, any.\<close>

definition fromisoformat :: "string \<Rightarrow> int option" where
  "fromisoformat s = Option.bind (read_date (take 10 s)) (\<lambda>dt.
     if \<not> valid_date dt then None
     else if length s \<le> 10 then Some (instant_of dt (0, 0, 0, 0) 0)
     else Option.bind (read_clock (takeWhile (\<lambda>c. \<not> is_sign c) (drop 11 s))) (\<lambda>k.
       if \<not> valid_clock k then None
       else map_option (instant_of dt k) (read_zone (dropWhile (\<lambda>c. \<not> is_sign c) (drop 11 s)))))"

definition with_utc_suffix :: "string \<Rightarrow> string" where
  "with_utc_suffix s =
     (if s \<noteq> [] \<and> (last s = CHR ''Z'' \<or> last s = CHR ''z'') then butlast s @ ''+00:00'' else s)"

definition parse_time :: "string option \<Rightarrow> int option" where
  "parse_time v = (case v of None \<Rightarrow> None | Some s \<Rightarrow>
     if s = [] then None else fromisoformat (with_utc_suffix (py_strip s)))"

text \<open>\<open>_is_expired\<close>; the clock is read when \<open>now\<close> cannot be parsed.\<close>

definition is_expired :: "int \<Rightarrow> string option \<Rightarrow> string option \<Rightarrow> bool" where
  "is_expired clock v now =
     (case parse_time v of None \<Rightarrow> True
      | Some t \<Rightarrow> t \<le> (case parse_time now of None \<Rightarrow> clock | Some c \<Rightarrow> c))"

text \<open>\<open>_lease_expiry\<close>: at least one second ahead, rounded to microseconds as \<open>timedelta\<close> does.\<close>

definition lease_expiry :: "int \<Rightarrow> rat \<Rightarrow> string option \<Rightarrow> string" where
  "lease_expiry clock ttl now =
     iso ((case parse_time now of None \<Rightarrow> clock | Some c \<Rightarrow> c) + py_round (max 1 ttl * 1000000))"

section \<open>Fixed-width numbers\<close>

lemma length_pad [simp]: "length (pad w n) = w"
  by (induction w arbitrary: n) auto

lemma pad_eq_Nil [simp]: "pad w n = [] \<longleftrightarrow> w = 0"
  by (metis length_0_conv length_pad)

lemma of_char_digit: "0 \<le> n \<Longrightarrow> n < 10 \<Longrightarrow> (of_char (char_of (48 + nat n)) :: nat) = 48 + nat n"
  by simp

lemma digit_of_digit: "0 \<le> n \<Longrightarrow> n < 10 \<Longrightarrow> digit_of (char_of (48 + nat n)) = Some n"
  by (simp add: digit_of_def Let_def)

lemma num_from_append:
  "num_from acc (xs @ ys) = Option.bind (num_from acc xs) (\<lambda>a. num_from a ys)"
  by (induction acc xs rule: num_from.induct) (auto split: option.splits)

lemma num_from_pad: "0 \<le> n \<Longrightarrow> n < 10 ^ w \<Longrightarrow> num_from acc (pad w n) = Some (acc * 10 ^ w + n)"
proof (induction w arbitrary: n)
  case (Suc w)
  then have "0 \<le> n div 10" "n div 10 < 10 ^ w"
    by (auto simp: pos_imp_zdiv_nonneg_iff intro!: div_less_iff_less_mult [THEN iffD2])
  from Suc.IH [OF this] show ?case
    by (simp add: num_from_append digit_of_digit)
qed simp

lemma pad_chars: "c \<in> set (pad w n) \<Longrightarrow> 48 \<le> (of_char c :: nat) \<and> (of_char c :: nat) \<le> 57"
proof (induction w arbitrary: n)
  case (Suc w)
  have "nat (n mod 10) \<le> 9"
    by (simp add: nat_le_iff)
  with Suc show ?case by (auto simp: nat_less_iff)
qed simp

lemma read_num_pad:
  "0 \<le> n \<Longrightarrow> n < 10 ^ w \<Longrightarrow> read_num w (pad w n @ s) = Some (n, s)"
  by (simp add: read_num_def num_from_pad)

text \<open>Text order on equally long prefixes is decided by the prefixes.\<close>

lemma less_append_same_length:
  fixes xs ys us vs :: "'a::linorder list"
  assumes "length xs = length ys"
  shows "xs @ us < ys @ vs \<longleftrightarrow> xs < ys \<or> xs = ys \<and> us < vs"
  using assms by (induction xs ys rule: list_induct2) auto

lemma char_less_digit:
  "0 \<le> a \<Longrightarrow> a < 10 \<Longrightarrow> 0 \<le> b \<Longrightarrow> b < 10 \<Longrightarrow>
    (char_of (48 + nat a) :: char) < char_of (48 + nat b) \<longleftrightarrow> a < b"
  by (auto simp: less_char_def)

lemma lt_radix:
  "0 \<le> r \<Longrightarrow> r < 10 \<Longrightarrow> 0 \<le> r' \<Longrightarrow> r' < 10 \<Longrightarrow>
    10 * q + r < 10 * q' + (r'::int) \<longleftrightarrow> q < q' \<or> q = q' \<and> r < r'"
  by arith

lemma lt_div_mod: "(a::int) < b \<longleftrightarrow> a div 10 < b div 10 \<or> a div 10 = b div 10 \<and> a mod 10 < b mod 10"
  using lt_radix [of "a mod 10" "b mod 10" "a div 10" "b div 10"]
  unfolding mult_div_mod_eq by simp

lemma pad_less:
  "0 \<le> a \<Longrightarrow> a < 10 ^ w \<Longrightarrow> 0 \<le> b \<Longrightarrow> b < 10 ^ w \<Longrightarrow> (pad w a < pad w b \<longleftrightarrow> a < b) \<and> (pad w a = pad w b \<longleftrightarrow> a = b)"
proof (induction w arbitrary: a b)
  case (Suc w)
  have d: "0 \<le> a div 10" "a div 10 < 10 ^ w" "0 \<le> b div 10" "b div 10 < 10 ^ w"
    using Suc.prems by (auto simp: pos_imp_zdiv_nonneg_iff intro!: div_less_iff_less_mult [THEN iffD2])
  note ih = Suc.IH [OF d]
  have m: "0 \<le> a mod 10" "a mod 10 < 10" "0 \<le> b mod 10" "b mod 10 < 10"
    by simp_all
  have e: "(char_of (48 + nat (a mod 10)) :: char) = char_of (48 + nat (b mod 10)) \<longleftrightarrow> a mod 10 = b mod 10"
    using char_less_digit [OF m(1,2,3,4)] char_less_digit [OF m(3,4,1,2)] m by (metis linorder_neqE not_less_iff_gr_or_eq)
  have l: "a < b \<longleftrightarrow> a div 10 < b div 10 \<or> a div 10 = b div 10 \<and> a mod 10 < b mod 10"
    "a = b \<longleftrightarrow> a div 10 = b div 10 \<and> a mod 10 = b mod 10"
    by (metis lt_div_mod) (metis div_mult_mod_eq)
  let ?c = "\<lambda>n. char_of (48 + nat (n mod 10)) :: char"
  have "pad w (a div 10) @ [?c a] < pad w (b div 10) @ [?c b] \<longleftrightarrow>
      pad w (a div 10) < pad w (b div 10) \<or> pad w (a div 10) = pad w (b div 10) \<and> ?c a < ?c b"
    by (subst less_append_same_length) (simp_all only: length_pad Cons_less_Cons less_irrefl simp_thms)
  then show ?case
    unfolding l pad.simps append1_eq_conv e using ih char_less_digit [OF m] by blast
qed simp

section \<open>Reading what was written\<close>

lemma fields_bounds:
  assumes "in_range t" and "fields t = (y, mo, d, h, mi, s, us)"
  shows "1 \<le> y" "y \<le> 9999" "1 \<le> mo" "mo \<le> 12" "1 \<le> d" "d \<le> month_lengths y ! nat (mo - 1)"
    "d \<le> 31" "0 \<le> h" "h < 24" "0 \<le> mi" "mi < 60" "0 \<le> s" "s < 60" "0 \<le> us" "us < 1000000"
    and "civil (t div day_us + epoch_day) = (y, mo, d)"
    and "clock_us (h, mi, s, us) = t mod day_us"
proof -
  define r where "r = t mod day_us"
  have r: "0 \<le> r" "r < 86400000000"
    by (simp_all add: r_def day_us_def)
  have c: "civil (t div day_us + epoch_day) = (y, mo, d)"
    and f: "h = r div 3600000000" "mi = r div 60000000 mod 60" "s = r div 1000000 mod 60" "us = r mod 1000000"
    using assms(2) by (auto simp: fields_def Let_def r_def split: prod.splits)
  have n: "1 \<le> t div day_us + epoch_day" "t div day_us + epoch_day \<le> 3652059"
    using assms(1) by (simp_all add: in_range_def)
  note b = civil_bounds [OF n(1) c]
  show "civil (t div day_us + epoch_day) = (y, mo, d)" by (rule c)
  show "1 \<le> mo" "mo \<le> 12" "1 \<le> d" "d \<le> month_lengths y ! nat (mo - 1)" "d \<le> 31"
    using b by simp_all
  have "days_before_year 1 < t div day_us + epoch_day"
    using n by (simp add: days_before_year_def)
  with year_of_bounds(2) [OF n(1)] have "days_before_year 1 < days_before_year (year_of (t div day_us + epoch_day) + 1)"
    by linarith
  then have "1 < year_of (t div day_us + epoch_day) + 1"
    using days_before_year_mono [of "year_of (t div day_us + epoch_day) + 1" 1] by linarith
  then show "1 \<le> y" using b(1) by simp
  have "days_before_year (year_of (t div day_us + epoch_day)) < days_before_year 10000"
    using year_of_bounds(1) [OF n(1)] n by (simp add: days_before_year_def [of 10000])
  then have "year_of (t div day_us + epoch_day) < 10000"
    using days_before_year_mono [of 10000 "year_of (t div day_us + epoch_day)"] by linarith
  then show "y \<le> 9999" using b(1) by simp
  show "0 \<le> h" "h < 24" "0 \<le> mi" "mi < 60" "0 \<le> s" "s < 60" "0 \<le> us" "us < 1000000"
    unfolding f using r by (auto simp: pos_imp_zdiv_nonneg_iff)
  have "((r div 3600000000 * 60 + r div 60000000 mod 60) * 60 + r div 1000000 mod 60) * 1000000 + r mod 1000000 = r"
  proof -
    have e: "r div 60000000 = r div 1000000 div 60" "r div 3600000000 = r div 60000000 div 60"
      by (simp_all add: zdiv_zmult2_eq [symmetric])
    have "r div 3600000000 * 60 + r div 60000000 mod 60 = r div 60000000"
      unfolding e(2) by (rule div_mult_mod_eq)
    moreover have "r div 60000000 * 60 + r div 1000000 mod 60 = r div 1000000"
      unfolding e(1) by (rule div_mult_mod_eq)
    ultimately show ?thesis by simp
  qed
  then show "clock_us (h, mi, s, us) = t mod day_us"
    by (simp only: f clock_us_def prod.case r_def)
qed

lemma py_strip_id:
  assumes "s \<noteq> []" and "\<not> py_space (hd s)" and "\<not> py_space (last s)"
  shows "py_strip s = s"
proof -
  have "dropWhile py_space s = s"
    using assms(1,2) by (cases s) auto
  moreover have "dropWhile py_space (rev s) = rev s"
    using assms(1,3) by (cases s rule: rev_cases) auto
  ultimately show ?thesis by (simp add: py_strip_def)
qed

text \<open>The body of a stamp, between the date and the offset.\<close>

definition clock_text :: "int \<Rightarrow> int \<Rightarrow> int \<Rightarrow> int \<Rightarrow> string" where
  "clock_text h mi s us = pad 2 h @ '':'' @ pad 2 mi @ '':'' @ pad 2 s @ (if us = 0 then [] else ''.'' @ pad 6 us)"

definition date_text :: "int \<Rightarrow> int \<Rightarrow> int \<Rightarrow> string" where
  "date_text y mo d = pad 4 y @ ''-'' @ pad 2 mo @ ''-'' @ pad 2 d"

lemma length_date_text [simp]: "length (date_text y mo d) = 10"
  by (simp add: date_text_def)

lemma iso_parts:
  "fields t = (y, mo, d, h, mi, s, us) \<Longrightarrow>
    iso t = date_text y mo d @ ''T'' @ clock_text h mi s us @ ''+00:00''"
  by (simp add: iso_def date_text_def clock_text_def)

lemma clock_text_sign: "c \<in> set (clock_text h mi s us) \<Longrightarrow> \<not> is_sign c"
  unfolding clock_text_def is_sign_def by (auto split: if_splits dest!: pad_chars)

lemma read_date_text:
  assumes "0 \<le> y" "y < 10000" "0 \<le> mo" "mo < 100" "0 \<le> d" "d < 100"
  shows "read_date (date_text y mo d) = Some (y, mo, d)"
  using assms read_num_pad [of d 2 "[]"]
  by (simp add: read_date_def date_text_def read_num_pad read_char_def)

lemma read_clock_text:
  assumes "0 \<le> h" "h < 100" "0 \<le> mi" "mi < 100" "0 \<le> s" "s < 100" "0 \<le> us" "us < 1000000"
  shows "read_clock (clock_text h mi s us) = Some (h, mi, s, us)"
  using assms read_num_pad [of s 2 "[]"] num_from_pad [of us 6 0]
  by (simp add: read_clock_def clock_text_def read_num_pad read_char_def read_frac_def)

lemma parse_iso:
  assumes "in_range t"
  shows "parse_time (Some (iso t)) = Some t"
proof -
  obtain y mo d h mi s us where f: "fields t = (y, mo, d, h, mi, s, us)"
    by (metis prod_cases7)
  note b = fields_bounds [OF assms f]
  let ?dt = "date_text y mo d" and ?ck = "clock_text h mi s us"
  have i: "iso t = ?dt @ CHR ''T'' # ?ck @ ''+00:00''"
    using iso_parts [OF f] by simp
  have "hd (iso t) \<in> set (pad 4 y)"
    by (simp add: i date_text_def hd_append)
  then have "\<not> py_space (hd (iso t))"
    by (auto simp: py_space_def Let_def dest: pad_chars)
  moreover have l: "last (iso t) = CHR ''0''"
    by (simp add: i)
  then have "\<not> py_space (last (iso t))"
    by (simp add: py_space_def Let_def)
  ultimately have "with_utc_suffix (py_strip (iso t)) = iso t"
    using l by (subst py_strip_id) (simp_all add: i with_utc_suffix_def)
  moreover have "read_date ?dt = Some (y, mo, d)"
    using b by (intro read_date_text) auto
  moreover have "takeWhile (\<lambda>c. \<not> is_sign c) (?ck @ ''+00:00'') = ?ck"
    by (subst takeWhile_append2) (auto simp: clock_text_sign is_sign_def [of "CHR ''+''"])
  moreover have "dropWhile (\<lambda>c. \<not> is_sign c) (?ck @ ''+00:00'') = ''+00:00''"
    by (subst dropWhile_append2) (auto simp: clock_text_sign is_sign_def [of "CHR ''+''"])
  moreover have "read_clock ?ck = Some (h, mi, s, us)"
    using b by (intro read_clock_text) auto
  moreover have "read_zone ''+00:00'' = Some 0"
    by code_simp
  moreover have "ordinal_of y mo d = t div day_us + epoch_day"
    using civil_bounds(7) [OF _ b(16)] assms by (simp add: in_range_def)
  then have "instant_of (y, mo, d) (h, mi, s, us) 0 = t"
    using b(17) by (simp add: instant_of_def)
  ultimately show ?thesis
    using b by (simp add: parse_time_def i fromisoformat_def valid_date_def valid_clock_def)
qed

section \<open>Text order is time order\<close>

lemma date_text_less:
  assumes "y < y' \<or> y = y' \<and> (m < m' \<or> m = m' \<and> d < d')"
    and "0 \<le> y" "y < 10000" "0 \<le> m" "m < 100" "0 \<le> d" "d < 100"
    and "0 \<le> y'" "y' < 10000" "0 \<le> m'" "m' < 100" "0 \<le> d'" "d' < 100"
  shows "date_text y m d < date_text y' m' d'"
  using assms pad_less [of y 4 y'] pad_less [of m 2 m'] pad_less [of d 2 d']
  by (auto simp: date_text_def less_append_same_length)

lemma clock_us_less:
  assumes "clock_us (h, mi, s, us) < clock_us (h', mi', s', us')"
    and "0 \<le> mi" "mi < 60" "0 \<le> s" "s < 60" "0 \<le> us" "us < 1000000"
    and "0 \<le> mi'" "mi' < 60" "0 \<le> s'" "s' < 60" "0 \<le> us'" "us' < 1000000"
  shows "h < h' \<or> h = h' \<and> (mi < mi' \<or> mi = mi' \<and> (s < s' \<or> s = s' \<and> us < us'))"
proof (rule ccontr)
  assume "\<not> ?thesis"
  then consider "h' < h" | "h = h'" "mi' < mi" | "h = h'" "mi = mi'" "s' < s"
    | "h = h'" "mi = mi'" "s = s'" "us' \<le> us"
    by linarith
  then show False
    using assms by cases (simp_all add: clock_us_def)
qed

lemma frac_less:
  assumes "us < us'" "0 \<le> us" "us' < 1000000"
  shows "(if us = 0 then [] else ''.'' @ pad 6 us) @ ''+00:00'' < (if us' = 0 then [] else ''.'' @ pad 6 us') @ ''+00:00''"
proof (cases "us = 0")
  case True
  with assms(1) show ?thesis by (simp add: less_char_def)
next
  case False
  with assms have "pad 6 us < pad 6 us'"
    using pad_less [of us 6 us'] by simp
  with False assms show ?thesis by (simp add: less_append_same_length)
qed

lemma clock_text_less:
  assumes "h < h' \<or> h = h' \<and> (mi < mi' \<or> mi = mi' \<and> (s < s' \<or> s = s' \<and> us < us'))"
    and "0 \<le> h" "h < 24" "0 \<le> mi" "mi < 60" "0 \<le> s" "s < 60" "0 \<le> us" "us < 1000000"
    and "0 \<le> h'" "h' < 24" "0 \<le> mi'" "mi' < 60" "0 \<le> s'" "s' < 60" "0 \<le> us'" "us' < 1000000"
  shows "clock_text h mi s us @ ''+00:00'' < clock_text h' mi' s' us' @ ''+00:00''"
proof -
  have p: "pad 2 h < pad 2 h' \<longleftrightarrow> h < h'" "pad 2 mi < pad 2 mi' \<longleftrightarrow> mi < mi'" "pad 2 s < pad 2 s' \<longleftrightarrow> s < s'"
    "pad 2 h = pad 2 h' \<longleftrightarrow> h = h'" "pad 2 mi = pad 2 mi' \<longleftrightarrow> mi = mi'" "pad 2 s = pad 2 s' \<longleftrightarrow> s = s'"
    using assms pad_less [of h 2 h'] pad_less [of mi 2 mi'] pad_less [of s 2 s'] by auto
  let ?f = "\<lambda>us. (if us = 0 then [] else ''.'' @ pad 6 us) @ ''+00:00''"
  have e: "clock_text h mi s us @ ''+00:00'' = pad 2 h @ CHR '':'' # pad 2 mi @ CHR '':'' # pad 2 s @ ?f us" for h mi s us
    by (simp add: clock_text_def)
  show ?thesis
    unfolding e using assms(1,8,17) frac_less [of us us']
    by (auto simp: less_append_same_length p simp del: append_Cons append.simps)
qed

lemma iso_mono:
  assumes "in_range t" and "in_range t'" and "t < t'"
  shows "iso t < iso t'"
proof -
  obtain y mo d h mi s us where f: "fields t = (y, mo, d, h, mi, s, us)"
    by (metis prod_cases7)
  obtain y' mo' d' h' mi' s' us' where f': "fields t' = (y', mo', d', h', mi', s', us')"
    by (metis prod_cases7)
  note b = fields_bounds [OF assms(1) f] and b' = fields_bounds [OF assms(2) f']
  let ?n = "t div day_us + epoch_day" and ?n' = "t' div day_us + epoch_day"
  have "t div day_us \<le> t' div day_us"
    using assms(3) by (simp add: day_us_def zdiv_mono1)
  then consider "?n < ?n'" | "?n = ?n'" by linarith
  then show ?thesis
  proof cases
    case 1
    have "1 \<le> ?n" using assms(1) by (simp add: in_range_def)
    from civil_less [OF this 1 b(16) b'(16)]
    have "date_text y mo d < date_text y' mo' d'"
      by (rule date_text_less) (use b b' in simp_all)
    then show ?thesis
      by (simp add: iso_parts [OF f] iso_parts [OF f'] less_append_same_length)
  next
    case 2
    then have e: "t div day_us = t' div day_us" by simp
    have "t mod day_us < t' mod day_us"
      using assms(3) mult_div_mod_eq [of day_us t] mult_div_mod_eq [of day_us t']
      unfolding e by linarith
    then have "clock_us (h, mi, s, us) < clock_us (h', mi', s', us')"
      using b(17) b'(17) by simp
    then have "h < h' \<or> h = h' \<and> (mi < mi' \<or> mi = mi' \<and> (s < s' \<or> s = s' \<and> us < us'))"
      by (rule clock_us_less) (use b b' in simp_all)
    then have "clock_text h mi s us @ ''+00:00'' < clock_text h' mi' s' us' @ ''+00:00''"
      by (rule clock_text_less) (use b b' in simp_all)
    moreover have "(y, mo, d) = (y', mo', d')"
      using b(16) b'(16) 2 by simp
    ultimately show ?thesis
      by (simp add: iso_parts [OF f] iso_parts [OF f'] less_append_same_length)
  qed
qed

lemma iso_less_iff: "in_range t \<Longrightarrow> in_range t' \<Longrightarrow> iso t < iso t' \<longleftrightarrow> t < t'"
  using iso_mono [of t t'] iso_mono [of t' t] by (metis linorder_neqE less_asym less_irrefl)

lemma iso_le_iff: "in_range t \<Longrightarrow> in_range t' \<Longrightarrow> iso t \<le> iso t' \<longleftrightarrow> t \<le> t'"
  using iso_less_iff [of t' t] by (simp add: linorder_not_less [symmetric])

lemma iso_inject: "in_range t \<Longrightarrow> in_range t' \<Longrightarrow> iso t = iso t' \<longleftrightarrow> t = t'"
  using parse_iso by (metis option.inject)

text \<open>A written stamp is expired exactly when its instant is not later than the current one.\<close>

lemma is_expired_iso:
  "in_range t \<Longrightarrow> in_range c \<Longrightarrow> is_expired clock (Some (iso t)) (Some (iso c)) \<longleftrightarrow> t \<le> c"
  by (simp add: is_expired_def parse_iso)

lemma lease_expiry_iso:
  "in_range c \<Longrightarrow> lease_expiry clock ttl (Some (iso c)) = iso (c + py_round (max 1 ttl * 1000000))"
  by (simp add: lease_expiry_def parse_iso)

lemma lease_span_pos: "1000000 \<le> py_round (max 1 ttl * 1000000)"
  using py_round_mono [of "1000000" "max 1 ttl * 1000000"] py_round_of_int [of 1000000] by simp

text \<open>Stamps with another offset break the agreement of the two orders.\<close>

lemma offset_breaks_text_order:
  "parse_time (Some ''2026-07-25T16:30:00+08:00'') = Some 1784968200000000
   \<and> parse_time (Some ''2026-07-25T10:00:00+00:00'') = Some 1784973600000000
   \<and> ''2026-07-25T10:00:00+00:00'' < ''2026-07-25T16:30:00+08:00''"
  by (intro conjI; code_simp)

end
