(* ===== verification/EventLedger.thy ===== *)
theory EventLedger
  imports CausalLedger Timestamps
begin

text \<open>
  The append-only event store and the liveness reconciler
  (\<open>src/local_agent_dispatch/ledger/store.py\<close>), and the redaction of public projections
  (\<open>ledger/projections.py\<close>).

  A store is its list of records, its two indexes and, when it has a path, the records written
  to its JSON-lines file (\<open>es_file\<close>), one per line with sorted keys. A batch that raises midway
  keeps what it has appended, so batches return the store with either the error or the outcomes.
\<close>

section \<open>Secrets\<close>

definition forbidden_secret_keys :: "string list" where
  "forbidden_secret_keys =
     [''prompt_body'', ''context_body'', ''prompt'', ''prompt_text'', ''credentials'',
      ''credential'', ''api_key'', ''auth_token'', ''access_token'', ''secret'', ''password'',
      ''ssh_key'']"

text \<open>\<open>_reject_secrets\<close> descends into dictionaries, not into lists.\<close>

primrec leaks :: "json \<Rightarrow> bool" where
  "leaks JNull = False"
| "leaks (JBool b) = False"
| "leaks (JInt i) = False"
| "leaks (JFloat q) = False"
| "leaks (JStr s) = False"
| "leaks (JArr vs) = False"
| "leaks (JObj d) = list_ex (\<lambda>(k, b). k \<in> set forbidden_secret_keys \<or> b) (map (map_prod id leaks) d)"

section \<open>The store\<close>

record event_store =
  es_events :: "dict list"
  es_by_id :: "string \<Rightarrow> dict option"
  es_by_key :: "string \<Rightarrow> dict option"
  es_file :: "dict list option"

datatype ledger_error =
    ContractViolation event_error
  | SecretLeak
  | DuplicateConflict
  | OrphanEvent
  | PromotionRefused gate_error
  | BadClock

datatype append_outcome = Appended | Duplicate

definition empty_store :: "dict list option \<Rightarrow> event_store" where
  "empty_store file = \<lparr>es_events = [], es_by_id = (\<lambda>_. None), es_by_key = (\<lambda>_. None), es_file = file\<rparr>"

definition attempt_field :: "dict \<Rightarrow> string option" where
  "attempt_field e = (case dget0 e ''attempt_id'' of JStr a \<Rightarrow> Some a | _ \<Rightarrow> None)"

definition project_attempt_chain :: "string \<Rightarrow> event_store \<Rightarrow> dict list" where
  "project_attempt_chain a s = chain_of attempt_field (es_events s) a"

definition validate_claim_promotion :: "dict \<Rightarrow> event_store \<Rightarrow> gate_error option" where
  "validate_claim_promotion rec s =
     promotion_gate (project_attempt_chain (jtxt (dget0 rec ''attempt_id'')) s) rec"

text \<open>The duplicate test on an idempotency key: same identifier, or equal apart from it.\<close>

definition same_but_id :: "dict \<Rightarrow> dict \<Rightarrow> bool" where
  "same_but_id old rec \<longleftrightarrow>
     dget0 old ''event_id'' = JStr (ev_id rec) \<or> dict_eq (dpop ''event_id'' old) (dpop ''event_id'' rec)"

definition store_record :: "dict \<Rightarrow> event_store \<Rightarrow> event_store" where
  "store_record rec s =
     s\<lparr>es_events := es_events s @ [rec],
       es_by_id := (es_by_id s)(ev_id rec := Some rec),
       es_by_key := (es_by_key s)(ev_key rec := Some rec),
       es_file := map_option (\<lambda>lines. lines @ [canon_dict rec]) (es_file s)\<rparr>"

definition append_event :: "dict \<Rightarrow> (ledger_error, event_store, append_outcome) tx" where
  "append_event rec s =
     (case validate_event rec of Some v \<Rightarrow> Inl (ContractViolation v)
      | None \<Rightarrow>
        if leaks (JObj rec) then Inl SecretLeak
        else case es_by_id s (ev_id rec) of
          Some old \<Rightarrow> if dict_eq old rec then Inr (Duplicate, s) else Inl DuplicateConflict
        | None \<Rightarrow>
          (case es_by_key s (ev_key rec) of
            Some old \<Rightarrow> if same_but_id old rec then Inr (Duplicate, s) else Inl DuplicateConflict
          | None \<Rightarrow>
            if dget0 rec ''causal_parent'' \<noteq> JNull \<and> es_by_id s (jtxt (dget0 rec ''causal_parent'')) = None
            then Inl OrphanEvent
            else if ev_is ''claim.promoted'' rec \<and> validate_claim_promotion rec s \<noteq> None
            then Inl (PromotionRefused (the (validate_claim_promotion rec s)))
            else Inr (Appended, store_record rec s)))"

fun append_many :: "dict list \<Rightarrow> event_store \<Rightarrow> event_store \<times> (ledger_error + append_outcome list)" where
  "append_many [] s = (s, Inr [])"
| "append_many (e # es) s =
     (case append_event e s of
        Inl x \<Rightarrow> (s, Inl x)
      | Inr (out, s') \<Rightarrow>
        (case append_many es s' of
           (s'', Inl x) \<Rightarrow> (s'', Inl x)
         | (s'', Inr outs) \<Rightarrow> (s'', Inr (out # outs))))"

text \<open>Opening a path reads its lines first and then appends each of them.\<close>

definition open_store :: "dict list \<Rightarrow> event_store \<times> (ledger_error + append_outcome list)" where
  "open_store lines = append_many lines (empty_store (Some lines))"

definition write_jsonl :: "event_store \<Rightarrow> event_store" where
  "write_jsonl s = s\<lparr>es_file := Some (map canon_dict (es_events s))\<rparr>"

fun first_seen :: "string list \<Rightarrow> dict list \<Rightarrow> string list" where
  "first_seen seen [] = []"
| "first_seen seen (e # es) =
     (case attempt_field e of
        Some a \<Rightarrow> if a \<noteq> [] \<and> a \<notin> set seen then a # first_seen (a # seen) es else first_seen seen es
      | None \<Rightarrow> first_seen seen es)"

definition attempt_ids :: "event_store \<Rightarrow> string list" where
  "attempt_ids s = first_seen [] (es_events s)"

section \<open>Liveness reconciliation\<close>

definition terminal_event_types :: "string list" where
  "terminal_event_types =
     [''attempt.completed'', ''attempt.failed'', ''attempt.abandoned'', ''attempt.review'', ''claim.promoted'']"

definition is_terminal_event :: "dict \<Rightarrow> bool" where
  "is_terminal_event e \<longleftrightarrow> str_in (dget0 e ''event_type'') terminal_event_types"

definition copied_fields :: "string list" where
  "copied_fields =
     [''mission_id'', ''task_id'', ''plan_revision_id'', ''assignment_id'', ''reservation_id'',
      ''policy_version_id'', ''provider'', ''pool_id'', ''model_id'', ''model_variant'']"

record reconciler =
  rc_stale_after :: rat
  rc_now :: string
  rc_confidence :: rat

definition parse_iso_z :: "string \<Rightarrow> int option" where
  "parse_iso_z s = fromisoformat (concat (map (\<lambda>c. if c = CHR ''Z'' then ''+00:00'' else [c]) s))"

definition pid_of :: "dict \<Rightarrow> string option" where
  "pid_of e = (case dget0 e ''pid'' of JStr p \<Rightarrow> Some p | _ \<Rightarrow> None)"

definition is_str :: "json \<Rightarrow> bool" where
  "is_str v = (case v of JStr s \<Rightarrow> True | _ \<Rightarrow> False)"

definition confirmed_dead :: "(string \<Rightarrow> bool option) \<Rightarrow> dict \<Rightarrow> bool" where
  "confirmed_dead pid_alive e = (case pid_of e of None \<Rightarrow> False | Some p \<Rightarrow> pid_alive p = Some False)"

definition confirmed_alive :: "(string \<Rightarrow> bool option) \<Rightarrow> dict \<Rightarrow> bool" where
  "confirmed_alive pid_alive e = (case pid_of e of None \<Rightarrow> False | Some p \<Rightarrow> pid_alive p = Some True)"

definition reconcile_payload :: "bool \<Rightarrow> dict \<Rightarrow> dict" where
  "reconcile_payload dead last_ev =
     [(''reason'', JStr (if dead then ''stale_dead_pid'' else ''stale_unconfirmed_pid'')),
      (''preserves_evidence'', JBool True),
      (''pid'', jopt (pid_of last_ev))]
     @ (if dead then [] else [(''decision'', JStr ''escalate'')])
     @ map (\<lambda>k. (k, dget0 last_ev k)) (filter (\<lambda>k. is_str (dget0 last_ev k)) copied_fields)
     @ (case dget last_ev ''evidence_quality'' of None \<Rightarrow> [] | Some v \<Rightarrow> [(''evidence_quality'', v)])"

text \<open>The terminal event for a stale attempt whose last record is \<open>last\<close>.\<close>

definition reconcile_event :: "(string \<Rightarrow> string) \<Rightarrow> reconciler \<Rightarrow> bool \<Rightarrow> string \<Rightarrow> dict \<Rightarrow> dict" where
  "reconcile_event u5 rc dead a last_ev =
     (let etype = (if dead then ''attempt.abandoned'' else ''attempt.review'')
      in new_event u5 [] etype ''liveness_reconciler''
           (event_id_for u5 (join_colon [''reconcile'', etype, a]))
           (Some (ev_id last_ev)) (JFloat (rc_confidence rc)) (Some (rc_now rc))
           (case dget last_ev ''privacy_class'' of None \<Rightarrow> JStr ''public'' | Some v \<Rightarrow> v)
           None (Some a) (reconcile_payload dead last_ev))"

text \<open>One attempt of the loop: \<open>None\<close> when it is left alone.\<close>

definition stale_verdict ::
  "(string \<Rightarrow> string) \<Rightarrow> reconciler \<Rightarrow> int \<Rightarrow> (string \<Rightarrow> bool option) \<Rightarrow> string \<Rightarrow> event_store \<Rightarrow> dict option" where
  "stale_verdict u5 rc now pid_alive a s =
     (let chain = project_attempt_chain a s; last_ev = last chain
      in if list_ex is_terminal_event chain then None
         else
           let last_time = (case parse_iso_z (jtxt (dget0 last_ev ''timestamp'')) of None \<Rightarrow> now | Some t \<Rightarrow> t)
           in if of_int (now - last_time) / 1000000 < rc_stale_after rc then None
              else if confirmed_alive pid_alive last_ev then None
              else Some (reconcile_event u5 rc (confirmed_dead pid_alive last_ev) a last_ev))"

fun reconcile_loop ::
  "(string \<Rightarrow> string) \<Rightarrow> reconciler \<Rightarrow> int \<Rightarrow> (string \<Rightarrow> bool option) \<Rightarrow> string list \<Rightarrow> event_store \<Rightarrow>
    event_store \<times> (ledger_error + dict list)" where
  "reconcile_loop u5 rc now pid_alive [] s = (s, Inr [])"
| "reconcile_loop u5 rc now pid_alive (a # as) s =
     (case stale_verdict u5 rc now pid_alive a s of
        None \<Rightarrow> reconcile_loop u5 rc now pid_alive as s
      | Some e \<Rightarrow>
        (case append_event e s of
           Inl x \<Rightarrow> (s, Inl x)
         | Inr (out, s') \<Rightarrow>
           (case reconcile_loop u5 rc now pid_alive as s' of
              (s'', Inl x) \<Rightarrow> (s'', Inl x)
            | (s'', Inr created) \<Rightarrow> (s'', Inr (e # created)))))"

definition reconcile ::
  "(string \<Rightarrow> string) \<Rightarrow> reconciler \<Rightarrow> (string \<Rightarrow> bool option) \<Rightarrow> event_store \<Rightarrow>
    event_store \<times> (ledger_error + dict list)" where
  "reconcile u5 rc pid_alive s =
     (case parse_iso_z (rc_now rc) of None \<Rightarrow> (s, Inl BadClock)
      | Some now \<Rightarrow> reconcile_loop u5 rc now pid_alive (attempt_ids s) s)"

section \<open>Public projection\<close>

definition projection_secret_keys :: "string list" where
  "projection_secret_keys = forbidden_secret_keys @ [''pid'']"

primrec redact :: "json \<Rightarrow> json" where
  "redact JNull = JNull"
| "redact (JBool b) = JBool b"
| "redact (JInt i) = JInt i"
| "redact (JFloat q) = JFloat q"
| "redact (JStr s) = JStr s"
| "redact (JArr vs) = JArr (map redact vs)"
| "redact (JObj d) = JObj (filter (\<lambda>kv. fst kv \<notin> set projection_secret_keys) (map (map_prod id redact) d))"

definition redact_event :: "dict \<Rightarrow> dict" where
  "redact_event e = filter (\<lambda>kv. fst kv \<notin> set projection_secret_keys) (map (map_prod id redact) e)"

definition attempt_events :: "event_store \<Rightarrow> string \<Rightarrow> dict list" where
  "attempt_events s a = map redact_event (project_attempt_chain a s)"

fun has_secret_keys :: "json \<Rightarrow> bool" where
  "has_secret_keys (JObj d) =
     list_ex (\<lambda>(k, v). k \<in> set projection_secret_keys \<or>
       (case v of JObj e \<Rightarrow> has_secret_keys (JObj e) | JArr items \<Rightarrow> list_ex has_secret_keys items | _ \<Rightarrow> False)) d"
| "has_secret_keys _ = False"

section \<open>The store is a causal ledger\<close>

definition index_ok :: "event_store \<Rightarrow> bool" where
  "index_ok s \<longleftrightarrow>
     (\<forall>i. es_by_id s i = List.find (\<lambda>e. ev_id e = i) (es_events s)) \<and>
     (\<forall>k. es_by_key s k = List.find (\<lambda>e. ev_key e = k) (es_events s))"

lemma find_append: "List.find p (xs @ ys) = (case List.find p xs of None \<Rightarrow> List.find p ys | Some x \<Rightarrow> Some x)"
  by (induction xs) auto

lemma find_key_None: "List.find (\<lambda>e. f e = i) es = None \<longleftrightarrow> i \<notin> f ` set es"
  by (auto simp: find_None_iff)

lemma index_ok_empty [simp]: "index_ok (empty_store file)"
  by (simp add: index_ok_def empty_store_def)

lemma index_ok_store_record:
  assumes "index_ok s" and "es_by_id s (ev_id rec) = None" and "es_by_key s (ev_key rec) = None"
  shows "index_ok (store_record rec s)"
  using assms by (auto simp: index_ok_def store_record_def find_append split: option.splits)

lemma append_event_cases:
  assumes "append_event rec s = Inr (out, s')"
  obtains (duplicate) "out = Duplicate" "s' = s"
  | (appended) "out = Appended" "s' = store_record rec s" "validate_event rec = None"
      "\<not> leaks (JObj rec)" "es_by_id s (ev_id rec) = None" "es_by_key s (ev_key rec) = None"
      "dget0 rec ''causal_parent'' = JNull \<or> es_by_id s (jtxt (dget0 rec ''causal_parent'')) \<noteq> None"
      "ev_is ''claim.promoted'' rec \<Longrightarrow> validate_claim_promotion rec s = None"
  using assms unfolding append_event_def
  by (auto split: option.splits if_splits)

lemma append_event_index_ok:
  assumes "index_ok s" and "append_event rec s = Inr (out, s')"
  shows "index_ok s'"
  using assms(2) by (cases rule: append_event_cases) (use assms(1) index_ok_store_record in auto)

lemma append_event_fits:
  assumes "index_ok s" and "append_event rec s = Inr (out, s')"
  shows "es_events s' = es_events s \<or> es_events s' = es_events s @ [rec] \<and> fits attempt_field (es_events s) rec"
  using assms(2)
proof (cases rule: append_event_cases)
  case appended
  have "p \<in> ev_id ` set (es_events s)" if "ev_parent rec = Some p" for p
  proof -
    from that have "dget0 rec ''causal_parent'' = JStr p"
      by (auto simp: ev_parent_def split: json.splits)
    with appended(7) assms(1) show ?thesis
      by (metis find_key_None index_ok_def json.distinct(8) jtxt.simps(1))
  qed
  moreover have "ev_id rec \<notin> ev_id ` set (es_events s)" "ev_key rec \<notin> ev_key ` set (es_events s)"
    using appended(5,6) assms(1) by (metis find_key_None index_ok_def)+
  moreover have "ev_is ''claim.promoted'' rec \<Longrightarrow>
      supported (chain_of attempt_field (es_events s) (jtxt (dget0 rec ''attempt_id''))) rec"
    using appended(8)
    by (simp add: validate_claim_promotion_def project_attempt_chain_def promotion_gate_open)
  ultimately show ?thesis
    using appended(2,3) by (auto simp: fits_def store_record_def)
qed simp

interpretation event_store: causal_ledger attempt_field es_events index_ok append_event
  by unfold_locales (rule append_event_fits, assumption+, rule append_event_index_ok, assumption+)

text \<open>Every record of a store opened on a file, in whatever state the loading ends, is causally
  sound, and so is any store that grows from it.\<close>

lemma append_many_offers:
  "append_many es s = (s', r) \<Longrightarrow> \<exists>n \<le> length es. s' = event_store.offers (take n es) s"
proof (induction es arbitrary: s r)
  case (Cons e es)
  show ?case
  proof (cases "append_event e s")
    case (Inl x)
    with Cons.prems show ?thesis by (intro exI [of _ 0]) auto
  next
    case (Inr p)
    obtain out s1 where p: "p = (out, s1)" by fastforce
    then obtain r1 where "append_many es s1 = (s', r1)"
      using Cons.prems Inr by (auto split: prod.splits sum.splits)
    from Cons.IH [OF this] obtain n where "n \<le> length es" "s' = event_store.offers (take n es) s1"
      by blast
    with Inr p show ?thesis
      by (intro exI [of _ "Suc n"]) (auto simp: tx_state_def)
  qed
qed auto

lemma append_many_ok: "index_ok s \<Longrightarrow> index_ok (fst (append_many es s))"
  using append_many_offers [of es s "fst (append_many es s)" "snd (append_many es s)"]
    event_store.offers_ok by auto

lemma offers_file:
  "es_file s = Some ls \<Longrightarrow> \<exists>new. es_file (event_store.offers es s) = Some (ls @ map canon_dict new)
     \<and> es_events (event_store.offers es s) = es_events s @ new"
proof (induction es arbitrary: s ls)
  case (Cons e es)
  show ?case
  proof (cases "append_event e s")
    case (Inl x)
    with Cons show ?thesis by (auto simp: tx_state_def)
  next
    case (Inr p)
    obtain out s1 where p: "p = (out, s1)" by fastforce
    from Inr have "append_event e s = Inr (out, s1)" by (simp add: p)
    then show ?thesis
    proof (cases rule: append_event_cases)
      case duplicate
      with Cons Inr p show ?thesis by (auto simp: tx_state_def)
    next
      case appended
      then have "es_file s1 = Some (ls @ [canon_dict e])" "es_events s1 = es_events s @ [e]"
        using Cons.prems by (simp_all add: store_record_def)
      from Cons.IH [OF this(1)] this(2) Inr p show ?thesis
        by (auto simp: tx_state_def intro: exI [of _ "e # new" for new])
    qed
  qed
qed auto

section \<open>Reconciliation appends evidence and never guesses\<close>

lemma dget0_new_event_field:
  "k \<notin> fst ` set payload \<Longrightarrow>
    dget0 (new_event u5 now etype source idem parent confidence tstamp privacy eid attempt payload) k
      = dget0 (new_event u5 now etype source idem parent confidence tstamp privacy eid attempt []) k"
  unfolding dget0_dget by (subst new_event_field) (assumption, rule refl)

lemma reconcile_payload_keys:
  "k \<in> fst ` set (reconcile_payload dead l) \<Longrightarrow>
    k \<in> set ([''reason'', ''preserves_evidence'', ''pid'', ''decision'', ''evidence_quality''] @ copied_fields)"
  by (auto simp: reconcile_payload_def split: option.splits if_splits)

lemma reconcile_payload_fresh:
  "''event_type'' \<notin> fst ` set (reconcile_payload dead l)"
  "''attempt_id'' \<notin> fst ` set (reconcile_payload dead l)"
  "''causal_parent'' \<notin> fst ` set (reconcile_payload dead l)"
  by (rule notI, drule reconcile_payload_keys, simp add: copied_fields_def)+

lemma reconcile_event_fields:
  "dget0 (reconcile_event u5 rc dead a l) ''event_type''
     = JStr (if dead then ''attempt.abandoned'' else ''attempt.review'')"
  "dget0 (reconcile_event u5 rc dead a l) ''attempt_id'' = JStr a"
  "dget0 (reconcile_event u5 rc dead a l) ''causal_parent'' = JStr (ev_id l)"
  unfolding reconcile_event_def Let_def
  by (subst dget0_new_event_field, rule reconcile_payload_fresh, simp add: new_event_def)+

lemma reconcile_event_attempt [simp]: "attempt_field (reconcile_event u5 rc dead a l) = Some a"
  by (simp add: attempt_field_def reconcile_event_fields)

lemma reconcile_event_terminal [simp]: "is_terminal_event (reconcile_event u5 rc dead a l)"
  by (simp add: is_terminal_event_def reconcile_event_fields terminal_event_types_def)

lemma reconcile_event_type [simp]:
  "ev_is t (reconcile_event u5 rc dead a l) \<longleftrightarrow> t = (if dead then ''attempt.abandoned'' else ''attempt.review'')"
  by (auto simp: ev_is_def reconcile_event_fields)

lemma reconcile_event_parent [simp]: "ev_parent (reconcile_event u5 rc dead a l) = Some (ev_id l)"
  by (simp add: ev_parent_def reconcile_event_fields)

lemma chain_store_record:
  "project_attempt_chain b (store_record e s) =
     project_attempt_chain b s @ (if attempt_field e = Some b then [e] else [])"
  by (simp add: project_attempt_chain_def chain_of_def store_record_def)

lemma first_seen_props:
  "distinct (first_seen seen es)" "set (first_seen seen es) \<inter> set seen = {}"
  "a \<in> set (first_seen seen es) \<longleftrightarrow> a \<noteq> [] \<and> a \<notin> set seen \<and> (\<exists>e \<in> set es. attempt_field e = Some a)"
  by (induction seen es arbitrary: a rule: first_seen.induct) (auto split: option.splits)

lemma attempt_ids_distinct: "distinct (attempt_ids s)"
  by (simp add: attempt_ids_def first_seen_props)

lemma attempt_ids_iff: "a \<in> set (attempt_ids s) \<longleftrightarrow> a \<noteq> [] \<and> (\<exists>e \<in> set (es_events s). attempt_field e = Some a)"
  by (simp add: attempt_ids_def first_seen_props)

lemma attempt_ids_chain: "a \<in> set (attempt_ids s) \<Longrightarrow> project_attempt_chain a s \<noteq> []"
  by (auto simp: attempt_ids_iff project_attempt_chain_def chain_of_def filter_empty_conv)

lemma first_seen_snoc:
  "attempt_field e = Some a \<Longrightarrow> a \<in> set seen \<or> a \<in> set (first_seen seen es) \<Longrightarrow>
    first_seen seen (es @ [e]) = first_seen seen es"
  by (induction seen es rule: first_seen.induct) (auto split: option.splits if_splits)

text \<open>The reconciler's event is never a duplicate: its attempt had no terminal record.\<close>

lemma dict_eq_JStr:
  assumes "dict_eq d e" and "wf_dict d" and "wf_dict e" and "dget0 e k = JStr v"
  shows "dget0 d k = JStr v"
proof -
  have "dget e k = Some (JStr v)"
    using assms(4) by (auto simp: dget0_dget split: option.splits)
  then obtain w where w: "dget d k = Some w" "py_norm w = JStr v"
    using dict_eq_dget [OF assms(1-3), of k] by auto
  from w(2) have "w = JStr v" by (cases w) auto
  with w(1) show ?thesis by (simp add: dget0_dget)
qed

lemma stale_verdict_Some:
  assumes "stale_verdict u5 rc now alive a s = Some e"
  shows "\<not> list_ex is_terminal_event (project_attempt_chain a s)"
    and "\<not> confirmed_alive alive (last (project_attempt_chain a s))"
    and "e = reconcile_event u5 rc (confirmed_dead alive (last (project_attempt_chain a s))) a
      (last (project_attempt_chain a s))"
  using assms by (auto simp: stale_verdict_def Let_def split: if_splits)

text \<open>What the loop has appended when it stops, with or without an error.\<close>

definition reconciled_by ::
  "(string \<Rightarrow> bool option) \<Rightarrow> event_store \<Rightarrow> dict \<Rightarrow> bool" where
  "reconciled_by pid_alive s e \<longleftrightarrow>
     (\<exists>a \<in> set (attempt_ids s).
        attempt_field e = Some a \<and>
        \<not> list_ex is_terminal_event (project_attempt_chain a s) \<and>
        ev_parent e = Some (ev_id (last (project_attempt_chain a s))) \<and>
        \<not> confirmed_alive pid_alive (last (project_attempt_chain a s)) \<and>
        (ev_is ''attempt.abandoned'' e \<and> confirmed_dead pid_alive (last (project_attempt_chain a s)) \<or>
         ev_is ''attempt.review'' e \<and> \<not> confirmed_dead pid_alive (last (project_attempt_chain a s))))"

lemma stale_verdict_reconciled:
  assumes "stale_verdict u5 rc now alive a s1 = Some e" and "a \<in> set (attempt_ids s)"
    and "project_attempt_chain a s1 = project_attempt_chain a s"
  shows "reconciled_by alive s e"
  using stale_verdict_Some [OF assms(1)] assms(2,3)
  by (auto simp: reconciled_by_def intro!: bexI [of _ a])

lemma reconcile_loop_effect:
  assumes "distinct as" and "set as \<subseteq> set (attempt_ids s)"
    and "\<And>a. a \<in> set as \<Longrightarrow> project_attempt_chain a s1 = project_attempt_chain a s"
  shows "\<exists>new. es_events (fst (reconcile_loop u5 rc now alive as s1)) = es_events s1 @ new
    \<and> (\<forall>e \<in> set new. reconciled_by alive s e)"
  using assms
proof (induction as arbitrary: s1)
  case (Cons a as)
  show ?case
  proof (cases "stale_verdict u5 rc now alive a s1")
    case None
    with Cons show ?thesis by auto
  next
    case (Some e)
    have e: "reconciled_by alive s e" "attempt_field e = Some a"
      using stale_verdict_reconciled [OF Some] stale_verdict_Some(3) [OF Some] Cons.prems by auto
    show ?thesis
    proof (cases "append_event e s1")
      case (Inl x)
      with Some show ?thesis by simp
    next
      case (Inr p)
      obtain out s2 where p: "append_event e s1 = Inr (out, s2)" using Inr by (cases p) auto
      have ev: "(es_events s2 = es_events s1 \<or> es_events s2 = es_events s1 @ [e])
          \<and> (\<forall>b. b \<noteq> a \<longrightarrow> project_attempt_chain b s2 = project_attempt_chain b s1)"
        using p e(2) by (cases rule: append_event_cases) (simp_all add: chain_store_record, simp add: store_record_def)
      have "project_attempt_chain b s2 = project_attempt_chain b s" if "b \<in> set as" for b
      proof -
        have "b \<noteq> a" "b \<in> set (a # as)" using that Cons.prems(1) by auto
        with ev Cons.prems(3) [of b] show ?thesis by simp
      qed
      with Cons.IH [of s2] Cons.prems(1,2) obtain new where
        new: "es_events (fst (reconcile_loop u5 rc now alive as s2)) = es_events s2 @ new"
          "\<forall>e \<in> set new. reconciled_by alive s e"
        by auto
      have "es_events (fst (reconcile_loop u5 rc now alive (a # as) s1)) = es_events s2 @ new"
        using Some p new(1) by (auto split: prod.splits sum.splits)
      with ev new(2) e(1) show ?thesis by auto
    qed
  qed
qed auto

text \<open>A reconciliation only appends, and each record it appends is about an attempt with no
  terminal record and no process known to be alive: it says \<open>abandoned\<close> exactly when the process
  of the attempt's last record is confirmed dead, and otherwise asks for review; it refers to
  that last record. This holds also when the run stops with an error.\<close>

theorem reconcile_never_guesses:
  "\<exists>new. es_events (fst (reconcile u5 rc pid_alive s)) = es_events s @ new
     \<and> list_all (reconciled_by pid_alive s) new"
proof (cases "parse_iso_z (rc_now rc)")
  case None
  then show ?thesis by (intro exI [of _ "[]"]) (simp add: reconcile_def)
next
  case (Some now)
  have "\<exists>new. es_events (fst (reconcile_loop u5 rc now pid_alive (attempt_ids s) s)) = es_events s @ new
    \<and> (\<forall>e \<in> set new. reconciled_by pid_alive s e)"
    by (rule reconcile_loop_effect) (simp_all add: attempt_ids_distinct)
  with Some show ?thesis by (simp add: reconcile_def list_all_iff)
qed

text \<open>C15. Whatever batches of records are offered to a store opened on a file, whether each batch is
  accepted or stops midway, the log stays causally sound: identifiers and idempotency keys are
  unique, every record satisfied the contract when it was appended, every parent is an earlier
  record, and every promoted claim had a completed attempt, a passing latest validation and an
  approving latest review as its parent. A batch only adds to the log.\<close>

theorem event_store_sound:
  "sound_log attempt_field (es_events (fold (\<lambda>es s. fst (append_many es s)) batches (fst (open_store lines))))"
proof -
  have step: "index_ok (fst (append_many es s)) \<and> sound_log attempt_field (es_events (fst (append_many es s)))"
    if "index_ok s" "sound_log attempt_field (es_events s)" for es s
    using that append_many_offers [of es s "fst (append_many es s)" "snd (append_many es s)"]
      event_store.offers_ok event_store.offers_sound by auto
  have "index_ok (fold (\<lambda>es s. fst (append_many es s)) batches s)
      \<and> sound_log attempt_field (es_events (fold (\<lambda>es s. fst (append_many es s)) batches s))"
    if "index_ok s" "sound_log attempt_field (es_events s)" for s
    using that by (induction batches arbitrary: s) (simp_all add: step)
  moreover have "index_ok (fst (open_store lines))" "sound_log attempt_field (es_events (fst (open_store lines)))"
    using step [of "empty_store (Some lines)" lines]
    by (simp_all add: open_store_def empty_store_def [of "Some lines", THEN arg_cong [of _ _ es_events]])
  ultimately show ?thesis by blast
qed

text \<open>Loading a JSON-lines ledger writes every accepted record to the file again, so the file
  grows by the size of the log each time it is opened, although the log itself is right.\<close>

theorem open_store_rewrites_file:
  "es_file (fst (open_store lines)) = Some (lines @ map canon_dict (es_events (fst (open_store lines))))"
proof -
  obtain s r where r: "append_many lines (empty_store (Some lines)) = (s, r)" by fastforce
  from append_many_offers [OF r] obtain n where "s = event_store.offers (take n lines) (empty_store (Some lines))"
    by blast
  with offers_file [of "empty_store (Some lines)" lines "take n lines"] r show ?thesis
    by (auto simp: open_store_def empty_store_def)
qed

text \<open>The chain of an attempt the loop has passed: its verdict is now to leave it alone.\<close>

lemma stale_verdict_chain:
  "project_attempt_chain a s = project_attempt_chain a s1 \<Longrightarrow>
    stale_verdict u5 rc now alive a s = stale_verdict u5 rc now alive a s1"
  by (simp add: stale_verdict_def)

lemma append_event_not_duplicate:
  assumes "index_ok s" and "wf_dict e" and "\<forall>x \<in> set (es_events s). wf_dict x"
    and "attempt_field e = Some a" and "is_terminal_event e"
    and "\<not> list_ex is_terminal_event (project_attempt_chain a s)"
    and "append_event e s = Inr (out, s')"
  shows "s' = store_record e s"
proof -
  have no: "\<not> (attempt_field x = Some a \<and> is_terminal_event x)" if "x \<in> set (es_events s)" for x
    using that assms(6) by (auto simp: list_ex_iff project_attempt_chain_def chain_of_def)
  have mem: "x \<in> set (es_events s)" if "es_by_id s i = Some x \<or> es_by_key s i = Some x" for x i
    using that assms(1) by (auto simp: index_ok_def find_Some_iff)
  have a: "dget0 e ''attempt_id'' = JStr a"
    using assms(4) by (auto simp: attempt_field_def split: json.splits)
  obtain t where t: "dget0 e ''event_type'' = JStr t" "t \<in> set terminal_event_types"
    using assms(5) by (auto simp: is_terminal_event_def str_in_iff)
  have same: "attempt_field x = Some a \<and> is_terminal_event x"
    if "dict_eq x e \<or> dict_eq (dpop ''event_id'' x) (dpop ''event_id'' e)" "wf_dict x" for x
  proof -
    from that(1) have "dget0 x ''attempt_id'' = JStr a \<and> dget0 x ''event_type'' = JStr t"
    proof
      assume "dict_eq x e"
      from dict_eq_JStr [OF this that(2) assms(2)] a t show ?thesis by simp
    next
      assume "dict_eq (dpop ''event_id'' x) (dpop ''event_id'' e)"
      note * = dict_eq_JStr [OF this wf_dpop [OF that(2)] wf_dpop [OF assms(2)]]
      from * [of "''attempt_id''" a] * [of "''event_type''" t] a t show ?thesis
        by simp
    qed
    with t show ?thesis by (simp add: attempt_field_def is_terminal_event_def str_in_iff)
  qed
  show ?thesis
    using assms(7)
  proof (cases rule: append_event_cases)
    case duplicate
    with assms(7) consider x where "es_by_id s (ev_id e) = Some x" "dict_eq x e"
      | x where "es_by_id s (ev_id e) = None" "es_by_key s (ev_key e) = Some x" "same_but_id x e"
      by (auto simp: append_event_def split: option.splits if_splits)
    then show ?thesis
    proof cases
      case 1
      with same [of x] mem [of "ev_id e" x] no [of x] assms(3) show ?thesis by blast
    next
      case 2
      have x: "x \<in> set (es_events s)" using mem [of "ev_key e" x] 2 by blast
      have "dget0 x ''event_id'' \<noteq> JStr (ev_id e)"
      proof
        assume "dget0 x ''event_id'' = JStr (ev_id e)"
        then have "ev_id x = ev_id e" by (simp add: ev_id_def)
        with 2(1) x assms(1) show False by (auto simp: index_ok_def find_None_iff)
      qed
      with 2(3) same [of x] no [OF x] x assms(3) show ?thesis by (auto simp: same_but_id_def)
    qed
  qed
qed

lemma wf_dupdate: "wf_dict d \<Longrightarrow> wf_dict (dupdate d e)"
  unfolding dupdate_def by (induction e arbitrary: d) auto

lemma wf_new_event:
  "wf_dict (new_event u5 now etype source idem parent confidence tstamp privacy eid attempt payload)"
  unfolding new_event_def
  by (rule wf_dupdate) (simp add: wf_dict_def split: option.split)

lemma wf_reconcile_event: "wf_dict (reconcile_event u5 rc dead a l)"
  by (simp add: reconcile_event_def wf_new_event)

lemma attempt_ids_store_record:
  "attempt_field e = Some a \<Longrightarrow> a \<in> set (attempt_ids s) \<Longrightarrow> attempt_ids (store_record e s) = attempt_ids s"
  by (simp add: attempt_ids_def store_record_def first_seen_snoc)

lemma stale_verdict_terminal:
  "list_ex is_terminal_event (project_attempt_chain a s) \<Longrightarrow> stale_verdict u5 rc now alive a s = None"
  by (simp add: stale_verdict_def)

lemma reconcile_loop_settles:
  assumes "distinct as" and "set as \<subseteq> set (attempt_ids s)" and "index_ok s"
    and "\<forall>x \<in> set (es_events s). wf_dict x"
    and "reconcile_loop u5 rc now alive as s = (s', Inr created)"
  shows "(\<forall>a \<in> set as. stale_verdict u5 rc now alive a s' = None)
    \<and> (\<forall>b. b \<notin> set as \<longrightarrow> project_attempt_chain b s' = project_attempt_chain b s)
    \<and> attempt_ids s' = attempt_ids s"
  using assms
proof (induction as arbitrary: s created)
  case (Cons a as)
  show ?case
  proof (cases "stale_verdict u5 rc now alive a s")
    case None
    with Cons.IH [of s created] Cons.prems
    have ih: "(\<forall>a \<in> set as. stale_verdict u5 rc now alive a s' = None)"
      "(\<forall>b. b \<notin> set as \<longrightarrow> project_attempt_chain b s' = project_attempt_chain b s)"
      "attempt_ids s' = attempt_ids s"
      by auto
    from ih(2) Cons.prems(1) have "project_attempt_chain a s' = project_attempt_chain a s" by auto
    with None ih show ?thesis
      using stale_verdict_chain [of a s' s u5 rc now alive] by auto
  next
    case (Some e)
    note sv = stale_verdict_Some [OF Some]
    have e: "attempt_field e = Some a" "is_terminal_event e" "wf_dict e"
      using sv(3) by (simp_all add: wf_reconcile_event)
    obtain out s1 where p: "append_event e s = Inr (out, s1)"
      using Cons.prems(5) Some by (auto split: sum.splits)
    have s1: "s1 = store_record e s"
      by (rule append_event_not_duplicate [OF Cons.prems(3) e(3) Cons.prems(4) e(1,2) sv(1) p])
    obtain created' where loop: "reconcile_loop u5 rc now alive as s1 = (s', Inr created')"
      using Cons.prems(5) Some p by (auto split: sum.splits prod.splits)
    have ids: "attempt_ids s1 = attempt_ids s"
      unfolding s1 using e(1) Cons.prems(2) by (intro attempt_ids_store_record) auto
    have "index_ok s1" "\<forall>x \<in> set (es_events s1). wf_dict x"
      using append_event_index_ok [OF Cons.prems(3) p] s1 Cons.prems(4) e(3) by (auto simp: store_record_def)
    from Cons.IH [OF _ _ this loop] ids Cons.prems(1,2)
    have ih: "(\<forall>a \<in> set as. stale_verdict u5 rc now alive a s' = None)"
      "(\<forall>b. b \<notin> set as \<longrightarrow> project_attempt_chain b s' = project_attempt_chain b s1)"
      "attempt_ids s' = attempt_ids s"
      by auto
    from ih(2) Cons.prems(1) have "project_attempt_chain a s' = project_attempt_chain a s1" by auto
    then have "list_ex is_terminal_event (project_attempt_chain a s')"
      using e by (simp add: s1 chain_store_record)
    moreover have "project_attempt_chain b s1 = project_attempt_chain b s" if "b \<noteq> a" for b
      using that e(1) by (simp add: s1 chain_store_record)
    ultimately show ?thesis
      using ih by (auto intro: stale_verdict_terminal)
  qed
qed auto

lemma reconcile_loop_idle:
  "\<forall>a \<in> set as. stale_verdict u5 rc now alive a s = None \<Longrightarrow> reconcile_loop u5 rc now alive as s = (s, Inr [])"
  by (induction as) auto

text \<open>Reconciling again with the same evidence appends nothing: every attempt the first run
  judged now has a terminal record, and the others are left alone for the same reasons.\<close>

theorem reconcile_idempotent:
  assumes "index_ok s" and "list_all wf_dict (es_events s)"
    and "reconcile u5 rc pid_alive s = (s', Inr created)"
  shows "reconcile u5 rc pid_alive s' = (s', Inr [])"
proof -
  obtain now where now: "parse_iso_z (rc_now rc) = Some now"
    and loop: "reconcile_loop u5 rc now pid_alive (attempt_ids s) s = (s', Inr created)"
    using assms(3) by (auto simp: reconcile_def split: option.splits)
  have wf: "\<forall>x \<in> set (es_events s). wf_dict x"
    using assms(2) by (simp add: list_all_iff)
  from reconcile_loop_settles [OF attempt_ids_distinct subset_refl assms(1) wf loop]
  have "\<forall>a \<in> set (attempt_ids s'). stale_verdict u5 rc now pid_alive a s' = None" by simp
  from reconcile_loop_idle [OF this] now show ?thesis by (simp add: reconcile_def)
qed

definition sample_event :: "string \<Rightarrow> string \<Rightarrow> string option \<Rightarrow> dict \<Rightarrow> dict" where
  "sample_event key etype parent extra =
     new_event id [] etype ''worker'' key parent (JInt 1) (Some ''2026-07-25T10:00:00Z'') (JStr ''internal'')
       None (Some ''a1'') extra"

definition sample_store :: event_store where
  "sample_store = fst (append_many
     [sample_event ''k1'' ''attempt.started'' None [(''pid'', JStr ''41'')]] (empty_store None))"

lemma reconcile_idempotent_witness:
  "\<exists>s' created. created \<noteq> [] \<and>
     reconcile id \<lparr>rc_stale_after = 600, rc_now = ''2026-07-25T12:00:00+00:00'', rc_confidence = 9 / 10\<rparr>
       (\<lambda>p. if p = ''41'' then Some False else None) sample_store = (s', Inr created) \<and>
     reconcile id \<lparr>rc_stale_after = 600, rc_now = ''2026-07-25T12:00:00+00:00'', rc_confidence = 9 / 10\<rparr>
       (\<lambda>p. if p = ''41'' then Some False else None) s' = (s', Inr [])"
proof -
  let ?rc = "\<lparr>rc_stale_after = 600, rc_now = ''2026-07-25T12:00:00+00:00'', rc_confidence = 9 / 10\<rparr>"
  let ?alive = "\<lambda>p. if p = ''41'' then Some False else None"
  have run: "case reconcile id ?rc ?alive sample_store of (s', Inl x) \<Rightarrow> False | (s', Inr created) \<Rightarrow> created \<noteq> []"
    by code_simp
  then obtain s' created where r: "reconcile id ?rc ?alive sample_store = (s', Inr created)" "created \<noteq> []"
    by (auto split: prod.splits sum.splits)
  have "index_ok sample_store"
    unfolding sample_store_def by (rule append_many_ok) simp
  moreover have "list_all wf_dict (es_events sample_store)"
    by code_simp
  ultimately show ?thesis
    using reconcile_idempotent [OF _ _ r(1)] r by blast
qed

section \<open>Redaction\<close>

text \<open>No secret key at any depth, through dictionaries and lists.\<close>

primrec secret_free :: "json \<Rightarrow> bool" where
  "secret_free JNull = True"
| "secret_free (JBool b) = True"
| "secret_free (JInt i) = True"
| "secret_free (JFloat q) = True"
| "secret_free (JStr s) = True"
| "secret_free (JArr vs) = list_all id (map secret_free vs)"
| "secret_free (JObj d) = list_all (\<lambda>(k, b). k \<notin> set projection_secret_keys \<and> b) (map (map_prod id secret_free) d)"

lemma secret_free_redact: "secret_free (redact v)"
proof (induction v)
  case (JObj d)
  then show ?case
    by (auto simp: list_all_iff snds.simps)
qed (auto simp: list_all_iff)

lemma secret_free_audit: "secret_free v \<Longrightarrow> \<not> has_secret_keys v"
proof (induction v rule: has_secret_keys.induct)
  case (1 d)
  have "\<not> (k \<in> set projection_secret_keys \<or>
       (case v of JObj e \<Rightarrow> has_secret_keys (JObj e) | JArr items \<Rightarrow> list_ex has_secret_keys items | _ \<Rightarrow> False))"
    if kv: "(k, v) \<in> set d" for k v
  proof -
    from 1(3) kv have sf: "k \<notin> set projection_secret_keys" "secret_free v"
      by (auto simp: list_all_iff)
    show ?thesis
    proof (cases v)
      case (JArr items)
      have "\<not> has_secret_keys i" if "i \<in> set items" for i
        using 1(1) [OF kv refl JArr that] sf that JArr by (auto simp: list_all_iff)
      with sf JArr show ?thesis by (auto simp: list_ex_iff)
    next
      case (JObj e)
      with 1(2) [OF kv refl JObj] sf show ?thesis by auto
    qed (use sf in auto)
  qed
  then show ?case by (auto simp: list_ex_iff)
qed simp_all

text \<open>A redacted event has no secret key and no raw process identifier at any depth, so the
  audit function \<open>has_secret_keys\<close> never fires on a public projection.\<close>

theorem redaction_removes_secrets:
  "list_all (\<lambda>e. secret_free (JObj e) \<and> \<not> has_secret_keys (JObj e)) (attempt_events s a)"
proof -
  have sf: "secret_free (JObj (redact_event e))" for e
    using secret_free_redact [of "JObj e"] by (simp add: redact_event_def)
  show ?thesis
    unfolding attempt_events_def list_all_iff using sf secret_free_audit [OF sf] by auto
qed

end
