(* ===== verification/StoreState.thy ===== *)
theory StoreState
  imports Timestamps ProvEvents
begin

text \<open>
  The tables of \<open>scripts/sqlite_store.py\<close> and the primitives its operations share.

  A table is the list of its rows in insertion order, one record per \<open>CREATE TABLE\<close>; a nullable
  column is an option and a JSON column holds the decoded value. An operation is a \<open>tx\<close> over the
  whole database: an error is \<open>Inl\<close>, and the caller then keeps the database it had, which is what
  \<open>_transaction\<close> does (\<open>BEGIN IMMEDIATE\<close>, \<open>ROLLBACK\<close> on an exception, \<open>COMMIT\<close> otherwise).
  Primary-key, unique and foreign-key violations are the error \<open>IntegrityErr\<close>.

  What the operations take from outside is in \<open>env\<close>: the clock (one reading per operation), the
  stream of \<open>uuid4\<close> values, \<open>uuid5\<close> in the events' namespace, the SHA-256 of a text and of
  the canonical JSON text of a value, and Python's \<open>repr\<close> of a float or a container (which \<open>str\<close>
  shows). The database counts how many \<open>uuid4\<close> values were drawn.
\<close>

section \<open>Environment and errors\<close>

record env =
  clock_us_now :: int
  uuid_hex :: "nat \<Rightarrow> string"
  uuid5_of :: "string \<Rightarrow> string"
  sha256_of :: "string \<Rightarrow> string"
  repr_of :: "json \<Rightarrow> string"
  json_sha :: "json \<Rightarrow> string"

definition now_text :: "env \<Rightarrow> string" where
  "now_text e = iso (clock_us_now e)"

datatype store_error =
    ValueErr | TypeErr | StoreErr
  | LeaseConflictErr | FencingErr
  | JobConflictErr | JobTransitionErr
  | ReservationConflictErr | ReservationAdmissionErr
  | ProvenanceErr | ProvenanceConflictErr | ProvenanceOrphanErr | ProvenanceSecretErr
  | IntegrityErr | BindErr | AssertErr

section \<open>Status columns\<close>

datatype job_status =
    Queued | Running | Retry | Completed | Failed | Blocked | Pending | OtherStatus string

datatype attempt_status =
    ARunning | ACompleted | AFailed | ARetry | AAbandoned | AReview | AOther string

datatype lease_status = LActive | LReleased
datatype reservation_status = RActive | RReleased | RExpired
datatype outbox_status = OPending | OAccepted | OCompleted | OFailed
datatype segment_status = SRunning | SClosing | SFinished | SFailed | SAborted | SBlocked

fun job_status_text :: "job_status \<Rightarrow> string" where
  "job_status_text Queued = ''queued''"
| "job_status_text Running = ''running''"
| "job_status_text Retry = ''retry''"
| "job_status_text Completed = ''completed''"
| "job_status_text Failed = ''failed''"
| "job_status_text Blocked = ''blocked''"
| "job_status_text Pending = ''pending''"
| "job_status_text (OtherStatus s) = s"

fun attempt_status_text :: "attempt_status \<Rightarrow> string" where
  "attempt_status_text ARunning = ''running''"
| "attempt_status_text ACompleted = ''completed''"
| "attempt_status_text AFailed = ''failed''"
| "attempt_status_text ARetry = ''retry''"
| "attempt_status_text AAbandoned = ''abandoned''"
| "attempt_status_text AReview = ''review''"
| "attempt_status_text (AOther s) = s"

fun outbox_status_text :: "outbox_status \<Rightarrow> string" where
  "outbox_status_text OPending = ''pending''"
| "outbox_status_text OAccepted = ''accepted''"
| "outbox_status_text OCompleted = ''completed''"
| "outbox_status_text OFailed = ''failed''"

fun segment_status_text :: "segment_status \<Rightarrow> string" where
  "segment_status_text SRunning = ''running''"
| "segment_status_text SClosing = ''closing''"
| "segment_status_text SFinished = ''finished''"
| "segment_status_text SFailed = ''failed''"
| "segment_status_text SAborted = ''aborted''"
| "segment_status_text SBlocked = ''blocked''"

section \<open>Rows\<close>

record lease_row =
  l_scope :: string
  l_owner :: string
  l_fence :: int
  l_status :: lease_status
  l_acquired :: string
  l_heartbeat :: string
  l_expires :: string
  l_released :: "string option"
  l_meta :: dict

record job_row =
  j_id :: string
  j_run :: "string option"
  j_task :: "string option"
  j_status :: job_status
  j_priority :: int
  j_payload :: dict
  j_created :: string
  j_updated :: string
  j_owner :: "string option"
  j_fence :: "int option"
  j_expires :: "string option"
  j_attempts :: int
  j_completed :: "string option"
  j_retry_at :: "string option"
  j_error_class :: "string option"
  j_error :: "json option"
  j_revision :: int

record attempt_row =
  a_id :: string
  a_job :: string
  a_no :: int
  a_status :: attempt_status
  a_owner :: "string option"
  a_fence :: "int option"
  a_expires :: "string option"
  a_started :: string
  a_finished :: "string option"
  a_payload :: dict
  a_result :: "json option"
  a_artifacts :: "json option"
  a_validation :: "json option"
  a_error_class :: "string option"
  a_error :: "json option"

record event_row =
  e_id :: string
  e_job :: "string option"
  e_attempt :: "string option"
  e_type :: string
  e_at :: string
  e_owner :: "string option"
  e_fence :: "int option"
  e_payload :: json

record reservation_row =
  r_id :: string
  r_job :: string
  r_scope :: string
  r_status :: reservation_status
  r_owner :: string
  r_fence :: int
  r_created :: string
  r_updated :: string
  r_expires :: string
  r_request :: dict
  r_admission :: dict
  r_reason :: "string option"

record governor_row =
  g_scope :: string
  g_state :: dict
  g_policy :: dict
  g_observed :: "string option"
  g_updated :: string
  g_owner :: "string option"
  g_fence :: "int option"

record outbox_row =
  o_id :: string
  o_job :: "string option"
  o_attempt :: "string option"
  o_target :: string
  o_operation :: string
  o_packet_digest :: string
  o_payload_digest :: string
  o_envelope :: dict
  o_status :: outbox_status
  o_created :: string
  o_updated :: string
  o_sent :: "string option"
  o_completed :: "string option"
  o_receipt :: "dict option"
  o_owner :: string
  o_fence :: int

record segment_row =
  s_id :: string
  s_run :: string
  s_seq :: int
  s_owner :: string
  s_fence :: int
  s_status :: segment_status
  s_started :: string
  s_finished :: "string option"
  s_scheduler_job :: "string option"
  s_manifest :: string
  s_capsule :: "string option"
  s_meta :: dict

record checkpoint_row =
  k_id :: string
  k_run :: string
  k_job :: string
  k_attempt :: string
  k_seq :: int
  k_owner :: string
  k_fence :: int
  k_payload_digest :: string
  k_state_digest :: string
  k_artifacts :: json
  k_created :: string
  k_segment :: "string option"
  k_previous :: "string option"
  k_request :: string

record cleanup_row =
  c_id :: string
  c_request :: string
  c_run :: string
  c_segment :: "string option"
  c_attempt :: "string option"
  c_owner :: string
  c_fence :: int
  c_path_digest :: string
  c_action :: string
  c_created :: string
  c_payload :: dict

record db =
  leases :: "lease_row list"
  jobs :: "job_row list"
  attempts :: "attempt_row list"
  events :: "event_row list"
  reservations :: "reservation_row list"
  governor :: "governor_row list"
  provenance :: "dict list"
  outbox :: "outbox_row list"
  segments :: "segment_row list"
  checkpoints :: "checkpoint_row list"
  cleanups :: "cleanup_row list"
  drawn :: nat

type_synonym 'a op = "(store_error, db, 'a) tx"

definition empty_db :: db where
  "empty_db = \<lparr>leases = [], jobs = [], attempts = [], events = [], reservations = [], governor = [],
     provenance = [], outbox = [], segments = [], checkpoints = [], cleanups = [], drawn = 0\<rparr>"

section \<open>Shared primitives\<close>

text \<open>\<open>str(v)\<close>\<close>

fun py_str :: "env \<Rightarrow> json \<Rightarrow> string" where
  "py_str e JNull = ''None''"
| "py_str e (JBool b) = (if b then ''True'' else ''False'')"
| "py_str e (JInt i) = py_str_int i"
| "py_str e (JStr s) = s"
| "py_str e v = repr_of e v"

definition find_lease :: "string \<Rightarrow> db \<Rightarrow> lease_row option" where
  "find_lease scope s = List.find (\<lambda>r. l_scope r = scope) (leases s)"

definition find_job :: "string \<Rightarrow> db \<Rightarrow> job_row option" where
  "find_job i s = List.find (\<lambda>r. j_id r = i) (jobs s)"

definition find_attempt :: "string \<Rightarrow> db \<Rightarrow> attempt_row option" where
  "find_attempt i s = List.find (\<lambda>r. a_id r = i) (attempts s)"

text \<open>\<open>assert row is not None\<close> on a row read back.\<close>

definition refetch :: "(db \<Rightarrow> 'r option) \<Rightarrow> 'r op" where
  "refetch f s = (case f s of None \<Rightarrow> Inl AssertErr | Some r \<Rightarrow> Inr (r, s))"

definition expiry_text :: "env \<Rightarrow> rat \<Rightarrow> string" where
  "expiry_text e ttl = lease_expiry (clock_us_now e) ttl (Some (now_text e))"

definition expired_now :: "env \<Rightarrow> string option \<Rightarrow> bool" where
  "expired_now e v = is_expired (clock_us_now e) v (Some (now_text e))"

definition int_or_zero :: "int option \<Rightarrow> int" where
  "int_or_zero z = (case z of None \<Rightarrow> 0 | Some i \<Rightarrow> i)"

text \<open>\<open>_new_id\<close>\<close>

definition new_id :: "env \<Rightarrow> string \<Rightarrow> string op" where
  "new_id e prefix s = Inr (prefix @ ''-'' @ uuid_hex e (drawn s), s\<lparr>drawn := Suc (drawn s)\<rparr>)"

text \<open>\<open>_append_event_tx\<close>: \<open>INSERT OR IGNORE\<close>; the foreign keys to the job and the attempt are
  checked for a row that is inserted.\<close>

definition append_event_row ::
  "env \<Rightarrow> string \<Rightarrow> string option \<Rightarrow> string option \<Rightarrow> string option \<Rightarrow> string option \<Rightarrow> int option \<Rightarrow>
    json \<Rightarrow> event_row op" where
  "append_event_row e etype eid job attempt owner fence payload =
     tx_bind (case eid of Some i \<Rightarrow> if i \<noteq> [] then tx_return i else new_id e ''event''
                        | None \<Rightarrow> new_id e ''event'') (\<lambda>i s.
       case List.find (\<lambda>r. e_id r = i) (events s) of
         Some r \<Rightarrow> Inr (r, s)
       | None \<Rightarrow>
         if (case job of None \<Rightarrow> False | Some j \<Rightarrow> find_job j s = None)
            \<or> (case attempt of None \<Rightarrow> False | Some a \<Rightarrow> find_attempt a s = None)
         then Inl IntegrityErr
         else let r = \<lparr>e_id = i, e_job = job, e_attempt = attempt, e_type = etype, e_at = now_text e,
                       e_owner = owner, e_fence = fence, e_payload = payload\<rparr>
              in Inr (r, s\<lparr>events := events s @ [r]\<rparr>))"

text \<open>\<open>_assert_lease_tx\<close>\<close>

definition holds_lease :: "env \<Rightarrow> string \<Rightarrow> string \<Rightarrow> int \<Rightarrow> db \<Rightarrow> bool" where
  "holds_lease e scope owner fence s =
     (case find_lease scope s of None \<Rightarrow> False
      | Some r \<Rightarrow> l_owner r = owner \<and> l_fence r = fence \<and> l_status r = LActive
          \<and> \<not> expired_now e (Some (l_expires r)))"

definition assert_lease :: "env \<Rightarrow> string \<Rightarrow> string \<Rightarrow> int \<Rightarrow> unit op" where
  "assert_lease e scope owner fence s =
     (if holds_lease e scope owner fence s then Inr ((), s) else Inl FencingErr)"

text \<open>\<open>_continuous_digest\<close>\<close>

definition continuous_digest :: "string \<Rightarrow> bool" where
  "continuous_digest d \<longleftrightarrow> is_digest_of ''sha256:'' 64 d"

definition unknown_digest :: string where
  "unknown_digest = ''sha256:'' @ replicate 64 (CHR ''0'')"

lemma unknown_digest_ok: "continuous_digest unknown_digest"
  by code_simp

end
