(* ===== verification/Samples.thy ===== *)
theory Samples
  imports StoreState
begin

text \<open>
  A small concrete store for the witnesses of the store's theorems: an environment, a controller
  lease that is live at its clock and two queued jobs. Stamps stay in the form \<open>iso t\<close>, so that
  the lemmas of \<open>Timestamps\<close> decide comparisons; \<open>tx_run\<close> evaluates an operation step by step.
\<close>

lemmas tx_run = tx_bind_def tx_seq_def tx_return_def tx_raise_if_def tx_raise_def tx_get_def
  tx_modify_def refetch_def Let_def

definition sample_env :: env where
  "sample_env = \<lparr>clock_us_now = 1785000000000000, uuid_hex = (\<lambda>n. replicate (Suc n) (CHR ''f'')),
     uuid5_of = (\<lambda>s. s), sha256_of = (\<lambda>_. replicate 64 (CHR ''0'')), repr_of = (\<lambda>_. ''...''),
     json_sha = (\<lambda>_. replicate 64 (CHR ''0''))\<rparr>"

definition sample_lease :: lease_row where
  "sample_lease = \<lparr>l_scope = ''controller'', l_owner = ''ctl'', l_fence = 1, l_status = LActive,
     l_acquired = iso 1785000000000000, l_heartbeat = iso 1785000000000000,
     l_expires = iso 1785000090000000, l_released = None, l_meta = []\<rparr>"

definition sample_job :: "string \<Rightarrow> job_row" where
  "sample_job i = \<lparr>j_id = i, j_run = None, j_task = None, j_status = Queued, j_priority = 0,
     j_payload = [], j_created = iso 1785000000000000, j_updated = iso 1785000000000000,
     j_owner = None, j_fence = None, j_expires = None, j_attempts = 0, j_completed = None,
     j_retry_at = None, j_error_class = None, j_error = None, j_revision = 1\<rparr>"

definition sample_db :: db where
  "sample_db = empty_db\<lparr>leases := [sample_lease], jobs := [sample_job ''j1'', sample_job ''j2'']\<rparr>"

lemma sample_range: "in_range 1785000000000000" "in_range 1785000090000000"
  by (simp_all add: in_range_def day_us_def epoch_day_def)

lemma sample_now [simp]:
  "now_text sample_env = iso 1785000000000000" "clock_us_now sample_env = 1785000000000000"
  by (simp_all add: now_text_def sample_env_def)

lemma sample_expiry [simp]: "expiry_text sample_env 90 = iso 1785000090000000"
  using py_round_of_int [of 90000000]
  by (simp add: expiry_text_def lease_expiry_iso sample_range)

lemma sample_expired [simp]:
  "in_range t \<Longrightarrow> expired_now sample_env (Some (iso t)) \<longleftrightarrow> t \<le> 1785000000000000"
  by (simp add: expired_now_def is_expired_iso sample_range)

lemma sample_stamps [simp]:
  "iso 1785000000000000 < iso 1785000090000000"
  "\<not> iso 1785000090000000 \<le> iso 1785000000000000"
  by (simp_all add: iso_less_iff iso_le_iff sample_range)

lemma sample_leases [simp]: "leases sample_db = [sample_lease]"
  by (simp add: sample_db_def)

lemma sample_holds [simp]:
  "leases s = [sample_lease] \<Longrightarrow> holds_lease sample_env ''controller'' ''ctl'' 1 s"
  by (simp add: holds_lease_def find_lease_def sample_lease_def sample_range)

lemma sample_assert [simp]:
  "leases s = [sample_lease] \<Longrightarrow> assert_lease sample_env ''controller'' ''ctl'' 1 s = Inr ((), s)"
  by (simp add: assert_lease_def)

end
