(* ===== verification/Fenced.thy ===== *)
theory Fenced
  imports Prelude
begin

text \<open>
  The contract of fencing, which the controller leases of the store and the generations of a worker
  both keep. \<open>fence\<close> and \<open>owner\<close> read the current token and its holder; \<open>permits o f\<close> says that the store
  would let \<open>o\<close> mutate under token \<open>f\<close>. A step never lowers the token and changes the holder
  only together with the token.
\<close>

locale fenced =
  fixes inv :: "'s \<Rightarrow> bool"
    and step :: "'s \<Rightarrow> 's \<Rightarrow> bool"
    and fence :: "'s \<Rightarrow> int"
    and owner :: "'s \<Rightarrow> string option"
    and permits :: "string \<Rightarrow> int \<Rightarrow> 's \<Rightarrow> bool"
  assumes step_inv: "inv s \<Longrightarrow> step s s' \<Longrightarrow> inv s'"
    and fence_mono: "inv s \<Longrightarrow> step s s' \<Longrightarrow> fence s \<le> fence s'"
    and owner_kept: "inv s \<Longrightarrow> step s s' \<Longrightarrow> fence s' = fence s \<Longrightarrow> owner s' = owner s"
    and permits_current: "permits o1 f s \<Longrightarrow> fence s = f \<and> owner s = Some o1"
begin

lemma steps_inv: "step\<^sup>*\<^sup>* s s' \<Longrightarrow> inv s \<Longrightarrow> inv s'"
  by (induction rule: rtranclp_induct) (auto intro: step_inv)

lemma steps_fence: "step\<^sup>*\<^sup>* s s' \<Longrightarrow> inv s \<Longrightarrow> fence s \<le> fence s'"
proof (induction rule: rtranclp_induct)
  case (step y z)
  then show ?case using fence_mono [of y z] steps_inv [of s y] by auto
qed simp

lemma steps_owner: "step\<^sup>*\<^sup>* s s' \<Longrightarrow> inv s \<Longrightarrow> fence s' = fence s \<Longrightarrow> owner s' = owner s"
proof (induction rule: rtranclp_induct)
  case (step y z)
  have y: "inv y" using steps_inv step by blast
  have "fence s \<le> fence y" "fence y \<le> fence z"
    using steps_fence [OF step(1) step.prems(1)] fence_mono [OF y step(2)] .
  with step.prems have "fence y = fence s" "fence z = fence y" by auto
  with step y owner_kept [of y z] show ?case by auto
qed simp

text \<open>A token that was superseded is never honoured again, whoever presents it.\<close>

lemma stale_token_rejected:
  assumes "inv s" and "permits o1 f s" and "step\<^sup>*\<^sup>* s s1" and "fence s1 \<noteq> f" and "step\<^sup>*\<^sup>* s1 s2"
  shows "\<not> permits o2 f s2"
proof
  assume "permits o2 f s2"
  then have "fence s2 = f" using permits_current by blast
  moreover have "f < fence s1"
    using steps_fence [OF assms(3,1)] permits_current [OF assms(2)] assms(4) by auto
  moreover have "fence s1 \<le> fence s2"
    using steps_fence [OF assms(5)] steps_inv [OF assms(3,1)] by blast
  ultimately show False by simp
qed

text \<open>A token belongs to one owner for ever.\<close>

lemma token_has_one_owner:
  assumes "inv s" and "permits o1 f s" and "step\<^sup>*\<^sup>* s s'" and "permits o2 f s'"
  shows "o2 = o1"
  using steps_owner [OF assms(3,1)] permits_current [OF assms(2)] permits_current [OF assms(4)] by auto

lemma takeover_raises_token:
  assumes "inv s" and "permits o1 f s" and "step\<^sup>*\<^sup>* s s'" and "permits o2 g s'" and "o2 \<noteq> o1"
  shows "f < g"
  using steps_fence [OF assms(3,1)] token_has_one_owner [OF assms(1-3), of o2] assms(4,5)
    permits_current [OF assms(2)] permits_current [OF assms(4)] by (cases "f = g") auto

end

end
