(* ===== verification/StoreLeases.thy ===== *)
theory StoreLeases
  imports Samples Fenced
begin

text \<open>
  Controller leases and fencing (\<open>acquire_controller_lease\<close>, \<open>heartbeat_controller_lease\<close>,
  \<open>heartbeat_job_lease\<close>, \<open>release_controller_lease\<close> of \<open>scripts/sqlite_store.py\<close>).

  The theory ends with the interpretation of the contract every fenced store gives, the locale
  \<open>fenced\<close>, on the lease table of one scope.
\<close>

section \<open>Operations\<close>

definition acquire_lease :: "env \<Rightarrow> string \<Rightarrow> string \<Rightarrow> rat \<Rightarrow> dict \<Rightarrow> lease_row op" where
  "acquire_lease e owner scope ttl meta s =
     (if py_blank owner then Inl ValueErr
      else case find_lease scope s of
        None \<Rightarrow>
          let r = \<lparr>l_scope = scope, l_owner = owner, l_fence = 1, l_status = LActive,
                   l_acquired = now_text e, l_heartbeat = now_text e, l_expires = expiry_text e ttl,
                   l_released = None, l_meta = meta\<rparr>
          in refetch (find_lease scope) (s\<lparr>leases := leases s @ [r]\<rparr>)
      | Some r \<Rightarrow>
          if l_status r = LActive \<and> \<not> expired_now e (Some (l_expires r))
          then
            (if l_owner r \<noteq> owner then Inl LeaseConflictErr
             else refetch (find_lease scope)
               (s\<lparr>leases := upd_where (\<lambda>x. l_scope x = scope \<and> l_owner x = owner \<and> l_status x = LActive)
                  (\<lambda>x. x\<lparr>l_heartbeat := now_text e, l_expires := expiry_text e ttl,
                         l_meta := if meta = [] then l_meta r else meta\<rparr>) (leases s)\<rparr>))
          else refetch (find_lease scope)
            (s\<lparr>leases := upd_where (\<lambda>x. l_scope x = scope)
               (\<lambda>x. x\<lparr>l_owner := owner, l_fence := l_fence r + 1, l_status := LActive,
                      l_acquired := now_text e, l_heartbeat := now_text e,
                      l_expires := expiry_text e ttl, l_released := None, l_meta := meta\<rparr>) (leases s)\<rparr>))"

definition heartbeat_lease :: "env \<Rightarrow> string \<Rightarrow> int \<Rightarrow> string \<Rightarrow> rat \<Rightarrow> lease_row op" where
  "heartbeat_lease e owner fence scope ttl =
     tx_seq (assert_lease e scope owner fence)
       (tx_seq (tx_modify (\<lambda>s. s\<lparr>leases :=
            upd_where (\<lambda>x. l_scope x = scope \<and> l_owner x = owner \<and> l_fence x = fence \<and> l_status x = LActive)
              (\<lambda>x. x\<lparr>l_heartbeat := now_text e, l_expires := expiry_text e ttl\<rparr>) (leases s)\<rparr>))
         (refetch (find_lease scope)))"

definition release_lease :: "env \<Rightarrow> string \<Rightarrow> int \<Rightarrow> string \<Rightarrow> lease_row op" where
  "release_lease e owner fence scope s =
     (case find_lease scope s of
        None \<Rightarrow> Inl FencingErr
      | Some r \<Rightarrow>
          if l_owner r \<noteq> owner \<or> l_fence r \<noteq> fence then Inl FencingErr
          else refetch (find_lease scope)
            (s\<lparr>leases := upd_where (\<lambda>x. l_scope x = scope \<and> l_owner x = owner \<and> l_fence x = fence)
               (\<lambda>x. x\<lparr>l_status := LReleased, l_released := Some (now_text e), l_expires := now_text e\<rparr>)
               (leases s)\<rparr>))"

text \<open>The row test of \<open>heartbeat_job_lease\<close>, which \<open>complete_job\<close> and the transport operations
  repeat without the expiry part.\<close>

definition owns_job :: "string \<Rightarrow> int \<Rightarrow> job_row \<Rightarrow> bool" where
  "owns_job owner fence j \<longleftrightarrow>
     j_status j = Running \<and> otext (j_owner j) = owner \<and> int_or_zero (j_fence j) = fence"

definition owns_attempt :: "string \<Rightarrow> int \<Rightarrow> attempt_row \<Rightarrow> bool" where
  "owns_attempt owner fence a \<longleftrightarrow>
     a_status a = ARunning \<and> otext (a_owner a) = owner \<and> int_or_zero (a_fence a) = fence"

definition heartbeat_job_lease ::
  "env \<Rightarrow> string \<Rightarrow> string \<Rightarrow> string \<Rightarrow> int \<Rightarrow> rat \<Rightarrow> string \<Rightarrow> (job_row \<times> attempt_row) op" where
  "heartbeat_job_lease e job attempt owner fence ttl scope =
     tx_seq (assert_lease e scope owner fence) (\<lambda>s.
       case (find_job job s, List.find (\<lambda>a. a_id a = attempt \<and> a_job a = job) (attempts s)) of
         (Some j, Some a) \<Rightarrow>
           if owns_job owner fence j \<and> owns_attempt owner fence a
              \<and> \<not> expired_now e (j_expires j) \<and> \<not> expired_now e (a_expires a)
           then
             (let s1 = s\<lparr>jobs := upd_where (\<lambda>x. j_id x = job \<and> j_status x = Running
                           \<and> j_owner x = Some owner \<and> j_fence x = Some fence)
                         (\<lambda>x. x\<lparr>j_expires := Some (expiry_text e ttl), j_updated := now_text e\<rparr>) (jobs s),
                         attempts := upd_where (\<lambda>x. a_id x = attempt \<and> a_status x = ARunning
                           \<and> a_owner x = Some owner \<and> a_fence x = Some fence)
                         (\<lambda>x. x\<lparr>a_expires := Some (expiry_text e ttl)\<rparr>) (attempts s),
                         reservations := upd_where (\<lambda>x. r_job x = job \<and> r_scope x = scope
                           \<and> r_status x = RActive \<and> r_owner x = owner \<and> r_fence x = fence)
                         (\<lambda>x. x\<lparr>r_updated := now_text e, r_expires := expiry_text e ttl\<rparr>) (reservations s)\<rparr>
              in tx_bind (refetch (find_job job)) (\<lambda>j'.
                   tx_bind (refetch (find_attempt attempt)) (\<lambda>a'. tx_return (j', a'))) s1)
           else Inl FencingErr
       | _ \<Rightarrow> Inl FencingErr)"

section \<open>Lookups\<close>

lemma find_upd_where:
  assumes "\<And>x. k (f x) = k x"
  shows "List.find (\<lambda>x. k x = a) (upd_where p f xs)
    = map_option (\<lambda>x. if p x then f x else x) (List.find (\<lambda>x. k x = a) xs)"
  using assms by (induction xs) auto

lemma find_snoc:
  "List.find p (xs @ [x]) = (case List.find p xs of None \<Rightarrow> if p x then Some x else None | Some y \<Rightarrow> Some y)"
  by (induction xs) auto

lemma refetch_Inr [simp]: "refetch f s = Inr (r, s') \<longleftrightarrow> f s = Some r \<and> s' = s"
  by (auto simp: refetch_def split: option.splits)

lemma refetch_rel [tx_rels, simp]: "tx_rel R (refetch f)"
  by (rule tx_relI) auto

lemma assert_lease_Inr [simp]:
  "assert_lease e scope owner fence s = Inr (u, s') \<longleftrightarrow> holds_lease e scope owner fence s \<and> s' = s"
  by (auto simp: assert_lease_def)

lemma assert_lease_rel [tx_rels, simp]: "tx_rel R (assert_lease e scope owner fence)"
  by (rule tx_relI) auto

lemma holds_lease_find:
  "holds_lease e scope owner fence s \<Longrightarrow>
    \<exists>r. find_lease scope s = Some r \<and> l_owner r = owner \<and> l_fence r = fence \<and> l_status r = LActive
      \<and> \<not> expired_now e (Some (l_expires r))"
  by (auto simp: holds_lease_def split: option.splits)

lemma find_lease_scope: "find_lease scope s = Some r \<Longrightarrow> l_scope r = scope \<and> r \<in> set (leases s)"
  by (auto simp: find_lease_def dest: find_Some_D)

section \<open>The lease table\<close>

definition wf_leases :: "db \<Rightarrow> bool" where
  "wf_leases s \<longleftrightarrow> distinct (map l_scope (leases s)) \<and> (\<forall>r \<in> set (leases s). 1 \<le> l_fence r)"

definition scope_fence :: "string \<Rightarrow> db \<Rightarrow> int" where
  "scope_fence scope s = (case find_lease scope s of None \<Rightarrow> 0 | Some r \<Rightarrow> l_fence r)"

definition scope_owner :: "string \<Rightarrow> db \<Rightarrow> string option" where
  "scope_owner scope s = map_option l_owner (find_lease scope s)"

text \<open>What any operation may do to the lease row of a scope.\<close>

definition lease_kept :: "string \<Rightarrow> db \<Rightarrow> db \<Rightarrow> bool" where
  "lease_kept scope s s' \<longleftrightarrow>
     scope_fence scope s \<le> scope_fence scope s' \<and>
     (scope_fence scope s' = scope_fence scope s \<longrightarrow> scope_owner scope s' = scope_owner scope s)"

lemma lease_kept_refl: "leases s' = leases s \<Longrightarrow> lease_kept scope s s'"
  by (simp add: lease_kept_def scope_fence_def scope_owner_def find_lease_def)

text \<open>Updates that keep scope, owner and fence.\<close>

lemma lease_kept_update:
  assumes "leases s' = upd_where p f (leases s)" and "\<And>x. l_scope (f x) = l_scope x"
    and "\<And>x. p x \<Longrightarrow> l_owner (f x) = l_owner x \<and> l_fence (f x) = l_fence x"
  shows "lease_kept scope s s'" and "wf_leases s \<Longrightarrow> wf_leases s'"
proof -
  have "find_lease scope s' = map_option (\<lambda>x. if p x then f x else x) (find_lease scope s)"
    using assms(1,2) by (simp add: find_lease_def find_upd_where)
  then show "lease_kept scope s s'"
    using assms(3) by (auto simp: lease_kept_def scope_fence_def scope_owner_def split: option.splits)
  show "wf_leases s'" if "wf_leases s"
    using that assms by (auto simp: wf_leases_def map_upd_where_key in_upd_where)
qed

lemma acquire_lease_cases:
  assumes "acquire_lease e owner scope ttl meta s = Inr (r, s')"
  obtains (fresh) "find_lease scope s = None" "\<not> py_blank owner"
      "leases s' = leases s @ [r]" "l_scope r = scope" "l_owner r = owner" "l_fence r = 1"
  | (renewed) r0 where "find_lease scope s = Some r0" "l_status r0 = LActive"
      "\<not> expired_now e (Some (l_expires r0))" "l_owner r0 = owner"
      "leases s' = upd_where (\<lambda>x. l_scope x = scope \<and> l_owner x = owner \<and> l_status x = LActive)
                  (\<lambda>x. x\<lparr>l_heartbeat := now_text e, l_expires := expiry_text e ttl,
                         l_meta := if meta = [] then l_meta r0 else meta\<rparr>) (leases s)"
  | (taken) r0 where "find_lease scope s = Some r0"
      "l_status r0 \<noteq> LActive \<or> expired_now e (Some (l_expires r0))"
      "leases s' = upd_where (\<lambda>x. l_scope x = scope)
               (\<lambda>x. x\<lparr>l_owner := owner, l_fence := l_fence r0 + 1, l_status := LActive,
                      l_acquired := now_text e, l_heartbeat := now_text e,
                      l_expires := expiry_text e ttl, l_released := None, l_meta := meta\<rparr>) (leases s)"
  using assms unfolding acquire_lease_def
  by (auto simp: Let_def find_lease_def find_snoc split: option.splits if_splits)

lemma acquire_lease_kept:
  assumes "acquire_lease e owner scope ttl meta s = Inr (r, s')" and "wf_leases s"
  shows "lease_kept sc s s'" and "wf_leases s'"
proof -
  have "lease_kept sc s s' \<and> wf_leases s'"
    using assms(1)
  proof (cases rule: acquire_lease_cases)
    case fresh
    then have new: "scope \<notin> l_scope ` set (leases s)"
      by (auto simp: find_lease_def find_None_iff)
    show ?thesis
      using fresh new assms(2)
      by (auto simp: lease_kept_def scope_fence_def scope_owner_def wf_leases_def find_lease_def find_snoc
          split: option.splits)
  next
    case (renewed r0)
    show ?thesis
      using lease_kept_update [OF renewed(5)] assms(2) by auto
  next
    case (taken r0)
    have "1 \<le> l_fence r0"
      using taken(1) assms(2) by (auto simp: wf_leases_def dest!: find_lease_scope)
    then have "wf_leases s'"
      using taken(3) assms(2) by (auto simp: wf_leases_def map_upd_where_key in_upd_where)
    moreover have "find_lease sc s' = map_option (\<lambda>x. if l_scope x = scope then
        x\<lparr>l_owner := owner, l_fence := l_fence r0 + 1, l_status := LActive,
          l_acquired := now_text e, l_heartbeat := now_text e,
          l_expires := expiry_text e ttl, l_released := None, l_meta := meta\<rparr> else x) (find_lease sc s)"
      unfolding find_lease_def taken(3) by (rule find_upd_where) simp
    then have "lease_kept sc s s'"
      using taken(1) find_lease_scope [of sc s]
      by (cases "sc = scope")
        (auto simp: lease_kept_def scope_fence_def scope_owner_def split: option.splits)
    ultimately show ?thesis by blast
  qed
  then show "lease_kept sc s s'" "wf_leases s'" by blast+
qed

lemma heartbeat_lease_kept:
  assumes "heartbeat_lease e owner fence scope ttl s = Inr (r, s')"
  shows "lease_kept sc s s'" and "wf_leases s \<Longrightarrow> wf_leases s'"
proof -
  have "leases s' = upd_where (\<lambda>x. l_scope x = scope \<and> l_owner x = owner \<and> l_fence x = fence \<and> l_status x = LActive)
          (\<lambda>x. x\<lparr>l_heartbeat := now_text e, l_expires := expiry_text e ttl\<rparr>) (leases s)"
    using assms by (auto simp: heartbeat_lease_def tx_results)
  from lease_kept_update [OF this] show "lease_kept sc s s'" "wf_leases s \<Longrightarrow> wf_leases s'" by auto
qed

lemma release_lease_kept:
  assumes "release_lease e owner fence scope s = Inr (r, s')"
  shows "lease_kept sc s s'" and "wf_leases s \<Longrightarrow> wf_leases s'"
proof -
  have "leases s' = upd_where (\<lambda>x. l_scope x = scope \<and> l_owner x = owner \<and> l_fence x = fence)
               (\<lambda>x. x\<lparr>l_status := LReleased, l_released := Some (now_text e), l_expires := now_text e\<rparr>)
               (leases s)"
    using assms by (auto simp: release_lease_def split: option.splits if_splits)
  from lease_kept_update [OF this] show "lease_kept sc s s'" "wf_leases s \<Longrightarrow> wf_leases s'" by auto
qed

section \<open>The lease table keeps the contract of fencing\<close>

text \<open>A step of the lease table: one of its three operations, or anything that leaves it alone.\<close>

inductive lease_step :: "db \<Rightarrow> db \<Rightarrow> bool" where
  acquired: "acquire_lease e owner scope ttl meta s = Inr (r, s') \<Longrightarrow> lease_step s s'"
| beaten: "heartbeat_lease e owner fence scope ttl s = Inr (r, s') \<Longrightarrow> lease_step s s'"
| released: "release_lease e owner fence scope s = Inr (r, s') \<Longrightarrow> lease_step s s'"
| untouched: "leases s' = leases s \<Longrightarrow> lease_step s s'"

lemma lease_step_kept:
  "lease_step s s' \<Longrightarrow> wf_leases s \<Longrightarrow> lease_kept scope s s' \<and> wf_leases s'"
proof (induction rule: lease_step.induct)
  case (untouched s' s)
  then show ?case by (simp add: lease_kept_refl wf_leases_def)
qed (auto intro: acquire_lease_kept heartbeat_lease_kept release_lease_kept)

definition may_act :: "string \<Rightarrow> string \<Rightarrow> int \<Rightarrow> db \<Rightarrow> bool" where
  "may_act scope owner fence s \<longleftrightarrow> (\<exists>e. holds_lease e scope owner fence s)"

interpretation scope_lease: fenced wf_leases lease_step "scope_fence scope" "scope_owner scope" "may_act scope"
  for scope
proof
  show "may_act scope o1 f s \<Longrightarrow> scope_fence scope s = f \<and> scope_owner scope s = Some o1" for o1 f s
    by (auto simp: may_act_def scope_fence_def scope_owner_def dest!: holds_lease_find)
qed (use lease_step_kept [of _ _ scope] in \<open>auto simp: lease_kept_def\<close>)

end
