(* ===== verification/Lifecycle.thy ===== *)
theory Lifecycle
  imports CausalLedger
begin

text \<open>
  The projection of lifecycle facts (\<open>src/local_agent_dispatch/domain/lifecycle.py\<close>).

  \<open>project_lifecycle\<close> reduces an attempt's records, in append order, and the row evidence of the
  SQLite controller (job status, attempt status, validation) to independent facts: planned,
  executed, completed, validated, reviewed, promoted, and a status with overlays. A projection
  is a record with one field per key of the dictionary the code returns.
\<close>

definition event_status :: "string \<Rightarrow> string" where
  "event_status t = (case map_of
     [(''attempt.queued'', ''queued''), (''attempt.reserved'', ''reserved''),
      (''attempt.claimed'', ''claimed''), (''attempt.started'', ''started''),
      (''attempt.heartbeat'', ''started''), (''artifact.observed'', ''started''),
      (''attempt.validation'', ''started''), (''attempt.completed'', ''completed''),
      (''attempt.failed'', ''failed''), (''attempt.abandoned'', ''abandoned''),
      (''attempt.review'', ''review''), (''claim.promoted'', ''claim_promoted'')] t of
     None \<Rightarrow> ''unknown'' | Some s \<Rightarrow> s)"

definition executed_attempt_states :: "string list" where
  "executed_attempt_states = [''running'', ''completed'', ''failed'', ''retry'', ''abandoned'', ''review'']"

definition job_executed_states :: "string list" where
  "job_executed_states = [''running'', ''completed'', ''failed'', ''retry'', ''blocked'', ''pending'']"

definition executed_event_types :: "string list" where
  "executed_event_types =
     [''attempt.started'', ''attempt.heartbeat'', ''artifact.observed'', ''attempt.validation'',
      ''attempt.completed'', ''attempt.failed'', ''attempt.abandoned'']"

text \<open>\<open>_validation_outcome\<close>: \<open>outcome or status\<close>, then the boolean \<open>ok\<close>.\<close>

definition validation_outcome :: "json \<Rightarrow> string" where
  "validation_outcome v =
     (case v of
        JObj d \<Rightarrow>
          (let out = (if truthy (dget0 d ''outcome'') then dget0 d ''outcome'' else dget0 d ''status'')
           in if str_in out [''passed'', ''failed''] then jtxt out
              else if dget0 d ''ok'' = JBool True then ''passed''
              else if dget0 d ''ok'' = JBool False then ''failed''
              else ''unknown'')
      | _ \<Rightarrow> ''unknown'')"

record lifecycle =
  lc_planned :: bool
  lc_executed :: bool
  lc_completed :: bool
  lc_validated :: bool
  lc_validation_outcome :: string
  lc_reviewed :: bool
  lc_review_decision :: json
  lc_claim_promoted :: bool
  lc_status :: string
  lc_execution_status :: string

definition normal_status :: "string option \<Rightarrow> string" where
  "normal_status z = py_lower (py_strip (otext z))"

definition latest_validation :: "dict list \<Rightarrow> json \<Rightarrow> string" where
  "latest_validation chain validation =
     (let vs = filter (ev_is ''attempt.validation'') chain
      in if vs \<noteq> []
         then (let out = dget0 (last vs) ''outcome''
               in if str_in out [''passed'', ''failed''] then jtxt out else ''unknown'')
         else validation_outcome validation)"

definition lifecycle_status :: "dict list \<Rightarrow> string \<Rightarrow> string \<Rightarrow> string" where
  "lifecycle_status chain raw_attempt raw_job =
     (if list_ex (ev_is ''claim.promoted'') chain then ''claim_promoted''
      else if list_ex (ev_is ''attempt.review'') chain then ''review''
      else if raw_attempt \<in> set (executed_attempt_states @ [''queued'', ''reserved'', ''claimed''])
      then raw_attempt
      else if raw_job \<in> set (job_executed_states @ [''queued'', ''retry'']) then raw_job
      else if chain \<noteq> [] then event_status (jtxt (dget0 (last chain) ''event_type''))
      else ''unknown'')"

definition execution_status :: "dict list \<Rightarrow> string \<Rightarrow> string \<Rightarrow> bool \<Rightarrow> string \<Rightarrow> string" where
  "execution_status chain raw_attempt raw_job completed status =
     (if raw_attempt = ''failed'' \<or> list_ex (ev_is ''attempt.failed'') chain then ''failed''
      else if raw_attempt = ''abandoned'' \<or> list_ex (ev_is ''attempt.abandoned'') chain then ''abandoned''
      else if raw_attempt = ''retry'' then ''retry''
      else if raw_attempt = ''running'' \<or> raw_job = ''running'' then ''running''
      else if completed then ''completed'' else status)"

definition project_lifecycle :: "dict list \<Rightarrow> string option \<Rightarrow> string option \<Rightarrow> json \<Rightarrow> lifecycle" where
  "project_lifecycle chain job_status attempt_status validation =
     (let raw_attempt = normal_status attempt_status; raw_job = normal_status job_status;
          completed = (list_ex (ev_is ''attempt.completed'') chain
                       \<or> raw_attempt = ''completed'' \<or> raw_job = ''completed'');
          outcome = latest_validation chain validation;
          reviews = filter (ev_is ''attempt.review'') chain;
          status = lifecycle_status chain raw_attempt raw_job
      in \<lparr>lc_planned = (chain \<noteq> [] \<or> raw_attempt \<noteq> [] \<or> raw_job \<noteq> []),
          lc_executed = (list_ex (\<lambda>e. str_in (dget0 e ''event_type'') executed_event_types) chain
             \<or> raw_attempt \<in> set executed_attempt_states \<or> raw_job \<in> set job_executed_states),
          lc_completed = completed,
          lc_validated = (completed \<and> outcome = ''passed''),
          lc_validation_outcome = outcome,
          lc_reviewed = (reviews \<noteq> []),
          lc_review_decision =
            (if reviews = [] then JStr ''unknown''
             else case dget (last reviews) ''decision'' of None \<Rightarrow> JStr ''unknown'' | Some v \<Rightarrow> v),
          lc_claim_promoted = list_ex (ev_is ''claim.promoted'') chain,
          lc_status = status,
          lc_execution_status = execution_status chain raw_attempt raw_job completed status\<rparr>)"

text \<open>The JSON-ledger projections of \<open>ledger/projections.py\<close> that rest on it.\<close>

definition attempt_status_of :: "dict list \<Rightarrow> string" where
  "attempt_status_of chain =
     (if chain = [] then ''unknown'' else lc_status (project_lifecycle chain None None JNull))"

definition validation_outcome_of :: "dict list \<Rightarrow> json" where
  "validation_outcome_of chain =
     fold (\<lambda>e out. if ev_is ''attempt.validation'' e
                   then (case dget e ''outcome'' of None \<Rightarrow> JStr ''unknown'' | Some v \<Rightarrow> v) else out)
       chain (JStr ''unknown'')"

section \<open>Facts\<close>

lemma filter_last_snoc:
  "filter p (xs @ [x]) = (if p x then filter p xs @ [x] else filter p xs)"
  by simp

text \<open>The latest validation wins: after a failed re-check nothing that was recorded before it,
  no other record appended after it and no row evidence can make the attempt count as validated,
  until another validation record is appended.\<close>

theorem failed_recheck_is_not_hidden:
  assumes "ev_is ''attempt.validation'' v" and "dget0 v ''outcome'' = JStr ''failed''"
    and "list_all (\<lambda>e. \<not> ev_is ''attempt.validation'' e) after"
  shows "\<not> lc_validated (project_lifecycle (before @ v # after) job_status attempt_status validation)
    \<and> lc_validation_outcome (project_lifecycle (before @ v # after) job_status attempt_status validation) = ''failed''"
proof -
  have "filter (ev_is ''attempt.validation'') (before @ v # after) = filter (ev_is ''attempt.validation'') before @ [v]"
    using assms(1,3) by (simp add: list_all_iff filter_empty_conv)
  then show ?thesis
    using assms(2) by (simp add: project_lifecycle_def latest_validation_def Let_def)
qed

lemma failed_recheck_is_not_hidden_witness:
  "\<not> lc_validated (project_lifecycle
     [[(''event_type'', JStr ''attempt.completed'')],
      [(''event_type'', JStr ''attempt.validation''), (''outcome'', JStr ''passed'')],
      [(''event_type'', JStr ''attempt.validation''), (''outcome'', JStr ''failed'')],
      [(''event_type'', JStr ''attempt.heartbeat'')]]
     (Some ''completed'') (Some ''completed'') (JObj [(''ok'', JBool True)]))"
  using failed_recheck_is_not_hidden
    [of "[(''event_type'', JStr ''attempt.validation''), (''outcome'', JStr ''failed'')]"
        "[[(''event_type'', JStr ''attempt.heartbeat'')]]"
        "[[(''event_type'', JStr ''attempt.completed'')],
          [(''event_type'', JStr ''attempt.validation''), (''outcome'', JStr ''passed'')]]"
        "Some ''completed''" "Some ''completed''" "JObj [(''ok'', JBool True)]"]
  by (simp add: ev_is_def)

text \<open>The validation flag agrees with the ledger's own projection of the outcome.\<close>

lemma validation_outcome_of_last:
  "validation_outcome_of chain =
     (let vs = filter (ev_is ''attempt.validation'') chain
      in if vs = [] then JStr ''unknown''
         else case dget (last vs) ''outcome'' of None \<Rightarrow> JStr ''unknown'' | Some v \<Rightarrow> v)"
  unfolding validation_outcome_of_def
  by (induction chain rule: rev_induct) (auto simp: Let_def)

text \<open>A validated attempt is a completed one: on an attempt with no row evidence,
  \<open>validated\<close> holds exactly when a completion was recorded and the ledger's own outcome
  is \<open>passed\<close>.\<close>

theorem validated_iff_completed_and_passed:
  "lc_validated (project_lifecycle chain None None JNull)
     \<longleftrightarrow> list_ex (ev_is ''attempt.completed'') chain \<and> validation_outcome_of chain = JStr ''passed''"
proof -
  have blank: "normal_status None = []"
    by (simp add: normal_status_def py_strip_def py_lower_def)
  let ?vs = "filter (ev_is ''attempt.validation'') chain"
  have "latest_validation chain JNull = ''passed'' \<longleftrightarrow> validation_outcome_of chain = JStr ''passed''"
  proof (cases "?vs = []")
    case True
    then show ?thesis
      by (simp add: latest_validation_def validation_outcome_of_last validation_outcome_def)
  next
    case False
    then show ?thesis
      by (auto simp: latest_validation_def validation_outcome_of_last Let_def str_in_iff dget0_dget
          split: option.splits)
  qed
  then show ?thesis
    by (simp add: project_lifecycle_def Let_def blank)
qed

end
