(* ===== verification/StoreProvenance.thy ===== *)
theory StoreProvenance
  imports StoreLeases CausalLedger Lifecycle
begin

text \<open>
  The durable EventV2 ledger of \<open>scripts/sqlite_store.py\<close>: \<open>_append_provenance_event_tx\<close>, its
  promotion gate and secret check, the builders of the records the store itself writes, and the
  public seams \<open>append_event\<close>, \<open>append_provenance_event\<close>, \<open>project_attempt_lifecycle\<close>.

  A row of \<open>provenance_events\<close> is its record; the \<open>attempt_id\<close> and \<open>job_id\<close> columns are the text
  SQLite stores for the record's field (\<open>col_text\<close>). A real number in such a field is outside
  the model. The ledger is the second instance of \<open>causal_ledger\<close>.
\<close>

section \<open>Secrets\<close>

definition forbidden_keys :: "string list" where
  "forbidden_keys =
     [''prompt_body'', ''context_body'', ''prompt'', ''prompt_text'', ''credentials'',
      ''credential'', ''api_key'', ''auth_token'', ''access_token'', ''secret'', ''password'',
      ''ssh_key'']"

text \<open>\<open>_reject_provenance_secrets\<close>: any letter case, at any depth.\<close>

primrec has_secret :: "json \<Rightarrow> bool" where
  "has_secret JNull = False"
| "has_secret (JBool b) = False"
| "has_secret (JInt i) = False"
| "has_secret (JFloat q) = False"
| "has_secret (JStr s) = False"
| "has_secret (JArr vs) = list_ex id (map has_secret vs)"
| "has_secret (JObj d) = list_ex (\<lambda>(k, b). py_lower k \<in> set forbidden_keys \<or> b) (map (map_prod id has_secret) d)"

definition reject_secrets :: "json \<Rightarrow> unit op" where
  "reject_secrets v = tx_raise_if (has_secret v) ProvenanceSecretErr"

section \<open>Appending\<close>

fun col_text :: "json \<Rightarrow> string option" where
  "col_text (JStr s) = Some s"
| "col_text (JInt i) = Some (py_str_int i)"
| "col_text (JBool b) = Some (if b then ''1'' else ''0'')"
| "col_text _ = None"

fun bindable :: "json \<Rightarrow> bool" where
  "bindable (JArr vs) = False"
| "bindable (JObj d) = False"
| "bindable _ = True"

definition attempt_col :: "dict \<Rightarrow> string option" where
  "attempt_col r = col_text (dget0 r ''attempt_id'')"

definition job_col :: "dict \<Rightarrow> string option" where
  "job_col r = col_text (dget0 r ''job_id'')"

text \<open>\<open>_validate_provenance_claim_tx\<close>\<close>

definition validate_provenance_claim :: "dict \<Rightarrow> db \<Rightarrow> gate_error option" where
  "validate_provenance_claim r s =
     (if ev_is ''claim.promoted'' r
      then promotion_gate (chain_of attempt_col (provenance s) (jtxt (dget0 r ''attempt_id''))) r
      else None)"

definition append_provenance :: "dict \<Rightarrow> dict op" where
  "append_provenance r s =
     (if validate_event r \<noteq> None then Inl ProvenanceErr
      else if has_secret (JObj r) then Inl ProvenanceSecretErr
      else case List.find (\<lambda>x. ev_id x = ev_id r) (provenance s) of
        Some old \<Rightarrow> if canon_dict old = canon_dict r then Inr (r, s) else Inl ProvenanceConflictErr
      | None \<Rightarrow>
        (case List.find (\<lambda>x. ev_key x = ev_key r) (provenance s) of
          Some old \<Rightarrow> if canon_dict old = canon_dict r then Inr (r, s) else Inl ProvenanceConflictErr
        | None \<Rightarrow>
          if (case ev_parent r of None \<Rightarrow> False
              | Some p \<Rightarrow> List.find (\<lambda>x. ev_id x = p) (provenance s) = None)
          then Inl ProvenanceOrphanErr
          else if validate_provenance_claim r s \<noteq> None then Inl ProvenanceErr
          else if \<not> bindable (dget0 r ''job_id'') \<or> \<not> bindable (dget0 r ''attempt_id'') then Inl BindErr
          else Inr (r, s\<lparr>provenance := provenance s @ [r]\<rparr>)))"

text \<open>\<open>_latest_provenance_event_id_tx\<close>\<close>

definition latest_event_id :: "string \<Rightarrow> db \<Rightarrow> string option" where
  "latest_event_id attempt s =
     (let rows = chain_of attempt_col (provenance s) attempt
      in if rows = [] then None else Some (ev_id (last rows)))"

definition automatic_attempt_event ::
  "env \<Rightarrow> string \<Rightarrow> string \<Rightarrow> string option \<Rightarrow> string \<Rightarrow> dict \<Rightarrow> dict" where
  "automatic_attempt_event e etype attempt parent job payload =
     dput ''job_id'' (JStr job)
       (new_event (uuid5_of e) [] etype ''sqlite_store'' (''sqlite:'' @ etype @ '':'' @ attempt) parent
          (JFloat 1) (Some (now_text e)) (JStr ''internal'') None (Some attempt) payload)"

definition continuous_event ::
  "env \<Rightarrow> string \<Rightarrow> string \<Rightarrow> string \<Rightarrow> string option \<Rightarrow> string option \<Rightarrow> dict \<Rightarrow> dict" where
  "continuous_event e etype key run parent attempt payload =
     dput ''run_id'' (JStr run)
       (new_event (uuid5_of e) [] etype ''sqlite_store'' key parent
          (JFloat 1) (Some (now_text e)) (JStr ''internal'') None attempt payload)"

section \<open>Public seams\<close>

text \<open>Owner and fence come together or not at all.\<close>

definition fence_pair :: "env \<Rightarrow> string \<Rightarrow> string option \<Rightarrow> int option \<Rightarrow> unit op" where
  "fence_pair e scope owner fence =
     (case (owner, fence) of
        (None, None) \<Rightarrow> tx_return ()
      | (Some ow, Some f) \<Rightarrow> assert_lease e scope ow f
      | _ \<Rightarrow> tx_raise FencingErr)"

definition append_provenance_event ::
  "env \<Rightarrow> string \<Rightarrow> string option \<Rightarrow> int option \<Rightarrow> dict \<Rightarrow> dict op" where
  "append_provenance_event e scope owner fence r =
     tx_seq (fence_pair e scope owner fence) (append_provenance r)"

definition append_event ::
  "env \<Rightarrow> string \<Rightarrow> string \<Rightarrow> string option \<Rightarrow> string option \<Rightarrow> string option \<Rightarrow> string option \<Rightarrow>
    int option \<Rightarrow> json \<Rightarrow> event_row op" where
  "append_event e scope etype eid job attempt owner fence payload =
     tx_seq (fence_pair e scope owner fence) (append_event_row e etype eid job attempt owner fence payload)"

definition get_provenance_event :: "string \<Rightarrow> db \<Rightarrow> dict option" where
  "get_provenance_event i s = List.find (\<lambda>x. ev_id x = i) (provenance s)"

definition list_provenance_events :: "string option \<Rightarrow> string option \<Rightarrow> db \<Rightarrow> dict list" where
  "list_provenance_events job attempt s =
     filter (\<lambda>r. (job = None \<or> job_col r = job) \<and> (attempt = None \<or> attempt_col r = attempt)) (provenance s)"

definition json_opt :: "json option \<Rightarrow> json" where
  "json_opt z = (case z of None \<Rightarrow> JNull | Some v \<Rightarrow> v)"

definition project_attempt_lifecycle :: "string \<Rightarrow> db \<Rightarrow> lifecycle" where
  "project_attempt_lifecycle attempt s =
     (case find_attempt attempt s of
        None \<Rightarrow> project_lifecycle [] None None JNull
      | Some a \<Rightarrow> project_lifecycle (list_provenance_events None (Some attempt) s)
          (map_option (job_status_text \<circ> j_status) (find_job (a_job a) s))
          (Some (attempt_status_text (a_status a))) (json_opt (a_validation a)))"

section \<open>The table is a causal ledger\<close>

lemma append_provenance_cases:
  assumes "append_provenance r s = Inr (r', s')"
  obtains (known) "r' = r" "s' = s" "r \<in> set (provenance s) \<or> (\<exists>x \<in> set (provenance s). canon_dict x = canon_dict r)"
  | (new) "r' = r" "s' = s\<lparr>provenance := provenance s @ [r]\<rparr>" "validate_event r = None"
      "\<not> has_secret (JObj r)" "ev_id r \<notin> ev_id ` set (provenance s)" "ev_key r \<notin> ev_key ` set (provenance s)"
      "\<And>p. ev_parent r = Some p \<Longrightarrow> p \<in> ev_id ` set (provenance s)"
      "validate_provenance_claim r s = None"
proof (cases "List.find (\<lambda>x. ev_id x = ev_id r) (provenance s)")
  case (Some old)
  with assms have "r' = r" "s' = s" "canon_dict old = canon_dict r"
    by (simp_all add: append_provenance_def split: if_splits)
  with find_Some_D [OF Some] show thesis by (intro known) auto
next
  case None
  note n1 = None
  show thesis
  proof (cases "List.find (\<lambda>x. ev_key x = ev_key r) (provenance s)")
    case (Some old)
    with n1 assms have "r' = r" "s' = s" "canon_dict old = canon_dict r"
      by (simp_all add: append_provenance_def split: if_splits)
    with find_Some_D [OF Some] show thesis by (intro known) auto
  next
    case None
    have "validate_event r = None" "\<not> has_secret (JObj r)"
      "r' = r" "s' = s\<lparr>provenance := provenance s @ [r]\<rparr>" "validate_provenance_claim r s = None"
      and p: "\<not> (case ev_parent r of None \<Rightarrow> False | Some p \<Rightarrow> List.find (\<lambda>x. ev_id x = p) (provenance s) = None)"
      using n1 None assms unfolding append_provenance_def
      by (simp_all del: has_secret.simps split: if_splits) (metis append_Nil)+
    moreover have "ev_id r \<notin> ev_id ` set (provenance s)" "ev_key r \<notin> ev_key ` set (provenance s)"
      using n1 None unfolding find_None_iff by force+
    moreover have "q \<in> ev_id ` set (provenance s)" if "ev_parent r = Some q" for q
      using p that by (auto simp: find_None_iff)
    ultimately show thesis by (intro new)
  qed
qed

lemma append_provenance_fits:
  assumes "append_provenance r s = Inr (r', s')"
  shows "provenance s' = provenance s \<or>
    provenance s' = provenance s @ [r] \<and> fits attempt_col (provenance s) r"
  using assms
proof (cases rule: append_provenance_cases)
  case new
  then show ?thesis
    by (auto simp: fits_def validate_provenance_claim_def promotion_gate_open split: if_splits)
qed simp

interpretation provenance_table: causal_ledger attempt_col provenance "\<lambda>_. True" append_provenance
  by unfold_locales (simp_all add: append_provenance_fits)

section \<open>What the primitives write\<close>

lemma append_provenance_rel:
  assumes "\<And>s r. fits attempt_col (provenance s) r \<Longrightarrow> \<not> has_secret (JObj r) \<Longrightarrow>
      R s (s\<lparr>provenance := provenance s @ [r]\<rparr>)"
  shows "tx_rel R (append_provenance r)"
proof (rule tx_relI)
  fix s x s'
  assume a: "append_provenance r s = Inr (x, s')"
  from a show "R\<^sup>*\<^sup>* s s'"
  proof (cases rule: append_provenance_cases)
    case new
    with append_provenance_fits [OF a] have "fits attempt_col (provenance s) r" by simp
    with new(2,4) assms show ?thesis by blast
  qed simp
qed

lemma new_id_rel:
  assumes "\<And>s n. R s (s\<lparr>drawn := n\<rparr>)"
  shows "tx_rel R (new_id e p)"
  by (auto simp: new_id_def assms intro!: tx_relI)

lemma append_event_row_rel:
  assumes "\<And>s n. R s (s\<lparr>drawn := n\<rparr>)" and "\<And>s r. e_id r \<notin> e_id ` set (events s) \<Longrightarrow> R s (s\<lparr>events := events s @ [r]\<rparr>)"
  shows "tx_rel R (append_event_row e etype eid job attempt owner fence payload)"
  unfolding append_event_row_def
proof (rule tx_rel_bind)
  show "tx_rel R (case eid of None \<Rightarrow> new_id e ''event'' | Some i \<Rightarrow> if i \<noteq> [] then tx_return i else new_id e ''event'')"
    by (auto split: option.split intro!: new_id_rel assms(1))
next
  fix i
  show "tx_rel R (\<lambda>s. case List.find (\<lambda>r. e_id r = i) (events s) of
      Some r \<Rightarrow> Inr (r, s)
    | None \<Rightarrow>
      if (case job of None \<Rightarrow> False | Some j \<Rightarrow> find_job j s = None)
         \<or> (case attempt of None \<Rightarrow> False | Some a \<Rightarrow> find_attempt a s = None)
      then Inl IntegrityErr
      else let r = \<lparr>e_id = i, e_job = job, e_attempt = attempt, e_type = etype, e_at = now_text e,
                    e_owner = owner, e_fence = fence, e_payload = payload\<rparr>
           in Inr (r, s\<lparr>events := events s @ [r]\<rparr>))"
    using assms(2) by (intro tx_relI) (force simp: Let_def find_None_iff split: option.splits if_splits)
qed

lemma fence_pair_Inr [simp]: "fence_pair e scope owner fence s = Inr (u, s') \<Longrightarrow> s' = s"
  by (auto simp: fence_pair_def split: option.splits)

lemma fence_pair_rel [tx_rels, simp]: "tx_rel R (fence_pair e scope owner fence)"
  by (rule tx_relI) (auto dest: fence_pair_Inr)

lemma reject_secrets_rel [tx_rels, simp]: "tx_rel R (reject_secrets v)"
  by (simp add: reject_secrets_def)

end
