(* ===== verification/StoreReservations.thy ===== *)
theory StoreReservations
  imports StoreProvenance
begin

text \<open>
  Resource reservations and the governor row (\<open>scripts/sqlite_store.py\<close>, \<open>reserve_resources\<close> and
  its helpers, \<open>heartbeat_reservation\<close>, \<open>release_reservation\<close>, \<open>active_resource_totals\<close>,
  \<open>put_governor_state\<close>).

  Amounts are exact rationals where the code adds floats; a text amount is a decimal literal
  (\<open>inf\<close> and \<open>nan\<close> are taken as not numeric). A capacity map is an association list from
  resource names to amounts. The admission of a request is decided by \<open>capacity_checks\<close>, in the
  same order as the code, and the specification \<open>reserved\<close> says what the totals mean.
\<close>

section \<open>Numbers\<close>

fun digits_value :: "nat \<Rightarrow> string \<Rightarrow> nat" where
  "digits_value acc [] = acc"
| "digits_value acc (c # cs) = digits_value (10 * acc + (of_char c - 48)) cs"

definition read_sign :: "string \<Rightarrow> bool \<times> string" where
  "read_sign s = (case s of [] \<Rightarrow> (False, [])
     | c # cs \<Rightarrow> if c = CHR ''-'' then (True, cs) else if c = CHR ''+'' then (False, cs) else (False, s))"

definition read_exponent :: "string \<Rightarrow> int option" where
  "read_exponent s =
     (if s = [] then Some 0
      else if hd s = CHR ''e'' \<or> hd s = CHR ''E'' then
        (let (neg, ds) = read_sign (tl s)
         in if ds = [] \<or> \<not> list_all is_digit ds then None
            else Some (if neg then - int (digits_value 0 ds) else int (digits_value 0 ds)))
      else None)"

definition pow10 :: "int \<Rightarrow> rat" where
  "pow10 k = (if 0 \<le> k then 10 ^ nat k else 1 / 10 ^ nat (- k))"

text \<open>\<open>float(text)\<close> on finite decimal literals.\<close>

definition read_decimal :: "string \<Rightarrow> rat option" where
  "read_decimal text =
     (let (neg, s) = read_sign (py_strip text);
          whole = takeWhile is_digit s; r = dropWhile is_digit s;
          frac = (if r \<noteq> [] \<and> hd r = CHR ''.'' then takeWhile is_digit (tl r) else []);
          r' = (if r \<noteq> [] \<and> hd r = CHR ''.'' then dropWhile is_digit (tl r) else r)
      in if whole @ frac = [] then None
         else case read_exponent r' of None \<Rightarrow> None
           | Some k \<Rightarrow> Some ((if neg then -1 else 1)
               * of_nat (digits_value 0 (whole @ frac)) * pow10 (k - int (length frac))))"

text \<open>\<open>float(value)\<close>; \<open>None\<close> when it raises.\<close>

fun to_float :: "json \<Rightarrow> rat option" where
  "to_float (JStr s) = read_decimal s"
| "to_float v = num_of v"

definition norm_number :: "rat \<Rightarrow> json" where
  "norm_number q = (if of_int \<lfloor>q\<rfloor> = q then JInt \<lfloor>q\<rfloor> else JFloat q)"

section \<open>Normal forms\<close>

definition resource_fields :: "string list" where
  "resource_fields =
     [''cpu_cores'', ''ram_gib'', ''gpu_count'', ''vram_gib_per_gpu'', ''new_disk_gib'',
      ''compute_minutes'', ''network_gib'']"

definition host_resource_fields :: "string list" where
  "host_resource_fields = [''cpu_cores'', ''ram_gib'', ''gpu_count'', ''vram_gib_per_gpu'', ''new_disk_gib'']"

definition slot_fields :: "string list" where
  "slot_fields = [''slots'', ''concurrency'', ''host_slots'', ''pool_slots'']"

definition placement_fields :: "string list" where
  "placement_fields = [''host_id'', ''pool_id'', ''mount_id'', ''write_scope'']"

definition normal_amount :: "json \<Rightarrow> store_error + json" where
  "normal_amount v = (case to_float v of None \<Rightarrow> Inl ValueErr
     | Some q \<Rightarrow> if q < 0 then Inl ValueErr else Inr (norm_number q))"

fun normalize_items :: "env \<Rightarrow> dict \<Rightarrow> dict \<Rightarrow> store_error + dict" where
  "normalize_items e [] result = Inr result"
| "normalize_items e ((k, v) # rest) result =
     (if k \<notin> set (resource_fields @ slot_fields) then
        normalize_items e rest
          (if k \<in> set placement_fields then dput k (JStr (py_str e v)) result else result)
      else if v = JNull then normalize_items e rest result
      else case normal_amount v of Inl x \<Rightarrow> Inl x
        | Inr n \<Rightarrow> normalize_items e rest (dput k n result))"

definition normalize_alias :: "string \<Rightarrow> string \<Rightarrow> dict \<Rightarrow> dict \<Rightarrow> store_error + dict" where
  "normalize_alias key other source result =
     (if dget result key = None \<and> dget source other \<noteq> None
      then (case normal_amount (dget0 source other) of Inl x \<Rightarrow> Inl x | Inr n \<Rightarrow> Inr (dput key n result))
      else Inr result)"

definition sum_bind :: "'e + 'a \<Rightarrow> ('a \<Rightarrow> 'e + 'b) \<Rightarrow> 'e + 'b" where
  "sum_bind m f = (case m of Inl x \<Rightarrow> Inl x | Inr a \<Rightarrow> f a)"

definition normalize_resource_request :: "env \<Rightarrow> dict \<Rightarrow> store_error + dict" where
  "normalize_resource_request e source =
     sum_bind (normalize_items e source []) (\<lambda>r.
     sum_bind (normalize_alias ''vram_gib_per_gpu'' ''vram_gib'' source r) (\<lambda>r.
     normalize_alias ''new_disk_gib'' ''disk_gib'' source r))"

type_synonym amounts = "(string \<times> rat) list"

fun aput :: "string \<Rightarrow> rat \<Rightarrow> amounts \<Rightarrow> amounts" where
  "aput k v [] = [(k, v)]"
| "aput k v ((k', v') # d) = (if k = k' then (k, v) # d else (k', v') # aput k v d)"

definition aget :: "amounts \<Rightarrow> string \<Rightarrow> rat" where
  "aget d k = (case map_of d k of None \<Rightarrow> 0 | Some q \<Rightarrow> q)"

definition capacity_alias :: "string \<Rightarrow> string" where
  "capacity_alias k = (case map_of
     [(''vram_gib'', ''vram_gib_per_gpu''), (''vram'', ''vram_gib_per_gpu''), (''disk_gib'', ''new_disk_gib''),
      (''host_slots'', ''slots''), (''pool_slots'', ''slots'')] k of None \<Rightarrow> k | Some k' \<Rightarrow> k')"

definition unwrap_capacity :: "dict \<Rightarrow> dict" where
  "unwrap_capacity source =
     (case List.find (\<lambda>w. case dget0 source w of JObj d \<Rightarrow> True | _ \<Rightarrow> False)
             [''allocatable'', ''capacity'', ''resources''] of
        None \<Rightarrow> source
      | Some w \<Rightarrow> (case dget0 source w of JObj d \<Rightarrow> dupdate d (dpop w source) | _ \<Rightarrow> source))"

fun capacity_items :: "dict \<Rightarrow> amounts \<Rightarrow> store_error + amounts" where
  "capacity_items [] result = Inr result"
| "capacity_items ((k, v) # rest) result =
     (if capacity_alias k \<notin> set (resource_fields @ [''slots'', ''concurrency'']) \<or> v = JNull
      then capacity_items rest result
      else case to_float v of None \<Rightarrow> Inl ValueErr
        | Some q \<Rightarrow> if q < 0 then Inl ValueErr else capacity_items rest (aput (capacity_alias k) q result))"

definition normalize_capacity_map :: "dict \<Rightarrow> store_error + amounts" where
  "normalize_capacity_map source = capacity_items (unwrap_capacity source) []"

record capacity_view =
  cv_host_id :: "string option"
  cv_pool_id :: "string option"
  cv_host :: amounts
  cv_pool :: amounts
  cv_enabled :: bool

definition first_mapping :: "dict \<Rightarrow> string list \<Rightarrow> dict option" where
  "first_mapping source ks =
     (case List.find (\<lambda>k. case dget0 source k of JObj d \<Rightarrow> True | _ \<Rightarrow> False) ks of
        None \<Rightarrow> None
      | Some k \<Rightarrow> (case dget0 source k of JObj d \<Rightarrow> Some d | _ \<Rightarrow> None))"

definition identity_of :: "env \<Rightarrow> string \<Rightarrow> dict \<Rightarrow> dict \<Rightarrow> string option" where
  "identity_of e k request source =
     (let t = (if truthy (dget0 request k) then py_str e (dget0 request k)
               else if truthy (dget0 source k) then py_str e (dget0 source k) else [])
      in if t = [] then None else Some t)"

text \<open>\<open>_capacity_groups\<close>\<close>

definition capacity_groups ::
  "env \<Rightarrow> dict \<Rightarrow> dict option \<Rightarrow> dict option \<Rightarrow> dict option \<Rightarrow> store_error + capacity_view" where
  "capacity_groups e request capacity host_capacity pool_capacity =
     (let source = (case capacity of None \<Rightarrow> [] | Some d \<Rightarrow> d);
          nested_host = (case host_capacity of Some d \<Rightarrow> Some d
             | None \<Rightarrow> first_mapping source [''host'', ''host_capacity'', ''host_resources'']);
          nested_pool = (case pool_capacity of Some d \<Rightarrow> Some d
             | None \<Rightarrow> first_mapping source [''pool'', ''pool_capacity'', ''pool_resources''])
      in sum_bind (normalize_capacity_map (case nested_host of None \<Rightarrow> source | Some d \<Rightarrow> d)) (\<lambda>host.
         sum_bind (normalize_capacity_map
            (case nested_pool of None \<Rightarrow> [(''slots'', dget0 source ''pool_slots'')] | Some d \<Rightarrow> d)) (\<lambda>pool.
         Inr \<lparr>cv_host_id = identity_of e ''host_id'' request source,
              cv_pool_id = identity_of e ''pool_id'' request source,
              cv_host = host, cv_pool = pool,
              cv_enabled = (capacity \<noteq> None \<or> host_capacity \<noteq> None \<or> pool_capacity \<noteq> None)\<rparr>)))"

section \<open>Admission\<close>

text \<open>Does a reservation count against host \<open>h\<close> and pool \<open>p\<close>? One without an identity does.\<close>

definition identity_matches :: "env \<Rightarrow> string \<Rightarrow> string option \<Rightarrow> dict \<Rightarrow> bool" where
  "identity_matches e k ident request =
     (case ident of None \<Rightarrow> True
      | Some h \<Rightarrow> (let t = (if truthy (dget0 request k) then py_str e (dget0 request k) else [])
                   in t = [] \<or> t = h))"

definition dget_else :: "dict \<Rightarrow> string \<Rightarrow> json \<Rightarrow> json" where
  "dget_else d k v = (case dget d k of None \<Rightarrow> v | Some w \<Rightarrow> w)"

definition slot_value :: "dict \<Rightarrow> json" where
  "slot_value request =
     (let v = dget_else request ''slots'' (dget0 request ''concurrency'')
      in if v = JNull then dget_else request ''host_slots'' (dget0 request ''pool_slots'') else v)"

definition add_total :: "string \<Rightarrow> rat \<Rightarrow> amounts \<Rightarrow> amounts" where
  "add_total k q totals = aput k (aget totals k + q) totals"

definition add_fields :: "dict \<Rightarrow> amounts \<Rightarrow> amounts" where
  "add_fields request totals =
     fold (\<lambda>k t. case num_of (dget0 request k) of None \<Rightarrow> t | Some q \<Rightarrow> add_total k q t) resource_fields totals"

definition add_slots :: "bool \<Rightarrow> dict \<Rightarrow> amounts \<Rightarrow> amounts" where
  "add_slots named request totals =
     (case num_of (slot_value request) of
        Some q \<Rightarrow> add_total ''slots'' q totals
      | None \<Rightarrow> if named then add_total ''slots'' 1 totals else totals)"

text \<open>The rows \<open>_reservation_totals_tx\<close> sums.\<close>

definition counted_rows :: "env \<Rightarrow> string \<Rightarrow> string option \<Rightarrow> string option \<Rightarrow> db \<Rightarrow> dict list" where
  "counted_rows e scope host pool s =
     filter (\<lambda>q. identity_matches e ''host_id'' host q \<and> identity_matches e ''pool_id'' pool q)
       (map r_request (filter (\<lambda>r. r_scope r = scope \<and> r_status r = RActive \<and> now_text e < r_expires r)
          (reservations s)))"

definition reservation_totals :: "env \<Rightarrow> string \<Rightarrow> string option \<Rightarrow> string option \<Rightarrow> db \<Rightarrow> amounts" where
  "reservation_totals e scope host pool s =
     fold (\<lambda>q t. add_slots (host \<noteq> None \<or> pool \<noteq> None) q (add_fields q t)) (counted_rows e scope host pool s) []"

datatype decision = Admit | Reject | Unknown

record check =
  ck_group :: string
  ck_resource :: string
  ck_requested :: rat
  ck_reserved :: rat
  ck_capacity :: rat
  ck_decision :: decision
  ck_identifier :: "string option"

definition the_num :: "json \<Rightarrow> rat" where
  "the_num v = (case num_of v of None \<Rightarrow> 0 | Some q \<Rightarrow> q)"

definition skips :: "json \<Rightarrow> bool" where
  "skips v \<longleftrightarrow> v = JNull \<or> py_eq v (JInt 0)"

definition compare_check :: "string \<Rightarrow> string option \<Rightarrow> string \<Rightarrow> rat \<Rightarrow> rat \<Rightarrow> rat \<Rightarrow> check" where
  "compare_check grp ident k requested reserved capacity =
     \<lparr>ck_group = grp, ck_resource = k, ck_requested = requested, ck_reserved = reserved,
      ck_capacity = capacity,
      ck_decision = (if reserved + requested \<le> capacity then Admit else Reject), ck_identifier = ident\<rparr>"

definition field_checks :: "string \<Rightarrow> dict \<Rightarrow> amounts \<Rightarrow> amounts \<Rightarrow> string option \<Rightarrow> bool \<Rightarrow> check list" where
  "field_checks grp request capacities totals ident strict =
     concat (map (\<lambda>k.
       if skips (dget0 request k) then []
       else case map_of capacities k of
         None \<Rightarrow> if strict then [\<lparr>ck_group = grp, ck_resource = k, ck_requested = 0, ck_reserved = 0,
                   ck_capacity = 0, ck_decision = Unknown, ck_identifier = ident\<rparr>] else []
       | Some c \<Rightarrow> [compare_check grp ident k (the_num (dget0 request k)) (aget totals k) c])
       (if grp = ''host'' then host_resource_fields else resource_fields))"

definition slot_checks :: "string \<Rightarrow> dict \<Rightarrow> amounts \<Rightarrow> amounts \<Rightarrow> string option \<Rightarrow> check list" where
  "slot_checks grp request capacities totals ident =
     (case (case map_of capacities ''slots'' of None \<Rightarrow> map_of capacities ''concurrency'' | Some c \<Rightarrow> Some c) of
        None \<Rightarrow> []
      | Some c \<Rightarrow>
          (let v = dget_else request ''slots'' (dget0 request ''concurrency'');
               w = (if v = JNull
                    then dget_else request (if grp = ''host'' then ''host_slots'' else ''pool_slots'') (JInt 1)
                    else v)
           in [compare_check grp ident ''slots'' (the_num w) (aget totals ''slots'') c]))"

definition group_checks :: "string \<Rightarrow> dict \<Rightarrow> amounts \<Rightarrow> amounts \<Rightarrow> string option \<Rightarrow> bool \<Rightarrow> check list" where
  "group_checks grp request capacities totals ident strict =
     (if capacities = [] \<and> \<not> strict then []
      else field_checks grp request capacities totals ident strict
           @ slot_checks grp request capacities totals ident)"

definition capacity_checks :: "dict \<Rightarrow> capacity_view \<Rightarrow> amounts \<Rightarrow> amounts \<Rightarrow> check list" where
  "capacity_checks request cv host_totals pool_totals =
     group_checks ''host'' request (cv_host cv) host_totals (cv_host_id cv) True
     @ group_checks ''pool'' request (cv_pool cv) pool_totals (cv_pool_id cv) False"

definition refused :: "check \<Rightarrow> bool" where
  "refused c \<longleftrightarrow> ck_decision c \<noteq> Admit"

definition check_json :: "check \<Rightarrow> json" where
  "check_json c =
     (if ck_decision c = Unknown
      then JObj [(''group'', JStr (ck_group c)), (''resource'', JStr (ck_resource c)),
                 (''decision'', JStr ''unknown''), (''reason'', JStr ''capacity_unknown''),
                 (''identifier'', jopt (ck_identifier c))]
      else JObj [(''group'', JStr (ck_group c)), (''resource'', JStr (ck_resource c)),
                 (''requested'', JFloat (ck_requested c)), (''reserved'', JFloat (ck_reserved c)),
                 (''capacity'', JFloat (ck_capacity c)),
                 (''projected'', JFloat (ck_reserved c + ck_requested c)),
                 (''decision'', JStr (if ck_decision c = Admit then ''admit'' else ''reject'')),
                 (''identifier'', jopt (ck_identifier c))])"

definition refusal_reason :: "check list \<Rightarrow> string" where
  "refusal_reason checks =
     (case List.find refused checks of
        None \<Rightarrow> ''capacity_available''
      | Some c \<Rightarrow> if ck_decision c = Unknown then ''capacity_unknown''
                  else ck_group c @ ''_'' @ ck_resource c @ ''_capacity_exceeded'')"

definition amounts_json :: "amounts \<Rightarrow> json" where
  "amounts_json d = JObj (map (map_prod id JFloat) d)"

definition capacity_report :: "capacity_view \<Rightarrow> check list \<Rightarrow> amounts \<Rightarrow> amounts \<Rightarrow> dict" where
  "capacity_report cv checks host_totals pool_totals =
     [(''allowed'', JBool (\<not> list_ex refused checks)),
      (''source'', JStr ''reservation_store''),
      (''host_id'', jopt (cv_host_id cv)), (''pool_id'', jopt (cv_pool_id cv)),
      (''checks'', JArr (map check_json checks)),
      (''reason'', JStr (refusal_reason checks)),
      (''host_reserved_before'', amounts_json host_totals),
      (''pool_reserved_before'', amounts_json pool_totals)]"

section \<open>Reserving\<close>

record reserve_args =
  ra_job :: string
  ra_owner :: string
  ra_fence :: int
  ra_request :: dict
  ra_admission :: dict
  ra_capacity :: "dict option"
  ra_host_capacity :: "dict option"
  ra_pool_capacity :: "dict option"
  ra_ttl :: rat
  ra_scope :: string
  ra_id :: "string option"
  ra_event :: "dict option"

text \<open>\<open>_prepare_reservation_inputs\<close>: the normal request, the admission report without its capacity
  observation, and the capacity to check.\<close>

definition prepare_reservation :: "env \<Rightarrow> reserve_args \<Rightarrow> store_error + (dict \<times> dict \<times> dict option)" where
  "prepare_reservation e ra =
     sum_bind (normalize_resource_request e (ra_request ra)) (\<lambda>request.
       if dget0 (ra_admission ra) ''allowed'' = JBool False then Inl ReservationAdmissionErr
       else Inr (request,
         (if dget (ra_admission ra) ''capacity'' \<noteq> None
          then dput ''capacity_evidence_supplied'' (JBool True) (dpop ''capacity'' (ra_admission ra))
          else ra_admission ra),
         (case ra_capacity ra of
            Some d \<Rightarrow> Some d
          | None \<Rightarrow> (case dget0 (ra_admission ra) ''capacity'' of JObj d \<Rightarrow> Some d | _ \<Rightarrow> None))))"

definition expire_reservations :: "env \<Rightarrow> db \<Rightarrow> db" where
  "expire_reservations e s =
     s\<lparr>reservations := upd_where (\<lambda>r. r_status r = RActive \<and> r_expires r \<le> now_text e)
        (\<lambda>r. r\<lparr>r_status := RExpired, r_updated := now_text e, r_expires := now_text e,
               r_reason := Some ''lease_expired''\<rparr>) (reservations s)\<rparr>"

definition find_active :: "string \<Rightarrow> string \<Rightarrow> db \<Rightarrow> reservation_row option" where
  "find_active job scope s =
     List.find (\<lambda>r. r_job r = job \<and> r_scope r = scope \<and> r_status r = RActive) (reservations s)"

definition find_reservation :: "string \<Rightarrow> db \<Rightarrow> reservation_row option" where
  "find_reservation i s = List.find (\<lambda>r. r_id r = i) (reservations s)"

definition name_request :: "capacity_view \<Rightarrow> dict \<Rightarrow> dict" where
  "name_request cv request =
     (let r1 = (case cv_host_id cv of None \<Rightarrow> request | Some h \<Rightarrow> dput ''host_id'' (JStr h) request)
      in case cv_pool_id cv of None \<Rightarrow> r1 | Some p \<Rightarrow> dput ''pool_id'' (JStr p) r1)"

text \<open>The \<open>INSERT\<close>, its event and the caller's provenance record.\<close>

definition insert_reservation ::
  "env \<Rightarrow> reserve_args \<Rightarrow> string \<Rightarrow> dict \<Rightarrow> dict \<Rightarrow> reservation_row op" where
  "insert_reservation e ra rid request admission =
     tx_seq (\<lambda>s. if find_reservation rid s \<noteq> None then Inl IntegrityErr
        else Inr ((), s\<lparr>reservations := reservations s @
          [\<lparr>r_id = rid, r_job = ra_job ra, r_scope = ra_scope ra, r_status = RActive,
            r_owner = ra_owner ra, r_fence = ra_fence ra, r_created = now_text e, r_updated = now_text e,
            r_expires = expiry_text e (ra_ttl ra), r_request = request, r_admission = admission,
            r_reason = None\<rparr>]\<rparr>))
     (tx_bind (append_event_row e ''reservation_created'' None (Some (ra_job ra)) None
          (Some (ra_owner ra)) (Some (ra_fence ra))
          (JObj [(''reservation_id'', JStr rid), (''resource_request'', JObj request),
                 (''admission'', JObj admission)])) (\<lambda>_.
      tx_seq (case ra_event ra of None \<Rightarrow> tx_return () | Some v \<Rightarrow> tx_bind (append_provenance v) (\<lambda>_. tx_return ()))
        (refetch (find_reservation rid))))"

text \<open>\<open>_reserve_resources_tx\<close> after its inputs are prepared.\<close>

definition reserve_tx ::
  "env \<Rightarrow> reserve_args \<Rightarrow> string \<Rightarrow> dict \<Rightarrow> dict \<Rightarrow> dict option \<Rightarrow> reservation_row op" where
  "reserve_tx e ra rid request admission capacity s0 =
     (if find_job (ra_job ra) s0 = None then Inl JobTransitionErr
      else
        let s = expire_reservations e s0
        in case capacity_groups e request capacity (ra_host_capacity ra) (ra_pool_capacity ra) of
             Inl x \<Rightarrow> Inl x
           | Inr cv \<Rightarrow>
             (let named = name_request cv request
              in case find_active (ra_job ra) (ra_scope ra) s of
                   Some r \<Rightarrow>
                     if r_owner r = ra_owner ra \<and> r_fence r = ra_fence ra \<and> dict_eq (r_request r) named
                     then Inr (r, s) else Inl ReservationConflictErr
                 | None \<Rightarrow>
                     (let host_totals = reservation_totals e (ra_scope ra) (cv_host_id cv) None s;
                          pool_totals = reservation_totals e (ra_scope ra) None (cv_pool_id cv) s;
                          checks = capacity_checks named cv host_totals pool_totals
                      in if cv_enabled cv \<and> list_ex refused checks then Inl ReservationAdmissionErr
                         else insert_reservation e ra rid named
                           (if cv_enabled cv
                            then dupdate admission (capacity_report cv checks host_totals pool_totals)
                            else admission) s)))"

definition reservation_token :: "env \<Rightarrow> reserve_args \<Rightarrow> string op" where
  "reservation_token e ra =
     (if otext (ra_id ra) \<noteq> [] then tx_return (otext (ra_id ra)) else new_id e ''reservation'')"

definition reserve_resources :: "env \<Rightarrow> reserve_args \<Rightarrow> reservation_row op" where
  "reserve_resources e ra =
     (case prepare_reservation e ra of
        Inl x \<Rightarrow> tx_raise x
      | Inr (request, admission, capacity) \<Rightarrow>
          tx_bind (reservation_token e ra) (\<lambda>rid.
          tx_seq (assert_lease e (ra_scope ra) (ra_owner ra) (ra_fence ra))
            (reserve_tx e ra rid request admission capacity)))"

definition heartbeat_reservation :: "env \<Rightarrow> string \<Rightarrow> string \<Rightarrow> int \<Rightarrow> rat \<Rightarrow> string \<Rightarrow> reservation_row op" where
  "heartbeat_reservation e job owner fence ttl scope =
     tx_seq (assert_lease e scope owner fence) (\<lambda>s.
       case find_active job scope s of
         None \<Rightarrow> Inl FencingErr
       | Some r \<Rightarrow>
           if r_owner r \<noteq> owner \<or> r_fence r \<noteq> fence \<or> expired_now e (Some (r_expires r)) then Inl FencingErr
           else refetch (find_reservation (r_id r))
             (s\<lparr>reservations := upd_where (\<lambda>x. r_id x = r_id r \<and> r_status x = RActive)
                (\<lambda>x. x\<lparr>r_updated := now_text e, r_expires := expiry_text e ttl\<rparr>) (reservations s)\<rparr>))"

text \<open>\<open>_release_reservation_tx\<close>: the number of rows it released.\<close>

definition releasable :: "string \<Rightarrow> string option \<Rightarrow> int option \<Rightarrow> reservation_row \<Rightarrow> bool" where
  "releasable job owner fence r \<longleftrightarrow>
     r_job r = job \<and> r_status r = RActive \<and> (owner = None \<or> Some (r_owner r) = owner)
     \<and> (fence = None \<or> Some (r_fence r) = fence)"

definition release_reservation_tx :: "env \<Rightarrow> string \<Rightarrow> string option \<Rightarrow> int option \<Rightarrow> string \<Rightarrow> nat op" where
  "release_reservation_tx e job owner fence reason s =
     Inr (rowcount (releasable job owner fence) (reservations s),
       s\<lparr>reservations := upd_where (releasable job owner fence)
          (\<lambda>r. r\<lparr>r_status := RReleased, r_updated := now_text e, r_expires := now_text e,
                 r_reason := Some reason\<rparr>) (reservations s)\<rparr>)"

definition release_reservation :: "env \<Rightarrow> string \<Rightarrow> string \<Rightarrow> int \<Rightarrow> string \<Rightarrow> string \<Rightarrow> nat op" where
  "release_reservation e job owner fence reason scope =
     tx_seq (assert_lease e scope owner fence)
       (tx_bind (release_reservation_tx e job (Some owner) (Some fence) reason) (\<lambda>count.
          tx_seq (if count \<noteq> 0
                  then tx_bind (append_event_row e ''reservation_released'' None (Some job) None (Some owner)
                         (Some fence) (JObj [(''reason'', JStr reason)])) (\<lambda>_. tx_return ())
                  else tx_return ())
            (tx_return count)))"

definition list_reservations :: "string option \<Rightarrow> reservation_status list \<Rightarrow> db \<Rightarrow> reservation_row list" where
  "list_reservations job statuses s =
     sort_key (\<lambda>r. (r_created r, r_id r))
       (filter (\<lambda>r. (job = None \<or> Some (r_job r) = job) \<and> (statuses = [] \<or> r_status r \<in> set statuses))
          (reservations s))"

definition active_resource_totals :: "env \<Rightarrow> string \<Rightarrow> db \<Rightarrow> amounts" where
  "active_resource_totals e scope s =
     fold (\<lambda>r t. if r_scope r \<noteq> scope \<or> expired_now e (Some (r_expires r)) then t
                 else fold (\<lambda>(k, v) t. case num_of v of None \<Rightarrow> t | Some q \<Rightarrow> add_total k q t) (r_request r) t)
       (list_reservations None [RActive] s) []"

section \<open>Governor\<close>

definition get_governor_state :: "string \<Rightarrow> db \<Rightarrow> dict" where
  "get_governor_state scope s =
     (case List.find (\<lambda>g. g_scope g = scope) (governor s) of None \<Rightarrow> [] | Some g \<Rightarrow> g_state g)"

text \<open>\<open>_put_governor_state_tx\<close>: an identical row is left as it is.\<close>

definition put_governor_tx ::
  "env \<Rightarrow> dict \<Rightarrow> dict \<Rightarrow> string option \<Rightarrow> string \<Rightarrow> string option \<Rightarrow> int option \<Rightarrow> governor_row op" where
  "put_governor_tx e state policy observed scope owner fence =
     tx_seq (tx_raise_if ((owner = None) \<noteq> (fence = None)) FencingErr)
     (tx_seq (reject_secrets (JObj state))
     (tx_seq (reject_secrets (JObj policy))
     (tx_seq (case (owner, fence) of (Some ow, Some f) \<Rightarrow> assert_lease e scope ow f | _ \<Rightarrow> tx_return ())
     (\<lambda>s.
       let found = List.find (\<lambda>g. g_scope g = scope) (governor s);
           same = (case found of None \<Rightarrow> False
             | Some g \<Rightarrow> dict_eq (g_state g) state \<and> dict_eq (g_policy g) policy \<and> g_observed g = observed
                 \<and> g_owner g = owner
                 \<and> (case fence of None \<Rightarrow> g_fence g = None | Some f \<Rightarrow> int_or_zero (g_fence g) = f))
       in case (found, same) of
            (Some g, True) \<Rightarrow> Inr (g, s)
          | _ \<Rightarrow>
            (let row = \<lparr>g_scope = scope, g_state = state, g_policy = policy, g_observed = observed,
                        g_updated = now_text e, g_owner = owner, g_fence = fence\<rparr>;
                 s1 = s\<lparr>governor := (if found = None then governor s @ [row]
                                     else upd_where (\<lambda>g. g_scope g = scope) (\<lambda>_. row) (governor s))\<rparr>
             in tx_seq (case owner of None \<Rightarrow> tx_return ()
                  | Some ow \<Rightarrow> tx_bind (append_event_row e ''governor_state_updated'' None None None owner fence
                      (JObj [(''scope'', JStr scope), (''effective_tier'', dget0 state ''effective_tier''),
                             (''observed_tier'', dget0 state ''observed_tier'')])) (\<lambda>_. tx_return ()))
                  (refetch (\<lambda>s. List.find (\<lambda>g. g_scope g = scope) (governor s))) s1)))))"

definition put_governor_state ::
  "env \<Rightarrow> dict \<Rightarrow> dict \<Rightarrow> string option \<Rightarrow> string \<Rightarrow> string option \<Rightarrow> int option \<Rightarrow> governor_row op" where
  "put_governor_state = put_governor_tx"

section \<open>The totals count what is reserved\<close>

text \<open>The amount of a resource held by the counted reservations of a scope.\<close>

definition reserved :: "env \<Rightarrow> string \<Rightarrow> string option \<Rightarrow> string option \<Rightarrow> string \<Rightarrow> db \<Rightarrow> rat" where
  "reserved e scope host pool k s = (\<Sum>q\<leftarrow>counted_rows e scope host pool s. the_num (dget0 q k))"

lemma aget_aput [simp]: "aget (aput k v d) k' = (if k' = k then v else aget d k')"
  unfolding aget_def by (induction d) auto

lemma aget_Nil [simp]: "aget [] k = 0"
  by (simp add: aget_def)

lemma aget_add_total [simp]: "aget (add_total k q t) k' = aget t k' + (if k' = k then q else 0)"
  by (simp add: add_total_def)

lemma aget_fold_fields:
  "distinct ks \<Longrightarrow> aget (fold (\<lambda>k t. case num_of (f k) of None \<Rightarrow> t | Some q \<Rightarrow> add_total k q t) ks t) k'
    = aget t k' + (if k' \<in> set ks then the_num (f k') else 0)"
  by (induction ks arbitrary: t) (auto simp: the_num_def split: option.split)

lemma resource_fields_distinct [simp]: "distinct resource_fields" "''slots'' \<notin> set resource_fields"
  by (simp_all add: resource_fields_def)

lemma aget_add_fields: "aget (add_fields q t) k = aget t k + (if k \<in> set resource_fields then the_num (dget0 q k) else 0)"
  unfolding add_fields_def by (rule aget_fold_fields) simp

lemma aget_add_slots: "k \<noteq> ''slots'' \<Longrightarrow> aget (add_slots named q t) k = aget t k"
  by (simp add: add_slots_def split: option.split)

lemma totals_are_reserved:
  assumes "k \<in> set resource_fields"
  shows "aget (reservation_totals e scope host pool s) k = reserved e scope host pool k s"
proof -
  have k: "k \<noteq> ''slots''" using assms resource_fields_distinct(2) by metis
  have "aget (fold (\<lambda>q t. add_slots b q (add_fields q t)) qs t) k
      = aget t k + (\<Sum>q\<leftarrow>qs. the_num (dget0 q k))" for b qs t
    by (induction qs arbitrary: t) (simp_all add: aget_add_slots [OF k] aget_add_fields assms)
  then show ?thesis
    by (simp add: reservation_totals_def reserved_def)
qed

text \<open>
  The slots held by the counted reservations. A row that states no number counts as one slot where the
  host or the pool is named, and as none elsewhere.
\<close>

definition row_slots :: "bool \<Rightarrow> dict \<Rightarrow> rat" where
  "row_slots named q = (case num_of (slot_value q) of Some n \<Rightarrow> n | None \<Rightarrow> if named then 1 else 0)"

definition slots_reserved :: "env \<Rightarrow> string \<Rightarrow> string option \<Rightarrow> string option \<Rightarrow> db \<Rightarrow> rat" where
  "slots_reserved e scope host pool s =
     (\<Sum>q\<leftarrow>counted_rows e scope host pool s. row_slots (host \<noteq> None \<or> pool \<noteq> None) q)"

lemma totals_are_slots:
  "aget (reservation_totals e scope host pool s) ''slots'' = slots_reserved e scope host pool s"
proof -
  have "aget (fold (\<lambda>q t. add_slots b q (add_fields q t)) qs t) ''slots'' = aget t ''slots'' + (\<Sum>q\<leftarrow>qs. row_slots b q)"
    for b qs t
    by (induction qs arbitrary: t) (auto simp: add_slots_def row_slots_def aget_add_fields split: option.split)
  then show ?thesis
    by (simp add: reservation_totals_def slots_reserved_def)
qed

text \<open>The bound on slots of a capacity, and when a request and its row agree on the number of slots.\<close>

definition slot_bound :: "amounts \<Rightarrow> rat option" where
  "slot_bound caps = (case map_of caps ''slots'' of None \<Rightarrow> map_of caps ''concurrency'' | Some c \<Rightarrow> Some c)"

definition states_slots :: "dict \<Rightarrow> bool" where
  "states_slots request \<longleftrightarrow> num_of (dget_else request ''slots'' (dget0 request ''concurrency'')) \<noteq> None"

definition silent_on_slots :: "dict \<Rightarrow> bool" where
  "silent_on_slots request \<longleftrightarrow> (\<forall>k \<in> {''slots'', ''concurrency'', ''host_slots'', ''pool_slots''}. dget request k = None)"

lemma slot_checks_admit:
  assumes "\<not> list_ex refused (slot_checks grp request caps totals ident)" and "slot_bound caps = Some c"
    and "states_slots request \<or> silent_on_slots request \<and> named"
  shows "aget totals ''slots'' + row_slots named request \<le> c"
proof -
  let ?v = "dget_else request ''slots'' (dget0 request ''concurrency'')"
  let ?w = "if ?v = JNull then dget_else request (if grp = ''host'' then ''host_slots'' else ''pool_slots'') (JInt 1) else ?v"
  have "\<not> refused (compare_check grp ident ''slots'' (the_num ?w) (aget totals ''slots'') c)"
    using assms(1,2) by (auto simp: slot_checks_def slot_bound_def Let_def split: option.splits)
  then have "aget totals ''slots'' + the_num ?w \<le> c"
    by (auto simp: refused_def compare_check_def split: if_splits)
  moreover have "the_num ?w = row_slots named request"
    using assms(3)
  proof
    assume "states_slots request"
    then obtain n where n: "num_of ?v = Some n" by (auto simp: states_slots_def)
    then have "?v \<noteq> JNull" by auto
    with n show ?thesis by (simp add: row_slots_def slot_value_def the_num_def Let_def)
  next
    assume "silent_on_slots request \<and> named"
    then show ?thesis
      by (simp add: silent_on_slots_def row_slots_def slot_value_def the_num_def dget_else_def dget0_def dget_def Let_def)
  qed
  ultimately show ?thesis by simp
qed

lemma host_fields_are_fields: "k \<in> set host_resource_fields \<Longrightarrow> k \<in> set resource_fields"
  by (auto simp: host_resource_fields_def resource_fields_def)

text \<open>No refused check: every requested amount was known and fits.\<close>

lemma field_checks_admit:
  assumes "\<not> list_ex refused (field_checks grp request caps totals ident strict)"
    and "k \<in> set (if grp = ''host'' then host_resource_fields else resource_fields)"
    and "\<not> skips (dget0 request k)" and "strict \<or> map_of caps k \<noteq> None"
  shows "\<exists>c. map_of caps k = Some c \<and> aget totals k + the_num (dget0 request k) \<le> c"
proof (cases "map_of caps k")
  case None
  then have "list_ex refused (field_checks grp request caps totals ident strict)"
    using assms(2-4) unfolding field_checks_def list_ex_iff refused_def
    by (auto intro!: bexI [of _ k] split: if_splits)
  with assms(1) show ?thesis by simp
next
  case (Some c)
  let ?ck = "compare_check grp ident k (the_num (dget0 request k)) (aget totals k) c"
  have "?ck \<in> set (field_checks grp request caps totals ident strict)"
    using assms(2,3) Some unfolding field_checks_def by (auto intro!: bexI [of _ k])
  then have "\<not> refused ?ck"
    using assms(1) by (auto simp: list_ex_iff)
  with Some show ?thesis
    by (auto simp: refused_def compare_check_def split: if_splits)
qed

lemma capacity_checks_admit:
  assumes "\<not> list_ex refused (capacity_checks request cv host_totals pool_totals)"
    and "\<not> skips (dget0 request k)"
  shows "k \<in> set host_resource_fields \<Longrightarrow>
      \<exists>c. map_of (cv_host cv) k = Some c \<and> aget host_totals k + the_num (dget0 request k) \<le> c"
    and "k \<in> set resource_fields \<Longrightarrow> map_of (cv_pool cv) k = Some c \<Longrightarrow>
      aget pool_totals k + the_num (dget0 request k) \<le> c"
proof -
  have h: "\<not> list_ex refused (field_checks ''host'' request (cv_host cv) host_totals (cv_host_id cv) True)"
    and p: "cv_pool cv \<noteq> [] \<Longrightarrow> \<not> list_ex refused (field_checks ''pool'' request (cv_pool cv) pool_totals (cv_pool_id cv) False)"
    using assms(1) by (auto simp: capacity_checks_def group_checks_def list_ex_append split: if_splits)
  show "\<exists>c. map_of (cv_host cv) k = Some c \<and> aget host_totals k + the_num (dget0 request k) \<le> c"
    if "k \<in> set host_resource_fields"
    using field_checks_admit [OF h _ assms(2)] that by simp
  show "aget pool_totals k + the_num (dget0 request k) \<le> c"
    if "k \<in> set resource_fields" "map_of (cv_pool cv) k = Some c"
  proof -
    have "cv_pool cv \<noteq> []" using that(2) by auto
    from field_checks_admit [OF p [OF this] _ assms(2)] that show ?thesis by force
  qed
qed

lemma capacity_slots_admit:
  assumes "\<not> list_ex refused (capacity_checks request cv host_totals pool_totals)"
  shows "slot_bound (cv_host cv) = Some c \<Longrightarrow> states_slots request \<or> silent_on_slots request \<and> named \<Longrightarrow>
      aget host_totals ''slots'' + row_slots named request \<le> c"
    and "slot_bound (cv_pool cv) = Some c \<Longrightarrow> states_slots request \<or> silent_on_slots request \<and> named \<Longrightarrow>
      aget pool_totals ''slots'' + row_slots named request \<le> c"
proof -
  have h: "\<not> list_ex refused (slot_checks ''host'' request (cv_host cv) host_totals (cv_host_id cv))"
    and p: "cv_pool cv \<noteq> [] \<Longrightarrow> \<not> list_ex refused (slot_checks ''pool'' request (cv_pool cv) pool_totals (cv_pool_id cv))"
    using assms by (auto simp: capacity_checks_def group_checks_def list_ex_append split: if_splits)
  show "aget host_totals ''slots'' + row_slots named request \<le> c"
    if "slot_bound (cv_host cv) = Some c" "states_slots request \<or> silent_on_slots request \<and> named"
    by (rule slot_checks_admit [OF h that])
  have "cv_pool cv \<noteq> []" if "slot_bound (cv_pool cv) = Some c"
    using that by (auto simp: slot_bound_def)
  then show "aget pool_totals ''slots'' + row_slots named request \<le> c"
    if "slot_bound (cv_pool cv) = Some c" "states_slots request \<or> silent_on_slots request \<and> named"
    using slot_checks_admit [OF p that] that(1) by simp
qed

text \<open>Normal requests hold no negative amount.\<close>

definition nonneg_request :: "dict \<Rightarrow> bool" where
  "nonneg_request d \<longleftrightarrow> (\<forall>k. 0 \<le> the_num (dget0 d k))"

lemma nonneg_dput: "nonneg_request d \<Longrightarrow> 0 \<le> the_num v \<Longrightarrow> nonneg_request (dput k v d)"
  by (simp add: nonneg_request_def)

lemma normal_amount_nonneg: "normal_amount v = Inr n \<Longrightarrow> 0 \<le> the_num n"
  by (auto simp: normal_amount_def norm_number_def the_num_def split: option.splits if_splits)

lemma normalize_items_nonneg:
  "normalize_items e d acc = Inr r \<Longrightarrow> nonneg_request acc \<Longrightarrow> nonneg_request r"
proof (induction e d acc rule: normalize_items.induct)
  case (2 e k v rest acc)
  have "0 \<le> the_num (JStr t)" for t by (simp add: the_num_def)
  with 2 show ?case
    by (auto split: if_splits sum.splits intro: nonneg_dput dest: normal_amount_nonneg)
qed simp

lemma normalize_alias_nonneg:
  "normalize_alias k k' src d = Inr r \<Longrightarrow> nonneg_request d \<Longrightarrow> nonneg_request r"
  by (auto simp: normalize_alias_def split: if_splits sum.splits intro: nonneg_dput dest: normal_amount_nonneg)

lemma normalize_request_nonneg: "normalize_resource_request e src = Inr r \<Longrightarrow> nonneg_request r"
proof -
  have "nonneg_request []" by (simp add: nonneg_request_def the_num_def)
  then show "normalize_resource_request e src = Inr r \<Longrightarrow> nonneg_request r"
    by (auto simp: normalize_resource_request_def sum_bind_def split: sum.splits
        dest!: normalize_items_nonneg normalize_alias_nonneg)
qed

lemma dget0_name_request: "k \<noteq> ''host_id'' \<Longrightarrow> k \<noteq> ''pool_id'' \<Longrightarrow> dget0 (name_request cv d) k = dget0 d k"
  by (auto simp: name_request_def Let_def split: option.splits)

lemma resource_field_not_id: "k \<in> set resource_fields \<Longrightarrow> k \<noteq> ''host_id'' \<and> k \<noteq> ''pool_id''"
  by (auto simp: resource_fields_def)

lemma sum_filter_snoc_le:
  fixes f :: "'a \<Rightarrow> rat"
  assumes "0 \<le> f x"
  shows "(\<Sum>q\<leftarrow>filter P (xs @ [x]). f q) \<le> (\<Sum>q\<leftarrow>filter P xs. f q) + f x"
  using assms by simp

section \<open>What a successful reservation did\<close>

lemma insert_reservation_effect:
  assumes "insert_reservation e ra rid request admission s = Inr (r, s')"
  shows "reservations s' = reservations s @ [r]"
    and "r = \<lparr>r_id = rid, r_job = ra_job ra, r_scope = ra_scope ra, r_status = RActive,
            r_owner = ra_owner ra, r_fence = ra_fence ra, r_created = now_text e, r_updated = now_text e,
            r_expires = expiry_text e (ra_ttl ra), r_request = request, r_admission = admission,
            r_reason = None\<rparr>"
    and "find_reservation rid s = None"
proof -
  let ?r = "\<lparr>r_id = rid, r_job = ra_job ra, r_scope = ra_scope ra, r_status = RActive,
            r_owner = ra_owner ra, r_fence = ra_fence ra, r_created = now_text e, r_updated = now_text e,
            r_expires = expiry_text e (ra_ttl ra), r_request = request, r_admission = admission,
            r_reason = None\<rparr>"
  let ?s1 = "s\<lparr>reservations := reservations s @ [?r]\<rparr>"
  let ?ev = "append_event_row e ''reservation_created'' None (Some (ra_job ra)) None
          (Some (ra_owner ra)) (Some (ra_fence ra))
          (JObj [(''reservation_id'', JStr rid), (''resource_request'', JObj request),
                 (''admission'', JObj admission)])"
  let ?pv = "case ra_event ra of None \<Rightarrow> tx_return () | Some v \<Rightarrow> tx_bind (append_provenance v) (\<lambda>_. tx_return ())"
  from assms obtain x s2 s3 where new: "find_reservation rid s = None"
    and steps: "?ev ?s1 = Inr (x, s2)" "?pv s2 = Inr ((), s3)" "find_reservation rid s3 = Some r" "s' = s3"
    unfolding insert_reservation_def by (auto simp: tx_results split: if_splits)
  have "tx_frame reservations ?ev"
    by (rule append_event_row_rel) simp_all
  moreover have "tx_frame reservations ?pv"
    by (intro tx_rels append_provenance_rel) simp_all
  ultimately have rs: "reservations s3 = reservations s @ [?r]"
    using steps(1,2) by (auto dest!: tx_frameD)
  have "find_reservation rid s3 = Some ?r"
    using new by (simp add: find_reservation_def rs find_snoc)
  with steps(3) have "r = ?r" by simp
  with rs steps(4) new show "reservations s' = reservations s @ [r]" "r = ?r" "find_reservation rid s = None"
    by simp_all
qed

lemma reserve_tx_cases:
  assumes "reserve_tx e ra rid request admission capacity s = Inr (r, s')"
  obtains (existing) cv where "find_active (ra_job ra) (ra_scope ra) (expire_reservations e s) = Some r"
      "s' = expire_reservations e s" "r_owner r = ra_owner ra" "r_fence r = ra_fence ra"
      "capacity_groups e request capacity (ra_host_capacity ra) (ra_pool_capacity ra) = Inr cv"
      "dict_eq (r_request r) (name_request cv request)"
  | (inserted) cv adm where "find_active (ra_job ra) (ra_scope ra) (expire_reservations e s) = None"
      "find_job (ra_job ra) s \<noteq> None"
      "capacity_groups e request capacity (ra_host_capacity ra) (ra_pool_capacity ra) = Inr cv"
      "cv_enabled cv \<Longrightarrow> \<not> list_ex refused (capacity_checks (name_request cv request) cv
         (reservation_totals e (ra_scope ra) (cv_host_id cv) None (expire_reservations e s))
         (reservation_totals e (ra_scope ra) None (cv_pool_id cv) (expire_reservations e s)))"
      "insert_reservation e ra rid (name_request cv request) adm (expire_reservations e s) = Inr (r, s')"
  using assms unfolding reserve_tx_def Let_def
  by (auto split: option.splits sum.splits if_splits)

lemma reserve_resources_steps:
  assumes "reserve_resources e ra s = Inr (r, s')"
  obtains request admission capacity rid s1 where
    "prepare_reservation e ra = Inr (request, admission, capacity)"
    "reservation_token e ra s = Inr (rid, s1)" "reservations s1 = reservations s"
    "holds_lease e (ra_scope ra) (ra_owner ra) (ra_fence ra) s1"
    "reserve_tx e ra rid request admission capacity s1 = Inr (r, s')"
proof -
  obtain request admission capacity where p: "prepare_reservation e ra = Inr (request, admission, capacity)"
    using assms by (auto simp: reserve_resources_def split: sum.splits)
  with assms obtain rid s1 where t: "reservation_token e ra s = Inr (rid, s1)"
      and h: "holds_lease e (ra_scope ra) (ra_owner ra) (ra_fence ra) s1"
      and x: "reserve_tx e ra rid request admission capacity s1 = Inr (r, s')"
    by (auto simp: reserve_resources_def tx_results)
  have "reservations s1 = reservations s"
    using t by (auto simp: reservation_token_def new_id_def split: if_splits)
  from that [OF p t this h x] show thesis .
qed

lemma counted_rows_snoc:
  "reservations s' = reservations s @ [r] \<Longrightarrow>
    counted_rows e scope host pool s' = counted_rows e scope host pool s
      @ (if r_scope r = scope \<and> r_status r = RActive \<and> now_text e < r_expires r
            \<and> identity_matches e ''host_id'' host (r_request r) \<and> identity_matches e ''pool_id'' pool (r_request r)
         then [r_request r] else [])"
  by (simp add: counted_rows_def)

lemma reserved_snoc_le:
  assumes "reservations s' = reservations s @ [r]" and "0 \<le> the_num (dget0 (r_request r) k)"
  shows "reserved e scope host pool k s' \<le> reserved e scope host pool k s + the_num (dget0 (r_request r) k)"
  using assms by (simp add: reserved_def counted_rows_snoc)

lemma slots_snoc_le:
  assumes "reservations s' = reservations s @ [r]" and "0 \<le> row_slots (host \<noteq> None \<or> pool \<noteq> None) (r_request r)"
  shows "slots_reserved e scope host pool s'
    \<le> slots_reserved e scope host pool s + row_slots (host \<noteq> None \<or> pool \<noteq> None) (r_request r)"
  using assms by (simp add: slots_reserved_def counted_rows_snoc)

lemma skipped_is_zero: "skips v \<Longrightarrow> the_num v = 0"
  by (cases v) (auto simp: skips_def py_eq_def the_num_def split: if_splits)

lemma dget_else_dget0: "dget_else d k v = (if dget d k = None then v else dget0 d k)"
  by (auto simp: dget_else_def dget0_def dget_def split: option.split)

lemma row_slots_nonneg: "nonneg_request q \<Longrightarrow> 0 \<le> row_slots named q"
proof -
  assume q: "nonneg_request q"
  have "0 \<le> the_num (slot_value q)"
    using q by (simp add: slot_value_def dget_else_dget0 Let_def nonneg_request_def)
  then show ?thesis
    by (auto simp: row_slots_def the_num_def split: option.splits)
qed

lemma dget_name_request: "k \<noteq> ''host_id'' \<Longrightarrow> k \<noteq> ''pool_id'' \<Longrightarrow> dget (name_request cv d) k = dget d k"
  by (auto simp: name_request_def Let_def split: option.splits)

lemma slots_name_request [simp]:
  "states_slots (name_request cv q) = states_slots q" "silent_on_slots (name_request cv q) = silent_on_slots q"
  "row_slots named (name_request cv q) = row_slots named q"
  by (simp_all add: states_slots_def silent_on_slots_def row_slots_def slot_value_def dget_else_dget0 Let_def
      dget_name_request dget0_name_request)

lemma find_active_expire:
  "reservations s1 = reservations s \<Longrightarrow>
    find_active job scope (expire_reservations e s1) = find_active job scope (expire_reservations e s)"
  by (simp add: find_active_def expire_reservations_def)

text \<open>A row that has run out is not counted, before and after it is marked so.\<close>

lemma counted_rows_expire: "counted_rows e scope host pool (expire_reservations e s) = counted_rows e scope host pool s"
proof -
  let ?live = "\<lambda>r. r_scope r = scope \<and> r_status r = RActive \<and> now_text e < r_expires r"
  have "filter ?live (upd_where (\<lambda>r. r_status r = RActive \<and> r_expires r \<le> now_text e)
      (\<lambda>r. r\<lparr>r_status := RExpired, r_updated := now_text e, r_expires := now_text e,
               r_reason := Some ''lease_expired''\<rparr>) rs) = filter ?live rs" for rs :: "reservation_row list"
    by (induction rs) auto
  then show ?thesis
    by (simp add: counted_rows_def expire_reservations_def)
qed

text \<open>What a checked and accepted new reservation is: one row more, behind checks that let it pass.\<close>

lemma accepted_reservation:
  assumes "reserve_resources e ra s = Inr (r, s')"
    and "prepare_reservation e ra = Inr (request, admission, capacity)"
    and "capacity_groups e request capacity (ra_host_capacity ra) (ra_pool_capacity ra) = Inr cv"
    and "cv_enabled cv"
    and "find_active (ra_job ra) (ra_scope ra) (expire_reservations e s) = None"
  obtains s1 where "reservations s1 = reservations s" and "reservations s' = reservations (expire_reservations e s1) @ [r]"
    and "r_request r = name_request cv request" and "nonneg_request (name_request cv request)"
    and "\<not> list_ex refused (capacity_checks (name_request cv request) cv
         (reservation_totals e (ra_scope ra) (cv_host_id cv) None (expire_reservations e s1))
         (reservation_totals e (ra_scope ra) None (cv_pool_id cv) (expire_reservations e s1)))"
proof -
  from assms(1) obtain request' admission' capacity' rid s1 where
    s1: "prepare_reservation e ra = Inr (request', admission', capacity')" "reservations s1 = reservations s"
      "reserve_tx e ra rid request' admission' capacity' s1 = Inr (r, s')"
    by (rule reserve_resources_steps)
  then have eqs: "request' = request" "admission' = admission" "capacity' = capacity"
    using assms(2) by simp_all
  let ?s = "expire_reservations e s1"
  have none: "find_active (ra_job ra) (ra_scope ra) ?s = None"
    using assms(5) find_active_expire [OF s1(2)] by simp
  obtain cv' adm where ins: "capacity_groups e request capacity (ra_host_capacity ra) (ra_pool_capacity ra) = Inr cv'"
      "cv_enabled cv' \<Longrightarrow> \<not> list_ex refused (capacity_checks (name_request cv' request) cv'
         (reservation_totals e (ra_scope ra) (cv_host_id cv') None ?s)
         (reservation_totals e (ra_scope ra) None (cv_pool_id cv') ?s))"
      "insert_reservation e ra rid (name_request cv' request) adm ?s = Inr (r, s')"
    using s1(3) none unfolding eqs by (cases rule: reserve_tx_cases) simp_all
  have cv: "cv' = cv" using ins(1) assms(3) by simp
  have "nonneg_request request"
    using assms(2) by (auto simp: prepare_reservation_def sum_bind_def split: sum.splits if_splits
        dest: normalize_request_nonneg)
  then have "nonneg_request (name_request cv request)"
    by (auto simp: name_request_def Let_def the_num_def intro!: nonneg_dput split: option.splits)
  with that [OF s1(2)] insert_reservation_effect [OF ins(3) [unfolded cv]] ins(2) [unfolded cv, OF assms(4)]
  show thesis by simp
qed

text \<open>C3. No oversubscription. When a capacity observation is checked and a new reservation is accepted, then,
  the new reservation included:
  for every host resource the request asks for, the host's capacity is known and the counted reservations
  hold at most that capacity, and a resource the pool observation bounds is bounded in the same way over
  the pool; where the host or the pool bounds its slots, the counted reservations hold at most that many,
  if the request states a number of slots or concurrency, or if it says nothing of slots and the host or
  the pool is named; and what is held of a resource that the request does not ask for stays as it was.
  (Two kinds of request are left out because the code counts them otherwise than it checks them: one that
  says nothing of slots where neither host nor pool is named, see \<open>unnamed_slots_are_not_counted\<close> below, and
  one that states only \<open>host_slots\<close> or \<open>pool_slots\<close>, see \<open>pool_slots_fill_the_host\<close>.)\<close>

theorem capacity_never_oversubscribed:
  assumes "reserve_resources e ra s = Inr (r, s')"
    and "prepare_reservation e ra = Inr (request, admission, capacity)"
    and "capacity_groups e request capacity (ra_host_capacity ra) (ra_pool_capacity ra) = Inr cv"
    and "cv_enabled cv"
    and "find_active (ra_job ra) (ra_scope ra) (expire_reservations e s) = None"
  shows "(\<forall>k \<in> set resource_fields. \<not> skips (dget0 request k) \<longrightarrow>
      (k \<in> set host_resource_fields \<longrightarrow>
         (\<exists>c. map_of (cv_host cv) k = Some c \<and> reserved e (ra_scope ra) (cv_host_id cv) None k s' \<le> c))
      \<and> (\<forall>c. map_of (cv_pool cv) k = Some c \<longrightarrow> reserved e (ra_scope ra) None (cv_pool_id cv) k s' \<le> c))
    \<and> (\<forall>c. slot_bound (cv_host cv) = Some c \<and> (states_slots request \<or> silent_on_slots request \<and> cv_host_id cv \<noteq> None)
         \<longrightarrow> slots_reserved e (ra_scope ra) (cv_host_id cv) None s' \<le> c)
    \<and> (\<forall>c. slot_bound (cv_pool cv) = Some c \<and> (states_slots request \<or> silent_on_slots request \<and> cv_pool_id cv \<noteq> None)
         \<longrightarrow> slots_reserved e (ra_scope ra) None (cv_pool_id cv) s' \<le> c)
    \<and> (\<forall>k \<in> set resource_fields. skips (dget0 request k) \<longrightarrow>
         (\<forall>host pool. reserved e (ra_scope ra) host pool k s' = reserved e (ra_scope ra) host pool k s))"
proof -
  obtain s1 where s1: "reservations s1 = reservations s" "reservations s' = reservations (expire_reservations e s1) @ [r]"
    and q: "r_request r = name_request cv request" "nonneg_request (name_request cv request)"
    and checks: "\<not> list_ex refused (capacity_checks (name_request cv request) cv
         (reservation_totals e (ra_scope ra) (cv_host_id cv) None (expire_reservations e s1))
         (reservation_totals e (ra_scope ra) None (cv_pool_id cv) (expire_reservations e s1)))"
    by (rule accepted_reservation [OF assms])
  let ?s = "expire_reservations e s1"
  have name: "dget0 (name_request cv request) k = dget0 request k" if "k \<in> set resource_fields" for k
    using resource_field_not_id [OF that] by (simp add: dget0_name_request)
  have grow: "reserved e (ra_scope ra) host pool k s' \<le> reserved e (ra_scope ra) host pool k ?s + the_num (dget0 request k)"
    if "k \<in> set resource_fields" for host pool k
  proof -
    have "0 \<le> the_num (dget0 request k)"
      using q(2) name [OF that] unfolding nonneg_request_def by metis
    then show ?thesis
      using reserved_snoc_le [OF s1(2), of k e "ra_scope ra" host pool] by (simp add: q(1) name [OF that])
  qed
  have slots: "slots_reserved e (ra_scope ra) host pool s'
      \<le> slots_reserved e (ra_scope ra) host pool ?s + row_slots (host \<noteq> None \<or> pool \<noteq> None) request" for host pool
    using slots_snoc_le [OF s1(2)] row_slots_nonneg [OF q(2)] by (simp add: q(1))
  have fits: "(k \<in> set host_resource_fields \<longrightarrow>
         (\<exists>c. map_of (cv_host cv) k = Some c \<and> reserved e (ra_scope ra) (cv_host_id cv) None k s' \<le> c))
      \<and> (\<forall>c. map_of (cv_pool cv) k = Some c \<longrightarrow> reserved e (ra_scope ra) None (cv_pool_id cv) k s' \<le> c)"
    if k: "k \<in> set resource_fields" "\<not> skips (dget0 request k)" for k
  proof -
    note ok = capacity_checks_admit [OF checks, of k, unfolded name [OF k(1)], OF k(2)]
    show ?thesis
      using ok(1) ok(2) [OF k(1)] grow [OF k(1), of "cv_host_id cv" None] grow [OF k(1), of None "cv_pool_id cv"]
      by (fastforce simp: totals_are_reserved [OF k(1)])
  qed
  have host: "slots_reserved e (ra_scope ra) (cv_host_id cv) None s' \<le> c"
    if "slot_bound (cv_host cv) = Some c" "states_slots request \<or> silent_on_slots request \<and> cv_host_id cv \<noteq> None" for c
    using capacity_slots_admit(1) [OF checks that(1), of "cv_host_id cv \<noteq> None \<or> None \<noteq> (None :: string option)"] that(2)
      slots [of "cv_host_id cv" None] by (simp add: totals_are_slots)
  have pool: "slots_reserved e (ra_scope ra) None (cv_pool_id cv) s' \<le> c"
    if "slot_bound (cv_pool cv) = Some c" "states_slots request \<or> silent_on_slots request \<and> cv_pool_id cv \<noteq> None" for c
    using capacity_slots_admit(2) [OF checks that(1), of "None \<noteq> (None :: string option) \<or> cv_pool_id cv \<noteq> None"] that(2)
      slots [of None "cv_pool_id cv"] by (simp add: totals_are_slots)
  have still: "reserved e (ra_scope ra) host pool k s' = reserved e (ra_scope ra) host pool k s"
    if "k \<in> set resource_fields" "skips (dget0 request k)" for host pool k
  proof -
    have "the_num (dget0 (r_request r) k) = 0"
      using skipped_is_zero [OF that(2)] by (simp add: q(1) name [OF that(1)])
    then have "reserved e (ra_scope ra) host pool k s' = reserved e (ra_scope ra) host pool k ?s"
      by (simp add: reserved_def counted_rows_snoc [OF s1(2)])
    also have "\<dots> = reserved e (ra_scope ra) host pool k s"
      by (simp add: reserved_def counted_rows_expire) (simp add: counted_rows_def s1(1))
    finally show ?thesis .
  qed
  show ?thesis
    using fits host pool still by blast
qed

section \<open>One active reservation per job and scope\<close>

definition one_active :: "db \<Rightarrow> bool" where
  "one_active s \<longleftrightarrow>
     distinct (map r_id (reservations s)) \<and>
     distinct (map (\<lambda>r. (r_job r, r_scope r)) (filter (\<lambda>r. r_status r = RActive) (reservations s)))"

lemma one_active_cong: "reservations s' = reservations s \<Longrightarrow> one_active s' = one_active s"
  by (simp add: one_active_def)

text \<open>Updates that keep identity and never activate a row.\<close>

lemma one_active_update:
  assumes "one_active s" and "reservations s' = upd_where p f (reservations s)"
    and "\<And>x. r_id (f x) = r_id x \<and> r_job (f x) = r_job x \<and> r_scope (f x) = r_scope x"
    and "\<And>x. p x \<Longrightarrow> r_status (f x) = RActive \<Longrightarrow> r_status x = RActive"
  shows "one_active s'"
proof -
  let ?k = "\<lambda>r. (r_job r, r_scope r)" and ?a = "\<lambda>r. r_status r = RActive"
  have sub: "?k ` set (filter ?a (upd_where p f xs)) \<subseteq> ?k ` set (filter ?a xs)" for xs
  proof (induction xs)
    case (Cons x xs)
    then show ?case using assms(3) [of x] assms(4) [of x] by (cases "p x") auto
  qed simp
  have "distinct (map ?k (filter ?a (upd_where p f xs)))" if "distinct (map ?k (filter ?a xs))" for xs
    using that
  proof (induction xs)
    case (Cons x xs)
    have "distinct (map ?k (filter ?a xs))" using Cons.prems by (auto split: if_splits)
    with Cons.IH have ih: "distinct (map ?k (filter ?a (upd_where p f xs)))" by simp
    have "?k x \<notin> ?k ` set (filter ?a (upd_where p f xs))" if "?a x"
      using Cons.prems that sub [of xs] by auto
    with ih show ?case
      using assms(3) [of x] assms(4) [of x] by (cases "p x") auto
  qed simp
  then show ?thesis
    using assms(1-3) by (simp add: one_active_def map_upd_where_key)
qed

lemma reservations_expire:
  "reservations (expire_reservations e s) = upd_where (\<lambda>r. r_status r = RActive \<and> r_expires r \<le> now_text e)
        (\<lambda>r. r\<lparr>r_status := RExpired, r_updated := now_text e, r_expires := now_text e,
               r_reason := Some ''lease_expired''\<rparr>) (reservations s)"
  by (simp add: expire_reservations_def)

lemma one_active_expire: "one_active s \<Longrightarrow> one_active (expire_reservations e s)"
  by (rule one_active_update [OF _ reservations_expire]) simp_all

lemma reserve_tx_one_active: "tx_inv one_active (reserve_tx e ra rid request admission capacity)"
proof (rule tx_invI)
  fix s r s'
  assume s: "one_active s" and r: "reserve_tx e ra rid request admission capacity s = Inr (r, s')"
  from r show "one_active s'"
  proof (cases rule: reserve_tx_cases)
    case existing
    with one_active_expire [OF s] show ?thesis by simp
  next
    case (inserted cv adm)
    note eff = insert_reservation_effect [OF inserted(5)]
    have "one_active (expire_reservations e s)" using s by (rule one_active_expire)
    moreover have "r_id r \<notin> r_id ` set (reservations (expire_reservations e s))"
      using eff(2,3) by (force simp: find_reservation_def find_None_iff)
    moreover have "(r_job r, r_scope r) \<notin> (\<lambda>r. (r_job r, r_scope r)) `
        set (filter (\<lambda>r. r_status r = RActive) (reservations (expire_reservations e s)))"
      using eff(2) inserted(1) by (force simp: find_active_def find_None_iff)
    ultimately show ?thesis
      using eff(1) by (simp add: one_active_def eff(2) [THEN arg_cong [of _ _ r_status]])
  qed
qed

section \<open>Witnesses and two gaps\<close>

definition ram_request :: "string \<Rightarrow> reserve_args" where
  "ram_request j = \<lparr>ra_job = j, ra_owner = ''ctl'', ra_fence = 1, ra_request = [(''ram_gib'', JInt 4)],
     ra_admission = [], ra_capacity = Some [(''host_id'', JStr ''h''), (''ram_gib'', JInt 6)],
     ra_host_capacity = None, ra_pool_capacity = None, ra_ttl = 90, ra_scope = ''controller'',
     ra_id = None, ra_event = None\<rparr>"

definition slot_request :: "string \<Rightarrow> reserve_args" where
  "slot_request j = (ram_request j)\<lparr>ra_request := [], ra_capacity := Some [(''slots'', JInt 1)]\<rparr>"

lemma ram_request_fields [simp]:
  "ra_job (ram_request j) = j" "ra_owner (ram_request j) = ''ctl''" "ra_fence (ram_request j) = 1"
  "ra_scope (ram_request j) = ''controller''" "ra_id (ram_request j) = None" "ra_event (ram_request j) = None"
  "ra_host_capacity (ram_request j) = None" "ra_pool_capacity (ram_request j) = None" "ra_ttl (ram_request j) = 90"
  by (simp_all add: ram_request_def)

lemma slot_request_fields [simp]:
  "ra_job (slot_request j) = j" "ra_owner (slot_request j) = ''ctl''" "ra_fence (slot_request j) = 1"
  "ra_scope (slot_request j) = ''controller''" "ra_id (slot_request j) = None" "ra_event (slot_request j) = None"
  "ra_host_capacity (slot_request j) = None" "ra_pool_capacity (slot_request j) = None" "ra_ttl (slot_request j) = 90"
  by (simp_all add: slot_request_def)

lemmas capacity_eval = normalize_resource_request_def sum_bind_def normalize_alias_def resource_fields_def
  host_resource_fields_def slot_fields_def placement_fields_def capacity_groups_def normalize_capacity_map_def
  unwrap_capacity_def first_mapping_def capacity_alias_def identity_of_def normal_amount_def norm_number_def

lemmas admission_eval = capacity_checks_def group_checks_def field_checks_def skips_def py_eq_def
  slot_checks_def dget_else_def compare_check_def refused_def the_num_def resource_fields_def
  host_resource_fields_def

lemma ram_prepared:
  "prepare_reservation e (ram_request j)
     = Inr ([(''ram_gib'', JInt 4)], [], Some [(''host_id'', JStr ''h''), (''ram_gib'', JInt 6)])"
  by (simp add: prepare_reservation_def ram_request_def capacity_eval)

definition ram_view :: capacity_view where
  "ram_view = \<lparr>cv_host_id = Some ''h'', cv_pool_id = None, cv_host = [(''ram_gib'', 6)], cv_pool = [],
     cv_enabled = True\<rparr>"

lemma ram_groups:
  "capacity_groups e [(''ram_gib'', JInt 4)] (Some [(''host_id'', JStr ''h''), (''ram_gib'', JInt 6)]) None None
     = Inr ram_view"
  by (simp add: capacity_eval ram_view_def)

lemma slot_prepared: "prepare_reservation e (slot_request j) = Inr ([], [], Some [(''slots'', JInt 1)])"
  by (simp add: prepare_reservation_def slot_request_def ram_request_def capacity_eval)

lemma slot_groups:
  "capacity_groups e [] (Some [(''slots'', JInt 1)]) None None
     = Inr \<lparr>cv_host_id = None, cv_pool_id = None, cv_host = [(''slots'', 1)], cv_pool = [], cv_enabled = True\<rparr>"
  by (simp add: capacity_eval)

lemma sample_no_active:
  "reservations s = [] \<Longrightarrow> find_active job scope (expire_reservations e s) = None"
  by (simp add: find_active_def expire_reservations_def)

lemma ram_reserved: "\<exists>r s'. reserve_resources sample_env (ram_request ''j1'') sample_db = Inr (r, s')"
  apply (simp add: reserve_resources_def ram_prepared reservation_token_def new_id_def tx_run)
  apply (simp add: reserve_tx_def ram_groups ram_view_def find_job_def sample_db_def sample_job_def
      expire_reservations_def find_active_def empty_db_def name_request_def reservation_totals_def
      counted_rows_def admission_eval)
  apply (simp add: insert_reservation_def find_reservation_def append_event_row_def tx_run new_id_def find_job_def)
  done

lemma capacity_never_oversubscribed_witness:
  "\<exists>r s'. reserve_resources sample_env (ram_request ''j1'') sample_db = Inr (r, s')
     \<and> reserved sample_env ''controller'' (Some ''h'') None ''ram_gib'' s' \<le> 6"
proof -
  obtain r s' where run: "reserve_resources sample_env (ram_request ''j1'') sample_db = Inr (r, s')"
    using ram_reserved by blast
  have none: "find_active (ra_job (ram_request ''j1'')) (ra_scope (ram_request ''j1'')) (expire_reservations sample_env sample_db) = None"
    by (simp add: sample_no_active sample_db_def empty_db_def)
  have groups: "capacity_groups sample_env [(''ram_gib'', JInt 4)] (Some [(''host_id'', JStr ''h''), (''ram_gib'', JInt 6)])
      (ra_host_capacity (ram_request ''j1'')) (ra_pool_capacity (ram_request ''j1'')) = Inr ram_view"
    by (simp add: ram_groups)
  have "cv_enabled ram_view" "''ram_gib'' \<in> set resource_fields" "''ram_gib'' \<in> set host_resource_fields"
      "\<not> skips (dget0 [(''ram_gib'', JInt 4)] ''ram_gib'')"
    by (simp_all add: ram_view_def resource_fields_def host_resource_fields_def skips_def py_eq_def)
  with capacity_never_oversubscribed [OF run ram_prepared groups _ none] run show ?thesis
    by (auto simp: ram_view_def)
qed

lemma slot_request_accepted:
  assumes "leases s = [sample_lease]" and "find_job j s \<noteq> None"
    and rows: "\<forall>r \<in> set (reservations s). r_request r = [] \<and> r_expires r = iso 1785000090000000
      \<and> r_job r \<noteq> j \<and> r_id r \<noteq> ''reservation-'' @ uuid_hex sample_env (drawn s)"
    and new: "\<forall>v \<in> set (events s). e_id v \<noteq> ''event-'' @ uuid_hex sample_env (Suc (drawn s))"
  shows "\<exists>r s'. reserve_resources sample_env (slot_request j) s = Inr (r, s')
    \<and> reservations s' = reservations s @ [r] \<and> leases s' = [sample_lease] \<and> jobs s' = jobs s
    \<and> drawn s' = drawn s + 2 \<and> map e_id (events s') = map e_id (events s) @ [''event-'' @ uuid_hex sample_env (Suc (drawn s))]
    \<and> r_request r = [] \<and> r_expires r = iso 1785000090000000 \<and> r_job r = j \<and> r_status r = RActive
    \<and> r_id r = ''reservation-'' @ uuid_hex sample_env (drawn s)"
proof -
  let ?s = "s\<lparr>drawn := Suc (drawn s)\<rparr>"
  have exp: "expire_reservations sample_env ?s = ?s"
  proof -
    have "upd_where (\<lambda>r. r_status r = RActive \<and> r_expires r \<le> now_text sample_env)
        (\<lambda>r. r\<lparr>r_status := RExpired, r_updated := now_text sample_env, r_expires := now_text sample_env,
               r_reason := Some ''lease_expired''\<rparr>) (reservations s) = reservations s"
      using rows by (intro upd_where_none) auto
    then show ?thesis by (simp add: expire_reservations_def)
  qed
  have act: "find_active j ''controller'' ?s = None" and fid: "find_reservation (''reservation-'' @ uuid_hex sample_env (drawn s)) ?s = None"
    using rows by (auto simp: find_active_def find_reservation_def find_None_iff)
  have "counted_rows sample_env ''controller'' None None ?s = replicate n []"
    if "n = length (counted_rows sample_env ''controller'' None None ?s)" for n
    using rows unfolding that by (intro replicate_eqI) (auto simp: counted_rows_def)
  then obtain n where n: "counted_rows sample_env ''controller'' None None ?s = replicate n []" by blast
  have tot: "reservation_totals sample_env ''controller'' None None ?s = []"
  proof -
    have "add_slots False [] (add_fields [] t) = t" for t
      by (simp add: add_slots_def add_fields_def slot_value_def dget_else_def resource_fields_def)
    then have "fold (\<lambda>q t. add_slots False q (add_fields q t)) (replicate m []) t = t" for m t
      by (induction m) simp_all
    then show ?thesis by (simp add: reservation_totals_def n)
  qed
  have ev: "List.find (\<lambda>r. e_id r = ''event-'' @ uuid_hex sample_env (Suc (drawn s))) (events s) = None"
    using new by (auto simp: find_None_iff)
  have job: "\<exists>x. List.find (\<lambda>r. j_id r = j) (jobs s) = Some x"
    using assms(2) by (auto simp: find_job_def)
  show ?thesis
    using assms(1) fid ev job
    apply (simp add: reserve_resources_def slot_prepared reservation_token_def new_id_def tx_run)
    apply (simp add: reserve_tx_def slot_groups find_job_def exp act tot name_request_def admission_eval)
    apply (simp add: insert_reservation_def find_reservation_def append_event_row_def tx_run new_id_def find_job_def)
    apply (auto simp: find_snoc)
    done
qed

text \<open>A slot semaphore without a host or pool identity does not count the reservations that ask
  for no explicit number of slots, although the code's comment says that a missing slot request
  means one: with a capacity of one slot, two reservations are accepted and both are active.\<close>

theorem unnamed_slots_are_not_counted:
  "\<exists>r1 s1 r2 s2. reserve_resources sample_env (slot_request ''j1'') sample_db = Inr (r1, s1) \<and>
     reserve_resources sample_env (slot_request ''j2'') s1 = Inr (r2, s2) \<and>
     map (\<lambda>r. (r_job r, r_status r)) (reservations s2) = [(''j1'', RActive), (''j2'', RActive)]"
proof -
  have hex: "uuid_hex sample_env n = replicate (Suc n) (CHR ''f'')" for n
    by (simp add: sample_env_def)
  have db: "reservations sample_db = []" "events sample_db = []" "drawn sample_db = 0"
    "jobs sample_db = [sample_job ''j1'', sample_job ''j2'']"
    by (simp_all add: sample_db_def empty_db_def)
  have j: "jobs s = jobs sample_db \<Longrightarrow> find_job ''j1'' s \<noteq> None \<and> find_job ''j2'' s \<noteq> None" for s
    by (simp add: find_job_def db sample_job_def)
  from slot_request_accepted [of sample_db "''j1''"] j [of sample_db] obtain r1 s1 where
    1: "reserve_resources sample_env (slot_request ''j1'') sample_db = Inr (r1, s1)"
      "reservations s1 = [r1]" "leases s1 = [sample_lease]" "jobs s1 = jobs sample_db" "drawn s1 = 2"
      "map e_id (events s1) = [''event-ff'']"
      "r_request r1 = []" "r_expires r1 = iso 1785000090000000" "r_job r1 = ''j1''" "r_status r1 = RActive"
      "r_id r1 = ''reservation-f''"
    by (auto simp: db hex)
  have "v \<in> set (events s1) \<Longrightarrow> e_id v = ''event-ff''" for v
    using 1(6) by (cases "events s1") auto
  with slot_request_accepted [of s1 "''j2''"] 1 j [of s1] obtain r2 s2 where
    "reserve_resources sample_env (slot_request ''j2'') s1 = Inr (r2, s2)"
    "reservations s2 = [r1, r2]" "r_job r2 = ''j2''" "r_status r2 = RActive"
    by (force simp: hex numeral_2_eq_2)
  with 1 show ?thesis by (intro exI) auto
qed

text \<open>
  A request with nothing but \<open>pool_slots\<close> is checked against its host as one slot, but its row is counted
  there with all of them.
\<close>

lemma pool_slots_fill_the_host:
  "list_all (\<lambda>c. \<not> refused c) (slot_checks ''host'' [(''pool_slots'', JInt 5)] [(''slots'', 1)] [] (Some ''h''))"
  "row_slots True [(''pool_slots'', JInt 5)] = 5"
  by code_simp+

text \<open>A request whose host identity is null is filed under a host called \<open>None\<close>: the request
  normaliser applies \<open>str\<close> before it looks at the value, so the reservations of a real host are
  not counted against it.\<close>

theorem null_host_becomes_a_name:
  "normalize_resource_request e [(''host_id'', JNull)] = Inr [(''host_id'', JStr ''None'')] \<and>
   identity_of e ''host_id'' [(''host_id'', JStr ''None'')] source = Some ''None'' \<and>
   \<not> identity_matches e ''host_id'' (Some ''None'') [(''host_id'', JStr ''h'')]"
  by (simp add: capacity_eval identity_matches_def)

end
