(* ===== verification/Envelope.thy ===== *)
theory Envelope
  imports StoreState
begin

text \<open>
  The durable transport envelope (\<open>scripts/remote_envelope.py\<close>): the metadata-only message that
  a controller leaves for a remote worker, its validation and its canonical form, the receipt
  that acknowledges it and the check of a receipt against its envelope.

  Every violation raises \<open>EnvelopeError\<close>, so a check is a boolean and a builder returns an option.
  \<open>_digest\<close> is \<open>json_sha\<close> of the environment applied to the canonical form of a value.
\<close>

section \<open>Identifiers\<close>

definition is_alnum :: "char \<Rightarrow> bool" where
  "is_alnum c \<longleftrightarrow> is_digit c \<or> (let n = of_char c :: nat in 65 \<le> n \<and> n \<le> 90 \<or> 97 \<le> n \<and> n \<le> 122)"

definition is_lower :: "char \<Rightarrow> bool" where
  "is_lower c \<longleftrightarrow> (let n = of_char c :: nat in 97 \<le> n \<and> n \<le> 122)"

definition id_re :: "string \<Rightarrow> bool" where
  "id_re s \<longleftrightarrow> (case s of [] \<Rightarrow> False
     | c # cs \<Rightarrow> is_alnum c \<and> length cs \<le> 127 \<and> list_all (\<lambda>x. is_alnum x \<or> x \<in> set ''_.:-'') cs)"

definition operation_re :: "string \<Rightarrow> bool" where
  "operation_re s \<longleftrightarrow> (case s of [] \<Rightarrow> False
     | c # cs \<Rightarrow> is_lower c \<and> length cs \<le> 63
         \<and> list_all (\<lambda>x. is_lower x \<or> is_digit x \<or> x \<in> set ''_.-'') cs)"

definition hex64 :: "string \<Rightarrow> bool" where
  "hex64 s \<longleftrightarrow> length s = 64 \<and> list_all is_lower_hex s"

definition error_code_re :: "string \<Rightarrow> bool" where
  "error_code_re s \<longleftrightarrow> 1 \<le> length s \<and> length s \<le> 80
     \<and> list_all (\<lambda>x. is_lower x \<or> is_digit x \<or> x \<in> set ''_.-'') s"

definition safe_id :: "json \<Rightarrow> bool" where
  "safe_id v = (case v of JStr s \<Rightarrow> id_re s | _ \<Rightarrow> False)"

definition is_hex64 :: "json \<Rightarrow> bool" where
  "is_hex64 v = (case v of JStr s \<Rightarrow> hex64 s | _ \<Rightarrow> False)"

section \<open>Summaries\<close>

text \<open>A key that the pattern of secret-like words matches anywhere, in any letter case.\<close>

definition contains :: "string \<Rightarrow> string \<Rightarrow> bool" where
  "contains p s \<longleftrightarrow> list_ex (\<lambda>i. take (length p) (drop i s) = p) [0..<Suc (length s)]"

definition secret_key_re :: "string \<Rightarrow> bool" where
  "secret_key_re k \<longleftrightarrow> list_ex (\<lambda>w. contains w (py_lower k))
     [''secret'', ''token'', ''password'', ''apikey'', ''api_key'', ''api-key'', ''credential'',
      ''authorization'', ''bearer'', ''privatekey'', ''private_key'', ''private-key'']"

definition summary_keys :: "string list" where
  "summary_keys =
     [''job_id'', ''packet_id'', ''attempt_id'', ''run_id'', ''segment_id'', ''sequence'',
      ''manifest_digest'', ''capsule_digest'', ''model'', ''variant'', ''provider'', ''pool_id'',
      ''host_id'', ''execution_host'', ''workload_host'', ''write_scope'',
      ''required_artifact_count'', ''validation_required'', ''resource_digest'', ''placement_digest'']"

primrec summary_value_ok :: "json \<Rightarrow> bool" where
  "summary_value_ok JNull = True"
| "summary_value_ok (JBool b) = True"
| "summary_value_ok (JInt i) = True"
| "summary_value_ok (JFloat q) = True"
| "summary_value_ok (JStr s) = (length s \<le> 256)"
| "summary_value_ok (JArr vs) = (length vs \<le> 32 \<and> list_all id (map summary_value_ok vs))"
| "summary_value_ok (JObj d) = False"

definition sanitize_summary :: "json \<Rightarrow> dict option" where
  "sanitize_summary v =
     (case v of
        JObj d \<Rightarrow> if list_all (\<lambda>(k, w). \<not> secret_key_re k \<and> k \<in> set summary_keys \<and> summary_value_ok w) d
                  then Some d else None
      | _ \<Rightarrow> None)"

section \<open>Envelopes\<close>

definition json_digest :: "env \<Rightarrow> json \<Rightarrow> string" where
  "json_digest e v = json_sha e (canon v)"

definition envelope_key :: "dict \<Rightarrow> json" where
  "envelope_key env =
     (if truthy (dget0 env ''idempotency_key'') then dget0 env ''idempotency_key'' else dget0 env ''request_id'')"

definition validate_envelope :: "env \<Rightarrow> dict \<Rightarrow> dict option" where
  "validate_envelope e env =
     (if \<not> py_eq (dget0 env ''schema_version'') (JInt 1) \<or> \<not> py_eq (dget0 env ''envelope_version'') (JInt 1)
         \<or> \<not> safe_id (dget0 env ''request_id'') \<or> \<not> safe_id (dget0 env ''source_id'')
         \<or> \<not> safe_id (dget0 env ''target_id'') \<or> \<not> operation_re (jtxt (dget0 env ''operation''))
         \<or> \<not> is_hex64 (dget0 env ''packet_digest'')
      then None
      else case sanitize_summary (dget0 env ''payload_summary'') of
        None \<Rightarrow> None
      | Some summary \<Rightarrow>
          if dget0 env ''payload_digest'' \<noteq> JStr (json_digest e (JObj summary))
             \<or> \<not> safe_id (envelope_key env) \<or> \<not> nonempty_str (dget0 env ''created_at'')
          then None
          else Some
                [(''schema_version'', JInt 1), (''envelope_version'', JInt 1),
                 (''request_id'', dget0 env ''request_id''), (''idempotency_key'', envelope_key env),
                 (''source_id'', dget0 env ''source_id''), (''target_id'', dget0 env ''target_id''),
                 (''operation'', dget0 env ''operation''), (''packet_digest'', dget0 env ''packet_digest''),
                 (''payload_summary'', JObj summary),
                 (''payload_digest'', JStr (json_digest e (JObj summary))),
                 (''created_at'', dget0 env ''created_at'')])"

text \<open>\<open>_utc_now\<close> of the envelope module is a parameter of \<open>build_envelope\<close>.\<close>

definition build_envelope ::
  "env \<Rightarrow> string \<Rightarrow> string \<Rightarrow> string \<Rightarrow> string \<Rightarrow> string \<Rightarrow> string \<Rightarrow> json \<Rightarrow> string option \<Rightarrow> string option \<Rightarrow>
    dict option" where
  "build_envelope e now request source target operation packet summary key created =
     (case sanitize_summary summary of None \<Rightarrow> None
      | Some d \<Rightarrow> validate_envelope e
          [(''schema_version'', JInt 1), (''envelope_version'', JInt 1), (''request_id'', JStr request),
           (''idempotency_key'', JStr (if otext key = [] then request else otext key)),
           (''source_id'', JStr source), (''target_id'', JStr target), (''operation'', JStr operation),
           (''packet_digest'', JStr packet), (''payload_summary'', JObj d),
           (''payload_digest'', JStr (json_digest e (JObj d))),
           (''created_at'', JStr (if otext created = [] then now else otext created))])"

definition identity_fields :: "string list" where
  "identity_fields =
     [''request_id'', ''idempotency_key'', ''source_id'', ''target_id'', ''operation'',
      ''packet_digest'', ''payload_digest'']"

definition same_envelope :: "dict \<Rightarrow> dict \<Rightarrow> bool" where
  "same_envelope a b \<longleftrightarrow> list_all (\<lambda>f. py_eq (dget0 a f) (dget0 b f)) identity_fields"

section \<open>Receipts\<close>

definition make_receipt :: "env \<Rightarrow> string \<Rightarrow> dict \<Rightarrow> string \<Rightarrow> int \<Rightarrow> json \<Rightarrow> json \<Rightarrow> dict option" where
  "make_receipt e now env status effects result error =
     (if status \<notin> {''accepted'', ''completed'', ''failed''} \<or> effects < 0
         \<or> result \<noteq> JNull \<and> \<not> is_hex64 result
         \<or> error \<noteq> JNull \<and> \<not> (case error of JStr s \<Rightarrow> error_code_re s | _ \<Rightarrow> False)
      then None
      else
        let value = [(''schema_version'', JInt 1), (''receipt_version'', JInt 1),
                     (''request_id'', dget0 env ''request_id''),
                     (''idempotency_key'', dget0 env ''idempotency_key''),
                     (''payload_digest'', dget0 env ''payload_digest''), (''status'', JStr status),
                     (''effect_count'', JInt effects), (''duplicate'', JBool False),
                     (''observed_at'', JStr now)]
              @ (if result = JNull then [] else [(''result_digest'', result)])
              @ (if error = JNull then [] else [(''error_code'', error)])
        in Some (value @ [(''receipt_digest'', JStr (json_digest e (JObj value)))]))"

definition receipt_fields :: "string list" where
  "receipt_fields =
     [''schema_version'', ''receipt_version'', ''request_id'', ''idempotency_key'', ''payload_digest'',
      ''status'', ''effect_count'', ''duplicate'', ''observed_at'', ''result_digest'', ''error_code'',
      ''receipt_digest'']"

definition receipt_ok :: "env \<Rightarrow> dict \<Rightarrow> dict \<Rightarrow> bool" where
  "receipt_ok e env receipt \<longleftrightarrow>
     (let result = dget0 receipt ''result_digest''; error = dget0 receipt ''error_code'';
          status = dget0 receipt ''status''
      in list_all (\<lambda>kv. fst kv \<in> set receipt_fields) receipt
         \<and> py_eq (dget0 receipt ''schema_version'') (JInt 1)
         \<and> py_eq (dget0 receipt ''receipt_version'') (JInt 1)
         \<and> py_eq (dget0 receipt ''request_id'') (dget0 env ''request_id'')
         \<and> py_eq (dget0 receipt ''idempotency_key'') (dget0 env ''idempotency_key'')
         \<and> py_eq (dget0 receipt ''payload_digest'') (dget0 env ''payload_digest'')
         \<and> str_in status [''accepted'', ''completed'', ''failed'']
         \<and> (case dget0 receipt ''effect_count'' of JInt n \<Rightarrow> 0 \<le> n | _ \<Rightarrow> False)
         \<and> (case dget0 receipt ''duplicate'' of JBool b \<Rightarrow> True | _ \<Rightarrow> False)
         \<and> nonempty_str (dget0 receipt ''observed_at'')
         \<and> (result = JNull \<or> is_hex64 result)
         \<and> (error = JNull \<or> (case error of JStr s \<Rightarrow> error_code_re s | _ \<Rightarrow> False))
         \<and> (status = JStr ''completed'' \<longrightarrow> result \<noteq> JNull \<and> error = JNull)
         \<and> (status = JStr ''failed'' \<longrightarrow> error \<noteq> JNull \<and> result = JNull)
         \<and> (status = JStr ''accepted'' \<longrightarrow> result = JNull \<and> error = JNull)
         \<and> is_hex64 (dget0 receipt ''receipt_digest'')
         \<and> JStr (json_digest e (JObj (dpop ''receipt_digest'' receipt))) = dget0 receipt ''receipt_digest'')"

section \<open>Facts\<close>

lemma safe_id_truthy: "safe_id v \<Longrightarrow> truthy v"
  by (cases v) (auto simp: safe_id_def id_re_def split: list.splits)

lemma sanitize_summary_again: "sanitize_summary v = Some d \<Longrightarrow> sanitize_summary (JObj d) = Some d"
  by (auto simp: sanitize_summary_def split: json.splits if_splits)

lemma validate_envelope_Some:
  assumes "validate_envelope e env = Some c"
  obtains d key where
    "py_eq (dget0 env ''schema_version'') (JInt 1)" "py_eq (dget0 env ''envelope_version'') (JInt 1)"
    "safe_id (dget0 env ''request_id'')" "safe_id (dget0 env ''source_id'')" "safe_id (dget0 env ''target_id'')"
    "operation_re (jtxt (dget0 env ''operation''))" "is_hex64 (dget0 env ''packet_digest'')"
    "sanitize_summary (dget0 env ''payload_summary'') = Some d" "safe_id key"
    "nonempty_str (dget0 env ''created_at'')"
    "c = [(''schema_version'', JInt 1), (''envelope_version'', JInt 1),
          (''request_id'', dget0 env ''request_id''), (''idempotency_key'', key),
          (''source_id'', dget0 env ''source_id''), (''target_id'', dget0 env ''target_id''),
          (''operation'', dget0 env ''operation''), (''packet_digest'', dget0 env ''packet_digest''),
          (''payload_summary'', JObj d), (''payload_digest'', JStr (json_digest e (JObj d))),
          (''created_at'', dget0 env ''created_at'')]"
proof -
  let ?bad = "\<not> py_eq (dget0 env ''schema_version'') (JInt 1) \<or> \<not> py_eq (dget0 env ''envelope_version'') (JInt 1)
         \<or> \<not> safe_id (dget0 env ''request_id'') \<or> \<not> safe_id (dget0 env ''source_id'')
         \<or> \<not> safe_id (dget0 env ''target_id'') \<or> \<not> operation_re (jtxt (dget0 env ''operation''))
         \<or> \<not> is_hex64 (dget0 env ''packet_digest'')"
  from assms have "\<not> ?bad"
    unfolding validate_envelope_def by (cases ?bad) simp_all
  moreover from this assms obtain d where d: "sanitize_summary (dget0 env ''payload_summary'') = Some d"
    unfolding validate_envelope_def by (cases "sanitize_summary (dget0 env ''payload_summary'')") simp_all
  moreover have "safe_id (envelope_key env)" "nonempty_str (dget0 env ''created_at'')"
    and "[(''schema_version'', JInt 1), (''envelope_version'', JInt 1),
          (''request_id'', dget0 env ''request_id''), (''idempotency_key'', envelope_key env),
          (''source_id'', dget0 env ''source_id''), (''target_id'', dget0 env ''target_id''),
          (''operation'', dget0 env ''operation''), (''packet_digest'', dget0 env ''packet_digest''),
          (''payload_summary'', JObj d), (''payload_digest'', JStr (json_digest e (JObj d))),
          (''created_at'', dget0 env ''created_at'')] = c"
    using assms \<open>\<not> ?bad\<close> d unfolding validate_envelope_def by (simp_all split: if_split_asm)
  ultimately show thesis
    by (intro that [of d "envelope_key env"]) simp_all
qed

text \<open>Validation is a normal form: a canonical envelope validates to itself.\<close>

lemma validate_envelope_canonical:
  assumes "validate_envelope e env = Some c"
  shows "validate_envelope e c = Some c"
proof -
  from assms obtain d key where
    v: "safe_id (dget0 env ''request_id'')" "safe_id (dget0 env ''source_id'')" "safe_id (dget0 env ''target_id'')"
    "operation_re (jtxt (dget0 env ''operation''))" "is_hex64 (dget0 env ''packet_digest'')"
    "sanitize_summary (dget0 env ''payload_summary'') = Some d" "safe_id key"
    "nonempty_str (dget0 env ''created_at'')"
    and c: "c = [(''schema_version'', JInt 1), (''envelope_version'', JInt 1),
          (''request_id'', dget0 env ''request_id''), (''idempotency_key'', key),
          (''source_id'', dget0 env ''source_id''), (''target_id'', dget0 env ''target_id''),
          (''operation'', dget0 env ''operation''), (''packet_digest'', dget0 env ''packet_digest''),
          (''payload_summary'', JObj d), (''payload_digest'', JStr (json_digest e (JObj d))),
          (''created_at'', dget0 env ''created_at'')]"
    by (rule validate_envelope_Some)
  have "truthy key" using v(7) by (rule safe_id_truthy)
  with v sanitize_summary_again [OF v(6)] show ?thesis
    unfolding c validate_envelope_def by (simp add: envelope_key_def)
qed

lemma validate_envelope_fields:
  assumes "validate_envelope e env = Some c"
  shows "map fst c = [''schema_version'', ''envelope_version'', ''request_id'', ''idempotency_key'',
      ''source_id'', ''target_id'', ''operation'', ''packet_digest'', ''payload_summary'',
      ''payload_digest'', ''created_at'']"
    and "safe_id (dget0 c ''request_id'')"
    and "dget0 c ''request_id'' = dget0 env ''request_id''"
  using assms by (rule validate_envelope_Some, simp)+

end
