(* ===== verification/StoreJobs.thy ===== *)
theory StoreJobs
  imports StoreReservations Envelope
begin

text \<open>
  The job queue of \<open>scripts/sqlite_store.py\<close>: creation (with the transport outbox), requeueing,
  legacy import, the claim operations, completion and recovery after an expired lease.

  A handler is one \<open>tx\<close>, from its argument checks to the row it returns; the parts that several
  handlers share (\<open>claim_row\<close>, \<open>reservation_is_claimable\<close>, \<open>enqueue_transport\<close>) are the private
  \<open>_..._tx\<close> methods of the code.
\<close>

definition run_optional :: "('a \<Rightarrow> 'b op) \<Rightarrow> 'a option \<Rightarrow> unit op" where
  "run_optional f z = (case z of None \<Rightarrow> tx_return () | Some x \<Rightarrow> tx_bind (f x) (\<lambda>_. tx_return ()))"

definition str_or_empty :: "env \<Rightarrow> json \<Rightarrow> string" where
  "str_or_empty e v = (if truthy v then py_str e v else [])"

section \<open>The transport outbox\<close>

definition find_outbox :: "string \<Rightarrow> db \<Rightarrow> outbox_row option" where
  "find_outbox i s = List.find (\<lambda>r. o_id r = i) (outbox s)"

definition enqueue_transport :: "env \<Rightarrow> dict \<Rightarrow> string \<Rightarrow> int \<Rightarrow> string option \<Rightarrow> string option \<Rightarrow> outbox_row op" where
  "enqueue_transport e envelope owner fence job attempt s =
     (case validate_envelope e envelope of
        None \<Rightarrow> Inl StoreErr
      | Some c \<Rightarrow>
        (let i = jtxt (dget0 c ''request_id'')
         in case find_outbox i s of
              Some r \<Rightarrow> if dict_eq (o_envelope r) c then Inr (r, s) else Inl JobConflictErr
            | None \<Rightarrow>
              tx_seq (tx_modify (\<lambda>s. s\<lparr>outbox := outbox s @
                  [\<lparr>o_id = i, o_job = job, o_attempt = attempt, o_target = jtxt (dget0 c ''target_id''),
                    o_operation = jtxt (dget0 c ''operation''),
                    o_packet_digest = jtxt (dget0 c ''packet_digest''),
                    o_payload_digest = jtxt (dget0 c ''payload_digest''), o_envelope = c,
                    o_status = OPending, o_created = now_text e, o_updated = now_text e, o_sent = None,
                    o_completed = None, o_receipt = None, o_owner = owner, o_fence = fence\<rparr>]\<rparr>))
              (tx_bind (append_event_row e ''transport_enqueued'' None job None (Some owner) (Some fence)
                 (JObj [(''request_id'', JStr i), (''target_id'', dget0 c ''target_id''),
                        (''operation'', dget0 c ''operation''), (''payload_digest'', dget0 c ''payload_digest'')]))
                 (\<lambda>_. refetch (find_outbox i))) s))"

section \<open>Creating and requeueing\<close>

record create_args =
  ca_job :: string
  ca_payload :: dict
  ca_run :: "string option"
  ca_task :: "string option"
  ca_priority :: int
  ca_status :: job_status
  ca_owner :: "string option"
  ca_fence :: "int option"
  ca_scope :: string
  ca_event :: "dict option"
  ca_envelope :: "dict option"

definition new_job_row :: "string \<Rightarrow> string option \<Rightarrow> string option \<Rightarrow> job_status \<Rightarrow> int \<Rightarrow> dict \<Rightarrow> string \<Rightarrow> job_row" where
  "new_job_row job run task status priority payload stamp =
     \<lparr>j_id = job, j_run = run, j_task = task, j_status = status, j_priority = priority,
      j_payload = payload, j_created = stamp, j_updated = stamp, j_owner = None, j_fence = None,
      j_expires = None, j_attempts = 0, j_completed = None, j_retry_at = None, j_error_class = None,
      j_error = None, j_revision = 1\<rparr>"

definition create_transport :: "env \<Rightarrow> create_args \<Rightarrow> unit op" where
  "create_transport e ca =
     run_optional (\<lambda>v. enqueue_transport e v (otext (ca_owner ca)) (int_or_zero (ca_fence ca))
       (Some (ca_job ca)) None) (ca_envelope ca)"

definition create_job :: "env \<Rightarrow> create_args \<Rightarrow> job_row op" where
  "create_job e ca =
     tx_seq (tx_raise_if (py_blank (ca_job ca)) ValueErr)
     (tx_seq (tx_raise_if ((ca_owner ca = None) \<noteq> (ca_fence ca = None)) FencingErr)
     (tx_seq (tx_raise_if (ca_envelope ca \<noteq> None \<and> (ca_owner ca = None \<or> ca_fence ca = None)) FencingErr)
     (tx_seq (fence_pair e (ca_scope ca) (ca_owner ca) (ca_fence ca))
     (tx_bind (tx_get (find_job (ca_job ca))) (\<lambda>existing.
       case existing of
         Some j \<Rightarrow>
           if \<not> dict_eq (j_payload j) (ca_payload ca) then tx_raise JobConflictErr
           else tx_seq (create_transport e ca) (tx_return j)
       | None \<Rightarrow>
           tx_seq (tx_modify (\<lambda>s. s\<lparr>jobs := jobs s @
             [new_job_row (ca_job ca) (ca_run ca) (ca_task ca) (ca_status ca) (ca_priority ca)
                (ca_payload ca) (now_text e)]\<rparr>))
           (tx_bind (append_event_row e ''job_enqueued'' None (Some (ca_job ca)) None (ca_owner ca) (ca_fence ca)
              (JObj [(''status'', JStr (job_status_text (ca_status ca)))])) (\<lambda>_.
            tx_seq (run_optional append_provenance (ca_event ca))
              (tx_seq (create_transport e ca) (refetch (find_job (ca_job ca)))))))))))"

definition requeueable :: "job_status \<Rightarrow> bool" where
  "requeueable st \<longleftrightarrow> st \<in> {Failed, Blocked, Pending, Retry}"

definition requeue_job ::
  "env \<Rightarrow> string \<Rightarrow> string \<Rightarrow> int \<Rightarrow> dict option \<Rightarrow> int option \<Rightarrow> string \<Rightarrow> string \<Rightarrow> job_row op" where
  "requeue_job e job owner fence payload priority reason scope =
     tx_seq (tx_raise_if (py_blank job) ValueErr)
     (tx_seq (tx_raise_if (py_blank reason) ValueErr)
     (tx_seq (assert_lease e scope owner fence)
     (tx_bind (tx_get (find_job job)) (\<lambda>existing.
       case existing of
         None \<Rightarrow> tx_raise JobTransitionErr
       | Some j \<Rightarrow>
           if \<not> requeueable (j_status j) then tx_raise JobTransitionErr
           else
             let next_payload = dput ''_lad_replan_base_attempt_count'' (JInt (j_attempts j))
                   (case payload of None \<Rightarrow> j_payload j | Some p \<Rightarrow> p);
                 next_priority = (case priority of None \<Rightarrow> j_priority j | Some p \<Rightarrow> p);
                 p = (\<lambda>x. j_id x = job \<and> requeueable (j_status x))
             in tx_bind (tx_get (\<lambda>s. rowcount p (jobs s))) (\<lambda>n.
                tx_seq (tx_modify (\<lambda>s. s\<lparr>jobs := upd_where p
                  (\<lambda>x. x\<lparr>j_status := Queued, j_priority := next_priority, j_payload := next_payload,
                         j_updated := now_text e, j_completed := None, j_owner := None, j_fence := None,
                         j_expires := None, j_retry_at := None, j_error_class := None, j_error := None,
                         j_revision := j_revision x + 1\<rparr>) (jobs s)\<rparr>))
                (tx_seq (tx_raise_if (n \<noteq> 1) JobTransitionErr)
                (tx_bind (release_reservation_tx e job None None ''job_requeued'') (\<lambda>_.
                 tx_bind (append_event_row e ''job_requeued'' None (Some job) None (Some owner) (Some fence)
                   (JObj [(''from_status'', JStr (job_status_text (j_status j))), (''reason'', JStr reason)]))
                   (\<lambda>_. refetch (find_job job))))))))))"

section \<open>Importing a legacy job\<close>

record import_args =
  ia_job :: string
  ia_attempt :: string
  ia_payload :: dict
  ia_run :: "string option"
  ia_task :: "string option"
  ia_status :: job_status
  ia_attempt_payload :: dict
  ia_attempt_status :: attempt_status
  ia_attempt_no :: int
  ia_observed :: "string option"
  ia_event :: dict
  ia_reconciliation :: "dict option"
  ia_owner :: string
  ia_fence :: int
  ia_scope :: string

definition import_job_row :: "env \<Rightarrow> import_args \<Rightarrow> string \<Rightarrow> bool op" where
  "import_job_row e ia observed =
     tx_bind (tx_get (find_job (ia_job ia))) (\<lambda>existing.
       case existing of
         Some j \<Rightarrow>
           if \<not> dict_eq (j_payload j) (ia_payload ia) \<or> otext (j_run j) \<noteq> otext (ia_run ia)
              \<or> otext (j_task j) \<noteq> otext (ia_task ia)
           then tx_raise JobConflictErr else tx_return True
       | None \<Rightarrow>
           tx_seq (tx_modify (\<lambda>s. s\<lparr>jobs := jobs s @
             [new_job_row (ia_job ia) (ia_run ia) (ia_task ia) (ia_status ia) 0 (ia_payload ia) observed]\<rparr>))
             (tx_return False))"

definition attempt_clash :: "attempt_row \<Rightarrow> db \<Rightarrow> bool" where
  "attempt_clash a s \<longleftrightarrow>
     list_ex (\<lambda>x. a_id x = a_id a \<or> a_job x = a_job a \<and> a_no x = a_no a) (attempts s)"

definition insert_attempt :: "attempt_row \<Rightarrow> unit op" where
  "insert_attempt a s =
     (if attempt_clash a s then Inl IntegrityErr else Inr ((), s\<lparr>attempts := attempts s @ [a]\<rparr>))"

definition import_attempt_row :: "env \<Rightarrow> import_args \<Rightarrow> string \<Rightarrow> bool op" where
  "import_attempt_row e ia observed =
     tx_bind (tx_get (find_attempt (ia_attempt ia))) (\<lambda>existing.
       case existing of
         Some a \<Rightarrow>
           if a_job a \<noteq> ia_job ia \<or> a_no a \<noteq> ia_attempt_no ia \<or> \<not> dict_eq (a_payload a) (ia_attempt_payload ia)
           then tx_raise JobConflictErr else tx_return True
       | None \<Rightarrow>
           tx_seq (insert_attempt
             \<lparr>a_id = ia_attempt ia, a_job = ia_job ia, a_no = ia_attempt_no ia, a_status = ia_attempt_status ia,
              a_owner = None, a_fence = None, a_expires = None, a_started = observed, a_finished = None,
              a_payload = ia_attempt_payload ia, a_result = None, a_artifacts = None, a_validation = None,
              a_error_class = None, a_error = None\<rparr>) (tx_return False))"

definition import_reconciliation :: "env \<Rightarrow> import_args \<Rightarrow> dict \<Rightarrow> dict \<Rightarrow> unit op" where
  "import_reconciliation e ia imported child =
     tx_seq (tx_raise_if (str_or_empty e (dget0 child ''attempt_id'') \<noteq> ia_attempt ia) ProvenanceErr)
     (tx_seq (tx_raise_if (\<not> py_eq (dget0 child ''causal_parent'') (dget0 imported ''event_id'')) ProvenanceErr)
     (tx_seq (tx_raise_if (\<not> ev_is ''attempt.abandoned'' child \<and> \<not> ev_is ''attempt.review'' child) ProvenanceErr)
     (tx_bind (append_provenance child) (\<lambda>_.
       tx_modify (\<lambda>s. s\<lparr>attempts := upd_where
         (\<lambda>x. a_id x = ia_attempt ia \<and> (a_status x = AReview \<or> a_status x = ARunning))
         (\<lambda>x. x\<lparr>a_status := if ev_is ''attempt.abandoned'' child then AAbandoned else AReview\<rparr>)
         (attempts s)\<rparr>)))))"

definition import_legacy_job :: "env \<Rightarrow> import_args \<Rightarrow> (job_row \<times> attempt_row \<times> dict \<times> bool) op" where
  "import_legacy_job e ia =
     tx_seq (tx_raise_if (py_blank (ia_job ia) \<or> py_blank (ia_attempt ia)) ValueErr)
     (tx_seq (tx_raise_if (str_or_empty e (dget0 (ia_event ia) ''attempt_id'') \<noteq> ia_attempt ia) ProvenanceErr)
     (tx_seq (tx_raise_if (dget0 (ia_event ia) ''job_id'' \<noteq> JNull
                \<and> py_str e (dget0 (ia_event ia) ''job_id'') \<noteq> ia_job ia) ProvenanceErr)
     (tx_seq (tx_raise_if (ia_attempt_no ia < 1) ValueErr)
     (tx_seq (reject_secrets (JObj (ia_payload ia)))
     (tx_seq (reject_secrets (JObj (ia_attempt_payload ia)))
     (let observed = (if otext (ia_observed ia) \<noteq> [] then otext (ia_observed ia)
                      else if truthy (dget0 (ia_event ia) ''timestamp'')
                      then py_str e (dget0 (ia_event ia) ''timestamp'') else now_text e)
      in tx_seq (assert_lease e (ia_scope ia) (ia_owner ia) (ia_fence ia))
        (tx_bind (import_job_row e ia observed) (\<lambda>had_job.
         tx_bind (import_attempt_row e ia observed) (\<lambda>had_attempt.
         tx_bind (append_event_row e ''legacy_job_imported''
             (Some (event_id_for (uuid5_of e) (join_colon [''legacy_job_imported'', ia_job ia, ia_attempt ia])))
             (Some (ia_job ia)) (Some (ia_attempt ia)) (Some (ia_owner ia)) (Some (ia_fence ia))
             (JObj [(''evidence_quality'', JStr ''legacy_incomplete''),
                    (''legacy_status'', dget0 (ia_payload ia) ''legacy_status''),
                    (''legacy_liveness'', dget_else (ia_payload ia) ''legacy_liveness'' (JStr ''unknown'')),
                    (''import_policy'', dget0 (ia_payload ia) ''import_policy'')])) (\<lambda>_.
         tx_bind (append_provenance (ia_event ia)) (\<lambda>imported.
         tx_seq (run_optional (import_reconciliation e ia imported) (ia_reconciliation ia))
           (tx_bind (refetch (find_job (ia_job ia))) (\<lambda>j.
            tx_bind (refetch (find_attempt (ia_attempt ia))) (\<lambda>a.
              tx_return (j, a, imported, had_job \<and> had_attempt)))))))))))))))"

section \<open>Claiming\<close>

definition requires_reservation :: "dict \<Rightarrow> bool" where
  "requires_reservation payload \<longleftrightarrow>
     truthy (dget0 payload ''resource_reservation_required'') \<or> truthy (dget0 payload ''resource_request'')"

definition reservation_is_claimable :: "env \<Rightarrow> job_row \<Rightarrow> string \<Rightarrow> int \<Rightarrow> string \<Rightarrow> bool \<Rightarrow> db \<Rightarrow> bool" where
  "reservation_is_claimable e j owner fence scope require s \<longleftrightarrow>
     \<not> requires_reservation (j_payload j) \<or> \<not> require \<or>
     list_ex (\<lambda>r. r_job r = j_id j \<and> r_scope r = scope \<and> r_status r = RActive \<and> r_owner r = owner
       \<and> r_fence r = fence \<and> now_text e < r_expires r) (reservations s)"

text \<open>The \<open>WHERE\<close> clause of a claim, on text stamps, and the test on parsed stamps of \<open>claim_job\<close>.\<close>

definition claimable_row :: "env \<Rightarrow> job_row \<Rightarrow> bool" where
  "claimable_row e j \<longleftrightarrow> j_status j = Queued
     \<or> j_status j = Retry \<and> (case j_retry_at j of None \<Rightarrow> True | Some t \<Rightarrow> t \<le> now_text e)"

definition runnable :: "env \<Rightarrow> job_row \<Rightarrow> bool" where
  "runnable e j \<longleftrightarrow> j_status j = Queued
     \<or> j_status j = Retry \<and> (j_retry_at j = None \<or> expired_now e (j_retry_at j))"

definition claim_attempt_row :: "env \<Rightarrow> job_row \<Rightarrow> string \<Rightarrow> string \<Rightarrow> int \<Rightarrow> rat \<Rightarrow> attempt_row" where
  "claim_attempt_row e j attempt owner fence ttl =
     \<lparr>a_id = attempt, a_job = j_id j, a_no = j_attempts j + 1, a_status = ARunning, a_owner = Some owner,
      a_fence = Some fence, a_expires = Some (expiry_text e ttl), a_started = now_text e,
      a_finished = None, a_payload = j_payload j, a_result = None, a_artifacts = None,
      a_validation = None, a_error_class = None, a_error = None\<rparr>"

definition claim_update :: "env \<Rightarrow> job_row \<Rightarrow> string \<Rightarrow> int \<Rightarrow> rat \<Rightarrow> job_row \<Rightarrow> job_row" where
  "claim_update e j owner fence ttl x =
     x\<lparr>j_status := Running, j_owner := Some owner, j_fence := Some fence,
       j_expires := Some (expiry_text e ttl), j_attempts := j_attempts j + 1, j_updated := now_text e,
       j_retry_at := None, j_revision := j_revision x + 1, j_error_class := None, j_error := None\<rparr>"

text \<open>The provenance a claim writes when the caller supplies none.\<close>

definition claim_provenance :: "env \<Rightarrow> string \<Rightarrow> string \<Rightarrow> int \<Rightarrow> string \<Rightarrow> unit op" where
  "claim_provenance e job attempt attempt_no scope =
     tx_bind (tx_get (find_active job scope)) (\<lambda>reservation.
     tx_bind
       (case reservation of
          None \<Rightarrow> tx_return None
        | Some r \<Rightarrow>
            (let ev = automatic_attempt_event e ''attempt.reserved'' attempt None job
                        [(''reservation_id'', JStr (r_id r))]
             in tx_bind (append_provenance ev) (\<lambda>_. tx_return (Some (ev_id ev))))) (\<lambda>parent.
     tx_bind (append_provenance
       (automatic_attempt_event e ''attempt.claimed'' attempt parent job
          [(''attempt_no'', JInt attempt_no), (''scope'', JStr scope)])) (\<lambda>_. tx_return ())))"

definition claim_row ::
  "env \<Rightarrow> job_row \<Rightarrow> string \<Rightarrow> int \<Rightarrow> rat \<Rightarrow> string \<Rightarrow> dict option \<Rightarrow> (job_row \<times> attempt_row) op" where
  "claim_row e j owner fence ttl scope event =
     tx_bind (new_id e ''attempt'') (\<lambda>attempt.
     tx_seq (if j_status j = Running
             then tx_modify (\<lambda>s. s\<lparr>attempts := upd_where (\<lambda>x. a_job x = j_id j \<and> a_status x = ARunning)
               (\<lambda>x. x\<lparr>a_status := AAbandoned, a_finished := Some (now_text e),
                      a_error_class := Some (case a_error_class x of None \<Rightarrow> ''controller_restarted'' | Some c \<Rightarrow> c)\<rparr>)
               (attempts s)\<rparr>)
             else tx_return ())
     (tx_bind (tx_get (\<lambda>s. rowcount (\<lambda>x. j_id x = j_id j \<and> claimable_row e x) (jobs s))) (\<lambda>n.
      tx_seq (tx_raise_if (n \<noteq> 1) JobTransitionErr)
     (tx_seq (tx_modify (\<lambda>s. s\<lparr>jobs := upd_where (\<lambda>x. j_id x = j_id j \<and> claimable_row e x)
                (claim_update e j owner fence ttl) (jobs s)\<rparr>))
     (tx_seq (insert_attempt (claim_attempt_row e j attempt owner fence ttl))
     (tx_bind (append_event_row e ''job_claimed'' None (Some (j_id j)) (Some attempt) (Some owner) (Some fence)
        (JObj [(''attempt_no'', JInt (j_attempts j + 1)), (''reclaimed'', JBool (j_status j = Running)),
               (''scope'', JStr scope)])) (\<lambda>_.
      tx_seq (case event of
          Some v \<Rightarrow> tx_seq (tx_raise_if (str_or_empty e (dget0 v ''attempt_id'') \<noteq> attempt) ProvenanceErr)
                      (tx_bind (append_provenance v) (\<lambda>_. tx_return ()))
        | None \<Rightarrow> claim_provenance e (j_id j) attempt (j_attempts j + 1) scope)
      (tx_bind (refetch (find_job (j_id j))) (\<lambda>j'.
       tx_bind (refetch (find_attempt attempt)) (\<lambda>a'. tx_return (j', a')))))))))))"

definition claim_job ::
  "env \<Rightarrow> string \<Rightarrow> string \<Rightarrow> int \<Rightarrow> rat \<Rightarrow> string \<Rightarrow> bool \<Rightarrow> dict option \<Rightarrow> (job_row \<times> attempt_row) option op" where
  "claim_job e job owner fence ttl scope require event =
     tx_seq (assert_lease e scope owner fence)
     (tx_bind (tx_get (find_job job)) (\<lambda>row.
       case row of
         None \<Rightarrow> tx_return None
       | Some j \<Rightarrow>
           if \<not> runnable e j then tx_return None
           else tx_bind (tx_get (reservation_is_claimable e j owner fence scope require)) (\<lambda>ok.
             if \<not> ok then tx_return None
             else tx_bind (claim_row e j owner fence ttl scope event) (\<lambda>r. tx_return (Some r)))))"

definition queue_key :: "job_row \<Rightarrow> int \<times> string \<times> string" where
  "queue_key j = (- j_priority j, j_created j, j_id j)"

definition claim_candidates :: "env \<Rightarrow> string \<Rightarrow> int \<Rightarrow> nat \<Rightarrow> string \<Rightarrow> bool \<Rightarrow> db \<Rightarrow> job_row list" where
  "claim_candidates e owner fence limit scope require s =
     take limit
       (filter (\<lambda>j. reservation_is_claimable e j owner fence scope require s)
          (take (min 1024 (max limit (limit * 8))) (sort_key queue_key (filter (claimable_row e) (jobs s)))))"

definition claim_jobs ::
  "env \<Rightarrow> string \<Rightarrow> int \<Rightarrow> int \<Rightarrow> rat \<Rightarrow> string \<Rightarrow> bool \<Rightarrow> (string \<Rightarrow> dict option) \<Rightarrow>
    (job_row \<times> attempt_row) list op" where
  "claim_jobs e owner fence max_jobs ttl scope require event_of =
     tx_seq (tx_raise_if (max_jobs < 1) ValueErr)
     (tx_seq (assert_lease e scope owner fence)
     (tx_bind (tx_get (claim_candidates e owner fence (min (nat max_jobs) 1024) scope require)) (\<lambda>selected.
       tx_each (\<lambda>j. claim_row e j owner fence ttl scope (event_of (j_id j))) selected)))"

definition claim_next_job ::
  "env \<Rightarrow> string \<Rightarrow> int \<Rightarrow> rat \<Rightarrow> string \<Rightarrow> bool \<Rightarrow> (job_row \<times> attempt_row) option op" where
  "claim_next_job e owner fence ttl scope require =
     tx_bind (claim_jobs e owner fence 1 ttl scope require (\<lambda>_. None)) (\<lambda>claimed.
       tx_return (case claimed of [] \<Rightarrow> None | c # cs \<Rightarrow> Some c))"

end
