(* ===== verification/StoreCompletion.thy ===== *)
theory StoreCompletion
  imports StoreJobs
begin

text \<open>
  The end of an attempt (\<open>scripts/sqlite_store.py\<close>): \<open>reserve_and_claim_job\<close>, \<open>complete_job\<close>,
  \<open>recover_expired_jobs\<close>, and the read-only queries over jobs, attempts and events.
\<close>

section \<open>Reserving and claiming in one transaction\<close>

record governor_args =
  ga_state :: "dict option"
  ga_policy :: dict
  ga_observed :: "string option"

definition reserve_and_claim ::
  "env \<Rightarrow> reserve_args \<Rightarrow> governor_args \<Rightarrow> (reservation_row \<times> job_row \<times> attempt_row) option op" where
  "reserve_and_claim e ra ga =
     (case prepare_reservation e ra of
        Inl x \<Rightarrow> tx_raise x
      | Inr (request, admission, capacity) \<Rightarrow>
          tx_bind (reservation_token e ra) (\<lambda>rid.
          tx_seq (assert_lease e (ra_scope ra) (ra_owner ra) (ra_fence ra))
          (tx_bind (tx_get (find_job (ra_job ra))) (\<lambda>row.
           case row of
             None \<Rightarrow> tx_raise JobTransitionErr
           | Some j \<Rightarrow>
               if \<not> runnable e j then tx_return None
               else
                 tx_bind (reserve_tx e ra rid request admission capacity) (\<lambda>reservation.
                 tx_bind (refetch (find_job (ra_job ra))) (\<lambda>j'.
                 tx_bind (tx_get (reservation_is_claimable e j' (ra_owner ra) (ra_fence ra) (ra_scope ra) True)) (\<lambda>ok.
                 tx_seq (tx_raise_if (\<not> ok) ReservationAdmissionErr)
                 (tx_bind (claim_row e j' (ra_owner ra) (ra_fence ra) (ra_ttl ra) (ra_scope ra) None) (\<lambda>(j2, a).
                  tx_seq (run_optional (\<lambda>st. put_governor_tx e st (ga_policy ga) (ga_observed ga) (ra_scope ra)
                            (Some (ra_owner ra)) (Some (ra_fence ra))) (ga_state ga))
                    (tx_return (Some (reservation, j2, a))))))))))))"

section \<open>Completion\<close>

record complete_args =
  co_job :: string
  co_attempt :: string
  co_owner :: string
  co_fence :: int
  co_success :: bool
  co_result :: "json option"
  co_artifacts :: "json option"
  co_validation :: "json option"
  co_error_class :: "string option"
  co_error :: "json option"
  co_retryable :: bool
  co_retry_delay :: "rat option"
  co_retry_at :: "string option"
  co_scope :: string
  co_event :: "dict option"

definition next_retry_stamp :: "env \<Rightarrow> complete_args \<Rightarrow> string option" where
  "next_retry_stamp e co =
     (if co_retryable co
      then (case co_retry_at co of
              Some t \<Rightarrow> Some t
            | None \<Rightarrow> (case co_retry_delay co of None \<Rightarrow> None | Some d \<Rightarrow> Some (expiry_text e (max 0 d))))
      else None)"

definition terminal_job_status :: "bool \<Rightarrow> bool \<Rightarrow> job_status" where
  "terminal_job_status success retryable = (if success then Completed else if retryable then Retry else Failed)"

definition terminal_attempt_status :: "bool \<Rightarrow> bool \<Rightarrow> attempt_status" where
  "terminal_attempt_status success retryable = (if success then ACompleted else if retryable then ARetry else AFailed)"

text \<open>The two fenced updates that end an attempt and its job; both \<open>complete_job\<close> and the transport
  promotion issue them.\<close>

definition finish_attempt ::
  "env \<Rightarrow> string \<Rightarrow> string \<Rightarrow> int \<Rightarrow> attempt_status \<Rightarrow> json option \<Rightarrow> json option \<Rightarrow> json option \<Rightarrow>
    string option \<Rightarrow> json option \<Rightarrow> unit op" where
  "finish_attempt e attempt owner fence status result artifacts validation error_class error =
     tx_modify (\<lambda>s. s\<lparr>attempts := upd_where
       (\<lambda>x. a_id x = attempt \<and> a_status x = ARunning \<and> a_owner x = Some owner \<and> a_fence x = Some fence)
       (\<lambda>x. x\<lparr>a_status := status, a_finished := Some (now_text e), a_result := result,
              a_artifacts := artifacts, a_validation := validation, a_error_class := error_class,
              a_error := error, a_expires := None\<rparr>) (attempts s)\<rparr>)"

definition finish_job ::
  "env \<Rightarrow> string \<Rightarrow> string \<Rightarrow> int \<Rightarrow> job_status \<Rightarrow> bool \<Rightarrow> string option \<Rightarrow> string option \<Rightarrow> json option \<Rightarrow> unit op" where
  "finish_job e job owner fence status success retry_at error_class error =
     (let p = (\<lambda>x. j_id x = job \<and> j_status x = Running \<and> j_owner x = Some owner \<and> j_fence x = Some fence)
      in tx_bind (tx_get (\<lambda>s. rowcount p (jobs s))) (\<lambda>n.
         tx_seq (tx_modify (\<lambda>s. s\<lparr>jobs := upd_where p
           (\<lambda>x. x\<lparr>j_status := status, j_updated := now_text e,
                  j_completed := (if success then Some (now_text e) else None), j_owner := None,
                  j_fence := None, j_expires := None, j_retry_at := retry_at,
                  j_error_class := error_class, j_error := error, j_revision := j_revision x + 1\<rparr>)
           (jobs s)\<rparr>))
         (tx_raise_if (n \<noteq> 1) FencingErr)))"

definition terminal_provenance :: "env \<Rightarrow> bool \<Rightarrow> string \<Rightarrow> string \<Rightarrow> string option \<Rightarrow> bool \<Rightarrow> unit op" where
  "terminal_provenance e success job attempt error_class retryable =
     tx_bind (tx_get (latest_event_id attempt)) (\<lambda>parent.
     tx_bind (append_provenance
       (automatic_attempt_event e (if success then ''attempt.completed'' else ''attempt.failed'') attempt parent job
          [(''outcome'', JStr (if success then ''passed'' else ''failed'')),
           (''error_class'', jopt error_class), (''retryable'', JBool retryable)])) (\<lambda>_. tx_return ()))"

text \<open>What \<open>complete_job\<close> does once the caller is known to own the running attempt.\<close>

definition complete_owned :: "env \<Rightarrow> complete_args \<Rightarrow> job_row op" where
  "complete_owned e co =
     tx_seq (tx_seq (finish_attempt e (co_attempt co) (co_owner co) (co_fence co)
          (terminal_attempt_status (co_success co) (co_retryable co)) (co_result co) (co_artifacts co)
          (co_validation co) (co_error_class co) (co_error co))
        (finish_job e (co_job co) (co_owner co) (co_fence co)
          (terminal_job_status (co_success co) (co_retryable co)) (co_success co) (next_retry_stamp e co)
          (co_error_class co) (co_error co)))
     (tx_bind (release_reservation_tx e (co_job co) (Some (co_owner co)) (Some (co_fence co))
        (if co_retryable co then ''job_retry'' else ''job_terminal'')) (\<lambda>released.
      tx_bind (append_event_row e
         (if co_success co then ''job_completed'' else if co_retryable co then ''job_retry'' else ''job_failed'')
         None (Some (co_job co)) (Some (co_attempt co)) (Some (co_owner co)) (Some (co_fence co))
         (JObj [(''success'', JBool (co_success co)), (''retryable'', JBool (co_retryable co)),
                (''error_class'', jopt (co_error_class co)), (''retry_at_utc'', jopt (next_retry_stamp e co)),
                (''reservation_released'', JInt (int released))])) (\<lambda>_.
      tx_seq (case co_event co of
          Some v \<Rightarrow> tx_seq (tx_raise_if (str_or_empty e (dget0 v ''attempt_id'') \<noteq> co_attempt co) ProvenanceErr)
                      (tx_bind (append_provenance v) (\<lambda>_. tx_return ()))
        | None \<Rightarrow> terminal_provenance e (co_success co) (co_job co) (co_attempt co) (co_error_class co)
                    (co_retryable co))
        (refetch (find_job (co_job co))))))"

definition complete_job :: "env \<Rightarrow> complete_args \<Rightarrow> job_row op" where
  "complete_job e co =
     tx_seq (assert_lease e (co_scope co) (co_owner co) (co_fence co)) (\<lambda>s.
       case (find_job (co_job co) s, find_attempt (co_attempt co) s) of
         (Some j, Some a) \<Rightarrow>
           if a_job a \<noteq> co_job co then Inl JobTransitionErr
           else if a_status a \<noteq> ARunning then
             (if otext (a_owner a) = co_owner co \<and> int_or_zero (a_fence a) = co_fence co
              then Inr (j, s) else Inl JobTransitionErr)
           else if \<not> owns_job (co_owner co) (co_fence co) j \<or> \<not> owns_attempt (co_owner co) (co_fence co) a
           then Inl FencingErr
           else complete_owned e co s
       | _ \<Rightarrow> Inl JobTransitionErr)"

section \<open>Recovery\<close>

definition lease_lapsed :: "env \<Rightarrow> job_row \<Rightarrow> bool" where
  "lease_lapsed e j \<longleftrightarrow> j_status j = Running
     \<and> (case j_expires j of None \<Rightarrow> True | Some t \<Rightarrow> t \<le> now_text e)"

record recovery =
  rv_status :: job_status
  rv_error_class :: string
  rv_payload :: dict
  rv_event :: string

text \<open>The verdict on one expired job, from the requested status and the evidence.\<close>

definition recovery_verdict :: "bool \<Rightarrow> job_status \<Rightarrow> string \<Rightarrow> recovery" where
  "recovery_verdict strict status evidence =
     (if strict \<and> evidence \<noteq> ''dead'' then
        (let reason = (if evidence = ''alive'' then ''orphan_process_alive'' else ''recovery_liveness_unknown'')
         in \<lparr>rv_status = Blocked, rv_error_class = reason,
             rv_payload = [(''status'', JStr ''blocked''), (''requested_status'', JStr (job_status_text status)),
                           (''liveness'', JStr evidence), (''reason'', JStr reason)],
             rv_event = ''job_recovery_blocked''\<rparr>)
      else \<lparr>rv_status = status, rv_error_class = ''controller_restarted'',
            rv_payload = [(''status'', JStr (job_status_text status)), (''liveness'', JStr evidence)],
            rv_event = ''job_recovered''\<rparr>)"

definition recover_rows :: "env \<Rightarrow> recovery \<Rightarrow> string \<Rightarrow> db \<Rightarrow> db" where
  "recover_rows e rv job s =
     s\<lparr>attempts := upd_where (\<lambda>x. a_job x = job \<and> a_status x = ARunning)
         (\<lambda>x. x\<lparr>a_status := AAbandoned, a_finished := Some (now_text e),
                a_error_class := Some (case a_error_class x of None \<Rightarrow> rv_error_class rv | Some c \<Rightarrow> c),
                a_expires := None\<rparr>) (attempts s),
       jobs := upd_where (\<lambda>x. j_id x = job \<and> j_status x = Running)
         (\<lambda>x. x\<lparr>j_status := rv_status rv, j_updated := now_text e, j_owner := None, j_fence := None,
                j_expires := None, j_retry_at := None, j_error_class := Some (rv_error_class rv),
                j_error := Some (JObj (rv_payload rv)), j_revision := j_revision x + 1\<rparr>) (jobs s)\<rparr>"

definition recover_one :: "env \<Rightarrow> string \<Rightarrow> int \<Rightarrow> bool \<Rightarrow> job_status \<Rightarrow> (string \<Rightarrow> string option) \<Rightarrow> string \<Rightarrow> nat op" where
  "recover_one e owner fence strict status evidence_of job =
     (let evidence = (case evidence_of job of None \<Rightarrow> ''unknown'' | Some v \<Rightarrow> v);
          rv = recovery_verdict strict status evidence
      in tx_bind (tx_get (\<lambda>s. rowcount (\<lambda>x. j_id x = job \<and> j_status x = Running) (jobs s))) (\<lambda>n.
         tx_seq (tx_modify (recover_rows e rv job))
          (if n \<noteq> 0
           then tx_bind (release_reservation_tx e job None None ''recovery'') (\<lambda>_.
                tx_bind (append_event_row e (rv_event rv) None (Some job) None (Some owner) (Some fence)
                  (JObj (rv_payload rv))) (\<lambda>_. tx_return 1))
           else tx_return 0)))"

definition recover_expired_jobs ::
  "env \<Rightarrow> string \<Rightarrow> int \<Rightarrow> string \<Rightarrow> job_status \<Rightarrow> (string \<times> string) list \<Rightarrow> bool \<Rightarrow> nat op" where
  "recover_expired_jobs e owner fence scope status liveness strict =
     tx_seq (tx_raise_if (status \<notin> {Retry, Failed, Queued}) ValueErr)
     (tx_seq (tx_raise_if (\<not> list_all (\<lambda>(j, v). v \<in> {''dead'', ''alive'', ''unknown''}) liveness) ValueErr)
     (tx_seq (assert_lease e scope owner fence)
     (tx_bind (tx_get (\<lambda>s. map j_id (filter (lease_lapsed e) (jobs s)))) (\<lambda>ids.
      tx_bind (tx_each (recover_one e owner fence strict status (map_of liveness)) ids) (\<lambda>counts.
        tx_return (sum_list counts))))))"

section \<open>Queries\<close>

definition list_jobs :: "job_status list \<Rightarrow> db \<Rightarrow> job_row list" where
  "list_jobs statuses s =
     sort_key queue_key (filter (\<lambda>j. statuses = [] \<or> j_status j \<in> set statuses) (jobs s))"

definition list_attempts :: "string option \<Rightarrow> db \<Rightarrow> attempt_row list" where
  "list_attempts job s =
     (case job of
        None \<Rightarrow> sort_key (\<lambda>a. (a_job a, a_no a)) (attempts s)
      | Some j \<Rightarrow> sort_key a_no (filter (\<lambda>a. a_job a = j) (attempts s)))"

definition list_events :: "string option \<Rightarrow> db \<Rightarrow> event_row list" where
  "list_events job s = filter (\<lambda>r. job = None \<or> e_job r = job) (events s)"

text \<open>The earliest retry stamp that parses and lies in the future; the first of equal ones.\<close>

definition next_retry_at :: "env \<Rightarrow> string option \<Rightarrow> db \<Rightarrow> string option" where
  "next_retry_at e now s =
     (let current = (case parse_time now of None \<Rightarrow> clock_us_now e | Some t \<Rightarrow> t);
          stamps = map (\<lambda>j. otext (j_retry_at j)) (filter (\<lambda>j. j_status j = Retry \<and> j_retry_at j \<noteq> None) (jobs s));
          candidates = filter (\<lambda>t. case parse_time (Some t) of None \<Rightarrow> False | Some v \<Rightarrow> current < v) stamps
      in case sort_key (\<lambda>t. case parse_time (Some t) of None \<Rightarrow> 0 | Some v \<Rightarrow> v) candidates of
           [] \<Rightarrow> None
         | t # ts \<Rightarrow> Some t)"

definition expired_running_jobs :: "env \<Rightarrow> db \<Rightarrow> (job_row \<times> attempt_row option) list" where
  "expired_running_jobs e s =
     map (\<lambda>j. (j, let running = filter (\<lambda>a. a_status a = ARunning) (list_attempts (Some (j_id j)) s)
                  in if running = [] then None else Some (last running)))
       (sort_key queue_key (filter (lease_lapsed e) (jobs s)))"

definition list_running_attempts ::
  "string option \<Rightarrow> string option \<Rightarrow> int option \<Rightarrow> db \<Rightarrow> attempt_row list" where
  "list_running_attempts run owner fence s =
     sort_key (\<lambda>a. (a_started a, a_id a))
       (filter (\<lambda>a. a_status a = ARunning
          \<and> (case find_job (a_job a) s of None \<Rightarrow> False
             | Some j \<Rightarrow> j_status j = Running \<and> (run = None \<or> j_run j = run))
          \<and> (owner = None \<or> a_owner a = owner) \<and> (fence = None \<or> a_fence a = fence)) (attempts s))"

end
