(* ===== verification/StoreTransport.thy ===== *)
theory StoreTransport
  imports StoreCompletion
begin

text \<open>
  Transport receipts (\<open>scripts/sqlite_store.py\<close>): the reduction of a remote receipt to its
  allow-listed fields, its recording in the outbox, the binding of an outbox row to a running
  attempt, and the atomic promotion of a terminal receipt to the end of that attempt.
\<close>

definition receipt_keys :: "string list" where
  "receipt_keys =
     [''schema_version'', ''receipt_version'', ''request_id'', ''idempotency_key'', ''payload_digest'',
      ''status'', ''effect_count'', ''result_digest'', ''error_code'', ''receipt_digest'', ''observed_at'',
      ''executor'', ''executor_stage'', ''pbs_job_id'', ''run_root'', ''submission_digest'',
      ''worker_receipt_digest'', ''pbs_owner_id'', ''provider_execution'', ''network_execution'',
      ''run_id'', ''segment_id'', ''sequence'', ''manifest_digest'', ''capsule_digest'',
      ''artifact_manifest'', ''validation'']"

definition receipt_status :: "env \<Rightarrow> dict \<Rightarrow> outbox_status option" where
  "receipt_status e receipt =
     map_of [(''accepted'', OAccepted), (''completed'', OCompleted), (''failed'', OFailed)]
       (str_or_empty e (dget0 receipt ''status''))"

definition safe_receipt :: "dict \<Rightarrow> dict" where
  "safe_receipt receipt =
     concat (map (\<lambda>k. case dget receipt k of None \<Rightarrow> [] | Some v \<Rightarrow> [(k, v)]) receipt_keys)"

text \<open>\<open>_normalize_transport_receipt\<close>\<close>

definition normalize_receipt :: "env \<Rightarrow> string \<Rightarrow> dict \<Rightarrow> store_error + (outbox_status \<times> dict)" where
  "normalize_receipt e request receipt =
     (if request = [] then Inl StoreErr
      else case receipt_status e receipt of
        None \<Rightarrow> Inl StoreErr
      | Some st \<Rightarrow>
          if st = OCompleted \<and> \<not> truthy (dget0 receipt ''result_digest'') then Inl StoreErr
          else if st = OFailed \<and> \<not> truthy (dget0 receipt ''error_code'') then Inl StoreErr
          else Inr (st, safe_receipt receipt))"

definition receipt_mismatch :: "env \<Rightarrow> string \<Rightarrow> dict \<Rightarrow> dict \<Rightarrow> bool" where
  "receipt_mismatch e request safe envelope \<longleftrightarrow>
     (if truthy (dget0 safe ''request_id'') then py_str e (dget0 safe ''request_id'') else request) \<noteq> request
     \<or> dget0 safe ''payload_digest'' \<noteq> JNull
       \<and> \<not> py_eq (dget0 safe ''payload_digest'') (dget0 envelope ''payload_digest'')"

text \<open>\<open>_record_transport_receipt_tx\<close>; the flag says whether the row changed.\<close>

definition record_receipt_tx ::
  "env \<Rightarrow> string \<Rightarrow> outbox_status \<Rightarrow> dict \<Rightarrow> string \<Rightarrow> int \<Rightarrow> string \<Rightarrow> (outbox_row \<times> bool) op" where
  "record_receipt_tx e request status safe owner fence scope =
     tx_seq (assert_lease e scope owner fence)
     (tx_bind (tx_get (find_outbox request)) (\<lambda>found.
      case found of
        None \<Rightarrow> tx_raise JobTransitionErr
      | Some r \<Rightarrow>
          if receipt_mismatch e request safe (o_envelope r) then tx_raise StoreErr
          else if o_status r = OCompleted \<or> o_status r = OFailed then
            (if dict_eq (case o_receipt r of None \<Rightarrow> [] | Some d \<Rightarrow> d) safe then tx_return (r, False)
             else tx_raise JobConflictErr)
          else
            tx_seq (tx_modify (\<lambda>s. s\<lparr>outbox := upd_where (\<lambda>x. o_id x = request)
              (\<lambda>x. x\<lparr>o_status := status, o_updated := now_text e,
                     o_sent := (case o_sent x of None \<Rightarrow> Some (now_text e) | Some t \<Rightarrow> Some t),
                     o_completed := (if status = OCompleted \<or> status = OFailed then Some (now_text e)
                                     else o_completed x),
                     o_receipt := Some safe\<rparr>) (outbox s)\<rparr>))
            (tx_bind (append_event_row e ''transport_receipt'' None (o_job r) None (Some owner) (Some fence)
               (JObj [(''request_id'', JStr request), (''status'', JStr (outbox_status_text status)),
                      (''receipt_digest'', dget0 safe ''receipt_digest'')])) (\<lambda>_.
             tx_bind (refetch (find_outbox request)) (\<lambda>r'. tx_return (r', True))))))"

definition record_transport_receipt :: "env \<Rightarrow> string \<Rightarrow> dict \<Rightarrow> string \<Rightarrow> int \<Rightarrow> string \<Rightarrow> outbox_row op" where
  "record_transport_receipt e request receipt owner fence scope =
     (case normalize_receipt e request receipt of
        Inl x \<Rightarrow> tx_raise x
      | Inr (status, safe) \<Rightarrow>
          tx_bind (record_receipt_tx e request status safe owner fence scope) (\<lambda>(r, _). tx_return r))"

definition bind_transport_attempt ::
  "env \<Rightarrow> string \<Rightarrow> string \<Rightarrow> string \<Rightarrow> string \<Rightarrow> int \<Rightarrow> string \<Rightarrow> outbox_row op" where
  "bind_transport_attempt e request job attempt owner fence scope =
     tx_seq (tx_raise_if (request = [] \<or> job = [] \<or> attempt = []) ValueErr)
     (tx_seq (assert_lease e scope owner fence) (\<lambda>s.
      case find_outbox request s of
        None \<Rightarrow> Inl JobTransitionErr
      | Some r \<Rightarrow>
          if otext (o_job r) \<noteq> job then Inl JobTransitionErr
          else if otext (o_attempt r) \<noteq> [] \<and> otext (o_attempt r) \<noteq> attempt then Inl JobConflictErr
          else (case (find_job job s, find_attempt attempt s) of
            (Some j, Some a) \<Rightarrow>
              if a_job a \<noteq> job then Inl JobTransitionErr
              else if \<not> owns_job owner fence j \<or> \<not> owns_attempt owner fence a then Inl FencingErr
              else if otext (o_attempt r) \<noteq> [] then refetch (find_outbox request) s
              else tx_seq (tx_modify (\<lambda>s. s\<lparr>outbox := upd_where (\<lambda>x. o_id x = request)
                     (\<lambda>x. x\<lparr>o_attempt := Some attempt, o_updated := now_text e\<rparr>) (outbox s)\<rparr>))
                   (tx_bind (append_event_row e ''transport_attempt_bound'' None (Some job) (Some attempt)
                      (Some owner) (Some fence)
                      (JObj [(''request_id'', JStr request), (''attempt_id'', JStr attempt)])) (\<lambda>_.
                    refetch (find_outbox request))) s
          | _ \<Rightarrow> Inl JobTransitionErr)))"

section \<open>Promotion of a terminal receipt\<close>

record promotion_args =
  pa_request :: string
  pa_receipt :: dict
  pa_owner :: string
  pa_fence :: int
  pa_validation :: "dict option"
  pa_artifacts :: "json option"
  pa_result :: "json option"
  pa_error_class :: "string option"
  pa_error :: "json option"
  pa_scope :: string

record promotion =
  pr_transport :: outbox_row
  pr_job :: job_row
  pr_attempt :: attempt_row
  pr_idempotent :: bool
  pr_changed :: bool

definition promotion_evidence :: "promotion_args \<Rightarrow> bool" where
  "promotion_evidence pa \<longleftrightarrow>
     (case pa_validation pa of None \<Rightarrow> False | Some d \<Rightarrow> dget0 d ''ok'' = JBool True)
     \<and> pa_artifacts pa \<noteq> None"

definition promotion_error_class :: "bool \<Rightarrow> promotion_args \<Rightarrow> string option" where
  "promotion_error_class success pa =
     (if success then None
      else Some (if otext (pa_error_class pa) = [] then ''remote_transport_failed'' else otext (pa_error_class pa)))"

definition promotion_error :: "bool \<Rightarrow> promotion_args \<Rightarrow> dict \<Rightarrow> json option" where
  "promotion_error success pa safe =
     (if success then None
      else Some (case pa_error pa of Some v \<Rightarrow> v
        | None \<Rightarrow> JObj [(''error_code'', dget0 safe ''error_code''), (''request_id'', JStr (pa_request pa))]))"

definition promotion_result :: "promotion_args \<Rightarrow> dict \<Rightarrow> json" where
  "promotion_result pa safe =
     (case pa_result pa of Some v \<Rightarrow> v
      | None \<Rightarrow> JObj [(''transport_request_id'', JStr (pa_request pa)),
                     (''receipt_digest'', dget0 safe ''receipt_digest''),
                     (''result_digest'', dget0 safe ''result_digest''),
                     (''pbs_job_id'', dget0 safe ''pbs_job_id'')])"

definition promote_owned ::
  "env \<Rightarrow> promotion_args \<Rightarrow> bool \<Rightarrow> dict \<Rightarrow> string \<Rightarrow> string \<Rightarrow> bool \<Rightarrow> promotion op" where
  "promote_owned e pa success safe job attempt changed =
     tx_seq (tx_seq (finish_attempt e attempt (pa_owner pa) (pa_fence pa) (terminal_attempt_status success False)
        (Some (promotion_result pa safe)) (pa_artifacts pa) (map_option JObj (pa_validation pa))
        (promotion_error_class success pa) (promotion_error success pa safe))
       (finish_job e job (pa_owner pa) (pa_fence pa) (terminal_job_status success False) success None
        (promotion_error_class success pa) (promotion_error success pa safe)))
     (tx_bind (release_reservation_tx e job (Some (pa_owner pa)) (Some (pa_fence pa)) ''job_terminal'') (\<lambda>released.
      tx_bind (append_event_row e (if success then ''job_completed'' else ''job_failed'') None (Some job) (Some attempt)
         (Some (pa_owner pa)) (Some (pa_fence pa))
         (JObj [(''success'', JBool success), (''retryable'', JBool False),
                (''transport_request_id'', JStr (pa_request pa)),
                (''receipt_digest'', dget0 safe ''receipt_digest''),
                (''reservation_released'', JInt (int released))])) (\<lambda>_.
      tx_seq (terminal_provenance e success job attempt (promotion_error_class success pa) False)
      (tx_bind (refetch (find_job job)) (\<lambda>j.
       tx_bind (refetch (find_attempt attempt)) (\<lambda>a.
       tx_bind (refetch (find_outbox (pa_request pa))) (\<lambda>r.
         tx_return \<lparr>pr_transport = r, pr_job = j, pr_attempt = a, pr_idempotent = False, pr_changed = changed\<rparr>)))))))"

definition attempt_ended :: "attempt_row \<Rightarrow> bool" where
  "attempt_ended a \<longleftrightarrow> a_status a = ACompleted \<or> a_status a = AFailed \<or> a_status a = ARetry"

definition promote_bound :: "env \<Rightarrow> promotion_args \<Rightarrow> bool \<Rightarrow> dict \<Rightarrow> outbox_row \<Rightarrow> bool \<Rightarrow> promotion op" where
  "promote_bound e pa success safe r changed s =
     (if otext (o_job r) = [] \<or> otext (o_attempt r) = [] then Inl JobTransitionErr
      else case (find_job (otext (o_job r)) s, find_attempt (otext (o_attempt r)) s) of
        (Some j, Some a) \<Rightarrow>
          if a_job a \<noteq> otext (o_job r) then Inl JobTransitionErr
          else if attempt_ended a then
            (if job_status_text (j_status j) \<noteq> attempt_status_text (a_status a) then Inl JobTransitionErr
             else Inr (\<lparr>pr_transport = r, pr_job = j, pr_attempt = a, pr_idempotent = True, pr_changed = changed\<rparr>, s))
          else if \<not> owns_job (pa_owner pa) (pa_fence pa) j \<or> \<not> owns_attempt (pa_owner pa) (pa_fence pa) a
          then Inl FencingErr
          else promote_owned e pa success safe (otext (o_job r)) (otext (o_attempt r)) changed s
      | _ \<Rightarrow> Inl JobTransitionErr)"

definition record_receipt_and_complete :: "env \<Rightarrow> promotion_args \<Rightarrow> promotion op" where
  "record_receipt_and_complete e pa =
     (case normalize_receipt e (pa_request pa) (pa_receipt pa) of
        Inl x \<Rightarrow> tx_raise x
      | Inr (status, safe) \<Rightarrow>
          tx_seq (tx_raise_if (status = OAccepted) StoreErr)
          (tx_seq (tx_raise_if (status = OCompleted \<and> \<not> promotion_evidence pa) StoreErr)
          (tx_bind (record_receipt_tx e (pa_request pa) status safe (pa_owner pa) (pa_fence pa) (pa_scope pa))
             (\<lambda>(r, changed). promote_bound e pa (status = OCompleted) safe r changed))))"

definition list_transport_outbox :: "outbox_status list \<Rightarrow> string option \<Rightarrow> db \<Rightarrow> outbox_row list" where
  "list_transport_outbox statuses job s =
     sort_key (\<lambda>r. (o_created r, o_id r))
       (filter (\<lambda>r. (statuses = [] \<or> o_status r \<in> set statuses) \<and> (job = None \<or> o_job r = job)) (outbox s))"

end
