(* ===== verification/StoreSegments.thy ===== *)
theory StoreSegments
  imports StoreTransport
begin

text \<open>
  Continuous runs (\<open>scripts/sqlite_store.py\<close>): bounded segments behind the controller fence, the
  chain of checkpoints of an attempt, and cleanup intents.

  A checkpoint names the state digest of its predecessor; the chain of an attempt is the list of
  its rows by sequence. A cleanup row is always pending: no operation changes it.
\<close>

definition has_space :: "string \<Rightarrow> bool" where
  "has_space s \<longleftrightarrow> list_ex py_space s"

definition segment_id_of :: "env \<Rightarrow> string \<Rightarrow> int \<Rightarrow> string \<Rightarrow> string" where
  "segment_id_of e run sequence manifest =
     ''segment-'' @ take 32 (sha256_of e (run @ '':'' @ py_str_int sequence @ '':'' @ manifest))"

definition checkpoint_id_of :: "env \<Rightarrow> string \<Rightarrow> string \<Rightarrow> string \<Rightarrow> int \<Rightarrow> string \<Rightarrow> string" where
  "checkpoint_id_of e run job attempt sequence state =
     ''checkpoint-'' @ take 32 (sha256_of e
       (run @ '':'' @ job @ '':'' @ attempt @ '':'' @ py_str_int sequence @ '':'' @ state))"

definition find_segment :: "string \<Rightarrow> db \<Rightarrow> segment_row option" where
  "find_segment i s = List.find (\<lambda>r. s_id r = i) (segments s)"

definition segment_open :: "segment_row \<Rightarrow> bool" where
  "segment_open r \<longleftrightarrow> s_status r = SRunning \<or> s_status r = SClosing"

text \<open>\<open>ORDER BY sequence DESC LIMIT 1\<close>\<close>

definition last_segment :: "(segment_row \<Rightarrow> bool) \<Rightarrow> db \<Rightarrow> segment_row option" where
  "last_segment p s =
     (let rows = sort_key s_seq (filter p (segments s)) in if rows = [] then None else Some (last rows))"

definition active_segment :: "string \<Rightarrow> string \<Rightarrow> int \<Rightarrow> segment_row option op" where
  "active_segment run owner fence s =
     (case last_segment (\<lambda>r. s_run r = run \<and> segment_open r) s of
        None \<Rightarrow> Inr (None, s)
      | Some r \<Rightarrow> if s_owner r \<noteq> owner \<or> s_fence r \<noteq> fence then Inl FencingErr else Inr (Some r, s))"

section \<open>Segments\<close>

record segment_args =
  sa_run :: string
  sa_owner :: string
  sa_fence :: int
  sa_sequence :: "int option"
  sa_manifest :: "string option"
  sa_capsule :: "string option"
  sa_scheduler_job :: "string option"
  sa_segment :: "string option"
  sa_metadata :: dict
  sa_scope :: string

definition next_sequence :: "string \<Rightarrow> db \<Rightarrow> int" where
  "next_sequence run s = fold (\<lambda>r m. max m (s_seq r)) (filter (\<lambda>r. s_run r = run) (segments s)) 0 + 1"

text \<open>\<open>COALESCE(MAX(sequence), 0)\<close> of no rows is 0; sequences are positive.\<close>

definition insert_segment :: "segment_row \<Rightarrow> unit op" where
  "insert_segment r s =
     (if list_ex (\<lambda>x. s_id x = s_id r \<or> s_run x = s_run r \<and> s_seq x = s_seq r) (segments s)
      then Inl IntegrityErr else Inr ((), s\<lparr>segments := segments s @ [r]\<rparr>))"

definition begin_tx :: "env \<Rightarrow> segment_args \<Rightarrow> string \<Rightarrow> int \<Rightarrow> segment_row op" where
  "begin_tx e sa manifest sequence =
     tx_bind (tx_get (\<lambda>s. List.find (\<lambda>r. s_run r = sa_run sa \<and> s_seq r = sequence) (segments s))) (\<lambda>existing.
     case existing of
       Some r \<Rightarrow>
         if s_owner r = sa_owner sa \<and> s_fence r = sa_fence sa \<and> s_manifest r = manifest
            \<and> otext (s_capsule r) = otext (sa_capsule sa)
         then tx_return r else tx_raise JobConflictErr
     | None \<Rightarrow>
         tx_bind (active_segment (sa_run sa) (sa_owner sa) (sa_fence sa)) (\<lambda>active.
         tx_seq (tx_raise_if (active \<noteq> None) JobTransitionErr)
         (let i = (if otext (sa_segment sa) \<noteq> [] then otext (sa_segment sa)
                   else segment_id_of e (sa_run sa) sequence manifest)
          in tx_seq (tx_raise_if (i = [] \<or> has_space i) ValueErr)
            (tx_seq (insert_segment
               \<lparr>s_id = i, s_run = sa_run sa, s_seq = sequence, s_owner = sa_owner sa, s_fence = sa_fence sa,
                s_status = SRunning, s_started = now_text e, s_finished = None,
                s_scheduler_job = (if otext (sa_scheduler_job sa) = [] then None else sa_scheduler_job sa),
                s_manifest = manifest, s_capsule = sa_capsule sa, s_meta = sa_metadata sa\<rparr>)
            (tx_bind (append_event_row e ''segment.started'' (Some (''segment-started:'' @ i)) None None
               (Some (sa_owner sa)) (Some (sa_fence sa))
               (JObj [(''run_id'', JStr (sa_run sa)), (''segment_id'', JStr i), (''sequence'', JInt sequence),
                      (''manifest_digest'', JStr manifest), (''capsule_digest'', jopt (sa_capsule sa))])) (\<lambda>_.
             tx_bind (append_provenance (continuous_event e ''run.segment.started''
               (''sqlite:segment.started:'' @ i) (sa_run sa) None None
               [(''segment_id'', JStr i), (''sequence'', JInt sequence), (''manifest_digest'', JStr manifest),
                (''capsule_digest'', jopt (sa_capsule sa))])) (\<lambda>_.
             refetch (find_segment i))))))))"

definition begin_run_segment :: "env \<Rightarrow> segment_args \<Rightarrow> segment_row op" where
  "begin_run_segment e sa =
     tx_seq (tx_raise_if (py_blank (sa_run sa) \<or> py_blank (sa_owner sa)) ValueErr)
     (tx_seq (tx_raise_if (case sa_sequence sa of None \<Rightarrow> False | Some n \<Rightarrow> n < 1) ValueErr)
     (tx_seq (tx_raise_if (case sa_manifest sa of None \<Rightarrow> False | Some d \<Rightarrow> \<not> continuous_digest d) ValueErr)
     (tx_seq (tx_raise_if (case sa_capsule sa of None \<Rightarrow> False | Some d \<Rightarrow> \<not> continuous_digest d) ValueErr)
     (tx_seq (reject_secrets (JObj (sa_metadata sa)))
     (tx_seq (assert_lease e (sa_scope sa) (sa_owner sa) (sa_fence sa))
     (tx_bind (tx_get (\<lambda>s. case sa_sequence sa of None \<Rightarrow> next_sequence (sa_run sa) s | Some n \<Rightarrow> n)) (\<lambda>n.
       begin_tx e sa (case sa_manifest sa of None \<Rightarrow> unknown_digest | Some d \<Rightarrow> d) n)))))))"

definition finish_run_segment ::
  "env \<Rightarrow> string \<Rightarrow> string \<Rightarrow> int \<Rightarrow> string option \<Rightarrow> int option \<Rightarrow> segment_status \<Rightarrow> string option \<Rightarrow> string \<Rightarrow>
    segment_row op" where
  "finish_run_segment e run owner fence segment sequence status reason scope =
     tx_seq (tx_raise_if (status \<notin> {SFinished, SFailed, SAborted, SBlocked}) ValueErr)
     (tx_seq (assert_lease e scope owner fence)
     (tx_bind (tx_get (last_segment (\<lambda>r. s_run r = run \<and> (segment = None \<or> Some (s_id r) = segment)
         \<and> (sequence = None \<or> Some (s_seq r) = sequence)))) (\<lambda>found.
      case found of
        None \<Rightarrow> tx_raise JobTransitionErr
      | Some r \<Rightarrow>
          if s_owner r \<noteq> owner \<or> s_fence r \<noteq> fence then tx_raise FencingErr
          else if \<not> segment_open r then
            (if s_status r = status then tx_return r else tx_raise JobTransitionErr)
          else
            let p = (\<lambda>x. s_id x = s_id r \<and> s_owner x = owner \<and> s_fence x = fence \<and> segment_open x);
                why = (if otext reason = [] then JNull else jopt reason)
            in tx_bind (tx_get (\<lambda>s. rowcount p (segments s))) (\<lambda>n.
               tx_seq (tx_modify (\<lambda>s. s\<lparr>segments := upd_where p
                 (\<lambda>x. x\<lparr>s_status := status, s_finished := Some (now_text e)\<rparr>) (segments s)\<rparr>))
               (tx_seq (tx_raise_if (n \<noteq> 1) FencingErr)
               (tx_bind (append_event_row e ''segment.finished''
                  (Some (''segment-finished:'' @ s_id r @ '':'' @ segment_status_text status)) None None
                  (Some owner) (Some fence)
                  (JObj [(''run_id'', JStr run), (''segment_id'', JStr (s_id r)), (''sequence'', JInt (s_seq r)),
                         (''status'', JStr (segment_status_text status)), (''reason'', why)])) (\<lambda>_.
                tx_bind (append_provenance (continuous_event e ''run.segment.finished''
                  (''sqlite:segment.finished:'' @ s_id r @ '':'' @ segment_status_text status) run None None
                  [(''segment_id'', JStr (s_id r)), (''sequence'', JInt (s_seq r)),
                   (''status'', JStr (segment_status_text status)), (''reason'', why)])) (\<lambda>_.
                refetch (find_segment (s_id r))))))))))"

record adopt_args =
  aa_run :: string
  aa_owner :: string
  aa_fence :: int
  aa_segment :: "string option"
  aa_sequence :: "int option"
  aa_expected_owner :: "string option"
  aa_expected_fence :: "int option"
  aa_manifest :: "string option"
  aa_capsule :: "string option"
  aa_scope :: string

definition adopt_tx :: "env \<Rightarrow> adopt_args \<Rightarrow> segment_row \<Rightarrow> segment_row op" where
  "adopt_tx e aa r =
     (let p = (\<lambda>x. s_id x = s_id r \<and> s_owner x = s_owner r \<and> s_fence x = s_fence r \<and> segment_open x);
          fields = [(''segment_id'', JStr (s_id r)), (''sequence'', JInt (s_seq r)),
                    (''previous_owner_id'', JStr (s_owner r)), (''previous_fence_token'', JInt (s_fence r)),
                    (''owner_id'', JStr (aa_owner aa)), (''fence_token'', JInt (aa_fence aa))]
      in tx_bind (tx_get (\<lambda>s. rowcount p (segments s))) (\<lambda>n.
         tx_seq (tx_modify (\<lambda>s. s\<lparr>segments := upd_where p
           (\<lambda>x. x\<lparr>s_owner := aa_owner aa, s_fence := aa_fence aa\<rparr>) (segments s)\<rparr>))
         (tx_seq (tx_raise_if (n \<noteq> 1) FencingErr)
         (tx_bind (append_event_row e ''segment.adopted''
            (Some (''segment-adopted:'' @ s_id r @ '':'' @ py_str_int (aa_fence aa))) None None
            (Some (aa_owner aa)) (Some (aa_fence aa)) (JObj ((''run_id'', JStr (aa_run aa)) # fields))) (\<lambda>_.
          tx_bind (append_provenance (continuous_event e ''run.segment.adopted''
            (''sqlite:segment.adopted:'' @ s_id r @ '':'' @ py_str_int (aa_fence aa)) (aa_run aa) None None
            fields)) (\<lambda>_.
          refetch (find_segment (s_id r))))))))"

definition adopt_run_segment :: "env \<Rightarrow> adopt_args \<Rightarrow> segment_row op" where
  "adopt_run_segment e aa =
     tx_seq (tx_raise_if (py_blank (aa_run aa) \<or> py_blank (aa_owner aa)) ValueErr)
     (tx_seq (tx_raise_if (aa_segment aa = None \<and> aa_sequence aa = None) ValueErr)
     (tx_seq (tx_raise_if (case aa_manifest aa of None \<Rightarrow> False | Some d \<Rightarrow> \<not> continuous_digest d) ValueErr)
     (tx_seq (tx_raise_if (case aa_capsule aa of None \<Rightarrow> False | Some d \<Rightarrow> \<not> continuous_digest d) ValueErr)
     (tx_seq (assert_lease e (aa_scope aa) (aa_owner aa) (aa_fence aa))
     (tx_bind (tx_get (last_segment (\<lambda>r. s_run r = aa_run aa \<and> segment_open r
         \<and> (aa_segment aa = None \<or> Some (s_id r) = aa_segment aa)
         \<and> (aa_sequence aa = None \<or> Some (s_seq r) = aa_sequence aa)))) (\<lambda>found.
      case found of
        None \<Rightarrow> tx_raise JobTransitionErr
      | Some r \<Rightarrow>
          if aa_manifest aa \<noteq> None \<and> Some (s_manifest r) \<noteq> aa_manifest aa then tx_raise JobConflictErr
          else if aa_capsule aa \<noteq> None \<and> s_capsule r \<noteq> aa_capsule aa then tx_raise JobConflictErr
          else if s_owner r = aa_owner aa \<and> s_fence r = aa_fence aa then tx_return r
          else if aa_expected_owner aa \<noteq> None \<and> Some (s_owner r) \<noteq> aa_expected_owner aa then tx_raise FencingErr
          else if aa_expected_fence aa \<noteq> None \<and> Some (s_fence r) \<noteq> aa_expected_fence aa then tx_raise FencingErr
          else adopt_tx e aa r))))))"

section \<open>Checkpoints\<close>

record checkpoint_args =
  ka_run :: string
  ka_job :: string
  ka_attempt :: string
  ka_owner :: string
  ka_fence :: int
  ka_sequence :: "int option"
  ka_payload_digest :: string
  ka_state_digest :: string
  ka_artifacts :: "json option"
  ka_segment :: "string option"
  ka_previous :: "string option"
  ka_request :: "string option"
  ka_scope :: string

definition checkpoint_request :: "checkpoint_args \<Rightarrow> string" where
  "checkpoint_request ka =
     (if otext (ka_request ka) \<noteq> [] then otext (ka_request ka)
      else ''checkpoint:'' @ ka_run ka @ '':'' @ ka_attempt ka @ '':'' @ py_str_int (int_or_zero (ka_sequence ka))
             @ '':'' @ ka_state_digest ka)"

definition latest_checkpoint :: "string \<Rightarrow> db \<Rightarrow> checkpoint_row option" where
  "latest_checkpoint attempt s =
     (let rows = sort_key k_seq (filter (\<lambda>r. k_attempt r = attempt) (checkpoints s))
      in if rows = [] then None else Some (last rows))"

text \<open>The segment a checkpoint belongs to: the active one of the run, or the named one.\<close>

definition checkpoint_segment :: "checkpoint_args \<Rightarrow> string option op" where
  "checkpoint_segment ka =
     tx_bind (active_segment (ka_run ka) (ka_owner ka) (ka_fence ka)) (\<lambda>active.
      case active of
        Some r \<Rightarrow>
          if ka_segment ka \<noteq> None \<and> ka_segment ka \<noteq> Some (s_id r) then tx_raise FencingErr
          else tx_return (Some (s_id r))
      | None \<Rightarrow>
          (case ka_segment ka of
             None \<Rightarrow> tx_return None
           | Some i \<Rightarrow>
               tx_bind (tx_get (find_segment i)) (\<lambda>found.
                 case found of
                   None \<Rightarrow> tx_raise JobTransitionErr
                 | Some r \<Rightarrow>
                     if s_owner r \<noteq> ka_owner ka \<or> s_fence r \<noteq> ka_fence ka then tx_raise FencingErr
                     else if \<not> segment_open r then tx_raise JobTransitionErr
                     else tx_return (Some i))))"

text \<open>The idempotent key of a checkpoint: attempt, sequence and state digest.\<close>

definition checkpoint_replay :: "checkpoint_args \<Rightarrow> int \<Rightarrow> db \<Rightarrow> checkpoint_row option" where
  "checkpoint_replay ka n s =
     List.find (\<lambda>r. k_attempt r = ka_attempt ka \<and> k_seq r = n \<and> k_state_digest r = ka_state_digest ka)
       (checkpoints s)"

definition replay_checkpoint :: "checkpoint_args \<Rightarrow> checkpoint_row \<Rightarrow> checkpoint_row op" where
  "replay_checkpoint ka r =
     (if k_payload_digest r \<noteq> ka_payload_digest ka \<or> k_owner r \<noteq> ka_owner ka \<or> k_fence r \<noteq> ka_fence ka
      then tx_raise JobConflictErr else tx_return r)"

text \<open>The primary key and \<open>UNIQUE(attempt_id, sequence, state_digest)\<close>.\<close>

definition insert_checkpoint :: "checkpoint_row \<Rightarrow> unit op" where
  "insert_checkpoint r s =
     (if list_ex (\<lambda>x. k_id x = k_id r \<or> k_attempt x = k_attempt r \<and> k_seq x = k_seq r
           \<and> k_state_digest x = k_state_digest r) (checkpoints s)
      then Inl IntegrityErr else Inr ((), s\<lparr>checkpoints := checkpoints s @ [r]\<rparr>))"

definition find_checkpoint :: "string \<Rightarrow> db \<Rightarrow> checkpoint_row option" where
  "find_checkpoint i s = List.find (\<lambda>r. k_id r = i) (checkpoints s)"

text \<open>The checks of a new checkpoint against the latest one; the result is the predecessor digest
  to store.\<close>

definition checkpoint_link ::
  "int \<Rightarrow> string option \<Rightarrow> checkpoint_row option \<Rightarrow> store_error + string option" where
  "checkpoint_link n previous latest =
     (if n < 1 then Inl ValueErr
      else case latest of
        Some r \<Rightarrow>
          if n \<noteq> k_seq r + 1 then Inl JobTransitionErr
          else if previous \<noteq> None \<and> previous \<noteq> Some (k_state_digest r) then Inl JobConflictErr
          else Inr (Some (k_state_digest r))
      | None \<Rightarrow> if previous \<noteq> None then Inl JobConflictErr else Inr None)"

definition new_checkpoint :: "env \<Rightarrow> checkpoint_args \<Rightarrow> string option \<Rightarrow> int \<Rightarrow> string option \<Rightarrow> checkpoint_row" where
  "new_checkpoint e ka segment n previous =
     \<lparr>k_id = checkpoint_id_of e (ka_run ka) (ka_job ka) (ka_attempt ka) n (ka_state_digest ka),
      k_run = ka_run ka, k_job = ka_job ka, k_attempt = ka_attempt ka, k_seq = n,
      k_owner = ka_owner ka, k_fence = ka_fence ka, k_payload_digest = ka_payload_digest ka,
      k_state_digest = ka_state_digest ka,
      k_artifacts = (case ka_artifacts ka of None \<Rightarrow> JArr [] | Some v \<Rightarrow> v),
      k_created = now_text e, k_segment = segment, k_previous = previous,
      k_request = checkpoint_request ka\<rparr>"

definition record_checkpoint :: "env \<Rightarrow> checkpoint_args \<Rightarrow> checkpoint_row \<Rightarrow> checkpoint_row op" where
  "record_checkpoint e ka r =
     tx_bind (tx_get (checkpoint_replay ka (k_seq r))) (\<lambda>existing.
      case existing of
        Some x \<Rightarrow> replay_checkpoint ka x
      | None \<Rightarrow>
          tx_bind (tx_get (\<lambda>s. list_ex (\<lambda>x. k_attempt x = k_attempt r \<and> k_seq x = k_seq r) (checkpoints s))) (\<lambda>taken.
          tx_seq (tx_raise_if taken JobConflictErr)
          (tx_seq (insert_checkpoint r)
          (tx_bind (append_event_row e ''checkpoint.recorded'' (Some (''checkpoint-recorded:'' @ k_id r))
             (Some (k_job r)) (Some (k_attempt r)) (Some (k_owner r)) (Some (k_fence r))
             (JObj [(''run_id'', JStr (k_run r)), (''checkpoint_id'', JStr (k_id r)), (''sequence'', JInt (k_seq r)),
                    (''payload_digest'', JStr (k_payload_digest r)), (''state_digest'', JStr (k_state_digest r)),
                    (''segment_id'', jopt (k_segment r))])) (\<lambda>_.
           tx_bind (tx_get (latest_event_id (k_attempt r))) (\<lambda>parent.
           tx_bind (append_provenance (continuous_event e ''checkpoint.recorded''
             (''sqlite:checkpoint.recorded:'' @ k_id r) (k_run r) parent (Some (k_attempt r))
             [(''segment_id'', jopt (k_segment r)), (''checkpoint_id'', JStr (k_id r)), (''job_id'', JStr (k_job r)),
              (''sequence'', JInt (k_seq r)), (''payload_digest'', JStr (k_payload_digest r)),
              (''state_digest'', JStr (k_state_digest r))])) (\<lambda>_.
           refetch (find_checkpoint (k_id r)))))))))"

definition checkpoint_tx :: "env \<Rightarrow> checkpoint_args \<Rightarrow> string option \<Rightarrow> checkpoint_row op" where
  "checkpoint_tx e ka segment =
     tx_bind (tx_get (latest_checkpoint (ka_attempt ka))) (\<lambda>latest.
      let n = (case ka_sequence ka of Some n \<Rightarrow> n
               | None \<Rightarrow> (case latest of None \<Rightarrow> 1 | Some r \<Rightarrow> k_seq r + 1))
      in case checkpoint_link n (ka_previous ka) latest of
           Inl x \<Rightarrow> tx_raise x
         | Inr previous \<Rightarrow> record_checkpoint e ka (new_checkpoint e ka segment n previous))"

definition append_checkpoint :: "env \<Rightarrow> checkpoint_args \<Rightarrow> checkpoint_row op" where
  "append_checkpoint e ka =
     tx_seq (tx_raise_if (py_blank (ka_run ka) \<or> py_blank (ka_job ka) \<or> py_blank (ka_attempt ka)) ValueErr)
     (tx_seq (tx_raise_if (\<not> continuous_digest (ka_payload_digest ka)) ValueErr)
     (tx_seq (tx_raise_if (\<not> continuous_digest (ka_state_digest ka)) ValueErr)
     (tx_seq (tx_raise_if (case ka_previous ka of None \<Rightarrow> False | Some d \<Rightarrow> \<not> continuous_digest d) ValueErr)
     (tx_seq (reject_secrets (case ka_artifacts ka of None \<Rightarrow> JArr [] | Some v \<Rightarrow> v))
     (tx_seq (tx_raise_if (py_blank (checkpoint_request ka) \<or> has_space (checkpoint_request ka)) ValueErr)
     (tx_seq (assert_lease e (ka_scope ka) (ka_owner ka) (ka_fence ka))
     (tx_bind (checkpoint_segment ka) (\<lambda>segment.
      tx_bind (tx_get (\<lambda>s. List.find (\<lambda>a. a_id a = ka_attempt ka \<and> a_job a = ka_job ka) (attempts s))) (\<lambda>found.
      tx_seq (tx_raise_if (found = None) JobTransitionErr)
      (tx_bind (tx_get (\<lambda>s. case ka_sequence ka of None \<Rightarrow> None | Some n \<Rightarrow> checkpoint_replay ka n s)) (\<lambda>replayed.
       case replayed of
         Some x \<Rightarrow> replay_checkpoint ka x
       | None \<Rightarrow> checkpoint_tx e ka segment)))))))))))"

section \<open>Cleanup intents\<close>

record cleanup_args =
  la_run :: string
  la_owner :: string
  la_fence :: int
  la_path_digest :: string
  la_action :: string
  la_attempt :: "string option"
  la_segment :: "string option"
  la_request :: "string option"
  la_payload :: dict
  la_scope :: string

text \<open>\<open>[a-z0-9._:-]{1,128}\<close>\<close>

definition action_char :: "char \<Rightarrow> bool" where
  "action_char c \<longleftrightarrow> (CHR ''a'' \<le> c \<and> c \<le> CHR ''z'') \<or> is_digit c \<or> c \<in> set ''._:-''"

definition cleanup_action :: "string \<Rightarrow> bool" where
  "cleanup_action a \<longleftrightarrow> 1 \<le> length a \<and> length a \<le> 128 \<and> list_all action_char a"

definition nonempty_opt :: "string option \<Rightarrow> string option" where
  "nonempty_opt z = (if otext z = [] then None else z)"

definition cleanup_request :: "cleanup_args \<Rightarrow> string" where
  "cleanup_request la =
     (if otext (la_request la) \<noteq> [] then otext (la_request la)
      else ''cleanup:'' @ la_run la @ '':'' @ la_path_digest la @ '':'' @ la_action la)"

definition new_cleanup :: "env \<Rightarrow> cleanup_args \<Rightarrow> cleanup_row" where
  "new_cleanup e la =
     \<lparr>c_id = ''cleanup-'' @ take 32 (sha256_of e (cleanup_request la)), c_request = cleanup_request la,
      c_run = la_run la, c_segment = nonempty_opt (la_segment la), c_attempt = nonempty_opt (la_attempt la),
      c_owner = la_owner la, c_fence = la_fence la, c_path_digest = la_path_digest la,
      c_action = la_action la, c_created = now_text e, c_payload = la_payload la\<rparr>"

definition insert_cleanup :: "cleanup_row \<Rightarrow> unit op" where
  "insert_cleanup r s =
     (if list_ex (\<lambda>x. c_id x = c_id r \<or> c_request x = c_request r) (cleanups s)
      then Inl IntegrityErr else Inr ((), s\<lparr>cleanups := cleanups s @ [r]\<rparr>))"

definition record_cleanup_intent :: "env \<Rightarrow> cleanup_args \<Rightarrow> cleanup_row op" where
  "record_cleanup_intent e la =
     tx_seq (tx_raise_if (\<not> continuous_digest (la_path_digest la)) ValueErr)
     (tx_seq (tx_raise_if (\<not> cleanup_action (la_action la)) ValueErr)
     (tx_seq (reject_secrets (JObj (la_payload la)))
     (tx_seq (assert_lease e (la_scope la) (la_owner la) (la_fence la))
     (tx_bind (tx_get (\<lambda>s. List.find (\<lambda>x. c_request x = cleanup_request la) (cleanups s))) (\<lambda>existing.
      case existing of
        Some x \<Rightarrow>
          if c_path_digest x \<noteq> la_path_digest la \<or> c_action x \<noteq> la_action la then tx_raise JobConflictErr
          else tx_return x
      | None \<Rightarrow>
          let r = new_cleanup e la
          in tx_seq (insert_cleanup r)
            (tx_bind (append_event_row e ''cleanup.intent'' (Some (''cleanup-intent:'' @ c_id r)) None None
               (Some (c_owner r)) (Some (c_fence r))
               (JObj [(''run_id'', JStr (c_run r)), (''cleanup_intent_id'', JStr (c_id r)),
                      (''path_digest'', JStr (c_path_digest r)), (''action'', JStr (c_action r)),
                      (''segment_id'', jopt (c_segment r)), (''attempt_id'', jopt (c_attempt r))])) (\<lambda>_.
             tx_bind (append_provenance (continuous_event e ''cleanup.intent''
               (''sqlite:cleanup.intent:'' @ c_request r) (c_run r) None (c_attempt r)
               [(''segment_id'', jopt (c_segment r)), (''cleanup_intent_id'', JStr (c_id r)),
                (''path_digest'', JStr (c_path_digest r)), (''action'', JStr (c_action r))])) (\<lambda>_.
             refetch (\<lambda>s. List.find (\<lambda>x. c_id x = c_id r) (cleanups s))))))))))"

section \<open>Queries\<close>

definition list_run_segments :: "string option \<Rightarrow> db \<Rightarrow> segment_row list" where
  "list_run_segments run s =
     (case run of None \<Rightarrow> sort_key (\<lambda>r. (s_run r, s_seq r)) (segments s)
      | Some i \<Rightarrow> sort_key s_seq (filter (\<lambda>r. s_run r = i) (segments s)))"

definition list_checkpoints :: "string option \<Rightarrow> string option \<Rightarrow> db \<Rightarrow> checkpoint_row list" where
  "list_checkpoints run attempt s =
     sort_key (\<lambda>r. (k_run r, k_attempt r, k_seq r))
       (filter (\<lambda>r. (run = None \<or> Some (k_run r) = run) \<and> (attempt = None \<or> Some (k_attempt r) = attempt))
          (checkpoints s))"

definition list_cleanup_intents :: "string option \<Rightarrow> string list \<Rightarrow> db \<Rightarrow> cleanup_row list" where
  "list_cleanup_intents run statuses s =
     sort_key (\<lambda>r. (c_created r, c_id r))
       (filter (\<lambda>r. (run = None \<or> Some (c_run r) = run) \<and> (statuses = [] \<or> ''pending'' \<in> set statuses))
          (cleanups s))"

end
