(* ===== verification/StoreWrites.thy ===== *)
theory StoreWrites
  imports StoreSegments
begin

text \<open>
  The store as an abstract machine over its tables. \<open>db_write\<close> lists the atomic writes the
  operations are made of, each with the condition its \<open>WHERE\<close> clause, its constraint or the code
  before it establishes; the writes of an attempt and of its job that belong together are one
  write. Every operation of the store is a sequence of such writes (\<open>..._writes\<close>), so an invariant
  of the store is an invariant of \<open>db_write\<close>.

  A write that adds a job or changes a job's status, or that brings in an attempt, is labelled with
  the \<open>change\<close> it makes, and \<open>db_write ord\<close> makes only changes that \<open>ord\<close> allows. So the lemmas say of
  each operation not only that it is a sequence of writes but which changes it can make, to which
  job and under which token. \<open>tidy\<close> describes the orderly machine: it never creates or imports a job or
  an attempt that is already running, and never reconciles an imported attempt. The public
  operations allow both.
\<close>

datatype change =
    Adds string job_status
  | Imports attempt_status
  | Reconciles
  | Requeues string
  | Claims string string int
  | Ends string string int job_status
  | Recovers string job_status

definition unrestricted :: "change \<Rightarrow> bool" where
  "unrestricted ch = True"

fun tidy :: "change \<Rightarrow> bool" where
  "tidy (Adds i st) = (st \<noteq> Running)"
| "tidy (Imports st) = (st \<noteq> ARunning)"
| "tidy Reconciles = False"
| "tidy _ = True"

definition outbox_terminal :: "outbox_row \<Rightarrow> bool" where
  "outbox_terminal r \<longleftrightarrow> o_status r = OCompleted \<or> o_status r = OFailed"

definition receipt_update :: "env \<Rightarrow> outbox_status \<Rightarrow> dict \<Rightarrow> outbox_row \<Rightarrow> outbox_row" where
  "receipt_update e status safe x =
     x\<lparr>o_status := status, o_updated := now_text e,
       o_sent := (case o_sent x of None \<Rightarrow> Some (now_text e) | Some t \<Rightarrow> Some t),
       o_completed := (if status = OCompleted \<or> status = OFailed then Some (now_text e) else o_completed x),
       o_receipt := Some safe\<rparr>"

text \<open>The attempt and the job named in one request, both running under the caller's token.\<close>

definition owned_pair :: "string \<Rightarrow> string \<Rightarrow> string \<Rightarrow> int \<Rightarrow> db \<Rightarrow> bool" where
  "owned_pair job attempt owner fence s \<longleftrightarrow>
     (\<exists>j a. find_job job s = Some j \<and> find_attempt attempt s = Some a \<and> a_job a = job
        \<and> owns_job owner fence j \<and> owns_attempt owner fence a)"

definition claim_writes :: "env \<Rightarrow> job_row \<Rightarrow> string \<Rightarrow> string \<Rightarrow> int \<Rightarrow> rat \<Rightarrow> db \<Rightarrow> db" where
  "claim_writes e j attempt owner fence ttl s =
     s\<lparr>jobs := upd_where (\<lambda>x. j_id x = j_id j \<and> claimable_row e x) (claim_update e j owner fence ttl) (jobs s),
       attempts := attempts s @ [claim_attempt_row e j attempt owner fence ttl]\<rparr>"

inductive db_write :: "(change \<Rightarrow> bool) \<Rightarrow> db \<Rightarrow> db \<Rightarrow> bool" for ord where
  drew: "db_write ord s (s\<lparr>drawn := n\<rparr>)"
| logged: "e_id r \<notin> e_id ` set (events s) \<Longrightarrow> db_write ord s (s\<lparr>events := events s @ [r]\<rparr>)"
| proved: "fits attempt_col (provenance s) r \<Longrightarrow> \<not> has_secret (JObj r) \<Longrightarrow>
    db_write ord s (s\<lparr>provenance := provenance s @ [r]\<rparr>)"
| leased: "lease_step s (s\<lparr>leases := ls\<rparr>) \<Longrightarrow> db_write ord s (s\<lparr>leases := ls\<rparr>)"
| governed: "db_write ord s (s\<lparr>governor := g\<rparr>)"
| reserved_row: "find_active (r_job r) (r_scope r) s = None \<Longrightarrow> find_reservation (r_id r) s = None \<Longrightarrow>
    db_write ord s (s\<lparr>reservations := reservations s @ [r]\<rparr>)"
| reservations_kept: "(\<And>x. r_id (f x) = r_id x \<and> r_job (f x) = r_job x \<and> r_scope (f x) = r_scope x) \<Longrightarrow>
    (\<And>x. p x \<Longrightarrow> r_status (f x) = RActive \<Longrightarrow> r_status x = RActive) \<Longrightarrow>
    db_write ord s (s\<lparr>reservations := upd_where p f (reservations s)\<rparr>)"
| enqueued: "find_outbox (o_id r) s = None \<Longrightarrow> o_status r = OPending \<Longrightarrow>
    db_write ord s (s\<lparr>outbox := outbox s @ [r]\<rparr>)"
| receipted: "find_outbox i s = Some r \<Longrightarrow> \<not> outbox_terminal r \<Longrightarrow>
    db_write ord s (s\<lparr>outbox := upd_where (\<lambda>x. o_id x = i) (receipt_update e status safe) (outbox s)\<rparr>)"
| bound: "find_outbox i s = Some r \<Longrightarrow> otext (o_attempt r) = [] \<Longrightarrow>
    db_write ord s (s\<lparr>outbox := upd_where (\<lambda>x. o_id x = i)
      (\<lambda>x. x\<lparr>o_attempt := Some a, o_updated := t\<rparr>) (outbox s)\<rparr>)"
| job_added: "find_job (j_id j) s = None \<Longrightarrow> j_attempts j = 0 \<Longrightarrow> ord (Adds (j_id j) (j_status j)) \<Longrightarrow>
    db_write ord s (s\<lparr>jobs := jobs s @ [j]\<rparr>)"
| requeued: "ord (Requeues i) \<Longrightarrow> db_write ord s (s\<lparr>jobs := upd_where (\<lambda>x. j_id x = i \<and> requeueable (j_status x))
      (\<lambda>x. x\<lparr>j_status := Queued, j_priority := pr, j_payload := pl, j_updated := t, j_completed := None,
             j_owner := None, j_fence := None, j_expires := None, j_retry_at := None,
             j_error_class := None, j_error := None, j_revision := j_revision x + 1\<rparr>) (jobs s)\<rparr>)"
| attempt_imported: "\<not> attempt_clash a s \<Longrightarrow> find_job (a_job a) s \<noteq> None \<Longrightarrow> ord (Imports (a_status a)) \<Longrightarrow>
    db_write ord s (s\<lparr>attempts := attempts s @ [a]\<rparr>)"
| attempt_reconciled: "ord Reconciles \<Longrightarrow> st = AAbandoned \<or> st = AReview \<Longrightarrow>
    db_write ord s (s\<lparr>attempts := upd_where (\<lambda>x. a_id x = i \<and> (a_status x = AReview \<or> a_status x = ARunning))
      (\<lambda>x. x\<lparr>a_status := st\<rparr>) (attempts s)\<rparr>)"
| claimed: "rowcount (\<lambda>x. j_id x = j_id j \<and> claimable_row e x) (jobs s) = 1 \<Longrightarrow>
    \<not> attempt_clash (claim_attempt_row e j attempt owner fence ttl) s \<Longrightarrow> ord (Claims (j_id j) owner fence) \<Longrightarrow>
    db_write ord s (claim_writes e j attempt owner fence ttl s)"
| beaten: "db_write ord s (s\<lparr>jobs := upd_where (\<lambda>x. j_id x = job \<and> j_status x = Running
          \<and> j_owner x = Some owner \<and> j_fence x = Some fence)
        (\<lambda>x. x\<lparr>j_expires := ex, j_updated := t\<rparr>) (jobs s),
      attempts := upd_where (\<lambda>x. a_id x = attempt \<and> a_status x = ARunning
          \<and> a_owner x = Some owner \<and> a_fence x = Some fence)
        (\<lambda>x. x\<lparr>a_expires := ex\<rparr>) (attempts s)\<rparr>)"
| ended: "owned_pair job attempt owner fence s \<Longrightarrow>
    rowcount (\<lambda>x. j_id x = job \<and> j_status x = Running \<and> j_owner x = Some owner \<and> j_fence x = Some fence) (jobs s) = 1 \<Longrightarrow>
    ord (Ends job owner fence (terminal_job_status success retryable)) \<Longrightarrow>
    db_write ord s (s\<lparr>attempts := upd_where
        (\<lambda>x. a_id x = attempt \<and> a_status x = ARunning \<and> a_owner x = Some owner \<and> a_fence x = Some fence)
        (\<lambda>x. x\<lparr>a_status := terminal_attempt_status success retryable, a_finished := Some t, a_result := re,
               a_artifacts := ar, a_validation := va, a_error_class := ec, a_error := er,
               a_expires := None\<rparr>) (attempts s),
      jobs := upd_where (\<lambda>x. j_id x = job \<and> j_status x = Running \<and> j_owner x = Some owner \<and> j_fence x = Some fence)
        (\<lambda>x. x\<lparr>j_status := terminal_job_status success retryable, j_updated := t,
               j_completed := co, j_owner := None, j_fence := None, j_expires := None,
               j_retry_at := ra, j_error_class := ec, j_error := er, j_revision := j_revision x + 1\<rparr>)
        (jobs s)\<rparr>)"
| recovered: "rv_status rv \<in> {Retry, Failed, Queued, Blocked} \<Longrightarrow> ord (Recovers job (rv_status rv)) \<Longrightarrow>
    db_write ord s (recover_rows e rv job s)"
| segment_opened: "(\<And>x. x \<in> set (segments s) \<Longrightarrow> s_run x = s_run r \<Longrightarrow> \<not> segment_open x \<and> s_seq x \<noteq> s_seq r) \<Longrightarrow>
    s_id r \<notin> s_id ` set (segments s) \<Longrightarrow> db_write ord s (s\<lparr>segments := segments s @ [r]\<rparr>)"
| segment_closed: "st \<notin> {SRunning, SClosing} \<Longrightarrow>
    db_write ord s (s\<lparr>segments := upd_where (\<lambda>x. s_id x = i \<and> s_owner x = ow \<and> s_fence x = fe \<and> segment_open x)
      (\<lambda>x. x\<lparr>s_status := st, s_finished := Some t\<rparr>) (segments s)\<rparr>)"
| segment_adopted: "db_write ord s (s\<lparr>segments :=
      upd_where (\<lambda>x. s_id x = i \<and> s_owner x = ow \<and> s_fence x = fe \<and> segment_open x)
      (\<lambda>x. x\<lparr>s_owner := ow', s_fence := fe'\<rparr>) (segments s)\<rparr>)"
| checkpointed: "checkpoint_link (k_seq r) previous (latest_checkpoint (k_attempt r) s) = Inr (k_previous r) \<Longrightarrow>
    (\<And>x. x \<in> set (checkpoints s) \<Longrightarrow> k_id x \<noteq> k_id r \<and> \<not> (k_attempt x = k_attempt r \<and> k_seq x = k_seq r)) \<Longrightarrow>
    db_write ord s (s\<lparr>checkpoints := checkpoints s @ [r]\<rparr>)"
| cleanup_added: "(\<And>x. x \<in> set (cleanups s) \<Longrightarrow> c_id x \<noteq> c_id r \<and> c_request x \<noteq> c_request r) \<Longrightarrow>
    db_write ord s (s\<lparr>cleanups := cleanups s @ [r]\<rparr>)"

text \<open>A machine that allows more makes every write of one that allows less.\<close>

lemma db_write_mono: "db_write ord s s' \<Longrightarrow> (\<And>ch. ord ch \<Longrightarrow> ord' ch) \<Longrightarrow> db_write ord' s s'"
  by (induction rule: db_write.induct) (auto intro: db_write.intros)

lemma writes_mono: "(db_write ord)\<^sup>*\<^sup>* s s' \<Longrightarrow> (\<And>ch. ord ch \<Longrightarrow> ord' ch) \<Longrightarrow> (db_write ord')\<^sup>*\<^sup>* s s'"
  by (induction rule: rtranclp_induct) (auto intro: rtranclp.rtrancl_into_rtrancl db_write_mono)

section \<open>Primitives\<close>

lemma new_id_writes [tx_rels]: "tx_rel (db_write ord) (new_id e p)"
  by (rule new_id_rel) (rule drew)

lemma event_writes [tx_rels]:
  "tx_rel (db_write ord) (append_event_row e etype eid job attempt owner fence payload)"
  by (rule append_event_row_rel) (auto intro: db_write.intros)

lemma provenance_writes [tx_rels]: "tx_rel (db_write ord) (append_provenance r)"
  by (rule append_provenance_rel) (rule proved)

lemma tx_rel_bind_post:
  "tx_rel R m \<Longrightarrow> (\<And>x s s'. m s = Inr (x, s') \<Longrightarrow> tx_at R (f x) s') \<Longrightarrow> tx_rel R (tx_bind m f)"
  unfolding tx_rel_def tx_at_def tx_bind_Inr by (meson rtranclp_trans)

lemma tx_at_bind_post:
  "tx_at R m s \<Longrightarrow> (\<And>x s'. m s = Inr (x, s') \<Longrightarrow> tx_at R (f x) s') \<Longrightarrow> tx_at R (tx_bind m f) s"
  unfolding tx_at_def tx_bind_Inr by (meson rtranclp_trans)

lemma tx_at_refetch: "f s = Some r \<Longrightarrow> tx_at R (k r) s \<Longrightarrow> tx_at R (tx_bind (refetch f) k) s"
  by (auto simp: tx_at_def tx_bind_Inr)

lemma optional_writes [tx_rels]: "(\<And>x. tx_rel R (f x)) \<Longrightarrow> tx_rel R (run_optional f z)"
  unfolding run_optional_def by (intro tx_rels)

lemma reservations_writes:
  assumes "s' = s\<lparr>reservations := upd_where p f (reservations s)\<rparr>"
    and "\<And>x. r_id (f x) = r_id x \<and> r_job (f x) = r_job x \<and> r_scope (f x) = r_scope x"
    and "\<And>x. p x \<Longrightarrow> r_status (f x) = RActive \<Longrightarrow> r_status x = RActive"
  shows "(db_write ord)\<^sup>*\<^sup>* s s'"
  unfolding assms(1) by (rule r_into_rtranclp) (rule reservations_kept, (rule assms)+)

lemma release_tx_writes [tx_rels]: "tx_rel (db_write ord) (release_reservation_tx e job owner fence reason)"
proof (rule tx_relI)
  fix s x s'
  assume "release_reservation_tx e job owner fence reason s = Inr (x, s')"
  then have "s' = s\<lparr>reservations := upd_where (releasable job owner fence)
          (\<lambda>r. r\<lparr>r_status := RReleased, r_updated := now_text e, r_expires := now_text e,
                 r_reason := Some reason\<rparr>) (reservations s)\<rparr>"
    by (simp add: release_reservation_tx_def)
  then show "(db_write ord)\<^sup>*\<^sup>* s s'"
    by (rule reservations_writes) simp_all
qed

section \<open>Leases\<close>

lemma acquire_writes: "tx_rel (db_write ord) (acquire_lease e owner scope ttl meta)"
proof (rule tx_relI)
  fix s x s'
  assume a: "acquire_lease e owner scope ttl meta s = Inr (x, s')"
  then obtain ls where "s' = s\<lparr>leases := ls\<rparr>"
    unfolding acquire_lease_def by (auto simp: Let_def split: option.splits if_splits)
  with acquired [OF a] show "(db_write ord)\<^sup>*\<^sup>* s s'"
    by (auto intro: leased)
qed

lemma heartbeat_writes: "tx_rel (db_write ord) (heartbeat_lease e owner fence scope ttl)"
proof (rule tx_relI)
  fix s x s'
  assume a: "heartbeat_lease e owner fence scope ttl s = Inr (x, s')"
  then obtain ls where "s' = s\<lparr>leases := ls\<rparr>"
    unfolding heartbeat_lease_def by (auto simp: tx_results)
  with lease_step.beaten [OF a] show "(db_write ord)\<^sup>*\<^sup>* s s'"
    by (auto intro: leased)
qed

lemma release_writes: "tx_rel (db_write ord) (release_lease e owner fence scope)"
proof (rule tx_relI)
  fix s x s'
  assume a: "release_lease e owner fence scope s = Inr (x, s')"
  then obtain ls where "s' = s\<lparr>leases := ls\<rparr>"
    unfolding release_lease_def by (auto split: option.splits if_splits)
  with released [OF a] show "(db_write ord)\<^sup>*\<^sup>* s s'"
    by (auto intro: leased)
qed

lemma heartbeat_job_writes: "tx_rel (db_write ord) (heartbeat_job_lease e job attempt owner fence ttl scope)"
proof (rule tx_relI)
  fix s x s'
  assume "heartbeat_job_lease e job attempt owner fence ttl scope s = Inr (x, s')"
  then have s': "s' = (s\<lparr>jobs := upd_where (\<lambda>x. j_id x = job \<and> j_status x = Running
                           \<and> j_owner x = Some owner \<and> j_fence x = Some fence)
                         (\<lambda>x. x\<lparr>j_expires := Some (expiry_text e ttl), j_updated := now_text e\<rparr>) (jobs s),
                   attempts := upd_where (\<lambda>x. a_id x = attempt \<and> a_status x = ARunning
                           \<and> a_owner x = Some owner \<and> a_fence x = Some fence)
                         (\<lambda>x. x\<lparr>a_expires := Some (expiry_text e ttl)\<rparr>) (attempts s)\<rparr>)
              \<lparr>reservations := upd_where (\<lambda>x. r_job x = job \<and> r_scope x = scope
                           \<and> r_status x = RActive \<and> r_owner x = owner \<and> r_fence x = fence)
                         (\<lambda>x. x\<lparr>r_updated := now_text e, r_expires := expiry_text e ttl\<rparr>) (reservations s)\<rparr>"
      (is "s' = ?s1\<lparr>reservations := ?rs\<rparr>")
    unfolding heartbeat_job_lease_def
    by (auto simp: tx_results Let_def split: option.splits if_splits)
  have "(db_write ord)\<^sup>*\<^sup>* ?s1 s'"
    by (rule reservations_writes [where p = "\<lambda>x. r_job x = job \<and> r_scope x = scope
        \<and> r_status x = RActive \<and> r_owner x = owner \<and> r_fence x = fence"
      and f = "\<lambda>x. x\<lparr>r_updated := now_text e, r_expires := expiry_text e ttl\<rparr>"])
      (simp_all add: s')
  moreover have "db_write ord s ?s1"
    by (rule beaten)
  ultimately show "(db_write ord)\<^sup>*\<^sup>* s s'"
    by (rule converse_rtranclp_into_rtranclp [rotated])
qed

section \<open>Reservations and the governor\<close>

lemma reserve_tx_writes: "tx_rel (db_write ord) (reserve_tx e ra rid request admission capacity)"
proof (rule tx_relI)
  fix s r s'
  assume a: "reserve_tx e ra rid request admission capacity s = Inr (r, s')"
  have ex: "(db_write ord)\<^sup>*\<^sup>* s (expire_reservations e s)"
    by (rule reservations_writes [OF expire_reservations_def]) simp_all
  from a show "(db_write ord)\<^sup>*\<^sup>* s s'"
  proof (cases rule: reserve_tx_cases)
    case existing
    with ex show ?thesis by simp
  next
    case (inserted cv adm)
    let ?s = "expire_reservations e s"
    note eff = insert_reservation_effect [OF inserted(5)]
    have "db_write ord ?s (?s\<lparr>reservations := reservations ?s @ [r]\<rparr>)"
      by (rule reserved_row) (use inserted(1) eff in simp_all)
    moreover have "(db_write ord)\<^sup>*\<^sup>* (?s\<lparr>reservations := reservations ?s @ [r]\<rparr>) s'"
    proof -
      let ?rest = "tx_bind (append_event_row e ''reservation_created'' None (Some (ra_job ra)) None
          (Some (ra_owner ra)) (Some (ra_fence ra))
          (JObj [(''reservation_id'', JStr rid), (''resource_request'', JObj (name_request cv request)),
                 (''admission'', JObj adm)])) (\<lambda>_.
        tx_seq (case ra_event ra of None \<Rightarrow> tx_return () | Some v \<Rightarrow> tx_bind (append_provenance v) (\<lambda>_. tx_return ()))
          (refetch (find_reservation rid)))"
      have "?rest (?s\<lparr>reservations := reservations ?s @ [r]\<rparr>) = Inr (r, s')"
        using inserted(5) eff(2,3)
        by (simp add: insert_reservation_def tx_seq_def [of "\<lambda>s. if _ s then _ s else _ s"] tx_bind_def [of "\<lambda>s. if _ s then _ s else _ s"])
      moreover have "tx_rel (db_write ord) ?rest"
        by (intro tx_rels)
      ultimately show ?thesis by (blast dest: tx_relD)
    qed
    ultimately show ?thesis using ex by (meson rtranclp.rtrancl_into_rtrancl rtranclp_trans)
  qed
qed

lemma token_writes [tx_rels]: "tx_rel (db_write ord) (reservation_token e ra)"
  unfolding reservation_token_def by (intro tx_rels)

lemma reserve_writes: "tx_rel (db_write ord) (reserve_resources e ra)"
  unfolding reserve_resources_def by (intro tx_rels reserve_tx_writes)

lemma heartbeat_reservation_writes: "tx_rel (db_write ord) (heartbeat_reservation e job owner fence ttl scope)"
proof (rule tx_relI)
  fix s x s'
  assume "heartbeat_reservation e job owner fence ttl scope s = Inr (x, s')"
  then have "\<exists>i. s' = s\<lparr>reservations := upd_where (\<lambda>x. r_id x = i \<and> r_status x = RActive)
      (\<lambda>x. x\<lparr>r_updated := now_text e, r_expires := expiry_text e ttl\<rparr>) (reservations s)\<rparr>"
    unfolding heartbeat_reservation_def by (auto simp: tx_results split: option.splits if_splits)
  then obtain i where "s' = s\<lparr>reservations := upd_where (\<lambda>x. r_id x = i \<and> r_status x = RActive)
      (\<lambda>x. x\<lparr>r_updated := now_text e, r_expires := expiry_text e ttl\<rparr>) (reservations s)\<rparr>"
    by blast
  then show "(db_write ord)\<^sup>*\<^sup>* s s'"
    by (rule reservations_writes) simp_all
qed

lemma release_reservation_writes: "tx_rel (db_write ord) (release_reservation e job owner fence reason scope)"
  unfolding release_reservation_def by (intro tx_rels)

lemma put_governor_writes: "tx_rel (db_write ord) (put_governor_tx e state policy observed scope owner fence)"
  unfolding put_governor_tx_def
proof (intro tx_rels)
  let ?log = "\<lambda>row. tx_seq (case owner of None \<Rightarrow> tx_return ()
                  | Some ow \<Rightarrow> tx_bind (append_event_row e ''governor_state_updated'' None None None owner fence
                      (JObj [(''scope'', JStr scope), (''effective_tier'', dget0 state ''effective_tier''),
                             (''observed_tier'', dget0 state ''observed_tier'')])) (\<lambda>_. tx_return ()))
                  (refetch (\<lambda>s. List.find (\<lambda>g. g_scope g = scope) (governor s)))"
  have "tx_rel (db_write ord) (?log row)" for row
    by (intro tx_rels)
  then have log: "(db_write ord)\<^sup>*\<^sup>* s s'" if "?log row (s\<lparr>governor := g\<rparr>) = Inr (x, s')" for row g s x s'
    using that governed by (metis (no_types, lifting) converse_rtranclp_into_rtranclp tx_relD)
  show "tx_rel (db_write ord) (\<lambda>s. let found = List.find (\<lambda>g. g_scope g = scope) (governor s);
           same = (case found of None \<Rightarrow> False
             | Some g \<Rightarrow> dict_eq (g_state g) state \<and> dict_eq (g_policy g) policy \<and> g_observed g = observed
                 \<and> g_owner g = owner
                 \<and> (case fence of None \<Rightarrow> g_fence g = None | Some f \<Rightarrow> int_or_zero (g_fence g) = f))
       in case (found, same) of
            (Some g, True) \<Rightarrow> Inr (g, s)
          | _ \<Rightarrow>
            (let row = \<lparr>g_scope = scope, g_state = state, g_policy = policy, g_observed = observed,
                        g_updated = now_text e, g_owner = owner, g_fence = fence\<rparr>;
                 s1 = s\<lparr>governor := (if found = None then governor s @ [row]
                                     else upd_where (\<lambda>g. g_scope g = scope) (\<lambda>_. row) (governor s))\<rparr>
             in ?log row s1))"
    by (rule tx_relI) (auto simp: Let_def split: option.splits bool.splits if_splits intro: log)
qed

section \<open>Jobs\<close>

lemma enqueue_writes [tx_rels]: "tx_rel (db_write ord) (enqueue_transport e v owner fence job attempt)"
proof (rule tx_relI)
  fix s x s'
  let ?log = "\<lambda>c. tx_bind (append_event_row e ''transport_enqueued'' None job None (Some owner) (Some fence)
                 (JObj [(''request_id'', JStr (jtxt (dget0 c ''request_id''))), (''target_id'', dget0 c ''target_id''),
                        (''operation'', dget0 c ''operation''), (''payload_digest'', dget0 c ''payload_digest'')]))
                 (\<lambda>_. refetch (find_outbox (jtxt (dget0 c ''request_id''))))"
  assume a: "enqueue_transport e v owner fence job attempt s = Inr (x, s')"
  show "(db_write ord)\<^sup>*\<^sup>* s s'"
  proof (cases "s' = s")
    case False
    with a obtain c r where n: "find_outbox (o_id r) s = None" "o_status r = OPending"
        and l: "?log c (s\<lparr>outbox := outbox s @ [r]\<rparr>) = Inr (x, s')"
      unfolding enqueue_transport_def by (force simp: Let_def split: option.splits if_splits)
    have "tx_rel (db_write ord) (?log c)" by (intro tx_rels)
    from tx_relD [OF this l] enqueued [OF n] show ?thesis
      by (rule converse_rtranclp_into_rtranclp [rotated])
  qed simp
qed

lemma create_transport_writes [tx_rels]: "tx_rel (db_write ord) (create_transport e ca)"
  unfolding create_transport_def by (intro tx_rels)

lemma create_job_writes:
  assumes "ord (Adds (ca_job ca) (ca_status ca))"
  shows "tx_rel (db_write ord) (create_job e ca)"
proof -
  let ?j = "new_job_row (ca_job ca) (ca_run ca) (ca_task ca) (ca_status ca) (ca_priority ca)
              (ca_payload ca) (now_text e)"
  have add: "tx_at (db_write ord) (tx_modify (\<lambda>s. s\<lparr>jobs := jobs s @ [?j]\<rparr>)) s"
    if "find_job (ca_job ca) s = None" for s
    by (rule tx_at_modify, rule job_added) (use assms that in \<open>simp_all add: new_job_row_def\<close>)
  show ?thesis
    unfolding create_job_def
    by (intro tx_rel_seq tx_rel_basic fence_pair_rel, rule tx_rel_pointwise, rule tx_at_get,
        split option.split, intro conjI impI allI)
      (rule tx_at_seq [OF add], assumption, intro tx_rels, rule tx_rel_at, intro tx_rels)
qed

lemma requeue_writes:
  "ord (Requeues job) \<Longrightarrow> tx_rel (db_write ord) (requeue_job e job owner fence payload priority reason scope)"
  unfolding requeue_job_def by (intro tx_rels requeued)

lemma insert_attempt_writes:
  assumes "ord (Imports (a_status a))" and "find_job (a_job a) s \<noteq> None"
  shows "tx_at (db_write ord) (insert_attempt a) s"
  using assms by (auto simp: tx_at_def insert_attempt_def intro!: attempt_imported)

lemma import_job_writes:
  assumes "ord (Adds (ia_job ia) (ia_status ia))"
  shows "tx_rel (db_write ord) (import_job_row e ia observed)"
proof -
  let ?j = "new_job_row (ia_job ia) (ia_run ia) (ia_task ia) (ia_status ia) 0 (ia_payload ia) observed"
  have add: "tx_at (db_write ord) (tx_modify (\<lambda>s. s\<lparr>jobs := jobs s @ [?j]\<rparr>)) s"
    if "find_job (ia_job ia) s = None" for s
    by (rule tx_at_modify, rule job_added) (use assms that in \<open>simp_all add: new_job_row_def\<close>)
  show ?thesis
    unfolding import_job_row_def
    by (rule tx_rel_pointwise, rule tx_at_get, split option.split, intro conjI impI allI)
      (rule tx_at_seq [OF add], assumption, rule tx_rel_basic, rule tx_rel_at, intro tx_rels)
qed

lemma import_job_found:
  "import_job_row e ia observed s = Inr (b, s') \<Longrightarrow> find_job (ia_job ia) s' \<noteq> None"
  by (auto simp: import_job_row_def tx_results find_job_def find_snoc new_job_row_def
      split: option.splits if_splits)

lemma import_attempt_writes:
  assumes "ord (Imports (ia_attempt_status ia))" and "find_job (ia_job ia) s \<noteq> None"
  shows "tx_at (db_write ord) (import_attempt_row e ia observed) s"
  unfolding import_attempt_row_def
  by (rule tx_at_get, split option.split, intro conjI impI allI)
    (rule tx_at_seq, rule insert_attempt_writes, use assms in \<open>simp_all add: tx_rel_at tx_rel_if\<close>)

lemma import_reconciliation_writes:
  assumes "ord Reconciles" shows "tx_rel (db_write ord) (import_reconciliation e ia imported child)"
  unfolding import_reconciliation_def
  by (intro tx_rels attempt_reconciled) (use assms in auto)

lemma import_writes:
  assumes "ord (Adds (ia_job ia) (ia_status ia))" "ord (Imports (ia_attempt_status ia))"
    and "ia_reconciliation ia \<noteq> None \<Longrightarrow> ord Reconciles"
  shows "tx_rel (db_write ord) (import_legacy_job e ia)"
proof -
  have rec: "tx_rel (db_write ord) (run_optional (import_reconciliation e ia imported) (ia_reconciliation ia))" for imported
    using assms by (auto simp: run_optional_def split: option.split
        intro!: tx_rel_bind import_reconciliation_writes)
  have rows: "tx_rel (db_write ord) (tx_bind (import_job_row e ia observed) (\<lambda>had_job. tx_bind (import_attempt_row e ia observed) (f had_job)))"
    if "\<And>had_job had_attempt. tx_rel (db_write ord) (f had_job had_attempt)" for f :: "_ \<Rightarrow> _ \<Rightarrow> 'a op" and observed
    using assms by (intro tx_rel_bind_post import_job_writes)
      (auto intro!: tx_at_bind import_attempt_writes that dest: import_job_found)
  show ?thesis
    unfolding import_legacy_job_def
    by (intro tx_rel_seq tx_rel_let tx_rel_basic reject_secrets_rel assert_lease_rel rows)
      (intro tx_rel_bind tx_rel_seq tx_rel_basic event_writes provenance_writes rec refetch_rel)
qed

section \<open>Claims\<close>

lemma claim_provenance_writes [tx_rels]: "tx_rel (db_write ord) (claim_provenance e job attempt n scope)"
  unfolding claim_provenance_def by (intro tx_rels)

text \<open>The update of the job and the new attempt are one write.\<close>

lemma claim_pair_writes:
  assumes "rowcount (\<lambda>x. j_id x = j_id j \<and> claimable_row e x) (jobs s) = 1" and "tx_rel (db_write ord) n"
    and "ord (Claims (j_id j) owner fence)"
  shows "tx_at (db_write ord)
    (tx_seq (tx_modify (\<lambda>s. s\<lparr>jobs := upd_where (\<lambda>x. j_id x = j_id j \<and> claimable_row e x)
                (claim_update e j owner fence ttl) (jobs s)\<rparr>))
       (tx_seq (insert_attempt (claim_attempt_row e j attempt owner fence ttl)) n)) s"
  unfolding tx_at_def
proof (intro allI impI)
  fix x s'
  assume "tx_seq (tx_modify (\<lambda>s. s\<lparr>jobs := upd_where (\<lambda>x. j_id x = j_id j \<and> claimable_row e x)
                (claim_update e j owner fence ttl) (jobs s)\<rparr>))
       (tx_seq (insert_attempt (claim_attempt_row e j attempt owner fence ttl)) n) s = Inr (x, s')"
  then have "\<not> attempt_clash (claim_attempt_row e j attempt owner fence ttl) s"
      and n: "n (claim_writes e j attempt owner fence ttl s) = Inr (x, s')"
    by (auto simp: tx_results insert_attempt_def attempt_clash_def claim_writes_def split: if_splits)
  with assms(1,3) have "db_write ord s (claim_writes e j attempt owner fence ttl s)"
    by (intro claimed)
  then show "(db_write ord)\<^sup>*\<^sup>* s s'"
    using tx_relD [OF assms(2) n] by (rule converse_rtranclp_into_rtranclp)
qed

lemma claim_row_writes:
  assumes "j_status j \<noteq> Running" and "ord (Claims (j_id j) owner fence)"
  shows "tx_rel (db_write ord) (claim_row e j owner fence ttl scope event)"
  unfolding claim_row_def
  by (rule tx_rel_bind [OF new_id_writes], rule tx_rel_seq)
    (simp add: assms, rule tx_rel_pointwise, rule tx_at_get, rule tx_at_guard, rule claim_pair_writes,
      simp, intro tx_rels, rule assms(2))

lemma runnable_not_running: "runnable e j \<Longrightarrow> j_status j \<noteq> Running"
  by (auto simp: runnable_def)

lemma claimable_not_running: "claimable_row e j \<Longrightarrow> j_status j \<noteq> Running"
  by (auto simp: claimable_row_def)

lemma found_job_id: "find_job i s = Some j \<Longrightarrow> j_id j = i"
  by (auto simp: find_job_def dest: find_Some_D)

lemma claim_found_writes:
  assumes "find_job job s = Some j" and "runnable e j" and "ord (Claims job owner fence)"
  shows "tx_rel (db_write ord) (claim_row e j owner fence ttl scope event)"
  using assms(2,3) found_job_id [OF assms(1)] by (intro claim_row_writes runnable_not_running) simp_all

lemma claim_job_writes:
  assumes "ord (Claims job owner fence)"
  shows "tx_rel (db_write ord) (claim_job e job owner fence ttl scope require event)"
  unfolding claim_job_def
  by (intro tx_rel_seq assert_lease_rel, rule tx_rel_pointwise, rule tx_at_get, split option.split,
      intro conjI impI allI, rule tx_rel_at, intro tx_rels, rule tx_rel_at)
    (intro tx_rels claim_found_writes, use assms in simp_all)

lemma claim_candidates_claimable:
  "j \<in> set (claim_candidates e owner fence limit scope require s) \<Longrightarrow> claimable_row e j \<and> j \<in> set (jobs s)"
  by (auto simp: claim_candidates_def dest!: in_set_takeD)

lemma claim_jobs_writes:
  assumes "\<And>i. ord (Claims i owner fence)"
  shows "tx_rel (db_write ord) (claim_jobs e owner fence max_jobs ttl scope require event_of)"
  unfolding claim_jobs_def
  by (intro tx_rel_seq tx_rel_basic assert_lease_rel tx_rel_bind_get tx_rel_each claim_row_writes)
    (auto simp: assms dest!: claim_candidates_claimable claimable_not_running)

lemma claim_next_writes:
  "(\<And>i. ord (Claims i owner fence)) \<Longrightarrow> tx_rel (db_write ord) (claim_next_job e owner fence ttl scope require)"
  unfolding claim_next_job_def by (intro tx_rels claim_jobs_writes)

lemma insert_reservation_jobs: "tx_frame jobs (insert_reservation e ra rid request admission)"
  unfolding insert_reservation_def
proof (rule tx_rel_seq)
  show "tx_frame jobs (tx_bind (append_event_row e ''reservation_created'' None (Some (ra_job ra)) None
          (Some (ra_owner ra)) (Some (ra_fence ra))
          (JObj [(''reservation_id'', JStr rid), (''resource_request'', JObj request),
                 (''admission'', JObj admission)])) (\<lambda>_.
      tx_seq (case ra_event ra of None \<Rightarrow> tx_return () | Some v \<Rightarrow> tx_bind (append_provenance v) (\<lambda>_. tx_return ()))
        (refetch (find_reservation rid))))"
    by (intro tx_rels append_event_row_rel append_provenance_rel) simp_all
qed (auto intro!: tx_frameI split: if_splits)

lemma reserve_tx_jobs:
  "reserve_tx e ra rid request admission capacity s = Inr (r, s') \<Longrightarrow> jobs s' = jobs s"
  by (erule reserve_tx_cases)
    (auto simp: expire_reservations_def dest: tx_frameD [OF insert_reservation_jobs])

lemma reserve_and_claim_writes:
  assumes "ord (Claims (ra_job ra) (ra_owner ra) (ra_fence ra))"
  shows "tx_rel (db_write ord) (reserve_and_claim e ra ga)"
proof -
  have claim: "tx_at (db_write ord) (tx_bind (refetch (find_job (ra_job ra))) (\<lambda>j'.
                 tx_bind (tx_get (reservation_is_claimable e j' (ra_owner ra) (ra_fence ra) (ra_scope ra) True)) (\<lambda>ok.
                 tx_seq (tx_raise_if (\<not> ok) ReservationAdmissionErr)
                 (tx_bind (claim_row e j' (ra_owner ra) (ra_fence ra) (ra_ttl ra) (ra_scope ra) None) (g r))))) s"
    if "find_job (ra_job ra) s = Some j" "runnable e j" "\<And>r x. tx_rel (db_write ord) (g r x)"
    for s j g and r :: reservation_row
    using that assms by (intro tx_at_refetch tx_rel_at) (assumption, intro tx_rels claim_found_writes)
  have body: "tx_at (db_write ord) (tx_bind (reserve_tx e ra rid request admission capacity) (\<lambda>reservation.
                 tx_bind (refetch (find_job (ra_job ra))) (\<lambda>j'.
                 tx_bind (tx_get (reservation_is_claimable e j' (ra_owner ra) (ra_fence ra) (ra_scope ra) True)) (\<lambda>ok.
                 tx_seq (tx_raise_if (\<not> ok) ReservationAdmissionErr)
                 (tx_bind (claim_row e j' (ra_owner ra) (ra_fence ra) (ra_ttl ra) (ra_scope ra) None) (g reservation)))))) s"
    if "find_job (ra_job ra) s = Some j" "runnable e j" "\<And>r x. tx_rel (db_write ord) (g r x)"
    for s j g rid request admission capacity
    using reserve_tx_writes that
    by (intro tx_at_bind_post claim) (auto simp: find_job_def tx_rel_at dest: reserve_tx_jobs)
  show ?thesis
    unfolding reserve_and_claim_def
    by (intro tx_rel_sum tx_rel_prod tx_rel_bind [OF token_writes] tx_rel_seq tx_rel_basic assert_lease_rel)
      (rule tx_rel_pointwise, rule tx_at_get, split option.split, intro conjI impI allI, simp,
        split if_split, intro conjI impI, simp, rule body, assumption, simp, intro tx_rels put_governor_writes)
qed

section \<open>Completion and recovery\<close>

lemma end_pair_writes:
  assumes "owned_pair job attempt owner fence s"
    and "ord (Ends job owner fence (terminal_job_status success retryable))"
  shows "tx_at (db_write ord)
    (tx_seq (finish_attempt e attempt owner fence (terminal_attempt_status success retryable) re ar va ec er)
       (finish_job e job owner fence (terminal_job_status success retryable) success ra ec er)) s"
  using ended [of job attempt owner fence s ord success retryable, OF assms(1) _ assms(2), where t = "now_text e" and ra = ra
      and co = "if success then Some (now_text e) else None"]
  by (auto simp: tx_at_def finish_attempt_def finish_job_def Let_def tx_results)

lemma terminal_provenance_writes [tx_rels]:
  "tx_rel (db_write ord) (terminal_provenance e success job attempt ec retryable)"
  unfolding terminal_provenance_def by (intro tx_rels)

lemma complete_writes:
  assumes "ord (Ends (co_job co) (co_owner co) (co_fence co) (terminal_job_status (co_success co) (co_retryable co)))"
  shows "tx_rel (db_write ord) (complete_job e co)"
proof -
  have owned: "(db_write ord)\<^sup>*\<^sup>* s s'"
    if "owned_pair (co_job co) (co_attempt co) (co_owner co) (co_fence co) s" "complete_owned e co s = Inr (x, s')"
    for s x s'
  proof -
    have "tx_at (db_write ord) (complete_owned e co) s"
      unfolding complete_owned_def by (rule tx_at_seq [OF end_pair_writes [where ord = ord, OF that(1) assms]]) (intro tx_rels)
    with that(2) show ?thesis by (simp add: tx_at_def)
  qed
  show ?thesis
    unfolding complete_job_def
    by (intro tx_rel_seq assert_lease_rel tx_relI)
      (auto simp: owned_pair_def intro!: owned split: option.splits if_splits)
qed

text \<open>The status that a recovery gives a job, from the liveness evidence on it.\<close>

definition recovered_status :: "bool \<Rightarrow> job_status \<Rightarrow> (string \<Rightarrow> string option) \<Rightarrow> string \<Rightarrow> job_status" where
  "recovered_status strict status evidence_of job =
     (if strict \<and> evidence_of job \<noteq> Some ''dead'' then Blocked else status)"

lemma recovered_status_verdict:
  "rv_status (recovery_verdict strict status (case evidence_of job of None \<Rightarrow> ''unknown'' | Some v \<Rightarrow> v))
     = recovered_status strict status evidence_of job"
  by (auto simp: recovery_verdict_def recovered_status_def Let_def split: option.split)

lemma recover_one_writes:
  assumes "status \<in> {Retry, Failed, Queued}"
    and "ord (Recovers job (recovered_status strict status evidence_of job))"
  shows "tx_rel (db_write ord) (recover_one e owner fence strict status evidence_of job)"
  unfolding recover_one_def
  by (intro tx_rels recovered)
    (use assms in \<open>auto simp: recovered_status_verdict recovered_status_def\<close>)

lemma recover_writes:
  assumes "\<And>job. ord (Recovers job (recovered_status strict status (map_of liveness) job))"
  shows "tx_rel (db_write ord) (recover_expired_jobs e owner fence scope status liveness strict)"
proof (cases "status \<in> {Retry, Failed, Queued}")
  case True
  then show ?thesis
    unfolding recover_expired_jobs_def by (intro tx_rels tx_rel_each recover_one_writes assms)
next
  case False
  then show ?thesis
    by (intro tx_relI) (auto simp: recover_expired_jobs_def tx_results)
qed

section \<open>Transport\<close>

lemma record_receipt_writes [tx_rels]:
  "tx_rel (db_write ord) (record_receipt_tx e request status safe owner fence scope)"
proof -
  have upd: "tx_at (db_write ord) (tx_modify (\<lambda>s. s\<lparr>outbox := upd_where (\<lambda>x. o_id x = request)
              (\<lambda>x. x\<lparr>o_status := status, o_updated := now_text e,
                     o_sent := (case o_sent x of None \<Rightarrow> Some (now_text e) | Some t \<Rightarrow> Some t),
                     o_completed := (if status = OCompleted \<or> status = OFailed then Some (now_text e)
                                     else o_completed x),
                     o_receipt := Some safe\<rparr>) (outbox s)\<rparr>)) s"
    if "find_outbox request s = Some r" "\<not> (o_status r = OCompleted \<or> o_status r = OFailed)" for s r
    using receipted [OF that(1), of ord e status safe] that(2)
    by (intro tx_at_modify) (simp add: receipt_update_def [abs_def] outbox_terminal_def)
  show ?thesis
    unfolding record_receipt_tx_def
    by (intro tx_rel_seq assert_lease_rel, rule tx_rel_pointwise, rule tx_at_get, split option.split,
        intro conjI impI allI, simp, split if_split, intro conjI impI, simp, split if_split, intro conjI impI)
      (rule tx_rel_at, intro tx_rels, rule tx_at_seq [OF upd], assumption, assumption, intro tx_rels)
qed

lemma record_transport_writes: "tx_rel (db_write ord) (record_transport_receipt e request receipt owner fence scope)"
  unfolding record_transport_receipt_def by (intro tx_rels)

lemma bind_writes: "tx_rel (db_write ord) (bind_transport_attempt e request job attempt owner fence scope)"
proof -
  let ?log = "tx_bind (append_event_row e ''transport_attempt_bound'' None (Some job) (Some attempt)
                      (Some owner) (Some fence)
                      (JObj [(''request_id'', JStr request), (''attempt_id'', JStr attempt)])) (\<lambda>_.
                    refetch (find_outbox request))"
  have upd: "(db_write ord)\<^sup>*\<^sup>* s s'"
    if "find_outbox request s = Some r" "otext (o_attempt r) = []"
      and l: "?log (s\<lparr>outbox := upd_where (\<lambda>x. o_id x = request)
                     (\<lambda>x. x\<lparr>o_attempt := Some attempt, o_updated := now_text e\<rparr>) (outbox s)\<rparr>) = Inr (x, s')"
    for s r x s'
  proof -
    have "tx_rel (db_write ord) ?log" by (intro tx_rels)
    from bound [OF that(1,2)] tx_relD [OF this l] show ?thesis
      by (rule converse_rtranclp_into_rtranclp)
  qed
  show ?thesis
    unfolding bind_transport_attempt_def
    by (intro tx_rel_seq tx_rel_basic assert_lease_rel tx_relI)
      (auto split: option.splits if_splits intro: upd)
qed

lemma promote_writes:
  assumes "\<And>job. ord (Ends job (pa_owner pa) (pa_fence pa) (terminal_job_status success False))"
  shows "tx_rel (db_write ord) (promote_bound e pa success safe r changed)"
proof (rule tx_relI)
  fix s x s'
  assume a: "promote_bound e pa success safe r changed s = Inr (x, s')"
  have owned: "(db_write ord)\<^sup>*\<^sup>* s s'"
    if "owned_pair job attempt (pa_owner pa) (pa_fence pa) s"
      "promote_owned e pa success safe job attempt changed s = Inr (x, s')" for job attempt
  proof -
    have "tx_at (db_write ord) (promote_owned e pa success safe job attempt changed) s"
      unfolding promote_owned_def by (rule tx_at_seq [OF end_pair_writes [where ord = ord, OF that(1) assms]]) (intro tx_rels)
    with that(2) show ?thesis by (simp add: tx_at_def)
  qed
  from a show "(db_write ord)\<^sup>*\<^sup>* s s'"
    unfolding promote_bound_def
    by (auto simp: owned_pair_def intro!: owned split: option.splits if_splits)
qed

lemma record_and_complete_writes:
  assumes "\<And>job st. st = Completed \<or> st = Failed \<Longrightarrow> ord (Ends job (pa_owner pa) (pa_fence pa) st)"
  shows "tx_rel (db_write ord) (record_receipt_and_complete e pa)"
  unfolding record_receipt_and_complete_def
  by (intro tx_rels promote_writes assms) (simp add: terminal_job_status_def)

section \<open>Segments, checkpoints and cleanup\<close>

lemma active_segment_writes [tx_rels, simp]: "tx_rel R (active_segment run owner fence)"
  by (rule tx_relI) (auto simp: active_segment_def split: option.splits if_splits)

lemma sort_key_Nil: "sort_key f xs = [] \<longleftrightarrow> xs = []"
  by (metis length_0_conv length_sort)

lemma active_segment_none:
  "active_segment run owner fence s = Inr (None, s') \<Longrightarrow> s' = s \<and>
    (\<forall>x \<in> set (segments s). s_run x = run \<longrightarrow> \<not> segment_open x)"
  by (auto simp: active_segment_def last_segment_def Let_def sort_key_Nil filter_empty_conv
      split: option.splits if_splits)

lemma insert_segment_writes:
  assumes "\<forall>x \<in> set (segments s). s_run x = s_run r \<longrightarrow> \<not> segment_open x"
  shows "tx_at (db_write ord) (insert_segment r) s"
  unfolding tx_at_def
proof (intro allI impI)
  fix x s'
  assume "insert_segment r s = Inr (x, s')"
  then have s': "s' = s\<lparr>segments := segments s @ [r]\<rparr>"
      and new: "\<forall>x \<in> set (segments s). s_id x \<noteq> s_id r \<and> \<not> (s_run x = s_run r \<and> s_seq x = s_seq r)"
    by (auto simp: insert_segment_def list_ex_iff split: if_splits)
  have "db_write ord s (s\<lparr>segments := segments s @ [r]\<rparr>)"
    using assms new by (intro segment_opened) auto
  then show "(db_write ord)\<^sup>*\<^sup>* s s'" by (simp add: s')
qed

lemma begin_writes: "tx_rel (db_write ord) (begin_tx e sa manifest n)"
  unfolding begin_tx_def Let_def
  by (rule tx_rel_pointwise, rule tx_at_get, split option.split, intro conjI impI allI,
      rule tx_at_bind_post [OF tx_rel_at [OF active_segment_writes]], rule tx_at_guard, rule tx_at_guard,
      rule tx_at_seq [OF insert_segment_writes])
    (use active_segment_none in force, intro tx_rels, rule tx_rel_at, intro tx_rels)

lemma begin_segment_writes: "tx_rel (db_write ord) (begin_run_segment e sa)"
  unfolding begin_run_segment_def by (intro tx_rels begin_writes)

lemma finish_segment_writes:
  "tx_rel (db_write ord) (finish_run_segment e run owner fence segment n status reason scope)"
proof (cases "status \<in> {SFinished, SFailed, SAborted, SBlocked}")
  case True
  then show ?thesis
    unfolding finish_run_segment_def by (intro tx_rels segment_closed) auto
next
  case False
  then show ?thesis
    by (intro tx_relI) (auto simp: finish_run_segment_def tx_results)
qed

lemma adopt_writes: "tx_rel (db_write ord) (adopt_run_segment e aa)"
  unfolding adopt_run_segment_def adopt_tx_def by (intro tx_rels segment_adopted)

lemma checkpoint_segment_writes [tx_rels, simp]: "tx_rel R (checkpoint_segment ka)"
  unfolding checkpoint_segment_def by (intro tx_rels)

lemma replay_writes [tx_rels, simp]: "tx_rel R (replay_checkpoint ka r)"
  by (simp add: replay_checkpoint_def)

lemma record_checkpoint_writes:
  assumes "checkpoint_link (k_seq r) previous (latest_checkpoint (k_attempt r) s) = Inr (k_previous r)"
  shows "tx_at (db_write ord) (record_checkpoint e ka r) s"
proof -
  have ins: "tx_at (db_write ord) (insert_checkpoint r) s"
    if "\<not> list_ex (\<lambda>x. k_attempt x = k_attempt r \<and> k_seq x = k_seq r) (checkpoints s)"
    using that checkpointed [OF assms, of ord] by (auto simp: tx_at_def insert_checkpoint_def list_ex_iff)
  show ?thesis
    unfolding record_checkpoint_def
    by (rule tx_at_get, split option.split, intro conjI impI allI)
      (rule tx_at_get, rule tx_at_guard, rule tx_at_seq [OF ins], assumption, intro tx_rels, rule tx_rel_at, simp)
qed

lemma checkpoint_writes: "tx_rel (db_write ord) (append_checkpoint e ka)"
proof -
  have "tx_rel (db_write ord) (checkpoint_tx e ka segment)" for segment
    unfolding checkpoint_tx_def Let_def
    by (rule tx_rel_pointwise, rule tx_at_get, split sum.split, intro conjI impI allI, simp,
        rule record_checkpoint_writes)
      (simp add: new_checkpoint_def)
  then show ?thesis
    unfolding append_checkpoint_def by (intro tx_rels)
qed

lemma cleanup_writes: "tx_rel (db_write ord) (record_cleanup_intent e la)"
proof -
  have "tx_rel (db_write ord) (insert_cleanup r)" for r
    by (rule tx_relI) (auto simp: insert_cleanup_def list_ex_iff intro!: cleanup_added split: if_splits)
  then show ?thesis
    unfolding record_cleanup_intent_def by (intro tx_rels)
qed

lemma append_event_writes: "tx_rel (db_write ord) (append_event e scope etype eid job attempt owner fence payload)"
  unfolding append_event_def by (intro tx_rels)

lemma append_provenance_event_writes: "tx_rel (db_write ord) (append_provenance_event e scope owner fence r)"
  unfolding append_provenance_event_def by (intro tx_rels)

end
