(* ===== verification/StoreMachine.thy ===== *)
theory StoreMachine
  imports StoreWrites
begin

text \<open>
  The store as its clients see it: every public mutating operation is a command, a run of commands
  (each in the environment it ran in, so with its own clock and fresh identifiers) is a history,
  and a command that raises leaves the database as it was. The theory proves what no history can
  break.
\<close>

section \<open>Commands\<close>

datatype command =
    AcquireLease string string rat dict
  | HeartbeatLease string int string rat
  | ReleaseLease string int string
  | HeartbeatJob string string string int rat string
  | Reserve reserve_args
  | ReserveAndClaim reserve_args governor_args
  | HeartbeatReservation string string int rat string
  | ReleaseReservation string string int string string
  | PutGovernor dict dict "string option" string "string option" "int option"
  | CreateJob create_args
  | RequeueJob string string int "dict option" "int option" string string
  | ImportLegacy import_args
  | RecordReceipt string dict string int string
  | BindTransport string string string string int string
  | RecordAndComplete promotion_args
  | ClaimJob string string int rat string bool "dict option"
  | ClaimNext string int rat string bool
  | ClaimJobs string int int rat string bool "(string \<times> dict) list"
  | CompleteJob complete_args
  | Recover string int string job_status "(string \<times> string) list" bool
  | BeginSegment segment_args
  | Checkpoint checkpoint_args
  | FinishSegment string string int "string option" "int option" segment_status "string option" string
  | AdoptSegment adopt_args
  | Cleanup cleanup_args
  | AppendEvent string string "string option" "string option" "string option" "string option" "int option" json
  | AppendProvenance string "string option" "int option" dict

definition discard :: "'a op \<Rightarrow> unit op" where
  "discard m = tx_bind m (\<lambda>_. tx_return ())"

fun run_command :: "env \<Rightarrow> command \<Rightarrow> unit op" where
  "run_command e (AcquireLease owner scope ttl meta) = discard (acquire_lease e owner scope ttl meta)"
| "run_command e (HeartbeatLease owner fence scope ttl) = discard (heartbeat_lease e owner fence scope ttl)"
| "run_command e (ReleaseLease owner fence scope) = discard (release_lease e owner fence scope)"
| "run_command e (HeartbeatJob job attempt owner fence ttl scope) =
     discard (heartbeat_job_lease e job attempt owner fence ttl scope)"
| "run_command e (Reserve ra) = discard (reserve_resources e ra)"
| "run_command e (ReserveAndClaim ra ga) = discard (reserve_and_claim e ra ga)"
| "run_command e (HeartbeatReservation job owner fence ttl scope) =
     discard (heartbeat_reservation e job owner fence ttl scope)"
| "run_command e (ReleaseReservation job owner fence reason scope) =
     discard (release_reservation e job owner fence reason scope)"
| "run_command e (PutGovernor state policy observed scope owner fence) =
     discard (put_governor_state e state policy observed scope owner fence)"
| "run_command e (CreateJob ca) = discard (create_job e ca)"
| "run_command e (RequeueJob job owner fence payload priority reason scope) =
     discard (requeue_job e job owner fence payload priority reason scope)"
| "run_command e (ImportLegacy ia) = discard (import_legacy_job e ia)"
| "run_command e (RecordReceipt request receipt owner fence scope) =
     discard (record_transport_receipt e request receipt owner fence scope)"
| "run_command e (BindTransport request job attempt owner fence scope) =
     discard (bind_transport_attempt e request job attempt owner fence scope)"
| "run_command e (RecordAndComplete pa) = discard (record_receipt_and_complete e pa)"
| "run_command e (ClaimJob job owner fence ttl scope require event) =
     discard (claim_job e job owner fence ttl scope require event)"
| "run_command e (ClaimNext owner fence ttl scope require) = discard (claim_next_job e owner fence ttl scope require)"
| "run_command e (ClaimJobs owner fence n ttl scope require evs) =
     discard (claim_jobs e owner fence n ttl scope require (map_of evs))"
| "run_command e (CompleteJob co) = discard (complete_job e co)"
| "run_command e (Recover owner fence scope status liveness strict) =
     discard (recover_expired_jobs e owner fence scope status liveness strict)"
| "run_command e (BeginSegment sa) = discard (begin_run_segment e sa)"
| "run_command e (Checkpoint ka) = discard (append_checkpoint e ka)"
| "run_command e (FinishSegment run owner fence segment n status reason scope) =
     discard (finish_run_segment e run owner fence segment n status reason scope)"
| "run_command e (AdoptSegment aa) = discard (adopt_run_segment e aa)"
| "run_command e (Cleanup la) = discard (record_cleanup_intent e la)"
| "run_command e (AppendEvent scope etype eid job attempt owner fence payload) =
     discard (append_event e scope etype eid job attempt owner fence payload)"
| "run_command e (AppendProvenance scope owner fence r) = discard (append_provenance_event e scope owner fence r)"

text \<open>The changes that a command may make: of which job, to which status and under which token.\<close>

fun permitted :: "command \<Rightarrow> change \<Rightarrow> bool" where
  "permitted (CreateJob ca) ch = (ch = Adds (ca_job ca) (ca_status ca))"
| "permitted (RequeueJob job owner fence payload priority reason scope) ch = (ch = Requeues job)"
| "permitted (ImportLegacy ia) ch =
     (ch = Adds (ia_job ia) (ia_status ia) \<or> ch = Imports (ia_attempt_status ia)
      \<or> ch = Reconciles \<and> ia_reconciliation ia \<noteq> None)"
| "permitted (ReserveAndClaim ra ga) ch = (ch = Claims (ra_job ra) (ra_owner ra) (ra_fence ra))"
| "permitted (ClaimJob job owner fence ttl scope require event) ch = (ch = Claims job owner fence)"
| "permitted (ClaimNext owner fence ttl scope require) ch =
     (case ch of Claims i ow f \<Rightarrow> ow = owner \<and> f = fence | _ \<Rightarrow> False)"
| "permitted (ClaimJobs owner fence n ttl scope require evs) ch =
     (case ch of Claims i ow f \<Rightarrow> ow = owner \<and> f = fence | _ \<Rightarrow> False)"
| "permitted (CompleteJob co) ch =
     (ch = Ends (co_job co) (co_owner co) (co_fence co)
             (if co_success co then Completed else if co_retryable co then Retry else Failed))"
| "permitted (RecordAndComplete pa) ch =
     (case ch of Ends i ow f st \<Rightarrow> ow = pa_owner pa \<and> f = pa_fence pa \<and> (st = Completed \<or> st = Failed) | _ \<Rightarrow> False)"
| "permitted (Recover owner fence scope status liveness strict) ch =
     (case ch of Recovers i st \<Rightarrow> st = recovered_status strict status (map_of liveness) i | _ \<Rightarrow> False)"
| "permitted _ ch = False"

text \<open>The commands of the orderly machine.\<close>

fun orderly :: "command \<Rightarrow> bool" where
  "orderly (CreateJob ca) = (ca_status ca \<noteq> Running)"
| "orderly (ImportLegacy ia) =
     (ia_status ia \<noteq> Running \<and> ia_attempt_status ia \<noteq> ARunning \<and> ia_reconciliation ia = None)"
| "orderly _ = True"

fun run_history :: "(env \<times> command) list \<Rightarrow> db \<Rightarrow> db" where
  "run_history [] s = s"
| "run_history ((e, c) # h) s = run_history h (tx_state (run_command e c) s)"

lemma discard_rel [tx_rels]: "tx_rel R m \<Longrightarrow> tx_rel R (discard m)"
  unfolding discard_def by (intro tx_rels)

lemmas operation_writes =
  acquire_writes heartbeat_writes release_writes heartbeat_job_writes reserve_writes
  reserve_and_claim_writes heartbeat_reservation_writes release_reservation_writes put_governor_writes
  create_job_writes requeue_writes import_writes record_transport_writes bind_writes
  record_and_complete_writes claim_job_writes claim_next_writes claim_jobs_writes complete_writes
  recover_writes begin_segment_writes checkpoint_writes finish_segment_writes adopt_writes cleanup_writes
  append_event_writes append_provenance_event_writes

text \<open>A command makes the changes it may make and no other.\<close>

lemma command_writes: "tx_rel (db_write (permitted c)) (run_command e c)"
  by (cases c) (auto simp: put_governor_state_def terminal_job_status_def intro!: discard_rel operation_writes)

lemma orderly_tidy: "orderly c \<Longrightarrow> permitted c ch \<Longrightarrow> tidy ch"
  by (cases c; cases ch) auto

lemma command_run:
  assumes "\<And>ch. permitted c ch \<Longrightarrow> ord ch"
  shows "(db_write ord)\<^sup>*\<^sup>* s (tx_state (run_command e c) s)"
proof -
  have "(db_write (permitted c))\<^sup>*\<^sup>* s (tx_state (run_command e c) s)"
    using command_writes [of c e] by (auto simp: tx_state_def dest: tx_relD split: sum.splits)
  then show ?thesis by (rule writes_mono) (rule assms)
qed

lemma history_writes:
  assumes "\<And>e c ch. (e, c) \<in> set h \<Longrightarrow> permitted c ch \<Longrightarrow> ord ch"
  shows "(db_write ord)\<^sup>*\<^sup>* s (run_history h s)"
  using assms
proof (induction h arbitrary: s)
  case (Cons ec h)
  obtain e c where ec: "ec = (e, c)" by fastforce
  have "(db_write ord)\<^sup>*\<^sup>* s (tx_state (run_command e c) s)"
    by (rule command_run, rule Cons.prems [of e]) (simp_all add: ec)
  also have "(db_write ord)\<^sup>*\<^sup>* \<dots> (run_history h (tx_state (run_command e c) s))"
    using Cons.prems by (intro Cons.IH) auto
  finally show ?case by (simp add: ec)
qed simp

text \<open>Every history is one of the general machine.\<close>

lemma any_history: "(db_write unrestricted)\<^sup>*\<^sup>* s (run_history h s)"
  by (rule history_writes) (simp add: unrestricted_def)

lemma orderly_history: "\<forall>(e, c) \<in> set h. orderly c \<Longrightarrow> (db_write tidy)\<^sup>*\<^sup>* s (run_history h s)"
  by (rule history_writes) (auto intro: orderly_tidy)

text \<open>What every write keeps, every history keeps.\<close>

lemma history_keeps:
  assumes "\<And>s s'. I s \<Longrightarrow> db_write unrestricted s s' \<Longrightarrow> I s'" and "I s"
  shows "I (run_history h s)"
  using any_history assms(2) by (induction rule: rtranclp_induct) (auto intro: assms(1))

lemma history_preorder:
  assumes "\<And>s. Q s s" and "\<And>s t u. Q s t \<Longrightarrow> Q t u \<Longrightarrow> Q s u"
    and "\<And>s t. db_write unrestricted s t \<Longrightarrow> Q s t"
  shows "Q s (run_history h s)"
  using any_history by (rule steps_preorder) (blast intro: assms)+

end
