(* ===== verification/StoreFencing.thy ===== *)
theory StoreFencing
  imports StoreMachine
begin

text \<open>
  Fencing of the whole store: a command that names a controller and a token succeeds only while the
  lease row of its scope carries exactly them, so that by the contract \<open>fenced\<close> of \<open>StoreLeases\<close> a
  controller that lost its lease can never again change the database, whatever the others do.
\<close>

section \<open>The token a command presents\<close>

fun both :: "string \<Rightarrow> string option \<Rightarrow> int option \<Rightarrow> (string \<times> string \<times> int) option" where
  "both scope (Some owner) (Some fence) = Some (scope, owner, fence)"
| "both scope _ _ = None"

fun presents :: "command \<Rightarrow> (string \<times> string \<times> int) option" where
  "presents (AcquireLease owner scope ttl meta) = None"
| "presents (HeartbeatLease owner fence scope ttl) = Some (scope, owner, fence)"
| "presents (ReleaseLease owner fence scope) = Some (scope, owner, fence)"
| "presents (HeartbeatJob job attempt owner fence ttl scope) = Some (scope, owner, fence)"
| "presents (Reserve ra) = Some (ra_scope ra, ra_owner ra, ra_fence ra)"
| "presents (ReserveAndClaim ra ga) = Some (ra_scope ra, ra_owner ra, ra_fence ra)"
| "presents (HeartbeatReservation job owner fence ttl scope) = Some (scope, owner, fence)"
| "presents (ReleaseReservation job owner fence reason scope) = Some (scope, owner, fence)"
| "presents (PutGovernor state policy observed scope owner fence) = both scope owner fence"
| "presents (CreateJob ca) = both (ca_scope ca) (ca_owner ca) (ca_fence ca)"
| "presents (RequeueJob job owner fence payload priority reason scope) = Some (scope, owner, fence)"
| "presents (ImportLegacy ia) = Some (ia_scope ia, ia_owner ia, ia_fence ia)"
| "presents (RecordReceipt request receipt owner fence scope) = Some (scope, owner, fence)"
| "presents (BindTransport request job attempt owner fence scope) = Some (scope, owner, fence)"
| "presents (RecordAndComplete pa) = Some (pa_scope pa, pa_owner pa, pa_fence pa)"
| "presents (ClaimJob job owner fence ttl scope require event) = Some (scope, owner, fence)"
| "presents (ClaimNext owner fence ttl scope require) = Some (scope, owner, fence)"
| "presents (ClaimJobs owner fence n ttl scope require evs) = Some (scope, owner, fence)"
| "presents (CompleteJob co) = Some (co_scope co, co_owner co, co_fence co)"
| "presents (Recover owner fence scope status liveness strict) = Some (scope, owner, fence)"
| "presents (BeginSegment sa) = Some (sa_scope sa, sa_owner sa, sa_fence sa)"
| "presents (Checkpoint ka) = Some (ka_scope ka, ka_owner ka, ka_fence ka)"
| "presents (FinishSegment run owner fence segment n status reason scope) = Some (scope, owner, fence)"
| "presents (AdoptSegment aa) = Some (aa_scope aa, aa_owner aa, aa_fence aa)"
| "presents (Cleanup la) = Some (la_scope la, la_owner la, la_fence la)"
| "presents (AppendEvent scope etype eid job attempt owner fence payload) = both scope owner fence"
| "presents (AppendProvenance scope owner fence r) = both scope owner fence"

section \<open>Guarded operations\<close>

definition token_current :: "string \<Rightarrow> string \<Rightarrow> int \<Rightarrow> db \<Rightarrow> bool" where
  "token_current scope owner fence s \<longleftrightarrow> scope_fence scope s = fence \<and> scope_owner scope s = Some owner"

definition guarded :: "string \<Rightarrow> string \<Rightarrow> int \<Rightarrow> 'a op \<Rightarrow> bool" where
  "guarded scope owner fence m \<longleftrightarrow> (\<forall>s x s'. m s = Inr (x, s') \<longrightarrow> token_current scope owner fence s)"

named_theorems guards \<open>rules for guarded operations\<close>

lemma holds_token_current: "holds_lease e scope owner fence s \<Longrightarrow> token_current scope owner fence s"
  by (auto simp: token_current_def scope_fence_def scope_owner_def dest!: holds_lease_find)

lemma token_current_leases: "leases s' = leases s \<Longrightarrow> token_current scope owner fence s' = token_current scope owner fence s"
  by (simp add: token_current_def scope_fence_def scope_owner_def find_lease_def)

lemma guardedI: "(\<And>s x s'. m s = Inr (x, s') \<Longrightarrow> token_current scope owner fence s) \<Longrightarrow> guarded scope owner fence m"
  by (auto simp: guarded_def)

lemma guarded_assert [guards]: "guarded scope owner fence (assert_lease e scope owner fence)"
  by (rule guardedI) (auto intro: holds_token_current)

lemma guarded_pair [guards]: "guarded scope owner fence (fence_pair e scope (Some owner) (Some fence))"
  by (simp add: fence_pair_def guarded_assert)

lemma guarded_bind: "guarded scope owner fence m \<Longrightarrow> guarded scope owner fence (tx_bind m f)"
  by (auto simp: guarded_def tx_bind_Inr)

lemma guarded_seq: "guarded scope owner fence m \<Longrightarrow> guarded scope owner fence (tx_seq m n)"
  unfolding tx_seq_def by (rule guarded_bind)

lemma guarded_after:
  "tx_frame leases m \<Longrightarrow> (\<And>x. guarded scope owner fence (f x)) \<Longrightarrow> guarded scope owner fence (tx_bind m f)"
  unfolding guarded_def tx_bind_Inr by (metis token_current_leases tx_frameD)

lemma guarded_then: "tx_frame leases m \<Longrightarrow> guarded scope owner fence n \<Longrightarrow> guarded scope owner fence (tx_seq m n)"
  unfolding tx_seq_def by (rule guarded_after)

lemma guarded_raise: "guarded scope owner fence (tx_raise x)"
  by (simp add: guarded_def)

lemma guarded_sum [guards]:
  "(\<And>x. guarded scope owner fence (f x)) \<Longrightarrow> (\<And>y. guarded scope owner fence (g y)) \<Longrightarrow>
    guarded scope owner fence (case z of Inl x \<Rightarrow> f x | Inr y \<Rightarrow> g y)"
  by (cases z) auto

lemma guarded_prod [guards]:
  "(\<And>x y. guarded scope owner fence (f x y)) \<Longrightarrow> guarded scope owner fence (case z of (x, y) \<Rightarrow> f x y)"
  by (cases z) auto

lemma guarded_let [guards]: "guarded scope owner fence (f t) \<Longrightarrow> guarded scope owner fence (let x = t in f x)"
  by simp

text \<open>A statement in front of the check that only raises, or draws an identifier.\<close>

lemma guarded_check [guards]:
  "guarded scope owner fence n \<Longrightarrow> guarded scope owner fence (tx_seq (tx_raise_if b x) n)"
  "guarded scope owner fence n \<Longrightarrow> guarded scope owner fence (tx_seq (reject_secrets v) n)"
  by (intro guarded_then tx_rels; assumption)+

lemma guarded_token: "(\<And>x. guarded scope owner fence (f x)) \<Longrightarrow> guarded scope owner fence (tx_bind (reservation_token e ra) f)"
  by (rule guarded_after) (auto simp: reservation_token_def new_id_def intro!: tx_rel_if tx_frameI)

lemma release_lease_guarded: "guarded scope owner fence (release_lease e owner fence scope)"
  by (rule guardedI)
    (auto simp: release_lease_def token_current_def scope_fence_def scope_owner_def split: option.splits if_splits)

lemmas leading_check = guards guarded_seq [OF guarded_assert] guarded_seq [OF guarded_pair] guarded_raise

text \<open>Every operation checks the token before it touches a row.\<close>

lemma lease_guarded:
  "guarded scope owner fence (heartbeat_lease e owner fence scope ttl)"
  "guarded scope owner fence (heartbeat_job_lease e job attempt owner fence ttl scope)"
  unfolding heartbeat_lease_def heartbeat_job_lease_def by (intro leading_check)+

lemma reserve_guarded:
  "guarded (ra_scope ra) (ra_owner ra) (ra_fence ra) (reserve_resources e ra)"
  "guarded (ra_scope ra) (ra_owner ra) (ra_fence ra) (reserve_and_claim e ra ga)"
  unfolding reserve_resources_def reserve_and_claim_def by (intro guarded_token leading_check)+

lemma reservation_guarded:
  "guarded scope owner fence (heartbeat_reservation e job owner fence ttl scope)"
  "guarded scope owner fence (release_reservation e job owner fence reason scope)"
  unfolding heartbeat_reservation_def release_reservation_def by (intro leading_check)+

lemma governor_guarded:
  "guarded scope owner fence (put_governor_state e state policy observed scope (Some owner) (Some fence))"
  unfolding put_governor_state_def put_governor_tx_def prod.case option.case by (intro leading_check)

lemma job_guarded:
  "ca_owner ca = Some owner \<Longrightarrow> ca_fence ca = Some fence \<Longrightarrow> guarded (ca_scope ca) owner fence (create_job e ca)"
  "guarded scope owner fence (requeue_job e job owner fence payload priority reason scope)"
  "guarded (ia_scope ia) (ia_owner ia) (ia_fence ia) (import_legacy_job e ia)"
  unfolding create_job_def requeue_job_def import_legacy_job_def by (simp, intro leading_check | intro leading_check)+

lemma transport_guarded:
  "guarded scope owner fence (record_receipt_tx e request status safe owner fence scope)"
  "guarded scope owner fence (record_transport_receipt e request receipt owner fence scope)"
  "guarded scope owner fence (bind_transport_attempt e request job attempt owner fence scope)"
  "guarded (pa_scope pa) (pa_owner pa) (pa_fence pa) (record_receipt_and_complete e pa)"
  unfolding record_receipt_tx_def record_transport_receipt_def bind_transport_attempt_def record_receipt_and_complete_def
  by (intro leading_check guarded_bind)+

lemma claim_guarded:
  "guarded scope owner fence (claim_job e job owner fence ttl scope require event)"
  "guarded scope owner fence (claim_jobs e owner fence n ttl scope require event_of)"
  "guarded scope owner fence (claim_next_job e owner fence ttl scope require)"
  unfolding claim_job_def claim_jobs_def claim_next_job_def by (intro leading_check guarded_bind)+

lemma completion_guarded:
  "guarded (co_scope co) (co_owner co) (co_fence co) (complete_job e co)"
  "guarded scope owner fence (recover_expired_jobs e owner fence scope status liveness strict)"
  unfolding complete_job_def recover_expired_jobs_def by (intro leading_check)+

lemma segment_guarded:
  "guarded (sa_scope sa) (sa_owner sa) (sa_fence sa) (begin_run_segment e sa)"
  "guarded (ka_scope ka) (ka_owner ka) (ka_fence ka) (append_checkpoint e ka)"
  "guarded scope owner fence (finish_run_segment e run owner fence segment n status reason scope)"
  "guarded (aa_scope aa) (aa_owner aa) (aa_fence aa) (adopt_run_segment e aa)"
  "guarded (la_scope la) (la_owner la) (la_fence la) (record_cleanup_intent e la)"
  unfolding begin_run_segment_def append_checkpoint_def finish_run_segment_def adopt_run_segment_def
    record_cleanup_intent_def
  by (intro leading_check)+

lemma event_guarded:
  "guarded scope owner fence (append_event e scope etype eid job attempt (Some owner) (Some fence) payload)"
  "guarded scope owner fence (append_provenance_event e scope (Some owner) (Some fence) r)"
  unfolding append_event_def append_provenance_event_def by (intro leading_check)+

lemmas operations_guarded =
  lease_guarded release_lease_guarded reserve_guarded reservation_guarded governor_guarded job_guarded
  transport_guarded claim_guarded completion_guarded segment_guarded event_guarded

lemma both_Some: "both sc ow fe = Some (scope, owner, fence) \<longleftrightarrow> sc = scope \<and> ow = Some owner \<and> fe = Some fence"
  by (cases "(sc, ow, fe)" rule: both.cases) auto

lemma command_guarded:
  assumes "presents c = Some (scope, owner, fence)"
  shows "guarded scope owner fence (run_command e c)"
  using assms
  by (cases c) (auto simp: both_Some discard_def intro!: guarded_bind operations_guarded)

section \<open>What fencing gives\<close>

lemma step_of_write: "db_write ord s s' \<Longrightarrow> lease_step s s'"
  by (induction rule: db_write.induct) (auto simp: claim_writes_def recover_rows_def intro: untouched)

text \<open>The whole store honours the contract of fencing, with \<open>db_write\<close> as its step.\<close>

interpretation store_fence: fenced wf_leases "db_write unrestricted" "scope_fence scope" "scope_owner scope" "token_current scope"
  for scope
proof
  show "wf_leases s \<Longrightarrow> db_write unrestricted s s' \<Longrightarrow> wf_leases s'" for s s'
    by (rule scope_lease.step_inv) (blast dest: step_of_write)+
  show "wf_leases s \<Longrightarrow> db_write unrestricted s s' \<Longrightarrow> scope_fence scope s \<le> scope_fence scope s'" for s s'
    by (rule scope_lease.fence_mono) (blast dest: step_of_write)+
  show "wf_leases s \<Longrightarrow> db_write unrestricted s s' \<Longrightarrow> scope_fence scope s' = scope_fence scope s \<Longrightarrow>
      scope_owner scope s' = scope_owner scope s" for s s'
    by (rule scope_lease.owner_kept) (blast dest: step_of_write)+
qed (simp_all add: token_current_def)

lemma wf_leases_empty: "wf_leases empty_db"
  by (simp add: wf_leases_def empty_db_def)

lemma wf_leases_sample: "wf_leases sample_db"
  by (simp add: wf_leases_def sample_lease_def)

lemma accepted_token:
  "presents c = Some (scope, owner, fence) \<Longrightarrow> run_command e c s = Inr (x, s') \<Longrightarrow> token_current scope owner fence s"
  using command_guarded [of c scope owner fence e] unfolding guarded_def by blast

section \<open>Properties\<close>

text \<open>C1. Once the fence token of a scope has moved past \<open>f\<close>, every command that presents \<open>f\<close> raises,
  whoever sends it, whatever command it is, and however many commands of other controllers, in
  any order and on any clock, lie in between; the database is left as it was.\<close>

theorem superseded_token_is_dead:
  assumes "wf_leases s" and "token_current scope o1 f s"
    and "scope_fence scope (run_history h1 s) \<noteq> f"
    and "presents c = Some (scope, o2, f)"
  shows "\<exists>x. run_command e c (run_history h2 (run_history h1 s)) = Inl x"
proof (cases "run_command e c (run_history h2 (run_history h1 s))")
  case (Inr r)
  obtain x s' where "r = (x, s')" by (cases r)
  with Inr have "token_current scope o2 f (run_history h2 (run_history h1 s))"
    using accepted_token [OF assms(4)] by blast
  moreover have "\<not> token_current scope o2 f (run_history h2 (run_history h1 s))"
    by (rule store_fence.stale_token_rejected [OF assms(1,2) any_history assms(3) any_history])
  ultimately show ?thesis by contradiction
qed simp

text \<open>A token never has two owners, at any distance in a history: once a command was accepted
  under a token of a scope, a command of another controller that presents the same token raises.\<close>

theorem token_names_one_controller:
  assumes "wf_leases s" and "presents c1 = Some (scope, o1, f)" and "run_command e1 c1 s = Inr r1"
    and "presents c2 = Some (scope, o2, f)" and "o2 \<noteq> o1"
  shows "\<exists>x. run_command e2 c2 (run_history h s) = Inl x"
proof (cases "run_command e2 c2 (run_history h s)")
  case (Inr r2)
  have "token_current scope o1 f s"
    using assms(3) by (cases r1) (auto intro: accepted_token [OF assms(2)])
  moreover have "token_current scope o2 f (run_history h s)"
    using Inr by (cases r2) (auto intro: accepted_token [OF assms(4)])
  ultimately have "o2 = o1"
    by (rule store_fence.token_has_one_owner [OF assms(1) _ any_history])
  with assms(5) show ?thesis by contradiction
qed simp

text \<open>While a controller holds the live lease of a scope, nobody else can acquire it: the attempt
  raises \<open>LeaseConflict\<close>, and the holder's own call renews the same token.\<close>

theorem live_lease_excludes_others:
  assumes "holds_lease e scope owner f s" and "other \<noteq> owner" and "\<not> py_blank other"
  shows "acquire_lease e other scope ttl meta s = Inl LeaseConflictErr"
  using assms by (auto simp: acquire_lease_def dest!: holds_lease_find)

text \<open>Taking a lease over from another controller raises the token by one, and is possible only
  after the holder released it or let it expire.\<close>

theorem takeover_raises_the_token:
  assumes "wf_leases s" and "acquire_lease e owner scope ttl meta s = Inr (r, s')"
    and "find_lease scope s = Some r0" and "l_owner r0 \<noteq> owner"
  shows "l_owner r = owner \<and> l_fence r = l_fence r0 + 1
    \<and> (l_status r0 = LReleased \<or> expired_now e (Some (l_expires r0)))"
  using assms(2)
proof (cases rule: acquire_lease_cases)
  case (taken r1)
  have "find_lease scope s' = Some r"
    using assms(2) by (auto simp: acquire_lease_def Let_def split: option.splits if_splits)
  with taken assms(3) show ?thesis
    by (cases "l_status r0") (auto simp: find_lease_def find_upd_where dest: find_Some_D)
qed (use assms(3,4) in auto)

section \<open>Witnesses\<close>

text \<open>A released lease, taken by a second controller.\<close>

definition takeover_history :: "(env \<times> command) list" where
  "takeover_history = [(sample_env, ReleaseLease ''ctl'' 1 ''controller''),
     (sample_env, AcquireLease ''b'' ''controller'' 90 [])]"

lemma sample_token: "token_current ''controller'' ''ctl'' 1 sample_db"
  by (rule holds_token_current [of sample_env]) simp

lemma takeover_fence: "scope_fence ''controller'' (run_history takeover_history sample_db) = 2"
  by (simp add: takeover_history_def tx_state_def discard_def release_lease_def acquire_lease_def tx_run
      scope_fence_def find_lease_def sample_lease_def py_blank_def py_space_def)

lemma superseded_token_is_dead_witness:
  "\<exists>x. run_command sample_env (HeartbeatLease ''ctl'' 1 ''controller'' 90)
     (run_history [] (run_history takeover_history sample_db)) = Inl x"
  by (rule superseded_token_is_dead [OF wf_leases_sample sample_token])
    (simp_all add: takeover_fence)

lemma sample_beat: "\<exists>r. run_command sample_env (HeartbeatLease ''ctl'' 1 ''controller'' 90) sample_db = Inr r"
  by (simp add: discard_def heartbeat_lease_def tx_run find_lease_def sample_lease_def)

lemma token_names_one_controller_witness:
  "\<exists>x. run_command sample_env (ReleaseLease ''b'' 1 ''controller'') (run_history takeover_history sample_db) = Inl x"
proof -
  obtain r where "run_command sample_env (HeartbeatLease ''ctl'' 1 ''controller'' 90) sample_db = Inr r"
    using sample_beat by blast
  then show ?thesis
    by (rule token_names_one_controller [where ?o1.0 = "''ctl''" and ?o2.0 = "''b''", OF wf_leases_sample, rotated]) simp_all
qed

lemma live_lease_excludes_others_witness:
  "acquire_lease sample_env ''b'' ''controller'' 90 [] sample_db = Inl LeaseConflictErr"
  by (rule live_lease_excludes_others [of _ _ "''ctl''" 1]) (simp_all add: py_blank_def py_space_def)

lemma takeover_raises_the_token_witness:
  "\<exists>r s'. acquire_lease sample_env ''b'' ''controller'' 90 []
       (tx_state (run_command sample_env (ReleaseLease ''ctl'' 1 ''controller'')) sample_db) = Inr (r, s')
     \<and> l_fence r = 2"
proof -
  define t where "t = tx_state (run_command sample_env (ReleaseLease ''ctl'' 1 ''controller'')) sample_db"
  have s: "leases t = [sample_lease\<lparr>l_status := LReleased, l_released := Some (iso 1785000000000000),
      l_expires := iso 1785000000000000\<rparr>]"
    by (simp add: t_def tx_state_def discard_def release_lease_def tx_run find_lease_def sample_lease_def)
  have "wf_leases t"
    by (simp add: wf_leases_def s sample_lease_def)
  moreover obtain r s' where a: "acquire_lease sample_env ''b'' ''controller'' 90 [] t = Inr (r, s')"
    by (simp add: acquire_lease_def find_lease_def s sample_lease_def tx_run py_blank_def py_space_def)
  moreover have "find_lease ''controller'' t = Some (sample_lease\<lparr>l_status := LReleased,
      l_released := Some (iso 1785000000000000), l_expires := iso 1785000000000000\<rparr>)"
    by (simp add: find_lease_def s sample_lease_def)
  ultimately have "l_fence r = 2"
    using takeover_raises_the_token [of t sample_env "''b''" "''controller''" 90 "[]" r s']
    by (simp add: sample_lease_def)
  with a show ?thesis unfolding t_def by blast
qed

end
