(* ===== verification/StoreHistory.thy ===== *)
theory StoreHistory
  imports StoreMachine "HOL-Library.Sublist"
begin

text \<open>
  What no history of the store can undo: completed jobs, ended attempts, terminal receipts, and the
  append-only tables (events, provenance, checkpoints, cleanup intents). Each fact is a preorder or
  an invariant of \<open>db_write\<close>, proved once by cases on the write.
\<close>

lemma in_upd_where_keep: "r \<in> set rs \<Longrightarrow> \<not> p r \<Longrightarrow> r \<in> set (upd_where p f rs)"
  by (auto simp: in_upd_where)

section \<open>Final rows\<close>

definition attempt_final :: "attempt_row \<Rightarrow> bool" where
  "attempt_final a \<longleftrightarrow> a_status a \<in> {ACompleted, AFailed, ARetry, AAbandoned}"

lemma write_keeps_completed:
  "db_write ord s s' \<Longrightarrow> j \<in> set (jobs s) \<Longrightarrow> j_status j = Completed \<Longrightarrow> j \<in> set (jobs s')"
  by (induction rule: db_write.induct)
    (auto simp: claim_writes_def recover_rows_def claimable_row_def requeueable_def intro!: in_upd_where_keep)

lemma write_keeps_ended:
  "db_write ord s s' \<Longrightarrow> a \<in> set (attempts s) \<Longrightarrow> attempt_final a \<Longrightarrow> a \<in> set (attempts s')"
  by (induction rule: db_write.induct)
    (auto simp: claim_writes_def recover_rows_def attempt_final_def intro!: in_upd_where_keep)

text \<open>C5. A completed job is final: no command, however malformed or concurrent, changes any field of
  its row or deletes it; a later requeue, claim, completion or recovery of it is refused or has no
  effect on it.\<close>

theorem completed_job_is_final:
  assumes "j \<in> set (jobs s)" and "j_status j = Completed"
  shows "j \<in> set (jobs (run_history h s))"
  using assms(1) by (rule history_keeps [rotated]) (blast intro: write_keeps_completed assms(2))

text \<open>An attempt that ended as completed, failed, retried or abandoned keeps its row for ever: its
  result, artifacts, validation and error are never rewritten. An attempt in review is the one
  ended state that an import may still change.\<close>

theorem ended_attempt_is_final:
  assumes "a \<in> set (attempts s)" and "attempt_final a"
  shows "a \<in> set (attempts (run_history h s))"
  using assms(1) by (rule history_keeps [rotated]) (blast intro: write_keeps_ended assms(2))

section \<open>Terminal receipts\<close>

definition wf_outbox :: "db \<Rightarrow> bool" where
  "wf_outbox s \<longleftrightarrow> distinct (map o_id (outbox s))"

text \<open>The row is the same up to the binding of an attempt.\<close>

definition same_receipt :: "outbox_row \<Rightarrow> outbox_row \<Rightarrow> bool" where
  "same_receipt r r' \<longleftrightarrow> (\<exists>a t. r' = r\<lparr>o_attempt := a, o_updated := t\<rparr>)"

lemma same_receipt_refl: "same_receipt r r"
  unfolding same_receipt_def by (intro exI [of _ "o_attempt r"] exI [of _ "o_updated r"]) simp

lemma same_receipt_trans: "same_receipt r r' \<Longrightarrow> same_receipt r' r'' \<Longrightarrow> same_receipt r r''"
  unfolding same_receipt_def by fastforce

lemma same_receiptI: "same_receipt r (r\<lparr>o_attempt := a, o_updated := t\<rparr>)"
  unfolding same_receipt_def by blast

lemma same_receipt_terminal: "same_receipt r r' \<Longrightarrow> outbox_terminal r' = outbox_terminal r"
  by (auto simp: same_receipt_def outbox_terminal_def)

lemma receipt_update_id [simp]: "o_id (receipt_update e status safe x) = o_id x"
  by (simp add: receipt_update_def)

lemma write_keeps_outbox: "db_write ord s s' \<Longrightarrow> wf_outbox s \<Longrightarrow> wf_outbox s'"
  by (induction rule: db_write.induct)
    (auto simp: wf_outbox_def claim_writes_def recover_rows_def map_upd_where_key find_outbox_def find_None_iff)

lemma write_keeps_receipt:
  "db_write ord s s' \<Longrightarrow> wf_outbox s \<Longrightarrow> r \<in> set (outbox s) \<Longrightarrow> outbox_terminal r \<Longrightarrow>
    \<exists>r' \<in> set (outbox s'). same_receipt r r'"
proof (induction rule: db_write.induct)
  case (receipted i s r0 e status safe)
  have "o_id r \<noteq> i"
    using receipted distinct_map_eqD [of o_id "outbox s" r r0]
    by (auto simp: wf_outbox_def find_outbox_def dest!: find_Some_D)
  then have "r \<in> set (upd_where (\<lambda>x. o_id x = i) (receipt_update e status safe) (outbox s))"
    using receipted by (intro in_upd_where_keep)
  with same_receipt_refl show ?case by auto
next
  case (bound i s r0 t a)
  then have "(if o_id r = i then r\<lparr>o_attempt := Some a, o_updated := t\<rparr> else r)
      \<in> set (upd_where (\<lambda>x. o_id x = i) (\<lambda>x. x\<lparr>o_attempt := Some a, o_updated := t\<rparr>) (outbox s))"
    by (auto simp: in_upd_where)
  then show ?case
    using same_receipt_refl [of r] same_receiptI [of r t "Some a"] by (auto split: if_splits)
qed (auto simp: claim_writes_def recover_rows_def intro: same_receipt_refl)

text \<open>C25. A receipt that was recorded as completed or failed is final: in every later state the outbox
  has the same row for the request, with the same status, receipt, envelope and time stamps of
  sending and completion; only the binding to an attempt may still be filled in.\<close>

theorem terminal_receipt_is_final:
  assumes "wf_outbox s" and "r \<in> set (outbox s)" and "outbox_terminal r"
  shows "\<exists>r' \<in> set (outbox (run_history h s)). same_receipt r r'"
proof -
  have "wf_outbox (run_history h s) \<and> (\<exists>r' \<in> set (outbox (run_history h s)). same_receipt r r')"
  proof (rule history_keeps [of "\<lambda>s. wf_outbox s \<and> (\<exists>r' \<in> set (outbox s). same_receipt r r')"])
    show "wf_outbox s \<and> (\<exists>r' \<in> set (outbox s). same_receipt r r')"
      using assms same_receipt_refl by blast
  next
    fix s s'
    assume s: "wf_outbox s \<and> (\<exists>r' \<in> set (outbox s). same_receipt r r')" and w: "db_write unrestricted s s'"
    then obtain r1 where r1: "r1 \<in> set (outbox s)" "same_receipt r r1" by blast
    then obtain r2 where "r2 \<in> set (outbox s')" "same_receipt r1 r2"
      using write_keeps_receipt [OF w _ r1(1)] s same_receipt_terminal [OF r1(2)] assms(3) by blast
    with r1(2) s show "wf_outbox s' \<and> (\<exists>r' \<in> set (outbox s'). same_receipt r r')"
      using write_keeps_outbox [OF w] same_receipt_trans by blast
  qed
  then show ?thesis ..
qed

section \<open>Append-only tables\<close>

definition grows :: "db \<Rightarrow> db \<Rightarrow> bool" where
  "grows s s' \<longleftrightarrow> prefix (events s) (events s') \<and> prefix (provenance s) (provenance s')
     \<and> prefix (checkpoints s) (checkpoints s') \<and> prefix (cleanups s) (cleanups s')"

lemma grows_refl: "grows s s"
  by (simp add: grows_def)

lemma grows_trans: "grows s t \<Longrightarrow> grows t u \<Longrightarrow> grows s u"
  by (auto simp: grows_def intro: prefix_order.trans)

lemma write_grows: "db_write ord s s' \<Longrightarrow> grows s s'"
  by (induction rule: db_write.induct) (auto simp: grows_def claim_writes_def recover_rows_def)

text \<open>The event log, the provenance ledger, the checkpoints and the cleanup intents are append-only:
  whatever history runs, each table afterwards is the old table followed by new rows.\<close>

theorem audit_tables_only_grow: "grows s (run_history h s)"
  by (rule history_preorder) (blast intro: grows_refl grows_trans write_grows)+

lemma write_sound: "db_write ord s s' \<Longrightarrow> sound_log attempt_col (provenance s) \<Longrightarrow> sound_log attempt_col (provenance s')"
  by (induction rule: db_write.induct) (auto simp: claim_writes_def recover_rows_def)

text \<open>C14. The durable ledger is causally sound in every state a fresh store can reach, whichever
  commands ran: each record satisfied the event contract when it was appended, identifiers and
  idempotency keys are unique, parents precede their children, and a promoted claim follows a
  completion, a passing latest validation and an approving latest review of its attempt, which is
  its causal parent.\<close>

theorem store_ledger_sound: "sound_log attempt_col (provenance (run_history h empty_db))"
  by (rule history_keeps) (auto simp: empty_db_def intro: write_sound)

text \<open>The attempt column a promotion names is the one its evidence is filed under.\<close>

lemma store_promotions_supported:
  assumes "p \<in> set (provenance (run_history h empty_db))" and "ev_is ''claim.promoted'' p"
  shows "\<exists>xs ys. provenance (run_history h empty_db) = xs @ p # ys
    \<and> supported (chain_of attempt_col xs (jtxt (dget0 p ''attempt_id''))) p"
proof -
  have "sound_log attempt_col (provenance (run_history h empty_db))"
    by (rule history_keeps) (auto simp: empty_db_def intro: write_sound)
  from sound_log_promotion [OF this assms] show ?thesis .
qed

lemma write_secret_free:
  "db_write ord s s' \<Longrightarrow> list_all (\<lambda>r. \<not> has_secret (JObj r)) (provenance s) \<Longrightarrow>
    list_all (\<lambda>r. \<not> has_secret (JObj r)) (provenance s')"
  by (induction rule: db_write.induct) (simp_all add: claim_writes_def recover_rows_def del: has_secret.simps)

text \<open>No record with a forbidden key (a prompt, a credential, a password, in any letter case, at any
  depth, in lists as well as in objects) is ever in the durable ledger of a reachable store,
  whichever command offered it.\<close>

theorem store_ledger_secret_free:
  "list_all (\<lambda>r. \<not> has_secret (JObj r)) (provenance (run_history h empty_db))"
proof -
  have "list_all (\<lambda>r. \<not> has_secret (JObj r)) (provenance empty_db)"
    by (simp add: empty_db_def)
  then show ?thesis by (rule history_keeps [rotated]) (rule write_secret_free)
qed

section \<open>Reservations\<close>

lemma write_one_active: "db_write ord s s' \<Longrightarrow> one_active s \<Longrightarrow> one_active s'"
proof (induction rule: db_write.induct)
  case (reserved_row r s)
  then show ?case
    by (force simp: one_active_def find_active_def find_reservation_def find_None_iff)
next
  case (reservations_kept f p s)
  show ?case
    by (rule one_active_update [OF reservations_kept.prems _ reservations_kept.hyps]) simp
qed (simp_all add: one_active_def claim_writes_def recover_rows_def)

text \<open>No history of a fresh store gives a job two active reservations in one scope, and reservation
  identifiers are unique.\<close>

theorem reachable_one_active: "one_active (run_history h empty_db)"
  by (rule history_keeps [of one_active, OF write_one_active]) (auto simp: one_active_def empty_db_def)

section \<open>Witnesses\<close>

definition done_job :: job_row where
  "done_job = sample_job ''j1''\<lparr>j_status := Completed, j_attempts := 1\<rparr>"

definition done_attempt :: attempt_row where
  "done_attempt = \<lparr>a_id = ''a1'', a_job = ''j1'', a_no = 1, a_status = ACompleted, a_owner = Some ''ctl'',
     a_fence = Some 1, a_expires = None, a_started = iso 1785000000000000,
     a_finished = Some (iso 1785000000000000), a_payload = [], a_result = Some (JInt 7),
     a_artifacts = None, a_validation = None, a_error_class = None, a_error = None\<rparr>"

definition done_row :: outbox_row where
  "done_row = \<lparr>o_id = ''q1'', o_job = Some ''j1'', o_attempt = None, o_target = ''t'', o_operation = ''op'',
     o_packet_digest = [], o_payload_digest = [], o_envelope = [], o_status = OCompleted,
     o_created = iso 1785000000000000, o_updated = iso 1785000000000000,
     o_sent = Some (iso 1785000000000000), o_completed = Some (iso 1785000000000000),
     o_receipt = Some [(''status'', JStr ''completed'')], o_owner = ''ctl'', o_fence = 1\<rparr>"

definition done_db :: db where
  "done_db = sample_db\<lparr>jobs := [done_job, sample_job ''j2''], attempts := [done_attempt], outbox := [done_row]\<rparr>"

text \<open>A client that requeues, claims and completes the finished job, and sends another receipt.\<close>

definition meddling :: "(env \<times> command) list" where
  "meddling =
     [(sample_env, RequeueJob ''j1'' ''ctl'' 1 None None ''again'' ''controller''),
      (sample_env, ClaimJob ''j1'' ''ctl'' 1 90 ''controller'' True None),
      (sample_env, Recover ''ctl'' 1 ''controller'' Retry [(''j1'', ''dead'')] True),
      (sample_env, RecordReceipt ''q1'' [(''status'', JStr ''failed''), (''error_code'', JStr ''x'')] ''ctl'' 1 ''controller'')]"

lemma completed_job_is_final_witness: "done_job \<in> set (jobs (run_history meddling done_db))"
  by (rule completed_job_is_final) (simp_all add: done_db_def done_job_def)

lemma ended_attempt_is_final_witness: "done_attempt \<in> set (attempts (run_history meddling done_db))"
  by (rule ended_attempt_is_final) (simp_all add: done_db_def done_attempt_def attempt_final_def)

lemma terminal_receipt_is_final_witness: "\<exists>r' \<in> set (outbox (run_history meddling done_db)). same_receipt done_row r'"
  by (rule terminal_receipt_is_final)
    (simp_all add: done_db_def done_row_def wf_outbox_def outbox_terminal_def)

end
