(* ===== verification/StoreRuns.thy ===== *)
theory StoreRuns
  imports StoreHistory
begin

text \<open>
  Continuous runs in every reachable state: a run has at most one open segment, and the checkpoints
  of an attempt form a chain that starts at 1 and names the state digest of its predecessor.
\<close>

section \<open>Segments\<close>

definition wf_segments :: "db \<Rightarrow> bool" where
  "wf_segments s \<longleftrightarrow> distinct (map s_id (segments s))
     \<and> distinct (map (\<lambda>r. (s_run r, s_seq r)) (segments s))
     \<and> distinct (map s_run (filter segment_open (segments s)))"

lemma open_runs_update:
  assumes "\<And>x. s_run (f x) = s_run x" and "\<And>x. p x \<Longrightarrow> segment_open (f x) \<Longrightarrow> segment_open x"
    and "distinct (map s_run (filter segment_open rs))"
  shows "distinct (map s_run (filter segment_open (upd_where p f rs)))"
proof -
  have sub: "s_run ` set (filter segment_open (upd_where p f xs)) \<subseteq> s_run ` set (filter segment_open xs)" for xs
  proof (induction xs)
    case (Cons x xs)
    then show ?case using assms(1) [of x] assms(2) [of x] by (cases "p x") auto
  qed simp
  show ?thesis
    using assms(3)
  proof (induction rs)
    case (Cons x xs)
    have ih: "distinct (map s_run (filter segment_open (upd_where p f xs)))"
      using Cons by (auto split: if_splits)
    have "s_run x \<notin> s_run ` set (filter segment_open (upd_where p f xs))" if "segment_open x"
      using Cons.prems that sub [of xs] by auto
    with ih show ?case
      using assms(1) [of x] assms(2) [of x] by (cases "p x") auto
  qed simp
qed

lemma wf_segments_update:
  assumes "wf_segments s" and "segments s' = upd_where p f (segments s)"
    and "\<And>x. s_run (f x) = s_run x \<and> s_id (f x) = s_id x \<and> s_seq (f x) = s_seq x"
    and "\<And>x. p x \<Longrightarrow> segment_open x"
  shows "wf_segments s'"
  using assms by (simp add: wf_segments_def map_upd_where_key open_runs_update)

lemma write_segments: "db_write ord s s' \<Longrightarrow> wf_segments s \<Longrightarrow> wf_segments s'"
proof (induction rule: db_write.induct)
  case (segment_opened s r)
  then show ?case by (fastforce simp: wf_segments_def)
next
  case (segment_closed st s i ow fe t)
  show ?case
    by (rule wf_segments_update [OF segment_closed.prems, where f = "\<lambda>x. x\<lparr>s_status := st, s_finished := Some t\<rparr>"
          and p = "\<lambda>x. s_id x = i \<and> s_owner x = ow \<and> s_fence x = fe \<and> segment_open x"]) simp_all
next
  case (segment_adopted s i ow fe fe' ow')
  show ?case
    by (rule wf_segments_update [OF segment_adopted.prems, where f = "\<lambda>x. x\<lparr>s_owner := ow', s_fence := fe'\<rparr>"
          and p = "\<lambda>x. s_id x = i \<and> s_owner x = ow \<and> s_fence x = fe \<and> segment_open x"]) simp_all
qed (simp_all add: wf_segments_def claim_writes_def recover_rows_def)

lemma reachable_segments: "wf_segments (run_history h empty_db)"
  by (rule history_keeps [of wf_segments, OF write_segments]) (auto simp: wf_segments_def empty_db_def)

text \<open>C13. A run never has two open segments, in any state a fresh store can reach: a controller restart
  adopts the open segment or is refused, so no scheduler job is submitted twice for one run.\<close>

theorem one_open_segment_per_run:
  "distinct (map s_run (filter segment_open (segments (run_history h empty_db))))"
  using reachable_segments [of h] by (simp add: wf_segments_def)

section \<open>Checkpoint chains\<close>

definition attempt_chain :: "string \<Rightarrow> db \<Rightarrow> checkpoint_row list" where
  "attempt_chain a s = filter (\<lambda>r. k_attempt r = a) (checkpoints s)"

text \<open>
  The rows of one attempt, oldest first: consecutive numbers, each row naming the state digest of
  the one before. The code checks adjacency only against a predecessor, so the first row may
  carry any positive number.
\<close>

fun linked :: "checkpoint_row list \<Rightarrow> bool" where
  "linked [] = True"
| "linked [r] = (1 \<le> k_seq r \<and> k_previous r = None)"
| "linked (r # q # rs) =
     (k_seq r = k_seq q + 1 \<and> k_previous r = Some (k_state_digest q) \<and> linked (q # rs))"

text \<open>\<open>linked\<close> reads a chain newest first.\<close>

definition chain_ok :: "string \<Rightarrow> db \<Rightarrow> bool" where
  "chain_ok a s \<longleftrightarrow> linked (rev (attempt_chain a s))"

lemma linked_bound: "linked (r # rs) \<Longrightarrow> \<forall>x \<in> set rs. k_seq x < k_seq r"
  by (induction "r # rs" arbitrary: r rs rule: linked.induct) fastforce+

lemma linked_sorted: "linked rs \<Longrightarrow> sorted (map k_seq (rev rs))"
  by (induction rs rule: linked.induct) (auto simp: sorted_append dest: linked_bound)

lemma latest_of_chain:
  assumes "chain_ok a s"
  shows "latest_checkpoint a s = (case rev (attempt_chain a s) of [] \<Rightarrow> None | r # _ \<Rightarrow> Some r)"
proof -
  have "sort_key k_seq (attempt_chain a s) = attempt_chain a s"
    using linked_sorted [OF assms [unfolded chain_ok_def]] by (simp add: sort_key_id_if_sorted)
  then show ?thesis
    by (cases "attempt_chain a s" rule: rev_cases) (simp_all add: latest_checkpoint_def attempt_chain_def)
qed

lemma checkpoint_link_Inr:
  "checkpoint_link n previous latest = Inr p \<Longrightarrow>
    1 \<le> n \<and> (case latest of None \<Rightarrow> p = None | Some r \<Rightarrow> n = k_seq r + 1 \<and> p = Some (k_state_digest r))"
  by (auto simp: checkpoint_link_def split: if_splits option.splits)

lemma write_chain: "db_write ord s s' \<Longrightarrow> chain_ok a s \<Longrightarrow> chain_ok a s'"
proof (induction rule: db_write.induct)
  case (checkpointed r previous s)
  show ?case
  proof (cases "k_attempt r = a")
    case True
    have "attempt_chain a (s\<lparr>checkpoints := checkpoints s @ [r]\<rparr>) = attempt_chain a s @ [r]"
      by (simp add: attempt_chain_def True)
    then show ?thesis
      using checkpointed.prems checkpoint_link_Inr [OF checkpointed.hyps(1)] latest_of_chain [OF checkpointed.prems]
      by (cases "rev (attempt_chain a s)") (auto simp: chain_ok_def True)
  qed (use checkpointed.prems in \<open>simp add: chain_ok_def attempt_chain_def\<close>)
qed (simp_all add: chain_ok_def attempt_chain_def claim_writes_def recover_rows_def)

text \<open>C12. In every reachable state the checkpoints of an attempt are a hash chain: their sequence numbers
  are consecutive, each names the state digest of its predecessor, and the first names none. A
  gap, a fork or a rollback is never recorded.\<close>

theorem checkpoints_form_a_chain: "linked (rev (attempt_chain a (run_history h empty_db)))"
proof -
  have "chain_ok a empty_db" by (simp add: chain_ok_def attempt_chain_def empty_db_def)
  then have "chain_ok a (run_history h empty_db)" by (rule history_keeps [rotated]) (rule write_chain)
  then show ?thesis by (simp add: chain_ok_def)
qed

end
