(* ===== verification/StoreQueue.thy ===== *)
theory StoreQueue
  imports StoreHistory
begin

text \<open>
  The invariant of the job queue: jobs and attempts have unique identifiers, every attempt belongs to
  a job, and a job is running exactly when one attempt of it is running, under the same owner and
  token. It holds in every state an orderly client can reach: one that creates no job as running and
  imports no running job or attempt and nothing to reconcile, which the public API would let it do.
\<close>

definition running_of :: "string \<Rightarrow> db \<Rightarrow> attempt_row list" where
  "running_of i s = filter (\<lambda>a. a_job a = i \<and> a_status a = ARunning) (attempts s)"

text \<open>The running attempts \<open>rs\<close> are what the job's row says.\<close>

definition matches :: "job_row \<Rightarrow> attempt_row list \<Rightarrow> bool" where
  "matches j rs \<longleftrightarrow>
     (if j_status j = Running
      then (\<exists>a ow f. rs = [a] \<and> j_owner j = Some ow \<and> j_fence j = Some f \<and> a_owner a = Some ow \<and> a_fence a = Some f)
      else rs = [])"

definition queue_ok :: "db \<Rightarrow> bool" where
  "queue_ok s \<longleftrightarrow> distinct (map j_id (jobs s)) \<and> distinct (map a_id (attempts s))
     \<and> (\<forall>a \<in> set (attempts s). a_job a \<in> j_id ` set (jobs s))
     \<and> (\<forall>j \<in> set (jobs s). matches j (running_of (j_id j) s))"

lemma queue_okI:
  assumes "distinct (map j_id (jobs s))" "distinct (map a_id (attempts s))"
    "\<And>a. a \<in> set (attempts s) \<Longrightarrow> a_job a \<in> j_id ` set (jobs s)"
    "\<And>j. j \<in> set (jobs s) \<Longrightarrow> matches j (running_of (j_id j) s)"
  shows "queue_ok s"
  using assms by (auto simp: queue_ok_def)

lemma queue_okD:
  assumes "queue_ok s"
  shows "distinct (map j_id (jobs s))" "distinct (map a_id (attempts s))"
    "a \<in> set (attempts s) \<Longrightarrow> a_job a \<in> j_id ` set (jobs s)"
    "j \<in> set (jobs s) \<Longrightarrow> matches j (running_of (j_id j) s)"
  using assms by (auto simp: queue_ok_def)

lemma filter_upd_where_out:
  "(\<And>x. p x \<Longrightarrow> \<not> q (f x)) \<Longrightarrow> filter q (upd_where p f xs) = filter (\<lambda>x. \<not> p x) (filter q xs)"
  by (induction xs) auto

lemma filter_upd_where_kept:
  "(\<And>x. q (f x) = q x) \<Longrightarrow> filter q (upd_where p f xs) = upd_where p f (filter q xs)"
  by (induction xs) auto

lemma matches_idle: "j_status j \<noteq> Running \<Longrightarrow> matches j rs \<longleftrightarrow> rs = []"
  by (simp add: matches_def)

lemma image_upd_where: "(\<And>x. k (f x) = k x) \<Longrightarrow> k ` set (upd_where p f rs) = k ` set rs"
  by (induction rs) auto

lemma find_job_D: "find_job i s = Some j \<Longrightarrow> j \<in> set (jobs s) \<and> j_id j = i"
  by (auto simp: find_job_def dest: find_Some_D)

lemma find_attempt_D: "find_attempt i s = Some a \<Longrightarrow> a \<in> set (attempts s) \<and> a_id a = i"
  by (auto simp: find_attempt_def dest: find_Some_D)

section \<open>The writes that touch the queue\<close>

text \<open>Updates of the jobs alone that keep identity and never start or stop a job.\<close>

lemma queue_ok_idle_jobs:
  assumes "queue_ok s" and "\<And>x. j_id (f x) = j_id x"
    and "\<And>x. p x \<Longrightarrow> j_status x \<noteq> Running \<and> j_status (f x) \<noteq> Running"
  shows "queue_ok (s\<lparr>jobs := upd_where p f (jobs s)\<rparr>)"
proof (rule queue_okI)
  fix j assume "j \<in> set (jobs (s\<lparr>jobs := upd_where p f (jobs s)\<rparr>))"
  then obtain x where x: "x \<in> set (jobs s)" "j = (if p x then f x else x)"
    by (auto simp: in_upd_where)
  with queue_okD(4) [OF assms(1) x(1)] assms(2,3) [of x]
  show "matches j (running_of (j_id j) (s\<lparr>jobs := upd_where p f (jobs s)\<rparr>))"
    by (auto simp: running_of_def matches_def)
qed (use queue_okD [OF assms(1)] in \<open>auto simp: map_upd_where_key image_upd_where assms(2)\<close>)

lemma claim_keeps_queue:
  assumes q: "queue_ok s" and one: "rowcount (\<lambda>x. j_id x = j_id j \<and> claimable_row e x) (jobs s) = 1"
    and new: "\<not> attempt_clash (claim_attempt_row e j attempt owner fence ttl) s"
  shows "queue_ok (claim_writes e j attempt owner fence ttl s)"
proof -
  let ?p = "\<lambda>x. j_id x = j_id j \<and> claimable_row e x" and ?f = "claim_update e j owner fence ttl"
  let ?a = "claim_attempt_row e j attempt owner fence ttl"
  let ?s = "claim_writes e j attempt owner fence ttl s"
  have f: "j_id (?f x) = j_id x" for x by (simp add: claim_update_def)
  obtain j0 where j0: "j0 \<in> set (jobs s)" "?p j0"
    using one rowcount_zero [of ?p "jobs s"] by fastforce
  have run: "running_of i ?s = (if i = j_id j then running_of i s @ [?a] else running_of i s)" for i
    by (auto simp: running_of_def claim_writes_def claim_attempt_row_def)
  show ?thesis
  proof (rule queue_okI)
    fix k assume "k \<in> set (jobs ?s)"
    then obtain x where x: "x \<in> set (jobs s)" "k = (if ?p x then ?f x else x)"
      by (auto simp: in_upd_where claim_writes_def)
    note m = queue_okD(4) [OF q x(1)]
    show "matches k (running_of (j_id k) ?s)"
    proof (cases "j_id x = j_id j")
      case True
      with distinct_map_eqD [OF queue_okD(1) [OF q] x(1) j0(1)] j0(2) have "?p x" by auto
      with m True x(2) claimable_not_running [of e x] show ?thesis
        by (simp add: run f matches_def) (simp add: claim_update_def claim_attempt_row_def)
    next
      case False
      with m x(2) show ?thesis by (simp add: run)
    qed
  next
    show "distinct (map a_id (attempts ?s))"
      using queue_okD(2) [OF q] new by (auto simp: claim_writes_def attempt_clash_def list_ex_iff)
    show "a_job a \<in> j_id ` set (jobs ?s)" if "a \<in> set (attempts ?s)" for a
      using that queue_okD(3) [OF q, of a] image_eqI [of "j_id j" j_id j0, OF _ j0(1)] j0(2)
      by (auto simp: claim_writes_def image_upd_where f claim_attempt_row_def)
  qed (use queue_okD(1) [OF q] in \<open>simp add: claim_writes_def map_upd_where_key f\<close>)
qed

text \<open>Updates of a job and its attempts that stop it: the end of an attempt and a recovery.\<close>

lemma stop_keeps_queue:
  assumes q: "queue_ok s"
    and f: "\<And>x. a_id (f x) = a_id x \<and> a_job (f x) = a_job x" and g: "\<And>x. j_id (g x) = j_id x"
    and p: "\<And>x. p x \<Longrightarrow> a_status (f x) \<noteq> ARunning" and pq: "\<And>x. q x \<Longrightarrow> j_id x = job \<and> j_status (g x) \<noteq> Running"
    and here: "\<And>x. x \<in> set (running_of job s) \<Longrightarrow> p x"
    and there: "\<And>x. x \<in> set (attempts s) \<Longrightarrow> p x \<Longrightarrow> a_job x = job"
    and stops: "\<And>x. x \<in> set (jobs s) \<Longrightarrow> j_id x = job \<Longrightarrow> j_status x = Running \<Longrightarrow> q x"
  shows "queue_ok (s\<lparr>attempts := upd_where p f (attempts s), jobs := upd_where q g (jobs s)\<rparr>)"
    (is "queue_ok ?s")
proof -
  have run: "running_of i ?s = (if i = job then [] else running_of i s)" for i
  proof -
    have "running_of i ?s = filter (\<lambda>x. \<not> p x) (running_of i s)"
      unfolding running_of_def using p by (simp add: filter_upd_where_out)
    moreover have "filter (\<lambda>x. \<not> p x) (running_of job s) = []"
      using here by (simp add: filter_empty_conv)
    moreover have "filter (\<lambda>x. \<not> p x) (running_of i s) = running_of i s" if "i \<noteq> job"
      by (rule filter_True) (use there that in \<open>auto simp: running_of_def\<close>)
    ultimately show ?thesis by auto
  qed
  show ?thesis
  proof (rule queue_okI)
    fix k assume "k \<in> set (jobs ?s)"
    then obtain x where x: "x \<in> set (jobs s)" "k = (if q x then g x else x)"
      by (auto simp: in_upd_where)
    with queue_okD(4) [OF q x(1)] pq [of x] stops [OF x(1)] show "matches k (running_of (j_id k) ?s)"
      by (auto simp: run g matches_def)
  qed (use queue_okD [OF q] in \<open>auto simp: map_upd_where_key image_upd_where f g in_upd_where\<close>)
qed

lemma ended_keeps_queue:
  assumes q: "queue_ok s" and own: "owned_pair job attempt owner fence s"
    and f: "\<And>x. a_id (f x) = a_id x \<and> a_job (f x) = a_job x \<and> a_status (f x) \<noteq> ARunning"
    and g: "\<And>x. j_id (g x) = j_id x \<and> j_status (g x) \<noteq> Running"
  shows "queue_ok (s\<lparr>attempts := upd_where
        (\<lambda>x. a_id x = attempt \<and> a_status x = ARunning \<and> a_owner x = Some owner \<and> a_fence x = Some fence)
        f (attempts s),
      jobs := upd_where (\<lambda>x. j_id x = job \<and> j_status x = Running \<and> j_owner x = Some owner \<and> j_fence x = Some fence)
        g (jobs s)\<rparr>)"
proof -
  obtain j a where j: "j \<in> set (jobs s)" "j_id j = job" "owns_job owner fence j"
    and a: "a \<in> set (attempts s)" "a_id a = attempt" "a_job a = job" "owns_attempt owner fence a"
    using own by (auto simp: owned_pair_def dest!: find_job_D find_attempt_D)
  have "a \<in> set (running_of job s)"
    using a by (simp add: running_of_def owns_attempt_def)
  with queue_okD(4) [OF q j(1)] j have run: "running_of job s = [a]"
    and o: "j_owner j = Some owner" "j_fence j = Some fence" "a_owner a = Some owner" "a_fence a = Some fence"
    by (auto simp: matches_def owns_job_def int_or_zero_def)
  show ?thesis
  proof (rule stop_keeps_queue [OF q, where job = job])
    show "a_job x = job" if "x \<in> set (attempts s)"
      "a_id x = attempt \<and> a_status x = ARunning \<and> a_owner x = Some owner \<and> a_fence x = Some fence" for x
      using that a distinct_map_eqD [OF queue_okD(2) [OF q] that(1) a(1)] by auto
    show "j_id x = job \<and> j_status x = Running \<and> j_owner x = Some owner \<and> j_fence x = Some fence"
      if "x \<in> set (jobs s)" "j_id x = job" "j_status x = Running" for x
      using that j o distinct_map_eqD [OF queue_okD(1) [OF q] that(1) j(1)] by auto
  qed (use f g run a o in \<open>auto simp: owns_attempt_def\<close>)
qed

lemma recovered_keeps_queue:
  assumes q: "queue_ok s" and "rv_status rv \<noteq> Running"
  shows "queue_ok (recover_rows e rv job s)"
  unfolding recover_rows_def
  by (rule stop_keeps_queue [OF q, where job = job]) (use assms(2) in \<open>auto simp: running_of_def\<close>)

lemma beaten_keeps_queue:
  assumes q: "queue_ok s"
    and f: "\<And>x. a_id (f x) = a_id x \<and> a_job (f x) = a_job x \<and> a_status (f x) = a_status x
      \<and> a_owner (f x) = a_owner x \<and> a_fence (f x) = a_fence x"
    and g: "\<And>x. j_id (g x) = j_id x \<and> j_status (g x) = j_status x \<and> j_owner (g x) = j_owner x \<and> j_fence (g x) = j_fence x"
  shows "queue_ok (s\<lparr>jobs := upd_where p g (jobs s), attempts := upd_where r f (attempts s)\<rparr>)"
    (is "queue_ok ?s")
proof -
  have run: "running_of i ?s = upd_where r f (running_of i s)" for i
    by (simp add: running_of_def filter_upd_where_kept f)
  have m: "matches (if p x then g x else x) (upd_where r f rs) = matches x rs" for x rs
    unfolding matches_def by (cases rs; cases "tl rs") (auto simp: f g)
  show ?thesis
  proof (rule queue_okI)
    fix k assume "k \<in> set (jobs ?s)"
    then obtain x where x: "x \<in> set (jobs s)" "k = (if p x then g x else x)"
      by (auto simp: in_upd_where)
    moreover from x(2) have "j_id k = j_id x" by (simp add: g)
    ultimately show "matches k (running_of (j_id k) ?s)"
      using queue_okD(4) [OF q x(1)] by (simp add: run m)
  qed (use queue_okD [OF q] in \<open>auto simp: map_upd_where_key image_upd_where f g in_upd_where\<close>)
qed

lemma orderly_write_keeps_queue: "db_write tidy s s' \<Longrightarrow> queue_ok s \<Longrightarrow> queue_ok s'"
proof (induction rule: db_write.induct)
  case (job_added j s)
  note q = job_added.prems
  have new: "j_id j \<notin> j_id ` set (jobs s)"
    using job_added.hyps(1) by (force simp: find_job_def find_None_iff)
  then have "running_of (j_id j) s = []"
    using queue_okD(3) [OF q] unfolding running_of_def filter_empty_conv by metis
  with new job_added.hyps(3) q show ?case
    by (auto simp: queue_ok_def running_of_def matches_idle)
next
  case (requeued s i pr pl t)
  then show ?case by (intro queue_ok_idle_jobs) (auto simp: requeueable_def)
next
  case (attempt_imported a s)
  then have "a_job a \<in> j_id ` set (jobs s)" "a_id a \<notin> a_id ` set (attempts s)"
    by (force simp: attempt_clash_def list_ex_iff dest: find_job_D)+
  with attempt_imported show ?case by (auto simp: queue_ok_def running_of_def)
next
  case (claimed j e s attempt owner fence ttl)
  then show ?case by (intro claim_keeps_queue)
next
  case (beaten s job owner fence t ex attempt)
  then show ?case by (intro beaten_keeps_queue) simp_all
next
  case (ended job attempt owner fence s)
  then show ?case
    by (intro ended_keeps_queue) (simp_all add: terminal_attempt_status_def terminal_job_status_def)
next
  case (recovered rv s e job)
  then show ?case by (intro recovered_keeps_queue) auto
qed (simp_all add: queue_ok_def running_of_def)

section \<open>Properties\<close>

lemma queue_ok_empty: "queue_ok empty_db"
  by (simp add: queue_ok_def empty_db_def)

text \<open>C2. In every state an orderly client can reach from a fresh store, a job is running exactly when one
  of its attempts is, and that attempt and the job carry the same owner and fence token; no
  attempt is left running without its job, whichever claims, completions, heartbeats,
  promotions and recoveries are interleaved.\<close>

theorem one_running_attempt_per_running_job:
  assumes "\<forall>(e, c) \<in> set h. orderly c"
  shows "queue_ok (run_history h empty_db)"
  using orderly_history [OF assms] queue_ok_empty
  by (induction rule: rtranclp_induct) (auto intro: orderly_write_keeps_queue)

text \<open>An orderly client that takes a lease, creates a job, claims it, and has it recovered.\<close>

definition orderly_run :: "(env \<times> command) list" where
  "orderly_run =
     [(sample_env, AcquireLease ''ctl'' ''controller'' 90 []),
      (sample_env, CreateJob \<lparr>ca_job = ''j1'', ca_payload = [], ca_run = None, ca_task = None, ca_priority = 0,
         ca_status = Queued, ca_owner = None, ca_fence = None, ca_scope = ''controller'', ca_event = None,
         ca_envelope = None\<rparr>),
      (sample_env, ClaimJob ''j1'' ''ctl'' 1 90 ''controller'' True None),
      (sample_env, Recover ''ctl'' 1 ''controller'' Retry [(''j1'', ''dead'')] True)]"

lemma one_running_attempt_per_running_job_witness: "queue_ok (run_history orderly_run empty_db)"
  by (rule one_running_attempt_per_running_job) (simp add: orderly_run_def)

end
