(* ===== verification/StoreProtocol.thy ===== *)
theory StoreProtocol
  imports StoreQueue
begin

text \<open>
  The job protocol that the store promises its clients, and the proof that every command refines it.

  The protocol knows of a job only its phase: held by a controller under a token, or resting in some
  status. Its events are the labels \<open>change\<close> of the store's writes; a step of the protocol says in
  which phase an event may happen and which phase follows it. Attempts, leases, retry stamps, events
  and rows are not in it. \<open>phases\<close> reads the protocol's state off the jobs table. A command refines
  the protocol when the phases after it are reached from the phases before it by events that this
  command may cause (\<open>permitted\<close>); \<open>demanded\<close> adds which phases the command has to leave, so that a
  command that does nothing is no refinement either. \<open>permitted\<close> and \<open>demanded\<close> name the statuses on
  their own; of the code \<open>demanded\<close> uses the readings it takes for granted (which job is runnable, which
  reservation allows a claim, which lease has lapsed).
\<close>

section \<open>The protocol\<close>

datatype phase = Held string int | Resting job_status

type_synonym protocol = "string \<Rightarrow> phase option"

inductive protocol_step :: "protocol \<Rightarrow> change \<Rightarrow> protocol \<Rightarrow> bool" where
  submitted: "m i = None \<Longrightarrow> st \<noteq> Running \<Longrightarrow> protocol_step m (Adds i st) (m(i \<mapsto> Resting st))"
| taken: "m i = Some (Resting st) \<Longrightarrow> st \<in> {Queued, Retry} \<Longrightarrow>
    protocol_step m (Claims i owner fence) (m(i \<mapsto> Held owner fence))"
| finished: "m i = Some (Held owner fence) \<Longrightarrow> st \<in> {Completed, Failed, Retry} \<Longrightarrow>
    protocol_step m (Ends i owner fence st) (m(i \<mapsto> Resting st))"
| reclaimed: "m i = Some (Held owner fence) \<Longrightarrow> st \<in> {Retry, Failed, Queued, Blocked} \<Longrightarrow>
    protocol_step m (Recovers i st) (m(i \<mapsto> Resting st))"
| requeued: "m i = Some (Resting st) \<Longrightarrow> st \<in> {Failed, Blocked, Pending, Retry} \<Longrightarrow>
    protocol_step m (Requeues i) (m(i \<mapsto> Resting Queued))"

inductive_cases protocol_stepE: "protocol_step m ch m'"

text \<open>Events that \<open>may\<close> happen, one after another.\<close>

definition protocol_run :: "(change \<Rightarrow> bool) \<Rightarrow> protocol \<Rightarrow> protocol \<Rightarrow> bool" where
  "protocol_run may = (\<lambda>m m'. \<exists>ch. may ch \<and> protocol_step m ch m')\<^sup>*\<^sup>*"

lemma protocol_run_refl [simp]: "protocol_run may m m"
  by (simp add: protocol_run_def)

lemma protocol_run_one: "protocol_step m ch m' \<Longrightarrow> may ch \<Longrightarrow> protocol_run may m m'"
  by (auto simp: protocol_run_def)

lemma protocol_run_trans: "protocol_run may m m' \<Longrightarrow> protocol_run may m' m'' \<Longrightarrow> protocol_run may m m''"
  by (auto simp: protocol_run_def)

lemma protocol_run_mono: "protocol_run may m m' \<Longrightarrow> (\<And>ch. may ch \<Longrightarrow> may' ch) \<Longrightarrow> protocol_run may' m m'"
  unfolding protocol_run_def by (erule rtranclp_mono [THEN predicate2D, rotated]) blast

lemma protocol_run_keeps:
  assumes "protocol_run may m m'" and "P m" and "\<And>m ch m'. P m \<Longrightarrow> may ch \<Longrightarrow> protocol_step m ch m' \<Longrightarrow> P m'"
  shows "P m'"
  using assms(1) unfolding protocol_run_def
  by (induction rule: rtranclp_induct) (use assms(2,3) in blast)+

section \<open>The abstraction\<close>

definition phase_of :: "job_row \<Rightarrow> phase" where
  "phase_of j = (if j_status j = Running then Held (otext (j_owner j)) (int_or_zero (j_fence j)) else Resting (j_status j))"

definition phases :: "db \<Rightarrow> protocol" where
  "phases s = map_of (map (\<lambda>j. (j_id j, phase_of j)) (jobs s))"

lemma phases_cong:
  assumes "jobs s' = upd_where p f (jobs s)" and "\<And>x. j_id (f x) = j_id x"
    and "\<And>x. x \<in> set (jobs s) \<Longrightarrow> p x \<Longrightarrow> phase_of (f x) = phase_of x"
  shows "phases s' = phases s"
proof -
  have "map (\<lambda>j. (j_id j, phase_of j)) (upd_where p f xs) = map (\<lambda>j. (j_id j, phase_of j)) xs"
    if "\<And>x. x \<in> set xs \<Longrightarrow> p x \<Longrightarrow> phase_of (f x) = phase_of x" for xs
    using that by (induction xs) (simp_all add: assms(2))
  with assms(1,3) show ?thesis by (simp add: phases_def)
qed

lemma phases_found: "distinct (map j_id (jobs s)) \<Longrightarrow> j \<in> set (jobs s) \<Longrightarrow> phases s (j_id j) = Some (phase_of j)"
  by (auto simp: phases_def comp_def intro!: map_of_is_SomeI)

text \<open>An update that touches the one row of a job changes that job's phase only.\<close>

lemma phases_update_one:
  assumes "distinct (map j_id (jobs s))" and "j \<in> set (jobs s)" and "p j" and "\<And>x. p x \<Longrightarrow> j_id x = j_id j"
    and "\<And>x. j_id (f x) = j_id x" and "jobs s' = upd_where p f (jobs s)"
  shows "phases s' = (phases s)(j_id j \<mapsto> phase_of (f j))"
proof -
  have "map_of (map (\<lambda>j. (j_id j, phase_of j)) (upd_where p f xs))
      = (map_of (map (\<lambda>j. (j_id j, phase_of j)) xs))(j_id j \<mapsto> phase_of (f j))"
    if "distinct (map j_id xs)" "j \<in> set xs" for xs
    using that
  proof (induction xs)
    case (Cons x xs)
    show ?case
    proof (cases "x = j")
      case True
      with Cons.prems(1) have "upd_where p f xs = xs"
        using assms(4) by (intro upd_where_none) (metis distinct.simps(2) image_eqI list.map(2) set_map)
      with True show ?thesis by (auto simp: assms(3,5))
    next
      case False
      with Cons.prems have "\<not> p x" "j \<in> set xs" using assms(4) by auto
      with Cons.IH Cons.prems have "j_id x \<noteq> j_id j" by auto
      with Cons.IH Cons.prems \<open>\<not> p x\<close> \<open>j \<in> set xs\<close> show ?thesis by (simp add: fun_eq_iff)
    qed
  qed simp
  with assms(1,2,6) show ?thesis by (simp add: phases_def)
qed

lemma phases_jobs: "jobs s' = jobs s \<Longrightarrow> phases s' = phases s"
  by (simp add: phases_def)

lemma added_phase:
  assumes "find_job (j_id j) s = None"
  shows "phases s (j_id j) = None" "phases (s\<lparr>jobs := jobs s @ [j]\<rparr>) = (phases s)(j_id j \<mapsto> phase_of j)"
proof -
  show new: "phases s (j_id j) = None"
    using assms by (auto simp: phases_def map_of_eq_None_iff find_job_def find_None_iff comp_def)
  show "phases (s\<lparr>jobs := jobs s @ [j]\<rparr>) = (phases s)(j_id j \<mapsto> phase_of j)"
    using new by (auto simp: phases_def map_add_def split: option.split)
qed

section \<open>Refinement\<close>

lemma stop_phases:
  assumes q: "queue_ok s" and "jobs s' = upd_where p f (jobs s)" and "\<And>x. j_id (f x) = j_id x"
    and "\<And>x. p x \<Longrightarrow> j_id x = i \<and> j_status x = Running" and "\<And>x. j_status (f x) = st" and "st \<noteq> Running"
    and step: "\<And>j m. p j \<Longrightarrow> m i = Some (Held (otext (j_owner j)) (int_or_zero (j_fence j))) \<Longrightarrow>
      protocol_step m ch (m(i \<mapsto> Resting st))" and "ord ch"
  shows "protocol_run ord (phases s) (phases s')"
proof (cases "\<exists>j \<in> set (jobs s). p j")
  case True
  then obtain j where j: "j \<in> set (jobs s)" "p j" by blast
  have "phases s' = (phases s)(j_id j \<mapsto> phase_of (f j))"
    by (rule phases_update_one [where p = p and f = f and j = j]) (use assms j queue_okD(1) [OF q] in auto)
  moreover have "phases s i = Some (Held (otext (j_owner j)) (int_or_zero (j_fence j)))"
    using phases_found [OF queue_okD(1) [OF q] j(1)] assms(4) [OF j(2)] by (simp add: phase_of_def)
  ultimately show ?thesis
    using step [OF j(2)] assms(4) [OF j(2)] assms(5,6,8)
    by (auto simp: phase_of_def simp del: fun_upd_apply intro: protocol_run_one)
next
  case False
  then have "phases s' = phases s"
    by (intro phases_cong [OF assms(2)]) (use assms(3) in auto)
  then show ?thesis by simp
qed

lemma stutter: "phases s' = phases s \<Longrightarrow> protocol_run may (phases s) (phases s')"
  by simp

lemma write_refines_protocol:
  assumes "db_write ord s s'" and "\<And>ch. ord ch \<Longrightarrow> tidy ch" and "queue_ok s"
  shows "protocol_run ord (phases s) (phases s')"
  using assms(1,3)
proof (induction rule: db_write.induct)
  case (job_added j s)
  note added_phase [OF job_added.hyps(1)]
  moreover have "j_status j \<noteq> Running"
    using assms(2) [OF job_added.hyps(3)] by simp
  ultimately show ?case
    using job_added.hyps(3)
    by (auto simp: phase_of_def simp del: fun_upd_apply intro: protocol_run_one submitted)
next
  case (requeued i s t pl pr)
  let ?p = "\<lambda>x. j_id x = i \<and> requeueable (j_status x)"
  let ?f = "\<lambda>x. x\<lparr>j_status := Queued, j_priority := pr, j_payload := pl, j_updated := t, j_completed := None,
             j_owner := None, j_fence := None, j_expires := None, j_retry_at := None,
             j_error_class := None, j_error := None, j_revision := j_revision x + 1\<rparr>"
  show ?case
  proof (cases "\<exists>j \<in> set (jobs s). ?p j")
    case True
    then obtain j where j: "j \<in> set (jobs s)" "?p j" by blast
    have "phases (s\<lparr>jobs := upd_where ?p ?f (jobs s)\<rparr>) = (phases s)(j_id j \<mapsto> phase_of (?f j))"
      by (rule phases_update_one [where p = ?p and f = ?f and j = j])
        (use j queue_okD(1) [OF requeued.prems] in auto)
    moreover have "phases s i = Some (Resting (j_status j))"
      using phases_found [OF queue_okD(1) [OF requeued.prems] j(1)] j(2)
      by (auto simp: phase_of_def requeueable_def)
    ultimately show ?thesis
      using j(2) requeued.hyps
      by (auto simp: phase_of_def requeueable_def simp del: fun_upd_apply
          intro!: protocol_run_one [where ch = "Requeues i"] protocol_step.requeued)
  next
    case False
    then have "phases (s\<lparr>jobs := upd_where ?p ?f (jobs s)\<rparr>) = phases s"
      by (intro phases_cong [where p = ?p and f = ?f]) auto
    then show ?thesis by simp
  qed
next
  case (claimed j e s attempt owner fence ttl)
  let ?p = "\<lambda>x. j_id x = j_id j \<and> claimable_row e x" and ?f = "claim_update e j owner fence ttl"
  obtain x where x: "x \<in> set (jobs s)" "?p x"
    using claimed.hyps(1) rowcount_zero [of ?p "jobs s"] by fastforce
  have "phases (claim_writes e j attempt owner fence ttl s) = (phases s)(j_id x \<mapsto> phase_of (?f x))"
    by (rule phases_update_one [where p = ?p and f = ?f and j = x])
      (use x queue_okD(1) [OF claimed.prems] in \<open>auto simp: claim_writes_def claim_update_def\<close>)
  moreover have "phases s (j_id x) = Some (Resting (j_status x))" "j_status x \<in> {Queued, Retry}"
    using phases_found [OF queue_okD(1) [OF claimed.prems] x(1)] x(2)
    by (auto simp: phase_of_def claimable_row_def)
  ultimately show ?case
    using x(2) claimed.hyps(3)
    by (auto simp: phase_of_def claim_update_def int_or_zero_def simp del: fun_upd_apply
        intro!: protocol_run_one [where ch = "Claims (j_id j) owner fence"] taken)
next
  case (ended job attempt owner fence s success retryable)
  show ?case
    by (rule stop_phases [where i = job and st = "terminal_job_status success retryable", OF ended.prems], simp)
      (use ended.hyps(3) in \<open>auto simp: terminal_job_status_def int_or_zero_def otext_def intro!: finished split: if_splits\<close>)
next
  case (recovered rv job s e)
  then show ?case
    by (intro stop_phases [where i = job and st = "rv_status rv" and ch = "Recovers job (rv_status rv)", OF recovered.prems])
      (simp add: recover_rows_def, auto intro: reclaimed)
next
  case beaten
  show ?case
    by (rule stutter, rule phases_cong, simp) (auto simp: phase_of_def)
qed (simp_all add: phases_def)

lemma writes_refine_protocol:
  assumes "(db_write ord)\<^sup>*\<^sup>* s s'" and tidy: "\<And>ch. ord ch \<Longrightarrow> tidy ch" and "queue_ok s"
  shows "queue_ok s' \<and> protocol_run ord (phases s) (phases s')"
  using assms(1)
proof (induction rule: rtranclp_induct)
  case (step s1 s2)
  then have "queue_ok s2"
    by (auto intro: orderly_write_keeps_queue db_write_mono [OF step.hyps(2)] tidy)
  moreover have "protocol_run ord (phases s1) (phases s2)"
    using write_refines_protocol [OF step.hyps(2) tidy] step.IH by blast
  ultimately show ?case using step.IH by (auto intro: protocol_run_trans)
qed (simp add: assms(3))

section \<open>What a command leaves behind\<close>

text \<open>\<open>leaves Q m s\<close>: when \<open>m\<close> returns from \<open>s\<close>, the phases satisfy \<open>Q\<close>. A part of an operation
  that makes no labelled write keeps every phase.\<close>

definition leaves :: "(protocol \<Rightarrow> bool) \<Rightarrow> 'a op \<Rightarrow> db \<Rightarrow> bool" where
  "leaves Q m s \<longleftrightarrow> (\<forall>x s'. m s = Inr (x, s') \<longrightarrow> Q (phases s'))"

definition no_change :: "change \<Rightarrow> bool" where
  "no_change ch = False"

lemma quiet_write: "db_write no_change s s' \<Longrightarrow> phases s' = phases s"
proof (induction rule: db_write.induct)
  case beaten
  show ?case by (rule phases_cong, simp) (auto simp: phase_of_def)
qed (simp_all add: phases_def no_change_def)

lemma quiet_writes: "(db_write no_change)\<^sup>*\<^sup>* s s' \<Longrightarrow> phases s' = phases s"
  by (induction rule: rtranclp_induct) (simp_all add: quiet_write)

lemma leaves_quiet: "tx_rel (db_write no_change) m \<Longrightarrow> Q (phases s) \<Longrightarrow> leaves Q m s"
  unfolding leaves_def by (metis quiet_writes tx_relD)

lemma leaves_bind: "(\<And>x s1. m s = Inr (x, s1) \<Longrightarrow> leaves Q (f x) s1) \<Longrightarrow> leaves Q (tx_bind m f) s"
  by (auto simp: leaves_def tx_bind_Inr)

lemma leaves_seq: "(\<And>s1. m s = Inr ((), s1) \<Longrightarrow> leaves Q n s1) \<Longrightarrow> leaves Q (tx_seq m n) s"
  by (auto simp: leaves_def tx_seq_Inr)

lemma leaves_then: "leaves Q m s \<Longrightarrow> tx_rel (db_write no_change) n \<Longrightarrow> leaves Q (tx_seq m n) s"
  unfolding leaves_def tx_seq_Inr by (metis quiet_writes tx_relD)

lemma leaves_past: "tx_frame jobs m \<Longrightarrow> (\<And>x s1. jobs s1 = jobs s \<Longrightarrow> leaves Q (f x) s1) \<Longrightarrow> leaves Q (tx_bind m f) s"
  by (rule leaves_bind) (blast dest: tx_frameD)

lemma fence_pair_keeps: "fence_pair e scope ow fe s = Inr (u, s') \<Longrightarrow> s' = s"
  by (cases ow; cases fe) (simp_all add: fence_pair_def)

lemma leaves_rules:
  "leaves Q (f (g s)) s \<Longrightarrow> leaves Q (tx_bind (tx_get g) f) s"
  "(\<not> b \<Longrightarrow> leaves Q m s) \<Longrightarrow> leaves Q (tx_seq (tx_raise_if b x) m) s"
  "leaves Q m s \<Longrightarrow> leaves Q (tx_seq (assert_lease e scope owner fence) m) s"
  "leaves Q m s \<Longrightarrow> leaves Q (tx_seq (fence_pair e scope ow fe) m) s"
  "leaves Q m (h s) \<Longrightarrow> leaves Q (tx_seq (tx_modify h) m) s"
  "leaves Q m s \<Longrightarrow> leaves Q (discard m) s"
  "Q (phases s) \<Longrightarrow> leaves Q (tx_return y) s"
  "leaves Q (tx_raise x) s"
  by (auto simp: leaves_def tx_results discard_def dest: fence_pair_keeps)

lemma leaves_frame:
  assumes "tx_frame jobs m" and "Q (phases s)" shows "leaves Q m s"
  unfolding leaves_def
proof (intro allI impI)
  fix x s' assume "m s = Inr (x, s')"
  from tx_frameD [OF assms(1) this] have "phases s' = phases s" by (rule phases_jobs)
  with assms(2) show "Q (phases s')" by simp
qed

lemma leaves_mono: "leaves Q m s \<Longrightarrow> (\<And>ps. Q ps \<Longrightarrow> Q' ps) \<Longrightarrow> leaves Q' m s"
  by (auto simp: leaves_def)

lemma leaves_sum:
  "(\<And>x. z = Inl x \<Longrightarrow> leaves Q (f x) s) \<Longrightarrow> (\<And>y. z = Inr y \<Longrightarrow> leaves Q (g y) s) \<Longrightarrow>
    leaves Q (case z of Inl x \<Rightarrow> f x | Inr y \<Rightarrow> g y) s"
  by (cases z) auto

lemma leaves_prod: "(\<And>x y. z = (x, y) \<Longrightarrow> leaves Q (f x y) s) \<Longrightarrow> leaves Q (case z of (x, y) \<Rightarrow> f x y) s"
  by (cases z) auto

lemma leaves_refetch: "f s = Some r \<Longrightarrow> leaves Q (k r) s \<Longrightarrow> leaves Q (tx_bind (refetch f) k) s"
  by (auto simp: leaves_def tx_bind_Inr refetch_def)

lemma leaves_bind_then:
  "leaves Q m s \<Longrightarrow> (\<And>x. tx_rel (db_write no_change) (f x)) \<Longrightarrow> leaves Q (tx_bind m f) s"
  unfolding leaves_def tx_bind_Inr by (metis quiet_writes tx_relD)

text \<open>The new phase of a job whose row an update touched.\<close>

lemma updated_phase:
  assumes "distinct (map j_id (jobs s))" and "rowcount p (jobs s) = 1" and "\<And>x. p x \<Longrightarrow> j_id x = i"
    and "\<And>x. j_id (f x) = j_id x" and "\<And>x. phase_of (f x) = ph" and "jobs s' = upd_where p f (jobs s)"
  shows "phases s' = (phases s)(i \<mapsto> ph)"
proof -
  obtain x where x: "x \<in> set (jobs s)" "p x"
    using assms(2) rowcount_zero [of p "jobs s"] by fastforce
  with phases_update_one [OF assms(1) x _ assms(4,6)] assms(3,5) show ?thesis by simp
qed

lemma requeued_phase:
  assumes "distinct (map j_id (jobs s))" and "\<not> rowcount (\<lambda>x. j_id x = job \<and> requeueable (j_status x)) (jobs s) \<noteq> 1"
  shows "phases (s\<lparr>jobs := upd_where (\<lambda>x. j_id x = job \<and> requeueable (j_status x))
      (\<lambda>x. x\<lparr>j_status := Queued, j_priority := pr, j_payload := pl, j_updated := t, j_completed := None,
             j_owner := None, j_fence := None, j_expires := None, j_retry_at := None,
             j_error_class := None, j_error := None, j_revision := j_revision x + 1\<rparr>) (jobs s)\<rparr>)
    = (phases s)(job \<mapsto> Resting Queued)"
  by (subst updated_phase [OF assms(1), where i = job and ph = "Resting Queued"])
    (use assms(2) in \<open>simp_all add: phase_of_def\<close>)

lemma requeue_leaves:
  assumes "distinct (map j_id (jobs s))"
  shows "leaves (\<lambda>m. m = (phases s)(job \<mapsto> Resting Queued)) (requeue_job e job owner fence payload priority reason scope) s"
  unfolding requeue_job_def Let_def
  by (intro leaves_rules, split option.split, intro conjI impI allI leaves_rules, split if_split,
      intro conjI impI leaves_rules)
    (rule leaves_quiet, intro tx_rels, rule requeued_phase [OF assms])

lemma found_phase: "distinct (map j_id (jobs s)) \<Longrightarrow> find_job i s = Some j \<Longrightarrow> phases s i = Some (phase_of j)"
  using phases_found [of s j] by (auto simp: find_job_def dest!: find_Some_D)

lemma create_leaves:
  assumes "distinct (map j_id (jobs s))" and "ca_status ca \<noteq> Running"
  shows "leaves (\<lambda>m. m = (if phases s (ca_job ca) = None then (phases s)(ca_job ca \<mapsto> Resting (ca_status ca)) else phases s))
    (create_job e ca) s"
proof -
  let ?j = "new_job_row (ca_job ca) (ca_run ca) (ca_task ca) (ca_status ca) (ca_priority ca) (ca_payload ca) (now_text e)"
  let ?m = "if phases s (ca_job ca) = None then (phases s)(ca_job ca \<mapsto> Resting (ca_status ca)) else phases s"
  have old: "phases s = ?m" if "find_job (ca_job ca) s = Some j" for j
    using found_phase [OF assms(1) that] by simp
  have new: "phases (s\<lparr>jobs := jobs s @ [?j]\<rparr>) = ?m" if "find_job (ca_job ca) s = None"
    using added_phase [of ?j s] that assms(2) by (simp add: new_job_row_def phase_of_def)
  show ?thesis
    unfolding create_job_def
    by (intro leaves_rules, split option.split, intro conjI impI allI, intro leaves_rules, rule leaves_quiet,
        intro tx_rels, erule new)
      (split if_split, intro conjI impI leaves_rules, rule leaves_quiet, intro tx_rels, erule old)
qed

lemma claim_row_leaves:
  assumes "distinct (map j_id (jobs s))" and "j_status j \<noteq> Running"
  shows "leaves (\<lambda>m. m = (phases s)(j_id j \<mapsto> Held owner fence)) (claim_row e j owner fence ttl scope event) s"
proof -
  have upd: "phases (s1\<lparr>jobs := upd_where (\<lambda>x. j_id x = j_id j \<and> claimable_row e x)
                (claim_update e j owner fence ttl) (jobs s1)\<rparr>) = (phases s)(j_id j \<mapsto> Held owner fence)"
    if "jobs s1 = jobs s" "\<not> rowcount (\<lambda>x. j_id x = j_id j \<and> claimable_row e x) (jobs s1) \<noteq> 1" for s1
    by (subst updated_phase [where i = "j_id j" and ph = "Held owner fence"])
      (use assms(1) that phases_jobs [OF that(1)]
        in \<open>simp_all add: phase_of_def claim_update_def int_or_zero_def\<close>)
  have "tx_frame jobs (new_id e p)" for p
    by (rule new_id_rel) simp
  moreover have "tx_frame jobs (insert_attempt a)" for a
    by (rule tx_frameI) (auto simp: insert_attempt_def split: if_splits)
  ultimately show ?thesis
    unfolding claim_row_def
    by - (rule leaves_past, assumption, simp only: assms(2) if_False, rule leaves_seq,
      simp only: tx_return_Inr, elim conjE, hypsubst, intro leaves_rules, rule leaves_then, rule leaves_frame,
      assumption, erule (1) upd, intro tx_rels)
qed

lemma claim_leaves:
  assumes "distinct (map j_id (jobs s))"
  shows "leaves (\<lambda>m. m = (case find_job job s of None \<Rightarrow> phases s
      | Some j \<Rightarrow> if runnable e j \<and> reservation_is_claimable e j owner fence scope require s
                  then (phases s)(job \<mapsto> Held owner fence) else phases s))
    (claim_job e job owner fence ttl scope require event) s"
proof -
  have "leaves (\<lambda>m. m = (phases s)(job \<mapsto> Held owner fence))
      (tx_bind (claim_row e j owner fence ttl scope event) (\<lambda>r. tx_return (Some r))) s"
    if "find_job job s = Some j" "runnable e j" for j
    using claim_row_leaves [OF assms runnable_not_running [OF that(2)], where e = e and owner = owner and fence = fence
        and ttl = ttl and scope = scope and event = event] found_job_id [OF that(1)]
    by (auto simp: leaves_def tx_bind_Inr)
  then show ?thesis
    unfolding claim_job_def
    by (intro leaves_rules, split option.split, intro conjI impI allI leaves_rules, simp)
      (auto intro!: leaves_rules)
qed

lemma reserve_and_claim_leaves:
  assumes "distinct (map j_id (jobs s))"
  shows "leaves (\<lambda>m. \<exists>j. find_job (ra_job ra) s = Some j \<and> m =
      (if runnable e j then (phases s)(ra_job ra \<mapsto> Held (ra_owner ra) (ra_fence ra)) else phases s))
    (reserve_and_claim e ra ga) s"
proof -
  have claim: "leaves (\<lambda>m. m = (phases s)(ra_job ra \<mapsto> Held (ra_owner ra) (ra_fence ra)))
      (tx_bind (claim_row e j (ra_owner ra) (ra_fence ra) (ra_ttl ra) (ra_scope ra) None) (\<lambda>(j2, a).
         tx_seq (run_optional (\<lambda>st. put_governor_tx e st (ga_policy ga) (ga_observed ga) (ra_scope ra)
                   (Some (ra_owner ra)) (Some (ra_fence ra))) (ga_state ga))
           (tx_return (Some (r, j2, a))))) s1"
    if "find_job (ra_job ra) s = Some j" "runnable e j" "jobs s1 = jobs s" for j s1 and r :: reservation_row
    using claim_row_leaves [of s1 j, OF _ runnable_not_running [OF that(2)]] assms found_job_id [OF that(1)]
      phases_jobs [OF that(3)] that(3)
    by (intro leaves_bind_then tx_rels put_governor_writes) simp
  have body: "leaves (\<lambda>m. m = (phases s)(ra_job ra \<mapsto> Held (ra_owner ra) (ra_fence ra)))
      (tx_bind (reserve_tx e ra rid request admission capacity) (\<lambda>reservation.
       tx_bind (refetch (find_job (ra_job ra))) (\<lambda>j'.
       tx_bind (tx_get (reservation_is_claimable e j' (ra_owner ra) (ra_fence ra) (ra_scope ra) True)) (\<lambda>ok.
       tx_seq (tx_raise_if (\<not> ok) ReservationAdmissionErr)
       (tx_bind (claim_row e j' (ra_owner ra) (ra_fence ra) (ra_ttl ra) (ra_scope ra) None) (\<lambda>(j2, a).
         tx_seq (run_optional (\<lambda>st. put_governor_tx e st (ga_policy ga) (ga_observed ga) (ra_scope ra)
                   (Some (ra_owner ra)) (Some (ra_fence ra))) (ga_state ga))
           (tx_return (Some (reservation, j2, a))))))))) s1"
    if "find_job (ra_job ra) s = Some j" "runnable e j" "jobs s1 = jobs s" for j s1 rid request admission capacity
  proof (rule leaves_bind)
    fix r s2
    assume "reserve_tx e ra rid request admission capacity s1 = Inr (r, s2)"
    then have s2: "jobs s2 = jobs s" using reserve_tx_jobs that(3) by metis
    with that(1) have "find_job (ra_job ra) s2 = Some j"
      by (simp add: find_job_def)
    then show "leaves (\<lambda>m. m = (phases s)(ra_job ra \<mapsto> Held (ra_owner ra) (ra_fence ra)))
      (tx_bind (refetch (find_job (ra_job ra))) (\<lambda>j'.
       tx_bind (tx_get (reservation_is_claimable e j' (ra_owner ra) (ra_fence ra) (ra_scope ra) True)) (\<lambda>ok.
       tx_seq (tx_raise_if (\<not> ok) ReservationAdmissionErr)
       (tx_bind (claim_row e j' (ra_owner ra) (ra_fence ra) (ra_ttl ra) (ra_scope ra) None) (\<lambda>(j2, a).
         tx_seq (run_optional (\<lambda>st. put_governor_tx e st (ga_policy ga) (ga_observed ga) (ra_scope ra)
                   (Some (ra_owner ra)) (Some (ra_fence ra))) (ga_state ga))
           (tx_return (Some (r, j2, a)))))))) s2"
      by (rule leaves_refetch, intro leaves_rules claim [OF that(1,2) s2])
  qed
  have token: "tx_frame jobs (reservation_token e ra)"
    by (auto simp: reservation_token_def intro!: tx_rel_if new_id_rel tx_rel_basic)
  show ?thesis
    unfolding reserve_and_claim_def
    by (intro leaves_sum leaves_prod leaves_rules, rule leaves_past, rule token, intro leaves_rules,
        split option.split, intro conjI impI allI leaves_rules, split if_split, intro conjI impI)
      (rule leaves_rules, auto simp: find_job_def dest: phases_jobs intro!: leaves_mono [OF body])
qed

lemma finish_job_phases:
  assumes "distinct (map j_id (jobs s))" and "st \<noteq> Running"
    and "finish_job e job owner fence st success ra ec er s = Inr (x, s')"
  shows "phases s' = (phases s)(job \<mapsto> Resting st)"
proof -
  let ?p = "\<lambda>x. j_id x = job \<and> j_status x = Running \<and> j_owner x = Some owner \<and> j_fence x = Some fence"
  show ?thesis
    by (rule updated_phase [OF assms(1), where p = ?p])
      (use assms(2,3) in \<open>auto simp: finish_job_def Let_def tx_results phase_of_def\<close>)
qed

lemma complete_leaves:
  assumes "distinct (map j_id (jobs s))"
  shows "leaves (\<lambda>m. \<exists>a. find_attempt (co_attempt co) s = Some a \<and> m =
      (if a_status a = ARunning
       then (phases s)(co_job co \<mapsto> Resting (terminal_job_status (co_success co) (co_retryable co))) else phases s))
    (complete_job e co) s"
proof -
  have fr: "tx_frame jobs (finish_attempt e attempt owner fence st re ar va ec er)" for attempt owner fence st re ar va ec er
    by (rule tx_frameI) (auto simp: finish_attempt_def Let_def tx_results)
  have "leaves (\<lambda>m. m = (phases s)(co_job co \<mapsto> Resting (terminal_job_status (co_success co) (co_retryable co))))
      (tx_seq (finish_attempt e (co_attempt co) (co_owner co) (co_fence co) st re ar va ec er)
         (finish_job e (co_job co) (co_owner co) (co_fence co)
            (terminal_job_status (co_success co) (co_retryable co)) succ ra ec er)) s"
    for st re ar va ec er succ ra
  proof (rule leaves_seq)
    fix s1 assume "finish_attempt e (co_attempt co) (co_owner co) (co_fence co) st re ar va ec er s = Inr ((), s1)"
    then have s1: "jobs s1 = jobs s" using tx_frameD [OF fr] by blast
    then show "leaves (\<lambda>m. m = (phases s)(co_job co \<mapsto> Resting (terminal_job_status (co_success co) (co_retryable co))))
        (finish_job e (co_job co) (co_owner co) (co_fence co)
            (terminal_job_status (co_success co) (co_retryable co)) succ ra ec er) s1"
      using finish_job_phases [of s1 "terminal_job_status (co_success co) (co_retryable co)"] assms phases_jobs [OF s1]
      by (fastforce simp: leaves_def terminal_job_status_def)
  qed
  then have "leaves (\<lambda>m. m = (phases s)(co_job co \<mapsto> Resting (terminal_job_status (co_success co) (co_retryable co))))
      (complete_owned e co) s"
    unfolding complete_owned_def by (rule leaves_then) (intro tx_rels)
  then show ?thesis
    unfolding complete_job_def
    by (intro leaves_rules) (auto simp: leaves_def split: option.splits if_splits)
qed

lemma held_row: "phases s i = Some (Held ow fe) \<Longrightarrow> \<exists>j \<in> set (jobs s). j_id j = i \<and> j_status j = Running"
  by (fastforce simp: phases_def phase_of_def dest!: map_of_SomeD split: if_splits)

text \<open>The events of a recovery of the jobs \<open>is\<close>, and what a run of them does to a phase.\<close>

definition recovers :: "(string \<Rightarrow> job_status) \<Rightarrow> string set \<Rightarrow> change \<Rightarrow> bool" where
  "recovers status_of is ch \<longleftrightarrow> (\<exists>i \<in> is. ch = Recovers i (status_of i))"

lemma recovers_run:
  assumes "protocol_run (recovers status_of is) m m'"
  shows "m' i = m i \<or> i \<in> is \<and> (\<exists>ow fe. m i = Some (Held ow fe)) \<and> m' i = Some (Resting (status_of i))"
proof (rule protocol_run_keeps [OF assms])
  fix m1 ch m2
  assume m1: "m1 i = m i \<or> i \<in> is \<and> (\<exists>ow fe. m i = Some (Held ow fe)) \<and> m1 i = Some (Resting (status_of i))"
    and ch: "recovers status_of is ch" and step: "protocol_step m1 ch m2"
  from ch obtain j where j: "j \<in> is" "ch = Recovers j (status_of j)" by (auto simp: recovers_def)
  with step obtain ow fe where "m1 j = Some (Held ow fe)" "m2 = m1(j \<mapsto> Resting (status_of j))"
    by (auto elim: protocol_stepE)
  with m1 j show "m2 i = m i \<or> i \<in> is \<and> (\<exists>ow fe. m i = Some (Held ow fe)) \<and> m2 i = Some (Resting (status_of i))"
    by (cases "i = j") (simp_all, metis)
qed simp

lemma recover_one_leaves:
  assumes "status \<in> {Retry, Failed, Queued}"
  shows "leaves (\<lambda>m. \<forall>ow fe. m job \<noteq> Some (Held ow fe)) (recover_one e owner fence strict status evidence_of job) s"
proof -
  have "phases (recover_rows e rv job s) job \<noteq> Some (Held ow fe)" if "rv_status rv \<noteq> Running" for rv ow fe
  proof
    assume "phases (recover_rows e rv job s) job = Some (Held ow fe)"
    from held_row [OF this] obtain j where j: "j \<in> set (jobs (recover_rows e rv job s))" "j_id j = job" "j_status j = Running"
      by blast
    from j(1) obtain x where x: "j = (if j_id x = job \<and> j_status x = Running
        then x\<lparr>j_status := rv_status rv, j_updated := now_text e, j_owner := None, j_fence := None,
                j_expires := None, j_retry_at := None, j_error_class := Some (rv_error_class rv),
                j_error := Some (JObj (rv_payload rv)), j_revision := j_revision x + 1\<rparr> else x)"
      by (auto simp: recover_rows_def in_upd_where)
    show False
      using j(2,3) that unfolding x by (simp split: if_splits)
  qed
  moreover have "recovered_status strict status evidence_of job \<noteq> Running"
    using assms by (auto simp: recovered_status_def)
  ultimately show ?thesis
    unfolding recover_one_def Let_def
    by (intro leaves_rules leaves_quiet tx_rels) (simp add: recovered_status_verdict)
qed

lemma recover_each:
  assumes "status \<in> {Retry, Failed, Queued}" and "set ids \<subseteq> is" and "queue_ok s"
    and "tx_each (recover_one e owner fence strict status evidence_of) ids s = Inr (cs, s')"
  shows "protocol_run (recovers (recovered_status strict status evidence_of) is) (phases s) (phases s')
    \<and> (\<forall>i \<in> set ids. \<forall>ow fe. phases s' i \<noteq> Some (Held ow fe))"
  using assms(2-4)
proof (induction ids arbitrary: s cs)
  case (Cons i ids)
  let ?may = "recovers (recovered_status strict status evidence_of) is"
  from Cons.prems(3) obtain n s1 cs1
    where one: "recover_one e owner fence strict status evidence_of i s = Inr (n, s1)"
      and rest: "tx_each (recover_one e owner fence strict status evidence_of) ids s1 = Inr (cs1, s')"
    by (auto simp: tx_bind_Inr)
  have "tx_rel (db_write ?may) (recover_one e owner fence strict status evidence_of i)"
    by (rule recover_one_writes [OF assms(1)]) (use Cons.prems(1) in \<open>auto simp: recovers_def\<close>)
  then have w: "(db_write ?may)\<^sup>*\<^sup>* s s1"
    using one by (rule tx_relD)
  have "?may ch \<Longrightarrow> tidy ch" for ch by (auto simp: recovers_def)
  then have q: "queue_ok s1" and r: "protocol_run ?may (phases s) (phases s1)"
    using writes_refine_protocol [OF w _ Cons.prems(2)] by blast+
  have free: "phases s1 i \<noteq> Some (Held ow fe)" for ow fe
    using recover_one_leaves [OF assms(1)] one by (auto simp: leaves_def)
  note ih = Cons.IH [OF _ q rest]
  have run: "protocol_run ?may (phases s1) (phases s')" using ih Cons.prems(1) by simp
  with recovers_run [OF this, of i] free ih Cons.prems(1) r show ?case
    by (auto intro: protocol_run_trans)
qed simp

lemma recover_leaves:
  assumes "queue_ok s"
  shows "leaves (\<lambda>m. m = (\<lambda>i. if \<exists>j \<in> set (jobs s). j_id j = i \<and> lease_lapsed e j
      then Some (Resting (recovered_status strict status (map_of liveness) i)) else phases s i))
    (recover_expired_jobs e owner fence scope status liveness strict) s"
proof -
  let ?ids = "map j_id (filter (lease_lapsed e) (jobs s))"
  have "phases s' i = (if \<exists>j \<in> set (jobs s). j_id j = i \<and> lease_lapsed e j
      then Some (Resting (recovered_status strict status (map_of liveness) i)) else phases s i)"
    if st: "status \<in> {Retry, Failed, Queued}"
      and each: "tx_each (recover_one e owner fence strict status (map_of liveness)) ?ids s = Inr (cs, s')" for cs s' i
  proof -
    note r = recover_each [OF st subset_refl assms each]
    show ?thesis
    proof (cases "\<exists>j \<in> set (jobs s). j_id j = i \<and> lease_lapsed e j")
      case True
      then obtain j where j: "j \<in> set (jobs s)" "j_id j = i" "lease_lapsed e j" by blast
      then have "phases s i = Some (Held (otext (j_owner j)) (int_or_zero (j_fence j)))"
        using phases_found [OF queue_okD(1) [OF assms] j(1)] by (simp add: phase_of_def lease_lapsed_def)
      with True r recovers_run [OF conjunct1 [OF r], of i] show ?thesis by auto
    next
      case False
      with recovers_run [OF conjunct1 [OF r], of i] show ?thesis by auto
    qed
  qed
  then show ?thesis
    unfolding recover_expired_jobs_def
    by (intro leaves_rules) (auto simp: leaves_def tx_bind_Inr)
qed

section \<open>Every command\<close>

text \<open>The phases a command that returned leaves, from the state it started in. A claim takes the job it
  names if the job is runnable and its reservation allows it; a completion ends the job of a running
  attempt and only repeats the answer for an ended one; a recovery stops the jobs whose lease has
  lapsed and no other. For a batch claim, a promotion and an import the theorem says which events
  happened, not which jobs were chosen. Every other command leaves all phases.\<close>

definition recovered_phases :: "env \<Rightarrow> (string \<Rightarrow> job_status) \<Rightarrow> db \<Rightarrow> protocol" where
  "recovered_phases e status_of s =
     (\<lambda>i. if \<exists>j \<in> set (jobs s). j_id j = i \<and> lease_lapsed e j then Some (Resting (status_of i)) else phases s i)"

fun demanded :: "env \<Rightarrow> command \<Rightarrow> db \<Rightarrow> protocol \<Rightarrow> bool" where
  "demanded e (CreateJob ca) s m = (m =
     (if phases s (ca_job ca) = None then (phases s)(ca_job ca \<mapsto> Resting (ca_status ca)) else phases s))"
| "demanded e (RequeueJob job owner fence payload priority reason scope) s m = (m = (phases s)(job \<mapsto> Resting Queued))"
| "demanded e (ClaimJob job owner fence ttl scope require event) s m = (m =
     (case find_job job s of None \<Rightarrow> phases s
      | Some j \<Rightarrow> if runnable e j \<and> reservation_is_claimable e j owner fence scope require s
                  then (phases s)(job \<mapsto> Held owner fence) else phases s))"
| "demanded e (ReserveAndClaim ra ga) s m = (\<exists>j. find_job (ra_job ra) s = Some j \<and> m =
     (if runnable e j then (phases s)(ra_job ra \<mapsto> Held (ra_owner ra) (ra_fence ra)) else phases s))"
| "demanded e (CompleteJob co) s m = (\<exists>a. find_attempt (co_attempt co) s = Some a \<and> m =
     (if a_status a = ARunning
      then (phases s)(co_job co \<mapsto>
             Resting (if co_success co then Completed else if co_retryable co then Retry else Failed))
      else phases s))"
| "demanded e (Recover owner fence scope status liveness strict) s m =
     (m = recovered_phases e (recovered_status strict status (map_of liveness)) s)"
| "demanded e (ClaimNext owner fence ttl scope require) s m = True"
| "demanded e (ClaimJobs owner fence n ttl scope require evs) s m = True"
| "demanded e (RecordAndComplete pa) s m = True"
| "demanded e (ImportLegacy ia) s m = True"
| "demanded e _ s m = (m = phases s)"

lemma unlabelled_run: "(\<And>ch. \<not> may ch) \<Longrightarrow> protocol_run may m m' \<Longrightarrow> m' = m"
  by (erule protocol_run_keeps [where P = "\<lambda>x. x = m"]) simp_all

lemma command_leaves:
  assumes "queue_ok s" and "orderly c"
    and "protocol_run (permitted c) (phases s) (phases s')" and "run_command e c s = Inr ((), s')"
  shows "demanded e c s (phases s')"
proof -
  have q: "distinct (map j_id (jobs s))" using queue_okD(1) [OF assms(1)] .
  have l: "Q (phases s')" if "leaves Q m s" "run_command e c = discard m" for Q and m :: "'x op"
    using leaves_rules(6) [OF that(1)] assms(4) that(2) by (simp add: leaves_def)
  show ?thesis
  proof (cases c)
    case (CreateJob ca)
    then show ?thesis using l [OF create_leaves [OF q]] assms(2) by simp
  next
    case (RequeueJob job owner fence payload priority reason scope)
    then show ?thesis using l [OF requeue_leaves [OF q]] by simp
  next
    case (ClaimJob job owner fence ttl scope require event)
    then show ?thesis using l [OF claim_leaves [OF q]] by simp
  next
    case (ReserveAndClaim ra ga)
    then show ?thesis using l [OF reserve_and_claim_leaves [OF q]] by simp
  next
    case (CompleteJob co)
    show ?thesis
      using l [OF complete_leaves [OF q, of co e]]
      by (simp only: CompleteJob demanded.simps run_command.simps terminal_job_status_def simp_thms)
  next
    case (Recover owner fence scope status liveness strict)
    then show ?thesis using l [OF recover_leaves [OF assms(1)]] by (simp add: recovered_phases_def)
  qed (use assms(3) in \<open>auto dest: unlabelled_run [rotated]\<close>)
qed

text \<open>C4. Every command of the store refines the job protocol. In every state an orderly client can reach
  from a fresh store, a command that returns moves the phases of the jobs by events of the protocol
  that this command may cause, and by no other: a creation only adds its job, a claim only takes a
  queued or retrying job for the caller's owner and token, a completion only ends a job held under
  the caller's own token and with the outcome it reports, a recovery only reclaims held jobs into the
  status its evidence allows, a requeue only puts its own failed, blocked, pending or retrying job
  back, and all other commands leave every phase as it is. The creation, the requeue, the single
  claims, the completion and the recovery also leave exactly the phases \<open>demanded\<close> of them.\<close>

theorem store_refines_the_job_protocol:
  assumes "\<forall>(e, c) \<in> set h. orderly c" and "orderly c"
    and "run_command e c (run_history h empty_db) = Inr ((), s')"
  shows "protocol_run (permitted c) (phases (run_history h empty_db)) (phases s')
    \<and> demanded e c (run_history h empty_db) (phases s')"
proof -
  have q: "queue_ok (run_history h empty_db)"
    using orderly_history [OF assms(1)] queue_ok_empty
    by (induction rule: rtranclp_induct) (auto intro: orderly_write_keeps_queue)
  have "protocol_run (permitted c) (phases (run_history h empty_db)) (phases s')"
    using writes_refine_protocol [OF tx_relD [OF command_writes assms(3)] orderly_tidy [OF assms(2)] q] by blast
  with command_leaves [OF q assms(2) _ assms(3)] show ?thesis by blast
qed

text \<open>A client that holds the lease creates a job.\<close>

definition sample_create :: command where
  "sample_create = CreateJob \<lparr>ca_job = ''j1'', ca_payload = [], ca_run = None, ca_task = None, ca_priority = 0,
     ca_status = Pending, ca_owner = Some ''ctl'', ca_fence = Some 1, ca_scope = ''controller'', ca_event = None,
     ca_envelope = None\<rparr>"

lemma create_returns: "\<not> isl (run_command sample_env sample_create (run_history (take 1 orderly_run) empty_db))"
  by code_simp

theorem store_refines_the_job_protocol_witness:
  "\<exists>s'. protocol_run (permitted sample_create) (phases (run_history (take 1 orderly_run) empty_db)) (phases s')
     \<and> demanded sample_env sample_create (run_history (take 1 orderly_run) empty_db) (phases s')"
proof -
  obtain u s' where "run_command sample_env sample_create (run_history (take 1 orderly_run) empty_db) = Inr (u, s')"
    using create_returns by (metis isl_def sumE surj_pair)
  with store_refines_the_job_protocol [of "take 1 orderly_run" sample_create sample_env s']
  show ?thesis by (auto simp: orderly_run_def sample_create_def)
qed

text \<open>What the protocol rules out, the store never does: a completed job stays completed.\<close>

lemma protocol_completed:
  "protocol_run may m m' \<Longrightarrow> m i = Some (Resting Completed) \<Longrightarrow> m' i = Some (Resting Completed)"
  by (erule protocol_run_keeps [where P = "\<lambda>m. m i = Some (Resting Completed)"])
    (auto elim!: protocol_stepE)

text \<open>And a job that a controller holds leaves its hands by its own outcome or by a recovery only.\<close>

lemma protocol_held:
  "protocol_run may m m' \<Longrightarrow> m i = Some (Held owner fence) \<Longrightarrow>
     \<not> (\<exists>st. may (Ends i owner fence st) \<or> may (Recovers i st)) \<Longrightarrow> m' i = Some (Held owner fence)"
  by (erule protocol_run_keeps [where P = "\<lambda>m. m i = Some (Held owner fence)"])
    (auto elim!: protocol_stepE)

end
