(* ===== verification/ContractChecks.thy ===== *)
theory ContractChecks
  imports Timestamps "HOL-Library.Monad_Syntax"
begin

text \<open>
  The checks behind the controller/worker contracts (\<open>api/_validation.py\<close> and the helpers of
  \<open>api/contracts.py\<close>).

  A check takes any JSON value and returns the value the program goes on with, or \<open>None\<close> where
  the program raises: \<open>ContractValidationError\<close>, or \<open>OverflowError\<close> for an integer too large for
  \<open>float\<close>, so a sequence of checks is a \<open>do\<close> block. A parsed JSON document is a \<open>json\<close> value whose
  dictionaries may still repeat a key; \<open>load_json_object\<close> refuses those.

  The locale \<open>wire\<close> states what a message type promises of its wire format: reading what was
  written gives the message back. Injectivity of the canonical text and the lifting to arrays
  follow for every message type at once.
\<close>

section \<open>Scalar checks\<close>

definition require :: "bool \<Rightarrow> unit option" where
  "require b = (if b then Some () else None)"

fun checked_list :: "('a \<Rightarrow> 'b option) \<Rightarrow> 'a list \<Rightarrow> 'b list option" where
  "checked_list f [] = Some []"
| "checked_list f (x # xs) = do { y \<leftarrow> f x; ys \<leftarrow> checked_list f xs; Some (y # ys) }"

text \<open>\<open>None\<close> stays \<open>None\<close>; anything else is checked.\<close>

definition optional :: "(json \<Rightarrow> 'a option) \<Rightarrow> json \<Rightarrow> 'a option option" where
  "optional f v = (if v = JNull then Some None else map_option Some (f v))"

fun nonempty_string :: "json \<Rightarrow> string option" where
  "nonempty_string (JStr s) = (if py_blank s then None else Some s)"
| "nonempty_string _ = None"

fun integer :: "int \<Rightarrow> json \<Rightarrow> int option" where
  "integer least (JInt i) = (if least \<le> i then Some i else None)"
| "integer least _ = None"

text \<open>A number keeps the type it came with: \<open>4\<close> and \<open>4.0\<close> are equal and print differently.\<close>

datatype num_value = NInt int | NFlt rat

definition num_val :: "num_value \<Rightarrow> rat" where
  "num_val n = (case n of NInt i \<Rightarrow> of_int i | NFlt q \<Rightarrow> q)"

definition num_json :: "num_value \<Rightarrow> json" where
  "num_json n = (case n of NInt i \<Rightarrow> JInt i | NFlt q \<Rightarrow> JFloat q)"

text \<open>\<open>float(i)\<close> raises \<open>OverflowError\<close> from half a unit above the largest double on.\<close>

definition fits_float :: "int \<Rightarrow> bool" where
  "fits_float i \<longleftrightarrow> \<bar>i\<bar> < 2 ^ 1024 - 2 ^ 970"

fun number :: "rat \<Rightarrow> json \<Rightarrow> num_value option" where
  "number least (JInt i) = (if fits_float i \<and> least \<le> of_int i then Some (NInt i) else None)"
| "number least (JFloat q) = (if least \<le> q then Some (NFlt q) else None)"
| "number least _ = None"

fun boolean :: "json \<Rightarrow> bool option" where
  "boolean (JBool b) = Some b"
| "boolean _ = None"

fun string_tuple :: "json \<Rightarrow> string list option" where
  "string_tuple (JArr vs) = do {
     xs \<leftarrow> checked_list nonempty_string vs;
     require (distinct xs);
     Some xs }"
| "string_tuple _ = None"

text \<open>\<open>timestamp\<close>: RFC 3339 with an offset; the text is kept as it is.\<close>

definition has_offset :: "string \<Rightarrow> bool" where
  "has_offset s \<longleftrightarrow> 10 < length s \<and> list_ex is_sign (drop 11 s)"

definition timestamp :: "json \<Rightarrow> string option" where
  "timestamp v = do {
     s \<leftarrow> nonempty_string v;
     require (fromisoformat (with_utc_suffix s) \<noteq> None);
     require (has_offset (with_utc_suffix s));
     Some s }"

text \<open>\<open>parse_timestamp\<close>: \<open>astimezone\<close> fails when the instant leaves the years 1 to 9999.\<close>

definition parse_timestamp :: "string \<Rightarrow> int option" where
  "parse_timestamp s = do {
     t \<leftarrow> fromisoformat (with_utc_suffix s);
     require (in_range t);
     Some t }"

text \<open>
  \<open>freshness\<close>: \<open>fresh\<close>, \<open>stale\<close> or \<open>unknown\<close>. The observer's clock is the instant \<open>clock\<close> when no
  \<open>now\<close> is given. Ages are exact, where the program divides microseconds to a double: the two
  agree for every TTL below \<open>2 ^ 33\<close> seconds.
\<close>

definition freshness :: "int \<Rightarrow> string \<Rightarrow> int option \<Rightarrow> string option \<Rightarrow> string option" where
  "freshness clock observed ttl now = do {
     timestamp (JStr observed);
     (case ttl of
        None \<Rightarrow> Some ''unknown''
      | Some n \<Rightarrow> do {
          require (1 \<le> n);
          current \<leftarrow> (case now of
             None \<Rightarrow> Some clock
           | Some s \<Rightarrow> do { timestamp (JStr s); parse_timestamp s });
          t \<leftarrow> parse_timestamp observed;
          Some (if current < t then ''unknown''
                else if current - t \<le> n * 1000000 then ''fresh'' else ''stale'') }) }"

section \<open>Objects\<close>

definition strict_object :: "string list \<Rightarrow> json \<Rightarrow> dict option" where
  "strict_object required v =
     (case v of
        JObj d \<Rightarrow>
          if list_all (\<lambda>k. k \<in> set (map fst d)) required \<and> list_all (\<lambda>k. k \<in> set required) (map fst d)
          then Some d else None
      | _ \<Rightarrow> None)"

text \<open>No dictionary of the document, at any depth, repeats a key.\<close>

primrec no_dup_keys :: "json \<Rightarrow> bool" where
  "no_dup_keys JNull = True"
| "no_dup_keys (JBool b) = True"
| "no_dup_keys (JInt i) = True"
| "no_dup_keys (JFloat q) = True"
| "no_dup_keys (JStr s) = True"
| "no_dup_keys (JArr vs) = list_all id (map no_dup_keys vs)"
| "no_dup_keys (JObj d) = (distinct (map fst d) \<and> list_all snd (map (map_prod id no_dup_keys) d))"

definition load_json_object :: "json \<Rightarrow> json option" where
  "load_json_object v = (case v of JObj d \<Rightarrow> if no_dup_keys v then Some v else None | _ \<Rightarrow> None)"

text \<open>\<open>to_json\<close> and \<open>from_json\<close> of a message type with the given \<open>to_dict\<close> and \<open>from_dict\<close>.\<close>

definition to_json :: "('a \<Rightarrow> json) \<Rightarrow> 'a \<Rightarrow> json" where
  "to_json enc x = canon (enc x)"

definition from_json :: "(json \<Rightarrow> 'a option) \<Rightarrow> json \<Rightarrow> 'a option" where
  "from_json dec v = do { d \<leftarrow> load_json_object v; dec d }"

section \<open>Identifiers, enumerations and paths\<close>

definition is_ascii_alpha :: "char \<Rightarrow> bool" where
  "is_ascii_alpha c \<longleftrightarrow> (let n = of_char c :: nat in 65 \<le> n \<and> n \<le> 90 \<or> 97 \<le> n \<and> n \<le> 122)"

definition is_ascii_alnum :: "char \<Rightarrow> bool" where
  "is_ascii_alnum c \<longleftrightarrow> is_ascii_alpha c \<or> (let n = of_char c :: nat in 48 \<le> n \<and> n \<le> 57)"

definition identifier_re :: "string \<Rightarrow> bool" where
  "identifier_re s \<longleftrightarrow> (case s of [] \<Rightarrow> False
     | c # cs \<Rightarrow> is_ascii_alnum c \<and> length cs \<le> 127
         \<and> list_all (\<lambda>x. is_ascii_alnum x \<or> x \<in> set ''._:@-'') cs)"

definition identifier_of :: "json \<Rightarrow> string option" where
  "identifier_of v = do { s \<leftarrow> nonempty_string v; require (identifier_re s); Some s }"

definition enum :: "string list \<Rightarrow> json \<Rightarrow> string option" where
  "enum allowed v = do { s \<leftarrow> nonempty_string v; require (s \<in> set allowed); Some s }"

text \<open>\<open>str.split(c)\<close> and \<open>c.join\<close> for a separator of one character.\<close>

fun split_on :: "char \<Rightarrow> string \<Rightarrow> string list" where
  "split_on c [] = [[]]"
| "split_on c (x # xs) =
     (if x = c then [] # split_on c xs
      else case split_on c xs of [] \<Rightarrow> [[x]] | w # ws \<Rightarrow> (x # w) # ws)"

fun join_on :: "char \<Rightarrow> string list \<Rightarrow> string" where
  "join_on c [] = []"
| "join_on c [w] = w"
| "join_on c (w # ws) = w @ c # join_on c ws"

text \<open>\<open>posixpath.normpath\<close>; the components gathered so far are in reverse.\<close>

fun norm_comps :: "bool \<Rightarrow> string list \<Rightarrow> string list \<Rightarrow> string list" where
  "norm_comps rooted acc [] = rev acc"
| "norm_comps rooted acc (c # cs) =
     (if c = [] \<or> c = ''.'' then norm_comps rooted acc cs
      else if c \<noteq> ''..'' \<or> \<not> rooted \<and> acc = [] \<or> acc \<noteq> [] \<and> hd acc = ''..''
      then norm_comps rooted (c # acc) cs
      else norm_comps rooted (tl acc) cs)"

text \<open>The leading slashes that are kept: two stay two, three or more become one.\<close>

definition lead_slashes :: "string \<Rightarrow> nat" where
  "lead_slashes p =
     (case takeWhile (\<lambda>c. c = CHR ''/'') p of [] \<Rightarrow> 0 | [_, _] \<Rightarrow> 2 | _ \<Rightarrow> 1)"

definition normpath :: "string \<Rightarrow> string" where
  "normpath p =
     (let k = lead_slashes p;
          r = replicate k (CHR ''/'') @ join_on (CHR ''/'') (norm_comps (0 < k) [] (split_on (CHR ''/'') p))
      in if r = [] then ''.'' else r)"

definition slashes :: "string \<Rightarrow> string" where
  "slashes s = map (\<lambda>c. if c = CHR 0x5C then CHR ''/'' else c) s"

definition char_upper :: "char \<Rightarrow> char" where
  "char_upper c = (let n = of_char c :: nat in if 97 \<le> n \<and> n \<le> 122 then char_of (n - 32) else c)"

definition windows_abs_re :: "string \<Rightarrow> bool" where
  "windows_abs_re s \<longleftrightarrow>
     (case s of a # b # c # _ \<Rightarrow> is_ascii_alpha a \<and> b = CHR '':'' \<and> (c = CHR 0x5C \<or> c = CHR ''/'')
      | _ \<Rightarrow> False)"

definition absolute_path :: "json \<Rightarrow> string option" where
  "absolute_path v = do {
     s \<leftarrow> nonempty_string v;
     require (take 1 (slashes s) = ''/'' \<or> windows_abs_re s);
     require (''..'' \<notin> set (split_on (CHR ''/'') (slashes s)));
     Some (if windows_abs_re s
           then char_upper (hd (slashes s)) # CHR '':''
                # normpath (CHR ''/'' # dropWhile (\<lambda>c. c = CHR ''/'') (drop 2 (slashes s)))
           else normpath (slashes s)) }"

section \<open>Facts of the checks\<close>

lemma require_Some [simp]: "require b = Some u \<longleftrightarrow> b"
  by (simp add: require_def)

lemma require_True [simp]: "require True = Some ()" "require False = None"
  by (simp_all add: require_def)

lemma checked_list_Some:
  "checked_list f xs = Some ys \<longleftrightarrow> list_all2 (\<lambda>x y. f x = Some y) xs ys"
  by (induction xs arbitrary: ys) (auto simp: bind_eq_Some_conv list_all2_Cons1)

lemma checked_list_map:
  "(\<And>x. x \<in> set xs \<Longrightarrow> f (g x) = Some x) \<Longrightarrow> checked_list f (map g xs) = Some xs"
  by (induction xs) auto

lemma nonempty_string_Some: "nonempty_string v = Some s \<longleftrightarrow> v = JStr s \<and> \<not> py_blank s"
  by (cases v) auto

lemma integer_Some: "integer least v = Some i \<longleftrightarrow> v = JInt i \<and> least \<le> i"
  by (cases v) auto

lemma boolean_Some: "boolean v = Some b \<longleftrightarrow> v = JBool b"
  by (cases v) auto

lemma number_Some:
  "number least v = Some n \<longleftrightarrow>
     v = num_json n \<and> least \<le> num_val n \<and> (case n of NInt i \<Rightarrow> fits_float i | _ \<Rightarrow> True)"
  by (cases v; cases n) (auto simp: num_json_def num_val_def)

text \<open>The JSON of an optional field.\<close>

definition opt_json :: "('a \<Rightarrow> json) \<Rightarrow> 'a option \<Rightarrow> json" where
  "opt_json g z = (case z of None \<Rightarrow> JNull | Some x \<Rightarrow> g x)"

lemma optional_Some:
  assumes "\<And>v x. f v = Some x \<longleftrightarrow> v = g x \<and> P x" and "\<And>x. g x \<noteq> JNull"
  shows "optional f v = Some z \<longleftrightarrow> v = opt_json g z \<and> pred_option P z"
  using assms(2) [THEN not_sym] by (cases z) (auto simp: optional_def opt_json_def assms)

lemma string_tuple_Some:
  "string_tuple v = Some xs \<longleftrightarrow> v = JArr (map JStr xs) \<and> list_all (\<lambda>s. \<not> py_blank s) xs \<and> distinct xs"
proof (cases v)
  case (JArr vs)
  have "list_all2 (\<lambda>v s. v = JStr s \<and> \<not> py_blank s) vs xs \<longleftrightarrow> vs = map JStr xs \<and> list_all (\<lambda>s. \<not> py_blank s) xs"
    by (induction vs xs rule: list_induct2') auto
  with JArr show ?thesis
    by (auto simp: bind_eq_Some_conv checked_list_Some nonempty_string_Some)
qed auto

text \<open>The texts that \<open>timestamp\<close> accepts.\<close>

definition rfc3339 :: "string \<Rightarrow> bool" where
  "rfc3339 s \<longleftrightarrow> \<not> py_blank s \<and> fromisoformat (with_utc_suffix s) \<noteq> None \<and> has_offset (with_utc_suffix s)"

lemma timestamp_Some: "timestamp v = Some s \<longleftrightarrow> v = JStr s \<and> rfc3339 s"
  by (auto simp: timestamp_def rfc3339_def bind_eq_Some_conv nonempty_string_Some)

lemma identifier_Some: "identifier_of v = Some s \<longleftrightarrow> v = JStr s \<and> \<not> py_blank s \<and> identifier_re s"
  by (auto simp: identifier_of_def bind_eq_Some_conv nonempty_string_Some)

lemma enum_Some: "enum allowed v = Some s \<longleftrightarrow> v = JStr s \<and> \<not> py_blank s \<and> s \<in> set allowed"
  by (auto simp: enum_def bind_eq_Some_conv nonempty_string_Some)

lemma num_json_not_null [simp]: "num_json n \<noteq> JNull"
  by (cases n) (simp_all add: num_json_def)

text \<open>Each check accepts exactly the encodings of the values it returns.\<close>

lemma optional_scalar_Some:
  "optional nonempty_string v = Some z \<longleftrightarrow> v = opt_json JStr z \<and> pred_option (\<lambda>s. \<not> py_blank s) z"
  "optional (integer l) v = Some i \<longleftrightarrow> v = opt_json JInt i \<and> pred_option (\<lambda>x. l \<le> x) i"
  "optional boolean v = Some b \<longleftrightarrow> v = opt_json JBool b"
  "optional (number r) v = Some n \<longleftrightarrow> v = opt_json num_json n
     \<and> pred_option (\<lambda>n. r \<le> num_val n \<and> (case n of NInt i \<Rightarrow> fits_float i | _ \<Rightarrow> True)) n"
  "optional identifier_of v = Some z \<longleftrightarrow> v = opt_json JStr z \<and> pred_option (\<lambda>s. \<not> py_blank s \<and> identifier_re s) z"
proof -
  show "optional boolean v = Some b \<longleftrightarrow> v = opt_json JBool b"
    using optional_Some [of boolean JBool "\<lambda>_. True" v b] by (cases b) (simp_all add: boolean_Some)
qed (rule optional_Some; simp add: nonempty_string_Some integer_Some number_Some identifier_Some)+

declare string_tuple.simps [simp del]

lemmas check_iffs = nonempty_string_Some integer_Some boolean_Some number_Some string_tuple_Some timestamp_Some
  identifier_Some enum_Some optional_scalar_Some

section \<open>A normalised path is absolute and stays as it is\<close>

lemma split_on_not_Nil [simp]: "split_on c s \<noteq> []"
  by (induction s) (auto split: list.splits)

lemma split_on_parts: "w \<in> set (split_on c s) \<Longrightarrow> c \<notin> set w \<and> set w \<subseteq> set s"
proof (induction s arbitrary: w)
  case (Cons x s)
  then show ?case
    by (cases "split_on c s") (fastforce split: if_splits)+
qed simp

lemma split_on_append: "c \<notin> set w \<Longrightarrow> split_on c (w @ c # s) = w # split_on c s"
  by (induction w) auto

lemma split_on_word: "c \<notin> set w \<Longrightarrow> split_on c w = [w]"
  by (induction w) auto

lemma split_join: "ws \<noteq> [] \<Longrightarrow> \<forall>w \<in> set ws. c \<notin> set w \<Longrightarrow> split_on c (join_on c ws) = ws"
  by (induction c ws rule: join_on.induct) (auto simp: split_on_append split_on_word)

lemma set_join: "x \<in> set (join_on c ws) \<Longrightarrow> x = c \<or> (\<exists>w \<in> set ws. x \<in> set w)"
  by (induction c ws rule: join_on.induct) auto

lemma hd_join: "ws \<noteq> [] \<Longrightarrow> \<forall>w \<in> set ws. w \<noteq> [] \<and> c \<notin> set w \<Longrightarrow> join_on c ws \<noteq> [] \<and> hd (join_on c ws) \<noteq> c"
  by (induction c ws rule: join_on.induct) (auto simp: hd_append)

definition keep_comp :: "string \<Rightarrow> bool" where
  "keep_comp w \<longleftrightarrow> w \<noteq> [] \<and> w \<noteq> ''.''"

lemma norm_comps_filter:
  "''..'' \<notin> set cs \<Longrightarrow> ''..'' \<notin> set acc \<Longrightarrow> norm_comps r acc cs = rev acc @ filter keep_comp cs"
  by (induction cs arbitrary: acc) (auto simp: keep_comp_def)

text \<open>The shape of a normalised rooted path.\<close>

definition rooted_path :: "nat \<Rightarrow> string list \<Rightarrow> string" where
  "rooted_path k ws = replicate k (CHR ''/'') @ join_on (CHR ''/'') ws"

definition path_comps :: "string list \<Rightarrow> bool" where
  "path_comps ws \<longleftrightarrow> (\<forall>w \<in> set ws. keep_comp w \<and> w \<noteq> ''..'' \<and> CHR ''/'' \<notin> set w)"

lemma lead_slashes_rooted: "s \<noteq> [] \<Longrightarrow> hd s = CHR ''/'' \<Longrightarrow> lead_slashes s \<in> {1, 2}"
  by (cases s) (auto simp: lead_slashes_def split: list.splits)

lemma normpath_rooted:
  assumes "s \<noteq> []" and "hd s = CHR ''/''" and "''..'' \<notin> set (split_on (CHR ''/'') s)"
  shows "\<exists>ws. normpath s = rooted_path (lead_slashes s) ws \<and> path_comps ws
    \<and> (\<forall>w \<in> set ws. set w \<subseteq> set s)"
proof (intro exI conjI)
  let ?ws = "filter keep_comp (split_on (CHR ''/'') s)"
  have "lead_slashes s \<in> {1, 2}"
    using lead_slashes_rooted [OF assms(1,2)] .
  then show "normpath s = rooted_path (lead_slashes s) ?ws"
    by (auto simp: normpath_def rooted_path_def Let_def norm_comps_filter [OF assms(3)])
  show "path_comps ?ws" "\<forall>w \<in> set ?ws. set w \<subseteq> set s"
    using assms(3) by (auto simp: path_comps_def dest: split_on_parts)
qed

lemma split_rooted:
  assumes "path_comps ws"
  shows "split_on (CHR ''/'') (rooted_path k ws) = replicate k [] @ (if ws = [] then [[]] else ws)"
proof -
  have "split_on (CHR ''/'') (join_on (CHR ''/'') ws) = (if ws = [] then [[]] else ws)"
    using assms by (simp add: split_join path_comps_def)
  then show ?thesis
    by (induction k) (simp_all add: rooted_path_def)
qed

lemma lead_slashes_rooted_path:
  assumes "path_comps ws" and "k \<in> {1, 2}"
  shows "lead_slashes (rooted_path k ws) = k"
proof -
  have "takeWhile (\<lambda>c. c = CHR ''/'') (rooted_path k ws) = replicate k (CHR ''/'')"
  proof (cases "ws = []")
    case False
    then have "join_on (CHR ''/'') ws \<noteq> [] \<and> hd (join_on (CHR ''/'') ws) \<noteq> CHR ''/''"
      using assms(1) by (intro hd_join) (auto simp: path_comps_def keep_comp_def)
    then show ?thesis
      by (cases "join_on (CHR ''/'') ws") (auto simp: rooted_path_def takeWhile_append)
  qed (auto simp: rooted_path_def takeWhile_append)
  with assms(2) show ?thesis
    by (auto simp: lead_slashes_def numeral_2_eq_2)
qed

lemma normpath_rooted_path:
  assumes "path_comps ws" and "k \<in> {1, 2}"
  shows "normpath (rooted_path k ws) = rooted_path k ws"
proof -
  have "''..'' \<notin> set (split_on (CHR ''/'') (rooted_path k ws))"
    using assms(1) by (auto simp: split_rooted path_comps_def)
  moreover have "filter keep_comp ws = ws"
    using assms(1) by (auto simp: path_comps_def filter_id_conv)
  ultimately have "norm_comps (0 < k) [] (split_on (CHR ''/'') (rooted_path k ws)) = ws"
    using assms(1) by (subst norm_comps_filter) (auto simp: split_rooted keep_comp_def)
  with assms show ?thesis
    by (auto simp: normpath_def lead_slashes_rooted_path Let_def) (simp_all add: rooted_path_def)
qed

lemma slashes_id: "CHR 0x5C \<notin> set s \<Longrightarrow> slashes s = s"
  by (induction s) (auto simp: slashes_def)

lemma no_backslash: "CHR 0x5C \<notin> set (slashes s)"
  by (auto simp: slashes_def)

lemma rooted_path_chars:
  "k \<in> {1, 2} \<Longrightarrow> \<forall>w \<in> set ws. set w \<subseteq> set (slashes s) \<Longrightarrow> CHR 0x5C \<notin> set (rooted_path k ws)"
  using no_backslash [of s] by (auto simp: rooted_path_def dest!: set_join)

lemma rooted_path_Cons: "k \<in> {1, 2} \<Longrightarrow> \<exists>cs. rooted_path k ws = CHR ''/'' # cs"
  by (auto simp: rooted_path_def numeral_2_eq_2)

lemma alpha_char_upper: "is_ascii_alpha c \<Longrightarrow> is_ascii_alpha (char_upper c) \<and> char_upper (char_upper c) = char_upper c"
  by (auto simp: is_ascii_alpha_def char_upper_def Let_def)

lemma alpha_plain: "is_ascii_alpha c \<Longrightarrow> \<not> py_space c \<and> c \<noteq> CHR 0x5C \<and> c \<noteq> CHR ''/''"
  by (auto simp: is_ascii_alpha_def py_space_def Let_def)

lemma split_drive:
  "a \<noteq> CHR ''/'' \<Longrightarrow> split_on (CHR ''/'') (a # CHR '':'' # CHR ''/'' # s) = [a, CHR '':''] # split_on (CHR ''/'') s"
  by simp

lemma split_dropWhile: "set (split_on c (dropWhile (\<lambda>x. x = c) s)) \<subseteq> insert [] (set (split_on c s))"
  by (induction s) auto

lemma absolute_path_stable:
  assumes "absolute_path v = Some p"
  shows "absolute_path (JStr p) = Some p"
proof -
  obtain s where s: "take 1 (slashes s) = ''/'' \<or> windows_abs_re s" "''..'' \<notin> set (split_on (CHR ''/'') (slashes s))"
    and p: "p = (if windows_abs_re s
      then char_upper (hd (slashes s)) # CHR '':'' # normpath (CHR ''/'' # dropWhile (\<lambda>c. c = CHR ''/'') (drop 2 (slashes s)))
      else normpath (slashes s))"
    using assms by (auto simp: absolute_path_def bind_eq_Some_conv nonempty_string_Some)
  show ?thesis
  proof (cases "windows_abs_re s")
    case False
    with s have "slashes s \<noteq> []" "hd (slashes s) = CHR ''/''"
      by (cases "slashes s"; simp)+
    from normpath_rooted [OF this s(2)] lead_slashes_rooted [of "slashes s"] \<open>slashes s \<noteq> []\<close> \<open>hd (slashes s) = _\<close>
    obtain k ws where q: "p = rooted_path k ws" "k \<in> {1, 2}" "path_comps ws"
      and c: "\<forall>w \<in> set ws. set w \<subseteq> set (slashes s)"
      using False p by auto
    obtain cs where cs: "p = CHR ''/'' # cs"
      using rooted_path_Cons [OF q(2)] q(1) by auto
    have "slashes p = p"
      using rooted_path_chars [OF q(2) c] q(1) by (intro slashes_id) simp
    moreover have "''..'' \<notin> set (split_on (CHR ''/'') p)"
      using q by (auto simp: split_rooted path_comps_def)
    moreover have "normpath p = p"
      using normpath_rooted_path [OF q(3,2)] q(1) by simp
    moreover have "\<not> windows_abs_re p" "\<not> py_blank p" "take 1 p = ''/''"
      by (auto simp: cs windows_abs_re_def is_ascii_alpha_def py_blank_def py_space_def split: list.splits)
    ultimately show ?thesis
      by (simp add: absolute_path_def)
  next
    case True
    then obtain a c r where sr: "s = a # CHR '':'' # c # r" "is_ascii_alpha a" "c = CHR 0x5C \<or> c = CHR ''/''"
      by (auto simp: windows_abs_re_def split: list.splits)
    let ?t = "CHR ''/'' # dropWhile (\<lambda>c. c = CHR ''/'') (slashes r)"
    have a: "slashes s = a # CHR '':'' # CHR ''/'' # slashes r"
      using sr alpha_plain [OF sr(2)] by (auto simp: slashes_def)
    have p': "p = char_upper a # CHR '':'' # normpath ?t"
      using True p a by simp
    have "''..'' \<notin> set (split_on (CHR ''/'') ?t)"
      using s(2) split_dropWhile [of "CHR ''/''" "slashes r"] alpha_plain [OF sr(2)] unfolding a by auto
    moreover have "takeWhile (\<lambda>c. c = CHR ''/'') (dropWhile (\<lambda>c. c = CHR ''/'') (slashes r)) = []"
      by (metis dropWhile_eq_self_iff dropWhile_idem takeWhile_eq_Nil_iff)
    then have "lead_slashes ?t = 1"
      by (simp add: lead_slashes_def)
    ultimately obtain ws where q: "normpath ?t = rooted_path 1 ws" "path_comps ws"
      and c: "\<forall>w \<in> set ws. set w \<subseteq> set ?t"
      using normpath_rooted [of ?t] by auto
    define A where "A = char_upper a"
    have A: "is_ascii_alpha A" "char_upper A = A"
      using alpha_char_upper [OF sr(2)] by (simp_all add: A_def)
    have p2: "p = A # CHR '':'' # CHR ''/'' # join_on (CHR ''/'') ws"
      using p' q(1) by (simp add: A_def rooted_path_def)
    have "set ?t \<subseteq> set (CHR ''/'' # slashes r)"
      by (auto dest: set_dropWhileD)
    then have "CHR 0x5C \<notin> set (join_on (CHR ''/'') ws)"
      using c no_backslash [of r] by (auto dest!: set_join)
    then have "slashes p = p"
      using alpha_plain [OF A(1)] by (intro slashes_id) (auto simp: p2)
    moreover have "''..'' \<notin> set (split_on (CHR ''/'') p)"
      using q(2) split_rooted [OF q(2), of 0] alpha_plain [OF A(1)]
      by (auto simp: p2 split_drive rooted_path_def path_comps_def)
    moreover have "dropWhile (\<lambda>c. c = CHR ''/'') (join_on (CHR ''/'') ws) = join_on (CHR ''/'') ws"
      using hd_join [of ws "CHR ''/''"] q(2)
      by (cases "ws = []") (auto simp: path_comps_def keep_comp_def dropWhile_eq_self_iff)
    then have "normpath (CHR ''/'' # dropWhile (\<lambda>c. c = CHR ''/'') (drop 2 p)) = CHR ''/'' # join_on (CHR ''/'') ws"
      using normpath_rooted_path [OF q(2), of 1] by (simp add: p2 rooted_path_def)
    moreover have "windows_abs_re p" "\<not> py_blank p"
      using A(1) alpha_plain [OF A(1)] by (simp_all add: p2 windows_abs_re_def py_blank_def)
    ultimately show ?thesis
      using A(2) by (simp add: absolute_path_def) (simp add: p2)
  qed
qed

section \<open>Canonical text\<close>

lemma canon_leaf [simp]:
  "canon (opt_json JStr z) = opt_json JStr z" "canon (opt_json JInt i) = opt_json JInt i"
  "canon (opt_json JBool b) = opt_json JBool b" "canon (num_json n) = num_json n"
  "canon (opt_json num_json m) = opt_json num_json m" "map (canon \<circ> JStr) xs = map JStr xs"
  by (simp_all add: opt_json_def num_json_def split: option.splits num_value.splits)

lemma canon_JObj: "canon (JObj d) = JObj (canon_dict d)"
  by (simp add: canon_dict_def)

lemma fst_canon_dict: "set (map fst (canon_dict d)) = set (map fst d)"
  by (auto simp: canon_dict_def image_image)

lemma dget0_canon_dict:
  assumes "wf_dict d"
  shows "dget0 (canon_dict d) k = canon (dget0 d k)"
proof -
  have "distinct (map fst (map (map_prod id canon) d))"
    using assms by (simp add: wf_dict_def comp_def)
  from map_of_sort_key_fst [OF this] show ?thesis
    by (simp add: dget0_def canon_dict_def map_of_map_prod split: option.splits)
qed

text \<open>Canonical text keeps what \<open>strict_object\<close> looks at.\<close>

lemma strict_object_canon:
  "strict_object ks v = Some d \<Longrightarrow> strict_object ks (canon v) = Some (canon_dict d)"
  unfolding strict_object_def
  by (cases v) (auto simp: canon_JObj list_all_iff fst_canon_dict simp del: canon.simps(7) set_map split: if_splits)

lemma no_dup_keys_canon [simp]: "no_dup_keys (canon v) \<longleftrightarrow> no_dup_keys v"
proof (induction v)
  case (JObj d)
  have "distinct (map fst (sort_key fst e)) \<longleftrightarrow> distinct (map fst e)" for e :: dict
    by (metis distinct_map distinct_sort set_sort sort_key_const)
  with JObj show ?case
    by (auto simp: comp_def list_all_iff)
qed (auto simp: list_all_iff)

lemma no_dup_leaf [simp]:
  "no_dup_keys (opt_json JStr z)" "no_dup_keys (opt_json JInt i)" "no_dup_keys (opt_json JBool b)"
  "no_dup_keys (num_json n)" "no_dup_keys (opt_json num_json m)" "no_dup_keys (JArr (map JStr xs))"
  by (simp_all add: opt_json_def num_json_def list_all_iff split: option.splits num_value.splits)

section \<open>What a wire format promises\<close>

text \<open>
  A message type with its \<open>from_dict\<close> and \<open>to_dict\<close>: what was read can be written and read again,
  in canonical text, and a written message repeats no key.
\<close>

locale wire =
  fixes dec :: "json \<Rightarrow> 'a option" and enc :: "'a \<Rightarrow> json"
  assumes canonical: "dec v = Some x \<Longrightarrow> dec (canon (enc x)) = Some x"
    and object: "dec v = Some x \<Longrightarrow> \<exists>d. enc x = JObj d"
    and clean: "dec v = Some x \<Longrightarrow> no_dup_keys (enc x)"
begin

lemma round_trip:
  assumes "dec v = Some x"
  shows "from_json dec (to_json enc x) = Some x"
proof -
  obtain d where "canon (enc x) = JObj d"
    using object [OF assms] canon_JObj by metis
  moreover have "no_dup_keys (canon (enc x))"
    using clean [OF assms] by simp
  ultimately have "load_json_object (canon (enc x)) = Some (canon (enc x))"
    by (simp only: load_json_object_def json.case if_True)
  with canonical [OF assms] show ?thesis
    by (simp add: from_json_def to_json_def)
qed

lemma text_identifies:
  "dec v = Some x \<Longrightarrow> dec w = Some y \<Longrightarrow> to_json enc x = to_json enc y \<longleftrightarrow> x = y"
  unfolding to_json_def using canonical by (metis option.inject)

lemma array:
  assumes "checked_list dec vs = Some xs"
  shows "checked_list dec (map (canon \<circ> enc) xs) = Some xs"
proof (rule checked_list_map)
  fix x assume "x \<in> set xs"
  then obtain v where "dec v = Some x"
    using assms by (auto simp: checked_list_Some list_all2_conv_all_nth in_set_conv_nth)
  then show "dec ((canon \<circ> enc) x) = Some x"
    by (simp add: canonical)
qed

lemma array_clean: "checked_list dec vs = Some xs \<Longrightarrow> list_all (\<lambda>x. no_dup_keys (enc x)) xs"
  by (auto simp: checked_list_Some list_all2_conv_all_nth list_all_length intro: clean)

end

end
