(* ===== verification/Spool.thy ===== *)
theory Spool
  imports Envelope ContractChecks "HOL-Library.AList"
begin

text \<open>
  The file-backed spool of transport envelopes (\<open>EnvelopeStore\<close> of \<open>scripts/remote_envelope.py\<close>):
  the controller's outbox, the worker's inbox and the receipts, each a folder of JSON files.

  A folder maps the stem of a file name to its content, which is JSON or something that does not
  parse; the order of the map is the order in which the directory lists its files. The file lock
  makes an operation one step; the process may still die between the two writes of \<open>receive\<close>, which
  \<open>spool_step\<close> allows. Every violation raises \<open>EnvelopeError\<close>. The clock of a receipt is the
  argument \<open>now\<close>, hash and digest are fields of \<open>env\<close>.
\<close>

section \<open>Files\<close>

datatype durable = Garbled | Holds json

type_synonym folder = "(string \<times> durable) list"

record spool =
  sp_outbox :: folder
  sp_inbox :: folder
  sp_receipts :: folder

datatype spool_error = EnvelopeError

type_synonym 'a sop = "(spool_error, spool, 'a) tx"

definition empty_spool :: spool where
  "empty_spool = \<lparr>sp_outbox = [], sp_inbox = [], sp_receipts = []\<rparr>"

definition windows_reserved_stems :: "string list" where
  "windows_reserved_stems =
     [''CON'', ''PRN'', ''AUX'', ''NUL''] @ map (\<lambda>d. ''COM'' @ [d]) ''123456789'' @ map (\<lambda>d. ''LPT'' @ [d]) ''123456789''"

text \<open>\<open>str.rstrip(". ")\<close>\<close>

definition rstrip_dots :: "string \<Rightarrow> string" where
  "rstrip_dots s = rev (dropWhile (\<lambda>c. c = CHR ''.'' \<or> c = CHR '' '') (rev s))"

text \<open>\<open>_request_path\<close>: the stem of the file name of a request, portable to every file system.\<close>

definition request_stem :: "env \<Rightarrow> string \<Rightarrow> string" where
  "request_stem e rid =
     (let base = map char_upper (takeWhile (\<lambda>c. c \<noteq> CHR ''.'') rid)
      in if CHR '':'' \<in> set rid \<or> rid \<noteq> [] \<and> (last rid = CHR ''.'' \<or> last rid = CHR '' '')
            \<or> base \<in> set windows_reserved_stems
         then let readable = take 48 (rstrip_dots
                    (map (\<lambda>c. if is_alnum c \<or> c \<in> set ''_.-'' then c else CHR ''_'') rid))
              in (if readable = [] then ''request'' else readable) @ ''-'' @ sha256_of e rid
         else rid)"

text \<open>\<open>_read_json\<close>: an absent file is \<open>None\<close>; only a JSON object is accepted.\<close>

definition read_file :: "folder \<Rightarrow> string \<Rightarrow> spool_error + dict option" where
  "read_file files stem =
     (case map_of files stem of
        None \<Rightarrow> Inr None
      | Some (Holds (JObj d)) \<Rightarrow> Inr (Some d)
      | Some _ \<Rightarrow> Inl EnvelopeError)"

definition read_json :: "(spool \<Rightarrow> folder) \<Rightarrow> string \<Rightarrow> dict option sop" where
  "read_json folder stem s = (case read_file (folder s) stem of Inl x \<Rightarrow> Inl x | Inr z \<Rightarrow> Inr (z, s))"

text \<open>\<open>_atomic_write\<close>: the file holds the text with sorted keys.\<close>

definition durable_of :: "dict \<Rightarrow> durable" where
  "durable_of d = Holds (canon (JObj d))"

definition write_outbox :: "string \<Rightarrow> dict \<Rightarrow> unit sop" where
  "write_outbox stem d = tx_modify (\<lambda>s. s\<lparr>sp_outbox := AList.update stem (durable_of d) (sp_outbox s)\<rparr>)"

definition write_inbox :: "string \<Rightarrow> dict \<Rightarrow> unit sop" where
  "write_inbox stem d = tx_modify (\<lambda>s. s\<lparr>sp_inbox := AList.update stem (durable_of d) (sp_inbox s)\<rparr>)"

definition write_receipt :: "string \<Rightarrow> dict \<Rightarrow> unit sop" where
  "write_receipt stem d = tx_modify (\<lambda>s. s\<lparr>sp_receipts := AList.update stem (durable_of d) (sp_receipts s)\<rparr>)"

section \<open>Checks\<close>

definition some_or_raise :: "'a option \<Rightarrow> 'a sop" where
  "some_or_raise z = (case z of None \<Rightarrow> tx_raise EnvelopeError | Some x \<Rightarrow> tx_return x)"

definition assert_same :: "dict \<Rightarrow> dict \<Rightarrow> unit sop" where
  "assert_same existing candidate = tx_raise_if (\<not> same_envelope existing candidate) EnvelopeError"

text \<open>A durable envelope, validated when there is one.\<close>

definition read_envelope :: "env \<Rightarrow> (spool \<Rightarrow> folder) \<Rightarrow> string \<Rightarrow> dict option sop" where
  "read_envelope e folder stem =
     tx_bind (read_json folder stem) (\<lambda>z.
       case z of
         None \<Rightarrow> tx_return None
       | Some d \<Rightarrow> tx_bind (some_or_raise (validate_envelope e d)) (\<lambda>c. tx_return (Some c)))"

definition validate_receipt :: "env \<Rightarrow> dict \<Rightarrow> dict \<Rightarrow> dict sop" where
  "validate_receipt e env receipt = tx_seq (tx_raise_if (\<not> receipt_ok e env receipt) EnvelopeError) (tx_return receipt)"

definition read_receipt :: "env \<Rightarrow> dict \<Rightarrow> string \<Rightarrow> dict option sop" where
  "read_receipt e env stem =
     tx_bind (read_json sp_receipts stem) (\<lambda>z.
       case z of
         None \<Rightarrow> tx_return None
       | Some r \<Rightarrow> tx_bind (validate_receipt e env r) (\<lambda>r. tx_return (Some r)))"

definition stem_of :: "env \<Rightarrow> dict \<Rightarrow> string" where
  "stem_of e c = request_stem e (jtxt (dget0 c ''request_id''))"

section \<open>Operations\<close>

text \<open>The answer of an operation: its status, whether it is a replay, and the envelope or receipt.\<close>

type_synonym answer = "string \<times> bool \<times> dict"

definition enqueue :: "env \<Rightarrow> dict \<Rightarrow> answer sop" where
  "enqueue e envelope =
     tx_bind (some_or_raise (validate_envelope e envelope)) (\<lambda>c.
     tx_bind (read_envelope e sp_outbox (stem_of e c)) (\<lambda>existing.
       case existing of
         Some x \<Rightarrow> tx_seq (assert_same x c) (tx_return (''pending'', True, x))
       | None \<Rightarrow> tx_seq (write_outbox (stem_of e c) c) (tx_return (''pending'', False, c))))"

definition assert_outbox :: "env \<Rightarrow> string \<Rightarrow> dict \<Rightarrow> unit sop" where
  "assert_outbox e stem c =
     tx_bind (read_envelope e sp_outbox stem) (\<lambda>outbox.
       case outbox of None \<Rightarrow> tx_return () | Some x \<Rightarrow> assert_same x c)"

definition accept_receipt :: "env \<Rightarrow> string \<Rightarrow> dict \<Rightarrow> dict sop" where
  "accept_receipt e now c =
     tx_bind (some_or_raise (make_receipt e now c ''accepted'' 0 JNull JNull)) (\<lambda>r.
     tx_seq (write_receipt (stem_of e c) r) (tx_return r))"

definition receive :: "env \<Rightarrow> string \<Rightarrow> dict \<Rightarrow> answer sop" where
  "receive e now envelope =
     tx_bind (some_or_raise (validate_envelope e envelope)) (\<lambda>c.
     tx_seq (assert_outbox e (stem_of e c) c)
     (tx_bind (read_envelope e sp_inbox (stem_of e c)) (\<lambda>existing.
       case existing of
         Some x \<Rightarrow>
           tx_seq (assert_same x c)
           (tx_bind (read_receipt e x (stem_of e c)) (\<lambda>receipt.
            tx_bind (case receipt of None \<Rightarrow> accept_receipt e now x | Some r \<Rightarrow> tx_return r) (\<lambda>r.
              tx_return (jtxt (dget0 r ''status''), True, dput ''duplicate'' (JBool True) r))))
       | None \<Rightarrow>
           tx_seq (write_inbox (stem_of e c) c)
           (tx_bind (accept_receipt e now c) (\<lambda>r. tx_return (''accepted'', False, r))))))"

definition completion_ok :: "string \<Rightarrow> string \<Rightarrow> string option \<Rightarrow> string option \<Rightarrow> bool" where
  "completion_ok rid status result error \<longleftrightarrow>
     id_re rid \<and> (status = ''completed'' \<or> status = ''failed'')
     \<and> \<not> (status = ''completed'' \<and> result = None) \<and> \<not> (status = ''failed'' \<and> otext error = [])
     \<and> \<not> (status = ''completed'' \<and> error \<noteq> None) \<and> \<not> (status = ''failed'' \<and> result \<noteq> None)"

definition terminal_receipt :: "dict \<Rightarrow> bool" where
  "terminal_receipt r \<longleftrightarrow> str_in (dget0 r ''status'') [''completed'', ''failed'']"

definition complete :: "env \<Rightarrow> string \<Rightarrow> string \<Rightarrow> string \<Rightarrow> string option \<Rightarrow> string option \<Rightarrow> answer sop" where
  "complete e now rid status result error =
     (let stem = request_stem e rid in
      tx_seq (tx_raise_if (\<not> completion_ok rid status result error) EnvelopeError)
      (tx_bind (read_envelope e sp_inbox stem) (\<lambda>inbox.
       tx_bind (some_or_raise inbox) (\<lambda>c.
       tx_seq (assert_outbox e stem c)
       (tx_bind (read_receipt e c stem) (\<lambda>existing.
         case (case existing of None \<Rightarrow> None | Some r \<Rightarrow> if terminal_receipt r then Some r else None) of
           Some r \<Rightarrow>
             tx_seq (tx_raise_if (dget0 r ''status'' \<noteq> JStr status \<or> dget0 r ''result_digest'' \<noteq> jopt result
                 \<or> dget0 r ''error_code'' \<noteq> jopt error) EnvelopeError)
             (tx_return (status, True, dput ''duplicate'' (JBool True) r))
         | None \<Rightarrow>
             tx_bind (some_or_raise (make_receipt e now c status 1 (jopt result) (jopt error))) (\<lambda>r.
             tx_seq (write_receipt stem r) (tx_return (status, False, r)))))))))"

text \<open>The read-only query of one request: its status, its receipt and metadata of its envelope.\<close>

definition metadata :: "dict \<Rightarrow> dict" where
  "metadata c = map (\<lambda>k. (k, dget0 c k))
     [''request_id'', ''target_id'', ''operation'', ''packet_digest'', ''payload_digest'']"

definition find_envelope :: "env \<Rightarrow> string \<Rightarrow> dict sop" where
  "find_envelope e stem =
     tx_bind (read_json sp_inbox stem) (\<lambda>inbox.
     tx_bind (read_json sp_outbox stem) (\<lambda>outbox.
       case (inbox, outbox) of
         (Some i, Some q) \<Rightarrow>
           tx_bind (some_or_raise (validate_envelope e i)) (\<lambda>i.
           tx_bind (some_or_raise (validate_envelope e q)) (\<lambda>q.
           tx_seq (assert_same i q) (some_or_raise (validate_envelope e i))))
       | (Some i, None) \<Rightarrow> some_or_raise (validate_envelope e i)
       | (None, Some q) \<Rightarrow> some_or_raise (validate_envelope e q)
       | (None, None) \<Rightarrow> tx_raise EnvelopeError))"

definition status_of :: "env \<Rightarrow> string \<Rightarrow> (string \<times> dict option \<times> dict) sop" where
  "status_of e rid =
     tx_seq (tx_raise_if (\<not> id_re rid) EnvelopeError)
     (tx_bind (find_envelope e (request_stem e rid)) (\<lambda>c.
      tx_bind (read_receipt e c (request_stem e rid)) (\<lambda>receipt.
        tx_return (case receipt of
            None \<Rightarrow> (''pending'', None, metadata c)
          | Some r \<Rightarrow> (jtxt (dget0 r ''status''), Some r, metadata c)))))"

text \<open>\<open>pending\<close>: the union of both folders by request, in the order of the identifiers.\<close>

fun gather :: "env \<Rightarrow> durable list \<Rightarrow> (string \<times> dict) list \<Rightarrow> (string \<times> dict) list sop" where
  "gather e [] found = tx_return found"
| "gather e (f # fs) found =
     tx_bind (some_or_raise (case f of Holds (JObj d) \<Rightarrow> validate_envelope e d | _ \<Rightarrow> None)) (\<lambda>c.
       let rid = jtxt (dget0 c ''request_id'')
       in case map_of found rid of
            Some x \<Rightarrow> tx_seq (assert_same x c) (gather e fs found)
          | None \<Rightarrow> gather e fs (found @ [(rid, c)]))"

definition pending_row :: "env \<Rightarrow> string \<times> dict \<Rightarrow> dict list sop" where
  "pending_row e = (\<lambda>(rid, c).
     tx_bind (read_receipt e c (stem_of e c)) (\<lambda>receipt.
       tx_return (case receipt of
           None \<Rightarrow> [metadata c @ [(''status'', JStr ''pending'')]]
         | Some r \<Rightarrow> if terminal_receipt r then []
                    else [metadata c @ [(''status'', dget0 r ''status'')]])))"

definition pending :: "env \<Rightarrow> dict list sop" where
  "pending e =
     tx_bind (tx_get (\<lambda>s. map snd (sp_outbox s) @ map snd (sp_inbox s))) (\<lambda>files.
     tx_bind (gather e files []) (\<lambda>found.
     tx_bind (tx_each (pending_row e) (sort_key fst found)) (\<lambda>rows. tx_return (concat rows))))"

section \<open>Text with sorted keys\<close>

declare canon_canon [simp]

lemma py_norm_canon [simp]: "py_norm (canon v) = py_norm v"
proof (induction v)
  case (JObj d)
  then have "sort_key fst (map (map_prod id py_norm) (sort_key fst (map (map_prod id canon) d)))
      = sort_key fst (map (map_prod id py_norm) d)"
    by (intro sort_values_twice) (auto simp: snds.simps)
  then show ?case by simp
qed auto

lemma canon_dict_dpop: "canon_dict (dpop k (canon_dict d)) = canon_dict (dpop k d)"
proof -
  have "dpop k (canon_dict d) = canon_dict (dpop k d)"
    by (simp add: dpop_def canon_dict_def filter_sort filter_map comp_def map_prod_def split_def)
  then show ?thesis
    using canon_canon [of "JObj (dpop k d)"] by (simp add: canon_JObj del: canon.simps(7) canon_canon)
qed

lemma json_digest_canon [simp]:
  "json_digest e (JObj (canon_dict d)) = json_digest e (JObj d)"
  "json_digest e (JObj (dpop k (canon_dict d))) = json_digest e (JObj (dpop k d))"
  using canon_canon [of "JObj d"] canon_dict_dpop [of k d]
  by (simp_all add: json_digest_def canon_JObj del: canon.simps(7) canon_canon)

lemma canon_scalar [simp]:
  "canon v = JNull \<longleftrightarrow> v = JNull" "is_hex64 (canon v) = is_hex64 v" "safe_id (canon v) = safe_id v"
  "nonempty_str (canon v) = nonempty_str v" "str_in (canon v) ss = str_in v ss" "jtxt (canon v) = jtxt v"
  by (cases v; simp add: is_hex64_def safe_id_def)+

lemma summary_value_canon [simp]: "summary_value_ok (canon v) = summary_value_ok v"
  by (induction v) (auto simp: list_all_iff)

lemma sanitize_summary_canon: "sanitize_summary v = Some d \<Longrightarrow> sanitize_summary (canon v) = Some (canon_dict d)"
  by (cases v) (auto simp: sanitize_summary_def canon_dict_def list_all_iff split: if_splits)

section \<open>What is read back\<close>

text \<open>The digest function yields lower-case SHA-256 text, as \<open>hashlib\<close> documents.\<close>

definition digest_ok :: "env \<Rightarrow> bool" where
  "digest_ok e \<longleftrightarrow> (\<forall>v. hex64 (json_sha e v))"

text \<open>The fields that tell two envelopes apart.\<close>

definition identity :: "dict \<Rightarrow> json list" where
  "identity c = map (dget0 c) identity_fields"

definition envelope_at :: "env \<Rightarrow> folder \<Rightarrow> string \<Rightarrow> dict option" where
  "envelope_at e files k = (case read_file files k of Inr (Some d) \<Rightarrow> validate_envelope e d | _ \<Rightarrow> None)"

definition receipt_at :: "folder \<Rightarrow> string \<Rightarrow> dict option" where
  "receipt_at files k = (case read_file files k of Inr (Some d) \<Rightarrow> Some d | _ \<Rightarrow> None)"

lemma py_eq_JStr: "py_eq v (JStr a) \<longleftrightarrow> v = JStr a" "py_eq (JStr a) v \<longleftrightarrow> v = JStr a"
  by (cases v; auto simp: py_eq_def)+

definition is_text :: "json \<Rightarrow> bool" where
  "is_text v \<longleftrightarrow> v = JStr (jtxt v)"

lemma is_text_ids: "safe_id v \<Longrightarrow> is_text v" "is_hex64 v \<Longrightarrow> is_text v" "operation_re (jtxt v) \<Longrightarrow> is_text v" "is_text (JStr a)"
  by (cases v; simp add: is_text_def safe_id_def is_hex64_def operation_re_def)+

lemma is_text_eq: "is_text a \<Longrightarrow> py_eq a b \<longleftrightarrow> a = b"
  by (metis is_text_def py_eq_JStr(2))

lemma is_text_canon: "is_text v \<Longrightarrow> canon v = v"
  by (metis canon_JStr is_text_def)

lemma validated_identity:
  assumes "validate_envelope e d = Some c"
  shows "list_all is_text (identity c)"
  using assms
  by (rule validate_envelope_Some) (simp add: identity_def identity_fields_def is_text_ids)

lemma same_envelope_identity:
  assumes "validate_envelope e d = Some c"
  shows "same_envelope c c' \<longleftrightarrow> identity c = identity c'" "same_envelope c' c \<longleftrightarrow> identity c' = identity c"
  using validated_identity [OF assms]
  by (simp_all add: same_envelope_def identity_def identity_fields_def is_text_eq py_eq_sym [of "dget0 c' _"] eq_commute)

lemma identity_request: "identity a = identity b \<Longrightarrow> stem_of e a = stem_of e b \<and> metadata a = metadata b"
  by (simp add: identity_def identity_fields_def stem_of_def metadata_def)

lemma receipt_ok_identity: "identity a = identity b \<Longrightarrow> receipt_ok e a r = receipt_ok e b r"
  by (simp add: identity_def identity_fields_def receipt_ok_def)

text \<open>An envelope that was validated and written reads back as the same request.\<close>

lemma written_envelope:
  assumes "validate_envelope e d = Some c"
  obtains c' where "validate_envelope e (canon_dict c) = Some c'" "identity c' = identity c"
  using assms
proof (rule validate_envelope_Some)
  fix summary key
  assume v: "py_eq (dget0 d ''schema_version'') (JInt 1)" "py_eq (dget0 d ''envelope_version'') (JInt 1)"
    "safe_id (dget0 d ''request_id'')" "safe_id (dget0 d ''source_id'')" "safe_id (dget0 d ''target_id'')"
    "operation_re (jtxt (dget0 d ''operation''))" "is_hex64 (dget0 d ''packet_digest'')"
    "sanitize_summary (dget0 d ''payload_summary'') = Some summary" "safe_id key"
    "nonempty_str (dget0 d ''created_at'')"
    and c: "c = [(''schema_version'', JInt 1), (''envelope_version'', JInt 1),
          (''request_id'', dget0 d ''request_id''), (''idempotency_key'', key),
          (''source_id'', dget0 d ''source_id''), (''target_id'', dget0 d ''target_id''),
          (''operation'', dget0 d ''operation''), (''packet_digest'', dget0 d ''packet_digest''),
          (''payload_summary'', JObj summary), (''payload_digest'', JStr (json_digest e (JObj summary))),
          (''created_at'', dget0 d ''created_at'')]"
  have wf: "wf_dict c" unfolding c wf_dict_def by simp
  have s: "sanitize_summary (canon (JObj summary)) = Some (canon_dict summary)"
    using sanitize_summary_again [OF v(8)] by (rule sanitize_summary_canon)
  note get = dget0_canon_dict [OF wf]
  have key: "envelope_key (canon_dict c) = key"
    using safe_id_truthy [OF v(9)] is_text_canon [OF is_text_ids(1) [OF v(9)]]
    by (simp add: envelope_key_def get) (simp add: c)
  show thesis
  proof (rule that)
    show "validate_envelope e (canon_dict c) = Some
         [(''schema_version'', JInt 1), (''envelope_version'', JInt 1),
          (''request_id'', dget0 d ''request_id''), (''idempotency_key'', key),
          (''source_id'', dget0 d ''source_id''), (''target_id'', dget0 d ''target_id''),
          (''operation'', dget0 d ''operation''), (''packet_digest'', dget0 d ''packet_digest''),
          (''payload_summary'', JObj (canon_dict summary)), (''payload_digest'', JStr (json_digest e (JObj summary))),
          (''created_at'', canon (dget0 d ''created_at''))]"
      using v s key unfolding validate_envelope_def get
      by (simp add: c is_text_canon is_text_ids canon_JObj del: canon.simps(7))
  qed (simp add: identity_def identity_fields_def c)
qed

text \<open>A receipt that fits its envelope fits it after it was written and read.\<close>

lemma written_receipt:
  assumes "receipt_ok e c r" and "wf_dict r"
  shows "receipt_ok e c (canon_dict r)"
proof -
  have i: "(case canon v of JInt n \<Rightarrow> 0 \<le> n | _ \<Rightarrow> False) = (case v of JInt n \<Rightarrow> 0 \<le> n | _ \<Rightarrow> False)"
    and b: "(case canon v of JBool b \<Rightarrow> True | _ \<Rightarrow> False) = (case v of JBool b \<Rightarrow> True | _ \<Rightarrow> False)"
    and t: "(case canon v of JStr s \<Rightarrow> error_code_re s | _ \<Rightarrow> False) = (case v of JStr s \<Rightarrow> error_code_re s | _ \<Rightarrow> False)"
    and j: "JStr a = canon v \<longleftrightarrow> JStr a = v" for v a
    by (cases v; simp)+
  have p: "py_eq (canon v) w = py_eq v w" for v w
    unfolding py_eq_def py_norm_canon ..
  have keys: "list_all (\<lambda>kv. fst kv \<in> ks) (canon_dict r) = list_all (\<lambda>kv. fst kv \<in> ks) r" for ks
    by (auto simp: list_all_iff canon_dict_def)
  show ?thesis
    using assms(1) unfolding receipt_ok_def Let_def dget0_canon_dict [OF assms(2)]
    unfolding i b t p keys j canon_scalar canon_JStr json_digest_canon .
qed

lemma some_or_raise_Inr [simp]: "some_or_raise z s = Inr (x, s') \<longleftrightarrow> z = Some x \<and> s' = s"
  by (auto simp: some_or_raise_def split: option.splits)

lemma assert_same_Inr [simp]: "assert_same a b s = Inr (x, s') \<longleftrightarrow> same_envelope a b \<and> s' = s"
  by (simp add: assert_same_def)

lemma read_json_Inr: "read_json fo k s = Inr (z, s') \<longleftrightarrow> s' = s \<and> read_file (fo s) k = Inr z"
  by (auto simp: read_json_def split: sum.splits)

lemma read_file_None: "read_file files k = Inr None \<longleftrightarrow> map_of files k = None"
  by (auto simp: read_file_def split: option.splits durable.splits json.splits)

lemma read_envelope_Inr:
  "read_envelope e fo k s = Inr (z, s') \<longleftrightarrow>
     s' = s \<and> (map_of (fo s) k = None \<and> z = None \<or> z \<noteq> None \<and> envelope_at e (fo s) k = z)"
  unfolding read_envelope_def tx_bind_Inr read_json_Inr envelope_at_def read_file_None [symmetric]
  by (auto simp: tx_bind_Inr split: option.splits sum.splits)

lemma read_receipt_Inr:
  "read_receipt e c k s = Inr (z, s') \<longleftrightarrow>
     s' = s \<and> (map_of (sp_receipts s) k = None \<and> z = None
        \<or> (\<exists>r. z = Some r \<and> receipt_at (sp_receipts s) k = Some r \<and> receipt_ok e c r))"
  unfolding read_receipt_def tx_bind_Inr read_json_Inr receipt_at_def read_file_None [symmetric] validate_receipt_def
  by (auto simp: tx_results split: option.splits sum.splits)

lemma at_update:
  "envelope_at e (AList.update k (durable_of d) files) k' =
     (if k' = k then validate_envelope e (canon_dict d) else envelope_at e files k')"
  "receipt_at (AList.update k (durable_of d) files) k' = (if k' = k then Some (canon_dict d) else receipt_at files k')"
  by (simp_all add: envelope_at_def receipt_at_def read_file_def durable_of_def canon_JObj update_conv'
      del: canon.simps(7))

lemma at_dom: "envelope_at e files k = Some c \<Longrightarrow> map_of files k \<noteq> None" "receipt_at files k = Some r \<Longrightarrow> map_of files k \<noteq> None"
  unfolding envelope_at_def receipt_at_def read_file_None [symmetric] by auto

text \<open>The outcomes the receipt format allows.\<close>

definition outcome_ok :: "string \<Rightarrow> string option \<Rightarrow> string option \<Rightarrow> bool" where
  "outcome_ok status result error \<longleftrightarrow>
     status = ''accepted'' \<and> result = None \<and> error = None
     \<or> status = ''completed'' \<and> result \<noteq> None \<and> error = None
     \<or> status = ''failed'' \<and> error \<noteq> None \<and> result = None"

lemma completion_outcome: "completion_ok rid status result error \<Longrightarrow> outcome_ok status result error"
  unfolding completion_ok_def outcome_ok_def
  by (cases result; cases error; elim conjE disjE; simp)

lemma made_receipt:
  assumes "make_receipt e now c status n (jopt result) (jopt error) = Some r" and "digest_ok e"
    and "outcome_ok status result error" and "now \<noteq> []"
  shows "wf_dict r" "receipt_ok e c r" "dget0 r ''status'' = JStr status"
    "dget0 r ''result_digest'' = jopt result" "dget0 r ''error_code'' = jopt error"
proof -
  have hex: "is_hex64 (JStr (json_digest e v))" for v
    using assms(2) by (simp add: digest_ok_def json_digest_def is_hex64_def)
  have jn: "jopt z = JNull \<longleftrightarrow> z = None" for z
    by (cases z) simp_all
  let ?v = "[(''schema_version'', JInt 1), (''receipt_version'', JInt 1), (''request_id'', dget0 c ''request_id''),
      (''idempotency_key'', dget0 c ''idempotency_key''), (''payload_digest'', dget0 c ''payload_digest''),
      (''status'', JStr status), (''effect_count'', JInt n), (''duplicate'', JBool False), (''observed_at'', JStr now)]
    @ (if jopt result = JNull then [] else [(''result_digest'', jopt result)])
    @ (if jopt error = JNull then [] else [(''error_code'', jopt error)])"
  from assms(1) have ok: "0 \<le> n" "jopt result \<noteq> JNull \<Longrightarrow> is_hex64 (jopt result)"
      "jopt error \<noteq> JNull \<Longrightarrow> (case jopt error of JStr s \<Rightarrow> error_code_re s | _ \<Rightarrow> False)"
    and r: "r = ?v @ [(''receipt_digest'', JStr (json_digest e (JObj ?v)))]"
    unfolding make_receipt_def Let_def by (simp_all split: if_split_asm)
  show "wf_dict r" "dget0 r ''status'' = JStr status" "dget0 r ''result_digest'' = jopt result"
    "dget0 r ''error_code'' = jopt error"
    unfolding r wf_dict_def by (cases result; cases error; simp)+
  show "receipt_ok e c r"
    using ok assms(3,4) hex unfolding outcome_ok_def r
    by (elim disjE; elim conjE exE; simp add: receipt_ok_def receipt_fields_def dpop_def jn)
qed

section \<open>Effects\<close>

lemma enqueue_cases:
  assumes "enqueue e env s = Inr (a, s')"
  obtains (known) "s' = s"
  | (new) c where "validate_envelope e env = Some c" "map_of (sp_outbox s) (stem_of e c) = None"
      "s' = s\<lparr>sp_outbox := AList.update (stem_of e c) (durable_of c) (sp_outbox s)\<rparr>"
  using assms unfolding enqueue_def
  by (auto simp: tx_results read_envelope_Inr write_outbox_def split: option.splits)

lemma assert_outbox_Inr:
  "assert_outbox e k c s = Inr (x, s') \<longleftrightarrow> s' = s \<and> (map_of (sp_outbox s) k = None
     \<or> (\<exists>q. envelope_at e (sp_outbox s) k = Some q \<and> same_envelope q c))"
  unfolding assert_outbox_def tx_bind_Inr read_envelope_Inr by (auto split: option.splits)

lemma accept_receipt_Inr:
  "accept_receipt e now c s = Inr (r, s') \<longleftrightarrow> make_receipt e now c ''accepted'' 0 JNull JNull = Some r
     \<and> s' = s\<lparr>sp_receipts := AList.update (stem_of e c) (durable_of r) (sp_receipts s)\<rparr>"
  by (auto simp: accept_receipt_def tx_results write_receipt_def)

lemma receive_cases:
  assumes "receive e now env s = Inr (a, s')"
  obtains (new) c r where "validate_envelope e env = Some c" "map_of (sp_inbox s) (stem_of e c) = None"
      "make_receipt e now c ''accepted'' 0 JNull JNull = Some r"
      "s' = s\<lparr>sp_inbox := AList.update (stem_of e c) (durable_of c) (sp_inbox s),
             sp_receipts := AList.update (stem_of e c) (durable_of r) (sp_receipts s)\<rparr>"
      "a = (''accepted'', False, r)"
  | (lost) c x r where "validate_envelope e env = Some c" "envelope_at e (sp_inbox s) (stem_of e c) = Some x"
      "same_envelope x c" "map_of (sp_receipts s) (stem_of e c) = None"
      "make_receipt e now x ''accepted'' 0 JNull JNull = Some r"
      "s' = s\<lparr>sp_receipts := AList.update (stem_of e x) (durable_of r) (sp_receipts s)\<rparr>"
      "a = (jtxt (dget0 r ''status''), True, dput ''duplicate'' (JBool True) r)"
  | (known) c x r where "validate_envelope e env = Some c" "envelope_at e (sp_inbox s) (stem_of e c) = Some x"
      "same_envelope x c" "receipt_at (sp_receipts s) (stem_of e c) = Some r" "receipt_ok e x r" "s' = s"
      "a = (jtxt (dget0 r ''status''), True, dput ''duplicate'' (JBool True) r)"
proof -
  from assms obtain c z where c: "validate_envelope e env = Some c" "assert_outbox e (stem_of e c) c s = Inr ((), s)"
      "read_envelope e sp_inbox (stem_of e c) s = Inr (z, s)"
    and a: "(case z of
         Some x \<Rightarrow>
           tx_seq (assert_same x c)
           (tx_bind (read_receipt e x (stem_of e c)) (\<lambda>receipt.
            tx_bind (case receipt of None \<Rightarrow> accept_receipt e now x | Some r \<Rightarrow> tx_return r) (\<lambda>r.
              tx_return (jtxt (dget0 r ''status''), True, dput ''duplicate'' (JBool True) r))))
       | None \<Rightarrow>
           tx_seq (write_inbox (stem_of e c) c)
           (tx_bind (accept_receipt e now c) (\<lambda>r. tx_return (''accepted'', False, r)))) s = Inr (a, s')"
    unfolding receive_def by (auto simp: tx_results assert_outbox_Inr read_envelope_Inr)
  show thesis
  proof (cases z)
    case None
    with a c(1,3) show thesis
      by (auto simp: tx_results accept_receipt_Inr write_inbox_def read_envelope_Inr intro: new)
  next
    case (Some x)
    with a obtain y r where y: "same_envelope x c" "read_receipt e x (stem_of e c) s = Inr (y, s)"
        "(case y of None \<Rightarrow> accept_receipt e now x | Some r \<Rightarrow> tx_return r) s = Inr (r, s')"
        "a = (jtxt (dget0 r ''status''), True, dput ''duplicate'' (JBool True) r)"
      by (auto simp: tx_results read_receipt_Inr)
    with c Some show thesis
      by (cases y) (auto simp: read_envelope_Inr read_receipt_Inr accept_receipt_Inr intro: lost known)
  qed
qed

lemma complete_cases:
  assumes "complete e now rid status result error s = Inr (a, s')"
  obtains (replay) c r where "completion_ok rid status result error" "envelope_at e (sp_inbox s) (request_stem e rid) = Some c"
      "receipt_at (sp_receipts s) (request_stem e rid) = Some r" "terminal_receipt r" "dget0 r ''status'' = JStr status"
      "dget0 r ''result_digest'' = jopt result" "dget0 r ''error_code'' = jopt error"
      "s' = s" "a = (status, True, dput ''duplicate'' (JBool True) r)"
  | (first) c r where "completion_ok rid status result error" "envelope_at e (sp_inbox s) (request_stem e rid) = Some c"
      "\<And>r. receipt_at (sp_receipts s) (request_stem e rid) = Some r \<Longrightarrow> \<not> terminal_receipt r"
      "make_receipt e now c status 1 (jopt result) (jopt error) = Some r"
      "s' = s\<lparr>sp_receipts := AList.update (request_stem e rid) (durable_of r) (sp_receipts s)\<rparr>"
      "a = (status, False, r)"
proof -
  from assms obtain c z where c: "completion_ok rid status result error"
      "envelope_at e (sp_inbox s) (request_stem e rid) = Some c" "read_receipt e c (request_stem e rid) s = Inr (z, s)"
    and a: "(case (case z of None \<Rightarrow> None | Some r \<Rightarrow> if terminal_receipt r then Some r else None) of
           Some r \<Rightarrow>
             tx_seq (tx_raise_if (dget0 r ''status'' \<noteq> JStr status \<or> dget0 r ''result_digest'' \<noteq> jopt result
                 \<or> dget0 r ''error_code'' \<noteq> jopt error) EnvelopeError)
             (tx_return (status, True, dput ''duplicate'' (JBool True) r))
         | None \<Rightarrow>
             tx_bind (some_or_raise (make_receipt e now c status 1 (jopt result) (jopt error))) (\<lambda>r.
             tx_seq (write_receipt (request_stem e rid) r) (tx_return (status, False, r)))) s = Inr (a, s')"
    unfolding complete_def Let_def by (auto simp: tx_results assert_outbox_Inr read_envelope_Inr read_receipt_Inr)
  show thesis
  proof (cases "\<exists>r. z = Some r \<and> terminal_receipt r")
    case True
    with a c show thesis by (auto simp: tx_results read_receipt_Inr intro: replay)
  next
    case False
    then have "(case z of None \<Rightarrow> None | Some r \<Rightarrow> if terminal_receipt r then Some r else None) = None"
      by (auto split: option.splits)
    with a obtain r where r: "make_receipt e now c status 1 (jopt result) (jopt error) = Some r" "a = (status, False, r)"
        "s' = s\<lparr>sp_receipts := AList.update (request_stem e rid) (durable_of r) (sp_receipts s)\<rparr>"
      by (auto simp: tx_results write_receipt_def)
    have "\<not> terminal_receipt r" if "receipt_at (sp_receipts s) (request_stem e rid) = Some r" for r
      using that False c(3) by (auto simp: read_receipt_Inr dest: at_dom)
    with c r show thesis by (intro first)
  qed
qed

section \<open>Histories\<close>

text \<open>
  The steps of a spool whose clock text is never empty. The process may die after \<open>receive\<close> wrote the
  inbox and before it wrote the receipt; a single write is atomic (\<open>os.replace\<close>).
\<close>

inductive spool_step :: "env \<Rightarrow> spool \<Rightarrow> spool \<Rightarrow> bool" for e where
  enqueued: "enqueue e env s = Inr (a, s') \<Longrightarrow> spool_step e s s'"
| received: "receive e now env s = Inr (a, s') \<Longrightarrow> now \<noteq> [] \<Longrightarrow> spool_step e s s'"
| died: "receive e now env s = Inr (a, s') \<Longrightarrow> spool_step e s (s\<lparr>sp_inbox := sp_inbox s'\<rparr>)"
| completed: "complete e now rid status result error s = Inr (a, s') \<Longrightarrow> now \<noteq> [] \<Longrightarrow> spool_step e s s'"

text \<open>Every file is a valid document under its own name, and a receipt fits the envelope it answers.\<close>

definition spool_ok :: "env \<Rightarrow> spool \<Rightarrow> bool" where
  "spool_ok e s \<longleftrightarrow>
     (\<forall>k. map_of (sp_outbox s) k \<noteq> None \<longrightarrow> (\<exists>c. envelope_at e (sp_outbox s) k = Some c \<and> stem_of e c = k)) \<and>
     (\<forall>k. map_of (sp_inbox s) k \<noteq> None \<longrightarrow> (\<exists>c. envelope_at e (sp_inbox s) k = Some c \<and> stem_of e c = k)) \<and>
     (\<forall>k. map_of (sp_receipts s) k \<noteq> None \<longrightarrow> (\<exists>c r. envelope_at e (sp_inbox s) k = Some c
        \<and> receipt_at (sp_receipts s) k = Some r \<and> receipt_ok e c r))"

text \<open>What a later spool keeps: every request and every terminal receipt.\<close>

definition spool_grows :: "env \<Rightarrow> spool \<Rightarrow> spool \<Rightarrow> bool" where
  "spool_grows e s s' \<longleftrightarrow>
     map_of (sp_outbox s) \<subseteq>\<^sub>m map_of (sp_outbox s') \<and> map_of (sp_inbox s) \<subseteq>\<^sub>m map_of (sp_inbox s') \<and>
     (\<forall>k r. receipt_at (sp_receipts s) k = Some r \<longrightarrow> terminal_receipt r \<longrightarrow> receipt_at (sp_receipts s') k = Some r)"

lemma spool_grows_refl [simp]: "spool_grows e s s"
  by (simp add: spool_grows_def)

lemma spool_grows_trans: "spool_grows e s t \<Longrightarrow> spool_grows e t u \<Longrightarrow> spool_grows e s u"
  unfolding spool_grows_def using map_le_trans by blast

lemma empty_spool_ok [simp]: "spool_ok e empty_spool"
  by (simp add: spool_ok_def empty_spool_def)

text \<open>Writing an envelope that was validated, and a receipt that fits.\<close>

lemma spool_ok_envelope:
  assumes "spool_ok e s" and "validate_envelope e d = Some c"
  shows "map_of (sp_outbox s) (stem_of e c) = None \<Longrightarrow>
      spool_ok e (s\<lparr>sp_outbox := AList.update (stem_of e c) (durable_of c) (sp_outbox s)\<rparr>)"
    and "map_of (sp_inbox s) (stem_of e c) = None \<Longrightarrow>
      spool_ok e (s\<lparr>sp_inbox := AList.update (stem_of e c) (durable_of c) (sp_inbox s)\<rparr>)"
proof -
  obtain c' where c': "validate_envelope e (canon_dict c) = Some c'" "identity c' = identity c"
    using assms(2) by (rule written_envelope)
  with identity_request have k: "stem_of e c' = stem_of e c" by blast
  show "spool_ok e (s\<lparr>sp_outbox := AList.update (stem_of e c) (durable_of c) (sp_outbox s)\<rparr>)"
    using assms(1) c'(1) k by (simp add: spool_ok_def at_update update_conv')
  show "spool_ok e (s\<lparr>sp_inbox := AList.update (stem_of e c) (durable_of c) (sp_inbox s)\<rparr>)"
    if "map_of (sp_inbox s) (stem_of e c) = None"
  proof -
    have "map_of (sp_receipts s) (stem_of e c) = None"
      using assms(1) that at_dom(1) unfolding spool_ok_def by blast
    with assms(1) c'(1) k show ?thesis by (auto simp: spool_ok_def at_update update_conv')
  qed
qed

lemma spool_ok_receipt:
  assumes "spool_ok e s" and "envelope_at e (sp_inbox s) k = Some c" and "receipt_ok e c r" and "wf_dict r"
  shows "spool_ok e (s\<lparr>sp_receipts := AList.update k (durable_of r) (sp_receipts s)\<rparr>)"
  using assms(1,2) written_receipt [OF assms(3,4)] by (auto simp: spool_ok_def at_update update_conv')

lemma spool_grows_receipt:
  assumes "\<And>r. receipt_at (sp_receipts s) k = Some r \<Longrightarrow> \<not> terminal_receipt r"
  shows "spool_grows e s (s\<lparr>sp_receipts := AList.update k (durable_of r) (sp_receipts s)\<rparr>)"
  using assms by (auto simp: spool_grows_def at_update)

lemmas accepted_receipt =
  made_receipt [where status = "''accepted''" and result = None and error = None, simplified jopt_simps]

lemma receive_grows:
  assumes a: "receive e now env s = Inr (a, s')" and "spool_ok e s"
  shows "spool_grows e s s' \<and> spool_grows e s (s\<lparr>sp_inbox := sp_inbox s'\<rparr>) \<and> spool_ok e (s\<lparr>sp_inbox := sp_inbox s'\<rparr>)"
  using a
proof (cases rule: receive_cases)
  case (new c r)
  have "map_of (sp_receipts s) (stem_of e c) = None"
    using assms(2) new(2) at_dom(1) unfolding spool_ok_def by blast
  with new spool_ok_envelope(2) [OF assms(2) new(1,2)] show ?thesis
    by (auto simp: spool_grows_def at_update update_conv' map_le_update_new dest: at_dom)
next
  case (lost c x r)
  have "stem_of e x = stem_of e c"
    using lost(3) identity_request [of x c e] unfolding same_envelope_identity(2) [OF lost(1)] by blast
  with lost assms(2) show ?thesis
    by (auto simp: spool_grows_def at_update dest: at_dom)
qed (use assms(2) in auto)

lemma receive_ok:
  assumes a: "receive e now env s = Inr (a, s')" and ok: "spool_ok e s" and "digest_ok e" and "now \<noteq> []"
  shows "spool_ok e s'"
  using a
proof (cases rule: receive_cases)
  case (new c r)
  obtain c' where c': "validate_envelope e (canon_dict c) = Some c'" "identity c' = identity c"
    using new(1) by (rule written_envelope)
  have r: "receipt_ok e c' r" "wf_dict r"
    using accepted_receipt [OF new(3) assms(3)] assms(4) by (simp_all add: outcome_ok_def receipt_ok_identity [OF c'(2)])
  have "spool_ok e (s\<lparr>sp_inbox := AList.update (stem_of e c) (durable_of c) (sp_inbox s)\<rparr>)"
    using ok new(1,2) by (rule spool_ok_envelope)
  from spool_ok_receipt [OF this _ r, of "stem_of e c"] c'(1) show ?thesis
    by (simp add: new(4) at_update)
next
  case (lost c x r)
  have "receipt_ok e x r" "wf_dict r"
    using accepted_receipt [OF lost(5) assms(3)] assms(4) by (simp_all add: outcome_ok_def)
  moreover have "stem_of e x = stem_of e c"
    using lost(3) identity_request [of x c e] unfolding same_envelope_identity(2) [OF lost(1)] by blast
  ultimately show ?thesis
    using spool_ok_receipt [OF ok lost(2)] by (simp add: lost(6))
qed (use ok in simp)

lemma complete_grows:
  assumes a: "complete e now rid status result error s = Inr (a, s')" and ok: "spool_ok e s" and "digest_ok e" and "now \<noteq> []"
  shows "spool_ok e s' \<and> spool_grows e s s'"
  using a
proof (cases rule: complete_cases)
  case (first c r)
  have "receipt_ok e c r" "wf_dict r"
    using made_receipt [OF first(4) assms(3) completion_outcome [OF first(1)] assms(4)] by simp_all
  with spool_ok_receipt [OF ok first(2)] spool_grows_receipt [OF first(3)] show ?thesis
    by (simp add: first(5))
qed (use ok in simp)

lemma enqueue_grows:
  assumes a: "enqueue e env s = Inr (a, s')" and ok: "spool_ok e s"
  shows "spool_ok e s' \<and> spool_grows e s s'"
  using a
proof (cases rule: enqueue_cases)
  case (new c)
  with spool_ok_envelope(1) [OF ok new(1,2)] show ?thesis
    by (simp add: spool_grows_def update_conv' map_le_update_new)
qed (use ok in simp)

lemma spool_history_grows:
  assumes "(spool_step e)\<^sup>*\<^sup>* s s'" and "digest_ok e" and "spool_ok e s"
  shows "spool_ok e s' \<and> spool_grows e s s'"
  using assms(1)
proof (induction rule: rtranclp_induct)
  case (step t u)
  from step.hyps(2) have "spool_ok e u \<and> spool_grows e t u"
  proof cases
    case (enqueued env a)
    with step.IH show ?thesis by (blast dest: enqueue_grows)
  next
    case (received now env a)
    with step.IH assms(2) show ?thesis by (blast dest: receive_ok receive_grows)
  next
    case (died now env a s')
    with step.IH show ?thesis by (blast dest: receive_grows)
  next
    case (completed now rid status result error a)
    with step.IH assms(2) show ?thesis by (blast dest: complete_grows)
  qed
  with step.IH show ?case by (blast intro: spool_grows_trans)
qed (use assms(3) in simp)

lemma jopt_inject [simp]: "jopt a = jopt b \<longleftrightarrow> a = b"
  by (cases a; cases b) simp_all

text \<open>The terminal receipt that a completion leaves behind.\<close>

lemma completed_receipt:
  assumes "complete e now rid status result error s = Inr (a, s')" and "digest_ok e" and "now \<noteq> []"
  obtains r where "receipt_at (sp_receipts s') (request_stem e rid) = Some r" "terminal_receipt r"
    "dget0 r ''status'' = JStr status" "dget0 r ''result_digest'' = jopt result" "dget0 r ''error_code'' = jopt error"
  using assms(1)
proof (cases rule: complete_cases)
  case (replay c r)
  then show ?thesis by (intro that [of r]) simp_all
next
  case (first c r)
  note made = made_receipt [OF first(4) assms(2) completion_outcome [OF first(1)] assms(3)]
  have "is_text (dget0 r ''status'')" "canon (jopt z) = jopt z" for z
    using made(3) by (cases z; simp add: is_text_def)+
  with made first(1) show ?thesis
    by (intro that [of "canon_dict r"])
      (auto simp: first(5) at_update dget0_canon_dict terminal_receipt_def completion_ok_def)
qed

section \<open>Properties\<close>

text \<open>C23. The outcome of a request is recorded once: after a completion was accepted, every later
  completion of that request that is answered at all is the replay of the same outcome, flagged as a
  duplicate, and writes nothing, whatever was enqueued, resent, completed or lost in a crash in
  between; another outcome for the request always raises.\<close>

theorem spool_outcome_is_recorded_once:
  assumes "digest_ok e" and "(spool_step e)\<^sup>*\<^sup>* empty_spool s" and "now \<noteq> []"
    and first: "complete e now rid status result error s = Inr (a, s1)"
    and "(spool_step e)\<^sup>*\<^sup>* s1 s2"
    and again: "complete e now' rid status' result' error' s2 = Inr (a', s3)"
  shows "status' = status \<and> result' = result \<and> error' = error \<and> fst (snd a') \<and> s3 = s2"
proof -
  have "spool_ok e s"
    using spool_history_grows [OF assms(2,1)] by simp
  then have "spool_ok e s1"
    using complete_grows [OF first _ assms(1,3)] by blast
  then have g: "spool_grows e s1 s2"
    using spool_history_grows [OF assms(5,1)] by blast
  obtain r where r: "receipt_at (sp_receipts s1) (request_stem e rid) = Some r" "terminal_receipt r"
      "dget0 r ''status'' = JStr status" "dget0 r ''result_digest'' = jopt result" "dget0 r ''error_code'' = jopt error"
    using first assms(1,3) by (rule completed_receipt)
  with g have r2: "receipt_at (sp_receipts s2) (request_stem e rid) = Some r"
    by (auto simp: spool_grows_def)
  from again show ?thesis
  proof (cases rule: complete_cases)
    case (replay c r')
    with r r2 show ?thesis by auto
  next
    case (first c r')
    with r(2) r2 show ?thesis by blast
  qed
qed

text \<open>What \<open>receive\<close> leaves behind, also when the process died before the receipt.\<close>

definition outbox_agrees :: "env \<Rightarrow> spool \<Rightarrow> dict \<Rightarrow> bool" where
  "outbox_agrees e s c \<longleftrightarrow> map_of (sp_outbox s) (stem_of e c) = None
     \<or> (\<exists>q. envelope_at e (sp_outbox s) (stem_of e c) = Some q \<and> same_envelope q c)"

lemma received_envelope:
  assumes "receive e now env s = Inr (a, s')"
  obtains c x where "validate_envelope e env = Some c" "outbox_agrees e s c"
    "envelope_at e (sp_inbox s') (stem_of e c) = Some x" "identity x = identity c"
proof -
  from assms obtain c where c: "validate_envelope e env = Some c" "outbox_agrees e s c"
    unfolding receive_def
    by (auto simp: tx_results assert_outbox_Inr outbox_agrees_def split: option.splits dest: at_dom)
  from assms have "\<exists>x. envelope_at e (sp_inbox s') (stem_of e c) = Some x \<and> identity x = identity c"
  proof (cases rule: receive_cases)
    case (new c' r)
    with c(1) written_envelope [OF new(1)] show ?thesis by (metis at_update(1) option.inject spool.select_convs(2) spool.surjective spool.update_convs(2,3))
  next
    case (lost c' x r)
    with c(1) same_envelope_identity(2) [OF lost(1)] show ?thesis by simp
  next
    case (known c' x r)
    with c(1) same_envelope_identity(2) [OF known(1)] show ?thesis by simp
  qed
  with c that show thesis by blast
qed

lemma find_envelope_Inr:
  assumes "envelope_at e (sp_inbox s) k = Some x" and "map_of (sp_outbox s) k = None \<or>
      (\<exists>q. envelope_at e (sp_outbox s) k = Some q \<and> identity q = identity x)"
  shows "find_envelope e k s = Inr (x, s)"
proof -
  obtain d where d: "read_file (sp_inbox s) k = Inr (Some d)" "validate_envelope e d = Some x"
    using assms(1) by (auto simp: envelope_at_def split: sum.splits option.splits)
  from validate_envelope_canonical [OF d(2)] have again: "validate_envelope e x = Some x" .
  from assms(2) show ?thesis
  proof
    assume "map_of (sp_outbox s) k = None"
    then have "read_file (sp_outbox s) k = Inr None" by (simp add: read_file_None)
    with d show ?thesis
      by (simp add: find_envelope_def tx_bind_Inr read_json_def tx_bind_def some_or_raise_def tx_return_def)
  next
    assume "\<exists>q. envelope_at e (sp_outbox s) k = Some q \<and> identity q = identity x"
    then obtain q d' where q: "read_file (sp_outbox s) k = Inr (Some d')" "validate_envelope e d' = Some q"
        "identity q = identity x"
      by (auto simp: envelope_at_def split: sum.splits option.splits)
    then have "same_envelope x q"
      using same_envelope_identity(1) [OF again, of q] by simp
    with d q again show ?thesis
      by (simp add: find_envelope_def read_json_def tx_bind_def tx_seq_def some_or_raise_def tx_return_def
          assert_same_def tx_raise_if_def)
  qed
qed

lemma status_of_received:
  assumes "envelope_at e (sp_inbox s) (stem_of e x) = Some x" and "receipt_at (sp_receipts s) (stem_of e x) = Some r"
    and "receipt_ok e x r" and "identity x = identity c" and "validate_envelope e env = Some c" and "outbox_agrees e s c"
  shows "status_of e (jtxt (dget0 env ''request_id'')) s = Inr ((jtxt (dget0 r ''status''), Some r, metadata x), s)"
proof -
  note same = identity_request [OF assms(4), of e]
  have id: "id_re (jtxt (dget0 env ''request_id''))" "request_stem e (jtxt (dget0 env ''request_id'')) = stem_of e c"
    using validate_envelope_fields(2,3) [OF assms(5)] by (auto simp: safe_id_def stem_of_def split: json.splits)
  have "map_of (sp_outbox s) (stem_of e c) = None \<or>
      (\<exists>q. envelope_at e (sp_outbox s) (stem_of e c) = Some q \<and> identity q = identity x)"
    using assms(6) unfolding outbox_agrees_def assms(4)
    by (auto simp: same_envelope_identity(2) [OF assms(5)] split: option.splits)
  with find_envelope_Inr assms(1) same have "find_envelope e (stem_of e c) s = Inr (x, s)" by metis
  moreover have "read_receipt e x (stem_of e c) s = Inr (Some r, s)"
    using assms(2,3) same by (simp add: read_receipt_Inr)
  ultimately show ?thesis
    using id by (simp add: status_of_def tx_bind_def tx_return_def)
qed

lemma outbox_agrees_outbox [simp]:
  "outbox_agrees e (sp_receipts_update f s) c = outbox_agrees e s c"
  by (simp add: outbox_agrees_def)

lemma accept_receipt_made: "make_receipt e now c ''accepted'' 0 JNull JNull \<noteq> None"
  by (simp add: make_receipt_def Let_def)

lemma outbox_agrees_Inr: "outbox_agrees e s c \<Longrightarrow> assert_outbox e (stem_of e c) c s = Inr ((), s)"
  by (auto simp: outbox_agrees_def assert_outbox_Inr split: option.splits)

lemma resend_answered:
  assumes "digest_ok e" and "now \<noteq> []" and ok: "spool_ok e s" and c: "validate_envelope e env = Some c"
    and agrees: "outbox_agrees e s c" and x: "envelope_at e (sp_inbox s) (stem_of e c) = Some x" "identity x = identity c"
  shows "\<exists>status r r' s'. receive e now env s = Inr ((status, True, r), s')
    \<and> status_of e (jtxt (dget0 env ''request_id'')) s' = Inr ((status, Some r', metadata c), s')"
proof -
  note same = identity_request [OF x(2), of e]
  have xc: "same_envelope x c" using x(2) same_envelope_identity(2) [OF c] by simp
  have inbox: "read_envelope e sp_inbox (stem_of e c) s = Inr (Some x, s)"
    using x(1) by (simp add: read_envelope_Inr)
  let ?answer = "\<lambda>r. (jtxt (dget0 r ''status''), True, dput ''duplicate'' (JBool True) r)"
  show ?thesis
  proof (cases "map_of (sp_receipts s) (stem_of e c)")
    case None
    obtain r where r: "make_receipt e now x ''accepted'' 0 JNull JNull = Some r"
      using accept_receipt_made by blast
    let ?s = "s\<lparr>sp_receipts := AList.update (stem_of e c) (durable_of r) (sp_receipts s)\<rparr>"
    have made: "wf_dict r" "receipt_ok e x r" "dget0 r ''status'' = JStr ''accepted''"
      using accepted_receipt [OF r assms(1)] assms(2) by (simp_all add: outcome_ok_def)
    have "read_receipt e x (stem_of e c) s = Inr (None, s)"
      using None by (simp add: read_receipt_Inr)
    then have "receive e now env s = Inr (?answer r, ?s)"
      using c outbox_agrees_Inr [OF agrees] inbox xc r same
      by (simp add: receive_def tx_bind_def tx_seq_def some_or_raise_def tx_return_def assert_same_def tx_raise_if_def
          accept_receipt_def write_receipt_def tx_modify_def)
    moreover have "status_of e (jtxt (dget0 env ''request_id'')) ?s
        = Inr ((jtxt (dget0 (canon_dict r) ''status''), Some (canon_dict r), metadata x), ?s)"
      using written_receipt [OF made(2,1)] x agrees same c
      by (intro status_of_received [where c = c]) (simp_all add: at_update)
    ultimately show ?thesis
      using same made(1,3) by (simp add: dget0_canon_dict)
  next
    case (Some f)
    then have "\<exists>y r. envelope_at e (sp_inbox s) (stem_of e c) = Some y
        \<and> receipt_at (sp_receipts s) (stem_of e c) = Some r \<and> receipt_ok e y r"
      using ok unfolding spool_ok_def by blast
    with x(1) obtain r where r: "receipt_at (sp_receipts s) (stem_of e c) = Some r" "receipt_ok e x r"
      by auto
    then have "read_receipt e x (stem_of e c) s = Inr (Some r, s)"
      by (simp add: read_receipt_Inr)
    then have "receive e now env s = Inr (?answer r, s)"
      using c outbox_agrees_Inr [OF agrees] inbox xc
      by (simp add: receive_def tx_bind_def tx_seq_def some_or_raise_def tx_return_def assert_same_def tx_raise_if_def)
    moreover have "status_of e (jtxt (dget0 env ''request_id'')) s
        = Inr ((jtxt (dget0 r ''status''), Some r, metadata x), s)"
      using r x agrees same c by (intro status_of_received [where c = c]) simp_all
    ultimately show ?thesis using same by auto
  qed
qed

text \<open>C24. A lost acknowledgement is recoverable, provided that nothing was enqueued into the spool since:
  after a spool received a request, even when the process died before it wrote the receipt, and
  whatever it received, completed or lost afterwards while its outbox stayed as it was
  (\<open>sp_outbox s2 = sp_outbox s\<close>), resending the same envelope is answered as a duplicate with a status,
  and the status query of the request then answers that same status with its receipt. A worker only
  receives and completes, so its spool meets the condition; in a spool that also enqueues, the status
  query may raise instead (\<open>enqueue_ignores_the_inbox\<close>).\<close>

theorem resent_envelope_is_answered:
  assumes "digest_ok e" and "(spool_step e)\<^sup>*\<^sup>* empty_spool s" and "now \<noteq> []" and "now' \<noteq> []"
    and first: "receive e now env s = Inr (a, s1)"
    and later: "(spool_step e)\<^sup>*\<^sup>* s1 s2 \<or> (spool_step e)\<^sup>*\<^sup>* (s\<lparr>sp_inbox := sp_inbox s1\<rparr>) s2"
    and outbox: "sp_outbox s2 = sp_outbox s"
  shows "\<exists>status r r' m s3. receive e now' env s2 = Inr ((status, True, r), s3)
    \<and> status_of e (jtxt (dget0 env ''request_id'')) s3 = Inr ((status, Some r', m), s3)"
proof -
  have ok: "spool_ok e s"
    using spool_history_grows [OF assms(2,1)] by simp
  obtain c x where c: "validate_envelope e env = Some c" "outbox_agrees e s c"
      "envelope_at e (sp_inbox s1) (stem_of e c) = Some x" "identity x = identity c"
    using first by (rule received_envelope)
  have "spool_ok e s1" "spool_ok e (s\<lparr>sp_inbox := sp_inbox s1\<rparr>)"
    using receive_ok [OF first ok assms(1,3)] receive_grows [OF first ok] by simp_all
  with later have s2: "spool_ok e s2 \<and> (spool_grows e s1 s2 \<or> spool_grows e (s\<lparr>sp_inbox := sp_inbox s1\<rparr>) s2)"
    using spool_history_grows [OF _ assms(1)] by blast
  then have le: "map_of (sp_inbox s1) \<subseteq>\<^sub>m map_of (sp_inbox s2)"
    by (auto simp: spool_grows_def)
  have "map_of (sp_inbox s2) (stem_of e c) = map_of (sp_inbox s1) (stem_of e c)"
    using le at_dom(1) [OF c(3)] by (auto simp: map_le_def dom_def)
  then have "envelope_at e (sp_inbox s2) (stem_of e c) = Some x"
    using c(3) by (simp add: envelope_at_def read_file_def)
  moreover have "outbox_agrees e s2 c"
    using c(2) outbox by (simp add: outbox_agrees_def)
  ultimately show ?thesis
    using resend_answered [OF assms(1,4) _ c(1) _ _ c(4)] s2 by blast
qed

text \<open>The answers to a first and to a repeated call.\<close>

lemma receive_new:
  assumes "validate_envelope e env = Some c" and "outbox_agrees e s c" and "map_of (sp_inbox s) (stem_of e c) = None"
    and "make_receipt e now c ''accepted'' 0 JNull JNull = Some r"
  shows "receive e now env s = Inr ((''accepted'', False, r),
    s\<lparr>sp_inbox := AList.update (stem_of e c) (durable_of c) (sp_inbox s),
      sp_receipts := AList.update (stem_of e c) (durable_of r) (sp_receipts s)\<rparr>)"
proof -
  have "read_envelope e sp_inbox (stem_of e c) s = Inr (None, s)"
    using assms(3) by (simp add: read_envelope_Inr)
  with assms(1,4) outbox_agrees_Inr [OF assms(2)] show ?thesis
    by (simp add: receive_def tx_bind_def tx_seq_def some_or_raise_def tx_return_def
        accept_receipt_def write_receipt_def write_inbox_def tx_modify_def)
qed

lemma complete_first:
  assumes "completion_ok rid status result error" and "envelope_at e (sp_inbox s) (request_stem e rid) = Some c"
    and "outbox_agrees e s c" and "request_stem e rid = stem_of e c"
    and "receipt_at (sp_receipts s) (stem_of e c) = Some r" "receipt_ok e c r" "\<not> terminal_receipt r"
    and "make_receipt e now c status 1 (jopt result) (jopt error) = Some r'"
  shows "complete e now rid status result error s = Inr ((status, False, r'),
    s\<lparr>sp_receipts := AList.update (stem_of e c) (durable_of r') (sp_receipts s)\<rparr>)"
proof -
  have "read_envelope e sp_inbox (stem_of e c) s = Inr (Some c, s)" "read_receipt e c (stem_of e c) s = Inr (Some r, s)"
    using assms by (simp_all add: read_envelope_Inr read_receipt_Inr)
  with assms outbox_agrees_Inr [OF assms(3)] show ?thesis
    by (simp add: complete_def Let_def tx_bind_def tx_seq_def tx_raise_if_def some_or_raise_def tx_return_def
        write_receipt_def tx_modify_def)
qed

lemma complete_again:
  assumes "completion_ok rid status result error" and "envelope_at e (sp_inbox s) (request_stem e rid) = Some c"
    and "outbox_agrees e s c" and "request_stem e rid = stem_of e c"
    and "receipt_at (sp_receipts s) (stem_of e c) = Some r" "receipt_ok e c r" "terminal_receipt r"
    and "dget0 r ''status'' = JStr status" "dget0 r ''result_digest'' = jopt result" "dget0 r ''error_code'' = jopt error"
  shows "complete e now rid status result error s = Inr ((status, True, dput ''duplicate'' (JBool True) r), s)"
proof -
  have "read_envelope e sp_inbox (stem_of e c) s = Inr (Some c, s)" "read_receipt e c (stem_of e c) s = Inr (Some r, s)"
    using assms by (simp_all add: read_envelope_Inr read_receipt_Inr)
  with assms outbox_agrees_Inr [OF assms(3)] show ?thesis
    by (simp add: complete_def Let_def tx_bind_def tx_seq_def tx_raise_if_def some_or_raise_def tx_return_def)
qed

section \<open>Examples\<close>

definition spool_env :: env where
  "spool_env = \<lparr>clock_us_now = 0, uuid_hex = (\<lambda>n. ''u''), uuid5_of = id, sha256_of = id, repr_of = (\<lambda>_. []),
     json_sha = (\<lambda>v. replicate 64 (case v of JObj [] \<Rightarrow> CHR ''0'' | _ \<Rightarrow> CHR ''a''))\<rparr>"

definition envelope_to :: "string \<Rightarrow> dict" where
  "envelope_to target =
     [(''schema_version'', JInt 1), (''envelope_version'', JInt 1), (''request_id'', JStr ''req-1''),
      (''idempotency_key'', JStr ''req-1''), (''source_id'', JStr ''ctl''), (''target_id'', JStr target),
      (''operation'', JStr ''run''), (''packet_digest'', JStr (replicate 64 (CHR ''b''))),
      (''payload_summary'', JObj [(''job_id'', JStr ''j1'')]),
      (''payload_digest'', JStr (replicate 64 (CHR ''a''))), (''created_at'', JStr ''t0'')]"

lemma spool_env_ok: "digest_ok spool_env"
proof -
  have "is_lower_hex (CHR ''0'')" "is_lower_hex (CHR ''a'')" by code_simp+
  then show ?thesis
  by (simp add: digest_ok_def spool_env_def hex64_def list_all_iff split: json.split list.split)
qed

lemma sample_valid:  "validate_envelope spool_env (envelope_to ''gpu'') = Some (envelope_to ''gpu'')" 
  "validate_envelope spool_env (envelope_to ''cpu'') = Some (envelope_to ''cpu'')" by code_simp+
lemma sample_stems: "stem_of spool_env (envelope_to ''gpu'') = ''req-1''" "stem_of spool_env (envelope_to ''cpu'') = ''req-1''" by code_simp+

definition spool_received :: spool where
  "spool_received = tx_state (receive spool_env ''t1'' (envelope_to ''gpu'')) empty_spool"

definition spool_done :: spool where
  "spool_done = tx_state (complete spool_env ''t2'' ''req-1'' ''failed'' None (Some ''timeout'')) spool_received"

lemma sample_receive: "\<exists>r. receive spool_env ''t1'' (envelope_to ''gpu'') empty_spool = Inr ((''accepted'', False, r), spool_received)
   \<and> make_receipt spool_env ''t1'' (envelope_to ''gpu'') ''accepted'' 0 JNull JNull = Some r
   \<and> spool_received = \<lparr>sp_outbox = [], sp_inbox = [(''req-1'', durable_of (envelope_to ''gpu''))],
        sp_receipts = [(''req-1'', durable_of r)]\<rparr>"
proof -
  obtain r where r: "make_receipt spool_env ''t1'' (envelope_to ''gpu'') ''accepted'' 0 JNull JNull = Some r"
    using accept_receipt_made by blast
  from receive_new [OF sample_valid(1) _ _ this, of empty_spool] show ?thesis
    by (simp add: r sample_stems spool_received_def tx_state_def empty_spool_def outbox_agrees_def)
qed


lemma sample_checks: "validate_envelope spool_env (canon_dict (envelope_to ''gpu'')) = Some (envelope_to ''gpu'')"
  "completion_ok ''req-1'' ''failed'' None (Some ''timeout'')" "request_stem spool_env ''req-1'' = ''req-1''"
  "make_receipt spool_env ''t2'' (envelope_to ''gpu'') ''failed'' 1 JNull (JStr ''timeout'') \<noteq> None"
  by code_simp+

lemma sample_complete:
  "\<exists>r. complete spool_env ''t2'' ''req-1'' ''failed'' None (Some ''timeout'') spool_received = Inr ((''failed'', False, r), spool_done)
     \<and> complete spool_env ''t3'' ''req-1'' ''failed'' None (Some ''timeout'') spool_done
         = Inr ((''failed'', True, dput ''duplicate'' (JBool True) (canon_dict r)), spool_done)"
proof -
  obtain r where r: "make_receipt spool_env ''t1'' (envelope_to ''gpu'') ''accepted'' 0 JNull JNull = Some r"
    and s: "spool_received = \<lparr>sp_outbox = [], sp_inbox = [(''req-1'', durable_of (envelope_to ''gpu''))],
        sp_receipts = [(''req-1'', durable_of r)]\<rparr>"
    using sample_receive by blast
  note acc = accepted_receipt [OF r spool_env_ok] 
  obtain r' where r': "make_receipt spool_env ''t2'' (envelope_to ''gpu'') ''failed'' 1 JNull (JStr ''timeout'') = Some r'"
    using sample_checks(4) by blast
  note fin = made_receipt [where result = None and error = "Some ''timeout''", OF _ spool_env_ok completion_outcome [OF sample_checks(2)],
      simplified jopt_simps, OF r']
  have at: "envelope_at spool_env [(''req-1'', durable_of (envelope_to ''gpu''))] ''req-1'' = Some (envelope_to ''gpu'')"
    "receipt_at [(''req-1'', durable_of q)] ''req-1'' = Some (canon_dict q)" for q
    using sample_checks(1) by (simp_all add: envelope_at_def receipt_at_def read_file_def durable_of_def canon_JObj del: canon.simps(7))
  have "complete spool_env ''t2'' ''req-1'' ''failed'' None (Some ''timeout'') spool_received
     = Inr ((''failed'', False, r'), spool_received\<lparr>sp_receipts := [(''req-1'', durable_of r')]\<rparr>)"
    using complete_first [OF sample_checks(2), of spool_env spool_received "envelope_to ''gpu''" "canon_dict r" "''t2''" r']
      written_receipt [of spool_env "envelope_to ''gpu''" r] acc r'
    by (simp add: s sample_stems sample_checks(3) at outbox_agrees_def outcome_ok_def dget0_canon_dict terminal_receipt_def)
  moreover from this have sd: "spool_done = spool_received\<lparr>sp_receipts := [(''req-1'', durable_of r')]\<rparr>"
    by (simp add: spool_done_def tx_state_def)
  moreover have "complete spool_env ''t3'' ''req-1'' ''failed'' None (Some ''timeout'') spool_done
         = Inr ((''failed'', True, dput ''duplicate'' (JBool True) (canon_dict r')), spool_done)"
    using complete_again [OF sample_checks(2), of spool_env spool_done "envelope_to ''gpu''" "canon_dict r'" "''t3''"]
      written_receipt [of spool_env "envelope_to ''gpu''" r'] fin
    by (simp add: s sd sample_stems sample_checks(3) at outbox_agrees_def dget0_canon_dict terminal_receipt_def)
  ultimately show ?thesis by simp
qed

theorem spool_outcome_is_recorded_once_witness:
  "\<exists>a. complete spool_env ''t3'' ''req-1'' ''failed'' None (Some ''timeout'') spool_done = Inr (a, spool_done)
    \<and> fst (snd a)"
proof -
  obtain r b where r: "complete spool_env ''t2'' ''req-1'' ''failed'' None (Some ''timeout'') spool_received = Inr (r, spool_done)"
      and b: "complete spool_env ''t3'' ''req-1'' ''failed'' None (Some ''timeout'') spool_done = Inr (b, spool_done)"
    using sample_complete by blast
  have steps: "(spool_step spool_env)\<^sup>*\<^sup>* empty_spool spool_received"
    using sample_receive by (auto intro: received)
  from spool_outcome_is_recorded_once [OF spool_env_ok steps _ r rtranclp.rtrancl_refl b] b show ?thesis
    by auto
qed

theorem resent_envelope_is_answered_witness:
  "\<exists>status r r' m s3. receive spool_env ''t2'' (envelope_to ''gpu'') (empty_spool\<lparr>sp_inbox := sp_inbox spool_received\<rparr>)
      = Inr ((status, True, r), s3)
    \<and> status_of spool_env (jtxt (dget0 (envelope_to ''gpu'') ''request_id'')) s3 = Inr ((status, Some r', m), s3)"
proof -
  obtain a where "receive spool_env ''t1'' (envelope_to ''gpu'') empty_spool = Inr (a, spool_received)"
    using sample_receive by blast
  from resent_envelope_is_answered [OF spool_env_ok rtranclp.rtrancl_refl _ _ this] show ?thesis
    by simp
qed

text \<open>
  \<open>receive\<close> checks the outbox before it accepts a request, but \<open>enqueue\<close> does not check the inbox: a
  changed envelope under a received identifier is accepted, and from then on the status of the
  request raises.
\<close>

lemma enqueue_ignores_the_inbox:
  "\<exists>s. enqueue spool_env (envelope_to ''cpu'') spool_received = Inr ((''pending'', False, envelope_to ''cpu''), s)
     \<and> status_of spool_env ''req-1'' s = Inl EnvelopeError"
proof -
  obtain r where s: "spool_received = \<lparr>sp_outbox = [], sp_inbox = [(''req-1'', durable_of (envelope_to ''gpu''))],
        sp_receipts = [(''req-1'', durable_of r)]\<rparr>"
    using sample_receive by blast
  have d: "validate_envelope spool_env (canon_dict (envelope_to ''cpu'')) = Some (envelope_to ''cpu'')"
    "\<not> same_envelope (envelope_to ''gpu'') (envelope_to ''cpu'')" "id_re ''req-1''"
    by code_simp+
  show ?thesis
    using d sample_checks(1)
    by (simp add: enqueue_def status_of_def find_envelope_def read_envelope_def read_json_def read_file_def s
        sample_valid sample_stems sample_checks(3) write_outbox_def durable_of_def canon_JObj some_or_raise_def
        assert_same_def tx_bind_def tx_seq_def tx_return_def tx_raise_def tx_raise_if_def tx_modify_def
        del: canon.simps(7))
qed

end
