(* ===== verification/Contracts.thy ===== *)
theory Contracts
  imports ContractChecks
begin

text \<open>
  The messages between a controller and its workers (\<open>api/contracts.py\<close>): the resource and
  capability records, and the five top-level messages (registration, capability snapshot, resource
  snapshot, heartbeat, execution handle).

  For every dataclass of the module there is a record, its \<open>__post_init__\<close> as a function of the
  keyword arguments (nested objects, which \<open>from_dict\<close> reads first, are arguments of their own), its
  \<open>to_dict\<close> and its \<open>from_dict\<close>. \<open>schema_version\<close> and \<open>api_version\<close> can hold one value only, so the
  records leave them out and \<open>to_dict\<close> writes the constant; the five fields of an observation, which
  \<open>_observation_payload\<close> writes as one block, are the record \<open>observed\<close>. Every message type
  interprets the locale \<open>wire\<close>.
\<close>

section \<open>Vocabulary\<close>

definition worker_api_version :: string where
  "worker_api_version = ''local-agent-dispatch.worker.v1''"

definition host_roles :: "string list" where
  "host_roles = [''execution'', ''workload'']"

definition capability_kinds :: "string list" where
  "capability_kinds =
     [''runtime'', ''transport'', ''validator'', ''scheduler'', ''accelerator'', ''filesystem'',
      ''worker'', ''other'']"

definition capability_statuses :: "string list" where
  "capability_statuses = [''available'', ''unavailable'', ''blocked'', ''unknown'']"

definition worker_reported_states :: "string list" where
  "worker_reported_states = [''ready'', ''busy'', ''draining'', ''stopped'', ''unknown'']"

definition execution_states :: "string list" where
  "execution_states =
     [''accepted'', ''running'', ''exited'', ''failed'', ''cancelled'', ''lost'', ''unknown'']"

text \<open>Two known amounts are in order; an unknown one proves nothing wrong.\<close>

definition bounded_by :: "'a::ord option \<Rightarrow> 'a option \<Rightarrow> bool" where
  "bounded_by a b = (case (a, b) of (Some x, Some y) \<Rightarrow> x \<le> y | _ \<Rightarrow> True)"

definition json_array :: "(json \<Rightarrow> 'a option) \<Rightarrow> json \<Rightarrow> 'a list option" where
  "json_array f v = (case v of JArr vs \<Rightarrow> checked_list f vs | _ \<Rightarrow> None)"

section \<open>Capabilities and resources\<close>

text \<open>One statically named worker capability; its status may stay unknown.\<close>

record capability =
  cp_capability_id :: string
  cp_kind :: string
  cp_status :: string
  cp_version :: "string option"
  cp_constraints :: "string list"

definition capability_fields :: "string list" where
  "capability_fields =
     [''capability_id'', ''kind'', ''status'', ''version'', ''constraints'']"

definition capability_post_init :: "dict \<Rightarrow> capability option" where
  "capability_post_init d = do {
     capability_id \<leftarrow> identifier_of (dget0 d ''capability_id'');
     kind \<leftarrow> enum capability_kinds (dget0 d ''kind'');
     status \<leftarrow> enum capability_statuses (dget0 d ''status'');
     version \<leftarrow> optional nonempty_string (dget0 d ''version'');
     constraints \<leftarrow> string_tuple (dget0 d ''constraints'');
     Some \<lparr>cp_capability_id = capability_id, cp_kind = kind, cp_status = status,
            cp_version = version, cp_constraints = constraints\<rparr> }"

definition capability_to_dict :: "capability \<Rightarrow> json" where
  "capability_to_dict x = JObj
     [(''capability_id'', JStr (cp_capability_id x)), (''kind'', JStr (cp_kind x)),
      (''status'', JStr (cp_status x)), (''version'', opt_json JStr (cp_version x)),
      (''constraints'', JArr (map JStr (cp_constraints x)))]"

definition capability_from_dict :: "json \<Rightarrow> capability option" where
  "capability_from_dict v = do { d \<leftarrow> strict_object capability_fields v; capability_post_init d }"

text \<open>Processor capacity: what is available lies within what is allocatable, and that within the capacity.\<close>

record cpu_resources =
  cr_capacity_cores :: "num_value option"
  cr_allocatable_cores :: "num_value option"
  cr_available_cores :: "num_value option"
  cr_utilization_percent :: "num_value option"

definition cpu_fields :: "string list" where
  "cpu_fields =
     [''capacity_cores'', ''allocatable_cores'', ''available_cores'', ''utilization_percent'']"

definition cpu_post_init :: "dict \<Rightarrow> cpu_resources option" where
  "cpu_post_init d = do {
     capacity_cores \<leftarrow> optional (number 0) (dget0 d ''capacity_cores'');
     allocatable_cores \<leftarrow> optional (number 0) (dget0 d ''allocatable_cores'');
     available_cores \<leftarrow> optional (number 0) (dget0 d ''available_cores'');
     utilization_percent \<leftarrow> optional (number 0) (dget0 d ''utilization_percent'');
     require (bounded_by (map_option num_val utilization_percent) (Some 100));
     require (bounded_by (map_option num_val allocatable_cores) (map_option num_val capacity_cores));
     require (bounded_by (map_option num_val available_cores) (map_option num_val allocatable_cores));
     Some \<lparr>cr_capacity_cores = capacity_cores, cr_allocatable_cores = allocatable_cores,
            cr_available_cores = available_cores, cr_utilization_percent = utilization_percent\<rparr> }"

definition cpu_to_dict :: "cpu_resources \<Rightarrow> json" where
  "cpu_to_dict x = JObj
     [(''capacity_cores'', opt_json num_json (cr_capacity_cores x)),
      (''allocatable_cores'', opt_json num_json (cr_allocatable_cores x)),
      (''available_cores'', opt_json num_json (cr_available_cores x)),
      (''utilization_percent'', opt_json num_json (cr_utilization_percent x))]"

definition cpu_from_dict :: "json \<Rightarrow> cpu_resources option" where
  "cpu_from_dict v = do { d \<leftarrow> strict_object cpu_fields v; cpu_post_init d }"

text \<open>Memory in bytes, for RAM and for swap.\<close>

record memory_resources =
  mr_capacity_bytes :: "int option"
  mr_allocatable_bytes :: "int option"
  mr_available_bytes :: "int option"
  mr_used_bytes :: "int option"

definition memory_fields :: "string list" where
  "memory_fields =
     [''capacity_bytes'', ''allocatable_bytes'', ''available_bytes'', ''used_bytes'']"

definition memory_post_init :: "dict \<Rightarrow> memory_resources option" where
  "memory_post_init d = do {
     capacity_bytes \<leftarrow> optional (integer 0) (dget0 d ''capacity_bytes'');
     allocatable_bytes \<leftarrow> optional (integer 0) (dget0 d ''allocatable_bytes'');
     available_bytes \<leftarrow> optional (integer 0) (dget0 d ''available_bytes'');
     used_bytes \<leftarrow> optional (integer 0) (dget0 d ''used_bytes'');
     require (bounded_by allocatable_bytes capacity_bytes);
     require (bounded_by available_bytes allocatable_bytes);
     Some \<lparr>mr_capacity_bytes = capacity_bytes, mr_allocatable_bytes = allocatable_bytes,
            mr_available_bytes = available_bytes, mr_used_bytes = used_bytes\<rparr> }"

definition memory_to_dict :: "memory_resources \<Rightarrow> json" where
  "memory_to_dict x = JObj
     [(''capacity_bytes'', opt_json JInt (mr_capacity_bytes x)),
      (''allocatable_bytes'', opt_json JInt (mr_allocatable_bytes x)),
      (''available_bytes'', opt_json JInt (mr_available_bytes x)),
      (''used_bytes'', opt_json JInt (mr_used_bytes x))]"

definition memory_from_dict :: "json \<Rightarrow> memory_resources option" where
  "memory_from_dict v = do { d \<leftarrow> strict_object memory_fields v; memory_post_init d }"

text \<open>The limits and the use of the worker's control group.\<close>

record cgroup_resources =
  cg_cpu_quota_cores :: "num_value option"
  cg_memory_limit_bytes :: "int option"
  cg_memory_current_bytes :: "int option"
  cg_swap_limit_bytes :: "int option"
  cg_swap_current_bytes :: "int option"

definition cgroup_fields :: "string list" where
  "cgroup_fields =
     [''cpu_quota_cores'', ''memory_limit_bytes'', ''memory_current_bytes'', ''swap_limit_bytes'',
      ''swap_current_bytes'']"

definition cgroup_post_init :: "dict \<Rightarrow> cgroup_resources option" where
  "cgroup_post_init d = do {
     cpu_quota_cores \<leftarrow> optional (number 0) (dget0 d ''cpu_quota_cores'');
     memory_limit_bytes \<leftarrow> optional (integer 0) (dget0 d ''memory_limit_bytes'');
     memory_current_bytes \<leftarrow> optional (integer 0) (dget0 d ''memory_current_bytes'');
     swap_limit_bytes \<leftarrow> optional (integer 0) (dget0 d ''swap_limit_bytes'');
     swap_current_bytes \<leftarrow> optional (integer 0) (dget0 d ''swap_current_bytes'');
     Some \<lparr>cg_cpu_quota_cores = cpu_quota_cores, cg_memory_limit_bytes = memory_limit_bytes,
            cg_memory_current_bytes = memory_current_bytes, cg_swap_limit_bytes = swap_limit_bytes,
            cg_swap_current_bytes = swap_current_bytes\<rparr> }"

definition cgroup_to_dict :: "cgroup_resources \<Rightarrow> json" where
  "cgroup_to_dict x = JObj
     [(''cpu_quota_cores'', opt_json num_json (cg_cpu_quota_cores x)),
      (''memory_limit_bytes'', opt_json JInt (cg_memory_limit_bytes x)),
      (''memory_current_bytes'', opt_json JInt (cg_memory_current_bytes x)),
      (''swap_limit_bytes'', opt_json JInt (cg_swap_limit_bytes x)),
      (''swap_current_bytes'', opt_json JInt (cg_swap_current_bytes x))]"

definition cgroup_from_dict :: "json \<Rightarrow> cgroup_resources option" where
  "cgroup_from_dict v = do { d \<leftarrow> strict_object cgroup_fields v; cgroup_post_init d }"

text \<open>Evidence for one exact mount, whose path is kept normalised.\<close>

record mount_resources =
  mo_mount_path :: string
  mo_device :: "string option"
  mo_fs_type :: "string option"
  mo_writable :: "bool option"
  mo_capacity_bytes :: "int option"
  mo_available_bytes :: "int option"
  mo_total_inodes :: "int option"
  mo_free_inodes :: "int option"

definition mount_fields :: "string list" where
  "mount_fields =
     [''mount_path'', ''device'', ''fs_type'', ''writable'', ''capacity_bytes'',
      ''available_bytes'', ''total_inodes'', ''free_inodes'']"

definition mount_post_init :: "dict \<Rightarrow> mount_resources option" where
  "mount_post_init d = do {
     mount_path \<leftarrow> absolute_path (dget0 d ''mount_path'');
     device \<leftarrow> optional nonempty_string (dget0 d ''device'');
     fs_type \<leftarrow> optional nonempty_string (dget0 d ''fs_type'');
     writable \<leftarrow> optional boolean (dget0 d ''writable'');
     capacity_bytes \<leftarrow> optional (integer 0) (dget0 d ''capacity_bytes'');
     available_bytes \<leftarrow> optional (integer 0) (dget0 d ''available_bytes'');
     total_inodes \<leftarrow> optional (integer 0) (dget0 d ''total_inodes'');
     free_inodes \<leftarrow> optional (integer 0) (dget0 d ''free_inodes'');
     require (bounded_by available_bytes capacity_bytes);
     require (bounded_by free_inodes total_inodes);
     Some \<lparr>mo_mount_path = mount_path, mo_device = device, mo_fs_type = fs_type,
            mo_writable = writable, mo_capacity_bytes = capacity_bytes,
            mo_available_bytes = available_bytes, mo_total_inodes = total_inodes,
            mo_free_inodes = free_inodes\<rparr> }"

definition mount_to_dict :: "mount_resources \<Rightarrow> json" where
  "mount_to_dict x = JObj
     [(''mount_path'', JStr (mo_mount_path x)), (''device'', opt_json JStr (mo_device x)),
      (''fs_type'', opt_json JStr (mo_fs_type x)), (''writable'', opt_json JBool (mo_writable x)),
      (''capacity_bytes'', opt_json JInt (mo_capacity_bytes x)),
      (''available_bytes'', opt_json JInt (mo_available_bytes x)),
      (''total_inodes'', opt_json JInt (mo_total_inodes x)),
      (''free_inodes'', opt_json JInt (mo_free_inodes x))]"

definition mount_from_dict :: "json \<Rightarrow> mount_resources option" where
  "mount_from_dict v = do { d \<leftarrow> strict_object mount_fields v; mount_post_init d }"

text \<open>One GPU.\<close>

record gpu_resources =
  gr_gpu_id :: string
  gr_model :: "string option"
  gr_memory_capacity_bytes :: "int option"
  gr_memory_available_bytes :: "int option"
  gr_utilization_percent :: "num_value option"

definition gpu_fields :: "string list" where
  "gpu_fields =
     [''gpu_id'', ''model'', ''memory_capacity_bytes'', ''memory_available_bytes'',
      ''utilization_percent'']"

definition gpu_post_init :: "dict \<Rightarrow> gpu_resources option" where
  "gpu_post_init d = do {
     gpu_id \<leftarrow> identifier_of (dget0 d ''gpu_id'');
     model \<leftarrow> optional nonempty_string (dget0 d ''model'');
     memory_capacity_bytes \<leftarrow> optional (integer 0) (dget0 d ''memory_capacity_bytes'');
     memory_available_bytes \<leftarrow> optional (integer 0) (dget0 d ''memory_available_bytes'');
     utilization_percent \<leftarrow> optional (number 0) (dget0 d ''utilization_percent'');
     require (bounded_by (map_option num_val utilization_percent) (Some 100));
     require (bounded_by memory_available_bytes memory_capacity_bytes);
     Some \<lparr>gr_gpu_id = gpu_id, gr_model = model, gr_memory_capacity_bytes = memory_capacity_bytes,
            gr_memory_available_bytes = memory_available_bytes,
            gr_utilization_percent = utilization_percent\<rparr> }"

definition gpu_to_dict :: "gpu_resources \<Rightarrow> json" where
  "gpu_to_dict x = JObj
     [(''gpu_id'', JStr (gr_gpu_id x)), (''model'', opt_json JStr (gr_model x)),
      (''memory_capacity_bytes'', opt_json JInt (gr_memory_capacity_bytes x)),
      (''memory_available_bytes'', opt_json JInt (gr_memory_available_bytes x)),
      (''utilization_percent'', opt_json num_json (gr_utilization_percent x))]"

definition gpu_from_dict :: "json \<Rightarrow> gpu_resources option" where
  "gpu_from_dict v = do { d \<leftarrow> strict_object gpu_fields v; gpu_post_init d }"

text \<open>A process the worker owns, without its command text.\<close>

record owned_process =
  op_process_id :: string
  op_attempt_id :: string
  op_pid :: int
  op_started_at :: string
  op_fence_token :: int
  op_rss_bytes :: "int option"
  op_gpu_memory_bytes :: "int option"

definition process_fields :: "string list" where
  "process_fields =
     [''process_id'', ''attempt_id'', ''pid'', ''started_at'', ''fence_token'', ''rss_bytes'',
      ''gpu_memory_bytes'']"

definition process_post_init :: "dict \<Rightarrow> owned_process option" where
  "process_post_init d = do {
     process_id \<leftarrow> identifier_of (dget0 d ''process_id'');
     attempt_id \<leftarrow> identifier_of (dget0 d ''attempt_id'');
     pid \<leftarrow> integer 1 (dget0 d ''pid'');
     started_at \<leftarrow> timestamp (dget0 d ''started_at'');
     fence_token \<leftarrow> integer 1 (dget0 d ''fence_token'');
     rss_bytes \<leftarrow> optional (integer 0) (dget0 d ''rss_bytes'');
     gpu_memory_bytes \<leftarrow> optional (integer 0) (dget0 d ''gpu_memory_bytes'');
     Some \<lparr>op_process_id = process_id, op_attempt_id = attempt_id, op_pid = pid,
            op_started_at = started_at, op_fence_token = fence_token, op_rss_bytes = rss_bytes,
            op_gpu_memory_bytes = gpu_memory_bytes\<rparr> }"

definition process_to_dict :: "owned_process \<Rightarrow> json" where
  "process_to_dict x = JObj
     [(''process_id'', JStr (op_process_id x)), (''attempt_id'', JStr (op_attempt_id x)),
      (''pid'', JInt (op_pid x)), (''started_at'', JStr (op_started_at x)),
      (''fence_token'', JInt (op_fence_token x)), (''rss_bytes'', opt_json JInt (op_rss_bytes x)),
      (''gpu_memory_bytes'', opt_json JInt (op_gpu_memory_bytes x))]"

definition process_from_dict :: "json \<Rightarrow> owned_process option" where
  "process_from_dict v = do { d \<leftarrow> strict_object process_fields v; process_post_init d }"

text \<open>Reserved or observed use by dimension; an absent value is unknown, never zero.\<close>

record resource_usage =
  us_cpu_cores :: "num_value option"
  us_ram_bytes :: "int option"
  us_swap_bytes :: "int option"
  us_gpu_memory_bytes :: "int option"
  us_disk_bytes :: "int option"
  us_inodes :: "int option"
  us_owned_process_rss_bytes :: "int option"

definition usage_fields :: "string list" where
  "usage_fields =
     [''cpu_cores'', ''ram_bytes'', ''swap_bytes'', ''gpu_memory_bytes'', ''disk_bytes'',
      ''inodes'', ''owned_process_rss_bytes'']"

definition usage_post_init :: "dict \<Rightarrow> resource_usage option" where
  "usage_post_init d = do {
     cpu_cores \<leftarrow> optional (number 0) (dget0 d ''cpu_cores'');
     ram_bytes \<leftarrow> optional (integer 0) (dget0 d ''ram_bytes'');
     swap_bytes \<leftarrow> optional (integer 0) (dget0 d ''swap_bytes'');
     gpu_memory_bytes \<leftarrow> optional (integer 0) (dget0 d ''gpu_memory_bytes'');
     disk_bytes \<leftarrow> optional (integer 0) (dget0 d ''disk_bytes'');
     inodes \<leftarrow> optional (integer 0) (dget0 d ''inodes'');
     owned_process_rss_bytes \<leftarrow> optional (integer 0) (dget0 d ''owned_process_rss_bytes'');
     Some \<lparr>us_cpu_cores = cpu_cores, us_ram_bytes = ram_bytes, us_swap_bytes = swap_bytes,
            us_gpu_memory_bytes = gpu_memory_bytes, us_disk_bytes = disk_bytes, us_inodes = inodes,
            us_owned_process_rss_bytes = owned_process_rss_bytes\<rparr> }"

definition usage_to_dict :: "resource_usage \<Rightarrow> json" where
  "usage_to_dict x = JObj
     [(''cpu_cores'', opt_json num_json (us_cpu_cores x)),
      (''ram_bytes'', opt_json JInt (us_ram_bytes x)),
      (''swap_bytes'', opt_json JInt (us_swap_bytes x)),
      (''gpu_memory_bytes'', opt_json JInt (us_gpu_memory_bytes x)),
      (''disk_bytes'', opt_json JInt (us_disk_bytes x)), (''inodes'', opt_json JInt (us_inodes x)),
      (''owned_process_rss_bytes'', opt_json JInt (us_owned_process_rss_bytes x))]"

definition usage_from_dict :: "json \<Rightarrow> resource_usage option" where
  "usage_from_dict v = do { d \<leftarrow> strict_object usage_fields v; usage_post_init d }"

section \<open>Messages\<close>

text \<open>When, how and in which order something was observed.\<close>

record observed =
  ob_observed_at :: string
  ob_ttl_seconds :: "int option"
  ob_source :: string
  ob_confidence :: "num_value option"
  ob_sequence :: int

definition validate_version :: "dict \<Rightarrow> unit option" where
  "validate_version d = require (dget0 d ''schema_version'' = JInt 1
     \<and> dget0 d ''api_version'' = JStr worker_api_version)"

definition validate_observation :: "dict \<Rightarrow> observed option" where
  "validate_observation d = do {
     seen \<leftarrow> timestamp (dget0 d ''observed_at'');
     ttl \<leftarrow> optional (integer 1) (dget0 d ''ttl_seconds'');
     source \<leftarrow> nonempty_string (dget0 d ''source'');
     confidence \<leftarrow> optional (number 0) (dget0 d ''confidence'');
     require (bounded_by (map_option num_val confidence) (Some 1));
     sequence \<leftarrow> integer 1 (dget0 d ''sequence'');
     Some \<lparr>ob_observed_at = seen, ob_ttl_seconds = ttl, ob_source = source,
            ob_confidence = confidence, ob_sequence = sequence\<rparr> }"

definition observation_payload :: "observed \<Rightarrow> dict" where
  "observation_payload b =
     [(''observed_at'', JStr (ob_observed_at b)), (''ttl_seconds'', opt_json JInt (ob_ttl_seconds b)),
      (''source'', JStr (ob_source b)), (''confidence'', opt_json num_json (ob_confidence b)),
      (''sequence'', JInt (ob_sequence b))]"

text \<open>The \<open>freshness\<close> method of the messages.\<close>

definition freshness_of :: "int \<Rightarrow> observed \<Rightarrow> string option \<Rightarrow> string option" where
  "freshness_of clock b now = freshness clock (ob_observed_at b) (ob_ttl_seconds b) now"

text \<open>A worker registers with a fence; every later registration of the same worker has a higher one.\<close>

record host_registration =
  hr_registration_id :: string
  hr_host_id :: string
  hr_worker_id :: string
  hr_roles :: "string list"
  hr_registered_at :: string
  hr_idempotency_key :: string
  hr_fence_token :: int
  hr_labels :: "string list"

definition registration_fields :: "string list" where
  "registration_fields =
     [''schema_version'', ''api_version'', ''registration_id'', ''host_id'', ''worker_id'',
      ''roles'', ''registered_at'', ''idempotency_key'', ''fence_token'', ''labels'']"

definition registration_post_init :: "dict \<Rightarrow> host_registration option" where
  "registration_post_init d = do {
     validate_version d;
     registration_id \<leftarrow> identifier_of (dget0 d ''registration_id'');
     host_id \<leftarrow> identifier_of (dget0 d ''host_id'');
     worker_id \<leftarrow> identifier_of (dget0 d ''worker_id'');
     roles \<leftarrow> string_tuple (dget0 d ''roles'');
     registered_at \<leftarrow> timestamp (dget0 d ''registered_at'');
     idempotency_key \<leftarrow> identifier_of (dget0 d ''idempotency_key'');
     fence_token \<leftarrow> integer 1 (dget0 d ''fence_token'');
     labels \<leftarrow> string_tuple (dget0 d ''labels'');
     require (roles \<noteq> []);
     require (list_all (\<lambda>r. r \<in> set host_roles) roles);
     Some \<lparr>hr_registration_id = registration_id, hr_host_id = host_id, hr_worker_id = worker_id,
            hr_roles = roles, hr_registered_at = registered_at,
            hr_idempotency_key = idempotency_key, hr_fence_token = fence_token, hr_labels = labels\<rparr> }"

definition registration_to_dict :: "host_registration \<Rightarrow> json" where
  "registration_to_dict x = JObj
     [(''schema_version'', JInt 1), (''api_version'', JStr worker_api_version),
      (''registration_id'', JStr (hr_registration_id x)), (''host_id'', JStr (hr_host_id x)),
      (''worker_id'', JStr (hr_worker_id x)), (''roles'', JArr (map JStr (hr_roles x))),
      (''registered_at'', JStr (hr_registered_at x)),
      (''idempotency_key'', JStr (hr_idempotency_key x)),
      (''fence_token'', JInt (hr_fence_token x)), (''labels'', JArr (map JStr (hr_labels x)))]"

definition registration_from_dict :: "json \<Rightarrow> host_registration option" where
  "registration_from_dict v = do {
     d \<leftarrow> strict_object registration_fields v;
     registration_post_init d }"

text \<open>The capabilities of a worker at one moment.\<close>

record capability_snapshot =
  cs_snapshot_id :: string
  cs_host_id :: string
  cs_worker_id :: string
  cs_capabilities :: "capability list"
  cs_observed :: observed
  cs_idempotency_key :: string
  cs_fence_token :: int

definition snapshot_fields :: "string list" where
  "snapshot_fields =
     [''schema_version'', ''api_version'', ''snapshot_id'', ''host_id'', ''worker_id'',
      ''capabilities'', ''observed_at'', ''ttl_seconds'', ''source'', ''confidence'', ''sequence'',
      ''idempotency_key'', ''fence_token'']"

definition snapshot_post_init :: "dict \<Rightarrow> capability list \<Rightarrow> capability_snapshot option" where
  "snapshot_post_init d capabilities = do {
     validate_version d;
     snapshot_id \<leftarrow> identifier_of (dget0 d ''snapshot_id'');
     host_id \<leftarrow> identifier_of (dget0 d ''host_id'');
     worker_id \<leftarrow> identifier_of (dget0 d ''worker_id'');
     observed \<leftarrow> validate_observation d;
     idempotency_key \<leftarrow> identifier_of (dget0 d ''idempotency_key'');
     fence_token \<leftarrow> integer 1 (dget0 d ''fence_token'');
     require (distinct (map cp_capability_id capabilities));
     Some \<lparr>cs_snapshot_id = snapshot_id, cs_host_id = host_id, cs_worker_id = worker_id,
            cs_capabilities = capabilities, cs_observed = observed,
            cs_idempotency_key = idempotency_key, cs_fence_token = fence_token\<rparr> }"

definition snapshot_to_dict :: "capability_snapshot \<Rightarrow> json" where
  "snapshot_to_dict x = JObj
     ([(''schema_version'', JInt 1), (''api_version'', JStr worker_api_version),
      (''snapshot_id'', JStr (cs_snapshot_id x)), (''host_id'', JStr (cs_host_id x)),
      (''worker_id'', JStr (cs_worker_id x)),
      (''capabilities'', JArr (map capability_to_dict (cs_capabilities x)))]
     @ observation_payload (cs_observed x)
     @ [(''idempotency_key'', JStr (cs_idempotency_key x)), (''fence_token'', JInt (cs_fence_token x))])"

definition snapshot_from_dict :: "json \<Rightarrow> capability_snapshot option" where
  "snapshot_from_dict v = do {
     d \<leftarrow> strict_object snapshot_fields v;
     capabilities \<leftarrow> json_array capability_from_dict (dget0 d ''capabilities'');
     snapshot_post_init d capabilities }"

text \<open>The resources of a worker at one moment.\<close>

record resource_snapshot =
  rs_snapshot_id :: string
  rs_host_id :: string
  rs_worker_id :: string
  rs_cpu :: cpu_resources
  rs_ram :: memory_resources
  rs_swap :: memory_resources
  rs_cgroup :: cgroup_resources
  rs_mounts :: "mount_resources list"
  rs_gpus :: "gpu_resources list"
  rs_owned_processes :: "owned_process list"
  rs_observed :: observed
  rs_idempotency_key :: string
  rs_fence_token :: int

definition resources_fields :: "string list" where
  "resources_fields =
     [''schema_version'', ''api_version'', ''snapshot_id'', ''host_id'', ''worker_id'', ''cpu'',
      ''ram'', ''swap'', ''cgroup'', ''mounts'', ''gpus'', ''owned_processes'', ''observed_at'',
      ''ttl_seconds'', ''source'', ''confidence'', ''sequence'', ''idempotency_key'',
      ''fence_token'']"

definition resources_post_init ::
  "dict \<Rightarrow> cpu_resources \<Rightarrow> memory_resources \<Rightarrow> memory_resources \<Rightarrow> cgroup_resources \<Rightarrow>
    mount_resources list \<Rightarrow> gpu_resources list \<Rightarrow> owned_process list \<Rightarrow> resource_snapshot option" where
  "resources_post_init d cpu ram swap cgroup mounts gpus owned_processes = do {
     validate_version d;
     snapshot_id \<leftarrow> identifier_of (dget0 d ''snapshot_id'');
     host_id \<leftarrow> identifier_of (dget0 d ''host_id'');
     worker_id \<leftarrow> identifier_of (dget0 d ''worker_id'');
     observed \<leftarrow> validate_observation d;
     idempotency_key \<leftarrow> identifier_of (dget0 d ''idempotency_key'');
     fence_token \<leftarrow> integer 1 (dget0 d ''fence_token'');
     require (distinct (map mo_mount_path mounts));
     require (distinct (map gr_gpu_id gpus));
     require (distinct (map op_process_id owned_processes));
     require (list_all (\<lambda>p. op_fence_token p = fence_token) owned_processes);
     Some \<lparr>rs_snapshot_id = snapshot_id, rs_host_id = host_id, rs_worker_id = worker_id,
            rs_cpu = cpu, rs_ram = ram, rs_swap = swap, rs_cgroup = cgroup, rs_mounts = mounts,
            rs_gpus = gpus, rs_owned_processes = owned_processes, rs_observed = observed,
            rs_idempotency_key = idempotency_key, rs_fence_token = fence_token\<rparr> }"

definition resources_to_dict :: "resource_snapshot \<Rightarrow> json" where
  "resources_to_dict x = JObj
     ([(''schema_version'', JInt 1), (''api_version'', JStr worker_api_version),
      (''snapshot_id'', JStr (rs_snapshot_id x)), (''host_id'', JStr (rs_host_id x)),
      (''worker_id'', JStr (rs_worker_id x)), (''cpu'', cpu_to_dict (rs_cpu x)),
      (''ram'', memory_to_dict (rs_ram x)), (''swap'', memory_to_dict (rs_swap x)),
      (''cgroup'', cgroup_to_dict (rs_cgroup x)),
      (''mounts'', JArr (map mount_to_dict (rs_mounts x))),
      (''gpus'', JArr (map gpu_to_dict (rs_gpus x))),
      (''owned_processes'', JArr (map process_to_dict (rs_owned_processes x)))]
     @ observation_payload (rs_observed x)
     @ [(''idempotency_key'', JStr (rs_idempotency_key x)), (''fence_token'', JInt (rs_fence_token x))])"

definition resources_from_dict :: "json \<Rightarrow> resource_snapshot option" where
  "resources_from_dict v = do {
     d \<leftarrow> strict_object resources_fields v;
     cpu \<leftarrow> cpu_from_dict (dget0 d ''cpu'');
     ram \<leftarrow> memory_from_dict (dget0 d ''ram'');
     swap \<leftarrow> memory_from_dict (dget0 d ''swap'');
     cgroup \<leftarrow> cgroup_from_dict (dget0 d ''cgroup'');
     mounts \<leftarrow> json_array mount_from_dict (dget0 d ''mounts'');
     gpus \<leftarrow> json_array gpu_from_dict (dget0 d ''gpus'');
     owned_processes \<leftarrow> json_array process_from_dict (dget0 d ''owned_processes'');
     resources_post_init d cpu ram swap cgroup mounts gpus owned_processes }"

text \<open>The summed size of the owned processes, unknown as soon as one of them is.\<close>

fun sum_rss :: "int \<Rightarrow> owned_process list \<Rightarrow> int option" where
  "sum_rss acc [] = Some acc"
| "sum_rss acc (p # ps) =
     (case op_rss_bytes p of None \<Rightarrow> None | Some n \<Rightarrow> sum_rss (acc + n) ps)"

definition owned_process_rss_bytes :: "resource_snapshot \<Rightarrow> int option" where
  "owned_process_rss_bytes x = sum_rss 0 (rs_owned_processes x)"

text \<open>What a worker says of itself, with the snapshots it refers to.\<close>

record worker_heartbeat =
  hb_heartbeat_id :: string
  hb_host_id :: string
  hb_worker_id :: string
  hb_state :: string
  hb_observed :: observed
  hb_idempotency_key :: string
  hb_fence_token :: int
  hb_capability_sequence :: "int option"
  hb_resource_sequence :: "int option"
  hb_reserved_usage :: resource_usage
  hb_actual_usage :: resource_usage
  hb_active_execution_handles :: "string list"

definition heartbeat_fields :: "string list" where
  "heartbeat_fields =
     [''schema_version'', ''api_version'', ''heartbeat_id'', ''host_id'', ''worker_id'', ''state'',
      ''observed_at'', ''ttl_seconds'', ''source'', ''confidence'', ''sequence'',
      ''idempotency_key'', ''fence_token'', ''capability_sequence'', ''resource_sequence'',
      ''reserved_usage'', ''actual_usage'', ''active_execution_handles'']"

definition heartbeat_post_init :: "dict \<Rightarrow> resource_usage \<Rightarrow> resource_usage \<Rightarrow> worker_heartbeat option" where
  "heartbeat_post_init d reserved_usage actual_usage = do {
     validate_version d;
     heartbeat_id \<leftarrow> identifier_of (dget0 d ''heartbeat_id'');
     host_id \<leftarrow> identifier_of (dget0 d ''host_id'');
     worker_id \<leftarrow> identifier_of (dget0 d ''worker_id'');
     state \<leftarrow> enum worker_reported_states (dget0 d ''state'');
     observed \<leftarrow> validate_observation d;
     idempotency_key \<leftarrow> identifier_of (dget0 d ''idempotency_key'');
     fence_token \<leftarrow> integer 1 (dget0 d ''fence_token'');
     capability_sequence \<leftarrow> optional (integer 1) (dget0 d ''capability_sequence'');
     resource_sequence \<leftarrow> optional (integer 1) (dget0 d ''resource_sequence'');
     active_execution_handles \<leftarrow> string_tuple (dget0 d ''active_execution_handles'');
     require (list_all identifier_re active_execution_handles);
     Some \<lparr>hb_heartbeat_id = heartbeat_id, hb_host_id = host_id, hb_worker_id = worker_id,
            hb_state = state, hb_observed = observed, hb_idempotency_key = idempotency_key,
            hb_fence_token = fence_token, hb_capability_sequence = capability_sequence,
            hb_resource_sequence = resource_sequence, hb_reserved_usage = reserved_usage,
            hb_actual_usage = actual_usage, hb_active_execution_handles = active_execution_handles\<rparr> }"

definition heartbeat_to_dict :: "worker_heartbeat \<Rightarrow> json" where
  "heartbeat_to_dict x = JObj
     ([(''schema_version'', JInt 1), (''api_version'', JStr worker_api_version),
      (''heartbeat_id'', JStr (hb_heartbeat_id x)), (''host_id'', JStr (hb_host_id x)),
      (''worker_id'', JStr (hb_worker_id x)), (''state'', JStr (hb_state x))]
     @ observation_payload (hb_observed x)
     @ [(''idempotency_key'', JStr (hb_idempotency_key x)),
      (''fence_token'', JInt (hb_fence_token x)),
      (''capability_sequence'', opt_json JInt (hb_capability_sequence x)),
      (''resource_sequence'', opt_json JInt (hb_resource_sequence x)),
      (''reserved_usage'', usage_to_dict (hb_reserved_usage x)),
      (''actual_usage'', usage_to_dict (hb_actual_usage x)),
      (''active_execution_handles'', JArr (map JStr (hb_active_execution_handles x)))])"

definition heartbeat_from_dict :: "json \<Rightarrow> worker_heartbeat option" where
  "heartbeat_from_dict v = do {
     d \<leftarrow> strict_object heartbeat_fields v;
     reserved_usage \<leftarrow> usage_from_dict (dget0 d ''reserved_usage'');
     actual_usage \<leftarrow> usage_from_dict (dget0 d ''actual_usage'');
     heartbeat_post_init d reserved_usage actual_usage }"

text \<open>The witness of one execution; \<open>exited\<close> is no evidence that the task succeeded.\<close>

record execution_handle =
  eh_handle_id :: string
  eh_job_id :: string
  eh_attempt_id :: string
  eh_host_id :: string
  eh_worker_id :: string
  eh_state :: string
  eh_observed :: observed
  eh_idempotency_key :: string
  eh_fence_token :: int
  eh_reservation_id :: "string option"
  eh_process_id :: "string option"
  eh_reserved_usage :: resource_usage
  eh_actual_usage :: resource_usage
  eh_artifact_refs :: "string list"

definition handle_fields :: "string list" where
  "handle_fields =
     [''schema_version'', ''api_version'', ''handle_id'', ''job_id'', ''attempt_id'', ''host_id'',
      ''worker_id'', ''state'', ''observed_at'', ''ttl_seconds'', ''source'', ''confidence'',
      ''sequence'', ''idempotency_key'', ''fence_token'', ''reservation_id'', ''process_id'',
      ''reserved_usage'', ''actual_usage'', ''artifact_refs'']"

definition handle_post_init :: "dict \<Rightarrow> resource_usage \<Rightarrow> resource_usage \<Rightarrow> execution_handle option" where
  "handle_post_init d reserved_usage actual_usage = do {
     validate_version d;
     handle_id \<leftarrow> identifier_of (dget0 d ''handle_id'');
     job_id \<leftarrow> identifier_of (dget0 d ''job_id'');
     attempt_id \<leftarrow> identifier_of (dget0 d ''attempt_id'');
     host_id \<leftarrow> identifier_of (dget0 d ''host_id'');
     worker_id \<leftarrow> identifier_of (dget0 d ''worker_id'');
     state \<leftarrow> enum execution_states (dget0 d ''state'');
     observed \<leftarrow> validate_observation d;
     idempotency_key \<leftarrow> identifier_of (dget0 d ''idempotency_key'');
     fence_token \<leftarrow> integer 1 (dget0 d ''fence_token'');
     reservation_id \<leftarrow> optional identifier_of (dget0 d ''reservation_id'');
     process_id \<leftarrow> optional identifier_of (dget0 d ''process_id'');
     artifact_refs \<leftarrow> string_tuple (dget0 d ''artifact_refs'');
     require (state = ''running'' \<longrightarrow> reservation_id \<noteq> None \<and> process_id \<noteq> None);
     Some \<lparr>eh_handle_id = handle_id, eh_job_id = job_id, eh_attempt_id = attempt_id,
            eh_host_id = host_id, eh_worker_id = worker_id, eh_state = state,
            eh_observed = observed, eh_idempotency_key = idempotency_key,
            eh_fence_token = fence_token, eh_reservation_id = reservation_id,
            eh_process_id = process_id, eh_reserved_usage = reserved_usage,
            eh_actual_usage = actual_usage, eh_artifact_refs = artifact_refs\<rparr> }"

definition handle_to_dict :: "execution_handle \<Rightarrow> json" where
  "handle_to_dict x = JObj
     ([(''schema_version'', JInt 1), (''api_version'', JStr worker_api_version),
      (''handle_id'', JStr (eh_handle_id x)), (''job_id'', JStr (eh_job_id x)),
      (''attempt_id'', JStr (eh_attempt_id x)), (''host_id'', JStr (eh_host_id x)),
      (''worker_id'', JStr (eh_worker_id x)), (''state'', JStr (eh_state x))]
     @ observation_payload (eh_observed x)
     @ [(''idempotency_key'', JStr (eh_idempotency_key x)),
      (''fence_token'', JInt (eh_fence_token x)),
      (''reservation_id'', opt_json JStr (eh_reservation_id x)),
      (''process_id'', opt_json JStr (eh_process_id x)),
      (''reserved_usage'', usage_to_dict (eh_reserved_usage x)),
      (''actual_usage'', usage_to_dict (eh_actual_usage x)),
      (''artifact_refs'', JArr (map JStr (eh_artifact_refs x)))])"

definition handle_from_dict :: "json \<Rightarrow> execution_handle option" where
  "handle_from_dict v = do {
     d \<leftarrow> strict_object handle_fields v;
     reserved_usage \<leftarrow> usage_from_dict (dget0 d ''reserved_usage'');
     actual_usage \<leftarrow> usage_from_dict (dget0 d ''actual_usage'');
     handle_post_init d reserved_usage actual_usage }"

section \<open>Every message type keeps the promise of its wire format\<close>

lemma validate_version_Some:
  "validate_version d = Some u \<longleftrightarrow>
     dget0 d ''schema_version'' = JInt 1 \<and> dget0 d ''api_version'' = JStr worker_api_version"
  by (simp add: validate_version_def)

lemma validate_observation_Some:
  "validate_observation d = Some b \<longleftrightarrow>
     timestamp (dget0 d ''observed_at'') = Some (ob_observed_at b) \<and>
     optional (integer 1) (dget0 d ''ttl_seconds'') = Some (ob_ttl_seconds b) \<and>
     nonempty_string (dget0 d ''source'') = Some (ob_source b) \<and>
     optional (number 0) (dget0 d ''confidence'') = Some (ob_confidence b) \<and>
     bounded_by (map_option num_val (ob_confidence b)) (Some 1) \<and>
     integer 1 (dget0 d ''sequence'') = Some (ob_sequence b)"
  by (cases b) (auto simp: validate_observation_def bind_eq_Some_conv)

lemma json_array_Some:
  "json_array f v = Some xs \<longleftrightarrow> (\<exists>vs. v = JArr vs \<and> checked_list f vs = Some xs)"
  by (cases v) (auto simp: json_array_def)

text \<open>A dictionary with exactly the required keys, read back from its canonical text.\<close>

lemma strict_literal:
  "set (map fst d) = set ks \<Longrightarrow> wf_dict d \<Longrightarrow> strict_object ks (JObj (canon_dict d)) = Some (canon_dict d)"
  using strict_object_canon [of ks "JObj d" d]
  by (simp add: strict_object_def list_all_iff canon_JObj del: canon.simps(7))

lemma no_dup_array: "no_dup_keys (JArr (map f xs)) \<longleftrightarrow> list_all (\<lambda>x. no_dup_keys (f x)) xs"
  by (simp add: list_all_iff)

lemmas wire_simps = bind_eq_Some_conv check_iffs strict_literal canon_JObj dget0_canon_dict wf_dict_def
  validate_version_Some validate_observation_Some

declare canon.simps(7) [simp del]

lemma capability_post_init_Some:
  "capability_post_init d = Some x \<longleftrightarrow>
     identifier_of (dget0 d ''capability_id'') = Some (cp_capability_id x) \<and>
     enum capability_kinds (dget0 d ''kind'') = Some (cp_kind x) \<and>
     enum capability_statuses (dget0 d ''status'') = Some (cp_status x) \<and>
     optional nonempty_string (dget0 d ''version'') = Some (cp_version x) \<and>
     string_tuple (dget0 d ''constraints'') = Some (cp_constraints x)"
  by (cases x) (auto simp: capability_post_init_def bind_eq_Some_conv)

interpretation capability_wire: wire capability_from_dict capability_to_dict
proof
  fix v x assume "capability_from_dict v = Some x"
  then obtain d where "capability_post_init d = Some x"
    by (auto simp: capability_from_dict_def bind_eq_Some_conv)
  then show "capability_from_dict (canon (capability_to_dict x)) = Some x"
    by (simp add: wire_simps capability_from_dict_def capability_post_init_Some capability_to_dict_def
        capability_fields_def)
qed (simp_all add: capability_to_dict_def del: no_dup_keys.simps(6))

lemma cpu_post_init_Some:
  "cpu_post_init d = Some x \<longleftrightarrow>
     optional (number 0) (dget0 d ''capacity_cores'') = Some (cr_capacity_cores x) \<and>
     optional (number 0) (dget0 d ''allocatable_cores'') = Some (cr_allocatable_cores x) \<and>
     optional (number 0) (dget0 d ''available_cores'') = Some (cr_available_cores x) \<and>
     optional (number 0) (dget0 d ''utilization_percent'') = Some (cr_utilization_percent x) \<and>
     bounded_by (map_option num_val (cr_utilization_percent x)) (Some 100) \<and>
     bounded_by (map_option num_val (cr_allocatable_cores x)) (map_option num_val (cr_capacity_cores x)) \<and>
     bounded_by (map_option num_val (cr_available_cores x)) (map_option num_val (cr_allocatable_cores x))"
  by (cases x) (auto simp: cpu_post_init_def bind_eq_Some_conv)

interpretation cpu_wire: wire cpu_from_dict cpu_to_dict
proof
  fix v x assume "cpu_from_dict v = Some x"
  then obtain d where "cpu_post_init d = Some x"
    by (auto simp: cpu_from_dict_def bind_eq_Some_conv)
  then show "cpu_from_dict (canon (cpu_to_dict x)) = Some x"
    by (simp add: wire_simps cpu_from_dict_def cpu_post_init_Some cpu_to_dict_def
        cpu_fields_def)
qed (simp_all add: cpu_to_dict_def del: no_dup_keys.simps(6))

lemma memory_post_init_Some:
  "memory_post_init d = Some x \<longleftrightarrow>
     optional (integer 0) (dget0 d ''capacity_bytes'') = Some (mr_capacity_bytes x) \<and>
     optional (integer 0) (dget0 d ''allocatable_bytes'') = Some (mr_allocatable_bytes x) \<and>
     optional (integer 0) (dget0 d ''available_bytes'') = Some (mr_available_bytes x) \<and>
     optional (integer 0) (dget0 d ''used_bytes'') = Some (mr_used_bytes x) \<and>
     bounded_by (mr_allocatable_bytes x) (mr_capacity_bytes x) \<and>
     bounded_by (mr_available_bytes x) (mr_allocatable_bytes x)"
  by (cases x) (auto simp: memory_post_init_def bind_eq_Some_conv)

interpretation memory_wire: wire memory_from_dict memory_to_dict
proof
  fix v x assume "memory_from_dict v = Some x"
  then obtain d where "memory_post_init d = Some x"
    by (auto simp: memory_from_dict_def bind_eq_Some_conv)
  then show "memory_from_dict (canon (memory_to_dict x)) = Some x"
    by (simp add: wire_simps memory_from_dict_def memory_post_init_Some memory_to_dict_def
        memory_fields_def)
qed (simp_all add: memory_to_dict_def del: no_dup_keys.simps(6))

lemma cgroup_post_init_Some:
  "cgroup_post_init d = Some x \<longleftrightarrow>
     optional (number 0) (dget0 d ''cpu_quota_cores'') = Some (cg_cpu_quota_cores x) \<and>
     optional (integer 0) (dget0 d ''memory_limit_bytes'') = Some (cg_memory_limit_bytes x) \<and>
     optional (integer 0) (dget0 d ''memory_current_bytes'') = Some (cg_memory_current_bytes x) \<and>
     optional (integer 0) (dget0 d ''swap_limit_bytes'') = Some (cg_swap_limit_bytes x) \<and>
     optional (integer 0) (dget0 d ''swap_current_bytes'') = Some (cg_swap_current_bytes x)"
  by (cases x) (auto simp: cgroup_post_init_def bind_eq_Some_conv)

interpretation cgroup_wire: wire cgroup_from_dict cgroup_to_dict
proof
  fix v x assume "cgroup_from_dict v = Some x"
  then obtain d where "cgroup_post_init d = Some x"
    by (auto simp: cgroup_from_dict_def bind_eq_Some_conv)
  then show "cgroup_from_dict (canon (cgroup_to_dict x)) = Some x"
    by (simp add: wire_simps cgroup_from_dict_def cgroup_post_init_Some cgroup_to_dict_def
        cgroup_fields_def)
qed (simp_all add: cgroup_to_dict_def del: no_dup_keys.simps(6))

lemma mount_post_init_Some:
  "mount_post_init d = Some x \<longleftrightarrow>
     absolute_path (dget0 d ''mount_path'') = Some (mo_mount_path x) \<and>
     optional nonempty_string (dget0 d ''device'') = Some (mo_device x) \<and>
     optional nonempty_string (dget0 d ''fs_type'') = Some (mo_fs_type x) \<and>
     optional boolean (dget0 d ''writable'') = Some (mo_writable x) \<and>
     optional (integer 0) (dget0 d ''capacity_bytes'') = Some (mo_capacity_bytes x) \<and>
     optional (integer 0) (dget0 d ''available_bytes'') = Some (mo_available_bytes x) \<and>
     optional (integer 0) (dget0 d ''total_inodes'') = Some (mo_total_inodes x) \<and>
     optional (integer 0) (dget0 d ''free_inodes'') = Some (mo_free_inodes x) \<and>
     bounded_by (mo_available_bytes x) (mo_capacity_bytes x) \<and>
     bounded_by (mo_free_inodes x) (mo_total_inodes x)"
  by (cases x) (auto simp: mount_post_init_def bind_eq_Some_conv)

interpretation mount_wire: wire mount_from_dict mount_to_dict
proof
  fix v x assume "mount_from_dict v = Some x"
  then obtain d where "mount_post_init d = Some x"
    by (auto simp: mount_from_dict_def bind_eq_Some_conv)
  then show "mount_from_dict (canon (mount_to_dict x)) = Some x"
    by (auto simp: wire_simps mount_from_dict_def mount_post_init_Some mount_to_dict_def
        mount_fields_def dest: absolute_path_stable)
qed (simp_all add: mount_to_dict_def del: no_dup_keys.simps(6))

lemma gpu_post_init_Some:
  "gpu_post_init d = Some x \<longleftrightarrow>
     identifier_of (dget0 d ''gpu_id'') = Some (gr_gpu_id x) \<and>
     optional nonempty_string (dget0 d ''model'') = Some (gr_model x) \<and>
     optional (integer 0) (dget0 d ''memory_capacity_bytes'') = Some (gr_memory_capacity_bytes x) \<and>
     optional (integer 0) (dget0 d ''memory_available_bytes'') = Some (gr_memory_available_bytes x) \<and>
     optional (number 0) (dget0 d ''utilization_percent'') = Some (gr_utilization_percent x) \<and>
     bounded_by (map_option num_val (gr_utilization_percent x)) (Some 100) \<and>
     bounded_by (gr_memory_available_bytes x) (gr_memory_capacity_bytes x)"
  by (cases x) (auto simp: gpu_post_init_def bind_eq_Some_conv)

interpretation gpu_wire: wire gpu_from_dict gpu_to_dict
proof
  fix v x assume "gpu_from_dict v = Some x"
  then obtain d where "gpu_post_init d = Some x"
    by (auto simp: gpu_from_dict_def bind_eq_Some_conv)
  then show "gpu_from_dict (canon (gpu_to_dict x)) = Some x"
    by (simp add: wire_simps gpu_from_dict_def gpu_post_init_Some gpu_to_dict_def
        gpu_fields_def)
qed (simp_all add: gpu_to_dict_def del: no_dup_keys.simps(6))

lemma process_post_init_Some:
  "process_post_init d = Some x \<longleftrightarrow>
     identifier_of (dget0 d ''process_id'') = Some (op_process_id x) \<and>
     identifier_of (dget0 d ''attempt_id'') = Some (op_attempt_id x) \<and>
     integer 1 (dget0 d ''pid'') = Some (op_pid x) \<and>
     timestamp (dget0 d ''started_at'') = Some (op_started_at x) \<and>
     integer 1 (dget0 d ''fence_token'') = Some (op_fence_token x) \<and>
     optional (integer 0) (dget0 d ''rss_bytes'') = Some (op_rss_bytes x) \<and>
     optional (integer 0) (dget0 d ''gpu_memory_bytes'') = Some (op_gpu_memory_bytes x)"
  by (cases x) (auto simp: process_post_init_def bind_eq_Some_conv)

interpretation process_wire: wire process_from_dict process_to_dict
proof
  fix v x assume "process_from_dict v = Some x"
  then obtain d where "process_post_init d = Some x"
    by (auto simp: process_from_dict_def bind_eq_Some_conv)
  then show "process_from_dict (canon (process_to_dict x)) = Some x"
    by (simp add: wire_simps process_from_dict_def process_post_init_Some process_to_dict_def
        process_fields_def)
qed (simp_all add: process_to_dict_def del: no_dup_keys.simps(6))

lemma usage_post_init_Some:
  "usage_post_init d = Some x \<longleftrightarrow>
     optional (number 0) (dget0 d ''cpu_cores'') = Some (us_cpu_cores x) \<and>
     optional (integer 0) (dget0 d ''ram_bytes'') = Some (us_ram_bytes x) \<and>
     optional (integer 0) (dget0 d ''swap_bytes'') = Some (us_swap_bytes x) \<and>
     optional (integer 0) (dget0 d ''gpu_memory_bytes'') = Some (us_gpu_memory_bytes x) \<and>
     optional (integer 0) (dget0 d ''disk_bytes'') = Some (us_disk_bytes x) \<and>
     optional (integer 0) (dget0 d ''inodes'') = Some (us_inodes x) \<and>
     optional (integer 0) (dget0 d ''owned_process_rss_bytes'') = Some (us_owned_process_rss_bytes x)"
  by (cases x) (auto simp: usage_post_init_def bind_eq_Some_conv)

interpretation usage_wire: wire usage_from_dict usage_to_dict
proof
  fix v x assume "usage_from_dict v = Some x"
  then obtain d where "usage_post_init d = Some x"
    by (auto simp: usage_from_dict_def bind_eq_Some_conv)
  then show "usage_from_dict (canon (usage_to_dict x)) = Some x"
    by (simp add: wire_simps usage_from_dict_def usage_post_init_Some usage_to_dict_def
        usage_fields_def)
qed (simp_all add: usage_to_dict_def del: no_dup_keys.simps(6))

lemma registration_post_init_Some:
  "registration_post_init d = Some x \<longleftrightarrow>
     validate_version d = Some () \<and>
     identifier_of (dget0 d ''registration_id'') = Some (hr_registration_id x) \<and>
     identifier_of (dget0 d ''host_id'') = Some (hr_host_id x) \<and>
     identifier_of (dget0 d ''worker_id'') = Some (hr_worker_id x) \<and>
     string_tuple (dget0 d ''roles'') = Some (hr_roles x) \<and>
     timestamp (dget0 d ''registered_at'') = Some (hr_registered_at x) \<and>
     identifier_of (dget0 d ''idempotency_key'') = Some (hr_idempotency_key x) \<and>
     integer 1 (dget0 d ''fence_token'') = Some (hr_fence_token x) \<and>
     string_tuple (dget0 d ''labels'') = Some (hr_labels x) \<and>
     (hr_roles x) \<noteq> [] \<and>
     list_all (\<lambda>r. r \<in> set host_roles) (hr_roles x)"
  by (cases x) (auto simp: registration_post_init_def bind_eq_Some_conv)

interpretation registration_wire: wire registration_from_dict registration_to_dict
proof
  fix v x assume v: "registration_from_dict v = Some x"
  then show "registration_from_dict (canon (registration_to_dict x)) = Some x"
    by (auto simp: wire_simps registration_from_dict_def registration_post_init_Some registration_to_dict_def
        registration_fields_def observation_payload_def json_array_Some simp del: canon.simps(7))
  from v show "no_dup_keys (registration_to_dict x)"
    by (auto simp: registration_to_dict_def observation_payload_def registration_from_dict_def registration_post_init_Some
        bind_eq_Some_conv json_array_Some no_dup_array list.pred_True simp del: no_dup_keys.simps(6))
qed (simp add: registration_to_dict_def)

lemma snapshot_post_init_Some:
  "snapshot_post_init d capabilities = Some x \<longleftrightarrow>
     validate_version d = Some () \<and>
     identifier_of (dget0 d ''snapshot_id'') = Some (cs_snapshot_id x) \<and>
     identifier_of (dget0 d ''host_id'') = Some (cs_host_id x) \<and>
     identifier_of (dget0 d ''worker_id'') = Some (cs_worker_id x) \<and>
     capabilities = cs_capabilities x \<and>
     validate_observation d = Some (cs_observed x) \<and>
     identifier_of (dget0 d ''idempotency_key'') = Some (cs_idempotency_key x) \<and>
     integer 1 (dget0 d ''fence_token'') = Some (cs_fence_token x) \<and>
     distinct (map cp_capability_id (cs_capabilities x))"
  by (cases x) (auto simp: snapshot_post_init_def bind_eq_Some_conv)

interpretation snapshot_wire: wire snapshot_from_dict snapshot_to_dict
proof
  fix v x assume v: "snapshot_from_dict v = Some x"
  then show "snapshot_from_dict (canon (snapshot_to_dict x)) = Some x"
    by (auto simp: wire_simps snapshot_from_dict_def snapshot_post_init_Some snapshot_to_dict_def
        snapshot_fields_def observation_payload_def json_array_Some dest: capability_wire.canonical capability_wire.array simp del: canon.simps(7))
  from v show "no_dup_keys (snapshot_to_dict x)"
    by (auto simp: snapshot_to_dict_def observation_payload_def snapshot_from_dict_def snapshot_post_init_Some
        bind_eq_Some_conv json_array_Some no_dup_array list.pred_True dest: capability_wire.clean capability_wire.array_clean simp del: no_dup_keys.simps(6))
qed (simp add: snapshot_to_dict_def)

lemma resources_post_init_Some:
  "resources_post_init d cpu ram swap cgroup mounts gpus owned_processes = Some x \<longleftrightarrow>
     validate_version d = Some () \<and>
     identifier_of (dget0 d ''snapshot_id'') = Some (rs_snapshot_id x) \<and>
     identifier_of (dget0 d ''host_id'') = Some (rs_host_id x) \<and>
     identifier_of (dget0 d ''worker_id'') = Some (rs_worker_id x) \<and>
     cpu = rs_cpu x \<and>
     ram = rs_ram x \<and>
     swap = rs_swap x \<and>
     cgroup = rs_cgroup x \<and>
     mounts = rs_mounts x \<and>
     gpus = rs_gpus x \<and>
     owned_processes = rs_owned_processes x \<and>
     validate_observation d = Some (rs_observed x) \<and>
     identifier_of (dget0 d ''idempotency_key'') = Some (rs_idempotency_key x) \<and>
     integer 1 (dget0 d ''fence_token'') = Some (rs_fence_token x) \<and>
     distinct (map mo_mount_path (rs_mounts x)) \<and>
     distinct (map gr_gpu_id (rs_gpus x)) \<and>
     distinct (map op_process_id (rs_owned_processes x)) \<and>
     list_all (\<lambda>p. op_fence_token p = (rs_fence_token x)) (rs_owned_processes x)"
  by (cases x) (auto simp: resources_post_init_def bind_eq_Some_conv)

interpretation resources_wire: wire resources_from_dict resources_to_dict
proof
  fix v x assume v: "resources_from_dict v = Some x"
  then show "resources_from_dict (canon (resources_to_dict x)) = Some x"
    by (auto simp: wire_simps resources_from_dict_def resources_post_init_Some resources_to_dict_def
        resources_fields_def observation_payload_def json_array_Some dest: cgroup_wire.canonical cgroup_wire.array cpu_wire.canonical cpu_wire.array gpu_wire.canonical gpu_wire.array memory_wire.canonical memory_wire.array mount_wire.canonical mount_wire.array process_wire.canonical process_wire.array simp del: canon.simps(7))
  from v show "no_dup_keys (resources_to_dict x)"
    by (auto simp: resources_to_dict_def observation_payload_def resources_from_dict_def resources_post_init_Some
        bind_eq_Some_conv json_array_Some no_dup_array list.pred_True dest: cgroup_wire.clean cgroup_wire.array_clean cpu_wire.clean cpu_wire.array_clean gpu_wire.clean gpu_wire.array_clean memory_wire.clean memory_wire.array_clean mount_wire.clean mount_wire.array_clean process_wire.clean process_wire.array_clean simp del: no_dup_keys.simps(6))
qed (simp add: resources_to_dict_def)

lemma heartbeat_post_init_Some:
  "heartbeat_post_init d reserved_usage actual_usage = Some x \<longleftrightarrow>
     validate_version d = Some () \<and>
     identifier_of (dget0 d ''heartbeat_id'') = Some (hb_heartbeat_id x) \<and>
     identifier_of (dget0 d ''host_id'') = Some (hb_host_id x) \<and>
     identifier_of (dget0 d ''worker_id'') = Some (hb_worker_id x) \<and>
     enum worker_reported_states (dget0 d ''state'') = Some (hb_state x) \<and>
     validate_observation d = Some (hb_observed x) \<and>
     identifier_of (dget0 d ''idempotency_key'') = Some (hb_idempotency_key x) \<and>
     integer 1 (dget0 d ''fence_token'') = Some (hb_fence_token x) \<and>
     optional (integer 1) (dget0 d ''capability_sequence'') = Some (hb_capability_sequence x) \<and>
     optional (integer 1) (dget0 d ''resource_sequence'') = Some (hb_resource_sequence x) \<and>
     reserved_usage = hb_reserved_usage x \<and>
     actual_usage = hb_actual_usage x \<and>
     string_tuple (dget0 d ''active_execution_handles'') = Some (hb_active_execution_handles x) \<and>
     list_all identifier_re (hb_active_execution_handles x)"
  by (cases x) (auto simp: heartbeat_post_init_def bind_eq_Some_conv)

interpretation heartbeat_wire: wire heartbeat_from_dict heartbeat_to_dict
proof
  fix v x assume v: "heartbeat_from_dict v = Some x"
  then show "heartbeat_from_dict (canon (heartbeat_to_dict x)) = Some x"
    by (auto simp: wire_simps heartbeat_from_dict_def heartbeat_post_init_Some heartbeat_to_dict_def
        heartbeat_fields_def observation_payload_def json_array_Some dest: usage_wire.canonical usage_wire.array simp del: canon.simps(7))
  from v show "no_dup_keys (heartbeat_to_dict x)"
    by (auto simp: heartbeat_to_dict_def observation_payload_def heartbeat_from_dict_def heartbeat_post_init_Some
        bind_eq_Some_conv json_array_Some no_dup_array list.pred_True dest: usage_wire.clean usage_wire.array_clean simp del: no_dup_keys.simps(6))
qed (simp add: heartbeat_to_dict_def)

lemma handle_post_init_Some:
  "handle_post_init d reserved_usage actual_usage = Some x \<longleftrightarrow>
     validate_version d = Some () \<and>
     identifier_of (dget0 d ''handle_id'') = Some (eh_handle_id x) \<and>
     identifier_of (dget0 d ''job_id'') = Some (eh_job_id x) \<and>
     identifier_of (dget0 d ''attempt_id'') = Some (eh_attempt_id x) \<and>
     identifier_of (dget0 d ''host_id'') = Some (eh_host_id x) \<and>
     identifier_of (dget0 d ''worker_id'') = Some (eh_worker_id x) \<and>
     enum execution_states (dget0 d ''state'') = Some (eh_state x) \<and>
     validate_observation d = Some (eh_observed x) \<and>
     identifier_of (dget0 d ''idempotency_key'') = Some (eh_idempotency_key x) \<and>
     integer 1 (dget0 d ''fence_token'') = Some (eh_fence_token x) \<and>
     optional identifier_of (dget0 d ''reservation_id'') = Some (eh_reservation_id x) \<and>
     optional identifier_of (dget0 d ''process_id'') = Some (eh_process_id x) \<and>
     reserved_usage = eh_reserved_usage x \<and>
     actual_usage = eh_actual_usage x \<and>
     string_tuple (dget0 d ''artifact_refs'') = Some (eh_artifact_refs x) \<and>
     ((eh_state x) = ''running'' \<longrightarrow> (eh_reservation_id x) \<noteq> None \<and> (eh_process_id x) \<noteq> None)"
  by (cases x) (auto simp: handle_post_init_def bind_eq_Some_conv)

interpretation handle_wire: wire handle_from_dict handle_to_dict
proof
  fix v x assume v: "handle_from_dict v = Some x"
  then show "handle_from_dict (canon (handle_to_dict x)) = Some x"
    by (auto simp: wire_simps handle_from_dict_def handle_post_init_Some handle_to_dict_def
        handle_fields_def observation_payload_def json_array_Some dest: usage_wire.canonical usage_wire.array simp del: canon.simps(7))
  from v show "no_dup_keys (handle_to_dict x)"
    by (auto simp: handle_to_dict_def observation_payload_def handle_from_dict_def handle_post_init_Some
        bind_eq_Some_conv json_array_Some no_dup_array list.pred_True dest: usage_wire.clean usage_wire.array_clean simp del: no_dup_keys.simps(6))
qed (simp add: handle_to_dict_def)

section \<open>What the parser lets through\<close>

lemma json_array_mem:
  "json_array f v = Some xs \<Longrightarrow> x \<in> set xs \<Longrightarrow> \<exists>w. f w = Some x"
  by (auto simp: json_array_Some checked_list_Some list_all2_conv_all_nth in_set_conv_nth)

text \<open>
  What a resource snapshot promises its readers, record by record: known amounts are not negative and in
  order, percentages are at most a hundred, names are identifiers, stamps can be read.
\<close>

definition is_count :: "int option \<Rightarrow> bool" where
  "is_count z \<longleftrightarrow> pred_option (\<lambda>n. 0 \<le> n) z"

definition is_measure :: "num_value option \<Rightarrow> bool" where
  "is_measure z \<longleftrightarrow> pred_option (\<lambda>n. 0 \<le> num_val n) z"

definition num_below :: "num_value option \<Rightarrow> num_value option \<Rightarrow> bool" where
  "num_below a b \<longleftrightarrow> bounded_by (map_option num_val a) (map_option num_val b)"

definition is_percentage :: "num_value option \<Rightarrow> bool" where
  "is_percentage z \<longleftrightarrow> is_measure z \<and> bounded_by (map_option num_val z) (Some 100)"

definition sound_cpu :: "cpu_resources \<Rightarrow> bool" where
  "sound_cpu c \<longleftrightarrow>
     is_measure (cr_available_cores c) \<and> is_measure (cr_allocatable_cores c) \<and> is_measure (cr_capacity_cores c) \<and>
     num_below (cr_available_cores c) (cr_allocatable_cores c) \<and> num_below (cr_allocatable_cores c) (cr_capacity_cores c) \<and>
     is_percentage (cr_utilization_percent c)"

definition sound_memory :: "memory_resources \<Rightarrow> bool" where
  "sound_memory m \<longleftrightarrow>
     is_count (mr_available_bytes m) \<and> is_count (mr_allocatable_bytes m) \<and> is_count (mr_capacity_bytes m) \<and>
     is_count (mr_used_bytes m) \<and>
     bounded_by (mr_available_bytes m) (mr_allocatable_bytes m) \<and> bounded_by (mr_allocatable_bytes m) (mr_capacity_bytes m)"

definition sound_cgroup :: "cgroup_resources \<Rightarrow> bool" where
  "sound_cgroup g \<longleftrightarrow>
     is_measure (cg_cpu_quota_cores g) \<and> is_count (cg_memory_limit_bytes g) \<and> is_count (cg_memory_current_bytes g) \<and>
     is_count (cg_swap_limit_bytes g) \<and> is_count (cg_swap_current_bytes g)"

definition sound_mount :: "mount_resources \<Rightarrow> bool" where
  "sound_mount m \<longleftrightarrow>
     absolute_path (JStr (mo_mount_path m)) = Some (mo_mount_path m) \<and>
     is_count (mo_available_bytes m) \<and> is_count (mo_capacity_bytes m) \<and>
     is_count (mo_free_inodes m) \<and> is_count (mo_total_inodes m) \<and>
     bounded_by (mo_available_bytes m) (mo_capacity_bytes m) \<and> bounded_by (mo_free_inodes m) (mo_total_inodes m)"

definition sound_gpu :: "gpu_resources \<Rightarrow> bool" where
  "sound_gpu g \<longleftrightarrow>
     identifier_re (gr_gpu_id g) \<and> is_count (gr_memory_available_bytes g) \<and> is_count (gr_memory_capacity_bytes g) \<and>
     bounded_by (gr_memory_available_bytes g) (gr_memory_capacity_bytes g) \<and> is_percentage (gr_utilization_percent g)"

definition sound_process :: "int \<Rightarrow> owned_process \<Rightarrow> bool" where
  "sound_process fence p \<longleftrightarrow>
     identifier_re (op_process_id p) \<and> identifier_re (op_attempt_id p) \<and> 1 \<le> op_pid p \<and> rfc3339 (op_started_at p) \<and>
     op_fence_token p = fence \<and> is_count (op_rss_bytes p) \<and> is_count (op_gpu_memory_bytes p)"

definition sound_observed :: "observed \<Rightarrow> bool" where
  "sound_observed b \<longleftrightarrow>
     rfc3339 (ob_observed_at b) \<and> pred_option (\<lambda>n. 1 \<le> n) (ob_ttl_seconds b) \<and> \<not> py_blank (ob_source b) \<and>
     is_measure (ob_confidence b) \<and> bounded_by (map_option num_val (ob_confidence b)) (Some 1) \<and> 1 \<le> ob_sequence b"

definition sound_resources :: "resource_snapshot \<Rightarrow> bool" where
  "sound_resources x \<longleftrightarrow>
     identifier_re (rs_snapshot_id x) \<and> identifier_re (rs_host_id x) \<and> identifier_re (rs_worker_id x) \<and>
     identifier_re (rs_idempotency_key x) \<and> 1 \<le> rs_fence_token x \<and> sound_observed (rs_observed x) \<and>
     sound_cpu (rs_cpu x) \<and> sound_memory (rs_ram x) \<and> sound_memory (rs_swap x) \<and> sound_cgroup (rs_cgroup x) \<and>
     list_all sound_mount (rs_mounts x) \<and> distinct (map mo_mount_path (rs_mounts x)) \<and>
     list_all sound_gpu (rs_gpus x) \<and> distinct (map gr_gpu_id (rs_gpus x)) \<and>
     list_all (sound_process (rs_fence_token x)) (rs_owned_processes x) \<and>
     distinct (map op_process_id (rs_owned_processes x))"

lemma is_measure_mono:
  "pred_option (\<lambda>n. 0 \<le> num_val n \<and> P n) z \<Longrightarrow> is_measure z"
  by (cases z) (simp_all add: is_measure_def)

lemmas sound_defs = is_count_def num_below_def is_percentage_def

lemma accepted_cpu: "cpu_from_dict v = Some c \<Longrightarrow> sound_cpu c"
  by (auto simp: cpu_from_dict_def bind_eq_Some_conv cpu_post_init_Some check_iffs sound_cpu_def sound_defs
      intro: is_measure_mono)

lemma accepted_memory: "memory_from_dict v = Some m \<Longrightarrow> sound_memory m"
  by (auto simp: memory_from_dict_def bind_eq_Some_conv memory_post_init_Some check_iffs sound_memory_def sound_defs)

lemma accepted_cgroup: "cgroup_from_dict v = Some g \<Longrightarrow> sound_cgroup g"
  by (auto simp: cgroup_from_dict_def bind_eq_Some_conv cgroup_post_init_Some check_iffs sound_cgroup_def sound_defs
      intro: is_measure_mono)

lemma accepted_mount: "mount_from_dict v = Some m \<Longrightarrow> sound_mount m"
  by (auto simp: mount_from_dict_def bind_eq_Some_conv mount_post_init_Some check_iffs sound_mount_def sound_defs
      dest: absolute_path_stable)

lemma accepted_gpu: "gpu_from_dict v = Some g \<Longrightarrow> sound_gpu g"
  by (auto simp: gpu_from_dict_def bind_eq_Some_conv gpu_post_init_Some check_iffs sound_gpu_def sound_defs
      intro: is_measure_mono)

lemma accepted_process: "process_from_dict v = Some p \<Longrightarrow> sound_process (op_fence_token p) p"
  by (auto simp: process_from_dict_def bind_eq_Some_conv process_post_init_Some check_iffs sound_process_def sound_defs)

lemma accepted_observation: "validate_observation d = Some b \<Longrightarrow> sound_observed b"
  by (auto simp: validate_observation_Some check_iffs sound_observed_def intro: is_measure_mono)

text \<open>C20. A resource snapshot that was read from JSON is well formed in every record nested in it. It carries
  identifiers, a positive fence and sequence number, a readable stamp, and a confidence between zero and
  one where it states one. The amounts of CPU, RAM, swap, the control group, mounts and GPUs are not
  negative; available lies within allocatable and allocatable within capacity (and free within total)
  wherever both are known; percentages are at most a hundred. Mounts are distinct, absolute and
  normalised paths; GPUs and processes have distinct identifiers; and every process has a positive pid, a
  readable start, and the fence of the snapshot.\<close>

theorem accepted_snapshot_is_well_formed:
  assumes "resources_from_dict v = Some x"
  shows "sound_resources x"
proof -
  obtain d where d: "cpu_from_dict (dget0 d ''cpu'') = Some (rs_cpu x)" "memory_from_dict (dget0 d ''ram'') = Some (rs_ram x)"
      "memory_from_dict (dget0 d ''swap'') = Some (rs_swap x)" "cgroup_from_dict (dget0 d ''cgroup'') = Some (rs_cgroup x)"
    and lists: "json_array mount_from_dict (dget0 d ''mounts'') = Some (rs_mounts x)"
      "json_array gpu_from_dict (dget0 d ''gpus'') = Some (rs_gpus x)"
      "json_array process_from_dict (dget0 d ''owned_processes'') = Some (rs_owned_processes x)"
    and i: "resources_post_init d (rs_cpu x) (rs_ram x) (rs_swap x) (rs_cgroup x) (rs_mounts x) (rs_gpus x)
      (rs_owned_processes x) = Some x"
    using assms by (auto simp: resources_from_dict_def bind_eq_Some_conv resources_post_init_Some)
  have parts: "sound_cpu (rs_cpu x)" "sound_memory (rs_ram x)" "sound_memory (rs_swap x)" "sound_cgroup (rs_cgroup x)"
    using d by (auto intro: accepted_cpu accepted_memory accepted_cgroup)
  have rows: "list_all sound_mount (rs_mounts x)" "list_all sound_gpu (rs_gpus x)"
      "list_all (\<lambda>p. sound_process (op_fence_token p) p) (rs_owned_processes x)"
    unfolding list_all_iff using json_array_mem [OF lists(1)] json_array_mem [OF lists(2)] json_array_mem [OF lists(3)]
    by (blast intro: accepted_mount accepted_gpu accepted_process)+
  from i have post: "sound_observed (rs_observed x)" "list_all (\<lambda>p. op_fence_token p = rs_fence_token x) (rs_owned_processes x)"
    by (auto simp: resources_post_init_Some intro: accepted_observation)
  have "list_all (sound_process (rs_fence_token x)) (rs_owned_processes x)"
    using rows(3) post(2) by (auto simp: list_all_iff)
  with i parts rows(1,2) post(1) show ?thesis
    by (auto simp: sound_resources_def resources_post_init_Some check_iffs)
qed

text \<open>The wire format of a resource snapshot, with every record nested in it, loses nothing: the
  canonical JSON text of a snapshot that was read once is read again as the same snapshot.\<close>

theorem snapshot_text_round_trip:
  assumes "resources_from_dict v = Some x"
  shows "from_json resources_from_dict (to_json resources_to_dict x) = Some x"
  by (rule resources_wire.round_trip [OF assms])

text \<open>The same holds of a heartbeat, with the reserved and the observed use nested in it, and the
  text of two heartbeats is equal only when the heartbeats are.\<close>

theorem heartbeat_text_identifies:
  assumes "heartbeat_from_dict v = Some x" and "heartbeat_from_dict w = Some y"
  shows "from_json heartbeat_from_dict (to_json heartbeat_to_dict x) = Some x
    \<and> (to_json heartbeat_to_dict x = to_json heartbeat_to_dict y \<longleftrightarrow> x = y)"
  using heartbeat_wire.round_trip [OF assms(1)] heartbeat_wire.text_identifies [OF assms] by blast

section \<open>Examples\<close>

definition sample_observed :: "int \<Rightarrow> observed" where
  "sample_observed n =
     \<lparr>ob_observed_at = ''2026-07-25T10:00:00Z'', ob_ttl_seconds = Some 60, ob_source = ''probe'',
      ob_confidence = Some (NInt 1), ob_sequence = n\<rparr>"

definition unknown_memory :: memory_resources where
  "unknown_memory = \<lparr>mr_capacity_bytes = None, mr_allocatable_bytes = None, mr_available_bytes = None, mr_used_bytes = None\<rparr>"

definition sample_mount :: "string \<Rightarrow> mount_resources" where
  "sample_mount p =
     \<lparr>mo_mount_path = p, mo_device = Some ''/dev/sda1'', mo_fs_type = Some ''ext4'', mo_writable = Some True,
      mo_capacity_bytes = Some 1000, mo_available_bytes = Some 400, mo_total_inodes = None, mo_free_inodes = None\<rparr>"

definition sample_process :: owned_process where
  "sample_process =
     \<lparr>op_process_id = ''p1'', op_attempt_id = ''att-1'', op_pid = 4711, op_started_at = ''2026-07-25T09:59:00+00:00'',
      op_fence_token = 1, op_rss_bytes = Some 20, op_gpu_memory_bytes = None\<rparr>"

definition sample_resources :: "string \<Rightarrow> resource_snapshot" where
  "sample_resources p =
     \<lparr>rs_snapshot_id = ''res-1'', rs_host_id = ''host-a'', rs_worker_id = ''worker-a'',
      rs_cpu = \<lparr>cr_capacity_cores = Some (NInt 8), cr_allocatable_cores = None, cr_available_cores = None,
                cr_utilization_percent = None\<rparr>,
      rs_ram = unknown_memory\<lparr>mr_capacity_bytes := Some 64\<rparr>, rs_swap = unknown_memory,
      rs_cgroup = \<lparr>cg_cpu_quota_cores = None, cg_memory_limit_bytes = None, cg_memory_current_bytes = None,
                   cg_swap_limit_bytes = None, cg_swap_current_bytes = None\<rparr>,
      rs_mounts = [sample_mount p], rs_gpus = [], rs_owned_processes = [sample_process],
      rs_observed = sample_observed 1, rs_idempotency_key = ''res-1'', rs_fence_token = 1\<rparr>"

definition sample_usage :: "int \<Rightarrow> resource_usage" where
  "sample_usage n =
     \<lparr>us_cpu_cores = None, us_ram_bytes = Some n, us_swap_bytes = None, us_gpu_memory_bytes = None,
      us_disk_bytes = None, us_inodes = None, us_owned_process_rss_bytes = None\<rparr>"

definition sample_heartbeat :: "int \<Rightarrow> int \<Rightarrow> worker_heartbeat" where
  "sample_heartbeat fence n =
     \<lparr>hb_heartbeat_id = ''beat-1'', hb_host_id = ''host-a'', hb_worker_id = ''worker-a'', hb_state = ''ready'',
      hb_observed = sample_observed n, hb_idempotency_key = ''beat-1'', hb_fence_token = fence,
      hb_capability_sequence = Some 1, hb_resource_sequence = Some 1, hb_reserved_usage = sample_usage 8,
      hb_actual_usage = sample_usage 4, hb_active_execution_handles = []\<rparr>"

text \<open>A snapshot whose mount path is not yet normalised.\<close>

lemma sample_snapshot_read:
  "resources_from_dict (resources_to_dict (sample_resources ''/srv//./data/'')) = Some (sample_resources ''/srv/data'')"
  by code_simp

lemma sample_heartbeat_read:
  "heartbeat_from_dict (heartbeat_to_dict (sample_heartbeat 1 1)) = Some (sample_heartbeat 1 1)"
  "heartbeat_from_dict (heartbeat_to_dict (sample_heartbeat 1 2)) = Some (sample_heartbeat 1 2)"
  by code_simp+

theorem accepted_snapshot_is_well_formed_witness: "sound_resources (sample_resources ''/srv/data'')"
  by (rule accepted_snapshot_is_well_formed [OF sample_snapshot_read])

theorem snapshot_text_round_trip_witness:
  "from_json resources_from_dict (to_json resources_to_dict (sample_resources ''/srv/data'')) = Some (sample_resources ''/srv/data'')"
  by (rule snapshot_text_round_trip [OF sample_snapshot_read])

theorem heartbeat_text_identifies_witness:
  "to_json heartbeat_to_dict (sample_heartbeat 1 1) \<noteq> to_json heartbeat_to_dict (sample_heartbeat 1 2)"
  using heartbeat_text_identifies [OF sample_heartbeat_read]
  by (simp add: sample_heartbeat_def sample_observed_def)

end
