(* ===== verification/SchedulingPolicy.thy ===== *)
theory SchedulingPolicy
  imports Contracts
begin

text \<open>
  The layered scheduling policy (\<open>scheduler/policy.py\<close>, first half): the safety invariants of a
  deployment, the organization's policy, the preferences of a task, the bundle of the three, and
  their resolution to one effective policy with diagnostics.

  The documents are read as the messages of \<open>Contracts\<close> are, each with its fields, \<open>__post_init__\<close>,
  \<open>to_dict\<close> and \<open>from_dict\<close> and an interpretation of \<open>wire\<close>; the module repeats the scalar checks of
  \<open>api/_validation.py\<close>, which are those of \<open>ContractChecks\<close>. A violation raises and is \<open>None\<close>. Numbers
  keep the type they came with.
\<close>

section \<open>Scalar checks\<close>

definition policy_api_version :: string where
  "policy_api_version = ''local-agent-dispatch.scheduling-policy.v1''"

definition ratio :: "json \<Rightarrow> num_value option" where
  "ratio v = do { n \<leftarrow> number 0 v; require (num_val n \<le> 1); Some n }"

definition positive_number :: "json \<Rightarrow> num_value option" where
  "positive_number v = do { n \<leftarrow> number 0 v; require (num_val n \<noteq> 0); Some n }"

definition policy_time :: "string \<Rightarrow> int option" where
  "policy_time s = do {
     require (s \<noteq> []);
     require (fromisoformat (with_utc_suffix s) \<noteq> None);
     require (has_offset (with_utc_suffix s));
     parse_timestamp s }"

text \<open>\<open>_now\<close>: the instant and its text.\<close>

definition policy_now :: "int \<Rightarrow> string option \<Rightarrow> (int \<times> string) option" where
  "policy_now clock now = do {
     t \<leftarrow> (case now of None \<Rightarrow> Some clock | Some s \<Rightarrow> policy_time s);
     Some (t, iso t) }"

definition num_min :: "num_value \<Rightarrow> num_value \<Rightarrow> num_value" where
  "num_min a b = (if num_val b < num_val a then b else a)"

definition num_max :: "num_value \<Rightarrow> num_value \<Rightarrow> num_value" where
  "num_max a b = (if num_val a < num_val b then b else a)"

section \<open>Documents\<close>

text \<open>Deployment-owned bounds that runtime policy cannot weaken.\<close>

record safety_invariants =
  sv_hard_max_concurrency :: int
  sv_min_memory_reserve_bytes :: int
  sv_min_disk_reserve_bytes :: int
  sv_min_quota_reserve_ratio :: num_value
  sv_max_error_rate :: num_value

definition safety_fields :: "string list" where
  "safety_fields =
     [''hard_max_concurrency'', ''min_memory_reserve_bytes'', ''min_disk_reserve_bytes'',
      ''min_quota_reserve_ratio'', ''max_error_rate'', ''require_fresh_telemetry'', ''unknown_concurrency'']"

definition safety_post_init :: "dict \<Rightarrow> safety_invariants option" where
  "safety_post_init d = do {
     hard_max \<leftarrow> integer 0 (dget0 d ''hard_max_concurrency'');
     memory \<leftarrow> integer 0 (dget0 d ''min_memory_reserve_bytes'');
     disk \<leftarrow> integer 0 (dget0 d ''min_disk_reserve_bytes'');
     quota \<leftarrow> ratio (dget0 d ''min_quota_reserve_ratio'');
     error_rate \<leftarrow> ratio (dget0 d ''max_error_rate'');
     Some \<lparr>sv_hard_max_concurrency = hard_max, sv_min_memory_reserve_bytes = memory,
            sv_min_disk_reserve_bytes = disk, sv_min_quota_reserve_ratio = quota, sv_max_error_rate = error_rate\<rparr> }"

definition safety_to_dict :: "safety_invariants \<Rightarrow> json" where
  "safety_to_dict x = JObj
     [(''hard_max_concurrency'', JInt (sv_hard_max_concurrency x)),
      (''min_memory_reserve_bytes'', JInt (sv_min_memory_reserve_bytes x)),
      (''min_disk_reserve_bytes'', JInt (sv_min_disk_reserve_bytes x)),
      (''min_quota_reserve_ratio'', num_json (sv_min_quota_reserve_ratio x)),
      (''max_error_rate'', num_json (sv_max_error_rate x)),
      (''require_fresh_telemetry'', JBool True), (''unknown_concurrency'', JInt 0)]"

definition safety_from_dict :: "json \<Rightarrow> safety_invariants option" where
  "safety_from_dict v = do {
     d \<leftarrow> strict_object safety_fields v;
     require (dget0 d ''require_fresh_telemetry'' = JBool True);
     require (dget0 d ''unknown_concurrency'' = JInt 0 \<or> dget0 d ''unknown_concurrency'' = JFloat 0);
     safety_post_init d }"

text \<open>The revisioned policy of the organization; the target latency may be null.\<close>

record organization_policy =
  og_policy_id :: string
  og_revision :: int
  og_min_concurrency :: int
  og_max_concurrency :: int
  og_memory_reserve_bytes :: int
  og_disk_reserve_bytes :: int
  og_quota_reserve_ratio :: num_value
  og_max_error_rate :: num_value
  og_target_latency_seconds :: "num_value option"
  og_additive_increase :: int
  og_decrease_factor :: num_value
  og_scale_up_windows :: int
  og_cooldown_seconds :: int

definition organization_fields :: "string list" where
  "organization_fields =
     [''policy_id'', ''revision'', ''min_concurrency'', ''max_concurrency'', ''memory_reserve_bytes'',
      ''disk_reserve_bytes'', ''quota_reserve_ratio'', ''max_error_rate'', ''target_latency_seconds'',
      ''additive_increase'', ''decrease_factor'', ''scale_up_windows'', ''cooldown_seconds'']"

definition organization_post_init :: "dict \<Rightarrow> organization_policy option" where
  "organization_post_init d = do {
     policy_id \<leftarrow> identifier_of (dget0 d ''policy_id'');
     revision \<leftarrow> integer 1 (dget0 d ''revision'');
     minimum \<leftarrow> integer 0 (dget0 d ''min_concurrency'');
     maximum \<leftarrow> integer 0 (dget0 d ''max_concurrency'');
     memory \<leftarrow> integer 0 (dget0 d ''memory_reserve_bytes'');
     disk \<leftarrow> integer 0 (dget0 d ''disk_reserve_bytes'');
     quota \<leftarrow> ratio (dget0 d ''quota_reserve_ratio'');
     error_rate \<leftarrow> ratio (dget0 d ''max_error_rate'');
     latency \<leftarrow> optional positive_number (dget0 d ''target_latency_seconds'');
     increase \<leftarrow> integer 1 (dget0 d ''additive_increase'');
     factor \<leftarrow> number 0 (dget0 d ''decrease_factor'');
     require (0 < num_val factor \<and> num_val factor < 1);
     windows \<leftarrow> integer 1 (dget0 d ''scale_up_windows'');
     cooldown \<leftarrow> integer 0 (dget0 d ''cooldown_seconds'');
     Some \<lparr>og_policy_id = policy_id, og_revision = revision, og_min_concurrency = minimum,
            og_max_concurrency = maximum, og_memory_reserve_bytes = memory, og_disk_reserve_bytes = disk,
            og_quota_reserve_ratio = quota, og_max_error_rate = error_rate, og_target_latency_seconds = latency,
            og_additive_increase = increase, og_decrease_factor = factor, og_scale_up_windows = windows,
            og_cooldown_seconds = cooldown\<rparr> }"

definition organization_to_dict :: "organization_policy \<Rightarrow> json" where
  "organization_to_dict x = JObj
     [(''policy_id'', JStr (og_policy_id x)), (''revision'', JInt (og_revision x)),
      (''min_concurrency'', JInt (og_min_concurrency x)), (''max_concurrency'', JInt (og_max_concurrency x)),
      (''memory_reserve_bytes'', JInt (og_memory_reserve_bytes x)),
      (''disk_reserve_bytes'', JInt (og_disk_reserve_bytes x)),
      (''quota_reserve_ratio'', num_json (og_quota_reserve_ratio x)),
      (''max_error_rate'', num_json (og_max_error_rate x)),
      (''target_latency_seconds'', opt_json num_json (og_target_latency_seconds x)),
      (''additive_increase'', JInt (og_additive_increase x)),
      (''decrease_factor'', num_json (og_decrease_factor x)),
      (''scale_up_windows'', JInt (og_scale_up_windows x)), (''cooldown_seconds'', JInt (og_cooldown_seconds x))]"

definition organization_from_dict :: "json \<Rightarrow> organization_policy option" where
  "organization_from_dict v = do { d \<leftarrow> strict_object organization_fields v; organization_post_init d }"

text \<open>Soft requests of one task; a null inherits the organization's policy.\<close>

record task_preferences =
  tp_task_id :: string
  tp_min_concurrency :: "int option"
  tp_max_concurrency :: "int option"
  tp_memory_reserve_bytes :: "int option"
  tp_disk_reserve_bytes :: "int option"
  tp_quota_reserve_ratio :: "num_value option"
  tp_max_error_rate :: "num_value option"
  tp_target_latency_seconds :: "num_value option"

definition task_fields :: "string list" where
  "task_fields =
     [''task_id'', ''preferred_min_concurrency'', ''preferred_max_concurrency'', ''memory_reserve_bytes'',
      ''disk_reserve_bytes'', ''quota_reserve_ratio'', ''max_error_rate'', ''target_latency_seconds'']"

definition task_post_init :: "dict \<Rightarrow> task_preferences option" where
  "task_post_init d = do {
     task_id \<leftarrow> identifier_of (dget0 d ''task_id'');
     minimum \<leftarrow> optional (integer 0) (dget0 d ''preferred_min_concurrency'');
     maximum \<leftarrow> optional (integer 0) (dget0 d ''preferred_max_concurrency'');
     memory \<leftarrow> optional (integer 0) (dget0 d ''memory_reserve_bytes'');
     disk \<leftarrow> optional (integer 0) (dget0 d ''disk_reserve_bytes'');
     quota \<leftarrow> optional ratio (dget0 d ''quota_reserve_ratio'');
     error_rate \<leftarrow> optional ratio (dget0 d ''max_error_rate'');
     latency \<leftarrow> optional positive_number (dget0 d ''target_latency_seconds'');
     Some \<lparr>tp_task_id = task_id, tp_min_concurrency = minimum, tp_max_concurrency = maximum,
            tp_memory_reserve_bytes = memory, tp_disk_reserve_bytes = disk, tp_quota_reserve_ratio = quota,
            tp_max_error_rate = error_rate, tp_target_latency_seconds = latency\<rparr> }"

definition task_to_dict :: "task_preferences \<Rightarrow> json" where
  "task_to_dict x = JObj
     [(''task_id'', JStr (tp_task_id x)),
      (''preferred_min_concurrency'', opt_json JInt (tp_min_concurrency x)),
      (''preferred_max_concurrency'', opt_json JInt (tp_max_concurrency x)),
      (''memory_reserve_bytes'', opt_json JInt (tp_memory_reserve_bytes x)),
      (''disk_reserve_bytes'', opt_json JInt (tp_disk_reserve_bytes x)),
      (''quota_reserve_ratio'', opt_json num_json (tp_quota_reserve_ratio x)),
      (''max_error_rate'', opt_json num_json (tp_max_error_rate x)),
      (''target_latency_seconds'', opt_json num_json (tp_target_latency_seconds x))]"

definition task_from_dict :: "json \<Rightarrow> task_preferences option" where
  "task_from_dict v = do { d \<leftarrow> strict_object task_fields v; task_post_init d }"

text \<open>The bundle; a schema version that equals 1 is accepted as the number it is.\<close>

record policy_bundle =
  pb_schema_version :: num_value
  pb_safety :: safety_invariants
  pb_organization :: organization_policy
  pb_task :: "task_preferences option"

definition bundle_fields :: "string list" where
  "bundle_fields = [''schema_version'', ''api_version'', ''safety'', ''organization'', ''task'']"

definition version_one :: "json \<Rightarrow> num_value option" where
  "version_one v = (case v of JInt i \<Rightarrow> if i = 1 then Some (NInt i) else None
     | JFloat q \<Rightarrow> if q = 1 then Some (NFlt q) else None | _ \<Rightarrow> None)"

definition bundle_post_init ::
  "dict \<Rightarrow> safety_invariants \<Rightarrow> organization_policy \<Rightarrow> task_preferences option \<Rightarrow> policy_bundle option" where
  "bundle_post_init d safety organization task = do {
     version \<leftarrow> version_one (dget0 d ''schema_version'');
     require (dget0 d ''api_version'' = JStr policy_api_version);
     Some \<lparr>pb_schema_version = version, pb_safety = safety, pb_organization = organization, pb_task = task\<rparr> }"

definition bundle_to_dict :: "policy_bundle \<Rightarrow> json" where
  "bundle_to_dict x = JObj
     [(''schema_version'', num_json (pb_schema_version x)), (''api_version'', JStr policy_api_version),
      (''safety'', safety_to_dict (pb_safety x)), (''organization'', organization_to_dict (pb_organization x)),
      (''task'', opt_json task_to_dict (pb_task x))]"

definition bundle_from_dict :: "json \<Rightarrow> policy_bundle option" where
  "bundle_from_dict v = do {
     d \<leftarrow> strict_object bundle_fields v;
     safety \<leftarrow> safety_from_dict (dget0 d ''safety'');
     organization \<leftarrow> organization_from_dict (dget0 d ''organization'');
     task \<leftarrow> optional task_from_dict (dget0 d ''task'');
     bundle_post_init d safety organization task }"

text \<open>A hot reload keeps the identity of the policy and moves its revision on.\<close>

definition with_organization :: "policy_bundle \<Rightarrow> organization_policy \<Rightarrow> policy_bundle option" where
  "with_organization b candidate = do {
     require (og_policy_id candidate = og_policy_id (pb_organization b));
     require (og_revision (pb_organization b) < og_revision candidate);
     Some \<lparr>pb_schema_version = NInt 1, pb_safety = pb_safety b, pb_organization = candidate, pb_task = pb_task b\<rparr> }"

section \<open>Resolution\<close>

record policy_diagnostic =
  pd_code :: string
  pd_layer :: string
  pd_field :: string
  pd_severity :: string
  pd_requested :: "num_value option"
  pd_applied :: "num_value option"
  pd_message :: string

definition diagnostic_to_dict :: "policy_diagnostic \<Rightarrow> json" where
  "diagnostic_to_dict x = JObj
     [(''code'', JStr (pd_code x)), (''layer'', JStr (pd_layer x)), (''field'', JStr (pd_field x)),
      (''severity'', JStr (pd_severity x)), (''requested'', opt_json num_json (pd_requested x)),
      (''applied'', opt_json num_json (pd_applied x)), (''message'', JStr (pd_message x))]"

text \<open>The policy that applies. Its target latency stays null where neither layer sets one.\<close>

record effective_policy =
  ep_policy_id :: string
  ep_revision :: int
  ep_task_id :: "string option"
  ep_min_concurrency :: int
  ep_max_concurrency :: int
  ep_memory_reserve_bytes :: int
  ep_disk_reserve_bytes :: int
  ep_quota_reserve_ratio :: num_value
  ep_max_error_rate :: num_value
  ep_target_latency_seconds :: "num_value option"
  ep_additive_increase :: int
  ep_decrease_factor :: num_value
  ep_scale_up_windows :: int
  ep_cooldown_seconds :: int

definition effective_to_dict :: "effective_policy \<Rightarrow> json" where
  "effective_to_dict x = JObj
     [(''policy_id'', JStr (ep_policy_id x)), (''revision'', JInt (ep_revision x)),
      (''task_id'', opt_json JStr (ep_task_id x)), (''min_concurrency'', JInt (ep_min_concurrency x)),
      (''max_concurrency'', JInt (ep_max_concurrency x)),
      (''memory_reserve_bytes'', JInt (ep_memory_reserve_bytes x)),
      (''disk_reserve_bytes'', JInt (ep_disk_reserve_bytes x)),
      (''quota_reserve_ratio'', num_json (ep_quota_reserve_ratio x)),
      (''max_error_rate'', num_json (ep_max_error_rate x)),
      (''target_latency_seconds'', opt_json num_json (ep_target_latency_seconds x)),
      (''additive_increase'', JInt (ep_additive_increase x)), (''decrease_factor'', num_json (ep_decrease_factor x)),
      (''scale_up_windows'', JInt (ep_scale_up_windows x)), (''cooldown_seconds'', JInt (ep_cooldown_seconds x))]"

record policy_resolution =
  pr_valid :: bool
  pr_effective :: effective_policy
  pr_diagnostics :: "policy_diagnostic list"

definition resolution_to_dict :: "policy_resolution \<Rightarrow> json" where
  "resolution_to_dict x = JObj
     [(''valid'', JBool (pr_valid x)), (''effective'', effective_to_dict (pr_effective x)),
      (''diagnostics'', JArr (map diagnostic_to_dict (pr_diagnostics x)))]"

text \<open>The six values that a later layer may only tighten, as \<open>resolve_policy\<close> carries them along.\<close>

record policy_limits =
  pl_minimum :: int
  pl_maximum :: int
  pl_memory :: int
  pl_disk :: int
  pl_quota :: num_value
  pl_error :: num_value

definition diagnostic_when ::
  "bool \<Rightarrow> string \<Rightarrow> string \<Rightarrow> string \<Rightarrow> string \<Rightarrow> num_value \<Rightarrow> num_value \<Rightarrow> string \<Rightarrow> policy_diagnostic list" where
  "diagnostic_when raised code layer field severity requested applied message =
     (if raised then [\<lparr>pd_code = code, pd_layer = layer, pd_field = field, pd_severity = severity,
        pd_requested = Some requested, pd_applied = Some applied, pd_message = message\<rparr>] else [])"

definition safety_diagnostic :: "string \<Rightarrow> string \<Rightarrow> num_value \<Rightarrow> num_value \<Rightarrow> policy_diagnostic list" where
  "safety_diagnostic relation field requested applied =
     diagnostic_when (num_val requested \<noteq> num_val applied) (''safety_'' @ relation @ ''_applied'') ''organization''
       field ''warning'' requested applied (''organization '' @ field @ '' cannot weaken its safety '' @ relation)"

definition organization_limits ::
  "safety_invariants \<Rightarrow> organization_policy \<Rightarrow> bool \<times> policy_limits \<times> policy_diagnostic list" where
  "organization_limits s g =
     (let maximum = min (sv_hard_max_concurrency s) (og_max_concurrency g);
          memory = max (sv_min_memory_reserve_bytes s) (og_memory_reserve_bytes g);
          disk = max (sv_min_disk_reserve_bytes s) (og_disk_reserve_bytes g);
          quota = num_max (sv_min_quota_reserve_ratio s) (og_quota_reserve_ratio g);
          error_rate = num_min (sv_max_error_rate s) (og_max_error_rate g);
          valid = (og_min_concurrency g \<le> maximum)
      in (valid,
          \<lparr>pl_minimum = (if valid then og_min_concurrency g else maximum), pl_maximum = maximum,
           pl_memory = memory, pl_disk = disk, pl_quota = quota, pl_error = error_rate\<rparr>,
          diagnostic_when (sv_hard_max_concurrency s < og_max_concurrency g) ''safety_ceiling_applied''
            ''organization'' ''max_concurrency'' ''warning'' (NInt (og_max_concurrency g)) (NInt maximum)
            ''organization max_concurrency cannot exceed the safety ceiling''
          @ safety_diagnostic ''floor'' ''memory_reserve_bytes'' (NInt (og_memory_reserve_bytes g)) (NInt memory)
          @ safety_diagnostic ''floor'' ''disk_reserve_bytes'' (NInt (og_disk_reserve_bytes g)) (NInt disk)
          @ safety_diagnostic ''floor'' ''quota_reserve_ratio'' (og_quota_reserve_ratio g) quota
          @ safety_diagnostic ''ceiling'' ''max_error_rate'' (og_max_error_rate g) error_rate
          @ diagnostic_when (\<not> valid) ''impossible_concurrency_range'' ''organization'' ''min_concurrency''
            ''error'' (NInt (og_min_concurrency g)) (NInt maximum)
            ''organization min_concurrency exceeds the effective maximum''))"

text \<open>
  A task's requests on inherited limits. The quota reserve of a task that asks for one is written as
  a float; the other values keep their type.
\<close>

definition requested_over :: "('a \<Rightarrow> num_value) \<Rightarrow> 'a option \<Rightarrow> (num_value \<Rightarrow> policy_diagnostic list) \<Rightarrow> policy_diagnostic list" where
  "requested_over wrap request f = (case request of None \<Rightarrow> [] | Some r \<Rightarrow> f (wrap r))"

definition floor_diagnostic :: "string \<Rightarrow> num_value \<Rightarrow> num_value \<Rightarrow> policy_diagnostic list" where
  "floor_diagnostic field inherited requested =
     diagnostic_when (num_val requested < num_val inherited) ''inherited_floor_applied'' ''task'' field ''warning''
       requested inherited (''task preference cannot lower inherited '' @ field)"

definition ceiling_diagnostic :: "string \<Rightarrow> string \<Rightarrow> string \<Rightarrow> num_value \<Rightarrow> num_value \<Rightarrow> policy_diagnostic list" where
  "ceiling_diagnostic code field message inherited requested =
     diagnostic_when (num_val inherited < num_val requested) code ''task'' field ''warning'' requested inherited message"

definition task_limits :: "task_preferences \<Rightarrow> policy_limits \<Rightarrow> policy_limits \<times> policy_diagnostic list" where
  "task_limits t l =
     (let maximum = (case tp_max_concurrency t of None \<Rightarrow> pl_maximum l | Some m \<Rightarrow> min (pl_maximum l) m);
          minimum = (case tp_min_concurrency t of None \<Rightarrow> pl_minimum l | Some m \<Rightarrow> min (pl_minimum l) m);
          memory = (case tp_memory_reserve_bytes t of None \<Rightarrow> pl_memory l | Some m \<Rightarrow> max (pl_memory l) m);
          disk = (case tp_disk_reserve_bytes t of None \<Rightarrow> pl_disk l | Some m \<Rightarrow> max (pl_disk l) m);
          quota = (case tp_quota_reserve_ratio t of None \<Rightarrow> pl_quota l
                   | Some q \<Rightarrow> NFlt (num_val (num_max (pl_quota l) q)));
          error_rate = (case tp_max_error_rate t of None \<Rightarrow> pl_error l | Some e \<Rightarrow> num_min (pl_error l) e)
      in (\<lparr>pl_minimum = min minimum maximum, pl_maximum = maximum, pl_memory = memory, pl_disk = disk,
           pl_quota = quota, pl_error = error_rate\<rparr>,
          requested_over NInt (tp_max_concurrency t)
            (ceiling_diagnostic ''inherited_ceiling_applied'' ''preferred_max_concurrency''
               ''task preference cannot raise the inherited maximum'' (NInt (pl_maximum l)))
          @ requested_over NInt (tp_min_concurrency t)
            (ceiling_diagnostic ''inherited_minimum_applied'' ''preferred_min_concurrency''
               ''task preference cannot raise the inherited min_concurrency'' (NInt (pl_minimum l)))
          @ diagnostic_when (maximum < minimum) ''task_preference_clipped'' ''task'' ''preferred_min_concurrency''
            ''warning'' (NInt minimum) (NInt maximum) ''task preferred minimum was clipped to its effective maximum''
          @ requested_over NInt (tp_memory_reserve_bytes t)
            (floor_diagnostic ''memory_reserve_bytes'' (NInt (pl_memory l)))
          @ requested_over NInt (tp_disk_reserve_bytes t) (floor_diagnostic ''disk_reserve_bytes'' (NInt (pl_disk l)))
          @ requested_over id (tp_quota_reserve_ratio t) (floor_diagnostic ''quota_reserve_ratio'' (pl_quota l))
          @ requested_over id (tp_max_error_rate t)
            (ceiling_diagnostic ''inherited_ceiling_applied'' ''max_error_rate''
               ''task preference cannot raise inherited max_error_rate'' (pl_error l))))"

definition effective_of :: "organization_policy \<Rightarrow> task_preferences option \<Rightarrow> policy_limits \<Rightarrow> effective_policy" where
  "effective_of g task l =
     \<lparr>ep_policy_id = og_policy_id g, ep_revision = og_revision g, ep_task_id = map_option tp_task_id task,
      ep_min_concurrency = pl_minimum l, ep_max_concurrency = pl_maximum l,
      ep_memory_reserve_bytes = pl_memory l, ep_disk_reserve_bytes = pl_disk l,
      ep_quota_reserve_ratio = pl_quota l, ep_max_error_rate = pl_error l,
      ep_target_latency_seconds =
        (case Option.bind task tp_target_latency_seconds of
           Some x \<Rightarrow> Some x | None \<Rightarrow> og_target_latency_seconds g),
      ep_additive_increase = og_additive_increase g, ep_decrease_factor = og_decrease_factor g,
      ep_scale_up_windows = og_scale_up_windows g, ep_cooldown_seconds = og_cooldown_seconds g\<rparr>"

definition resolve_policy :: "policy_bundle \<Rightarrow> policy_resolution" where
  "resolve_policy b =
     (let (valid, limits, diagnostics) = organization_limits (pb_safety b) (pb_organization b);
          (limits', more) = (case pb_task b of None \<Rightarrow> (limits, []) | Some t \<Rightarrow> task_limits t limits)
      in \<lparr>pr_valid = valid, pr_effective = effective_of (pb_organization b) (pb_task b) limits',
          pr_diagnostics = diagnostics @ more\<rparr>)"

section \<open>The documents are wire formats\<close>

lemma ratio_Some:
  "ratio v = Some n \<longleftrightarrow> v = num_json n \<and> 0 \<le> num_val n \<and> num_val n \<le> 1
     \<and> (case n of NInt i \<Rightarrow> fits_float i | _ \<Rightarrow> True)"
  by (auto simp: ratio_def bind_eq_Some_conv number_Some)

lemma positive_number_Some:
  "positive_number v = Some n \<longleftrightarrow> v = num_json n \<and> 0 < num_val n
     \<and> (case n of NInt i \<Rightarrow> fits_float i | _ \<Rightarrow> True)"
  by (auto simp: positive_number_def bind_eq_Some_conv number_Some)

lemma version_one_Some: "version_one v = Some n \<longleftrightarrow> v = num_json n \<and> num_val n = 1"
  by (cases n; cases v) (auto simp: version_one_def num_json_def num_val_def)

lemma optional_policy_Some:
  "optional ratio v = Some n \<longleftrightarrow> v = opt_json num_json n \<and> pred_option
     (\<lambda>n. 0 \<le> num_val n \<and> num_val n \<le> 1 \<and> (case n of NInt i \<Rightarrow> fits_float i | _ \<Rightarrow> True)) n"
  "optional positive_number v = Some n \<longleftrightarrow> v = opt_json num_json n \<and> pred_option
     (\<lambda>n. 0 < num_val n \<and> (case n of NInt i \<Rightarrow> fits_float i | _ \<Rightarrow> True)) n"
  by (rule optional_Some; simp add: ratio_Some positive_number_Some)+

lemmas policy_simps = wire_simps ratio_Some positive_number_Some version_one_Some optional_policy_Some

lemma safety_post_init_Some:
  "safety_post_init d = Some x \<longleftrightarrow>
     integer 0 (dget0 d ''hard_max_concurrency'') = Some (sv_hard_max_concurrency x) \<and>
     integer 0 (dget0 d ''min_memory_reserve_bytes'') = Some (sv_min_memory_reserve_bytes x) \<and>
     integer 0 (dget0 d ''min_disk_reserve_bytes'') = Some (sv_min_disk_reserve_bytes x) \<and>
     ratio (dget0 d ''min_quota_reserve_ratio'') = Some (sv_min_quota_reserve_ratio x) \<and>
     ratio (dget0 d ''max_error_rate'') = Some (sv_max_error_rate x)"
  by (cases x) (auto simp: safety_post_init_def bind_eq_Some_conv)

interpretation safety_wire: wire safety_from_dict safety_to_dict
proof
  fix v x assume "safety_from_dict v = Some x"
  then obtain d where "safety_post_init d = Some x"
    by (auto simp: safety_from_dict_def bind_eq_Some_conv)
  then show "safety_from_dict (canon (safety_to_dict x)) = Some x"
    by (simp add: policy_simps safety_from_dict_def safety_post_init_Some safety_to_dict_def safety_fields_def)
qed (simp_all add: safety_to_dict_def del: no_dup_keys.simps(6))

lemma organization_post_init_Some:
  "organization_post_init d = Some x \<longleftrightarrow>
     identifier_of (dget0 d ''policy_id'') = Some (og_policy_id x) \<and>
     integer 1 (dget0 d ''revision'') = Some (og_revision x) \<and>
     integer 0 (dget0 d ''min_concurrency'') = Some (og_min_concurrency x) \<and>
     integer 0 (dget0 d ''max_concurrency'') = Some (og_max_concurrency x) \<and>
     integer 0 (dget0 d ''memory_reserve_bytes'') = Some (og_memory_reserve_bytes x) \<and>
     integer 0 (dget0 d ''disk_reserve_bytes'') = Some (og_disk_reserve_bytes x) \<and>
     ratio (dget0 d ''quota_reserve_ratio'') = Some (og_quota_reserve_ratio x) \<and>
     ratio (dget0 d ''max_error_rate'') = Some (og_max_error_rate x) \<and>
     optional positive_number (dget0 d ''target_latency_seconds'') = Some (og_target_latency_seconds x) \<and>
     integer 1 (dget0 d ''additive_increase'') = Some (og_additive_increase x) \<and>
     number 0 (dget0 d ''decrease_factor'') = Some (og_decrease_factor x) \<and>
     0 < num_val (og_decrease_factor x) \<and> num_val (og_decrease_factor x) < 1 \<and>
     integer 1 (dget0 d ''scale_up_windows'') = Some (og_scale_up_windows x) \<and>
     integer 0 (dget0 d ''cooldown_seconds'') = Some (og_cooldown_seconds x)"
  by (cases x) (auto simp: organization_post_init_def bind_eq_Some_conv)

interpretation organization_wire: wire organization_from_dict organization_to_dict
proof
  fix v x assume "organization_from_dict v = Some x"
  then obtain d where "organization_post_init d = Some x"
    by (auto simp: organization_from_dict_def bind_eq_Some_conv)
  then show "organization_from_dict (canon (organization_to_dict x)) = Some x"
    by (simp add: policy_simps organization_from_dict_def organization_post_init_Some organization_to_dict_def
        organization_fields_def)
qed (simp_all add: organization_to_dict_def del: no_dup_keys.simps(6))

lemma task_post_init_Some:
  "task_post_init d = Some x \<longleftrightarrow>
     identifier_of (dget0 d ''task_id'') = Some (tp_task_id x) \<and>
     optional (integer 0) (dget0 d ''preferred_min_concurrency'') = Some (tp_min_concurrency x) \<and>
     optional (integer 0) (dget0 d ''preferred_max_concurrency'') = Some (tp_max_concurrency x) \<and>
     optional (integer 0) (dget0 d ''memory_reserve_bytes'') = Some (tp_memory_reserve_bytes x) \<and>
     optional (integer 0) (dget0 d ''disk_reserve_bytes'') = Some (tp_disk_reserve_bytes x) \<and>
     optional ratio (dget0 d ''quota_reserve_ratio'') = Some (tp_quota_reserve_ratio x) \<and>
     optional ratio (dget0 d ''max_error_rate'') = Some (tp_max_error_rate x) \<and>
     optional positive_number (dget0 d ''target_latency_seconds'') = Some (tp_target_latency_seconds x)"
  by (cases x) (auto simp: task_post_init_def bind_eq_Some_conv)

interpretation task_wire: wire task_from_dict task_to_dict
proof
  fix v x assume "task_from_dict v = Some x"
  then obtain d where "task_post_init d = Some x"
    by (auto simp: task_from_dict_def bind_eq_Some_conv)
  then show "task_from_dict (canon (task_to_dict x)) = Some x"
    by (simp add: policy_simps task_from_dict_def task_post_init_Some task_to_dict_def task_fields_def)
qed (simp_all add: task_to_dict_def del: no_dup_keys.simps(6))

lemma bundle_post_init_Some:
  "bundle_post_init d s g t = Some x \<longleftrightarrow>
     version_one (dget0 d ''schema_version'') = Some (pb_schema_version x) \<and>
     dget0 d ''api_version'' = JStr policy_api_version \<and>
     s = pb_safety x \<and> g = pb_organization x \<and> t = pb_task x"
  by (cases x) (auto simp: bundle_post_init_def bind_eq_Some_conv)

text \<open>An optional part of a message, written as its own message or as null.\<close>

context wire
begin

lemma optional_part:
  assumes "optional dec v = Some z"
  shows "optional dec (canon (opt_json enc z)) = Some z" and "no_dup_keys (opt_json enc z)"
proof -
  show "optional dec (canon (opt_json enc z)) = Some z"
  proof (cases z)
    case (Some x)
    then have x: "dec v = Some x"
      using assms by (auto simp: optional_def split: if_splits json.splits)
    then obtain e where "canon (enc x) = JObj e"
      using object canon_JObj by metis
    with canonical [OF x] Some show ?thesis
      by (simp add: optional_def opt_json_def)
  qed (simp add: optional_def opt_json_def)
  show "no_dup_keys (opt_json enc z)"
    using assms clean by (auto simp: optional_def opt_json_def split: if_splits json.splits option.splits)
qed

end

interpretation bundle_wire: wire bundle_from_dict bundle_to_dict
proof
  fix v x assume "bundle_from_dict v = Some x"
  then obtain d where "bundle_post_init d (pb_safety x) (pb_organization x) (pb_task x) = Some x"
    and parts: "safety_from_dict (dget0 d ''safety'') = Some (pb_safety x)"
      "organization_from_dict (dget0 d ''organization'') = Some (pb_organization x)"
      "optional task_from_dict (dget0 d ''task'') = Some (pb_task x)"
    by (auto simp: bundle_from_dict_def bind_eq_Some_conv bundle_post_init_Some)
  then show "bundle_from_dict (canon (bundle_to_dict x)) = Some x"
    by (simp add: policy_simps bundle_from_dict_def bundle_post_init_Some bundle_to_dict_def bundle_fields_def
        safety_wire.canonical organization_wire.canonical task_wire.optional_part)
  show "\<exists>e. bundle_to_dict x = JObj e"
    by (simp add: bundle_to_dict_def)
  show "no_dup_keys (bundle_to_dict x)"
    using safety_wire.clean [OF parts(1)] organization_wire.clean [OF parts(2)]
      task_wire.optional_part(2) [OF parts(3)]
    by (simp add: bundle_to_dict_def)
qed

section \<open>Layers only tighten\<close>

lemma num_val_min_max [simp]:
  "num_val (num_min a b) = min (num_val a) (num_val b)" "num_val (num_max a b) = max (num_val a) (num_val b)"
  "num_val (NInt i) = of_int i" "num_val (NFlt q) = q"
  by (auto simp: num_min_def num_max_def num_val_def)

text \<open>The order of the limits: \<open>tighter l l'\<close> allows no more than \<open>l'\<close> and reserves no less.\<close>

definition tighter :: "policy_limits \<Rightarrow> policy_limits \<Rightarrow> bool" where
  "tighter l l' \<longleftrightarrow>
     pl_minimum l \<le> pl_minimum l' \<and> pl_maximum l \<le> pl_maximum l' \<and> pl_memory l' \<le> pl_memory l
     \<and> pl_disk l' \<le> pl_disk l \<and> num_val (pl_quota l') \<le> num_val (pl_quota l)
     \<and> num_val (pl_error l) \<le> num_val (pl_error l')"

lemma task_limits_tighter: "tighter (fst (task_limits t l)) l"
  by (auto simp: tighter_def task_limits_def Let_def split: option.splits)

lemma limits_in_range:
  "pl_minimum (fst (snd (organization_limits s g))) \<le> pl_maximum (fst (snd (organization_limits s g)))"
  "pl_minimum (fst (task_limits t l)) \<le> pl_maximum (fst (task_limits t l))"
  by (auto simp: organization_limits_def task_limits_def Let_def)

text \<open>The limits that \<open>resolve_policy\<close> ends with.\<close>

definition resolved_limits :: "policy_bundle \<Rightarrow> policy_limits" where
  "resolved_limits b =
     (let l = fst (snd (organization_limits (pb_safety b) (pb_organization b)))
      in case pb_task b of None \<Rightarrow> l | Some t \<Rightarrow> fst (task_limits t l))"

lemma resolve_policy_parts:
  "pr_effective (resolve_policy b) = effective_of (pb_organization b) (pb_task b) (resolved_limits b)"
  "pr_valid (resolve_policy b) = fst (organization_limits (pb_safety b) (pb_organization b))"
  "pr_diagnostics (resolve_policy b) =
     snd (snd (organization_limits (pb_safety b) (pb_organization b)))
     @ (case pb_task b of None \<Rightarrow> []
        | Some t \<Rightarrow> snd (task_limits t (fst (snd (organization_limits (pb_safety b) (pb_organization b))))))"
  by (simp_all add: resolve_policy_def resolved_limits_def case_prod_beta Let_def split: option.splits)

lemma resolved_limits_tighter:
  "tighter (resolved_limits b) (fst (snd (organization_limits (pb_safety b) (pb_organization b))))"
  "pl_minimum (resolved_limits b) \<le> pl_maximum (resolved_limits b)"
  using task_limits_tighter limits_in_range
  by (auto simp: resolved_limits_def tighter_def Let_def split: option.splits)

text \<open>C27. Whatever the organization and the task ask for, the effective policy stays within the safety
  invariants and within each layer above it: its concurrency and its error rate are at most the
  ceiling of every layer that sets one, its reserves at least every floor, its range is never
  inverted, and the resolution is valid exactly where the organization's minimum is admissible.
\<close>

theorem effective_policy_weakens_no_layer:
  "let s = pb_safety b; g = pb_organization b; r = resolve_policy b; e = pr_effective r in
     ep_min_concurrency e \<le> ep_max_concurrency e
     \<and> ep_max_concurrency e \<le> min (sv_hard_max_concurrency s) (og_max_concurrency g)
     \<and> ep_min_concurrency e \<le> og_min_concurrency g
     \<and> max (sv_min_memory_reserve_bytes s) (og_memory_reserve_bytes g) \<le> ep_memory_reserve_bytes e
     \<and> max (sv_min_disk_reserve_bytes s) (og_disk_reserve_bytes g) \<le> ep_disk_reserve_bytes e
     \<and> max (num_val (sv_min_quota_reserve_ratio s)) (num_val (og_quota_reserve_ratio g))
         \<le> num_val (ep_quota_reserve_ratio e)
     \<and> num_val (ep_max_error_rate e) \<le> min (num_val (sv_max_error_rate s)) (num_val (og_max_error_rate g))
     \<and> pred_option (\<lambda>t. pred_option (\<lambda>n. ep_max_concurrency e \<le> n) (tp_max_concurrency t)
         \<and> pred_option (\<lambda>n. n \<le> ep_memory_reserve_bytes e) (tp_memory_reserve_bytes t)
         \<and> pred_option (\<lambda>n. n \<le> ep_disk_reserve_bytes e) (tp_disk_reserve_bytes t)
         \<and> pred_option (\<lambda>q. num_val q \<le> num_val (ep_quota_reserve_ratio e)) (tp_quota_reserve_ratio t)
         \<and> pred_option (\<lambda>q. num_val (ep_max_error_rate e) \<le> num_val q) (tp_max_error_rate t)) (pb_task b)
     \<and> (pr_valid r \<longleftrightarrow> og_min_concurrency g \<le> min (sv_hard_max_concurrency s) (og_max_concurrency g))"
proof -
  have "pred_option (\<lambda>t. pred_option (\<lambda>n. pl_maximum (resolved_limits b) \<le> n) (tp_max_concurrency t)
         \<and> pred_option (\<lambda>n. n \<le> pl_memory (resolved_limits b)) (tp_memory_reserve_bytes t)
         \<and> pred_option (\<lambda>n. n \<le> pl_disk (resolved_limits b)) (tp_disk_reserve_bytes t)
         \<and> pred_option (\<lambda>q. num_val q \<le> num_val (pl_quota (resolved_limits b))) (tp_quota_reserve_ratio t)
         \<and> pred_option (\<lambda>q. num_val (pl_error (resolved_limits b)) \<le> num_val q) (tp_max_error_rate t)) (pb_task b)"
    by (auto simp: resolved_limits_def task_limits_def Let_def pred_option_def)
  with resolved_limits_tighter [of b] show ?thesis
    by (auto simp: resolve_policy_parts Let_def effective_of_def organization_limits_def tighter_def split: if_splits)
qed

text \<open>Where no diagnostic is raised, and how severe one is.\<close>

lemma diagnostic_when_iff:
  "diagnostic_when raised c l f sv r a m = [] \<longleftrightarrow> \<not> raised"
  "list_all (\<lambda>d. pd_severity d \<noteq> ''error'') (diagnostic_when raised c l f sv r a m) \<longleftrightarrow> raised \<longrightarrow> sv \<noteq> ''error''"
  by (simp_all add: diagnostic_when_def)

lemma requested_over_iff:
  "requested_over wrap z f = [] \<longleftrightarrow> pred_option (\<lambda>x. f (wrap x) = []) z"
  "list_all P (requested_over wrap z f) \<longleftrightarrow> pred_option (\<lambda>x. list_all P (f (wrap x))) z"
  by (cases z; simp add: requested_over_def)+

lemmas diagnostic_iffs = diagnostic_when_iff requested_over_iff safety_diagnostic_def floor_diagnostic_def
  ceiling_diagnostic_def

lemma organization_silent:
  "snd (snd (organization_limits s g)) = [] \<longleftrightarrow>
     og_max_concurrency g \<le> sv_hard_max_concurrency s \<and> og_min_concurrency g \<le> og_max_concurrency g
     \<and> sv_min_memory_reserve_bytes s \<le> og_memory_reserve_bytes g
     \<and> sv_min_disk_reserve_bytes s \<le> og_disk_reserve_bytes g
     \<and> num_val (sv_min_quota_reserve_ratio s) \<le> num_val (og_quota_reserve_ratio g)
     \<and> num_val (og_max_error_rate g) \<le> num_val (sv_max_error_rate s)"
  by (auto simp: organization_limits_def Let_def diagnostic_iffs)

lemma task_silent:
  "snd (task_limits t l) = [] \<longleftrightarrow>
     (let l' = fst (task_limits t l) in
      pred_option (\<lambda>n. pl_maximum l' = n) (tp_max_concurrency t)
      \<and> pl_minimum l' = (case tp_min_concurrency t of None \<Rightarrow> pl_minimum l | Some n \<Rightarrow> n)
      \<and> pred_option (\<lambda>n. pl_memory l' = n) (tp_memory_reserve_bytes t)
      \<and> pred_option (\<lambda>n. pl_disk l' = n) (tp_disk_reserve_bytes t)
      \<and> pred_option (\<lambda>q. num_val (pl_quota l') = num_val q) (tp_quota_reserve_ratio t)
      \<and> pred_option (\<lambda>q. num_val (pl_error l') = num_val q) (tp_max_error_rate t))"
  by (auto simp: task_limits_def Let_def diagnostic_iffs pred_option_def split: option.splits)

lemma severities:
  "list_all (\<lambda>d. pd_severity d \<noteq> ''error'') (snd (snd (organization_limits s g))) \<longleftrightarrow> fst (organization_limits s g)"
  "list_all (\<lambda>d. pd_severity d \<noteq> ''error'') (snd (task_limits t l))"
  by (simp_all add: organization_limits_def task_limits_def Let_def diagnostic_iffs pred_option_def)

text \<open>The diagnostics are honest: there is none exactly when every request of the organization and
  of the task is applied as it was made, and one of severity error exactly when the resolution is
  invalid.
\<close>

theorem diagnostics_report_every_override:
  "let s = pb_safety b; g = pb_organization b; r = resolve_policy b; e = pr_effective r in
     (pr_diagnostics r = [] \<longleftrightarrow>
        og_max_concurrency g \<le> sv_hard_max_concurrency s
        \<and> og_min_concurrency g \<le> og_max_concurrency g
        \<and> sv_min_memory_reserve_bytes s \<le> og_memory_reserve_bytes g
        \<and> sv_min_disk_reserve_bytes s \<le> og_disk_reserve_bytes g
        \<and> num_val (sv_min_quota_reserve_ratio s) \<le> num_val (og_quota_reserve_ratio g)
        \<and> num_val (og_max_error_rate g) \<le> num_val (sv_max_error_rate s)
        \<and> pred_option (\<lambda>t. pred_option (\<lambda>n. ep_max_concurrency e = n) (tp_max_concurrency t)
            \<and> ep_min_concurrency e = (case tp_min_concurrency t of None \<Rightarrow> og_min_concurrency g | Some n \<Rightarrow> n)
            \<and> pred_option (\<lambda>n. ep_memory_reserve_bytes e = n) (tp_memory_reserve_bytes t)
            \<and> pred_option (\<lambda>n. ep_disk_reserve_bytes e = n) (tp_disk_reserve_bytes t)
            \<and> pred_option (\<lambda>q. num_val (ep_quota_reserve_ratio e) = num_val q) (tp_quota_reserve_ratio t)
            \<and> pred_option (\<lambda>q. num_val (ep_max_error_rate e) = num_val q) (tp_max_error_rate t)) (pb_task b))
     \<and> (pr_valid r \<longleftrightarrow> list_all (\<lambda>d. pd_severity d \<noteq> ''error'') (pr_diagnostics r))"
proof -
  let ?l = "organization_limits (pb_safety b) (pb_organization b)"
  have valid: "pr_valid (resolve_policy b) \<longleftrightarrow> list_all (\<lambda>d. pd_severity d \<noteq> ''error'') (pr_diagnostics (resolve_policy b))"
    by (cases "pb_task b") (simp_all add: resolve_policy_parts severities)
  show ?thesis
  proof (cases "snd (snd ?l) = []")
    case True
    then have least: "pl_minimum (fst (snd ?l)) = og_min_concurrency (pb_organization b)"
      by (simp add: organization_silent) (simp add: organization_limits_def Let_def)
    show ?thesis
      using valid True iffD1 [OF organization_silent True]
      by (cases "pb_task b") (simp_all add: Let_def resolve_policy_parts(1,3) task_silent resolved_limits_def
          effective_of_def least cong: option.case_cong)
  next
    case False
    then have "pr_diagnostics (resolve_policy b) \<noteq> []"
      by (simp add: resolve_policy_parts)
    with valid False show ?thesis
      unfolding Let_def organization_silent by blast
  qed
qed

text \<open>A hot reload moves one policy forward and leaves the deployment's bounds in force.\<close>

lemma hot_reload_keeps_safety:
  assumes "with_organization b candidate = Some b'"
  shows "pb_safety b' = pb_safety b" and "pb_task b' = pb_task b"
    and "og_policy_id (pb_organization b') = og_policy_id (pb_organization b)"
    and "og_revision (pb_organization b) < og_revision (pb_organization b')"
    and "ep_max_concurrency (pr_effective (resolve_policy b')) \<le> sv_hard_max_concurrency (pb_safety b)"
proof -
  show s: "pb_safety b' = pb_safety b" and "pb_task b' = pb_task b"
    and "og_policy_id (pb_organization b') = og_policy_id (pb_organization b)"
    and "og_revision (pb_organization b) < og_revision (pb_organization b')"
    using assms by (auto simp: with_organization_def bind_eq_Some_conv)
  have "ep_max_concurrency (pr_effective (resolve_policy b')) \<le> sv_hard_max_concurrency (pb_safety b')"
    using resolved_limits_tighter(1) [of b']
    by (auto simp: resolve_policy_parts effective_of_def tighter_def organization_limits_def Let_def)
  then show "ep_max_concurrency (pr_effective (resolve_policy b')) \<le> sv_hard_max_concurrency (pb_safety b)"
    by (simp add: s)
qed

end
