(* ===== verification/Worker.thy ===== *)
theory Worker
  imports Contracts Fenced "HOL-Library.AList"
begin

text \<open>
  The controller's projection of one worker (\<open>worker/state.py\<close>): the latest registration, snapshots,
  heartbeat and execution handles, what each idempotency key stood for, and the readings that
  dispatch rests on.

  An operation returns \<open>False\<close> for an exact retry and \<open>True\<close> when it changed the projection; it
  raises before it assigns anything. Dictionaries are association lists in insertion order. The
  generations of a worker keep the contract \<open>fenced\<close>.
\<close>

section \<open>State\<close>

datatype worker_error =
  WorkerIdentityError | WorkerFenceError | WorkerSequenceError | WorkerIdempotencyError

text \<open>\<open>_execution_identity\<close>: job, attempt, host, worker, fence, reservation, process.\<close>

type_synonym identity_key =
  "string \<times> string \<times> string \<times> string \<times> int \<times> string option \<times> string option"

record worker_state =
  ws_registration :: "host_registration option"
  ws_capability :: "capability_snapshot option"
  ws_resources :: "resource_snapshot option"
  ws_heartbeat :: "worker_heartbeat option"
  ws_handles :: "(string \<times> execution_handle) list"
  ws_identities :: "(string \<times> identity_key) list"
  ws_payloads :: "((string \<times> string) \<times> json) list"

type_synonym 'a wop = "(worker_error, worker_state, 'a) tx"

definition new_worker :: worker_state where
  "new_worker = \<lparr>ws_registration = None, ws_capability = None, ws_resources = None,
     ws_heartbeat = None, ws_handles = [], ws_identities = [], ws_payloads = []\<rparr>"

definition worker_fence :: "worker_state \<Rightarrow> int option" where
  "worker_fence s = map_option hr_fence_token (ws_registration s)"

definition execution_transitions :: "string \<Rightarrow> string list" where
  "execution_transitions st =
     (if st = ''unknown'' then
        [''unknown'', ''accepted'', ''running'', ''exited'', ''failed'', ''cancelled'', ''lost'']
      else if st = ''accepted'' then
        [''accepted'', ''running'', ''failed'', ''cancelled'', ''lost'', ''unknown'']
      else if st = ''running'' then
        [''running'', ''exited'', ''failed'', ''cancelled'', ''lost'', ''unknown'']
      else [st])"

definition execution_identity :: "execution_handle \<Rightarrow> identity_key" where
  "execution_identity h =
     (eh_job_id h, eh_attempt_id h, eh_host_id h, eh_worker_id h, eh_fence_token h,
      eh_reservation_id h, eh_process_id h)"

section \<open>Checks\<close>

text \<open>\<open>_idempotency_result\<close>: whether the message is an exact retry.\<close>

definition exact_retry :: "string \<Rightarrow> string \<Rightarrow> json \<Rightarrow> bool wop" where
  "exact_retry stream key payload =
     tx_bind (tx_get (\<lambda>s. map_of (ws_payloads s) (stream, key))) (\<lambda>existing.
       case existing of
         None \<Rightarrow> tx_return False
       | Some p \<Rightarrow> tx_seq (tx_raise_if (p \<noteq> payload) WorkerIdempotencyError) (tx_return True))"

definition remember :: "string \<Rightarrow> string \<Rightarrow> json \<Rightarrow> unit wop" where
  "remember stream key payload =
     tx_modify (\<lambda>s. s\<lparr>ws_payloads := AList.update (stream, key) payload (ws_payloads s)\<rparr>)"

definition clear_generation_idempotency :: "worker_state \<Rightarrow> worker_state" where
  "clear_generation_idempotency s =
     s\<lparr>ws_payloads := filter (\<lambda>e. fst (fst e) = ''registration'') (ws_payloads s)\<rparr>"

definition require_current_identity :: "string \<Rightarrow> string \<Rightarrow> int \<Rightarrow> unit wop" where
  "require_current_identity host worker fence =
     tx_bind (tx_get ws_registration) (\<lambda>registration.
       case registration of
         None \<Rightarrow> tx_raise WorkerIdentityError
       | Some r \<Rightarrow>
           tx_seq (tx_raise_if (host \<noteq> hr_host_id r \<or> worker \<noteq> hr_worker_id r) WorkerIdentityError)
                  (tx_raise_if (fence \<noteq> hr_fence_token r) WorkerFenceError))"

definition require_forward_sequence :: "int \<Rightarrow> int option \<Rightarrow> unit wop" where
  "require_forward_sequence incoming current =
     (case current of
        None \<Rightarrow> tx_return ()
      | Some c \<Rightarrow> tx_seq (tx_raise_if (incoming < c) WorkerSequenceError)
                         (tx_raise_if (incoming = c) WorkerSequenceError))"

section \<open>Operations\<close>

definition new_generation :: "worker_state \<Rightarrow> worker_state" where
  "new_generation s = clear_generation_idempotency
     (s\<lparr>ws_capability := None, ws_resources := None, ws_heartbeat := None, ws_handles := []\<rparr>)"

definition apply_registration :: "host_registration \<Rightarrow> bool wop" where
  "apply_registration r =
     tx_bind (tx_get ws_registration) (\<lambda>previous.
     tx_seq (case previous of
               None \<Rightarrow> tx_return ()
             | Some p \<Rightarrow>
                 tx_seq (tx_raise_if (hr_host_id r \<noteq> hr_host_id p \<or> hr_worker_id r \<noteq> hr_worker_id p)
                           WorkerIdentityError)
                        (tx_raise_if (hr_fence_token r < hr_fence_token p) WorkerFenceError))
     (tx_bind (exact_retry ''registration'' (hr_idempotency_key r) (to_json registration_to_dict r)) (\<lambda>duplicate.
     if duplicate then tx_return False
     else
       tx_seq (case previous of
                 None \<Rightarrow> tx_return ()
               | Some p \<Rightarrow>
                   tx_seq (tx_raise_if (hr_fence_token r = hr_fence_token p) WorkerFenceError)
                          (tx_modify new_generation))
       (tx_seq (tx_modify (\<lambda>s. s\<lparr>ws_registration := Some r\<rparr>))
       (tx_seq (remember ''registration'' (hr_idempotency_key r) (to_json registration_to_dict r))
       (tx_return True))))))"

definition apply_capability_snapshot :: "capability_snapshot \<Rightarrow> bool wop" where
  "apply_capability_snapshot c =
     tx_seq (require_current_identity (cs_host_id c) (cs_worker_id c) (cs_fence_token c))
     (tx_bind (exact_retry ''capability'' (cs_idempotency_key c) (to_json snapshot_to_dict c)) (\<lambda>duplicate.
     if duplicate then tx_return False
     else
       tx_bind (tx_get ws_capability) (\<lambda>current.
       tx_seq (require_forward_sequence (ob_sequence (cs_observed c))
                 (map_option (\<lambda>x. ob_sequence (cs_observed x)) current))
       (tx_seq (tx_modify (\<lambda>s. s\<lparr>ws_capability := Some c\<rparr>))
       (tx_seq (remember ''capability'' (cs_idempotency_key c) (to_json snapshot_to_dict c))
       (tx_return True))))))"

definition apply_resource_snapshot :: "resource_snapshot \<Rightarrow> bool wop" where
  "apply_resource_snapshot x =
     tx_seq (require_current_identity (rs_host_id x) (rs_worker_id x) (rs_fence_token x))
     (tx_bind (exact_retry ''resource'' (rs_idempotency_key x) (to_json resources_to_dict x)) (\<lambda>duplicate.
     if duplicate then tx_return False
     else
       tx_bind (tx_get ws_resources) (\<lambda>current.
       tx_seq (require_forward_sequence (ob_sequence (rs_observed x))
                 (map_option (\<lambda>x. ob_sequence (rs_observed x)) current))
       (tx_seq (tx_modify (\<lambda>s. s\<lparr>ws_resources := Some x\<rparr>))
       (tx_seq (remember ''resource'' (rs_idempotency_key x) (to_json resources_to_dict x))
       (tx_return True))))))"

definition apply_heartbeat :: "worker_heartbeat \<Rightarrow> bool wop" where
  "apply_heartbeat b =
     tx_seq (require_current_identity (hb_host_id b) (hb_worker_id b) (hb_fence_token b))
     (tx_bind (exact_retry ''heartbeat'' (hb_idempotency_key b) (to_json heartbeat_to_dict b)) (\<lambda>duplicate.
     if duplicate then tx_return False
     else
       tx_bind (tx_get ws_heartbeat) (\<lambda>current.
       tx_seq (require_forward_sequence (ob_sequence (hb_observed b))
                 (map_option (\<lambda>x. ob_sequence (hb_observed x)) current))
       (tx_seq (tx_modify (\<lambda>s. s\<lparr>ws_heartbeat := Some b\<rparr>))
       (tx_seq (remember ''heartbeat'' (hb_idempotency_key b) (to_json heartbeat_to_dict b))
       (tx_return True))))))"

definition handle_stream :: "string \<Rightarrow> string" where
  "handle_stream h = ''execution:'' @ h"

definition apply_execution_handle :: "execution_handle \<Rightarrow> bool wop" where
  "apply_execution_handle h =
     tx_seq (require_current_identity (eh_host_id h) (eh_worker_id h) (eh_fence_token h))
     (tx_bind (exact_retry (handle_stream (eh_handle_id h)) (eh_idempotency_key h) (to_json handle_to_dict h)) (\<lambda>duplicate.
     if duplicate then tx_return False
     else
       tx_bind (tx_get (\<lambda>s. map_of (ws_identities s) (eh_handle_id h))) (\<lambda>established.
       tx_seq (tx_raise_if (established \<noteq> None \<and> Some (execution_identity h) \<noteq> established) WorkerIdentityError)
       (tx_bind (tx_get (\<lambda>s. map_of (ws_handles s) (eh_handle_id h))) (\<lambda>current.
       tx_seq (require_forward_sequence (ob_sequence (eh_observed h))
                 (map_option (\<lambda>x. ob_sequence (eh_observed x)) current))
       (tx_seq (case current of
                  None \<Rightarrow> tx_return ()
                | Some c \<Rightarrow> tx_raise_if (eh_state h \<notin> set (execution_transitions (eh_state c))) WorkerSequenceError)
       (tx_seq (tx_modify (\<lambda>s. s\<lparr>ws_identities := AList.update (eh_handle_id h) (execution_identity h) (ws_identities s)\<rparr>))
       (tx_seq (tx_modify (\<lambda>s. s\<lparr>ws_handles := AList.update (eh_handle_id h) h (ws_handles s)\<rparr>))
       (tx_seq (remember (handle_stream (eh_handle_id h)) (eh_idempotency_key h) (to_json handle_to_dict h))
       (tx_return True))))))))))"

section \<open>Readings\<close>

record usage_reconciliation =
  ur_status :: string
  ur_compared :: "string list"
  ur_unknown :: "string list"
  ur_overages :: "(string \<times> rat) list"

text \<open>\<open>ResourceUsage.DIMENSIONS\<close> with their amounts.\<close>

definition usage_dimensions :: "resource_usage \<Rightarrow> (string \<times> rat option) list" where
  "usage_dimensions u =
     [(''cpu_cores'', map_option num_val (us_cpu_cores u)),
      (''ram_bytes'', map_option of_int (us_ram_bytes u)),
      (''swap_bytes'', map_option of_int (us_swap_bytes u)),
      (''gpu_memory_bytes'', map_option of_int (us_gpu_memory_bytes u)),
      (''disk_bytes'', map_option of_int (us_disk_bytes u)),
      (''inodes'', map_option of_int (us_inodes u)),
      (''owned_process_rss_bytes'', map_option of_int (us_owned_process_rss_bytes u))]"

fun compare_dimensions ::
  "(string \<times> rat option) list \<Rightarrow> (string \<times> rat option) list \<Rightarrow>
    string list \<times> string list \<times> (string \<times> rat) list" where
  "compare_dimensions ((n, expected) # es) ((n', seen) # os) =
     (let (compared, unknown, overages) = compare_dimensions es os
      in case (expected, seen) of
           (None, None) \<Rightarrow> (compared, unknown, overages)
         | (Some x, Some y) \<Rightarrow> (n # compared, unknown, if x < y then (n, y - x) # overages else overages)
         | _ \<Rightarrow> (compared, n # unknown, overages))"
| "compare_dimensions _ _ = ([], [], [])"

definition reconcile_usage :: "resource_usage \<Rightarrow> resource_usage \<Rightarrow> usage_reconciliation" where
  "reconcile_usage reserved actual =
     (let (compared, unknown, overages) = compare_dimensions (usage_dimensions reserved) (usage_dimensions actual)
      in \<lparr>ur_status = (if overages \<noteq> [] then ''exceeded''
                       else if unknown \<noteq> [] \<or> compared = [] then ''unknown'' else ''within''),
          ur_compared = compared, ur_unknown = unknown, ur_overages = overages\<rparr>)"

definition worker_usage_reconciliation :: "worker_state \<Rightarrow> usage_reconciliation" where
  "worker_usage_reconciliation s =
     (case ws_heartbeat s of
        None \<Rightarrow> \<lparr>ur_status = ''unknown'', ur_compared = [], ur_unknown = [], ur_overages = []\<rparr>
      | Some b \<Rightarrow> reconcile_usage (hb_reserved_usage b) (hb_actual_usage b))"

text \<open>A reading is \<open>None\<close> where \<open>freshness\<close> raises: \<open>now\<close> is no timestamp.\<close>

definition worker_status :: "int \<Rightarrow> worker_state \<Rightarrow> string option \<Rightarrow> string option" where
  "worker_status clock s now =
     (case (ws_registration s, ws_heartbeat s) of
        (Some _, Some b) \<Rightarrow> do {
          fresh \<leftarrow> freshness_of clock (hb_observed b) now;
          Some (if fresh = ''stale'' then ''lost'' else if fresh \<noteq> ''fresh'' then ''unknown'' else hb_state b) }
      | _ \<Rightarrow> Some ''unknown'')"

definition execution_status :: "int \<Rightarrow> worker_state \<Rightarrow> string \<Rightarrow> string option \<Rightarrow> string option" where
  "execution_status clock s handle now =
     (case map_of (ws_handles s) handle of
        None \<Rightarrow> Some ''unknown''
      | Some h \<Rightarrow> do {
          fresh \<leftarrow> freshness_of clock (eh_observed h) now;
          Some (if eh_state h \<in> {''accepted'', ''running''} \<and> fresh = ''stale'' then ''lost''
                else if eh_state h \<in> {''accepted'', ''running''} \<and> fresh \<noteq> ''fresh'' then ''unknown''
                else eh_state h) })"

text \<open>Missing or zero confidence cannot prove readiness.\<close>

definition confident :: "observed \<Rightarrow> bool" where
  "confident b = (case ob_confidence b of None \<Rightarrow> False | Some c \<Rightarrow> 0 < num_val c)"

definition admission_status :: "int \<Rightarrow> worker_state \<Rightarrow> string option \<Rightarrow> string option" where
  "admission_status clock s now = do {
     status \<leftarrow> worker_status clock s now;
     (if status \<noteq> ''ready'' then Some status
      else case (ws_capability s, ws_resources s) of
        (Some c, Some r) \<Rightarrow> do {
          cfresh \<leftarrow> freshness_of clock (cs_observed c) now;
          (if cfresh \<noteq> ''fresh'' then Some ''unknown''
           else do {
             rfresh \<leftarrow> freshness_of clock (rs_observed r) now;
             Some (if rfresh \<noteq> ''fresh'' then ''unknown''
                   else case ws_heartbeat s of
                     None \<Rightarrow> ''unknown''
                   | Some b \<Rightarrow>
                       if hb_capability_sequence b \<noteq> Some (ob_sequence (cs_observed c))
                          \<or> hb_resource_sequence b \<noteq> Some (ob_sequence (rs_observed r))
                          \<or> \<not> confident (cs_observed c) \<or> \<not> confident (rs_observed r) \<or> \<not> confident (hb_observed b)
                       then ''unknown''
                       else let usage = ur_status (worker_usage_reconciliation s)
                            in if usage = ''exceeded'' then ''blocked''
                               else if usage = ''unknown'' then ''unknown'' else ''ready'') }) }
      | _ \<Rightarrow> Some ''unknown'') }"

definition reconciliation_to_dict :: "usage_reconciliation \<Rightarrow> json" where
  "reconciliation_to_dict u = JObj
     [(''status'', JStr (ur_status u)), (''compared_dimensions'', JArr (map JStr (ur_compared u))),
      (''unknown_dimensions'', JArr (map JStr (ur_unknown u))),
      (''overages'', JObj (map (\<lambda>(n, a). (n, JFloat a)) (ur_overages u)))]"

definition worker_to_dict :: "int \<Rightarrow> worker_state \<Rightarrow> string option \<Rightarrow> json option" where
  "worker_to_dict clock s now = do {
     status \<leftarrow> worker_status clock s now;
     admission \<leftarrow> admission_status clock s now;
     Some (JObj
       [(''registration'', opt_json registration_to_dict (ws_registration s)),
        (''capability_snapshot'', opt_json snapshot_to_dict (ws_capability s)),
        (''resource_snapshot'', opt_json resources_to_dict (ws_resources s)),
        (''heartbeat'', opt_json heartbeat_to_dict (ws_heartbeat s)),
        (''execution_handles'', JObj (map (\<lambda>(k, h). (k, handle_to_dict h)) (sort_key fst (ws_handles s)))),
        (''worker_status'', JStr status), (''admission_status'', JStr admission),
        (''usage_reconciliation'', reconciliation_to_dict (worker_usage_reconciliation s))]) }"

section \<open>Messages and histories\<close>

datatype worker_message =
    Registration host_registration
  | Capabilities capability_snapshot
  | Resources resource_snapshot
  | Heartbeat worker_heartbeat
  | Handle execution_handle

primrec apply_message :: "worker_message \<Rightarrow> bool wop" where
  "apply_message (Registration r) = apply_registration r"
| "apply_message (Capabilities c) = apply_capability_snapshot c"
| "apply_message (Resources x) = apply_resource_snapshot x"
| "apply_message (Heartbeat b) = apply_heartbeat b"
| "apply_message (Handle h) = apply_execution_handle h"

text \<open>A message as its constructor makes it: its own text reads back as itself.\<close>

primrec well_made :: "worker_message \<Rightarrow> bool" where
  "well_made (Registration r) = (registration_from_dict (to_json registration_to_dict r) = Some r)"
| "well_made (Capabilities c) = (snapshot_from_dict (to_json snapshot_to_dict c) = Some c)"
| "well_made (Resources x) = (resources_from_dict (to_json resources_to_dict x) = Some x)"
| "well_made (Heartbeat b) = (heartbeat_from_dict (to_json heartbeat_to_dict b) = Some b)"
| "well_made (Handle h) = (handle_from_dict (to_json handle_to_dict h) = Some h)"

primrec message_fence :: "worker_message \<Rightarrow> int" where
  "message_fence (Registration r) = hr_fence_token r"
| "message_fence (Capabilities c) = cs_fence_token c"
| "message_fence (Resources x) = rs_fence_token x"
| "message_fence (Heartbeat b) = hb_fence_token b"
| "message_fence (Handle h) = eh_fence_token h"

primrec message_worker :: "worker_message \<Rightarrow> string" where
  "message_worker (Registration r) = hr_worker_id r"
| "message_worker (Capabilities c) = cs_worker_id c"
| "message_worker (Resources x) = rs_worker_id x"
| "message_worker (Heartbeat b) = hb_worker_id b"
| "message_worker (Handle h) = eh_worker_id h"

inductive worker_step :: "worker_state \<Rightarrow> worker_state \<Rightarrow> bool" where
  "well_made m \<Longrightarrow> apply_message m s = Inr (changed, s') \<Longrightarrow> worker_step s s'"

section \<open>When an operation succeeds\<close>

lemma exact_retry_Inr [simp]:
  "exact_retry stream key payload s = Inr (b, s') \<longleftrightarrow>
     s' = s \<and> (case map_of (ws_payloads s) (stream, key) of None \<Rightarrow> \<not> b | Some p \<Rightarrow> b \<and> p = payload)"
  by (auto simp: exact_retry_def tx_results split: option.splits)

lemma require_current_identity_Inr [simp]:
  "require_current_identity host worker fence s = Inr (u, s') \<longleftrightarrow>
     s' = s \<and> (\<exists>r. ws_registration s = Some r \<and> host = hr_host_id r \<and> worker = hr_worker_id r \<and> fence = hr_fence_token r)"
  by (auto simp: require_current_identity_def tx_results split: option.splits)

lemma require_forward_sequence_Inr [simp]:
  "require_forward_sequence n current s = Inr (u, s') \<longleftrightarrow>
     s' = s \<and> (case current of None \<Rightarrow> True | Some c \<Rightarrow> c < n)"
  by (auto simp: require_forward_sequence_def tx_results split: option.splits)

lemma remember_Inr [simp]:
  "remember stream key payload s = Inr (u, s') \<longleftrightarrow>
     s' = s\<lparr>ws_payloads := AList.update (stream, key) payload (ws_payloads s)\<rparr>"
  by (simp add: remember_def)

text \<open>The generation: the fence of the registration, 0 before the first one.\<close>

definition generation :: "worker_state \<Rightarrow> int" where
  "generation s = (case ws_registration s of None \<Rightarrow> 0 | Some r \<Rightarrow> hr_fence_token r)"

definition worker_name :: "worker_state \<Rightarrow> string option" where
  "worker_name s = map_option hr_worker_id (ws_registration s)"

text \<open>What an accepted message does: it was an exact retry, or it moves its stream forward.\<close>

definition is_current :: "string \<Rightarrow> string \<Rightarrow> int \<Rightarrow> worker_state \<Rightarrow> bool" where
  "is_current host worker fence s \<longleftrightarrow>
     (\<exists>r. ws_registration s = Some r \<and> host = hr_host_id r \<and> worker = hr_worker_id r \<and> fence = hr_fence_token r)"

definition remembered :: "string \<Rightarrow> string \<Rightarrow> json \<Rightarrow> worker_state \<Rightarrow> bool" where
  "remembered stream key payload s \<longleftrightarrow> map_of (ws_payloads s) (stream, key) = Some payload"

definition noted :: "string \<Rightarrow> string \<Rightarrow> json \<Rightarrow> worker_state \<Rightarrow> worker_state" where
  "noted stream key payload s = s\<lparr>ws_payloads := AList.update (stream, key) payload (ws_payloads s)\<rparr>"

definition forward :: "('a \<Rightarrow> observed) \<Rightarrow> 'a \<Rightarrow> 'a option \<Rightarrow> bool" where
  "forward f x current \<longleftrightarrow> (case current of None \<Rightarrow> True | Some y \<Rightarrow> ob_sequence (f y) < ob_sequence (f x))"

lemma apply_registration_Inr:
  "apply_registration r s = Inr (b, s') \<longleftrightarrow>
     (\<forall>p. ws_registration s = Some p \<longrightarrow>
        hr_host_id r = hr_host_id p \<and> hr_worker_id r = hr_worker_id p \<and> hr_fence_token p \<le> hr_fence_token r) \<and>
     (if b
      then map_of (ws_payloads s) (''registration'', hr_idempotency_key r) = None \<and>
        (\<forall>p. ws_registration s = Some p \<longrightarrow> hr_fence_token p < hr_fence_token r) \<and>
        s' = noted ''registration'' (hr_idempotency_key r) (to_json registration_to_dict r)
               ((if ws_registration s = None then s else new_generation s)\<lparr>ws_registration := Some r\<rparr>)
      else s' = s \<and> remembered ''registration'' (hr_idempotency_key r) (to_json registration_to_dict r) s)"
  unfolding apply_registration_def remembered_def noted_def tx_results
  by (cases "map_of (ws_payloads s) (''registration'', hr_idempotency_key r)"; cases "ws_registration s")
    (simp_all add: tx_results ex_bool_eq, auto)

lemma apply_capability_snapshot_Inr:
  "apply_capability_snapshot c s = Inr (b, s') \<longleftrightarrow>
     is_current (cs_host_id c) (cs_worker_id c) (cs_fence_token c) s \<and>
     (if b
      then map_of (ws_payloads s) (''capability'', cs_idempotency_key c) = None \<and> forward cs_observed c (ws_capability s) \<and>
        s' = noted ''capability'' (cs_idempotency_key c) (to_json snapshot_to_dict c) (s\<lparr>ws_capability := Some c\<rparr>)
      else s' = s \<and> remembered ''capability'' (cs_idempotency_key c) (to_json snapshot_to_dict c) s)"
  unfolding apply_capability_snapshot_def is_current_def remembered_def noted_def forward_def tx_results
  by (cases "map_of (ws_payloads s) (''capability'', cs_idempotency_key c)"; cases "ws_capability s")
    (auto simp: tx_results)

lemma apply_resource_snapshot_Inr:
  "apply_resource_snapshot x s = Inr (b, s') \<longleftrightarrow>
     is_current (rs_host_id x) (rs_worker_id x) (rs_fence_token x) s \<and>
     (if b
      then map_of (ws_payloads s) (''resource'', rs_idempotency_key x) = None \<and> forward rs_observed x (ws_resources s) \<and>
        s' = noted ''resource'' (rs_idempotency_key x) (to_json resources_to_dict x) (s\<lparr>ws_resources := Some x\<rparr>)
      else s' = s \<and> remembered ''resource'' (rs_idempotency_key x) (to_json resources_to_dict x) s)"
  unfolding apply_resource_snapshot_def is_current_def remembered_def noted_def forward_def tx_results
  by (cases "map_of (ws_payloads s) (''resource'', rs_idempotency_key x)"; cases "ws_resources s")
    (auto simp: tx_results)

lemma apply_heartbeat_Inr:
  "apply_heartbeat x s = Inr (b, s') \<longleftrightarrow>
     is_current (hb_host_id x) (hb_worker_id x) (hb_fence_token x) s \<and>
     (if b
      then map_of (ws_payloads s) (''heartbeat'', hb_idempotency_key x) = None \<and> forward hb_observed x (ws_heartbeat s) \<and>
        s' = noted ''heartbeat'' (hb_idempotency_key x) (to_json heartbeat_to_dict x) (s\<lparr>ws_heartbeat := Some x\<rparr>)
      else s' = s \<and> remembered ''heartbeat'' (hb_idempotency_key x) (to_json heartbeat_to_dict x) s)"
  unfolding apply_heartbeat_def is_current_def remembered_def noted_def forward_def tx_results
  by (cases "map_of (ws_payloads s) (''heartbeat'', hb_idempotency_key x)"; cases "ws_heartbeat s")
    (auto simp: tx_results)

lemma apply_execution_handle_Inr:
  "apply_execution_handle h s = Inr (b, s') \<longleftrightarrow>
     is_current (eh_host_id h) (eh_worker_id h) (eh_fence_token h) s \<and>
     (if b
      then map_of (ws_payloads s) (handle_stream (eh_handle_id h), eh_idempotency_key h) = None \<and>
        map_of (ws_identities s) (eh_handle_id h) \<in> {None, Some (execution_identity h)} \<and>
        forward eh_observed h (map_of (ws_handles s) (eh_handle_id h)) \<and>
        (\<forall>c. map_of (ws_handles s) (eh_handle_id h) = Some c \<longrightarrow> eh_state h \<in> set (execution_transitions (eh_state c))) \<and>
        s' = noted (handle_stream (eh_handle_id h)) (eh_idempotency_key h) (to_json handle_to_dict h)
               (s\<lparr>ws_identities := AList.update (eh_handle_id h) (execution_identity h) (ws_identities s),
                  ws_handles := AList.update (eh_handle_id h) h (ws_handles s)\<rparr>)
      else s' = s \<and> remembered (handle_stream (eh_handle_id h)) (eh_idempotency_key h) (to_json handle_to_dict h) s)"
  unfolding apply_execution_handle_def is_current_def remembered_def noted_def forward_def tx_results
  by (cases "map_of (ws_payloads s) (handle_stream (eh_handle_id h), eh_idempotency_key h)";
      cases "map_of (ws_handles s) (eh_handle_id h)"; cases "map_of (ws_identities s) (eh_handle_id h)")
    (simp_all add: tx_results ex_bool_eq, auto)

lemmas apply_Inr = apply_registration_Inr apply_capability_snapshot_Inr apply_resource_snapshot_Inr
  apply_heartbeat_Inr apply_execution_handle_Inr

section \<open>Invariant\<close>

definition terminal_execution :: "string \<Rightarrow> bool" where
  "terminal_execution st \<longleftrightarrow> st \<in> {''exited'', ''failed'', ''cancelled'', ''lost''}"

definition identity_fence :: "identity_key \<Rightarrow> int" where
  "identity_fence i = (case i of (_, _, _, _, f, _, _) \<Rightarrow> f)"

text \<open>All evidence in the projection belongs to the current generation and to known executions.\<close>

definition worker_ok :: "worker_state \<Rightarrow> bool" where
  "worker_ok s \<longleftrightarrow>
     (ws_registration s = None \<longrightarrow> ws_identities s = []) \<and>
     (\<forall>r. ws_registration s = Some r \<longrightarrow> 1 \<le> hr_fence_token r) \<and>
     (\<forall>c. ws_capability s = Some c \<longrightarrow> is_current (cs_host_id c) (cs_worker_id c) (cs_fence_token c) s) \<and>
     (\<forall>x. ws_resources s = Some x \<longrightarrow> is_current (rs_host_id x) (rs_worker_id x) (rs_fence_token x) s) \<and>
     (\<forall>b. ws_heartbeat s = Some b \<longrightarrow> is_current (hb_host_id b) (hb_worker_id b) (hb_fence_token b) s) \<and>
     (\<forall>k h. map_of (ws_handles s) k = Some h \<longrightarrow> eh_handle_id h = k \<and>
        is_current (eh_host_id h) (eh_worker_id h) (eh_fence_token h) s \<and>
        map_of (ws_identities s) k = Some (execution_identity h)) \<and>
     (\<forall>k i. map_of (ws_identities s) k = Some i \<longrightarrow> identity_fence i \<le> generation s)"

lemma new_worker_ok [simp]: "worker_ok new_worker"
  by (simp add: worker_ok_def new_worker_def)

lemma is_current_simps [simp]:
  "is_current h w f (s\<lparr>ws_capability := c\<rparr>) = is_current h w f s"
  "is_current h w f (s\<lparr>ws_resources := x\<rparr>) = is_current h w f s"
  "is_current h w f (s\<lparr>ws_heartbeat := b\<rparr>) = is_current h w f s"
  "is_current h w f (s\<lparr>ws_identities := i, ws_handles := a\<rparr>) = is_current h w f s"
  "is_current h w f (noted st k p s) = is_current h w f s"
  by (simp_all add: is_current_def noted_def)

lemma generation_simps [simp]:
  "generation (s\<lparr>ws_capability := c\<rparr>) = generation s"
  "generation (s\<lparr>ws_resources := x\<rparr>) = generation s"
  "generation (s\<lparr>ws_heartbeat := b\<rparr>) = generation s"
  "generation (s\<lparr>ws_identities := i, ws_handles := a\<rparr>) = generation s"
  "generation (noted st k p s) = generation s"
  by (simp_all add: generation_def noted_def)

lemma noted_simps [simp]:
  "ws_registration (noted st k p s) = ws_registration s"
  "ws_capability (noted st k p s) = ws_capability s"
  "ws_resources (noted st k p s) = ws_resources s"
  "ws_heartbeat (noted st k p s) = ws_heartbeat s"
  "ws_handles (noted st k p s) = ws_handles s"
  "ws_identities (noted st k p s) = ws_identities s"
  "map_of (ws_payloads (noted st k p s)) = (map_of (ws_payloads s))((st, k) \<mapsto> p)"
  by (simp_all add: noted_def update_conv')

lemma new_generation_simps [simp]:
  "ws_capability (new_generation s) = None" "ws_resources (new_generation s) = None"
  "ws_heartbeat (new_generation s) = None" "ws_handles (new_generation s) = []"
  "ws_identities (new_generation s) = ws_identities s"
  by (simp_all add: new_generation_def clear_generation_idempotency_def)

lemma current_generation: "is_current h w f s \<Longrightarrow> f = generation s"
  by (auto simp: is_current_def generation_def)

section \<open>What a history can do\<close>

definition forwarded :: "('a \<Rightarrow> observed) \<Rightarrow> 'a option \<Rightarrow> 'a option \<Rightarrow> bool" where
  "forwarded f a b \<longleftrightarrow>
     (case a of None \<Rightarrow> True
      | Some x \<Rightarrow> (case b of None \<Rightarrow> False
          | Some y \<Rightarrow> y = x \<or> ob_sequence (f x) < ob_sequence (f y)))"

definition handle_forward :: "execution_handle \<Rightarrow> execution_handle \<Rightarrow> bool" where
  "handle_forward x y \<longleftrightarrow>
     y = x \<or> (ob_sequence (eh_observed x) < ob_sequence (eh_observed y)
       \<and> execution_identity y = execution_identity x
       \<and> (terminal_execution (eh_state x) \<longrightarrow> eh_state y = eh_state x))"

definition same_generation :: "worker_state \<Rightarrow> worker_state \<Rightarrow> bool" where
  "same_generation s t \<longleftrightarrow>
     ws_registration t = ws_registration s \<and>
     map_of (ws_payloads s) \<subseteq>\<^sub>m map_of (ws_payloads t) \<and>
     forwarded cs_observed (ws_capability s) (ws_capability t) \<and>
     forwarded rs_observed (ws_resources s) (ws_resources t) \<and>
     forwarded hb_observed (ws_heartbeat s) (ws_heartbeat t) \<and>
     (\<forall>k x. map_of (ws_handles s) k = Some x \<longrightarrow>
        (\<exists>y. map_of (ws_handles t) k = Some y \<and> handle_forward x y))"

definition worker_grows :: "worker_state \<Rightarrow> worker_state \<Rightarrow> bool" where
  "worker_grows s t \<longleftrightarrow> (worker_ok s \<longrightarrow>
     worker_ok t \<and> generation s \<le> generation t \<and>
     map_of (ws_identities s) \<subseteq>\<^sub>m map_of (ws_identities t) \<and>
     (ws_registration s \<noteq> None \<longrightarrow> worker_name t = worker_name s) \<and>
     (generation t = generation s \<longrightarrow> same_generation s t))"

lemma forwarded_refl [simp]: "forwarded f a a"
  by (simp add: forwarded_def split: option.splits)

lemma forwarded_trans: "forwarded f a b \<Longrightarrow> forwarded f b c \<Longrightarrow> forwarded f a c"
  by (auto simp: forwarded_def split: option.splits)

lemma handle_forward_refl [simp]: "handle_forward x x"
  by (simp add: handle_forward_def)

lemma handle_forward_trans: "handle_forward x y \<Longrightarrow> handle_forward y z \<Longrightarrow> handle_forward x z"
  by (auto simp: handle_forward_def)

lemma forward_forwarded: "forward f x a \<Longrightarrow> forwarded f a (Some x)"
  by (auto simp: forward_def forwarded_def split: option.splits)

lemma same_generation_refl: "same_generation s s"
  by (auto simp: same_generation_def)

lemma same_generation_trans:
  assumes "same_generation s t" and "same_generation t u"
  shows "same_generation s u"
  unfolding same_generation_def
proof (intro conjI allI impI)
  fix k x assume "map_of (ws_handles s) k = Some x"
  with assms(1) obtain y where y: "map_of (ws_handles t) k = Some y" "handle_forward x y"
    unfolding same_generation_def by blast
  with assms(2) obtain z where "map_of (ws_handles u) k = Some z" "handle_forward y z"
    unfolding same_generation_def by blast
  with y(2) show "\<exists>z. map_of (ws_handles u) k = Some z \<and> handle_forward x z"
    using handle_forward_trans by blast
qed (use assms in \<open>auto simp: same_generation_def intro: forwarded_trans map_le_trans\<close>)

lemma worker_grows_refl: "worker_grows s s"
  by (simp add: worker_grows_def same_generation_refl)

lemma worker_grows_trans: "worker_grows s t \<Longrightarrow> worker_grows t u \<Longrightarrow> worker_grows s u"
  unfolding worker_grows_def
  by (auto simp: worker_name_def intro: map_le_trans same_generation_trans [of s t u])

lemma terminal_transitions: "terminal_execution st \<Longrightarrow> execution_transitions st = [st]"
  by (auto simp: terminal_execution_def execution_transitions_def)

lemma registered_fence: "registration_from_dict v = Some r \<Longrightarrow> 1 \<le> hr_fence_token r"
  by (auto simp: registration_from_dict_def bind_eq_Some_conv registration_post_init_Some integer_Some)

lemma registration_grows:
  assumes "well_made (Registration r)" and "apply_registration r s = Inr (b, s')"
  shows "worker_grows s s'"
proof (cases b)
  case False
  with assms(2) show ?thesis
    by (simp add: apply_registration_Inr worker_grows_refl)
next
  case True
  have r: "1 \<le> hr_fence_token r"
    using assms(1) registered_fence by (simp add: to_json_def)
  show ?thesis
    unfolding worker_grows_def
  proof (intro impI)
    assume ok: "worker_ok s"
    show "worker_ok s' \<and> generation s \<le> generation s' \<and> map_of (ws_identities s) \<subseteq>\<^sub>m map_of (ws_identities s') \<and>
      (ws_registration s \<noteq> None \<longrightarrow> worker_name s' = worker_name s) \<and> (generation s' = generation s \<longrightarrow> same_generation s s')"
      using True assms(2) ok r
      by (cases "ws_registration s")
        (fastforce simp: apply_registration_Inr worker_ok_def generation_def worker_name_def is_current_def)+
  qed
qed

lemma handle_grows:
  assumes "apply_execution_handle h s = Inr (b, s')"
  shows "worker_grows s s'"
proof (cases b)
  case False
  with assms show ?thesis
    by (simp add: apply_execution_handle_Inr worker_grows_refl)
next
  case True
  from assms True have a: "is_current (eh_host_id h) (eh_worker_id h) (eh_fence_token h) s"
      "map_of (ws_payloads s) (handle_stream (eh_handle_id h), eh_idempotency_key h) = None"
      "map_of (ws_identities s) (eh_handle_id h) \<in> {None, Some (execution_identity h)}"
      "forward eh_observed h (map_of (ws_handles s) (eh_handle_id h))"
      "\<forall>c. map_of (ws_handles s) (eh_handle_id h) = Some c \<longrightarrow> eh_state h \<in> set (execution_transitions (eh_state c))"
    and s': "s' = noted (handle_stream (eh_handle_id h)) (eh_idempotency_key h) (to_json handle_to_dict h)
      (s\<lparr>ws_identities := AList.update (eh_handle_id h) (execution_identity h) (ws_identities s),
         ws_handles := AList.update (eh_handle_id h) h (ws_handles s)\<rparr>)"
    by (simp_all add: apply_execution_handle_Inr)
  show ?thesis
    unfolding worker_grows_def
  proof (intro impI conjI)
    assume ok: "worker_ok s"
    from a current_generation have g: "identity_fence (execution_identity h) = generation s"
      by (simp add: identity_fence_def execution_identity_def)
    with ok a show "worker_ok s'"
      by (auto simp: s' worker_ok_def update_conv' is_current_def)
    show "map_of (ws_identities s) \<subseteq>\<^sub>m map_of (ws_identities s')"
      using a by (auto simp: s' update_conv' map_le_def)
    show "same_generation s s'"
      unfolding same_generation_def
    proof (intro conjI allI impI)
      show "map_of (ws_payloads s) \<subseteq>\<^sub>m map_of (ws_payloads s')"
        using a by (auto simp: s' map_le_def)
      fix k x assume x: "map_of (ws_handles s) k = Some x"
      show "\<exists>y. map_of (ws_handles s') k = Some y \<and> handle_forward x y"
      proof (cases "k = eh_handle_id h")
        case True
        with x ok have "map_of (ws_identities s) k = Some (execution_identity x)"
          by (auto simp: worker_ok_def)
        with True a x have "handle_forward x h"
          by (auto simp: handle_forward_def forward_def dest!: terminal_transitions)
        with True show ?thesis by (simp add: s' update_conv')
      qed (simp add: s' update_conv' x)
    qed (simp_all add: s')
  qed (simp_all add: s' worker_name_def)
qed

lemma capability_grows: "apply_capability_snapshot c s = Inr (b, s') \<Longrightarrow> worker_grows s s'"
  by (cases b) (auto simp: apply_capability_snapshot_Inr worker_grows_refl worker_grows_def worker_ok_def worker_name_def
      same_generation_def map_le_def forward_forwarded)

lemma resource_grows: "apply_resource_snapshot x s = Inr (b, s') \<Longrightarrow> worker_grows s s'"
  by (cases b) (auto simp: apply_resource_snapshot_Inr worker_grows_refl worker_grows_def worker_ok_def worker_name_def
      same_generation_def map_le_def forward_forwarded)

lemma heartbeat_grows: "apply_heartbeat x s = Inr (b, s') \<Longrightarrow> worker_grows s s'"
  by (cases b) (auto simp: apply_heartbeat_Inr worker_grows_refl worker_grows_def worker_ok_def worker_name_def
      same_generation_def map_le_def forward_forwarded)

lemma worker_step_grows: "worker_step s s' \<Longrightarrow> worker_grows s s'"
proof (induction rule: worker_step.induct)
  case (1 m s changed s')
  then show ?case
    by (cases m) (auto intro: registration_grows capability_grows resource_grows heartbeat_grows handle_grows)
qed

lemma worker_history_grows: "worker_step\<^sup>*\<^sup>* s s' \<Longrightarrow> worker_grows s s'"
  by (rule steps_preorder [of worker_step s s' worker_grows]) (auto intro: worker_grows_refl worker_grows_trans worker_step_grows)

lemma reachable_ok: "worker_step\<^sup>*\<^sup>* new_worker s \<Longrightarrow> worker_ok s"
  using worker_history_grows [of new_worker s] by (simp add: worker_grows_def)

lemma map_le_SomeD: "m \<subseteq>\<^sub>m m' \<Longrightarrow> m k = Some v \<Longrightarrow> m' k = Some v"
  by (auto simp: map_le_def dom_def)

lemma ok_handle:
  assumes "worker_ok s" and "map_of (ws_handles s) k = Some h"
  shows "eh_fence_token h = generation s" and "map_of (ws_identities s) k = Some (execution_identity h)"
proof -
  have "is_current (eh_host_id h) (eh_worker_id h) (eh_fence_token h) s"
    and "map_of (ws_identities s) k = Some (execution_identity h)"
    using assms unfolding worker_ok_def by blast+
  then show "eh_fence_token h = generation s" "map_of (ws_identities s) k = Some (execution_identity h)"
    using current_generation by auto
qed

section \<open>Generations are fenced\<close>

definition accepts :: "string \<Rightarrow> int \<Rightarrow> worker_state \<Rightarrow> bool" where
  "accepts worker fence s \<longleftrightarrow>
     (\<exists>m b s'. apply_message m s = Inr (b, s') \<and> (\<forall>r. m \<noteq> Registration r)
        \<and> message_worker m = worker \<and> message_fence m = fence)"

lemma evidence_is_current:
  "apply_message m s = Inr (b, s') \<Longrightarrow> \<forall>r. m \<noteq> Registration r \<Longrightarrow>
    generation s = message_fence m \<and> worker_name s = Some (message_worker m)"
  by (cases m) (auto simp: apply_Inr is_current_def generation_def worker_name_def)

interpretation worker_fence: fenced worker_ok worker_step generation worker_name accepts
proof
  fix s s' assume "worker_ok s" and "worker_step s s'"
  with worker_step_grows show ok: "worker_ok s'" and "generation s \<le> generation s'"
    by (auto simp: worker_grows_def)
  from \<open>worker_ok s\<close> \<open>worker_step s s'\<close> worker_step_grows [of s s']
  show "generation s' = generation s \<Longrightarrow> worker_name s' = worker_name s"
    by (auto simp: worker_grows_def same_generation_def worker_name_def)
qed (auto simp: accepts_def dest: evidence_is_current)

section \<open>Properties\<close>

text \<open>C17. A superseded generation of a worker is dead: once evidence under a fence was accepted and a
  later registration moved the fence on, no snapshot, heartbeat or execution handle that carries the
  old fence is accepted again, whatever arrives in between and whatever it says.\<close>

theorem superseded_generation_is_refused:
  assumes "worker_step\<^sup>*\<^sup>* new_worker s" and "apply_message m s = Inr (b, s')" and "\<forall>r. m \<noteq> Registration r"
    and "worker_step\<^sup>*\<^sup>* s s1" and "generation s1 \<noteq> message_fence m" and "worker_step\<^sup>*\<^sup>* s1 s2"
    and "\<forall>r. m' \<noteq> Registration r" and "message_fence m' = message_fence m"
  shows "\<exists>e. apply_message m' s2 = Inl e"
proof -
  have "accepts (message_worker m) (message_fence m) s"
    using assms(2,3) by (auto simp: accepts_def)
  from worker_fence.stale_token_rejected [OF reachable_ok [OF assms(1)] this assms(4,5,6), of "message_worker m'"]
  show ?thesis
    using assms(7,8) by (cases "apply_message m' s2") (auto simp: accepts_def)
qed

text \<open>C22. An execution that ended stays as it ended: after an accepted handle reported \<open>exited\<close>,
  \<open>failed\<close>, \<open>cancelled\<close> or \<open>lost\<close>, whatever the projection shows later under that handle has the
  same state and is the same execution of the same job, also after the worker registered again.\<close>

theorem ended_execution_is_final:
  assumes "worker_step\<^sup>*\<^sup>* new_worker s" and "map_of (ws_handles s) k = Some x" and "terminal_execution (eh_state x)"
    and "worker_step\<^sup>*\<^sup>* s s'" and "map_of (ws_handles s') k = Some y"
  shows "eh_state y = eh_state x \<and> execution_identity y = execution_identity x"
proof -
  have ok: "worker_ok s" and grows: "worker_grows s s'"
    using assms reachable_ok worker_history_grows by blast+
  then have ok': "worker_ok s'" and ids: "map_of (ws_identities s) \<subseteq>\<^sub>m map_of (ws_identities s')"
    by (auto simp: worker_grows_def)
  note x = ok_handle [OF ok assms(2)] and y = ok_handle [OF ok' assms(5)]
  have same: "execution_identity y = execution_identity x"
    using map_le_SomeD [OF ids x(2)] y(2) by simp
  with x(1) y(1) have "generation s' = generation s"
    by (simp add: execution_identity_def)
  with grows ok have "same_generation s s'"
    by (simp add: worker_grows_def)
  then have "handle_forward x y"
    using assms(2,5) unfolding same_generation_def by (metis option.inject)
  with assms(3) same show ?thesis
    by (auto simp: handle_forward_def)
qed

lemma exact_retry_lasts:
  assumes "worker_step\<^sup>*\<^sup>* new_worker s" and "well_made m" and "apply_message m s = Inr (b, s1)"
    and "worker_step\<^sup>*\<^sup>* s1 s2" and "generation s2 = generation s1"
  shows "apply_message m s2 = Inr (False, s2)"
proof -
  have "worker_ok s1"
    using reachable_ok assms by (metis (full_types) rtranclp.rtrancl_into_rtrancl worker_step.intros)
  with worker_history_grows [OF assms(4)] assms(5)
  have g: "ws_registration s2 = ws_registration s1" "map_of (ws_payloads s1) \<subseteq>\<^sub>m map_of (ws_payloads s2)"
    by (simp_all add: worker_grows_def same_generation_def)
  then have r: "remembered st k p s1 \<Longrightarrow> remembered st k p s2" for st k p
    by (auto simp: remembered_def dest: map_le_SomeD)
  have n: "remembered st k p (noted st k p t)" for st k p t
    by (simp add: remembered_def)
  show ?thesis
    using assms(3) g(1) by (cases m; cases b) (auto simp: apply_Inr is_current_def intro!: r n)
qed

text \<open>A message may be delivered any number of times: after it was accepted, and as long as the
  worker does not register anew, delivering it again is answered with \<open>False\<close> and changes nothing,
  whatever was accepted in between.\<close>

theorem exact_retry_changes_nothing:
  assumes "worker_step\<^sup>*\<^sup>* new_worker s" and "well_made m" and "apply_message m s = Inr (b, s1)"
    and "worker_step\<^sup>*\<^sup>* s1 s2" and "generation s2 = generation s1"
  shows "apply_message m s2 = Inr (False, s2)"
  by (rule exact_retry_lasts [OF assms])

text \<open>The amounts of each dimension, reserved and observed.\<close>

definition usage_pairs :: "resource_usage \<Rightarrow> resource_usage \<Rightarrow> (rat option \<times> rat option) list" where
  "usage_pairs reserved actual =
     zip (map snd (usage_dimensions reserved)) (map snd (usage_dimensions actual))"

lemma compare_dimensions_spec:
  assumes "length es = length os" and "compare_dimensions es os = (compared, unknown, overages)"
  shows "(overages \<noteq> [] \<longleftrightarrow> (\<exists>x y. (Some x, Some y) \<in> set (zip (map snd es) (map snd os)) \<and> x < y)) \<and>
    (unknown \<noteq> [] \<longleftrightarrow> (\<exists>(a, b) \<in> set (zip (map snd es) (map snd os)). (a = None) \<noteq> (b = None))) \<and>
    (compared \<noteq> [] \<longleftrightarrow> (\<exists>x y. (Some x, Some y) \<in> set (zip (map snd es) (map snd os))))"
  using assms
proof (induction es os arbitrary: compared unknown overages rule: compare_dimensions.induct)
  case (1 n expected es n' seen os)
  obtain c u z where r: "compare_dimensions es os = (c, u, z)"
    by (metis prod_cases3)
  from 1(1) [OF _ r] 1(2,3) r show ?case
    by (cases expected; cases seen) (auto split: if_splits)
qed auto

lemma usage_within_iff:
  "ur_status (reconcile_usage r a) = ''within'' \<longleftrightarrow>
     (\<exists>x y. (Some x, Some y) \<in> set (usage_pairs r a)) \<and>
     (\<forall>(x, y) \<in> set (usage_pairs r a). (x = None \<longleftrightarrow> y = None) \<and> (\<forall>q p. x = Some q \<longrightarrow> y = Some p \<longrightarrow> p \<le> q))"
proof -
  obtain c u z where r: "compare_dimensions (usage_dimensions r) (usage_dimensions a) = (c, u, z)"
    by (metis prod_cases3)
  have "length (usage_dimensions r) = length (usage_dimensions a)"
    by (simp add: usage_dimensions_def)
  from compare_dimensions_spec [OF this r] show ?thesis
    unfolding usage_pairs_def reconcile_usage_def r
    by (fastforce simp: Let_def not_less split: if_splits)
qed

text \<open>A worker is ready for dispatch only on fresh, correlated and confident evidence: it is
  registered, its heartbeat says \<open>ready\<close>, the heartbeat and both snapshots are fresh, the heartbeat
  refers to exactly these snapshots, all three carry a positive confidence, and no dimension of the
  observed use is over its reservation or known on one side only.\<close>

theorem ready_worker_has_fresh_evidence:
  assumes "admission_status clock s now = Some ''ready''"
  shows "\<exists>r c x b. ws_registration s = Some r \<and> ws_capability s = Some c \<and> ws_resources s = Some x \<and> ws_heartbeat s = Some b
    \<and> hb_state b = ''ready'' \<and> freshness_of clock (hb_observed b) now = Some ''fresh''
    \<and> freshness_of clock (cs_observed c) now = Some ''fresh'' \<and> freshness_of clock (rs_observed x) now = Some ''fresh''
    \<and> hb_capability_sequence b = Some (ob_sequence (cs_observed c))
    \<and> hb_resource_sequence b = Some (ob_sequence (rs_observed x))
    \<and> confident (cs_observed c) \<and> confident (rs_observed x) \<and> confident (hb_observed b)
    \<and> (\<forall>(q, p) \<in> set (usage_pairs (hb_reserved_usage b) (hb_actual_usage b)).
         (q = None \<longleftrightarrow> p = None) \<and> (\<forall>m n. q = Some m \<longrightarrow> p = Some n \<longrightarrow> n \<le> m))"
proof -
  obtain r b where rb: "ws_registration s = Some r" "ws_heartbeat s = Some b"
    and fresh: "freshness_of clock (hb_observed b) now = Some ''fresh''" and st: "hb_state b = ''ready''"
    using assms by (auto simp: admission_status_def worker_status_def bind_eq_Some_conv split: option.splits if_splits)
  then have w: "worker_status clock s now = Some ''ready''"
    by (simp add: worker_status_def)
  obtain c x where cx: "ws_capability s = Some c" "ws_resources s = Some x"
    using assms w by (auto simp: admission_status_def split: option.splits)
  have u: "ur_status (reconcile_usage (hb_reserved_usage b) (hb_actual_usage b)) \<in> {''exceeded'', ''unknown'', ''within''}"
    by (auto simp: reconcile_usage_def Let_def split: prod.splits)
  have "freshness_of clock (cs_observed c) now = Some ''fresh'' \<and> freshness_of clock (rs_observed x) now = Some ''fresh''
      \<and> hb_capability_sequence b = Some (ob_sequence (cs_observed c))
      \<and> hb_resource_sequence b = Some (ob_sequence (rs_observed x))
      \<and> confident (cs_observed c) \<and> confident (rs_observed x) \<and> confident (hb_observed b)
      \<and> ur_status (reconcile_usage (hb_reserved_usage b) (hb_actual_usage b)) = ''within''"
    using assms u by (auto simp: admission_status_def w rb cx bind_eq_Some_conv worker_usage_reconciliation_def Let_def split: if_splits)
  with rb cx fresh st show ?thesis
    by (auto simp: usage_within_iff)
qed

text \<open>Within a generation an idempotency key names one message: once a heartbeat was accepted
  under a key, a different heartbeat of the same generation that reuses the key is refused, in every
  later state. The comparison is on canonical text, so this rests on the text of a contract
  identifying the message.\<close>

theorem idempotency_key_names_one_message:
  assumes "worker_step\<^sup>*\<^sup>* new_worker s" and "well_made (Heartbeat x)" and "apply_heartbeat x s = Inr (b, s1)"
    and "worker_step\<^sup>*\<^sup>* s1 s2" and "generation s2 = generation s1"
    and "well_made (Heartbeat y)" and "hb_idempotency_key y = hb_idempotency_key x" and "y \<noteq> x"
  shows "\<exists>e. apply_heartbeat y s2 = Inl e"
proof (cases "apply_heartbeat y s2")
  case (Inr r)
  have "apply_message (Heartbeat x) s2 = Inr (False, s2)"
    using exact_retry_lasts [OF assms(1,2) _ assms(4,5)] assms(3) by simp
  then have "remembered ''heartbeat'' (hb_idempotency_key x) (to_json heartbeat_to_dict x) s2"
    by (simp add: apply_heartbeat_Inr)
  moreover have "to_json heartbeat_to_dict y \<noteq> to_json heartbeat_to_dict x"
    using heartbeat_wire.text_identifies [of _ y _ x] assms(2,6,8) by auto
  ultimately show ?thesis
    using Inr assms(7) by (cases r) (auto simp: apply_heartbeat_Inr remembered_def split: if_splits)
qed simp

section \<open>Examples\<close>

definition sample_registration :: "string \<Rightarrow> int \<Rightarrow> host_registration" where
  "sample_registration key fence =
     \<lparr>hr_registration_id = key, hr_host_id = ''host-a'', hr_worker_id = ''worker-a'', hr_roles = [''execution''],
      hr_registered_at = ''2026-07-25T10:00:00Z'', hr_idempotency_key = key, hr_fence_token = fence, hr_labels = []\<rparr>"

definition sample_handle :: "string \<Rightarrow> int \<Rightarrow> execution_handle" where
  "sample_handle st n =
     \<lparr>eh_handle_id = ''h1'', eh_job_id = ''job-1'', eh_attempt_id = ''att-1'', eh_host_id = ''host-a'',
      eh_worker_id = ''worker-a'', eh_state = st, eh_observed = sample_observed n,
      eh_idempotency_key = ''h1-'' @ pad 2 n, eh_fence_token = 1, eh_reservation_id = Some ''rsv-1'',
      eh_process_id = Some ''p1'', eh_reserved_usage = sample_usage 8, eh_actual_usage = sample_usage 4,
      eh_artifact_refs = []\<rparr>"

lemma sample_well_made:
  "well_made (Registration (sample_registration ''reg-1'' 1))"
  "well_made (Registration (sample_registration ''reg-2'' 2))"
  "well_made (Heartbeat (sample_heartbeat 1 1))"
  "well_made (Handle (sample_handle ''running'' 1))"
  "well_made (Handle (sample_handle ''exited'' 2))"
  "well_made (Handle (sample_handle ''exited'' 3))"
  by code_simp+

text \<open>The state after a sequence of deliveries; a refused message leaves it as it was.\<close>

definition deliver :: "worker_message list \<Rightarrow> worker_state \<Rightarrow> worker_state" where
  "deliver ms s = fold (\<lambda>m. tx_state (apply_message m)) ms s"

lemma deliver_steps: "list_all well_made ms \<Longrightarrow> worker_step\<^sup>*\<^sup>* s (deliver ms s)"
proof (induction ms arbitrary: s)
  case (Cons m ms)
  have "worker_step\<^sup>*\<^sup>* s (tx_state (apply_message m) s)"
    using Cons.prems by (auto simp: tx_state_def intro: worker_step.intros split: sum.splits)
  also have "worker_step\<^sup>*\<^sup>* (tx_state (apply_message m) s) (deliver ms (tx_state (apply_message m) s))"
    using Cons by simp
  finally show ?case by (simp add: deliver_def)
qed (simp add: deliver_def)

definition registered :: worker_state where
  "registered = deliver [Registration (sample_registration ''reg-1'' 1)] new_worker"

definition superseded :: worker_state where
  "superseded = deliver [Registration (sample_registration ''reg-2'' 2)] registered"

definition ended :: worker_state where
  "ended = deliver [Handle (sample_handle ''running'' 1), Handle (sample_handle ''exited'' 2)] registered"

definition ended_again :: worker_state where
  "ended_again = deliver [Handle (sample_handle ''exited'' 3)] ended"

lemma sample_steps:
  "worker_step\<^sup>*\<^sup>* new_worker registered" "worker_step\<^sup>*\<^sup>* registered superseded"
  "worker_step\<^sup>*\<^sup>* registered ended" "worker_step\<^sup>*\<^sup>* ended ended_again"
  unfolding registered_def superseded_def ended_def ended_again_def
  by (rule deliver_steps; simp only: list.pred_inject sample_well_made simp_thms)+

lemma sample_results:
  "\<exists>s'. apply_message (Heartbeat (sample_heartbeat 1 1)) registered = Inr (True, s')"
  "generation superseded = 2"
  "map_of (ws_handles ended) ''h1'' = Some (sample_handle ''exited'' 2)"
  "\<exists>s'. apply_message (Handle (sample_handle ''exited'' 2)) ended = Inr (False, s')"
  "generation ended_again = generation ended"
  "map_of (ws_handles ended_again) ''h1'' = Some (sample_handle ''exited'' 3)"
proof -
  have "case apply_message (Heartbeat (sample_heartbeat 1 1)) registered of Inr (b, _) \<Rightarrow> b | _ \<Rightarrow> False"
    by code_simp
  then show "\<exists>s'. apply_message (Heartbeat (sample_heartbeat 1 1)) registered = Inr (True, s')"
    by (auto split: sum.splits)
  have "case apply_message (Handle (sample_handle ''exited'' 2)) ended of Inr (b, _) \<Rightarrow> \<not> b | _ \<Rightarrow> False"
    by code_simp
  then show "\<exists>s'. apply_message (Handle (sample_handle ''exited'' 2)) ended = Inr (False, s')"
    by (auto split: sum.splits)
qed code_simp+

theorem superseded_generation_is_refused_witness:
  "\<exists>e. apply_message (Handle (sample_handle ''running'' 1)) superseded = Inl e"
proof -
  obtain s' where "apply_message (Heartbeat (sample_heartbeat 1 1)) registered = Inr (True, s')"
    using sample_results(1) by blast
  from superseded_generation_is_refused [OF sample_steps(1) this _ sample_steps(2) _ rtranclp.rtrancl_refl,
      of "Handle (sample_handle ''running'' 1)"]
  show ?thesis
    using sample_results(2) by (simp add: sample_heartbeat_def sample_handle_def)
qed

theorem ended_execution_is_final_witness:
  "eh_state (sample_handle ''exited'' 3) = ''exited''
   \<and> execution_identity (sample_handle ''exited'' 3) = execution_identity (sample_handle ''exited'' 2)"
proof -
  have "terminal_execution (eh_state (sample_handle ''exited'' 2))"
    by (simp add: terminal_execution_def sample_handle_def)
  from ended_execution_is_final [OF rtranclp_trans [OF sample_steps(1,3)] sample_results(3) this sample_steps(4) sample_results(6)]
  show ?thesis by (simp add: sample_handle_def)
qed

theorem exact_retry_changes_nothing_witness:
  "apply_message (Handle (sample_handle ''exited'' 2)) ended_again = Inr (False, ended_again)"
proof -
  obtain s' where s': "apply_message (Handle (sample_handle ''exited'' 2)) ended = Inr (False, s')"
    using sample_results(4) by blast
  then have "s' = ended"
    by (simp add: apply_execution_handle_Inr)
  with s' have "apply_message (Handle (sample_handle ''exited'' 2)) ended = Inr (False, ended)"
    by simp
  from exact_retry_changes_nothing [OF rtranclp_trans [OF sample_steps(1,3)] sample_well_made(5) this sample_steps(4)
      sample_results(5)]
  show ?thesis .
qed

definition sample_capabilities :: capability_snapshot where
  "sample_capabilities =
     \<lparr>cs_snapshot_id = ''caps-1'', cs_host_id = ''host-a'', cs_worker_id = ''worker-a'', cs_capabilities = [],
      cs_observed = sample_observed 1, cs_idempotency_key = ''caps-1'', cs_fence_token = 1\<rparr>"

definition equipped :: worker_state where
  "equipped = deliver [Capabilities sample_capabilities, Resources (sample_resources ''/srv/data''), Heartbeat (sample_heartbeat 1 1)] registered"

theorem ready_worker_has_fresh_evidence_witness:
  "admission_status 0 equipped (Some ''2026-07-25T10:00:30Z'') = Some ''ready''
   \<and> (\<exists>b. ws_heartbeat equipped = Some b \<and> hb_state b = ''ready'')"
proof -
  have "admission_status 0 equipped (Some ''2026-07-25T10:00:30Z'') = Some ''ready''"
    by code_simp
  with ready_worker_has_fresh_evidence [OF this] show ?thesis by blast
qed

lemma second_heartbeat_well_made: "well_made (Heartbeat (sample_heartbeat 1 2))"
  by code_simp

theorem idempotency_key_names_one_message_witness:
  "\<exists>s1 e. apply_heartbeat (sample_heartbeat 1 1) registered = Inr (True, s1) \<and> apply_heartbeat (sample_heartbeat 1 2) s1 = Inl e"
proof -
  obtain s1 where s1: "apply_heartbeat (sample_heartbeat 1 1) registered = Inr (True, s1)"
    using sample_results(1) by auto
  have "\<exists>e. apply_heartbeat (sample_heartbeat 1 2) s1 = Inl e"
    by (rule idempotency_key_names_one_message
        [OF sample_steps(1) sample_well_made(3) s1 rtranclp.rtrancl_refl refl second_heartbeat_well_made])
      (simp_all add: sample_heartbeat_def sample_observed_def)
  with s1 show ?thesis by blast
qed

end
