(* ===== verification/Concurrency.thy ===== *)
theory Concurrency
  imports SchedulingPolicy Worker
begin

text \<open>
  Adaptive concurrency (\<open>scheduler/policy.py\<close>, second half): the provider's signals, the estimate of
  one added slot, the controller's state, and \<open>adapt_concurrency\<close>, which turns them and the worker's
  last messages into one bounded decision and the next state.

  \<open>None\<close> stands for an exception. The clock of \<open>now = None\<close> is an argument. Shares of cores are exact
  rationals where the program divides doubles.
\<close>

definition the_default :: "'a \<Rightarrow> 'a option \<Rightarrow> 'a" where
  "the_default d z = (case z of None \<Rightarrow> d | Some x \<Rightarrow> x)"

lemma pred_option_code [code]: "pred_option P z = (case z of None \<Rightarrow> True | Some x \<Rightarrow> P x)"
  by (cases z) simp_all

section \<open>Mount paths\<close>

definition canonical_mount_path :: "string \<Rightarrow> string" where
  "canonical_mount_path s =
     (if windows_abs_re s
      then char_upper (hd (slashes s)) # CHR '':''
             # normpath (CHR ''/'' # dropWhile (\<lambda>c. c = CHR ''/'') (drop 2 (slashes s)))
      else normpath (slashes s))"

definition mount_path_key :: "string \<Rightarrow> string \<times> string" where
  "mount_path_key s =
     (let c = canonical_mount_path s
      in if windows_abs_re c \<or> take 2 c = ''//'' then (''windows'', py_lower c) else (''posix'', c))"

section \<open>Documents\<close>

definition policy_timestamp :: "json \<Rightarrow> string option" where
  "policy_timestamp v =
     (case v of JStr s \<Rightarrow> do { policy_time s; Some s } | _ \<Rightarrow> None)"

record provider_signals =
  ps_provider_id :: string
  ps_max_concurrency :: "int option"
  ps_quota_remaining_ratio :: "num_value option"
  ps_error_rate :: "num_value option"
  ps_latency_seconds :: "num_value option"
  ps_timed_out :: "bool option"
  ps_observed_at :: string
  ps_ttl_seconds :: "int option"
  ps_confidence :: "num_value option"
  ps_sequence :: int

definition provider_fields :: "string list" where
  "provider_fields =
     [''provider_id'', ''max_concurrency'', ''quota_remaining_ratio'', ''error_rate'', ''latency_seconds'',
      ''timed_out'', ''observed_at'', ''ttl_seconds'', ''confidence'', ''sequence'']"

definition provider_post_init :: "dict \<Rightarrow> provider_signals option" where
  "provider_post_init d = do {
     provider_id \<leftarrow> identifier_of (dget0 d ''provider_id'');
     maximum \<leftarrow> optional (integer 0) (dget0 d ''max_concurrency'');
     quota \<leftarrow> optional ratio (dget0 d ''quota_remaining_ratio'');
     error_rate \<leftarrow> optional ratio (dget0 d ''error_rate'');
     latency \<leftarrow> optional (number 0) (dget0 d ''latency_seconds'');
     timed_out \<leftarrow> optional boolean (dget0 d ''timed_out'');
     seen \<leftarrow> policy_timestamp (dget0 d ''observed_at'');
     ttl \<leftarrow> optional (integer 1) (dget0 d ''ttl_seconds'');
     confidence \<leftarrow> optional ratio (dget0 d ''confidence'');
     sequence \<leftarrow> integer 1 (dget0 d ''sequence'');
     Some \<lparr>ps_provider_id = provider_id, ps_max_concurrency = maximum, ps_quota_remaining_ratio = quota,
            ps_error_rate = error_rate, ps_latency_seconds = latency, ps_timed_out = timed_out,
            ps_observed_at = seen, ps_ttl_seconds = ttl, ps_confidence = confidence, ps_sequence = sequence\<rparr> }"

definition provider_to_dict :: "provider_signals \<Rightarrow> json" where
  "provider_to_dict x = JObj
     [(''provider_id'', JStr (ps_provider_id x)), (''max_concurrency'', opt_json JInt (ps_max_concurrency x)),
      (''quota_remaining_ratio'', opt_json num_json (ps_quota_remaining_ratio x)),
      (''error_rate'', opt_json num_json (ps_error_rate x)),
      (''latency_seconds'', opt_json num_json (ps_latency_seconds x)),
      (''timed_out'', opt_json JBool (ps_timed_out x)), (''observed_at'', JStr (ps_observed_at x)),
      (''ttl_seconds'', opt_json JInt (ps_ttl_seconds x)), (''confidence'', opt_json num_json (ps_confidence x)),
      (''sequence'', JInt (ps_sequence x))]"

definition provider_from_dict :: "json \<Rightarrow> provider_signals option" where
  "provider_from_dict v = do { d \<leftarrow> strict_object provider_fields v; provider_post_init d }"

definition provider_freshness :: "int \<Rightarrow> provider_signals \<Rightarrow> string option \<Rightarrow> string option" where
  "provider_freshness clock p now =
     (case ps_ttl_seconds p of
        None \<Rightarrow> Some ''unknown''
      | Some ttl \<Rightarrow> do {
          (current, _) \<leftarrow> policy_now clock now;
          seen \<leftarrow> policy_time (ps_observed_at p);
          Some (if current < seen then ''unknown''
                else if current - seen \<le> ttl * 1000000 then ''fresh'' else ''stale'') })"

text \<open>What one more slot takes; an absent amount is unknown, not zero.\<close>

record task_estimate =
  te_memory_bytes_per_slot :: int
  te_disk_bytes_per_slot :: int
  te_mount_path :: string
  te_cpu_cores_per_slot :: "num_value option"
  te_swap_bytes_per_slot :: "int option"
  te_gpu_memory_bytes_per_slot :: "int option"
  te_inodes_per_slot :: "int option"
  te_owned_process_rss_bytes_per_slot :: "int option"

definition estimate_fields :: "string list" where
  "estimate_fields =
     [''cpu_cores_per_slot'', ''memory_bytes_per_slot'', ''swap_bytes_per_slot'', ''gpu_memory_bytes_per_slot'',
      ''disk_bytes_per_slot'', ''inodes_per_slot'', ''owned_process_rss_bytes_per_slot'', ''mount_path'']"

definition mount_path_of :: "json \<Rightarrow> string option" where
  "mount_path_of v = (case v of
     JStr s \<Rightarrow> do {
       require (s \<noteq> []);
       require (take 1 (slashes s) = ''/'' \<or> windows_abs_re s);
       require (''..'' \<notin> set (split_on (CHR ''/'') (slashes s)));
       Some (canonical_mount_path s) }
   | _ \<Rightarrow> None)"

definition estimate_post_init :: "dict \<Rightarrow> task_estimate option" where
  "estimate_post_init d = do {
     memory \<leftarrow> integer 1 (dget0 d ''memory_bytes_per_slot'');
     disk \<leftarrow> integer 1 (dget0 d ''disk_bytes_per_slot'');
     cpu \<leftarrow> optional positive_number (dget0 d ''cpu_cores_per_slot'');
     swap \<leftarrow> optional (integer 0) (dget0 d ''swap_bytes_per_slot'');
     gpu \<leftarrow> optional (integer 0) (dget0 d ''gpu_memory_bytes_per_slot'');
     inodes \<leftarrow> optional (integer 0) (dget0 d ''inodes_per_slot'');
     rss \<leftarrow> optional (integer 0) (dget0 d ''owned_process_rss_bytes_per_slot'');
     mount_path \<leftarrow> mount_path_of (dget0 d ''mount_path'');
     Some \<lparr>te_memory_bytes_per_slot = memory, te_disk_bytes_per_slot = disk, te_mount_path = mount_path,
            te_cpu_cores_per_slot = cpu, te_swap_bytes_per_slot = swap, te_gpu_memory_bytes_per_slot = gpu,
            te_inodes_per_slot = inodes, te_owned_process_rss_bytes_per_slot = rss\<rparr> }"

definition estimate_to_dict :: "task_estimate \<Rightarrow> json" where
  "estimate_to_dict x = JObj
     [(''cpu_cores_per_slot'', opt_json num_json (te_cpu_cores_per_slot x)),
      (''memory_bytes_per_slot'', JInt (te_memory_bytes_per_slot x)),
      (''swap_bytes_per_slot'', opt_json JInt (te_swap_bytes_per_slot x)),
      (''gpu_memory_bytes_per_slot'', opt_json JInt (te_gpu_memory_bytes_per_slot x)),
      (''disk_bytes_per_slot'', JInt (te_disk_bytes_per_slot x)),
      (''inodes_per_slot'', opt_json JInt (te_inodes_per_slot x)),
      (''owned_process_rss_bytes_per_slot'', opt_json JInt (te_owned_process_rss_bytes_per_slot x)),
      (''mount_path'', JStr (te_mount_path x))]"

definition estimate_from_dict :: "json \<Rightarrow> task_estimate option" where
  "estimate_from_dict v = do { d \<leftarrow> strict_object estimate_fields v; estimate_post_init d }"

text \<open>The controller's state. It is built from typed values too, which \<open>concurrency_checked\<close> checks.\<close>

record concurrency_state =
  as_current_limit :: int
  as_healthy_windows :: int
  as_last_adjusted_at :: "string option"
  as_last_resource_sequence :: "int option"
  as_last_heartbeat_sequence :: "int option"
  as_last_provider_sequence :: "int option"

definition concurrency_fields :: "string list" where
  "concurrency_fields =
     [''current_limit'', ''healthy_windows'', ''last_adjusted_at'', ''last_resource_sequence'',
      ''last_heartbeat_sequence'', ''last_provider_sequence'']"

definition concurrency_post_init :: "dict \<Rightarrow> concurrency_state option" where
  "concurrency_post_init d = do {
     limit \<leftarrow> integer 0 (dget0 d ''current_limit'');
     healthy \<leftarrow> integer 0 (dget0 d ''healthy_windows'');
     adjusted \<leftarrow> optional policy_timestamp (dget0 d ''last_adjusted_at'');
     resource \<leftarrow> optional (integer 1) (dget0 d ''last_resource_sequence'');
     heartbeat \<leftarrow> optional (integer 1) (dget0 d ''last_heartbeat_sequence'');
     provider \<leftarrow> optional (integer 1) (dget0 d ''last_provider_sequence'');
     Some \<lparr>as_current_limit = limit, as_healthy_windows = healthy, as_last_adjusted_at = adjusted,
            as_last_resource_sequence = resource, as_last_heartbeat_sequence = heartbeat,
            as_last_provider_sequence = provider\<rparr> }"

definition concurrency_to_dict :: "concurrency_state \<Rightarrow> json" where
  "concurrency_to_dict x = JObj
     [(''current_limit'', JInt (as_current_limit x)), (''healthy_windows'', JInt (as_healthy_windows x)),
      (''last_adjusted_at'', opt_json JStr (as_last_adjusted_at x)),
      (''last_resource_sequence'', opt_json JInt (as_last_resource_sequence x)),
      (''last_heartbeat_sequence'', opt_json JInt (as_last_heartbeat_sequence x)),
      (''last_provider_sequence'', opt_json JInt (as_last_provider_sequence x))]"

definition concurrency_from_dict :: "json \<Rightarrow> concurrency_state option" where
  "concurrency_from_dict v = do { d \<leftarrow> strict_object concurrency_fields v; concurrency_post_init d }"

definition concurrency_valid :: "concurrency_state \<Rightarrow> bool" where
  "concurrency_valid x \<longleftrightarrow>
     0 \<le> as_current_limit x \<and> 0 \<le> as_healthy_windows x
     \<and> pred_option (\<lambda>s. policy_time s \<noteq> None) (as_last_adjusted_at x)
     \<and> pred_option (\<lambda>n. 1 \<le> n) (as_last_resource_sequence x)
     \<and> pred_option (\<lambda>n. 1 \<le> n) (as_last_heartbeat_sequence x)
     \<and> pred_option (\<lambda>n. 1 \<le> n) (as_last_provider_sequence x)"

record concurrency_decision =
  cd_target_concurrency :: int
  cd_status :: string
  cd_hard_cap :: int
  cd_resource_cap :: "int option"
  cd_reasons :: "string list"
  cd_next_state :: concurrency_state

definition decision_fields :: "string list" where
  "decision_fields =
     [''target_concurrency'', ''status'', ''hard_cap'', ''resource_cap'', ''reasons'', ''next_state'']"

definition decision_statuses :: "string list" where
  "decision_statuses = [''blocked'', ''increase'', ''decrease'', ''hold'']"

definition plain_text :: "json \<Rightarrow> string option" where
  "plain_text v = (case v of JStr s \<Rightarrow> if s = [] then None else Some s | _ \<Rightarrow> None)"

definition decision_post_init :: "dict \<Rightarrow> concurrency_state \<Rightarrow> concurrency_decision option" where
  "decision_post_init d next_state = do {
     target \<leftarrow> integer 0 (dget0 d ''target_concurrency'');
     status \<leftarrow> enum decision_statuses (dget0 d ''status'');
     hard_cap \<leftarrow> integer 0 (dget0 d ''hard_cap'');
     cap \<leftarrow> optional (integer 0) (dget0 d ''resource_cap'');
     reasons \<leftarrow> json_array plain_text (dget0 d ''reasons'');
     Some \<lparr>cd_target_concurrency = target, cd_status = status, cd_hard_cap = hard_cap, cd_resource_cap = cap,
            cd_reasons = reasons, cd_next_state = next_state\<rparr> }"

definition decision_to_dict :: "concurrency_decision \<Rightarrow> json" where
  "decision_to_dict x = JObj
     [(''target_concurrency'', JInt (cd_target_concurrency x)), (''status'', JStr (cd_status x)),
      (''hard_cap'', JInt (cd_hard_cap x)), (''resource_cap'', opt_json JInt (cd_resource_cap x)),
      (''reasons'', JArr (map JStr (cd_reasons x))), (''next_state'', concurrency_to_dict (cd_next_state x))]"

definition decision_from_dict :: "json \<Rightarrow> concurrency_decision option" where
  "decision_from_dict v = do {
     d \<leftarrow> strict_object decision_fields v;
     next_state \<leftarrow> concurrency_from_dict (dget0 d ''next_state'');
     decision_post_init d next_state }"

definition decision_valid :: "concurrency_decision \<Rightarrow> bool" where
  "decision_valid x \<longleftrightarrow>
     0 \<le> cd_target_concurrency x \<and> cd_status x \<in> set decision_statuses \<and> 0 \<le> cd_hard_cap x
     \<and> pred_option (\<lambda>n. 0 \<le> n) (cd_resource_cap x) \<and> list_all (\<lambda>r. r \<noteq> []) (cd_reasons x)"

text \<open>One replayable input.\<close>

record decision_input =
  di_schema_version :: num_value
  di_bundle :: policy_bundle
  di_state :: concurrency_state
  di_resource_snapshot :: resource_snapshot
  di_heartbeat :: worker_heartbeat
  di_provider :: provider_signals
  di_task_resources :: task_estimate
  di_now :: string

definition input_fields :: "string list" where
  "input_fields =
     [''schema_version'', ''bundle'', ''state'', ''resource_snapshot'', ''heartbeat'', ''provider'',
      ''task_resources'', ''now'']"

definition input_to_dict :: "decision_input \<Rightarrow> json" where
  "input_to_dict x = JObj
     [(''schema_version'', num_json (di_schema_version x)), (''bundle'', bundle_to_dict (di_bundle x)),
      (''state'', concurrency_to_dict (di_state x)),
      (''resource_snapshot'', resources_to_dict (di_resource_snapshot x)),
      (''heartbeat'', heartbeat_to_dict (di_heartbeat x)), (''provider'', provider_to_dict (di_provider x)),
      (''task_resources'', estimate_to_dict (di_task_resources x)), (''now'', JStr (di_now x))]"

definition input_from_dict :: "json \<Rightarrow> decision_input option" where
  "input_from_dict v = do {
     d \<leftarrow> strict_object input_fields v;
     bundle \<leftarrow> bundle_from_dict (dget0 d ''bundle'');
     state \<leftarrow> concurrency_from_dict (dget0 d ''state'');
     snapshot \<leftarrow> resources_from_dict (dget0 d ''resource_snapshot'');
     heartbeat \<leftarrow> heartbeat_from_dict (dget0 d ''heartbeat'');
     provider \<leftarrow> provider_from_dict (dget0 d ''provider'');
     estimate \<leftarrow> estimate_from_dict (dget0 d ''task_resources'');
     version \<leftarrow> version_one (dget0 d ''schema_version'');
     now \<leftarrow> policy_timestamp (dget0 d ''now'');
     Some \<lparr>di_schema_version = version, di_bundle = bundle, di_state = state, di_resource_snapshot = snapshot,
            di_heartbeat = heartbeat, di_provider = provider, di_task_resources = estimate, di_now = now\<rparr> }"

section \<open>Admissible slots\<close>

text \<open>\<open>_usage_status\<close>: reserved against actual use over the dimensions, with its three flags.\<close>

fun usage_scan :: "rat option list \<Rightarrow> rat option list \<Rightarrow> bool \<times> bool \<times> bool \<Rightarrow> bool \<times> bool \<times> bool" where
  "usage_scan (expected # es) (seen # os) (compared, unknown, exceeded) =
     usage_scan es os
       (case (expected, seen) of
          (None, None) \<Rightarrow> (compared, unknown, exceeded)
        | (Some x, Some y) \<Rightarrow> (True, unknown, exceeded \<or> x < y)
        | _ \<Rightarrow> (compared, True, exceeded))"
| "usage_scan _ _ flags = flags"

definition usage_status :: "resource_usage \<Rightarrow> resource_usage \<Rightarrow> string" where
  "usage_status reserved actual =
     (let (compared, unknown, exceeded) =
            usage_scan (map snd (usage_dimensions reserved)) (map snd (usage_dimensions actual)) (False, False, False)
      in if exceeded then ''exceeded'' else if unknown \<or> \<not> compared then ''unknown'' else ''within'')"

definition per_slot :: "task_estimate \<Rightarrow> (string \<times> rat option) list" where
  "per_slot e =
     [(''cpu_cores'', map_option num_val (te_cpu_cores_per_slot e)),
      (''ram_bytes'', Some (of_int (te_memory_bytes_per_slot e))),
      (''swap_bytes'', map_option of_int (te_swap_bytes_per_slot e)),
      (''gpu_memory_bytes'', map_option of_int (te_gpu_memory_bytes_per_slot e)),
      (''disk_bytes'', Some (of_int (te_disk_bytes_per_slot e))),
      (''inodes'', map_option of_int (te_inodes_per_slot e)),
      (''owned_process_rss_bytes'', map_option of_int (te_owned_process_rss_bytes_per_slot e))]"

definition slot_reasons :: "task_estimate \<Rightarrow> worker_heartbeat \<Rightarrow> string list" where
  "slot_reasons e b = concat (map2
     (\<lambda>(dimension, amount) (reserved, actual).
        case amount of
          None \<Rightarrow> [''task per-slot '' @ dimension @ '' estimate is unknown'']
        | Some a \<Rightarrow>
            if 0 < a \<and> (reserved = None \<or> actual = None)
            then [''reservation/actual usage reconciliation is unknown for '' @ dimension] else [])
     (per_slot e)
     (zip (map snd (usage_dimensions (hb_reserved_usage b))) (map snd (usage_dimensions (hb_actual_usage b)))))"

text \<open>What is left of the processor, and of memory or swap under the limit of a control group.\<close>

definition cpu_evidence :: "resource_snapshot \<Rightarrow> worker_heartbeat \<Rightarrow> rat option \<times> string list" where
  "cpu_evidence s b =
     (case map_option num_val (cr_available_cores (rs_cpu s)) of
        None \<Rightarrow> (None, [''CPU available_cores is unknown''])
      | Some c \<Rightarrow>
          (case cg_cpu_quota_cores (rs_cgroup s) of
             None \<Rightarrow> (Some c, [])
           | Some quota \<Rightarrow>
               (case us_cpu_cores (hb_actual_usage b) of
                  None \<Rightarrow> (Some c, [''cgroup CPU availability cannot be reconciled''])
                | Some actual \<Rightarrow> (Some (min c (max 0 (num_val quota - num_val actual))), []))))"

definition group_evidence ::
  "string \<Rightarrow> string \<Rightarrow> int option \<Rightarrow> int option \<Rightarrow> int option \<Rightarrow> int option \<times> string list" where
  "group_evidence unknown incomplete available limit current =
     (let missing = (if available = None then [unknown] else [])
      in case (limit, current) of
           (None, None) \<Rightarrow> (available, missing)
         | (Some l, Some c) \<Rightarrow>
             (Some (case available of None \<Rightarrow> max 0 (l - c) | Some a \<Rightarrow> min a (max 0 (l - c))), missing)
         | _ \<Rightarrow> (available, missing @ [incomplete]))"

definition memory_evidence :: "resource_snapshot \<Rightarrow> int option \<times> string list" where
  "memory_evidence s =
     group_evidence ''RAM available_bytes is unknown'' ''cgroup memory evidence is incomplete''
       (mr_available_bytes (rs_ram s)) (cg_memory_limit_bytes (rs_cgroup s)) (cg_memory_current_bytes (rs_cgroup s))"

definition wants :: "int option \<Rightarrow> bool" where
  "wants amount = (case amount of None \<Rightarrow> False | Some a \<Rightarrow> 0 < a)"

definition swap_evidence :: "resource_snapshot \<Rightarrow> task_estimate \<Rightarrow> int option \<times> string list" where
  "swap_evidence s e =
     (if wants (te_swap_bytes_per_slot e)
      then group_evidence ''swap available_bytes is unknown'' ''cgroup swap evidence is incomplete''
             (mr_available_bytes (rs_swap s)) (cg_swap_limit_bytes (rs_cgroup s)) (cg_swap_current_bytes (rs_cgroup s))
      else (None, []))"

definition mount_evidence :: "resource_snapshot \<Rightarrow> task_estimate \<Rightarrow> mount_resources option \<times> string list" where
  "mount_evidence s e =
     (case filter (\<lambda>m. mount_path_key (mo_mount_path m) = mount_path_key (te_mount_path e)) (rs_mounts s) of
        [m] \<Rightarrow>
          (Some m,
           (if mo_writable m = Some True then [] else [''exact task mount is not known writable''])
           @ (if mo_available_bytes m = None then [''exact task mount available_bytes is unknown''] else [])
           @ (if wants (te_inodes_per_slot e) \<and> mo_free_inodes m = None
              then [''exact task mount free_inodes is unknown''] else []))
      | _ \<Rightarrow> (None, [''exact task mount evidence is missing'']))"

text \<open>Slots of the devices are counted one device at a time, never over their sum.\<close>

definition gpu_evidence :: "resource_snapshot \<Rightarrow> task_estimate \<Rightarrow> int option \<times> string list" where
  "gpu_evidence s e =
     (if wants (te_gpu_memory_bytes_per_slot e)
      then if rs_gpus s = [] then (None, [''GPU memory is required but no GPU evidence is present''])
           else if list_ex (\<lambda>g. gr_memory_available_bytes g = None) (rs_gpus s)
           then (None, [''per-device GPU available memory is unknown''])
           else (Some (sum_list (map (\<lambda>g. the_default 0 (gr_memory_available_bytes g)
                   div the_default 0 (te_gpu_memory_bytes_per_slot e)) (rs_gpus s))), [])
      else (None, []))"

definition rss_evidence :: "resource_snapshot \<Rightarrow> worker_heartbeat \<Rightarrow> task_estimate \<Rightarrow> string list" where
  "rss_evidence s b e =
     (if wants (te_owned_process_rss_bytes_per_slot e)
      then if owned_process_rss_bytes s = None then [''owned-process RSS evidence is unknown'']
           else if us_owned_process_rss_bytes (hb_actual_usage b) \<noteq> owned_process_rss_bytes s
           then [''owned-process RSS does not match heartbeat actual usage''] else []
      else [])"

text \<open>
  \<open>additional_slots\<close>: how often each amount fits. An amount of zero asks for nothing; the last
  element repeats the memory for the resident size of the worker's own processes.
\<close>

definition slots_in :: "int option \<Rightarrow> int option \<Rightarrow> rat list" where
  "slots_in available amount =
     (case (available, amount) of (Some n, Some a) \<Rightarrow> if a = 0 then [] else [of_int (n div a)] | _ \<Rightarrow> [])"

definition additional_slots ::
  "task_estimate \<Rightarrow> rat \<Rightarrow> int \<Rightarrow> int \<Rightarrow> int option \<Rightarrow> int option \<Rightarrow> int option \<Rightarrow> rat list" where
  "additional_slots e cpu memory disk swap gpu inodes =
     [cpu / the_default 0 (map_option num_val (te_cpu_cores_per_slot e)),
      of_int (memory div te_memory_bytes_per_slot e), of_int (disk div te_disk_bytes_per_slot e)]
     @ slots_in swap (te_swap_bytes_per_slot e)
     @ (if wants (te_gpu_memory_bytes_per_slot e) then [of_int (the_default 0 gpu)] else [])
     @ slots_in inodes (te_inodes_per_slot e)
     @ slots_in (Some memory) (te_owned_process_rss_bytes_per_slot e)"

definition resource_cap ::
  "resource_snapshot \<Rightarrow> worker_heartbeat \<Rightarrow> effective_policy \<Rightarrow> task_estimate \<Rightarrow> int option \<times> string list" where
  "resource_cap s b p e =
     (let (cpu, cpu_reasons) = cpu_evidence s b;
          (memory, memory_reasons) = memory_evidence s;
          (swap, swap_reasons) = swap_evidence s e;
          (mount, mount_reasons) = mount_evidence s e;
          (gpu, gpu_reasons) = gpu_evidence s e;
          reasons = slot_reasons e b @ cpu_reasons @ memory_reasons @ swap_reasons @ mount_reasons
            @ gpu_reasons @ rss_evidence s b e
      in case (cpu, memory, mount) of
           (Some c, Some n, Some m) \<Rightarrow>
             (let disk = the_default 0 (mo_available_bytes m)
              in if reasons \<noteq> [] then (None, reasons)
                 else if n < ep_memory_reserve_bytes p then (Some 0, [''RAM reserve gate is not satisfied''])
                 else if disk < ep_disk_reserve_bytes p then (Some 0, [''disk reserve gate is not satisfied''])
                 else (Some (int (length (hb_active_execution_handles b))
                   + \<lfloor>Min (set (additional_slots e c (n - ep_memory_reserve_bytes p)
                        (disk - ep_disk_reserve_bytes p) swap gpu (mo_free_inodes m)))\<rfloor>), []))
         | _ \<Rightarrow> (None, reasons))"

section \<open>The decision\<close>

definition concurrency_of ::
  "concurrency_state \<Rightarrow> int \<Rightarrow> int \<Rightarrow> string \<Rightarrow> resource_snapshot \<Rightarrow> worker_heartbeat \<Rightarrow> provider_signals \<Rightarrow> bool \<Rightarrow>
    concurrency_state" where
  "concurrency_of st target healthy now_text s b p accept =
     \<lparr>as_current_limit = target, as_healthy_windows = healthy,
      as_last_adjusted_at = (if target \<noteq> as_current_limit st then Some now_text else as_last_adjusted_at st),
      as_last_resource_sequence =
        (if accept then Some (ob_sequence (rs_observed s)) else as_last_resource_sequence st),
      as_last_heartbeat_sequence =
        (if accept then Some (ob_sequence (hb_observed b)) else as_last_heartbeat_sequence st),
      as_last_provider_sequence = (if accept then Some (ps_sequence p) else as_last_provider_sequence st)\<rparr>"

text \<open>The verdict of one branch: target, status, hard cap, resource cap, reasons, healthy windows, accepted.\<close>

type_synonym verdict = "int \<times> string \<times> int \<times> int option \<times> string list \<times> int \<times> bool"

definition decision_of ::
  "concurrency_state \<Rightarrow> string \<Rightarrow> resource_snapshot \<Rightarrow> worker_heartbeat \<Rightarrow> provider_signals \<Rightarrow> verdict \<Rightarrow>
    concurrency_decision option" where
  "decision_of st now_text s b p v =
     (let (target, status, hard_cap, cap, reasons, healthy, accept) = v;
          next_state = concurrency_of st target healthy now_text s b p accept;
          decision = \<lparr>cd_target_concurrency = target, cd_status = status, cd_hard_cap = hard_cap,
            cd_resource_cap = cap, cd_reasons = reasons, cd_next_state = next_state\<rparr>
      in if concurrency_valid next_state \<and> decision_valid decision then Some decision else None)"

definition regressions ::
  "concurrency_state \<Rightarrow> resource_snapshot \<Rightarrow> worker_heartbeat \<Rightarrow> provider_signals \<Rightarrow> string list" where
  "regressions st s b p = concat (map
     (\<lambda>(incoming, previous, label).
        case previous of
          None \<Rightarrow> []
        | Some n \<Rightarrow> if incoming < n then [label @ '' evidence sequence regressed''] else [])
     [(ob_sequence (rs_observed s), as_last_resource_sequence st, ''resource''),
      (ob_sequence (hb_observed b), as_last_heartbeat_sequence st, ''heartbeat''),
      (ps_sequence p, as_last_provider_sequence st, ''provider'')])"

definition unsure :: "num_value option \<Rightarrow> bool" where
  "unsure confidence = (case confidence of None \<Rightarrow> True | Some c \<Rightarrow> num_val c \<le> 0)"

text \<open>What is wrong with the evidence: its age, confidence, identity or completeness.\<close>

definition evidence_reasons ::
  "int \<Rightarrow> string \<Rightarrow> resource_snapshot \<Rightarrow> worker_heartbeat \<Rightarrow> provider_signals \<Rightarrow> string list option" where
  "evidence_reasons current now_text s b p = do {
     resource \<leftarrow> freshness_of current (rs_observed s) (Some now_text);
     heartbeat \<leftarrow> freshness_of current (hb_observed b) (Some now_text);
     provider \<leftarrow> provider_freshness current p None;
     Some (concat (map (\<lambda>(label, state). if state \<noteq> ''fresh'' then [label @ '' telemetry is '' @ state] else [])
             [(''resource'', resource), (''heartbeat'', heartbeat), (''provider'', provider)])
       @ (if unsure (ob_confidence (rs_observed s)) then [''resource confidence is unknown''] else [])
       @ (if unsure (ob_confidence (hb_observed b)) then [''heartbeat confidence is unknown''] else [])
       @ (if unsure (ps_confidence p) then [''provider confidence is unknown''] else [])
       @ (if rs_host_id s \<noteq> hb_host_id b \<or> rs_worker_id s \<noteq> hb_worker_id b \<or> rs_fence_token s \<noteq> hb_fence_token b
          then [''worker resource and heartbeat identity/fence do not match''] else [])
       @ (if hb_resource_sequence b \<noteq> Some (ob_sequence (rs_observed s))
          then [''heartbeat does not reference the resource snapshot sequence''] else [])
       @ (if ps_max_concurrency p = None \<or> ps_quota_remaining_ratio p = None \<or> ps_error_rate p = None
             \<or> ps_latency_seconds p = None \<or> ps_timed_out p = None
          then [''provider capacity/quota/error/latency evidence is incomplete''] else [])) }"

text \<open>The three ways a complete reading of the provider asks for less.\<close>

definition pressure_reasons ::
  "effective_policy \<Rightarrow> rat \<Rightarrow> worker_heartbeat \<Rightarrow> rat \<Rightarrow> rat \<Rightarrow> string list" where
  "pressure_reasons q target_latency b error_rate latency =
     (if usage_status (hb_reserved_usage b) (hb_actual_usage b) = ''exceeded''
      then [''actual usage exceeds its reservation''] else [])
     @ (if num_val (ep_max_error_rate q) < error_rate then [''provider error rate exceeds the policy ceiling''] else [])
     @ (if target_latency < latency then [''provider latency exceeds the policy target''] else [])"

text \<open>Healthy evidence: wait for the windows and the cooldown, then add.\<close>

definition same_window ::
  "concurrency_state \<Rightarrow> resource_snapshot \<Rightarrow> worker_heartbeat \<Rightarrow> provider_signals \<Rightarrow> bool" where
  "same_window st s b p \<longleftrightarrow>
     as_last_resource_sequence st = Some (ob_sequence (rs_observed s))
     \<and> as_last_heartbeat_sequence st = Some (ob_sequence (hb_observed b))
     \<and> as_last_provider_sequence st = Some (ps_sequence p)"

definition hysteresis ::
  "concurrency_state \<Rightarrow> effective_policy \<Rightarrow> bool \<Rightarrow> int \<Rightarrow> int \<Rightarrow> int option \<Rightarrow> string list \<Rightarrow> verdict option" where
  "hysteresis st q same current hard_cap cap reasons = do {
     healthy \<leftarrow> Some (if same then as_healthy_windows st
                 else min (ep_scale_up_windows q) (as_healthy_windows st + 1));
     cooled \<leftarrow> (case as_last_adjusted_at st of
        None \<Rightarrow> Some True
      | Some s \<Rightarrow> do { t \<leftarrow> policy_time s; Some (ep_cooldown_seconds q * 1000000 \<le> current - t) });
     Some (if as_current_limit st < hard_cap \<and> ep_scale_up_windows q \<le> healthy \<and> cooled
           then (min hard_cap (as_current_limit st + ep_additive_increase q), ''increase'', hard_cap, cap,
                 reasons @ [''healthy hysteresis window satisfied''], 0, True)
           else (as_current_limit st, ''hold'', hard_cap, cap,
                 reasons @ [if same then ''duplicate evidence does not advance hysteresis''
                            else if \<not> cooled then ''scale-up cooldown has not elapsed''
                            else if hard_cap \<le> as_current_limit st then ''current concurrency is at its hard cap''
                            else ''scale-up hysteresis is not yet satisfied''], healthy, True)) }"

text \<open>The branches below a hard cap, for the provider's error rate and latency.\<close>

definition capped_verdict ::
  "concurrency_state \<Rightarrow> effective_policy \<Rightarrow> worker_heartbeat \<Rightarrow> bool \<Rightarrow> int \<Rightarrow> int \<Rightarrow> int option \<Rightarrow> string list \<Rightarrow>
    rat \<Rightarrow> rat \<Rightarrow> verdict option" where
  "capped_verdict st q b same current hard_cap cap reasons error_rate latency =
     (if hard_cap < as_current_limit st
      then Some (hard_cap, if 0 < hard_cap then ''decrease'' else ''blocked'', hard_cap, cap,
                 reasons @ [''a hard concurrency cap decreased''], 0, True)
      else if hard_cap = 0
      then Some (0, ''blocked'', 0, cap, reasons @ [''no concurrency is safely admissible''], 0, True)
      else if usage_status (hb_reserved_usage b) (hb_actual_usage b) = ''unknown''
      then Some (0, ''blocked'', hard_cap, cap,
                 reasons @ [''reservation/actual usage reconciliation is unknown''], 0, True)
      else do {
        target_latency \<leftarrow> map_option num_val (ep_target_latency_seconds q);
        pressure \<leftarrow> Some (pressure_reasons q target_latency b error_rate latency);
        if pressure \<noteq> []
        then (let target = min (max (ep_min_concurrency q)
                    \<lfloor>of_int (as_current_limit st) * num_val (ep_decrease_factor q)\<rfloor>) hard_cap
              in Some (target, if target < as_current_limit st then ''decrease'' else ''hold'', hard_cap,
                       cap, reasons @ pressure, 0, True))
        else if hb_state b = ''busy''
        then Some (as_current_limit st, ''hold'', hard_cap, cap,
                   reasons @ [''busy workers do not trigger scale-up''], 0, True)
        else if as_current_limit st < ep_min_concurrency q
        then (let target = min (ep_min_concurrency q) hard_cap
              in Some (target, if as_current_limit st < target then ''increase'' else ''hold'', hard_cap,
                       cap, reasons @ [''healthy evidence admits the effective minimum''], 0, True))
        else hysteresis st q same current hard_cap cap reasons })"

text \<open>The branches on complete, trusted evidence, from the worker's reported state on.\<close>

definition trusted_verdict ::
  "concurrency_state \<Rightarrow> effective_policy \<Rightarrow> resource_snapshot \<Rightarrow> worker_heartbeat \<Rightarrow> provider_signals \<Rightarrow>
    task_estimate \<Rightarrow> int \<Rightarrow> verdict option" where
  "trusted_verdict st q s b p e current =
     (if hb_state b \<in> {''draining'', ''stopped'', ''unknown''}
      then Some (0, ''blocked'', 0, Some 0, [''worker reports '' @ hb_state b], 0, True)
      else case resource_cap s b q e of
        (None, reasons) \<Rightarrow> Some (0, ''blocked'', 0, None, reasons, 0, True)
      | (Some cap, resource_reasons) \<Rightarrow> do {
          provider_max \<leftarrow> ps_max_concurrency p;
          quota \<leftarrow> map_option num_val (ps_quota_remaining_ratio p);
          error_rate \<leftarrow> map_option num_val (ps_error_rate p);
          latency \<leftarrow> map_option num_val (ps_latency_seconds p);
          timed_out \<leftarrow> ps_timed_out p;
          severe \<leftarrow> Some ((if 1 \<le> error_rate then [''provider reports a total error window''] else [])
                     @ (if timed_out then [''provider reports an explicit timeout''] else []));
          if severe \<noteq> [] then Some (0, ''blocked'', 0, Some cap, severe, 0, True) else do {
            spent \<leftarrow> Some (quota \<le> num_val (ep_quota_reserve_ratio q));
            capped_verdict st q b (same_window st s b p) current
              (if spent then 0 else min (min (ep_max_concurrency q) provider_max) cap) (Some cap)
              (resource_reasons @ (if spent then [''provider quota reserve gate is not satisfied''] else []))
              error_rate latency } })"

definition adapt_concurrency ::
  "concurrency_state \<Rightarrow> policy_resolution \<Rightarrow> resource_snapshot \<Rightarrow> worker_heartbeat \<Rightarrow> provider_signals \<Rightarrow>
    task_estimate \<Rightarrow> int \<Rightarrow> string option \<Rightarrow> concurrency_decision option" where
  "adapt_concurrency st pol s b p e clock now = do {
     (current, now_text) \<leftarrow> policy_now clock now;
     v \<leftarrow> (if \<not> pr_valid pol
           then Some (0, ''blocked'', 0, None, [''effective policy is impossible''], 0, True)
           else if regressions st s b p \<noteq> []
           then Some (0, ''blocked'', 0, None, regressions st s b p, 0, False)
           else do {
             reasons \<leftarrow> evidence_reasons current now_text s b p;
             if reasons \<noteq> [] then Some (0, ''blocked'', 0, None, reasons, 0, True)
             else trusted_verdict st (pr_effective pol) s b p e current });
     decision_of st now_text s b p v }"

text \<open>\<open>AdaptiveConcurrencyController\<close>: the policy and the estimate fixed.\<close>

record concurrency_controller =
  cc_policy :: policy_resolution
  cc_task_resources :: task_estimate

definition evaluate ::
  "concurrency_controller \<Rightarrow> concurrency_state \<Rightarrow> resource_snapshot \<Rightarrow> worker_heartbeat \<Rightarrow> provider_signals \<Rightarrow>
    int \<Rightarrow> string option \<Rightarrow> concurrency_decision option" where
  "evaluate c st s b p clock now = adapt_concurrency st (cc_policy c) s b p (cc_task_resources c) clock now"

section \<open>Reconciliation\<close>

lemma usage_scan_compare:
  "compare_dimensions es os = (compared, unknown, overages) \<Longrightarrow>
     usage_scan (map snd es) (map snd os) (c, u, x)
       = (c \<or> compared \<noteq> [], u \<or> unknown \<noteq> [], x \<or> overages \<noteq> [])"
proof (induction es os arbitrary: compared unknown overages c u x rule: compare_dimensions.induct)
  case (1 n expected es n' seen os)
  obtain c' u' x' where rest: "compare_dimensions es os = (c', u', x')"
    using prod_cases3 by blast
  from "1.IH" [OF rest] "1.prems" rest show ?case
    by (cases expected; cases seen) (auto split: if_splits)
qed auto

text \<open>The scheduler and the worker judge reserved against actual use alike: the three flags of
  \<open>_usage_status\<close> give the status that \<open>reconcile_usage\<close> of the worker derives from its lists of
  compared, unknown and exceeded dimensions.
\<close>

theorem scheduler_and_worker_reconcile_alike:
  "usage_status reserved actual = ur_status (reconcile_usage reserved actual)"
proof -
  obtain c u x where "compare_dimensions (usage_dimensions reserved) (usage_dimensions actual) = (c, u, x)"
    using prod_cases3 by blast
  then show ?thesis
    by (simp add: usage_status_def reconcile_usage_def usage_scan_compare)
qed

section \<open>The cap fits the host\<close>

lemma group_evidence_bound:
  "fst (group_evidence u i available limit current) = Some n \<Longrightarrow> snd (group_evidence u i available limit current) = [] \<Longrightarrow>
     \<exists>a. available = Some a \<and> n \<le> a \<and> (\<forall>l c. limit = Some l \<and> current = Some c \<longrightarrow> n \<le> max 0 (l - c))"
  by (auto simp: group_evidence_def Let_def split: option.splits if_splits)

lemma slots_fit:
  fixes n a k :: int
  assumes "0 < a" and "k \<le> n div a"
  shows "k * a \<le> n"
proof -
  have "k * a \<le> n div a * a"
    using assms by (simp add: mult_right_mono)
  also have "\<dots> = n - n mod a"
    by (simp add: minus_mod_eq_div_mult)
  also have "\<dots> \<le> n"
    using assms(1) by simp
  finally show ?thesis .
qed

text \<open>What a positive cap rests on: every piece of evidence is there and both reserves are kept.\<close>

lemma resource_cap_Some:
  assumes "resource_cap s b p e = (Some n, rs)" and "int (length (hb_active_execution_handles b)) < n"
  obtains c memory swap m gpu where "cpu_evidence s b = (Some c, [])" and "memory_evidence s = (Some memory, [])"
    and "swap_evidence s e = (swap, [])" and "mount_evidence s e = (Some m, [])" and "gpu_evidence s e = (gpu, [])"
    and "slot_reasons e b = []" and "rss_evidence s b e = []"
    and "ep_memory_reserve_bytes p \<le> memory" and "ep_disk_reserve_bytes p \<le> the_default 0 (mo_available_bytes m)"
    and "n = int (length (hb_active_execution_handles b))
       + \<lfloor>Min (set (additional_slots e c (memory - ep_memory_reserve_bytes p)
            (the_default 0 (mo_available_bytes m) - ep_disk_reserve_bytes p) swap gpu (mo_free_inodes m)))\<rfloor>"
proof -
  obtain cpu r1 memory r2 swap r3 mount r4 gpu r5 where parts:
    "cpu_evidence s b = (cpu, r1)" "memory_evidence s = (memory, r2)" "swap_evidence s e = (swap, r3)"
    "mount_evidence s e = (mount, r4)" "gpu_evidence s e = (gpu, r5)"
    by fastforce
  with assms that show thesis
    by (auto simp: resource_cap_def Let_def split: option.splits if_splits)
qed

lemma additional_slots_bound:
  assumes "k = \<lfloor>Min (set (additional_slots e c memory disk swap gpu inodes))\<rfloor>"
  shows "list_all (\<lambda>x. of_int k \<le> x) (additional_slots e c memory disk swap gpu inodes)"
proof -
  have "of_int k \<le> Min (set (additional_slots e c memory disk swap gpu inodes))"
    using assms by simp
  then show ?thesis
    by (auto simp: list_all_iff intro: order.trans [OF _ Min_le])
qed

lemma estimate_accepted:
  assumes "estimate_from_dict v = Some e"
  shows "1 \<le> te_memory_bytes_per_slot e" and "1 \<le> te_disk_bytes_per_slot e"
    and "pred_option (\<lambda>q. 0 < num_val q) (te_cpu_cores_per_slot e)"
    and "pred_option (\<lambda>a. 0 \<le> a) (te_swap_bytes_per_slot e)"
    and "pred_option (\<lambda>a. 0 \<le> a) (te_gpu_memory_bytes_per_slot e)"
    and "pred_option (\<lambda>a. 0 \<le> a) (te_inodes_per_slot e)"
    and "pred_option (\<lambda>a. 0 \<le> a) (te_owned_process_rss_bytes_per_slot e)"
  using assms by (auto simp: estimate_from_dict_def estimate_post_init_def bind_eq_Some_conv check_iffs
      optional_policy_Some elim: option.pred_mono_strong)

lemma evidence_facts:
  "cpu_evidence s b = (Some c, []) \<Longrightarrow> \<exists>cores. cr_available_cores (rs_cpu s) = Some cores \<and> c \<le> num_val cores"
  "memory_evidence s = (Some memory, []) \<Longrightarrow> \<exists>ram. mr_available_bytes (rs_ram s) = Some ram \<and> memory \<le> ram"
  "mount_evidence s e = (Some m, []) \<Longrightarrow>
     filter (\<lambda>m. mount_path_key (mo_mount_path m) = mount_path_key (te_mount_path e)) (rs_mounts s) = [m]
     \<and> mo_writable m = Some True \<and> (\<exists>disk. mo_available_bytes m = Some disk)
     \<and> (wants (te_inodes_per_slot e) \<longrightarrow> mo_free_inodes m \<noteq> None)"
  "slot_reasons e b = [] \<Longrightarrow> te_cpu_cores_per_slot e \<noteq> None"
proof -
  show "cpu_evidence s b = (Some c, []) \<Longrightarrow> \<exists>cores. cr_available_cores (rs_cpu s) = Some cores \<and> c \<le> num_val cores"
    by (auto simp: cpu_evidence_def split: option.splits)
  show "\<exists>ram. mr_available_bytes (rs_ram s) = Some ram \<and> memory \<le> ram" if "memory_evidence s = (Some memory, [])"
    using that group_evidence_bound unfolding memory_evidence_def by (metis fst_conv snd_conv)
  show "slot_reasons e b = [] \<Longrightarrow> te_cpu_cores_per_slot e \<noteq> None"
    by (cases "te_cpu_cores_per_slot e") (simp_all add: slot_reasons_def per_slot_def usage_dimensions_def)
qed (auto simp: mount_evidence_def split: list.splits if_splits)

lemma swap_evidence_fact:
  assumes "swap_evidence s e = (swap, [])" and "wants (te_swap_bytes_per_slot e)"
  shows "\<exists>n a. swap = Some n \<and> mr_available_bytes (rs_swap s) = Some a \<and> n \<le> a"
proof -
  let ?g = "group_evidence ''swap available_bytes is unknown'' ''cgroup swap evidence is incomplete''
    (mr_available_bytes (rs_swap s)) (cg_swap_limit_bytes (rs_cgroup s)) (cg_swap_current_bytes (rs_cgroup s))"
  have g: "fst ?g = swap" "snd ?g = []"
    using assms by (simp_all add: swap_evidence_def)
  then obtain n where "swap = Some n"
    by (auto simp: group_evidence_def Let_def split: option.splits if_splits)
  with group_evidence_bound g show ?thesis
    by blast
qed

lemma gpu_evidence_fact:
  "gpu_evidence s e = (gpu, []) \<Longrightarrow> wants (te_gpu_memory_bytes_per_slot e) \<Longrightarrow>
     gpu = Some (sum_list (map (\<lambda>g. the_default 0 (gr_memory_available_bytes g)
                  div the_default 0 (te_gpu_memory_bytes_per_slot e)) (rs_gpus s)))"
  by (auto simp: gpu_evidence_def split: if_splits)

lemma wants_iff: "wants z \<longleftrightarrow> (\<exists>a. z = Some a \<and> 0 < a)"
  by (cases z) (simp_all add: wants_def)

lemma the_default_simps [simp]: "the_default d None = d" "the_default d (Some x) = x"
  by (simp_all add: the_default_def)

text \<open>C28. A cap that adds slots fits the host: with \<open>k\<close> more slots of the estimate, the memory and the
  disk of the task's one mount still hold their reserves, and the free cores, swap and inodes and
  the memory of the devices, taken one by one, are not exceeded.
\<close>

theorem resource_cap_fits_the_host:
  assumes "estimate_from_dict v = Some e" and "resource_cap s b p e = (Some n, rs)"
    and "k = n - int (length (hb_active_execution_handles b))" and "0 < k"
  shows "\<exists>ram cores share m disk.
     mr_available_bytes (rs_ram s) = Some ram \<and> k * te_memory_bytes_per_slot e + ep_memory_reserve_bytes p \<le> ram
     \<and> cr_available_cores (rs_cpu s) = Some cores \<and> te_cpu_cores_per_slot e = Some share
     \<and> of_int k * num_val share \<le> num_val cores
     \<and> filter (\<lambda>m. mount_path_key (mo_mount_path m) = mount_path_key (te_mount_path e)) (rs_mounts s) = [m]
     \<and> mo_writable m = Some True \<and> mo_available_bytes m = Some disk
     \<and> k * te_disk_bytes_per_slot e + ep_disk_reserve_bytes p \<le> disk
     \<and> (wants (te_swap_bytes_per_slot e) \<longrightarrow>
          k * the_default 0 (te_swap_bytes_per_slot e) \<le> the_default 0 (mr_available_bytes (rs_swap s)))
     \<and> (wants (te_inodes_per_slot e) \<longrightarrow>
          k * the_default 0 (te_inodes_per_slot e) \<le> the_default 0 (mo_free_inodes m))
     \<and> (wants (te_gpu_memory_bytes_per_slot e) \<longrightarrow>
          k \<le> sum_list (map (\<lambda>g. the_default 0 (gr_memory_available_bytes g)
                  div the_default 0 (te_gpu_memory_bytes_per_slot e)) (rs_gpus s)))"
proof -
  from assms(3,4) have "int (length (hb_active_execution_handles b)) < n"
    by simp
  with assms(2) obtain c memory swap m gpu where parts: "cpu_evidence s b = (Some c, [])"
      "memory_evidence s = (Some memory, [])" "swap_evidence s e = (swap, [])" "mount_evidence s e = (Some m, [])"
      "gpu_evidence s e = (gpu, [])" "slot_reasons e b = []"
    and n: "n = int (length (hb_active_execution_handles b))
       + \<lfloor>Min (set (additional_slots e c (memory - ep_memory_reserve_bytes p)
            (the_default 0 (mo_available_bytes m) - ep_disk_reserve_bytes p) swap gpu (mo_free_inodes m)))\<rfloor>"
    by (rule resource_cap_Some)
  from evidence_facts(1) [OF parts(1)] evidence_facts(2) [OF parts(2)] evidence_facts(3) [OF parts(4)]
    evidence_facts(4) [OF parts(6)]
  obtain cores ram disk share where facts: "cr_available_cores (rs_cpu s) = Some cores" "c \<le> num_val cores"
      "mr_available_bytes (rs_ram s) = Some ram" "memory \<le> ram" "mo_available_bytes m = Some disk"
      "te_cpu_cores_per_slot e = Some share"
    and mount: "filter (\<lambda>m. mount_path_key (mo_mount_path m) = mount_path_key (te_mount_path e)) (rs_mounts s) = [m]"
      "mo_writable m = Some True" "wants (te_inodes_per_slot e) \<Longrightarrow> mo_free_inodes m \<noteq> None"
    by blast
  have "k = \<lfloor>Min (set (additional_slots e c (memory - ep_memory_reserve_bytes p)
      (disk - ep_disk_reserve_bytes p) swap gpu (mo_free_inodes m)))\<rfloor>"
    using n assms(3) facts(5) by simp
  note fit = additional_slots_bound [OF this, unfolded additional_slots_def]
  have "k * te_memory_bytes_per_slot e \<le> memory - ep_memory_reserve_bytes p"
    using fit estimate_accepted(1) [OF assms(1)] by (intro slots_fit) simp_all
  moreover have "k * te_disk_bytes_per_slot e \<le> disk - ep_disk_reserve_bytes p"
    using fit estimate_accepted(2) [OF assms(1)] by (intro slots_fit) simp_all
  moreover have "of_int k * num_val share \<le> num_val cores"
    using fit estimate_accepted(3) [OF assms(1)] facts by (auto simp: le_divide_eq)
  moreover have "k * the_default 0 (te_swap_bytes_per_slot e) \<le> the_default 0 (mr_available_bytes (rs_swap s))"
    if wanted: "wants (te_swap_bytes_per_slot e)"
  proof -
    obtain a x y where "te_swap_bytes_per_slot e = Some a" "0 < a" "swap = Some x"
      "mr_available_bytes (rs_swap s) = Some y" "x \<le> y"
      using swap_evidence_fact [OF parts(3) wanted] wanted by (auto simp: wants_iff)
    with fit slots_fit [of a k x] show ?thesis
      by (simp add: slots_in_def)
  qed
  moreover have "k * the_default 0 (te_inodes_per_slot e) \<le> the_default 0 (mo_free_inodes m)"
    if wanted: "wants (te_inodes_per_slot e)"
  proof -
    obtain a x where "te_inodes_per_slot e = Some a" "0 < a" "mo_free_inodes m = Some x"
      using mount(3) [OF wanted] wanted by (auto simp: wants_iff)
    with fit slots_fit [of a k x] show ?thesis
      by (simp add: slots_in_def)
  qed
  moreover have "k \<le> sum_list (map (\<lambda>g. the_default 0 (gr_memory_available_bytes g)
      div the_default 0 (te_gpu_memory_bytes_per_slot e)) (rs_gpus s))" if wanted: "wants (te_gpu_memory_bytes_per_slot e)"
    using fit gpu_evidence_fact [OF parts(5) wanted] wanted by simp
  ultimately show ?thesis
    using facts mount(1,2) by (intro exI [of _ ram] exI [of _ cores] exI [of _ share] exI [of _ m] exI [of _ disk]) auto
qed

section \<open>The target is bounded by trusted evidence\<close>

lemma hysteresis_verdict:
  assumes "hysteresis st q same current hard_cap cap reasons = Some (target, status, hc, cap', rs, healthy, accept)"
  shows "hc = hard_cap \<and> cap' = cap \<and> accept
     \<and> (as_current_limit st \<le> hard_cap \<longrightarrow> target \<le> hard_cap)
     \<and> (target = as_current_limit st \<and> status = ''hold'' \<or>
        target = min hard_cap (as_current_limit st + ep_additive_increase q) \<and> status = ''increase'' \<and> healthy = 0
        \<and> ep_scale_up_windows q \<le> (if same then as_healthy_windows st
             else min (ep_scale_up_windows q) (as_healthy_windows st + 1))
        \<and> pred_option (\<lambda>z. pred_option (\<lambda>t. ep_cooldown_seconds q * 1000000 \<le> current - t) (policy_time z))
            (as_last_adjusted_at st))"
  using assms by (auto simp: hysteresis_def bind_eq_Some_conv split: if_splits option.splits)

lemma capped_target:
  assumes "capped_verdict st q b same current hard_cap cap rs er la = Some (target, status, hc, cap', reasons, healthy, accept)"
  shows "0 < target \<Longrightarrow> target \<le> hard_cap" and "hc = hard_cap" and "cap' = cap" and "accept"
  using assms by (auto simp: capped_verdict_def bind_eq_Some_conv Let_def split: if_splits dest: hysteresis_verdict)

lemma trusted_target:
  assumes "trusted_verdict st q s b p e current = Some (target, status, hard_cap, cap, reasons, healthy, accept)"
    and "0 < target"
  obtains c rr provider_max quota error_rate latency where "hb_state b \<notin> {''draining'', ''stopped'', ''unknown''}"
    and "resource_cap s b q e = (Some c, rr)" and "cap = Some c"
    and "ps_max_concurrency p = Some provider_max" and "ps_quota_remaining_ratio p = Some quota"
    and "ps_error_rate p = Some error_rate" and "ps_latency_seconds p = Some latency" and "ps_timed_out p = Some False"
    and "num_val error_rate < 1" and "num_val (ep_quota_reserve_ratio q) < num_val quota"
    and "hard_cap = min (min (ep_max_concurrency q) provider_max) c" and "target \<le> hard_cap"
    and "capped_verdict st q b (same_window st s b p) current hard_cap (Some c) rr (num_val error_rate) (num_val latency)
           = Some (target, status, hard_cap, cap, reasons, healthy, accept)"
proof -
  obtain c rr where cap: "resource_cap s b q e = (Some c, rr)" and state: "hb_state b \<notin> {''draining'', ''stopped'', ''unknown''}"
    using assms by (auto simp: trusted_verdict_def split: if_splits prod.splits option.splits)
  obtain provider_max quota error_rate latency timed_out where p: "ps_max_concurrency p = Some provider_max"
      "ps_quota_remaining_ratio p = Some quota" "ps_error_rate p = Some error_rate"
      "ps_latency_seconds p = Some latency" "ps_timed_out p = Some timed_out"
    using assms by (auto simp: trusted_verdict_def cap state [simplified] bind_eq_Some_conv)
  let ?spent = "num_val quota \<le> num_val (ep_quota_reserve_ratio q)"
  let ?hc = "if ?spent then 0 else min (min (ep_max_concurrency q) provider_max) c"
  from assms have severe: "num_val error_rate < 1" "\<not> timed_out"
    and v: "capped_verdict st q b (same_window st s b p) current ?hc (Some c)
      (rr @ (if ?spent then [''provider quota reserve gate is not satisfied''] else []))
      (num_val error_rate) (num_val latency) = Some (target, status, hard_cap, cap, reasons, healthy, accept)"
    by (auto simp: trusted_verdict_def cap state [simplified] p split: if_splits)
  then have hc: "hard_cap = ?hc" "cap = Some c" "target \<le> ?hc"
    using capped_target [OF v] assms(2) by simp_all
  with assms(2) have "\<not> ?spent"
    by (auto split: if_splits)
  with hc v severe p cap state that show thesis
    by simp
qed

lemma decision_of_Some:
  "decision_of st now_text s b p (target, status, hard_cap, cap, reasons, healthy, accept) = Some d \<longleftrightarrow>
     d = \<lparr>cd_target_concurrency = target, cd_status = status, cd_hard_cap = hard_cap, cd_resource_cap = cap,
          cd_reasons = reasons, cd_next_state = concurrency_of st target healthy now_text s b p accept\<rparr>
     \<and> concurrency_valid (cd_next_state d) \<and> decision_valid d"
  by (auto simp: decision_of_def Let_def)

lemma evidence_trusted:
  assumes "evidence_reasons current now_text s b p = Some []"
  shows "freshness_of current (rs_observed s) (Some now_text) = Some ''fresh''"
    and "freshness_of current (hb_observed b) (Some now_text) = Some ''fresh''"
    and "provider_freshness current p None = Some ''fresh''"
    and "\<exists>c. ob_confidence (rs_observed s) = Some c \<and> 0 < num_val c"
    and "\<exists>c. ob_confidence (hb_observed b) = Some c \<and> 0 < num_val c"
    and "\<exists>c. ps_confidence p = Some c \<and> 0 < num_val c"
    and "rs_host_id s = hb_host_id b" and "rs_worker_id s = hb_worker_id b" and "rs_fence_token s = hb_fence_token b"
    and "hb_resource_sequence b = Some (ob_sequence (rs_observed s))"
  using assms by (auto simp: evidence_reasons_def bind_eq_Some_conv unsure_def split: if_splits option.splits)

lemma adapt_target:
  assumes "adapt_concurrency st pol s b p e clock now = Some d" and "0 < cd_target_concurrency d"
  obtains current now_text status hard_cap cap reasons healthy where "policy_now clock now = Some (current, now_text)"
    and "pr_valid pol" and "regressions st s b p = []" and "evidence_reasons current now_text s b p = Some []"
    and "trusted_verdict st (pr_effective pol) s b p e current
           = Some (cd_target_concurrency d, status, hard_cap, cap, reasons, healthy, True)"
    and "cd_next_state d = concurrency_of st (cd_target_concurrency d) healthy now_text s b p True"
    and "cd_status d = status" and "cd_hard_cap d = hard_cap" and "cd_resource_cap d = cap"
proof -
  obtain current now_text where now: "policy_now clock now = Some (current, now_text)"
    using assms(1) by (auto simp: adapt_concurrency_def bind_eq_Some_conv)
  obtain v where v: "decision_of st now_text s b p v = Some d"
    and branch: "(if \<not> pr_valid pol
           then Some (0, ''blocked'', 0, None, [''effective policy is impossible''], 0, True)
           else if regressions st s b p \<noteq> []
           then Some (0, ''blocked'', 0, None, regressions st s b p, 0, False)
           else do {
             reasons \<leftarrow> evidence_reasons current now_text s b p;
             if reasons \<noteq> [] then Some (0, ''blocked'', 0, None, reasons, 0, True)
             else trusted_verdict st (pr_effective pol) s b p e current }) = Some v"
    using assms(1) now by (auto simp: adapt_concurrency_def bind_eq_Some_conv)
  obtain target status hard_cap cap reasons healthy accept where
    verdict: "v = (target, status, hard_cap, cap, reasons, healthy, accept)"
    using prod_cases7 by blast
  from v have d: "cd_target_concurrency d = target" "cd_status d = status" "cd_hard_cap d = hard_cap"
      "cd_resource_cap d = cap" "cd_next_state d = concurrency_of st target healthy now_text s b p accept"
    by (auto simp: verdict decision_of_Some)
  with branch assms(2) have trusted: "pr_valid pol" "regressions st s b p = []" "evidence_reasons current now_text s b p = Some []"
      "trusted_verdict st (pr_effective pol) s b p e current = Some v"
    by (auto simp: verdict bind_eq_Some_conv split: if_splits)
  moreover have accept
    using trusted_target [OF trusted(4) [unfolded verdict]] assms(2) d(1) capped_target(4) by metis
  ultimately show thesis
    using that now d verdict by simp
qed

text \<open>C29. Only trusted evidence admits work: a decision with a positive target has a valid policy and
  evidence that did not go backwards; the readings of the host, the worker and the provider are all fresh
  and all state a positive confidence; host and worker readings belong to one worker and one fence, and
  the heartbeat refers to the snapshot it was taken with; the worker is neither draining nor stopped nor
  unknown; the provider has stated its latency and its error rate, which is below one, has not timed out
  and is above its quota reserve; and the target is at most the ceiling of the policy, of the provider
  and of the host's resources.
\<close>

theorem positive_target_needs_trusted_evidence:
  assumes "adapt_concurrency st pol s b p e clock now = Some d" and "0 < cd_target_concurrency d"
  shows "pr_valid pol \<and> regressions st s b p = []
     \<and> (\<exists>current now_text. policy_now clock now = Some (current, now_text)
          \<and> freshness_of current (rs_observed s) (Some now_text) = Some ''fresh''
          \<and> freshness_of current (hb_observed b) (Some now_text) = Some ''fresh''
          \<and> provider_freshness current p None = Some ''fresh'')
     \<and> (\<exists>c. ob_confidence (rs_observed s) = Some c \<and> 0 < num_val c)
     \<and> (\<exists>c. ob_confidence (hb_observed b) = Some c \<and> 0 < num_val c)
     \<and> (\<exists>c. ps_confidence p = Some c \<and> 0 < num_val c)
     \<and> rs_host_id s = hb_host_id b \<and> rs_worker_id s = hb_worker_id b \<and> rs_fence_token s = hb_fence_token b
     \<and> hb_resource_sequence b = Some (ob_sequence (rs_observed s))
     \<and> hb_state b \<notin> {''draining'', ''stopped'', ''unknown''} \<and> ps_timed_out p = Some False
     \<and> (\<exists>r. ps_error_rate p = Some r \<and> num_val r < 1) \<and> ps_latency_seconds p \<noteq> None
     \<and> cd_target_concurrency d \<le> ep_max_concurrency (pr_effective pol)
     \<and> (\<exists>n. ps_max_concurrency p = Some n \<and> cd_target_concurrency d \<le> n)
     \<and> (\<exists>c. fst (resource_cap s b (pr_effective pol) e) = Some c \<and> cd_target_concurrency d \<le> c)
     \<and> (\<exists>r. ps_quota_remaining_ratio p = Some r \<and> num_val (ep_quota_reserve_ratio (pr_effective pol)) < num_val r)"
proof -
  obtain current now_text status hard_cap cap reasons healthy where
    now: "policy_now clock now = Some (current, now_text)" and "pr_valid pol" and "regressions st s b p = []"
    and trusted: "evidence_reasons current now_text s b p = Some []"
    and v: "trusted_verdict st (pr_effective pol) s b p e current
           = Some (cd_target_concurrency d, status, hard_cap, cap, reasons, healthy, True)"
    using adapt_target [OF assms] by metis
  note evidence_trusted [OF trusted]
  moreover obtain c rr provider_max quota error_rate latency where "hb_state b \<notin> {''draining'', ''stopped'', ''unknown''}"
    and "resource_cap s b (pr_effective pol) e = (Some c, rr)" and "ps_max_concurrency p = Some provider_max"
    and "ps_quota_remaining_ratio p = Some quota" and "ps_timed_out p = Some False"
    and "ps_error_rate p = Some error_rate" and "num_val error_rate < 1" and "ps_latency_seconds p = Some latency"
    and "num_val (ep_quota_reserve_ratio (pr_effective pol)) < num_val quota"
    and "hard_cap = min (min (ep_max_concurrency (pr_effective pol)) provider_max) c"
    and "cd_target_concurrency d \<le> hard_cap"
    using trusted_target [OF v assms(2)] by metis
  ultimately show ?thesis
    using now \<open>pr_valid pol\<close> \<open>regressions st s b p = []\<close> by simp
qed

section \<open>Increases are earned once\<close>

lemma bundle_organization:
  assumes "bundle_from_dict v = Some bundle"
  shows "1 \<le> ep_additive_increase (pr_effective (resolve_policy bundle))"
    and "1 \<le> ep_scale_up_windows (pr_effective (resolve_policy bundle))"
    and "0 < num_val (ep_decrease_factor (pr_effective (resolve_policy bundle)))"
    and "num_val (ep_decrease_factor (pr_effective (resolve_policy bundle))) < 1"
proof -
  from assms obtain d where "organization_post_init d = Some (pb_organization bundle)"
    by (auto simp: bundle_from_dict_def bundle_post_init_Some organization_from_dict_def bind_eq_Some_conv)
  then have "1 \<le> og_additive_increase (pb_organization bundle)" "1 \<le> og_scale_up_windows (pb_organization bundle)"
      "0 < num_val (og_decrease_factor (pb_organization bundle))" "num_val (og_decrease_factor (pb_organization bundle)) < 1"
    by (auto simp: organization_post_init_Some integer_Some)
  then show "1 \<le> ep_additive_increase (pr_effective (resolve_policy bundle))"
    and "1 \<le> ep_scale_up_windows (pr_effective (resolve_policy bundle))"
    and "0 < num_val (ep_decrease_factor (pr_effective (resolve_policy bundle)))"
    and "num_val (ep_decrease_factor (pr_effective (resolve_policy bundle))) < 1"
    by (simp_all add: resolve_policy_parts effective_of_def)
qed

lemma decrease_lowers:
  fixes n :: int and f :: rat
  assumes "0 \<le> n" and "0 < f" and "f < 1"
  shows "\<lfloor>of_int n * f\<rfloor> \<le> n"
proof -
  have "of_int n * f \<le> of_int n"
    using assms mult_left_mono [of f 1 "of_int n"] by simp
  then show ?thesis
    by (simp add: floor_le_iff)
qed

lemma concurrency_accepted: "concurrency_from_dict v = Some st \<Longrightarrow> concurrency_valid st"
  by (auto simp: concurrency_from_dict_def concurrency_post_init_def concurrency_valid_def bind_eq_Some_conv
      check_iffs optional_def policy_timestamp_def split: if_splits json.splits)

text \<open>A rise above a limit that is already at the minimum: every gate of the hysteresis was passed.\<close>

lemma capped_rise:
  assumes "capped_verdict st q b same current hard_cap cap rs er la = Some (target, status, hc, cap', reasons, healthy, accept)"
    and "as_current_limit st < target" and "0 \<le> as_current_limit st"
    and "0 < num_val (ep_decrease_factor q)" and "num_val (ep_decrease_factor q) < 1"
  shows "usage_status (hb_reserved_usage b) (hb_actual_usage b) \<noteq> ''unknown'' \<and> as_current_limit st \<le> hard_cap
     \<and> (\<exists>latency. ep_target_latency_seconds q = Some latency
          \<and> (pressure_reasons q (num_val latency) b er la \<noteq> [] \<and> as_current_limit st < ep_min_concurrency q
               \<and> target = min (ep_min_concurrency q) hard_cap
             \<or> pressure_reasons q (num_val latency) b er la = [] \<and> hb_state b \<noteq> ''busy'' \<and> healthy = 0
               \<and> (if as_current_limit st < ep_min_concurrency q then target = min (ep_min_concurrency q) hard_cap
                  else hysteresis st q same current hard_cap cap rs
                    = Some (target, status, hc, cap', reasons, healthy, accept))))"
proof -
  have "\<lfloor>of_int (as_current_limit st) * num_val (ep_decrease_factor q)\<rfloor> \<le> as_current_limit st"
    by (rule decrease_lowers) (use assms in auto)
  with assms(1-3) show ?thesis
    by (auto simp: capped_verdict_def bind_eq_Some_conv Let_def split: if_splits
        dest: hysteresis_verdict)
qed

lemma rise_verdict:
  assumes "adapt_concurrency st (resolve_policy bundle) s b p e clock now = Some d"
    and "concurrency_valid st" and "as_current_limit st < cd_target_concurrency d"
  obtains current now_text status c rr provider_max error_rate latency reasons healthy cap hard_cap
  where "policy_now clock now = Some (current, now_text)"
    and "resource_cap s b (pr_effective (resolve_policy bundle)) e = (Some c, rr)"
    and "ps_max_concurrency p = Some provider_max"
    and "ps_error_rate p = Some error_rate" and "ps_latency_seconds p = Some latency"
    and "hard_cap = min (min (ep_max_concurrency (pr_effective (resolve_policy bundle))) provider_max) c"
    and "cd_target_concurrency d \<le> hard_cap"
    and "capped_verdict st (pr_effective (resolve_policy bundle)) b (same_window st s b p) current hard_cap (Some c) rr
           (num_val error_rate) (num_val latency)
           = Some (cd_target_concurrency d, status, hard_cap, cap, reasons, healthy, True)"
    and "cd_next_state d = concurrency_of st (cd_target_concurrency d) healthy now_text s b p True"
    and "cd_status d = status" and "0 \<le> as_current_limit st"
proof -
  have least: "0 \<le> as_current_limit st"
    using assms(2) by (simp add: concurrency_valid_def)
  with assms(3) have pos: "0 < cd_target_concurrency d"
    by simp
  obtain current now_text status hard_cap cap reasons healthy where
    a: "policy_now clock now = Some (current, now_text)"
      "trusted_verdict st (pr_effective (resolve_policy bundle)) s b p e current
           = Some (cd_target_concurrency d, status, hard_cap, cap, reasons, healthy, True)"
      "cd_next_state d = concurrency_of st (cd_target_concurrency d) healthy now_text s b p True" "cd_status d = status"
    using adapt_target [OF assms(1) pos] by metis
  from trusted_target [OF a(2) pos] that a(1,3,4) least show thesis
    by (metis (no_types, lifting))
qed

text \<open>C30. An increase beyond the policy's minimum is earned: it is at most one additive step, comes with
  the use within its reservation, a worker that is not busy and a provider within the policy's error
  rate and latency, after the required number of healthy windows and the cooldown, and starts the
  count of windows again.
\<close>

theorem increase_is_earned:
  assumes "bundle_from_dict v = Some bundle" and "concurrency_from_dict w = Some st"
    and "adapt_concurrency st (resolve_policy bundle) s b p e clock now = Some d"
    and "as_current_limit st < cd_target_concurrency d"
    and "ep_min_concurrency (pr_effective (resolve_policy bundle)) \<le> as_current_limit st"
  shows "let q = pr_effective (resolve_policy bundle) in
     cd_target_concurrency d \<le> as_current_limit st + ep_additive_increase q \<and> cd_status d = ''increase''
     \<and> usage_status (hb_reserved_usage b) (hb_actual_usage b) = ''within'' \<and> hb_state b \<noteq> ''busy''
     \<and> (\<exists>r. ps_error_rate p = Some r \<and> num_val r \<le> num_val (ep_max_error_rate q))
     \<and> (\<exists>l t. ps_latency_seconds p = Some l \<and> ep_target_latency_seconds q = Some t \<and> num_val l \<le> num_val t)
     \<and> ep_scale_up_windows q \<le> (if same_window st s b p then as_healthy_windows st else as_healthy_windows st + 1)
     \<and> (\<exists>current text. policy_now clock now = Some (current, text)
          \<and> pred_option (\<lambda>z. pred_option (\<lambda>t. ep_cooldown_seconds q * 1000000 \<le> current - t) (policy_time z))
              (as_last_adjusted_at st))
     \<and> as_healthy_windows (cd_next_state d) = 0"
proof -
  let ?q = "pr_effective (resolve_policy bundle)"
  obtain current now_text status c rr provider_max error_rate latency reasons healthy cap hard_cap where
    now: "policy_now clock now = Some (current, now_text)"
    and p: "ps_error_rate p = Some error_rate" "ps_latency_seconds p = Some latency"
    and v: "capped_verdict st ?q b (same_window st s b p) current hard_cap (Some c) rr (num_val error_rate) (num_val latency)
           = Some (cd_target_concurrency d, status, hard_cap, cap, reasons, healthy, True)"
    and d: "cd_next_state d = concurrency_of st (cd_target_concurrency d) healthy now_text s b p True"
      "cd_status d = status" "0 \<le> as_current_limit st"
    using rise_verdict [OF assms(3) concurrency_accepted [OF assms(2)] assms(4)] by metis
  from capped_rise [OF v assms(4) d(3) bundle_organization(3,4) [OF assms(1)]] assms(5)
  obtain target_latency where rise: "ep_target_latency_seconds ?q = Some target_latency"
      "pressure_reasons ?q (num_val target_latency) b (num_val error_rate) (num_val latency) = []"
      "hb_state b \<noteq> ''busy''" "usage_status (hb_reserved_usage b) (hb_actual_usage b) \<noteq> ''unknown''" "healthy = 0"
    and h: "hysteresis st ?q (same_window st s b p) current hard_cap (Some c) rr
        = Some (cd_target_concurrency d, status, hard_cap, cap, reasons, healthy, True)"
    by auto
  have "usage_status (hb_reserved_usage b) (hb_actual_usage b) \<in> {''exceeded'', ''unknown'', ''within''}"
    by (simp add: usage_status_def split: prod.splits)
  with rise(2,4) have "usage_status (hb_reserved_usage b) (hb_actual_usage b) = ''within''"
      "num_val error_rate \<le> num_val (ep_max_error_rate ?q)" "num_val latency \<le> num_val target_latency"
    by (auto simp: pressure_reasons_def split: if_splits)
  with hysteresis_verdict [OF h] assms(4) rise now p d show ?thesis
    by (auto simp: Let_def concurrency_of_def split: if_splits)
qed

text \<open>Evidence raises the limit once: when a decision raised it, the same snapshot, heartbeat and
  provider signals, evaluated again from the next state at any later time, do not raise it further.
\<close>

theorem same_evidence_raises_once:
  assumes "bundle_from_dict v = Some bundle" and "concurrency_from_dict w = Some st"
    and "adapt_concurrency st (resolve_policy bundle) s b p e clock now = Some d"
    and "as_current_limit st < cd_target_concurrency d"
    and "adapt_concurrency (cd_next_state d) (resolve_policy bundle) s b p e clock' now' = Some d'"
  shows "cd_target_concurrency d' \<le> cd_target_concurrency d"
proof (rule ccontr)
  let ?q = "pr_effective (resolve_policy bundle)"
  assume "\<not> cd_target_concurrency d' \<le> cd_target_concurrency d"
  then have less: "cd_target_concurrency d < cd_target_concurrency d'"
    by simp
  obtain current now_text status c rr provider_max error_rate latency reasons healthy cap hard_cap where
    one: "resource_cap s b ?q e = (Some c, rr)" "ps_max_concurrency p = Some provider_max"
      "ps_error_rate p = Some error_rate" "ps_latency_seconds p = Some latency"
      "hard_cap = min (min (ep_max_concurrency ?q) provider_max) c"
    and v: "capped_verdict st ?q b (same_window st s b p) current hard_cap (Some c) rr (num_val error_rate) (num_val latency)
           = Some (cd_target_concurrency d, status, hard_cap, cap, reasons, healthy, True)"
    and d: "cd_next_state d = concurrency_of st (cd_target_concurrency d) healthy now_text s b p True"
      "0 \<le> as_current_limit st"
    using rise_verdict [OF assms(3) concurrency_accepted [OF assms(2)] assms(4)] by metis
  have "concurrency_valid (cd_next_state d)"
    using assms(3) by (auto simp: adapt_concurrency_def bind_eq_Some_conv decision_of_def Let_def split: prod.splits if_splits)
  moreover have next_state: "as_current_limit (cd_next_state d) = cd_target_concurrency d"
      "as_healthy_windows (cd_next_state d) = healthy" "same_window (cd_next_state d) s b p"
    by (simp_all add: d concurrency_of_def same_window_def)
  ultimately obtain current' status' c' rr' provider_max' error_rate' latency' reasons' healthy' cap' hard_cap' where
    two: "resource_cap s b ?q e = (Some c', rr')" "ps_max_concurrency p = Some provider_max'"
      "ps_error_rate p = Some error_rate'" "ps_latency_seconds p = Some latency'"
      "hard_cap' = min (min (ep_max_concurrency ?q) provider_max') c'"
    and w: "capped_verdict (cd_next_state d) ?q b (same_window (cd_next_state d) s b p) current' hard_cap' (Some c') rr'
           (num_val error_rate') (num_val latency')
           = Some (cd_target_concurrency d', status', hard_cap', cap', reasons', healthy', True)"
    using rise_verdict [OF assms(5)] less by metis
  from one two have "c' = c" "rr' = rr" "error_rate' = error_rate" "latency' = latency" "hard_cap' = hard_cap"
    by simp_all
  with w next_state(3)
  have v': "capped_verdict (cd_next_state d) ?q b True current' hard_cap (Some c) rr (num_val error_rate) (num_val latency)
           = Some (cd_target_concurrency d', status', hard_cap, cap', reasons', healthy', True)"
    by simp
  note factor = bundle_organization(3,4) [OF assms(1)]
  note first = capped_rise [OF v assms(4) d(2) factor]
  have again: "as_current_limit (cd_next_state d) < cd_target_concurrency d'" "0 \<le> as_current_limit (cd_next_state d)"
    using next_state(1) less d(2) assms(4) by simp_all
  note second = capped_rise [OF v' again factor, unfolded next_state]
  have "healthy = 0 \<and> hysteresis (cd_next_state d) ?q True current' hard_cap (Some c) rr
      = Some (cd_target_concurrency d', status', hard_cap, cap', reasons', healthy', True)"
  proof (cases "as_current_limit st < ep_min_concurrency ?q")
    case True
    with first second less show ?thesis
      by (auto split: if_splits)
  next
    case False
    with first second less assms(4) show ?thesis
      by (auto split: if_splits)
  qed
  then have "healthy = 0" and "hysteresis (cd_next_state d) ?q True current' hard_cap (Some c) rr
      = Some (cd_target_concurrency d', status', hard_cap, cap', reasons', healthy', True)"
    by simp_all
  from hysteresis_verdict [OF this(2)] this(1) next_state less bundle_organization(2) [OF assms(1)] show False
    by simp
qed

section \<open>The documents are wire formats\<close>

lemma policy_timestamp_Some: "policy_timestamp v = Some s \<longleftrightarrow> v = JStr s \<and> policy_time s \<noteq> None"
  by (cases v) (auto simp: policy_timestamp_def bind_eq_Some_conv)

lemma mount_path_of_absolute: "mount_path_of v = absolute_path v"
proof (cases v)
  case (JStr s)
  have "\<not> py_blank s" if "s \<noteq> []" "take 1 (slashes s) = ''/'' \<or> windows_abs_re s"
    using that alpha_plain by (cases s) (auto simp: py_blank_def slashes_def windows_abs_re_def py_space_def Let_def
        split: if_splits list.splits)
  moreover have "py_blank []"
    by (simp add: py_blank_def)
  ultimately show ?thesis
    by (auto simp: JStr mount_path_of_def absolute_path_def canonical_mount_path_def require_def)
qed (simp_all add: mount_path_of_def absolute_path_def)

lemma optional_timestamp_Some:
  "optional policy_timestamp v = Some z \<longleftrightarrow> v = opt_json JStr z \<and> pred_option (\<lambda>s. policy_time s \<noteq> None) z"
  by (rule optional_Some) (simp_all add: policy_timestamp_Some)

lemma plain_array_Some:
  "json_array plain_text v = Some xs \<longleftrightarrow> v = JArr (map JStr xs) \<and> list_all (\<lambda>s. s \<noteq> []) xs"
proof -
  have "plain_text w = Some s \<longleftrightarrow> w = JStr s \<and> s \<noteq> []" for w s
    by (cases w) (auto simp: plain_text_def)
  then have "list_all2 (\<lambda>w s. plain_text w = Some s) ws xs \<longleftrightarrow> ws = map JStr xs \<and> list_all (\<lambda>s. s \<noteq> []) xs" for ws
    by (induction ws xs rule: list_induct2') auto
  then show ?thesis
    by (auto simp: json_array_Some checked_list_Some)
qed

lemmas decision_simps = policy_simps policy_timestamp_Some optional_timestamp_Some plain_array_Some mount_path_of_absolute

lemma provider_post_init_Some:
  "provider_post_init d = Some x \<longleftrightarrow>
     identifier_of (dget0 d ''provider_id'') = Some (ps_provider_id x) \<and>
     optional (integer 0) (dget0 d ''max_concurrency'') = Some (ps_max_concurrency x) \<and>
     optional ratio (dget0 d ''quota_remaining_ratio'') = Some (ps_quota_remaining_ratio x) \<and>
     optional ratio (dget0 d ''error_rate'') = Some (ps_error_rate x) \<and>
     optional (number 0) (dget0 d ''latency_seconds'') = Some (ps_latency_seconds x) \<and>
     optional boolean (dget0 d ''timed_out'') = Some (ps_timed_out x) \<and>
     policy_timestamp (dget0 d ''observed_at'') = Some (ps_observed_at x) \<and>
     optional (integer 1) (dget0 d ''ttl_seconds'') = Some (ps_ttl_seconds x) \<and>
     optional ratio (dget0 d ''confidence'') = Some (ps_confidence x) \<and>
     integer 1 (dget0 d ''sequence'') = Some (ps_sequence x)"
  by (cases x) (auto simp: provider_post_init_def bind_eq_Some_conv)

interpretation provider_wire: wire provider_from_dict provider_to_dict
proof
  fix v x assume "provider_from_dict v = Some x"
  then obtain d where "provider_post_init d = Some x"
    by (auto simp: provider_from_dict_def bind_eq_Some_conv)
  then show "provider_from_dict (canon (provider_to_dict x)) = Some x"
    by (simp add: decision_simps provider_from_dict_def provider_post_init_Some provider_to_dict_def provider_fields_def)
qed (simp_all add: provider_to_dict_def del: no_dup_keys.simps(6))

lemma estimate_post_init_Some:
  "estimate_post_init d = Some x \<longleftrightarrow>
     integer 1 (dget0 d ''memory_bytes_per_slot'') = Some (te_memory_bytes_per_slot x) \<and>
     integer 1 (dget0 d ''disk_bytes_per_slot'') = Some (te_disk_bytes_per_slot x) \<and>
     optional positive_number (dget0 d ''cpu_cores_per_slot'') = Some (te_cpu_cores_per_slot x) \<and>
     optional (integer 0) (dget0 d ''swap_bytes_per_slot'') = Some (te_swap_bytes_per_slot x) \<and>
     optional (integer 0) (dget0 d ''gpu_memory_bytes_per_slot'') = Some (te_gpu_memory_bytes_per_slot x) \<and>
     optional (integer 0) (dget0 d ''inodes_per_slot'') = Some (te_inodes_per_slot x) \<and>
     optional (integer 0) (dget0 d ''owned_process_rss_bytes_per_slot'') = Some (te_owned_process_rss_bytes_per_slot x) \<and>
     mount_path_of (dget0 d ''mount_path'') = Some (te_mount_path x)"
  by (cases x) (auto simp: estimate_post_init_def bind_eq_Some_conv)

interpretation estimate_wire: wire estimate_from_dict estimate_to_dict
proof
  fix v x assume "estimate_from_dict v = Some x"
  then obtain d where "estimate_post_init d = Some x"
    by (auto simp: estimate_from_dict_def bind_eq_Some_conv)
  then show "estimate_from_dict (canon (estimate_to_dict x)) = Some x"
    by (auto simp: decision_simps estimate_from_dict_def estimate_post_init_Some estimate_to_dict_def estimate_fields_def
        dest: absolute_path_stable)
qed (simp_all add: estimate_to_dict_def del: no_dup_keys.simps(6))

lemma concurrency_post_init_Some:
  "concurrency_post_init d = Some x \<longleftrightarrow>
     integer 0 (dget0 d ''current_limit'') = Some (as_current_limit x) \<and>
     integer 0 (dget0 d ''healthy_windows'') = Some (as_healthy_windows x) \<and>
     optional policy_timestamp (dget0 d ''last_adjusted_at'') = Some (as_last_adjusted_at x) \<and>
     optional (integer 1) (dget0 d ''last_resource_sequence'') = Some (as_last_resource_sequence x) \<and>
     optional (integer 1) (dget0 d ''last_heartbeat_sequence'') = Some (as_last_heartbeat_sequence x) \<and>
     optional (integer 1) (dget0 d ''last_provider_sequence'') = Some (as_last_provider_sequence x)"
  by (cases x) (auto simp: concurrency_post_init_def bind_eq_Some_conv)

interpretation concurrency_wire: wire concurrency_from_dict concurrency_to_dict
proof
  fix v x assume "concurrency_from_dict v = Some x"
  then obtain d where "concurrency_post_init d = Some x"
    by (auto simp: concurrency_from_dict_def bind_eq_Some_conv)
  then show "concurrency_from_dict (canon (concurrency_to_dict x)) = Some x"
    by (simp add: decision_simps concurrency_from_dict_def concurrency_post_init_Some concurrency_to_dict_def
        concurrency_fields_def)
qed (simp_all add: concurrency_to_dict_def del: no_dup_keys.simps(6))

text \<open>A state is readable exactly when it passes the checks of the constructor.\<close>

lemma concurrency_valid_wire:
  "concurrency_valid x \<longleftrightarrow> concurrency_from_dict (concurrency_to_dict x) = Some x"
  by (simp add: concurrency_from_dict_def concurrency_to_dict_def strict_object_def concurrency_fields_def
      concurrency_post_init_Some decision_simps concurrency_valid_def dget0_def)

lemma decision_post_init_Some:
  "decision_post_init d y = Some x \<longleftrightarrow>
     integer 0 (dget0 d ''target_concurrency'') = Some (cd_target_concurrency x) \<and>
     enum decision_statuses (dget0 d ''status'') = Some (cd_status x) \<and>
     integer 0 (dget0 d ''hard_cap'') = Some (cd_hard_cap x) \<and>
     optional (integer 0) (dget0 d ''resource_cap'') = Some (cd_resource_cap x) \<and>
     json_array plain_text (dget0 d ''reasons'') = Some (cd_reasons x) \<and> y = cd_next_state x"
  by (cases x) (auto simp: decision_post_init_def bind_eq_Some_conv)

interpretation decision_wire: wire decision_from_dict decision_to_dict
proof
  fix v x assume "decision_from_dict v = Some x"
  then obtain d where d: "decision_post_init d (cd_next_state x) = Some x"
    and part: "concurrency_from_dict (dget0 d ''next_state'') = Some (cd_next_state x)"
    by (auto simp: decision_from_dict_def bind_eq_Some_conv decision_post_init_Some)
  then show "decision_from_dict (canon (decision_to_dict x)) = Some x"
    by (simp add: decision_simps decision_from_dict_def decision_post_init_Some decision_to_dict_def
        decision_fields_def concurrency_wire.canonical [OF part])
  show "no_dup_keys (decision_to_dict x)"
    using concurrency_wire.clean [OF part] by (simp add: decision_to_dict_def list_all_iff)
qed (simp add: decision_to_dict_def)

lemma input_from_dict_Some:
  "input_from_dict v = Some x \<longleftrightarrow> (\<exists>d. strict_object input_fields v = Some d \<and>
     bundle_from_dict (dget0 d ''bundle'') = Some (di_bundle x) \<and>
     concurrency_from_dict (dget0 d ''state'') = Some (di_state x) \<and>
     resources_from_dict (dget0 d ''resource_snapshot'') = Some (di_resource_snapshot x) \<and>
     heartbeat_from_dict (dget0 d ''heartbeat'') = Some (di_heartbeat x) \<and>
     provider_from_dict (dget0 d ''provider'') = Some (di_provider x) \<and>
     estimate_from_dict (dget0 d ''task_resources'') = Some (di_task_resources x) \<and>
     version_one (dget0 d ''schema_version'') = Some (di_schema_version x) \<and>
     policy_timestamp (dget0 d ''now'') = Some (di_now x))"
  by (cases x) (auto simp: input_from_dict_def bind_eq_Some_conv)

interpretation input_wire: wire input_from_dict input_to_dict
proof
  fix v x assume "input_from_dict v = Some x"
  then obtain d where parts: "bundle_from_dict (dget0 d ''bundle'') = Some (di_bundle x)"
      "concurrency_from_dict (dget0 d ''state'') = Some (di_state x)"
      "resources_from_dict (dget0 d ''resource_snapshot'') = Some (di_resource_snapshot x)"
      "heartbeat_from_dict (dget0 d ''heartbeat'') = Some (di_heartbeat x)"
      "provider_from_dict (dget0 d ''provider'') = Some (di_provider x)"
      "estimate_from_dict (dget0 d ''task_resources'') = Some (di_task_resources x)"
    and scalars: "version_one (dget0 d ''schema_version'') = Some (di_schema_version x)"
      "policy_timestamp (dget0 d ''now'') = Some (di_now x)"
    by (auto simp: input_from_dict_Some)
  note canonical = bundle_wire.canonical [OF parts(1)] concurrency_wire.canonical [OF parts(2)]
    resources_wire.canonical [OF parts(3)] heartbeat_wire.canonical [OF parts(4)]
    provider_wire.canonical [OF parts(5)] estimate_wire.canonical [OF parts(6)]
  from scalars show "input_from_dict (canon (input_to_dict x)) = Some x"
    by (simp add: decision_simps input_from_dict_Some input_to_dict_def input_fields_def canonical)
  show "no_dup_keys (input_to_dict x)"
    using bundle_wire.clean [OF parts(1)] concurrency_wire.clean [OF parts(2)] resources_wire.clean [OF parts(3)]
      heartbeat_wire.clean [OF parts(4)] provider_wire.clean [OF parts(5)] estimate_wire.clean [OF parts(6)]
    by (simp add: input_to_dict_def)
qed (simp add: input_to_dict_def)

section \<open>Examples\<close>

definition sample_bundle :: "num_value option \<Rightarrow> policy_bundle" where
  "sample_bundle latency =
     \<lparr>pb_schema_version = NInt 1,
      pb_safety = \<lparr>sv_hard_max_concurrency = 4, sv_min_memory_reserve_bytes = 100, sv_min_disk_reserve_bytes = 0,
        sv_min_quota_reserve_ratio = NFlt (1 / 10), sv_max_error_rate = NFlt (1 / 2)\<rparr>,
      pb_organization = \<lparr>og_policy_id = ''default'', og_revision = 1, og_min_concurrency = 1, og_max_concurrency = 8,
        og_memory_reserve_bytes = 50, og_disk_reserve_bytes = 100, og_quota_reserve_ratio = NFlt (1 / 5),
        og_max_error_rate = NFlt (1 / 4), og_target_latency_seconds = latency, og_additive_increase = 1,
        og_decrease_factor = NFlt (1 / 2), og_scale_up_windows = 1, og_cooldown_seconds = 60\<rparr>,
      pb_task = None\<rparr>"

definition sample_concurrency :: "int \<Rightarrow> concurrency_state" where
  "sample_concurrency n =
     \<lparr>as_current_limit = n, as_healthy_windows = 0, as_last_adjusted_at = Some ''2026-07-25T09:58:00Z'',
      as_last_resource_sequence = None, as_last_heartbeat_sequence = None, as_last_provider_sequence = None\<rparr>"

definition sample_evidence :: resource_snapshot where
  "sample_evidence = sample_resources ''/srv/data''
     \<lparr>rs_cpu := \<lparr>cr_capacity_cores = Some (NInt 8), cr_allocatable_cores = None, cr_available_cores = Some (NFlt (9 / 2)),
        cr_utilization_percent = None\<rparr>,
      rs_ram := unknown_memory\<lparr>mr_available_bytes := Some 400\<rparr>\<rparr>"

definition full_usage :: "int \<Rightarrow> resource_usage" where
  "full_usage n = sample_usage n\<lparr>us_cpu_cores := Some (NInt 1), us_disk_bytes := Some n\<rparr>"

definition sample_beat :: worker_heartbeat where
  "sample_beat = sample_heartbeat 1 1\<lparr>hb_reserved_usage := full_usage 8, hb_actual_usage := full_usage 4\<rparr>"

definition sample_provider :: "num_value \<Rightarrow> provider_signals" where
  "sample_provider latency =
     \<lparr>ps_provider_id = ''provider-a'', ps_max_concurrency = Some 6, ps_quota_remaining_ratio = Some (NFlt (9 / 10)),
      ps_error_rate = Some (NInt 0), ps_latency_seconds = Some latency, ps_timed_out = Some False,
      ps_observed_at = ''2026-07-25T10:00:00Z'', ps_ttl_seconds = Some 60, ps_confidence = Some (NInt 1), ps_sequence = 1\<rparr>"

definition sample_estimate :: task_estimate where
  "sample_estimate =
     \<lparr>te_memory_bytes_per_slot = 100, te_disk_bytes_per_slot = 100, te_mount_path = ''/srv/data'',
      te_cpu_cores_per_slot = Some (NInt 1), te_swap_bytes_per_slot = Some 0, te_gpu_memory_bytes_per_slot = Some 0,
      te_inodes_per_slot = Some 0, te_owned_process_rss_bytes_per_slot = Some 0\<rparr>"

definition sample_adapt :: "num_value option \<Rightarrow> num_value \<Rightarrow> concurrency_state \<Rightarrow> concurrency_decision option" where
  "sample_adapt target latency st =
     adapt_concurrency st (resolve_policy (sample_bundle target)) sample_evidence sample_beat (sample_provider latency)
       sample_estimate 0 (Some ''2026-07-25T10:00:30Z'')"

lemma sample_decisions:
  "map_option cd_target_concurrency (sample_adapt (Some (NInt 10)) (NInt 2) (sample_concurrency 1)) = Some 2"
  "map_option cd_target_concurrency
     (Option.bind (sample_adapt (Some (NInt 10)) (NInt 2) (sample_concurrency 1))
       (\<lambda>d. sample_adapt (Some (NInt 10)) (NInt 2) (cd_next_state d))) = Some 2"
  "map_option (\<lambda>d. (cd_target_concurrency d, cd_status d))
     (sample_adapt (Some (NInt 10)) (NInt 20) (sample_concurrency 0)) = Some (1, ''hold'')"
  "sample_adapt None (NInt 2) (sample_concurrency 1) = None"
  by code_simp+

lemma sample_documents:
  "bundle_from_dict (bundle_to_dict (sample_bundle (Some (NInt 10)))) = Some (sample_bundle (Some (NInt 10)))"
  "concurrency_from_dict (concurrency_to_dict (sample_concurrency 1)) = Some (sample_concurrency 1)"
  "estimate_from_dict (estimate_to_dict sample_estimate) = Some sample_estimate"
  by code_simp+

lemma sample_cap: "resource_cap sample_evidence sample_beat (pr_effective (resolve_policy (sample_bundle None))) sample_estimate = (Some 3, [])"
  by code_simp

theorem resource_cap_fits_the_host_witness:
  "\<exists>ram. mr_available_bytes (rs_ram sample_evidence) = Some ram \<and> 3 * te_memory_bytes_per_slot sample_estimate + 100 \<le> ram"
proof -
  have reserve: "ep_memory_reserve_bytes (pr_effective (resolve_policy (sample_bundle None))) = 100"
    and idle: "3 = 3 - int (length (hb_active_execution_handles sample_beat))"
    by code_simp+
  show ?thesis
    using resource_cap_fits_the_host [OF sample_documents(3) sample_cap idle] unfolding reserve by auto
qed

lemma sample_rise:
  obtains d where "sample_adapt (Some (NInt 10)) (NInt 2) (sample_concurrency 1) = Some d" and "cd_target_concurrency d = 2"
  using sample_decisions(1) by auto

theorem positive_target_needs_trusted_evidence_witness:
  "\<exists>c. fst (resource_cap sample_evidence sample_beat (pr_effective (resolve_policy (sample_bundle (Some (NInt 10)))))
         sample_estimate) = Some c \<and> 2 \<le> c"
proof -
  obtain d where d: "sample_adapt (Some (NInt 10)) (NInt 2) (sample_concurrency 1) = Some d" "cd_target_concurrency d = 2"
    by (rule sample_rise)
  show ?thesis
    using positive_target_needs_trusted_evidence [OF d(1) [unfolded sample_adapt_def]] d(2) by auto
qed

theorem increase_is_earned_witness:
  "\<exists>d. sample_adapt (Some (NInt 10)) (NInt 2) (sample_concurrency 1) = Some d \<and> cd_status d = ''increase''"
proof -
  obtain d where d: "sample_adapt (Some (NInt 10)) (NInt 2) (sample_concurrency 1) = Some d" "cd_target_concurrency d = 2"
    by (rule sample_rise)
  have "ep_min_concurrency (pr_effective (resolve_policy (sample_bundle (Some (NInt 10))))) \<le> 1"
    by code_simp
  then show ?thesis
    using increase_is_earned [OF sample_documents(1,2) d(1) [unfolded sample_adapt_def]] d
    by (auto simp: sample_concurrency_def Let_def)
qed

theorem same_evidence_raises_once_witness:
  "\<exists>d d'. sample_adapt (Some (NInt 10)) (NInt 2) (sample_concurrency 1) = Some d
     \<and> sample_adapt (Some (NInt 10)) (NInt 2) (cd_next_state d) = Some d'
     \<and> cd_target_concurrency d' \<le> cd_target_concurrency d"
proof -
  obtain d where d: "sample_adapt (Some (NInt 10)) (NInt 2) (sample_concurrency 1) = Some d" "cd_target_concurrency d = 2"
    by (rule sample_rise)
  moreover obtain d' where d': "sample_adapt (Some (NInt 10)) (NInt 2) (cd_next_state d) = Some d'"
    using sample_decisions(2) d(1) by auto
  ultimately show ?thesis
    using same_evidence_raises_once [OF sample_documents(1,2) d(1) [unfolded sample_adapt_def] _ d' [unfolded sample_adapt_def]]
    by (auto simp: sample_concurrency_def)
qed

end
