(* ===== verification/Hosts.thy ===== *)
theory Hosts
  imports Timestamps
begin

text \<open>
  The resource digital twin the scheduler reads (\<open>domain/world_state.py\<close>): hosts with their CPU, RAM,
  GPUs and mounts, every reading with the observation it comes from. Unknown values are \<open>None\<close>.

  Amounts are exact rationals, where the program has integers and doubles; the two agree for whole
  amounts below \<open>2 ^ 53\<close>. Reading a stamp fails (\<open>None\<close>) where \<open>datetime.fromisoformat\<close> raises.
\<close>

section \<open>Observations\<close>

record observation =
  on_kind :: string
  on_source :: string
  on_observed_at :: string
  on_evidence :: "string list"
  on_ttl_seconds :: "rat option"
  on_confidence :: "rat option"

definition parse_iso_text :: "string \<Rightarrow> int option" where
  "parse_iso_text v = fromisoformat (with_utc_suffix (py_strip v))"

text \<open>The three values of \<open>is_stale\<close>: \<open>False\<close>, \<open>True\<close> and \<open>None\<close>.\<close>

datatype staleness = Fresh | Stale | Unverifiable

definition is_stale :: "int \<Rightarrow> string option \<Rightarrow> observation \<Rightarrow> staleness option" where
  "is_stale clock now b =
     (case on_ttl_seconds b of
        None \<Rightarrow> Some Unverifiable
      | Some ttl \<Rightarrow>
          (case (case now of None \<Rightarrow> Some clock
                 | Some s \<Rightarrow> if s = [] then Some clock else parse_iso_text s) of
             None \<Rightarrow> None
           | Some anchor \<Rightarrow>
               (case parse_iso_text (on_observed_at b) of
                  None \<Rightarrow> None
                | Some t \<Rightarrow>
                    Some (if anchor < t then Unverifiable
                          else if ttl < of_int (anchor - t) / 1000000 then Stale else Fresh))))"

section \<open>Hosts\<close>

record resource_values =
  rv_units :: string
  rv_capacity :: "rat option"
  rv_allocatable :: "rat option"
  rv_available_now :: "rat option"
  rv_reserved :: "rat option"
  rv_used :: "rat option"

record numa_node =
  nn_node_id :: string
  nn_cpu_ids :: "string list"
  nn_ram_bytes :: "int option"

record numa_topology =
  nt_nodes :: "numa_node list"
  nt_distances :: "int list list option"

record cpu_topology =
  ct_sockets :: "int option"
  ct_cores :: "int option"
  ct_threads :: "int option"
  ct_model :: "string option"
  ct_numa :: "numa_topology option"
  ct_observation :: "observation option"

record ram_state =
  ra_values :: resource_values
  ra_cgroup_limit_bytes :: "int option"
  ra_cgroup_current_bytes :: "int option"
  ra_observation :: "observation option"

record gpu_process =
  gp_pid :: int
  gp_name :: string
  gp_vram_mib :: "int option"

record gpu_state =
  gs_index :: string
  gs_model :: "string option"
  gs_vram :: "resource_values option"
  gs_processes :: "gpu_process list"
  gs_cuda_compatible :: "bool option"
  gs_observation :: "observation option"

record quota_state =
  qs_kind :: string
  qs_unit :: string
  qs_limit :: "rat option"
  qs_used :: "rat option"
  qs_free :: "rat option"
  qs_source :: "string option"

record mount_state =
  ms_path :: string
  ms_device :: "string option"
  ms_fs_type :: "string option"
  ms_options :: "string list"
  ms_writable :: "bool option"
  ms_probed_path :: "string option"
  ms_values :: resource_values
  ms_free_bytes :: "int option"
  ms_free_inodes :: "int option"
  ms_quota :: "quota_state option"
  ms_observation :: "observation option"

definition is_probed :: "mount_state \<Rightarrow> bool" where
  "is_probed m \<longleftrightarrow> ms_probed_path m \<noteq> None"

record runtime_state =
  rt_name :: string
  rt_version :: "string option"
  rt_compatible :: "bool option"
  rt_cuda_supported :: "bool option"
  rt_observation :: "observation option"

record cache_state =
  cc_path :: string
  cc_mount_path :: "string option"
  cc_declared_bytes :: "int option"
  cc_observation :: "observation option"

record dataset_location =
  dl_name :: string
  dl_path :: string
  dl_mount_path :: "string option"
  dl_bytes_total :: "int option"
  dl_classification :: "string option"
  dl_observation :: "observation option"

record host =
  ho_host_id :: string
  ho_name :: string
  ho_os :: "string option"
  ho_arch :: "string option"
  ho_execution_host :: bool
  ho_workload_host :: bool
  ho_cpu :: "cpu_topology option"
  ho_ram :: "ram_state option"
  ho_gpus :: "gpu_state list"
  ho_mounts :: "mount_state list"
  ho_runtimes :: "runtime_state list"
  ho_caches :: "cache_state list"
  ho_datasets :: "dataset_location list"
  ho_observations :: "observation list"
  ho_labels :: "string list"

text \<open>\<open>path.rstrip("/") or "/"\<close> against the stripped path of each mount.\<close>

definition rstrip_slash :: "string \<Rightarrow> string" where
  "rstrip_slash s = rev (dropWhile (\<lambda>c. c = CHR ''/'') (rev s))"

definition host_mount :: "host \<Rightarrow> string \<Rightarrow> mount_state option" where
  "host_mount h path =
     (let wanted = (if rstrip_slash path = [] then ''/'' else rstrip_slash path)
      in List.find (\<lambda>m. rstrip_slash (ms_path m) = wanted) (ho_mounts h))"

text \<open>The VRAM that processes hold, unknown as soon as one of them does not say.\<close>

fun sum_vram :: "int \<Rightarrow> gpu_process list \<Rightarrow> int option" where
  "sum_vram acc [] = Some acc"
| "sum_vram acc (p # ps) =
     (case gp_vram_mib p of None \<Rightarrow> None | Some n \<Rightarrow> sum_vram (acc + n) ps)"

definition in_use_vram_mib :: "gpu_state \<Rightarrow> int option" where
  "in_use_vram_mib g = sum_vram 0 (gs_processes g)"

text \<open>\<open>_min_known\<close>\<close>

definition min_known :: "rat option list \<Rightarrow> rat option" where
  "min_known vs = (case List.map_filter id vs of [] \<Rightarrow> None | x # xs \<Rightarrow> Some (fold min xs x))"

section \<open>World snapshots\<close>

record route_record =
  rr_kind :: string
  rr_status :: string
  rr_verified_at :: "string option"
  rr_evidence :: "string list"
  rr_peer :: "string option"
  rr_rtt_ms :: "rat option"
  rr_throughput_mbps :: "rat option"
  rr_ssh_config :: "string option"
  rr_observation :: "observation option"

definition route_kinds :: "string list" where
  "route_kinds = [''control'', ''artifact'', ''bulk_data'', ''execution'', ''workload'']"

definition route_statuses :: "string list" where
  "route_statuses = [''direct'', ''bastion'', ''proxy'', ''relay'', ''unknown'']"

text \<open>\<open>RouteRecord.__post_init__\<close>, and the evidence \<open>from_dict\<close> asks of a direct route.\<close>

definition route_ok :: "route_record \<Rightarrow> bool" where
  "route_ok r \<longleftrightarrow> rr_kind r \<in> set route_kinds \<and> rr_status r \<in> set route_statuses"

definition direct_route_evidenced :: "route_record \<Rightarrow> bool" where
  "direct_route_evidenced r \<longleftrightarrow>
     (rr_status r = ''direct'' \<longrightarrow> otext (rr_verified_at r) \<noteq> [] \<and> rr_evidence r \<noteq> [])"

record world_snapshot =
  wo_created_at :: string
  wo_hosts :: "host list"
  wo_routes :: "route_record list"
  wo_observations :: "observation list"

definition world_host :: "world_snapshot \<Rightarrow> string \<Rightarrow> host option" where
  "world_host w i = List.find (\<lambda>h. ho_host_id h = i) (wo_hosts w)"

definition world_route :: "world_snapshot \<Rightarrow> string \<Rightarrow> route_record option" where
  "world_route w k = List.find (\<lambda>r. rr_kind r = k) (wo_routes w)"

definition route_status :: "world_snapshot \<Rightarrow> string \<Rightarrow> string" where
  "route_status w k = (case world_route w k of None \<Rightarrow> ''unknown'' | Some r \<Rightarrow> rr_status r)"

definition hosts_with_role :: "world_snapshot \<Rightarrow> bool \<Rightarrow> bool \<Rightarrow> host list" where
  "hosts_with_role w execution workload =
     filter (\<lambda>h. ho_execution_host h = execution \<and> ho_workload_host h = workload) (wo_hosts w)"

end
