(* ===== verification/Topology.thy ===== *)
theory Topology
  imports Hosts "HOL-Library.Multiset"
begin

text \<open>
  The placement gates over storage and GPUs (\<open>resources/topology.py\<close>): a path is judged by the
  evidence of its own mount and of no other.

  Paths are parsed as \<open>pathlib\<close> of Python 3.10 parses them, by their shape and not by the system the
  controller runs on. The texts of reasons are constructors that carry the values the text quotes.
  \<open>evaluate_placement\<close> is \<open>None\<close> where a stamp cannot be read and the program raises \<open>ValueError\<close>.
\<close>

section \<open>Paths\<close>

datatype path_flavour = PosixPath | WindowsPath

text \<open>The anchor and the names below it; \<open>parts\<close> is the anchor followed by the names.\<close>

record pure_path =
  pp_flavour :: path_flavour
  pp_anchor :: string
  pp_names :: "string list"

definition backslash :: char where
  "backslash = CHR 0x5C"

text \<open>The names between separators, without empty ones and \<open>.\<close>.\<close>

fun names_of :: "(char \<Rightarrow> bool) \<Rightarrow> string \<Rightarrow> string \<Rightarrow> string list" where
  "names_of sep cur [] = (if cur = [] \<or> cur = ''.'' then [] else [rev cur])"
| "names_of sep cur (c # cs) =
     (if sep c then (if cur = [] \<or> cur = ''.'' then names_of sep [] cs else rev cur # names_of sep [] cs)
      else names_of sep (c # cur) cs)"

definition windows_sep :: "char \<Rightarrow> bool" where
  "windows_sep c \<longleftrightarrow> c = CHR ''/'' \<or> c = backslash"

definition drive_letter :: "char \<Rightarrow> bool" where
  "drive_letter c \<longleftrightarrow> (let n = of_char c :: nat in 65 \<le> n \<and> n \<le> 90 \<or> 97 \<le> n \<and> n \<le> 122)"

text \<open>
  \<open>PureWindowsPath(text).drive\<close> starts with two separators: the path names a share
  (\<open>//server/share\<close>, with a non-empty share name) or uses the extended prefix.
\<close>

definition is_unc :: "string \<Rightarrow> bool" where
  "is_unc s \<longleftrightarrow>
     (case s of a # b # c # rest \<Rightarrow>
        windows_sep a \<and> windows_sep b \<and> \<not> windows_sep c \<and>
        (c = CHR ''?'' \<and> rest \<noteq> [] \<and> windows_sep (hd rest)
         \<or> (case dropWhile (\<lambda>x. \<not> windows_sep x) rest of
              [] \<Rightarrow> False
            | _ # share \<Rightarrow> share = [] \<or> \<not> windows_sep (hd share)))
      | _ \<Rightarrow> False)"

datatype path_problem = EmptyPath | NulByte | UncPath | DriveRelative | ParentTraversal | RelativePath

definition pure_absolute_path :: "string \<Rightarrow> path_problem + pure_path" where
  "pure_absolute_path path =
     (let s = py_strip path
      in if s = [] then Inl EmptyPath
         else if CHR 0x00 \<in> set s then Inl NulByte
         else if is_unc s then Inl UncPath
         else if drive_letter (hd s) \<and> take 1 (tl s) = '':'' then
           (let below = drop 2 s; names = names_of windows_sep [] below
            in if below = [] \<or> \<not> windows_sep (hd below) then Inl DriveRelative
               else if ''..'' \<in> set names then Inl ParentTraversal
               else Inr \<lparr>pp_flavour = WindowsPath, pp_anchor = take 2 s @ [backslash], pp_names = names\<rparr>)
         else if hd s \<noteq> CHR ''/'' then Inl RelativePath
         else
           (let names = names_of (\<lambda>c. c = CHR ''/'') [] s;
                lead = length (takeWhile (\<lambda>c. c = CHR ''/'') s)
            in if ''..'' \<in> set names then Inl ParentTraversal
               else Inr \<lparr>pp_flavour = PosixPath, pp_anchor = (if lead = 2 then ''//'' else ''/''), pp_names = names\<rparr>))"

text \<open>The parts that two paths are compared by: Windows paths compare in lower case.\<close>

definition path_key :: "pure_path \<Rightarrow> path_flavour \<times> string list" where
  "path_key p =
     (pp_flavour p, map (if pp_flavour p = WindowsPath then py_lower else id) (pp_anchor p # pp_names p))"

definition path_eq :: "pure_path \<Rightarrow> pure_path \<Rightarrow> bool" where
  "path_eq p q \<longleftrightarrow> path_key p = path_key q"

definition covers :: "pure_path \<Rightarrow> pure_path \<Rightarrow> bool" where
  "covers parent child \<longleftrightarrow>
     pp_flavour parent = pp_flavour child \<and>
     (let ps = snd (path_key parent) in take (length ps) (snd (path_key child)) = ps)"

section \<open>The mount of a path\<close>

datatype reason =
    BadPath path_problem
  | NoMountCovers string
  | NeverProbed string string
  | NoProbeEvidence
  | NoObservation string
  | MountStale string
  | MountUnverifiable string
  | WritabilityUnknown string
  | NotWritable string
  | WritableOn "string option"
  | FreeUnknown string
  | QuotaUnknown string
  | QuotaFree int
  | InodesUnknown string
  | InodesExhausted string int int
  | InodesFree int
  | NotEnoughFree string int int
  | NoReservationEvidence
  | ReservedEvidence int
  | NotEnoughAfterReserved string int int int
  | HeadroomBytes int

record mount_resolution =
  mz_mount :: "mount_state option"
  mz_probed :: bool
  mz_covering_prefix :: bool
  mz_reason :: "reason option"
  mz_evidence_unknown :: bool

text \<open>The mounts with a readable path of the wanted flavour, with that path.\<close>

definition readable_mounts :: "path_flavour \<Rightarrow> mount_state list \<Rightarrow> (mount_state \<times> pure_path) list" where
  "readable_mounts fl ms = List.map_filter (\<lambda>m.
     case pure_absolute_path (ms_path m) of Inl _ \<Rightarrow> None
     | Inr p \<Rightarrow> if pp_flavour p = fl then Some (m, p) else None) ms"

text \<open>The covering mount with most parts, the first of them; a root mount covers only itself.\<close>

definition deepest_cover :: "pure_path \<Rightarrow> (mount_state \<times> pure_path) list \<Rightarrow> (mount_state \<times> pure_path) option" where
  "deepest_cover p mps =
     fold (\<lambda>(m, q) best.
        if pp_names q = [] \<or> \<not> covers q p then best
        else case best of None \<Rightarrow> Some (m, q)
             | Some (m', q') \<Rightarrow> if length (pp_names q') < length (pp_names q) then Some (m, q) else best)
       mps None"

definition resolve_mount :: "string \<Rightarrow> mount_state list \<Rightarrow> mount_resolution" where
  "resolve_mount path ms =
     (case pure_absolute_path path of
        Inl problem \<Rightarrow>
          \<lparr>mz_mount = None, mz_probed = False, mz_covering_prefix = False,
           mz_reason = Some (BadPath problem), mz_evidence_unknown = True\<rparr>
      | Inr p \<Rightarrow>
          (case List.find (\<lambda>(m, q). path_eq q p) (readable_mounts (pp_flavour p) ms) of
             Some (m, q) \<Rightarrow>
               \<lparr>mz_mount = Some m, mz_probed = is_probed m, mz_covering_prefix = False,
                mz_reason = None, mz_evidence_unknown = False\<rparr>
           | None \<Rightarrow>
               (case deepest_cover p (readable_mounts (pp_flavour p) ms) of
                  None \<Rightarrow>
                    \<lparr>mz_mount = None, mz_probed = False, mz_covering_prefix = False,
                     mz_reason = Some (NoMountCovers path), mz_evidence_unknown = False\<rparr>
                | Some (m, q) \<Rightarrow>
                    if \<not> is_probed m
                    then \<lparr>mz_mount = Some m, mz_probed = False, mz_covering_prefix = True,
                          mz_reason = Some (NeverProbed (ms_path m) path), mz_evidence_unknown = False\<rparr>
                    else \<lparr>mz_mount = Some m, mz_probed = True, mz_covering_prefix = True,
                          mz_reason = None, mz_evidence_unknown = False\<rparr>)))"

section \<open>Placement of a path\<close>

record path_requirements =
  pr_required_bytes :: int
  pr_required_inodes :: "int option"
  pr_headroom_ratio :: rat

datatype verdict = Safe | Unknown | Reject

definition verdict_order :: "verdict \<Rightarrow> nat" where
  "verdict_order v = (case v of Safe \<Rightarrow> 0 | Unknown \<Rightarrow> 1 | Reject \<Rightarrow> 2)"

record placement_decision =
  pd_path :: string
  pd_verdict :: verdict
  pd_mount :: "mount_state option"
  pd_writable :: "bool option"
  pd_free_bytes :: "int option"
  pd_free_inodes :: "int option"
  pd_fs_type :: "string option"
  pd_headroom_bytes :: "int option"
  pd_safe_to_place_bytes :: "rat option"
  pd_stale :: "bool option"
  pd_reasons :: "reason list"

text \<open>A decision without the evidence of a fresh mount, and one with it.\<close>

definition decide :: "string \<Rightarrow> verdict \<Rightarrow> reason list \<Rightarrow> int \<Rightarrow> placement_decision" where
  "decide path v reasons headroom =
     \<lparr>pd_path = path, pd_verdict = v, pd_mount = None, pd_writable = None, pd_free_bytes = None,
      pd_free_inodes = None, pd_fs_type = None, pd_headroom_bytes = Some headroom,
      pd_safe_to_place_bytes = None, pd_stale = None, pd_reasons = reasons\<rparr>"

definition decide_on :: "mount_state \<Rightarrow> string \<Rightarrow> verdict \<Rightarrow> reason list \<Rightarrow> int \<Rightarrow> rat option \<Rightarrow> placement_decision" where
  "decide_on m path v reasons headroom spare =
     \<lparr>pd_path = path, pd_verdict = v, pd_mount = Some m, pd_writable = ms_writable m,
      pd_free_bytes = ms_free_bytes m, pd_free_inodes = ms_free_inodes m, pd_fs_type = ms_fs_type m,
      pd_headroom_bytes = Some headroom, pd_safe_to_place_bytes = spare, pd_stale = Some False,
      pd_reasons = reasons\<rparr>"

text \<open>\<open>int(x)\<close> of a float truncates toward zero.\<close>

definition py_int :: "rat \<Rightarrow> int" where
  "py_int q = (if 0 \<le> q then \<lfloor>q\<rfloor> else - \<lfloor>- q\<rfloor>)"

definition headroom_of :: "path_requirements \<Rightarrow> int" where
  "headroom_of r = max (py_round (of_int (pr_required_bytes r) * pr_headroom_ratio r)) 0"

definition needed_bytes :: "path_requirements \<Rightarrow> int" where
  "needed_bytes r = pr_required_bytes r + headroom_of r"

text \<open>The smaller of the free space and the free quota.\<close>

definition effective_free :: "int \<Rightarrow> quota_state option \<Rightarrow> int" where
  "effective_free free quota =
     (case quota of None \<Rightarrow> free
      | Some q \<Rightarrow> (case qs_free q of None \<Rightarrow> free | Some f \<Rightarrow> min free (py_int f)))"

text \<open>The value of an optional amount that was checked to be known.\<close>

definition known :: "'a::zero option \<Rightarrow> 'a" where
  "known z = (case z of None \<Rightarrow> 0 | Some x \<Rightarrow> x)"

text \<open>The gate on a mount whose evidence is fresh: one early return after the other.\<close>

definition evaluate_mount :: "string \<Rightarrow> mount_state \<Rightarrow> path_requirements \<Rightarrow> placement_decision" where
  "evaluate_mount path m req =
     (let headroom = headroom_of req; needed = needed_bytes req; name = ms_path m
      in case ms_writable m of
           None \<Rightarrow> decide_on m path Unknown [WritabilityUnknown name] headroom None
         | Some w \<Rightarrow>
             if \<not> w then decide_on m path Reject [NotWritable name] headroom None
             else case ms_free_bytes m of
               None \<Rightarrow> decide_on m path Unknown [FreeUnknown name] headroom None
             | Some free \<Rightarrow>
                 if (case ms_quota m of None \<Rightarrow> False | Some q \<Rightarrow> qs_free q = None)
                 then decide_on m path Unknown [QuotaUnknown name] headroom None
                 else if pr_required_inodes req \<noteq> None \<and> ms_free_inodes m = None
                 then decide_on m path Unknown [InodesUnknown name] headroom None
                 else if known (ms_free_inodes m) < known (pr_required_inodes req)
                         \<and> pr_required_inodes req \<noteq> None
                 then decide_on m path Reject
                        [InodesExhausted name (known (ms_free_inodes m)) (known (pr_required_inodes req))]
                        headroom None
                 else
                   let effective = effective_free free (ms_quota m);
                       reasons = WritableOn (ms_fs_type m)
                         # (case ms_quota m of None \<Rightarrow> [] | Some q \<Rightarrow> [QuotaFree (py_int (known (qs_free q)))])
                         @ (case pr_required_inodes req of None \<Rightarrow> [] | Some _ \<Rightarrow> [InodesFree (known (ms_free_inodes m))])
                   in if effective < needed
                      then decide_on m path Reject [NotEnoughFree name effective needed] headroom None
                      else case rv_reserved (ms_values m) of
                        None \<Rightarrow> decide_on m path Safe (reasons @ [NoReservationEvidence, HeadroomBytes headroom]) headroom
                                  (Some (of_int (effective - needed)))
                      | Some reserved \<Rightarrow>
                          if of_int effective - reserved < of_int needed
                          then decide_on m path Reject
                                 [NotEnoughAfterReserved name effective (py_int reserved) needed] headroom None
                          else decide_on m path Safe
                                 (reasons @ [ReservedEvidence (py_int reserved), HeadroomBytes headroom]) headroom
                                 (Some (of_int effective - reserved - of_int needed)))"

definition evaluate_placement ::
  "int \<Rightarrow> string option \<Rightarrow> host \<Rightarrow> string \<Rightarrow> path_requirements \<Rightarrow> placement_decision option" where
  "evaluate_placement clock now h path req =
     (let headroom = headroom_of req; z = resolve_mount path (ho_mounts h)
      in case mz_mount z of
           Some m \<Rightarrow>
             if \<not> mz_probed z
             then Some (decide path (if mz_evidence_unknown z then Unknown else Reject)
                         [case mz_reason z of None \<Rightarrow> NoProbeEvidence | Some r \<Rightarrow> r] headroom)
             else (case ms_observation m of
                None \<Rightarrow> Some (decide path Reject [NoObservation (ms_path m)] headroom)
              | Some b \<Rightarrow>
                  (case is_stale clock now b of
                     None \<Rightarrow> None
                   | Some Stale \<Rightarrow> Some (decide path Reject [MountStale (ms_path m)] headroom)
                   | Some Unverifiable \<Rightarrow> Some (decide path Unknown [MountUnverifiable (ms_path m)] headroom)
                   | Some Fresh \<Rightarrow> Some (evaluate_mount path m req)))
         | None \<Rightarrow>
             Some (decide path (if mz_evidence_unknown z then Unknown else Reject)
                    [case mz_reason z of None \<Rightarrow> NoProbeEvidence | Some r \<Rightarrow> r] headroom))"

text \<open>\<open>rank_paths\<close>: safe paths first, more room before less; the sort is stable.\<close>

definition path_sort_key :: "placement_decision \<Rightarrow> nat \<times> rat" where
  "path_sort_key d =
     (verdict_order (pd_verdict d), - (case pd_safe_to_place_bytes d of None \<Rightarrow> - 1 | Some q \<Rightarrow> q))"

definition rank_paths ::
  "int \<Rightarrow> string option \<Rightarrow> host \<Rightarrow> path_requirements \<Rightarrow> string list \<Rightarrow> placement_decision list option" where
  "rank_paths clock now h req paths =
     map_option (sort_key path_sort_key) (those (map (\<lambda>p. evaluate_placement clock now h p req) paths))"

section \<open>GPUs\<close>

datatype gpu_reason =
    VramUnknown string
  | VramShort string int int "int option"
  | VramEnough string int int

text \<open>The field is declared as a tuple of texts; the refusal stores a bare text.\<close>

datatype gpu_reasons = ReasonTuple "gpu_reason list" | BareText gpu_reason

record gpu_fit =
  gf_index :: string
  gf_verdict :: verdict
  gf_required_mib :: int
  gf_available_now_mib :: "int option"
  gf_in_use_mib :: "int option"
  gf_reasons :: gpu_reasons

definition gpu_available_now_mib :: "gpu_state \<Rightarrow> int option" where
  "gpu_available_now_mib g =
     (let vram = gs_vram g;
          base = min_known [Option.bind vram rv_available_now, Option.bind vram rv_allocatable, Option.bind vram rv_capacity]
      in case (base, in_use_vram_mib g) of
           (Some b, Some u) \<Rightarrow> Some (py_int (b - of_int u))
         | _ \<Rightarrow> None)"

definition evaluate_vram :: "gpu_state \<Rightarrow> int \<Rightarrow> rat \<Rightarrow> gpu_fit" where
  "evaluate_vram g required ratio =
     (let used = in_use_vram_mib g
      in case gpu_available_now_mib g of
           None \<Rightarrow>
             \<lparr>gf_index = gs_index g, gf_verdict = Unknown, gf_required_mib = required, gf_available_now_mib = None,
              gf_in_use_mib = used, gf_reasons = ReasonTuple [VramUnknown (gs_index g)]\<rparr>
         | Some available \<Rightarrow>
             let needed = required + py_round (of_int required * ratio)
             in if available < needed
                then \<lparr>gf_index = gs_index g, gf_verdict = Reject, gf_required_mib = required,
                      gf_available_now_mib = Some available, gf_in_use_mib = used,
                      gf_reasons = BareText (VramShort (gs_index g) available needed used)\<rparr>
                else \<lparr>gf_index = gs_index g, gf_verdict = Safe, gf_required_mib = required,
                      gf_available_now_mib = Some available, gf_in_use_mib = used,
                      gf_reasons = ReasonTuple [VramEnough (gs_index g) available needed]\<rparr>)"

text \<open>\<open>fit.available_now_mib or -1\<close>: no free memory ranks like unknown free memory.\<close>

definition gpu_sort_key :: "gpu_fit \<Rightarrow> nat \<times> int" where
  "gpu_sort_key f =
     (verdict_order (gf_verdict f),
      - (case gf_available_now_mib f of None \<Rightarrow> - 1 | Some n \<Rightarrow> if n = 0 then - 1 else n))"

definition rank_gpus :: "gpu_state list \<Rightarrow> int \<Rightarrow> rat \<Rightarrow> gpu_fit list" where
  "rank_gpus gpus required ratio = sort_key gpu_sort_key (map (\<lambda>g. evaluate_vram g required ratio) gpus)"

section \<open>What a safe verdict rests on\<close>

text \<open>The mount \<open>m\<close> is the one that speaks for the path: its own path, or the deepest proper prefix.\<close>

definition speaks_for :: "mount_state list \<Rightarrow> mount_state \<Rightarrow> string \<Rightarrow> bool" where
  "speaks_for ms m path \<longleftrightarrow>
     m \<in> set ms \<and> (\<exists>p q. pure_absolute_path path = Inr p \<and> pure_absolute_path (ms_path m) = Inr q \<and>
       (path_eq q p \<or> covers q p \<and> pp_names q \<noteq> [] \<and>
          (\<forall>m' \<in> set ms. \<forall>q'. pure_absolute_path (ms_path m') = Inr q' \<longrightarrow> pp_names q' \<noteq> [] \<longrightarrow> covers q' p \<longrightarrow>
             length (pp_names q') \<le> length (pp_names q))))"

lemma readable_mounts_mem:
  "(m, q) \<in> set (readable_mounts fl ms) \<longleftrightarrow> m \<in> set ms \<and> pure_absolute_path (ms_path m) = Inr q \<and> pp_flavour q = fl"
  by (force simp: readable_mounts_def map_filter_def split: sum.splits if_splits)

lemma deepest_cover_spec:
  "case deepest_cover p mps of
     None \<Rightarrow> \<forall>(m, q) \<in> set mps. pp_names q = [] \<or> \<not> covers q p
   | Some (m, q) \<Rightarrow> (m, q) \<in> set mps \<and> pp_names q \<noteq> [] \<and> covers q p \<and>
       (\<forall>(m', q') \<in> set mps. pp_names q' \<noteq> [] \<longrightarrow> covers q' p \<longrightarrow> length (pp_names q') \<le> length (pp_names q))"
  unfolding deepest_cover_def
proof (induction mps rule: rev_induct)
  case (snoc x mps)
  then show ?case
    by (cases x) (fastforce split: option.splits if_splits prod.splits)
qed simp

lemma covers_flavour: "covers q p \<Longrightarrow> pp_flavour q = pp_flavour p"
  by (simp add: covers_def)

lemma resolve_mount_speaks:
  assumes "mz_mount (resolve_mount path ms) = Some m"
  shows "speaks_for ms m path"
proof -
  obtain p where p: "pure_absolute_path path = Inr p"
    using assms by (auto simp: resolve_mount_def split: sum.splits)
  let ?rs = "readable_mounts (pp_flavour p) ms"
  show ?thesis
  proof (cases "List.find (\<lambda>(m, q). path_eq q p) ?rs")
    case (Some x)
    then obtain q where q: "x = (m, q)" "(m, q) \<in> set ?rs" "path_eq q p"
      using assms p by (cases x) (auto simp: resolve_mount_def dest: find_Some_D)
    then show ?thesis
      using p by (auto simp: speaks_for_def readable_mounts_mem)
  next
    case None
    then obtain q where q: "deepest_cover p ?rs = Some (m, q)"
      using assms p by (auto simp: resolve_mount_def split: option.splits if_splits)
    with deepest_cover_spec [where p = p and mps = ?rs] have d: "(m, q) \<in> set ?rs" "pp_names q \<noteq> []" "covers q p"
      and best: "\<forall>(m', q') \<in> set ?rs. pp_names q' \<noteq> [] \<longrightarrow> covers q' p \<longrightarrow> length (pp_names q') \<le> length (pp_names q)"
      by simp_all
    have "length (pp_names q') \<le> length (pp_names q)"
      if "m' \<in> set ms" "pure_absolute_path (ms_path m') = Inr q'" "pp_names q' \<noteq> []" "covers q' p" for m' q'
      using best that covers_flavour [OF that(4)] by (auto simp: readable_mounts_mem)
    with d p show ?thesis
      by (auto simp: speaks_for_def readable_mounts_mem)
  qed
qed

text \<open>The room on a mount: free space, capped by the quota, less what is reserved.\<close>

definition room_on :: "mount_state \<Rightarrow> rat" where
  "room_on m = of_int (effective_free (known (ms_free_bytes m)) (ms_quota m)) - known (rv_reserved (ms_values m))"

definition verified_mount :: "mount_state \<Rightarrow> path_requirements \<Rightarrow> bool" where
  "verified_mount m req \<longleftrightarrow>
     ms_writable m = Some True \<and> ms_free_bytes m \<noteq> None \<and>
     (\<forall>q. ms_quota m = Some q \<longrightarrow> qs_free q \<noteq> None) \<and>
     (\<forall>n. pr_required_inodes req = Some n \<longrightarrow> (\<exists>k. ms_free_inodes m = Some k \<and> n \<le> k)) \<and>
     of_int (needed_bytes req) \<le> room_on m"

lemma decide_simps [simp]:
  "pd_verdict (decide path v rs h) = v" "pd_verdict (decide_on m path v rs h z) = v"
  "pd_safe_to_place_bytes (decide_on m path v rs h z) = z" "pd_mount (decide_on m path v rs h z) = Some m"
  "pd_free_inodes (decide_on m path v rs h z) = ms_free_inodes m"
  "pd_safe_to_place_bytes (decide path v rs h) = None"
  by (simp_all add: decide_def decide_on_def)

lemma known_simps [simp]: "known None = 0" "known (Some x) = x"
  by (simp_all add: known_def)

lemma evaluate_mount_safe:
  assumes "pd_verdict (evaluate_mount path m req) = Safe"
  shows "verified_mount m req \<and> pd_mount (evaluate_mount path m req) = Some m
    \<and> pd_free_inodes (evaluate_mount path m req) = ms_free_inodes m
    \<and> pd_safe_to_place_bytes (evaluate_mount path m req) = Some (room_on m - of_int (needed_bytes req))"
  using assms unfolding evaluate_mount_def Let_def verified_mount_def room_on_def
  by (auto split: option.splits if_splits)

lemma safe_path_evidence:
  assumes "evaluate_placement clock now h path req = Some d" and "pd_verdict d = Safe"
  shows "\<exists>m b. speaks_for (ho_mounts h) m path \<and> is_probed m \<and> ms_observation m = Some b
    \<and> is_stale clock now b = Some Fresh \<and> verified_mount m req
    \<and> pd_mount d = Some m \<and> pd_free_inodes d = ms_free_inodes m
    \<and> pd_safe_to_place_bytes d = Some (room_on m - of_int (needed_bytes req))"
proof -
  let ?z = "resolve_mount path (ho_mounts h)"
  have probed: "mz_probed ?z \<Longrightarrow> mz_mount ?z = Some m \<Longrightarrow> is_probed m" for m
    by (auto simp: resolve_mount_def split: sum.splits option.splits if_splits)
  obtain m b where m: "mz_mount ?z = Some m" "mz_probed ?z" "ms_observation m = Some b"
      "is_stale clock now b = Some Fresh" "d = evaluate_mount path m req"
    using assms by (auto simp: evaluate_placement_def Let_def split: option.splits staleness.splits if_splits)
  with evaluate_mount_safe [of path m req] assms(2) probed [OF m(2,1)] resolve_mount_speaks [OF m(1)]
  show ?thesis by blast
qed

text \<open>C19. A path is declared safe only on evidence of its own mount: some mount of the host speaks for
  the path (it is the path itself, or the deepest mount above it, and never the root of the file
  system standing in for another mount), it was probed, its observation is fresh, it is verified
  writable, its free space is known and its quota too where it has one, it has the inodes asked for,
  and the request with its headroom fits into what is free, within the quota and not reserved.\<close>

theorem safe_path_has_its_own_evidence:
  assumes "evaluate_placement clock now h path req = Some d" and "pd_verdict d = Safe"
  shows "\<exists>m b. speaks_for (ho_mounts h) m path \<and> is_probed m \<and> ms_observation m = Some b
    \<and> is_stale clock now b = Some Fresh \<and> verified_mount m req
    \<and> pd_mount d = Some m \<and> pd_safe_to_place_bytes d = Some (room_on m - of_int (needed_bytes req))"
  using safe_path_evidence [OF assms] by blast

lemma those_Some: "those xs = Some ys \<longleftrightarrow> xs = map Some ys"
  by (induction xs arbitrary: ys) (auto split: option.splits)

definition spare_room :: "placement_decision \<Rightarrow> rat" where
  "spare_room d = (case pd_safe_to_place_bytes d of None \<Rightarrow> - 1 | Some q \<Rightarrow> q)"

text \<open>Ranking loses no path and keeps its promise: the ranked decisions are exactly the decisions
  of the declared paths, a safe path never comes after an unknown or a rejected one nor an unknown one
  after a rejected one, and of two paths with the same verdict the one with more room comes first.\<close>

theorem ranked_paths_are_ordered:
  assumes "rank_paths clock now h req paths = Some ds"
  shows "mset (map Some ds) = mset (map (\<lambda>p. evaluate_placement clock now h p req) paths)
    \<and> (\<forall>i j. i < j \<longrightarrow> j < length ds \<longrightarrow>
         verdict_order (pd_verdict (ds ! i)) < verdict_order (pd_verdict (ds ! j))
         \<or> pd_verdict (ds ! i) = pd_verdict (ds ! j) \<and> spare_room (ds ! j) \<le> spare_room (ds ! i))"
proof -
  obtain es where es: "map (\<lambda>p. evaluate_placement clock now h p req) paths = map Some es" "ds = sort_key path_sort_key es"
    using assms by (auto simp: rank_paths_def those_Some)
  then have "sorted (map path_sort_key ds)"
    by simp
  then have "path_sort_key (ds ! i) \<le> path_sort_key (ds ! j)" if "i < j" "j < length ds" for i j
    using that by (simp add: sorted_iff_nth_mono)
  moreover have "verdict_order v = verdict_order w \<longleftrightarrow> v = w" for v w
    by (cases v; cases w) (simp_all add: verdict_order_def)
  ultimately show ?thesis
    using es by (fastforce simp: path_sort_key_def spare_room_def less_eq_prod_def)
qed

section \<open>Examples\<close>

definition sample_observation :: "string \<Rightarrow> observation" where
  "sample_observation stamp =
     \<lparr>on_kind = ''mount'', on_source = ''statvfs'', on_observed_at = stamp, on_evidence = [],
      on_ttl_seconds = Some 300, on_confidence = None\<rparr>"

definition no_values :: resource_values where
  "no_values = \<lparr>rv_units = ''bytes'', rv_capacity = None, rv_allocatable = None, rv_available_now = None,
     rv_reserved = None, rv_used = None\<rparr>"

definition sample_mount_state :: "string \<Rightarrow> string \<Rightarrow> int \<Rightarrow> mount_state" where
  "sample_mount_state path stamp free =
     \<lparr>ms_path = path, ms_device = None, ms_fs_type = Some ''ext4'', ms_options = [], ms_writable = Some True,
      ms_probed_path = Some path, ms_values = no_values, ms_free_bytes = Some free, ms_free_inodes = Some 5000,
      ms_quota = None, ms_observation = Some (sample_observation stamp)\<rparr>"

definition sample_host :: "mount_state list \<Rightarrow> host" where
  "sample_host ms =
     \<lparr>ho_host_id = ''host-a'', ho_name = ''a'', ho_os = None, ho_arch = None, ho_execution_host = True,
      ho_workload_host = True, ho_cpu = None,
      ho_ram = Some \<lparr>ra_values = no_values\<lparr>rv_available_now := Some 1000\<rparr>, ra_cgroup_limit_bytes = None,
                      ra_cgroup_current_bytes = None,
                      ra_observation = Some (sample_observation ''2026-07-25T10:00:00Z'')\<rparr>,
      ho_gpus = [], ho_mounts = ms, ho_runtimes = [], ho_caches = [], ho_datasets = [],
      ho_observations = [], ho_labels = []\<rparr>"

definition two_mounts :: host where
  "two_mounts = sample_host
     [sample_mount_state ''/'' ''2026-07-25T10:00:00Z'' 10, sample_mount_state ''/data'' ''2026-07-25T10:00:00Z'' 900]"

definition sample_request :: path_requirements where
  "sample_request = \<lparr>pr_required_bytes = 100, pr_required_inodes = Some 10, pr_headroom_ratio = 1 / 10\<rparr>"

lemma two_mounts_safe:
  "map_option pd_verdict (evaluate_placement 0 (Some ''2026-07-25T10:01:00Z'') two_mounts ''/data/job'' sample_request) = Some Safe"
  by code_simp

text \<open>The root mount has room and is fresh, and still says nothing about a path below it.\<close>

lemma root_does_not_stand_in:
  "map_option pd_verdict (evaluate_placement 0 (Some ''2026-07-25T10:01:00Z'')
     (sample_host [sample_mount_state ''/'' ''2026-07-25T10:00:00Z'' 900]) ''/data/job'' sample_request) = Some Reject"
  by code_simp

theorem safe_path_has_its_own_evidence_witness:
  "\<exists>d m b. evaluate_placement 0 (Some ''2026-07-25T10:01:00Z'') two_mounts ''/data/job'' sample_request = Some d
    \<and> speaks_for (ho_mounts two_mounts) m ''/data/job'' \<and> ms_observation m = Some b \<and> verified_mount m sample_request"
proof -
  obtain d where d: "evaluate_placement 0 (Some ''2026-07-25T10:01:00Z'') two_mounts ''/data/job'' sample_request = Some d"
      "pd_verdict d = Safe"
    using two_mounts_safe by auto
  from safe_path_has_its_own_evidence [OF d] d(1) show ?thesis by blast
qed

theorem ranked_paths_are_ordered_witness:
  "\<exists>ds. rank_paths 0 (Some ''2026-07-25T10:01:00Z'') two_mounts sample_request [''/tmp'', ''/data/job''] = Some ds
    \<and> (\<forall>i j. i < j \<longrightarrow> j < length ds \<longrightarrow>
         verdict_order (pd_verdict (ds ! i)) < verdict_order (pd_verdict (ds ! j))
         \<or> pd_verdict (ds ! i) = pd_verdict (ds ! j) \<and> spare_room (ds ! j) \<le> spare_room (ds ! i))"
proof -
  have "rank_paths 0 (Some ''2026-07-25T10:01:00Z'') two_mounts sample_request [''/tmp'', ''/data/job''] \<noteq> None"
    by code_simp
  then obtain ds where "rank_paths 0 (Some ''2026-07-25T10:01:00Z'') two_mounts sample_request [''/tmp'', ''/data/job''] = Some ds"
    by auto
  with ranked_paths_are_ordered [OF this] show ?thesis by blast
qed

end
