(* ===== verification/Scheduler.thy ===== *)
theory Scheduler
  imports Topology ContractChecks
begin

text \<open>
  Filtering and scoring of execution targets (\<open>scheduler/core.py\<close> down to \<open>rank_candidates\<close>): every
  hard gate of one candidate, the score of a candidate that passes them all, and the deterministic
  order of the candidates.

  A gate takes the verdict and the reasons gathered so far and returns them with its own added, as
  the statements of \<open>assess_candidate\<close> do. The texts of reasons are constructors; scores are exact
  rationals rounded to six decimals. An assessment is \<open>None\<close> where the program raises because the
  stamp of a mount observation cannot be read.
\<close>

section \<open>Requests and targets\<close>

record requirements =
  wr_job_id :: string
  wr_memory_bytes :: int
  wr_disk_bytes :: int
  wr_disk_inodes :: "int option"
  wr_cpu_threads :: "int option"
  wr_gpu_vram_mib :: "int option"
  wr_required_capabilities :: "string list"
  wr_preferred_host_ids :: "string list"
  wr_server_preferred :: bool
  wr_headroom_ratio :: rat

definition non_negative :: "int option \<Rightarrow> bool" where
  "non_negative z \<longleftrightarrow> pred_option (\<lambda>n. 0 \<le> n) z"

text \<open>\<open>WorkloadRequirements.__post_init__\<close> raises nothing.\<close>

definition requirements_ok :: "requirements \<Rightarrow> bool" where
  "requirements_ok r \<longleftrightarrow>
     \<not> py_blank (wr_job_id r) \<and> 0 \<le> wr_memory_bytes r \<and> 0 \<le> wr_disk_bytes r \<and>
     non_negative (wr_disk_inodes r) \<and> non_negative (wr_cpu_threads r) \<and> non_negative (wr_gpu_vram_mib r) \<and>
     0 \<le> wr_headroom_ratio r \<and> wr_headroom_ratio r \<le> 10 \<and>
     list_all (\<lambda>c. \<not> py_blank c) (wr_required_capabilities r)"

definition with_headroom :: "rat \<Rightarrow> int \<Rightarrow> int" where
  "with_headroom ratio n = n + py_round (of_int n * ratio)"

definition memory_with_headroom :: "requirements \<Rightarrow> int" where
  "memory_with_headroom r = with_headroom (wr_headroom_ratio r) (wr_memory_bytes r)"

definition gpu_with_headroom_mib :: "requirements \<Rightarrow> int option" where
  "gpu_with_headroom_mib r = map_option (with_headroom (wr_headroom_ratio r)) (wr_gpu_vram_mib r)"

record candidate =
  ca_target_id :: string
  ca_host :: host
  ca_workspace_path :: string
  ca_capabilities :: "string list"
  ca_harness_id :: string
  ca_provider_id :: "string option"
  ca_runtime_id :: "string option"
  ca_remote :: bool
  ca_route_verified :: "bool option"
  ca_execution_ready :: "bool option"
  ca_max_lanes :: int
  ca_active_lanes :: int
  ca_reliability :: "rat option"

definition candidate_ok :: "candidate \<Rightarrow> bool" where
  "candidate_ok c \<longleftrightarrow>
     \<not> py_blank (ca_target_id c) \<and> \<not> py_blank (ca_workspace_path c) \<and> \<not> py_blank (ca_harness_id c) \<and>
     1 \<le> ca_max_lanes c \<and> 0 \<le> ca_active_lanes c \<and> pred_option (\<lambda>q. 0 \<le> q \<and> q \<le> 1) (ca_reliability c)"

text \<open>What the scheduler has committed on a target.\<close>

record committed =
  cm_memory_bytes :: int
  cm_disk_bytes :: int
  cm_disk_inodes :: int
  cm_gpu_vram_mib :: int
  cm_lanes :: int
  cm_cpu_threads :: int

definition nothing_committed :: committed where
  "nothing_committed = \<lparr>cm_memory_bytes = 0, cm_disk_bytes = 0, cm_disk_inodes = 0, cm_gpu_vram_mib = 0,
     cm_lanes = 0, cm_cpu_threads = 0\<rparr>"

definition committed_ok :: "committed \<Rightarrow> bool" where
  "committed_ok u \<longleftrightarrow>
     0 \<le> cm_memory_bytes u \<and> 0 \<le> cm_disk_bytes u \<and> 0 \<le> cm_disk_inodes u \<and> 0 \<le> cm_gpu_vram_mib u \<and>
     0 \<le> cm_lanes u \<and> 0 \<le> cm_cpu_threads u"

section \<open>Verdicts\<close>

datatype assessment_verdict = Eligible | EvidenceUnknown | Rejected

definition severity :: "assessment_verdict \<Rightarrow> nat" where
  "severity v = (case v of Eligible \<Rightarrow> 0 | EvidenceUnknown \<Rightarrow> 1 | Rejected \<Rightarrow> 2)"

definition merge_verdict :: "assessment_verdict \<Rightarrow> assessment_verdict \<Rightarrow> assessment_verdict" where
  "merge_verdict current incoming = (if severity current < severity incoming then incoming else current)"

datatype assess_reason =
    NotReady | ReadinessUnknown | RouteNotVerified | RouteUnknown
  | MissingCapabilities "string list"
  | NoLane
  | ThreadsUnknown | ThreadsShort int int
  | EvidenceMissing string | StampInvalid string | EvidenceStale string | TtlUnknown string | FreshnessUnverifiable string
  | RamAvailableUnknown | CgroupIncomplete | RamShort int int
  | DiskReason reason
  | DiskExhausted | InodesUnknownNow | InodesExhaustedNow
  | NoGpu | VramEvidenceUnavailable | AllGpusStale | GpuShort int int
  | AllGatesPassed

type_synonym gate = "assessment_verdict \<times> assess_reason list"

definition add_gate :: "assessment_verdict \<Rightarrow> assess_reason list \<Rightarrow> gate \<Rightarrow> gate" where
  "add_gate v rs g = (merge_verdict (fst g) v, snd g @ rs)"

section \<open>Evidence\<close>

text \<open>\<open>_freshness\<close>; unlike the gate on a mount it survives a stamp it cannot read.\<close>

definition evidence_freshness ::
  "int \<Rightarrow> string option \<Rightarrow> observation option \<Rightarrow> string \<Rightarrow> assessment_verdict \<times> assess_reason option" where
  "evidence_freshness clock now z label =
     (case z of
        None \<Rightarrow> (EvidenceUnknown, Some (EvidenceMissing label))
      | Some b \<Rightarrow>
          (case is_stale clock now b of
             None \<Rightarrow> (EvidenceUnknown, Some (StampInvalid label))
           | Some Stale \<Rightarrow> (Rejected, Some (EvidenceStale label))
           | Some Unverifiable \<Rightarrow>
               (EvidenceUnknown, Some (if on_ttl_seconds b = None then TtlUnknown label else FreshnessUnverifiable label))
           | Some Fresh \<Rightarrow> (Eligible, None)))"

definition memory_available ::
  "int \<Rightarrow> string option \<Rightarrow> host \<Rightarrow> committed \<Rightarrow> assessment_verdict \<times> int option \<times> assess_reason option" where
  "memory_available clock now h use =
     (case ho_ram h of
        None \<Rightarrow> (EvidenceUnknown, None, Some (EvidenceMissing ''RAM''))
      | Some ram \<Rightarrow>
          (let (v, r) = evidence_freshness clock now (ra_observation ram) ''RAM''
           in if v \<noteq> Eligible then (v, None, r)
              else case rv_available_now (ra_values ram) of
                None \<Rightarrow> (EvidenceUnknown, None, Some RamAvailableUnknown)
              | Some seen \<Rightarrow>
                  let reserved = py_int (known (rv_reserved (ra_values ram)))
                  in case (ra_cgroup_limit_bytes ram, ra_cgroup_current_bytes ram) of
                       (None, None) \<Rightarrow> (Eligible, Some (max 0 (py_int seen - reserved - cm_memory_bytes use)), None)
                     | (Some limit, Some current) \<Rightarrow>
                         (Eligible,
                          Some (max 0 (min (py_int seen) (max 0 (limit - current)) - reserved - cm_memory_bytes use)), None)
                     | _ \<Rightarrow> (EvidenceUnknown, None, Some CgroupIncomplete)))"

text \<open>The loop over the GPUs: whether some reading is unknown, and the best fresh one.\<close>

fun best_gpu :: "int \<Rightarrow> string option \<Rightarrow> gpu_state list \<Rightarrow> bool \<Rightarrow> int option \<Rightarrow> bool \<times> int option" where
  "best_gpu clock now [] saw_unknown best = (saw_unknown, best)"
| "best_gpu clock now (g # gs) saw_unknown best =
     (let v = fst (evidence_freshness clock now (gs_observation g) (''GPU '' @ gs_index g))
      in if v = EvidenceUnknown then best_gpu clock now gs True best
         else case Option.bind (gs_vram g) rv_available_now of
           None \<Rightarrow> best_gpu clock now gs True best
         | Some seen \<Rightarrow>
             if v = Rejected then best_gpu clock now gs saw_unknown best
             else
               let available = py_int (seen - known (Option.bind (gs_vram g) rv_reserved))
               in best_gpu clock now gs saw_unknown (Some (case best of None \<Rightarrow> available | Some b \<Rightarrow> max b available)))"

definition gpu_available ::
  "int \<Rightarrow> string option \<Rightarrow> host \<Rightarrow> committed \<Rightarrow> assessment_verdict \<times> int option \<times> assess_reason option" where
  "gpu_available clock now h use =
     (if ho_gpus h = [] then (Rejected, None, Some NoGpu)
      else case best_gpu clock now (ho_gpus h) False None of
        (True, None) \<Rightarrow> (EvidenceUnknown, None, Some VramEvidenceUnavailable)
      | (False, None) \<Rightarrow> (Rejected, None, Some AllGpusStale)
      | (_, Some best) \<Rightarrow> (Eligible, Some (max 0 (best - cm_gpu_vram_mib use)), None))"

section \<open>Gates\<close>

definition readiness_gate :: "candidate \<Rightarrow> gate \<Rightarrow> gate" where
  "readiness_gate c =
     (case ca_execution_ready c of
        Some False \<Rightarrow> add_gate Rejected [NotReady]
      | None \<Rightarrow> add_gate EvidenceUnknown [ReadinessUnknown]
      | Some True \<Rightarrow> id)"

definition route_gate :: "candidate \<Rightarrow> gate \<Rightarrow> gate" where
  "route_gate c =
     (if \<not> ca_remote c then id
      else case ca_route_verified c of
        Some False \<Rightarrow> add_gate Rejected [RouteNotVerified]
      | None \<Rightarrow> add_gate EvidenceUnknown [RouteUnknown]
      | Some True \<Rightarrow> id)"

definition missing_capabilities :: "candidate \<Rightarrow> requirements \<Rightarrow> string list" where
  "missing_capabilities c req =
     sort (remdups (filter (\<lambda>x. x \<notin> set (ca_capabilities c)) (wr_required_capabilities req)))"

definition capability_gate :: "candidate \<Rightarrow> requirements \<Rightarrow> gate \<Rightarrow> gate" where
  "capability_gate c req =
     (if missing_capabilities c req = [] then id
      else add_gate Rejected [MissingCapabilities (missing_capabilities c req)])"

definition lane_slots :: "candidate \<Rightarrow> committed \<Rightarrow> int" where
  "lane_slots c use = ca_max_lanes c - ca_active_lanes c - cm_lanes use - 1"

definition lane_gate :: "candidate \<Rightarrow> committed \<Rightarrow> gate \<Rightarrow> gate" where
  "lane_gate c use = (if lane_slots c use < 0 then add_gate Rejected [NoLane] else id)"

definition cpu_gate :: "candidate \<Rightarrow> requirements \<Rightarrow> committed \<Rightarrow> gate \<Rightarrow> gate" where
  "cpu_gate c req use =
     (case wr_cpu_threads req of
        None \<Rightarrow> id
      | Some n \<Rightarrow>
          (case Option.bind (ho_cpu (ca_host c)) ct_threads of
             None \<Rightarrow> add_gate EvidenceUnknown [ThreadsUnknown]
           | Some threads \<Rightarrow>
               if threads - cm_cpu_threads use < n
               then add_gate Rejected [ThreadsShort (max 0 (threads - cm_cpu_threads use)) n] else id))"

text \<open>The gate on an amount that was read: its own verdict, then the comparison.\<close>

definition amount_gate ::
  "assessment_verdict \<times> int option \<times> assess_reason option \<Rightarrow> int \<Rightarrow> (int \<Rightarrow> assess_reason) \<Rightarrow> gate \<Rightarrow> gate" where
  "amount_gate reading needed short g =
     (case reading of (v, amount, r) \<Rightarrow>
        case r of
          Some x \<Rightarrow> add_gate v [x] g
        | None \<Rightarrow> (case amount of
              None \<Rightarrow> add_gate v [] g
            | Some n \<Rightarrow> if n < needed then add_gate Rejected [short n] (add_gate v [] g) else add_gate v [] g))"

definition disk_request :: "requirements \<Rightarrow> path_requirements" where
  "disk_request req =
     \<lparr>pr_required_bytes = wr_disk_bytes req, pr_required_inodes = wr_disk_inodes req,
      pr_headroom_ratio = wr_headroom_ratio req\<rparr>"

definition disk_after :: "placement_decision \<Rightarrow> committed \<Rightarrow> rat option" where
  "disk_after d use = map_option (\<lambda>q. q - of_int (cm_disk_bytes use)) (pd_safe_to_place_bytes d)"

definition disk_gate :: "placement_decision \<Rightarrow> committed \<Rightarrow> gate \<Rightarrow> gate" where
  "disk_gate d use g =
     (let v = (case pd_verdict d of Safe \<Rightarrow> Eligible | Unknown \<Rightarrow> EvidenceUnknown | Reject \<Rightarrow> Rejected);
          g1 = add_gate v (if pd_verdict d = Safe then [] else map DiskReason (pd_reasons d)) g
      in case disk_after d use of
           None \<Rightarrow> g1
         | Some q \<Rightarrow> if q < 0 then add_gate Rejected [DiskExhausted] g1 else g1)"

definition inode_gate :: "placement_decision \<Rightarrow> requirements \<Rightarrow> committed \<Rightarrow> gate \<Rightarrow> gate" where
  "inode_gate d req use =
     (case wr_disk_inodes req of
        None \<Rightarrow> id
      | Some n \<Rightarrow>
          if cm_disk_inodes use = 0 then id
          else case pd_free_inodes d of
            None \<Rightarrow> add_gate EvidenceUnknown [InodesUnknownNow]
          | Some free \<Rightarrow> if free - cm_disk_inodes use < n then add_gate Rejected [InodesExhaustedNow] else id)"

section \<open>Assessment\<close>

record assessment =
  as_target_id :: string
  as_host_id :: string
  as_verdict :: assessment_verdict
  as_score :: "rat option"
  as_reasons :: "assess_reason list"
  as_available_memory_bytes :: "int option"
  as_safe_disk_after :: "rat option"
  as_available_gpu_vram_mib :: "int option"
  as_lane_slots_after :: "int option"
  as_score_components :: "(string \<times> rat) list"

definition round6 :: "rat \<Rightarrow> rat" where
  "round6 q = of_int (py_round (q * 1000000)) / 1000000"

definition score_components :: "candidate \<Rightarrow> requirements \<Rightarrow> committed \<Rightarrow> int \<Rightarrow> rat \<Rightarrow> (string \<times> rat) list" where
  "score_components c req use memory disk =
     (let need = memory_with_headroom req;
          margin = max 0 (memory - need)
      in [(''memory_headroom'', round6 (min 30 (30 * of_int margin / of_int (max need 1)))),
          (''disk_headroom'', round6 (min 20 (20 * max disk 0 / of_int (max (wr_disk_bytes req) 1)))),
          (''lane_headroom'', round6 (min 10 (10 * of_int (max (lane_slots c use) 0) / of_int (max (ca_max_lanes c) 1)))),
          (''preferred_host'', if ho_host_id (ca_host c) \<in> set (wr_preferred_host_ids req) then 20 else 0),
          (''topology'', if wr_server_preferred req = ca_remote c then 10 else 0),
          (''reliability'', round6 (case ca_reliability c of None \<Rightarrow> 0 | Some q \<Rightarrow> 5 * q)),
          (''verified_route'', if \<not> ca_remote c \<or> ca_route_verified c = Some True then 5 else 0)])"

text \<open>\<open>dict.fromkeys\<close>: the first of equal reasons stays.\<close>

fun keep_first :: "'a list \<Rightarrow> 'a list" where
  "keep_first [] = []"
| "keep_first (x # xs) = x # keep_first (filter (\<lambda>y. y \<noteq> x) xs)"

definition all_gates ::
  "int \<Rightarrow> string option \<Rightarrow> candidate \<Rightarrow> requirements \<Rightarrow> committed \<Rightarrow> placement_decision \<Rightarrow> gate" where
  "all_gates clock now c req use d =
     (let g = (Eligible, []);
          g = readiness_gate c g;
          g = route_gate c g;
          g = capability_gate c req g;
          g = lane_gate c use g;
          g = cpu_gate c req use g;
          need = memory_with_headroom req;
          g = amount_gate (memory_available clock now (ca_host c) use) need (\<lambda>n. RamShort n need) g;
          g = disk_gate d use g;
          g = inode_gate d req use g
      in case gpu_with_headroom_mib req of
           None \<Rightarrow> g
         | Some vram \<Rightarrow> amount_gate (gpu_available clock now (ca_host c) use) vram (\<lambda>n. GpuShort n vram) g)"

definition assess_candidate ::
  "int \<Rightarrow> string option \<Rightarrow> candidate \<Rightarrow> requirements \<Rightarrow> committed \<Rightarrow> assessment option" where
  "assess_candidate clock now c req use =
     (case evaluate_placement clock now (ca_host c) (ca_workspace_path c) (disk_request req) of
        None \<Rightarrow> None
      | Some d \<Rightarrow>
          (let (v, reasons) = all_gates clock now c req use d;
               memory = fst (snd (memory_available clock now (ca_host c) use));
               gpu = (if gpu_with_headroom_mib req = None then None
                      else fst (snd (gpu_available clock now (ca_host c) use)));
               components = score_components c req use (known memory) (known (disk_after d use))
           in Some (if v \<noteq> Eligible
               then \<lparr>as_target_id = ca_target_id c, as_host_id = ho_host_id (ca_host c), as_verdict = v,
                     as_score = None, as_reasons = keep_first reasons, as_available_memory_bytes = memory,
                     as_safe_disk_after = disk_after d use, as_available_gpu_vram_mib = gpu,
                     as_lane_slots_after = Some (max (lane_slots c use) 0), as_score_components = []\<rparr>
               else \<lparr>as_target_id = ca_target_id c, as_host_id = ho_host_id (ca_host c), as_verdict = Eligible,
                     as_score = Some (round6 (sum_list (map snd components))), as_reasons = [AllGatesPassed],
                     as_available_memory_bytes = memory, as_safe_disk_after = disk_after d use,
                     as_available_gpu_vram_mib = gpu, as_lane_slots_after = Some (lane_slots c use),
                     as_score_components = components\<rparr>)))"

section \<open>Plans\<close>

record placement_plan =
  pl_job_id :: string
  pl_selected_target_id :: "string option"
  pl_assessments :: "assessment list"

definition plan_decision :: "placement_plan \<Rightarrow> string" where
  "plan_decision p = (if pl_selected_target_id p = None then ''blocked'' else ''place'')"

definition plan_selected :: "placement_plan \<Rightarrow> assessment option" where
  "plan_selected p =
     (case pl_selected_target_id p of None \<Rightarrow> None
      | Some t \<Rightarrow> List.find (\<lambda>a. as_target_id a = t) (pl_assessments p))"

definition rank_key :: "assessment \<Rightarrow> nat \<times> rat \<times> string" where
  "rank_key a = (severity (as_verdict a), - known (as_score a), as_target_id a)"

definition usage_of :: "(string \<times> committed) list \<Rightarrow> string \<Rightarrow> committed" where
  "usage_of usage t = (case map_of usage t of None \<Rightarrow> nothing_committed | Some u \<Rightarrow> u)"

definition rank_candidates ::
  "int \<Rightarrow> string option \<Rightarrow> candidate list \<Rightarrow> requirements \<Rightarrow> (string \<times> committed) list \<Rightarrow> placement_plan option" where
  "rank_candidates clock now cs req usage =
     map_option (\<lambda>rows.
       let ranked = sort_key rank_key rows
       in \<lparr>pl_job_id = wr_job_id req,
           pl_selected_target_id = map_option as_target_id (List.find (\<lambda>a. as_verdict a = Eligible) ranked),
           pl_assessments = ranked\<rparr>)
     (checked_list (\<lambda>c. assess_candidate clock now c req (usage_of usage (ca_target_id c))) cs)"

section \<open>When a gate lets a candidate pass\<close>

lemma add_gate_Eligible: "fst (add_gate v rs g) = Eligible \<longleftrightarrow> fst g = Eligible \<and> v = Eligible"
  by (cases "fst g"; cases v) (simp_all add: add_gate_def merge_verdict_def severity_def)

lemma id_gate: "fst (id (g :: gate)) = Eligible \<longleftrightarrow> fst g = Eligible"
  by simp

lemma readiness_gate_Eligible: "fst (readiness_gate c g) = Eligible \<longleftrightarrow> fst g = Eligible \<and> ca_execution_ready c = Some True"
  by (auto simp: readiness_gate_def add_gate_Eligible split: option.splits bool.splits)

lemma route_gate_Eligible:
  "fst (route_gate c g) = Eligible \<longleftrightarrow> fst g = Eligible \<and> (ca_remote c \<longrightarrow> ca_route_verified c = Some True)"
  by (auto simp: route_gate_def add_gate_Eligible split: option.splits bool.splits)

lemma missing_capabilities_Nil:
  "missing_capabilities c req = [] \<longleftrightarrow> set (wr_required_capabilities req) \<subseteq> set (ca_capabilities c)"
proof -
  have "set (missing_capabilities c req) = set (wr_required_capabilities req) - set (ca_capabilities c)"
    by (auto simp: missing_capabilities_def)
  then show ?thesis
    by (metis Diff_eq_empty_iff set_empty)
qed

lemma capability_gate_Eligible:
  "fst (capability_gate c req g) = Eligible \<longleftrightarrow>
     fst g = Eligible \<and> set (wr_required_capabilities req) \<subseteq> set (ca_capabilities c)"
  by (simp add: capability_gate_def add_gate_Eligible missing_capabilities_Nil)

lemma lane_gate_Eligible:
  "fst (lane_gate c use g) = Eligible \<longleftrightarrow> fst g = Eligible \<and> ca_active_lanes c + cm_lanes use + 1 \<le> ca_max_lanes c"
  by (auto simp: lane_gate_def lane_slots_def add_gate_Eligible)

definition threads_fit :: "candidate \<Rightarrow> requirements \<Rightarrow> committed \<Rightarrow> bool" where
  "threads_fit c req use \<longleftrightarrow>
     (case wr_cpu_threads req of None \<Rightarrow> True
      | Some n \<Rightarrow> (case Option.bind (ho_cpu (ca_host c)) ct_threads of None \<Rightarrow> False
          | Some threads \<Rightarrow> cm_cpu_threads use + n \<le> threads))"

lemma cpu_gate_Eligible: "fst (cpu_gate c req use g) = Eligible \<longleftrightarrow> fst g = Eligible \<and> threads_fit c req use"
  by (auto simp: cpu_gate_def threads_fit_def add_gate_Eligible split: option.splits)

lemma amount_gate_Eligible:
  "fst (amount_gate (v, amount, r) needed short g) = Eligible \<longleftrightarrow>
     fst g = Eligible \<and> v = Eligible \<and> (r = None \<longrightarrow> (\<forall>n. amount = Some n \<longrightarrow> needed \<le> n))"
  by (auto simp: amount_gate_def add_gate_Eligible split: option.splits)

lemma disk_gate_Eligible:
  "fst (disk_gate d use g) = Eligible \<longleftrightarrow>
     fst g = Eligible \<and> pd_verdict d = Safe \<and> (\<forall>q. pd_safe_to_place_bytes d = Some q \<longrightarrow> of_int (cm_disk_bytes use) \<le> q)"
  by (auto simp: disk_gate_def disk_after_def Let_def add_gate_Eligible split: verdict.splits option.splits)

lemma inode_gate_Eligible:
  "fst (inode_gate d req use g) = Eligible \<longleftrightarrow> fst g = Eligible \<and>
     (\<forall>n. wr_disk_inodes req = Some n \<longrightarrow> cm_disk_inodes use \<noteq> 0 \<longrightarrow>
        (\<exists>free. pd_free_inodes d = Some free \<and> cm_disk_inodes use + n \<le> free))"
  by (auto simp: inode_gate_def add_gate_Eligible split: option.splits)

section \<open>The room that evidence shows\<close>

definition fresh_observation :: "int \<Rightarrow> string option \<Rightarrow> observation option \<Rightarrow> bool" where
  "fresh_observation clock now z \<longleftrightarrow> (\<exists>b. z = Some b \<and> is_stale clock now b = Some Fresh)"

lemma evidence_freshness_Eligible:
  "fst (evidence_freshness clock now z l) = Eligible \<longleftrightarrow> fresh_observation clock now z"
  "evidence_freshness clock now z l = (Eligible, r) \<longleftrightarrow> fresh_observation clock now z \<and> r = None"
  by (auto simp: evidence_freshness_def fresh_observation_def split: option.splits staleness.splits)

text \<open>Available RAM within the cgroup, less what the snapshot has reserved; \<open>None\<close> without fresh evidence.\<close>

definition ram_room :: "int \<Rightarrow> string option \<Rightarrow> host \<Rightarrow> int option" where
  "ram_room clock now h =
     (case ho_ram h of None \<Rightarrow> None
      | Some ram \<Rightarrow>
          if \<not> fresh_observation clock now (ra_observation ram) then None
          else (case (rv_available_now (ra_values ram), ra_cgroup_limit_bytes ram, ra_cgroup_current_bytes ram) of
             (Some seen, None, None) \<Rightarrow> Some (py_int seen - py_int (known (rv_reserved (ra_values ram))))
           | (Some seen, Some limit, Some current) \<Rightarrow>
               Some (min (py_int seen) (max 0 (limit - current)) - py_int (known (rv_reserved (ra_values ram))))
           | _ \<Rightarrow> None))"

lemma memory_available_Eligible:
  assumes "memory_available clock now h use = (Eligible, amount, r)"
  shows "\<exists>room. ram_room clock now h = Some room \<and> amount = Some (max 0 (room - cm_memory_bytes use)) \<and> r = None"
  using assms
  by (auto simp: memory_available_def ram_room_def evidence_freshness_Eligible Let_def
      split: option.splits prod.splits if_splits)

text \<open>A GPU with fresh evidence and the memory it shows free.\<close>

definition gpu_room :: "int \<Rightarrow> string option \<Rightarrow> host \<Rightarrow> int \<Rightarrow> bool" where
  "gpu_room clock now h n \<longleftrightarrow>
     (\<exists>g \<in> set (ho_gpus h). fresh_observation clock now (gs_observation g) \<and>
        (\<exists>vram seen. gs_vram g = Some vram \<and> rv_available_now vram = Some seen
           \<and> n \<le> py_int (seen - known (rv_reserved vram))))"

lemma best_gpu_room:
  assumes "best_gpu clock now gs u best = (u', Some n)" and "set gs \<subseteq> set (ho_gpus h)"
    and "\<And>m. best = Some m \<Longrightarrow> gpu_room clock now h m"
  shows "gpu_room clock now h n"
  using assms
proof (induction gs arbitrary: u best)
  case (Cons g gs)
  let ?ef = "fst (evidence_freshness clock now (gs_observation g) (''GPU '' @ gs_index g))"
  have skip: "best_gpu clock now gs w best = (u', Some n) \<Longrightarrow> gpu_room clock now h n" for w
    using Cons.IH [of w best] Cons.prems(2,3) by simp
  show ?case
  proof (cases "?ef = EvidenceUnknown \<or> Option.bind (gs_vram g) rv_available_now = None \<or> ?ef = Rejected")
    case True
    then show ?thesis
      using Cons.prems(1) skip by (auto simp: Let_def split: option.splits if_splits)
  next
    case False
    then obtain vram seen where v: "gs_vram g = Some vram" "rv_available_now vram = Some seen"
      by (auto simp: bind_eq_None_conv)
    have e: "?ef = Eligible"
      using False by (cases ?ef) auto
    then have "fresh_observation clock now (gs_observation g)"
      by (simp add: evidence_freshness_Eligible)
    then have room: "gpu_room clock now h (py_int (seen - known (rv_reserved vram)))"
      using v Cons.prems(2) unfolding gpu_room_def by auto
    obtain best' where b: "best_gpu clock now gs u (Some best') = (u', Some n)"
      and "best' = py_int (seen - known (rv_reserved vram)) \<or> best = Some best'"
      using Cons.prems(1) e v by (auto simp: Let_def max_def split: option.splits if_splits)
    then have "gpu_room clock now h best'"
      using room Cons.prems(3) by auto
    then show ?thesis
      using Cons.IH [OF b] Cons.prems(2) by auto
  qed
qed simp

lemma gpu_available_Eligible:
  assumes "gpu_available clock now h use = (Eligible, amount, r)"
  shows "\<exists>room. gpu_room clock now h room \<and> amount = Some (max 0 (room - cm_gpu_vram_mib use)) \<and> r = None"
proof -
  obtain u n where "best_gpu clock now (ho_gpus h) False None = (u, Some n)" "amount = Some (max 0 (n - cm_gpu_vram_mib use))" "r = None"
    using assms by (auto simp: gpu_available_def split: prod.splits option.splits bool.splits if_splits)
  with best_gpu_room [of clock now "ho_gpus h" False None u n h] show ?thesis by auto
qed

section \<open>Selection\<close>

text \<open>Every hard gate, on the evidence of the candidate's own host.\<close>

definition passes_all_gates :: "int \<Rightarrow> string option \<Rightarrow> candidate \<Rightarrow> requirements \<Rightarrow> committed \<Rightarrow> bool" where
  "passes_all_gates clock now c req use \<longleftrightarrow>
     ca_execution_ready c = Some True \<and>
     (ca_remote c \<longrightarrow> ca_route_verified c = Some True) \<and>
     set (wr_required_capabilities req) \<subseteq> set (ca_capabilities c) \<and>
     ca_active_lanes c + cm_lanes use + 1 \<le> ca_max_lanes c \<and>
     threads_fit c req use \<and>
     (\<exists>room. ram_room clock now (ca_host c) = Some room \<and> memory_with_headroom req \<le> max 0 (room - cm_memory_bytes use)) \<and>
     (\<exists>m b. speaks_for (ho_mounts (ca_host c)) m (ca_workspace_path c) \<and> is_probed m \<and>
        ms_observation m = Some b \<and> is_stale clock now b = Some Fresh \<and> verified_mount m (disk_request req) \<and>
        of_int (needed_bytes (disk_request req) + cm_disk_bytes use) \<le> room_on m \<and>
        (\<forall>n. wr_disk_inodes req = Some n \<longrightarrow> (\<exists>free. ms_free_inodes m = Some free \<and> cm_disk_inodes use + n \<le> free))) \<and>
     (\<forall>vram. gpu_with_headroom_mib req = Some vram \<longrightarrow>
        (\<exists>room. gpu_room clock now (ca_host c) room \<and> vram \<le> max 0 (room - cm_gpu_vram_mib use)))"

lemma assess_verdict:
  assumes "assess_candidate clock now c req use = Some a"
  shows "\<exists>d. evaluate_placement clock now (ca_host c) (ca_workspace_path c) (disk_request req) = Some d
    \<and> as_verdict a = fst (all_gates clock now c req use d)"
    and "as_target_id a = ca_target_id c" and "as_verdict a \<noteq> Eligible \<longrightarrow> as_score a = None"
  using assms by (auto simp: assess_candidate_def Let_def split: option.splits prod.splits if_splits)

lemma eligible_passes_all_gates:
  assumes "assess_candidate clock now c req use = Some a" and "as_verdict a = Eligible"
  shows "passes_all_gates clock now c req use"
proof -
  obtain d where d: "evaluate_placement clock now (ca_host c) (ca_workspace_path c) (disk_request req) = Some d"
    and g: "fst (all_gates clock now c req use d) = Eligible"
    using assess_verdict(1) [OF assms(1)] assms(2) by auto
  obtain mv ma mr where mem: "memory_available clock now (ca_host c) use = (mv, ma, mr)"
    by (metis prod_cases3)
  obtain gv ga gr where gpu: "gpu_available clock now (ca_host c) use = (gv, ga, gr)"
    by (metis prod_cases3)
  note gates = readiness_gate_Eligible route_gate_Eligible capability_gate_Eligible lane_gate_Eligible
    cpu_gate_Eligible amount_gate_Eligible disk_gate_Eligible inode_gate_Eligible
  have e: "ca_execution_ready c = Some True" "ca_remote c \<longrightarrow> ca_route_verified c = Some True"
    "set (wr_required_capabilities req) \<subseteq> set (ca_capabilities c)"
    "ca_active_lanes c + cm_lanes use + 1 \<le> ca_max_lanes c" "threads_fit c req use"
    and m: "mv = Eligible" "mr = None \<longrightarrow> (\<forall>n. ma = Some n \<longrightarrow> memory_with_headroom req \<le> n)"
    and disk: "pd_verdict d = Safe" "\<forall>q. pd_safe_to_place_bytes d = Some q \<longrightarrow> of_int (cm_disk_bytes use) \<le> q"
    and inodes: "\<forall>n. wr_disk_inodes req = Some n \<longrightarrow> cm_disk_inodes use \<noteq> 0 \<longrightarrow>
        (\<exists>free. pd_free_inodes d = Some free \<and> cm_disk_inodes use + n \<le> free)"
    and v: "\<forall>vram. gpu_with_headroom_mib req = Some vram \<longrightarrow>
        gv = Eligible \<and> (gr = None \<longrightarrow> (\<forall>n. ga = Some n \<longrightarrow> vram \<le> n))"
    using g unfolding all_gates_def Let_def mem gpu
    by (cases "gpu_with_headroom_mib req"; simp add: gates)+
  have ram: "\<exists>room. ram_room clock now (ca_host c) = Some room \<and> memory_with_headroom req \<le> max 0 (room - cm_memory_bytes use)"
    using memory_available_Eligible [of clock now "ca_host c" use ma mr] mem m by auto
  have vram: "\<exists>room. gpu_room clock now (ca_host c) room \<and> n \<le> max 0 (room - cm_gpu_vram_mib use)"
    if "gpu_with_headroom_mib req = Some n" for n
    using gpu_available_Eligible [of clock now "ca_host c" use ga gr] gpu v that by auto
  obtain w b where w: "speaks_for (ho_mounts (ca_host c)) w (ca_workspace_path c)" "is_probed w"
      "ms_observation w = Some b" "is_stale clock now b = Some Fresh" "verified_mount w (disk_request req)"
      "pd_safe_to_place_bytes d = Some (room_on w - of_int (needed_bytes (disk_request req)))"
    and free: "pd_free_inodes d = ms_free_inodes w"
    using safe_path_evidence [OF d disk(1)] by blast
  have "of_int (needed_bytes (disk_request req) + cm_disk_bytes use) \<le> room_on w"
    using disk(2) w(6) by simp
  moreover have "\<exists>free. ms_free_inodes w = Some free \<and> cm_disk_inodes use + n \<le> free" if "wr_disk_inodes req = Some n" for n
    using that inodes free w(5) by (cases "cm_disk_inodes use = 0") (auto simp: verified_mount_def disk_request_def)
  ultimately show ?thesis
    unfolding passes_all_gates_def using e ram vram w(1-5) by blast
qed

lemma rank_candidates_rows:
  assumes "rank_candidates clock now cs req usage = Some p"
  obtains rows where "list_all2 (\<lambda>c a. assess_candidate clock now c req (usage_of usage (ca_target_id c)) = Some a) cs rows"
    and "pl_assessments p = sort_key rank_key rows" and "pl_job_id p = wr_job_id req"
    and "pl_selected_target_id p = map_option as_target_id (List.find (\<lambda>a. as_verdict a = Eligible) (pl_assessments p))"
  using assms by (auto simp: rank_candidates_def Let_def checked_list_Some)

lemma list_all2_mem: "list_all2 P xs ys \<Longrightarrow> y \<in> set ys \<Longrightarrow> \<exists>x \<in> set xs. P x y"
  by (induction rule: list_all2_induct) auto

lemma selected_target_evidence:
  assumes "rank_candidates clock now cs req usage = Some p" and "pl_selected_target_id p = Some t"
  shows "\<exists>c \<in> set cs. ca_target_id c = t \<and> passes_all_gates clock now c req (usage_of usage t)"
proof -
  obtain rows where r: "list_all2 (\<lambda>c a. assess_candidate clock now c req (usage_of usage (ca_target_id c)) = Some a) cs rows"
      "pl_assessments p = sort_key rank_key rows"
      "pl_selected_target_id p = map_option as_target_id (List.find (\<lambda>a. as_verdict a = Eligible) (pl_assessments p))"
    using assms(1) by (rule rank_candidates_rows)
  obtain a where f: "List.find (\<lambda>a. as_verdict a = Eligible) (pl_assessments p) = Some a" "as_target_id a = t"
    using assms(2) unfolding r(3) by auto
  then have a: "a \<in> set rows" "as_verdict a = Eligible" "as_target_id a = t"
    using find_Some_D [OF f(1)] by (simp_all add: r(2))
  then obtain c where "c \<in> set cs" "assess_candidate clock now c req (usage_of usage (ca_target_id c)) = Some a"
    using list_all2_mem [OF r(1)] by blast
  with eligible_passes_all_gates [OF this(2) a(2)] assess_verdict(2) [OF this(2)] a(3) show ?thesis
    by auto
qed

text \<open>C18. Selection is fail-closed: a target is selected only when one of the candidates with that name
  passed every hard gate on the evidence of its own host, namely readiness, a verified route for a
  remote target, all capabilities, a free lane, CPU threads where they are asked for, RAM with headroom
  inside the cgroup and past what is reserved and committed, room and inodes on the very mount of its
  workspace, and GPU memory where it is asked for. The readings of RAM, mount and GPU are fresh: missing,
  stale or unreadable ones never count as capacity. The thread count must be known, but the gate does not
  look at the age of the CPU reading (\<open>stale_thread_count_is_used\<close> below).\<close>

theorem selected_target_passed_every_gate:
  assumes "rank_candidates clock now cs req usage = Some p" and "pl_selected_target_id p = Some t"
  shows "\<exists>c \<in> set cs. ca_target_id c = t \<and> passes_all_gates clock now c req (usage_of usage t)"
  by (rule selected_target_evidence [OF assms])

lemma find_sorted_least:
  fixes f :: "'a \<Rightarrow> 'b::linorder"
  assumes "sorted (map f xs)" and "List.find P xs = Some a" and "b \<in> set xs" and "P b"
  shows "f a \<le> f b"
  using assms by (induction xs) (auto split: if_splits)

text \<open>C21. The plan is deterministic and best: it assesses every candidate once, and when it selects a
  target, the first assessment of that verdict has the highest score of all eligible ones, the least
  target name among those of equal score; it is blocked exactly when no candidate is eligible.\<close>

theorem plan_selects_the_best_candidate:
  assumes "rank_candidates clock now cs req usage = Some p"
  shows "mset (map Some (pl_assessments p))
      = mset (map (\<lambda>c. assess_candidate clock now c req (usage_of usage (ca_target_id c))) cs)
    \<and> (pl_selected_target_id p = None \<longleftrightarrow> (\<forall>a \<in> set (pl_assessments p). as_verdict a \<noteq> Eligible))
    \<and> (\<forall>t. pl_selected_target_id p = Some t \<longrightarrow>
         (\<exists>a \<in> set (pl_assessments p). as_target_id a = t \<and> as_verdict a = Eligible \<and>
            (\<forall>b \<in> set (pl_assessments p). as_verdict b = Eligible \<longrightarrow>
               known (as_score b) < known (as_score a)
               \<or> known (as_score b) = known (as_score a) \<and> as_target_id a \<le> as_target_id b)))"
proof -
  obtain rows where r: "list_all2 (\<lambda>c a. assess_candidate clock now c req (usage_of usage (ca_target_id c)) = Some a) cs rows"
      "pl_assessments p = sort_key rank_key rows"
      "pl_selected_target_id p = map_option as_target_id (List.find (\<lambda>a. as_verdict a = Eligible) (pl_assessments p))"
    using assms by (rule rank_candidates_rows)
  have "map (\<lambda>c. assess_candidate clock now c req (usage_of usage (ca_target_id c))) cs = map Some rows"
    using r(1) by (induction rule: list_all2_induct) auto
  then have "mset (map Some (pl_assessments p))
      = mset (map (\<lambda>c. assess_candidate clock now c req (usage_of usage (ca_target_id c))) cs)"
    by (simp add: r(2))
  moreover have "pl_selected_target_id p = None \<longleftrightarrow> (\<forall>a \<in> set (pl_assessments p). as_verdict a \<noteq> Eligible)"
    unfolding r(3) by (auto simp: find_None_iff)
  moreover have "\<exists>a \<in> set (pl_assessments p). as_target_id a = t \<and> as_verdict a = Eligible \<and>
        (\<forall>b \<in> set (pl_assessments p). as_verdict b = Eligible \<longrightarrow>
           known (as_score b) < known (as_score a)
           \<or> known (as_score b) = known (as_score a) \<and> as_target_id a \<le> as_target_id b)"
    if t: "pl_selected_target_id p = Some t" for t
  proof -
    obtain a where a: "List.find (\<lambda>a. as_verdict a = Eligible) (pl_assessments p) = Some a" "as_target_id a = t"
      using t unfolding r(3) by auto
    have "sorted (map rank_key (pl_assessments p))"
      by (simp add: r(2))
    from find_sorted_least [OF this a(1)] find_Some_D [OF a(1)] a(2) show ?thesis
      by (fastforce simp: rank_key_def less_eq_prod_def less_prod_def)
  qed
  ultimately show ?thesis by blast
qed

section \<open>Examples\<close>

definition sample_candidate :: "string \<Rightarrow> host \<Rightarrow> candidate" where
  "sample_candidate name h =
     \<lparr>ca_target_id = name, ca_host = h, ca_workspace_path = ''/data/job'', ca_capabilities = [''python'', ''git''],
      ca_harness_id = ''codex'', ca_provider_id = None, ca_runtime_id = None, ca_remote = True,
      ca_route_verified = Some True, ca_execution_ready = Some True, ca_max_lanes = 2, ca_active_lanes = 0,
      ca_reliability = Some (1 / 2)\<rparr>"

definition sample_requirements :: "int \<Rightarrow> requirements" where
  "sample_requirements memory =
     \<lparr>wr_job_id = ''job-1'', wr_memory_bytes = memory, wr_disk_bytes = 100, wr_disk_inodes = Some 10,
      wr_cpu_threads = None, wr_gpu_vram_mib = None, wr_required_capabilities = [''git''],
      wr_preferred_host_ids = [], wr_server_preferred = True, wr_headroom_ratio = 1 / 10\<rparr>"

definition sample_now :: "string option" where
  "sample_now = Some ''2026-07-25T10:01:00Z''"

definition sample_candidates :: "candidate list" where
  "sample_candidates = [sample_candidate ''b'' two_mounts, sample_candidate ''a'' two_mounts]"

lemma sample_plan:
  "map_option pl_selected_target_id (rank_candidates 0 sample_now sample_candidates (sample_requirements 500) [])
   = Some (Some ''a'')"
  by code_simp

theorem selected_target_passed_every_gate_witness:
  "passes_all_gates 0 sample_now (sample_candidate ''a'' two_mounts) (sample_requirements 500) nothing_committed"
proof -
  obtain p where p: "rank_candidates 0 sample_now sample_candidates (sample_requirements 500) [] = Some p"
      "pl_selected_target_id p = Some ''a''"
    using sample_plan by auto
  from selected_target_passed_every_gate [OF p] show ?thesis
    by (auto simp: sample_candidates_def usage_of_def sample_candidate_def)
qed

theorem plan_selects_the_best_candidate_witness:
  "\<exists>p. rank_candidates 0 sample_now sample_candidates (sample_requirements 500) [] = Some p
    \<and> (\<exists>a \<in> set (pl_assessments p). as_target_id a = ''a'' \<and> as_verdict a = Eligible)"
proof -
  obtain p where p: "rank_candidates 0 sample_now sample_candidates (sample_requirements 500) [] = Some p"
      "pl_selected_target_id p = Some ''a''"
    using sample_plan by auto
  from plan_selects_the_best_candidate [OF p(1)] p show ?thesis by blast
qed

text \<open>The CPU gate takes a thread count of any age: here the reading is a year old.\<close>

definition aged_cpu :: host where
  "aged_cpu = two_mounts\<lparr>ho_cpu := Some
     \<lparr>ct_sockets = None, ct_cores = None, ct_threads = Some 8, ct_model = None, ct_numa = None,
      ct_observation = Some (sample_observation ''2025-07-25T10:00:00Z'')\<rparr>\<rparr>"

lemma stale_thread_count_is_used:
  "is_stale 0 sample_now (sample_observation ''2025-07-25T10:00:00Z'') = Some Stale"
  "map_option pl_selected_target_id (rank_candidates 0 sample_now [sample_candidate ''a'' aged_cpu]
     (sample_requirements 500\<lparr>wr_cpu_threads := Some 4\<rparr>) []) = Some (Some ''a'')"
  by code_simp+

section \<open>Stamps that cannot be read\<close>













end
