(* ===== verification/ReservationBook.thy ===== *)
theory ReservationBook
  imports Scheduler "HOL-Library.AList"
begin

text \<open>
  The reservation ledger of one scheduler process (\<open>ReservationBook\<close> of \<open>scheduler/core.py\<close>): planning
  and reserving in one step, reconciling with actual use, cancelling.

  The book is explicit state. SHA-256 is the parameter \<open>digest\<close>, a function of the canonical JSON of
  a request. Dictionaries are association lists in insertion order.
\<close>

section \<open>State\<close>

datatype book_error = BookValueError | BookKeyError | ReservationConflict

datatype reservation_state = Active | Completed | Cancelled

record reservation =
  rb_reservation_id :: string
  rb_idempotency_key :: string
  rb_request_digest :: string
  rb_job_id :: string
  rb_target_id :: string
  rb_fence_token :: int
  rb_state :: reservation_state
  rb_reserved :: committed
  rb_actual :: committed
  rb_overage :: bool

record book =
  bk_revision :: int
  bk_reservations :: "(string \<times> reservation) list"
  bk_by_idempotency :: "(string \<times> string) list"
  bk_plans :: "(string \<times> placement_plan) list"

type_synonym 'a bop = "(book_error, book, 'a) tx"

definition new_book :: book where
  "new_book = \<lparr>bk_revision = 0, bk_reservations = [], bk_by_idempotency = [], bk_plans = []\<rparr>"

definition reservations_of :: "book \<Rightarrow> reservation list" where
  "reservations_of b = sort_key rb_reservation_id (map snd (bk_reservations b))"

section \<open>Usage\<close>

definition max_committed :: "committed \<Rightarrow> committed \<Rightarrow> committed" where
  "max_committed a b =
     \<lparr>cm_memory_bytes = max (cm_memory_bytes a) (cm_memory_bytes b),
      cm_disk_bytes = max (cm_disk_bytes a) (cm_disk_bytes b),
      cm_disk_inodes = max (cm_disk_inodes a) (cm_disk_inodes b),
      cm_gpu_vram_mib = max (cm_gpu_vram_mib a) (cm_gpu_vram_mib b),
      cm_lanes = max (cm_lanes a) (cm_lanes b),
      cm_cpu_threads = max (cm_cpu_threads a) (cm_cpu_threads b)\<rparr>"

definition plus_committed :: "committed \<Rightarrow> committed \<Rightarrow> committed" where
  "plus_committed a b =
     \<lparr>cm_memory_bytes = cm_memory_bytes a + cm_memory_bytes b,
      cm_disk_bytes = cm_disk_bytes a + cm_disk_bytes b,
      cm_disk_inodes = cm_disk_inodes a + cm_disk_inodes b,
      cm_gpu_vram_mib = cm_gpu_vram_mib a + cm_gpu_vram_mib b,
      cm_lanes = cm_lanes a + cm_lanes b,
      cm_cpu_threads = cm_cpu_threads a + cm_cpu_threads b\<rparr>"

text \<open>An active reservation is charged the larger of what it reserved and what it uses.\<close>

definition charge :: "reservation \<Rightarrow> committed" where
  "charge r = max_committed (rb_reserved r) (rb_actual r)"

definition add_usage :: "reservation \<Rightarrow> (string \<times> committed) list \<Rightarrow> (string \<times> committed) list" where
  "add_usage r totals =
     (if rb_state r \<noteq> Active then totals
      else AList.update (rb_target_id r) (plus_committed (usage_of totals (rb_target_id r)) (charge r)) totals)"

definition usage_by_target :: "book \<Rightarrow> (string \<times> committed) list" where
  "usage_by_target b = fold add_usage (map snd (bk_reservations b)) []"

section \<open>Reserving\<close>

definition requirements_to_dict :: "requirements \<Rightarrow> json" where
  "requirements_to_dict r = JObj
     [(''job_id'', JStr (wr_job_id r)), (''memory_bytes'', JInt (wr_memory_bytes r)),
      (''disk_bytes'', JInt (wr_disk_bytes r)), (''disk_inodes'', opt_json JInt (wr_disk_inodes r)),
      (''cpu_threads'', opt_json JInt (wr_cpu_threads r)), (''gpu_vram_mib'', opt_json JInt (wr_gpu_vram_mib r)),
      (''required_capabilities'', JArr (map JStr (wr_required_capabilities r))),
      (''preferred_host_ids'', JArr (map JStr (wr_preferred_host_ids r))),
      (''server_preferred'', JBool (wr_server_preferred r)), (''headroom_ratio'', JFloat (wr_headroom_ratio r))]"

definition stable_digest :: "(json \<Rightarrow> string) \<Rightarrow> requirements \<Rightarrow> string" where
  "stable_digest digest r = ''sha256:'' @ digest (canon (requirements_to_dict r))"

text \<open>\<open>f"rsv-{n:08d}"\<close>: at least eight digits.\<close>

definition reservation_id :: "int \<Rightarrow> string" where
  "reservation_id n =
     (let ds = nat_digits (nat n) in ''rsv-'' @ replicate (8 - length ds) (CHR ''0'') @ ds)"

definition reserved_amounts :: "requirements \<Rightarrow> committed" where
  "reserved_amounts r =
     \<lparr>cm_memory_bytes = memory_with_headroom r,
      cm_disk_bytes = with_headroom (wr_headroom_ratio r) (wr_disk_bytes r),
      cm_disk_inodes = known (wr_disk_inodes r),
      cm_gpu_vram_mib = known (gpu_with_headroom_mib r),
      cm_lanes = 1,
      cm_cpu_threads = known (wr_cpu_threads r)\<rparr>"

definition plan :: "int \<Rightarrow> string option \<Rightarrow> candidate list \<Rightarrow> requirements \<Rightarrow> placement_plan bop" where
  "plan clock now cs req =
     tx_bind (tx_get (\<lambda>b. rank_candidates clock now cs req (usage_by_target b))) (\<lambda>z.
       case z of None \<Rightarrow> tx_raise BookValueError | Some p \<Rightarrow> tx_return p)"

definition record_reservation :: "string \<Rightarrow> reservation \<Rightarrow> placement_plan \<Rightarrow> book \<Rightarrow> book" where
  "record_reservation key row p b =
     b\<lparr>bk_revision := bk_revision b + 1,
       bk_reservations := AList.update (rb_reservation_id row) row (bk_reservations b),
       bk_by_idempotency := AList.update key (rb_reservation_id row) (bk_by_idempotency b),
       bk_plans := AList.update (rb_reservation_id row) p (bk_plans b)\<rparr>"

definition new_reservation :: "string \<Rightarrow> string \<Rightarrow> requirements \<Rightarrow> string \<Rightarrow> int \<Rightarrow> reservation" where
  "new_reservation key digest req target revision =
     \<lparr>rb_reservation_id = reservation_id revision, rb_idempotency_key = key, rb_request_digest = digest,
      rb_job_id = wr_job_id req, rb_target_id = target, rb_fence_token = revision, rb_state = Active,
      rb_reserved = reserved_amounts req, rb_actual = nothing_committed, rb_overage = False\<rparr>"

definition reserve_best ::
  "(json \<Rightarrow> string) \<Rightarrow> int \<Rightarrow> string option \<Rightarrow> candidate list \<Rightarrow> requirements \<Rightarrow> string \<Rightarrow> int option \<Rightarrow>
    (placement_plan \<times> reservation option) bop" where
  "reserve_best digest clock now cs req key expected =
     tx_seq (tx_raise_if (py_blank key) BookValueError)
     (tx_bind (tx_get (\<lambda>b. map_of (bk_by_idempotency b) key)) (\<lambda>existing.
        case existing of
          Some rid \<Rightarrow>
            tx_bind (tx_get (\<lambda>b. (map_of (bk_reservations b) rid, map_of (bk_plans b) rid))) (\<lambda>(row, p).
              case row of
                None \<Rightarrow> tx_raise BookKeyError
              | Some r \<Rightarrow>
                  tx_seq (tx_raise_if (rb_request_digest r \<noteq> stable_digest digest req) ReservationConflict)
                  (case p of None \<Rightarrow> tx_raise BookKeyError | Some q \<Rightarrow> tx_return (q, Some r)))
        | None \<Rightarrow>
            tx_bind (tx_get bk_revision) (\<lambda>revision.
            tx_seq (tx_raise_if (expected \<noteq> None \<and> expected \<noteq> Some revision) ReservationConflict)
            (tx_bind (plan clock now cs req) (\<lambda>p.
               case pl_selected_target_id p of
                 None \<Rightarrow> tx_return (p, None)
               | Some t \<Rightarrow>
                   (let row = new_reservation key (stable_digest digest req) req t (revision + 1)
                    in tx_seq (tx_modify (record_reservation key row p)) (tx_return (p, Some row))))))))"

section \<open>Reconciling\<close>

definition exceeds :: "committed \<Rightarrow> committed \<Rightarrow> bool" where
  "exceeds actual reserved \<longleftrightarrow>
     cm_memory_bytes reserved < cm_memory_bytes actual \<or> cm_disk_bytes reserved < cm_disk_bytes actual \<or>
     cm_disk_inodes reserved < cm_disk_inodes actual \<or> cm_gpu_vram_mib reserved < cm_gpu_vram_mib actual \<or>
     cm_lanes reserved < cm_lanes actual \<or> cm_cpu_threads reserved < cm_cpu_threads actual"

text \<open>The terminal state is \<open>completed\<close>, \<open>cancelled\<close> or absent; the type excludes other values.\<close>

datatype terminal_state = ToCompleted | ToCancelled

definition state_of_terminal :: "terminal_state \<Rightarrow> reservation_state" where
  "state_of_terminal t = (case t of ToCompleted \<Rightarrow> Completed | ToCancelled \<Rightarrow> Cancelled)"

text \<open>\<open>replace(row, actual=..., overage=..., state=...)\<close>\<close>

definition reconciled_row :: "committed \<Rightarrow> terminal_state option \<Rightarrow> reservation \<Rightarrow> reservation" where
  "reconciled_row actual terminal row =
     row\<lparr>rb_actual := actual, rb_overage := exceeds actual (rb_reserved row),
         rb_state := (case terminal of None \<Rightarrow> rb_state row | Some t \<Rightarrow> state_of_terminal t)\<rparr>"

definition reconcile ::
  "string \<Rightarrow> int \<Rightarrow> committed \<Rightarrow> terminal_state option \<Rightarrow> reservation bop" where
  "reconcile rid fence actual terminal =
     tx_bind (tx_get (\<lambda>b. map_of (bk_reservations b) rid)) (\<lambda>found.
       case found of
         None \<Rightarrow> tx_raise ReservationConflict
       | Some row \<Rightarrow>
           tx_seq (tx_raise_if (rb_fence_token row \<noteq> fence) ReservationConflict)
           (if rb_state row \<noteq> Active then
              tx_seq (tx_raise_if (terminal = None) ReservationConflict)
              (tx_seq (tx_raise_if (map_option state_of_terminal terminal \<noteq> Some (rb_state row)) ReservationConflict)
              (tx_seq (tx_raise_if (actual \<noteq> rb_actual row) ReservationConflict)
              (tx_return row)))
            else
              let updated = reconciled_row actual terminal row
              in if updated \<noteq> row
                 then tx_seq (tx_modify (\<lambda>b. b\<lparr>bk_revision := bk_revision b + 1,
                        bk_reservations := AList.update rid updated (bk_reservations b)\<rparr>)) (tx_return updated)
                 else tx_return updated))"

definition cancel :: "string \<Rightarrow> int \<Rightarrow> reservation bop" where
  "cancel rid fence = reconcile rid fence nothing_committed (Some ToCancelled)"

section \<open>Histories\<close>

inductive book_step :: "book \<Rightarrow> book \<Rightarrow> bool" where
  reserved: "requirements_ok req \<Longrightarrow>
    reserve_best digest clock now cs req key expected b = Inr (r, b') \<Longrightarrow> book_step b b'"
| reconciled: "committed_ok actual \<Longrightarrow> reconcile rid fence actual terminal b = Inr (r, b') \<Longrightarrow> book_step b b'"

inductive_cases book_stepE: "book_step b b'"

section \<open>Identifiers\<close>

lemma num_from_zeros: "num_from 0 (replicate k (CHR ''0'') @ s) = num_from 0 s"
  by (induction k) (simp_all add: digit_of_def Let_def)

lemma num_from_nat_digits: "num_from 0 (nat_digits n) = Some (int n)"
proof (induction n rule: nat_digits.induct)
  case (1 n)
  have d: "digit_of (char_of (48 + k)) = Some (int k)" if "k < 10" for k
    using that digit_of_digit [of "int k"] by simp
  show ?case
  proof (cases "n < 10")
    case True
    then show ?thesis by (simp add: nat_digits.simps [of n] d)
  next
    case False
    have "int (10 * (n div 10) + n mod 10) = int n"
      by simp
    then have "10 * int (n div 10) + int (n mod 10) = int n"
      unfolding of_nat_add of_nat_mult by simp
    with False 1 show ?thesis
      by (simp add: nat_digits.simps [of n] num_from_append d)
  qed
qed

lemma reservation_id_inject: "0 \<le> m \<Longrightarrow> 0 \<le> n \<Longrightarrow> reservation_id m = reservation_id n \<longleftrightarrow> m = n"
proof
  assume "0 \<le> m" "0 \<le> n" "reservation_id m = reservation_id n"
  moreover have "num_from 0 (drop 4 (reservation_id k)) = Some k" if "0 \<le> k" for k
    using that by (simp add: reservation_id_def Let_def num_from_zeros num_from_nat_digits)
  ultimately show "m = n" by (metis option.inject)
qed simp

section \<open>When an operation succeeds\<close>

lemma plan_Inr [simp]:
  "plan clock now cs req b = Inr (p, b') \<longleftrightarrow> b' = b \<and> rank_candidates clock now cs req (usage_by_target b) = Some p"
  by (auto simp: plan_def tx_results split: option.splits)

lemma reserve_best_Inr:
  "reserve_best digest clock now cs req key expected b = Inr ((p, r), b') \<longleftrightarrow>
     \<not> py_blank key \<and>
     (case map_of (bk_by_idempotency b) key of
        Some rid \<Rightarrow> b' = b \<and> (\<exists>row. map_of (bk_reservations b) rid = Some row \<and>
          rb_request_digest row = stable_digest digest req \<and> map_of (bk_plans b) rid = Some p \<and> r = Some row)
      | None \<Rightarrow> (expected = None \<or> expected = Some (bk_revision b)) \<and>
          rank_candidates clock now cs req (usage_by_target b) = Some p \<and>
          (case pl_selected_target_id p of
             None \<Rightarrow> r = None \<and> b' = b
           | Some t \<Rightarrow>
               r = Some (new_reservation key (stable_digest digest req) req t (bk_revision b + 1)) \<and>
               b' = record_reservation key (new_reservation key (stable_digest digest req) req t (bk_revision b + 1)) p b))"
  unfolding reserve_best_def
  by (cases "map_of (bk_by_idempotency b) key"; cases "pl_selected_target_id p")
    (auto simp: tx_results Let_def split: option.splits prod.splits)

lemma reconcile_Inr:
  "reconcile rid fence actual terminal b = Inr (r, b') \<longleftrightarrow>
     (\<exists>row. map_of (bk_reservations b) rid = Some row \<and> rb_fence_token row = fence \<and>
        (if rb_state row \<noteq> Active
         then map_option state_of_terminal terminal = Some (rb_state row) \<and> actual = rb_actual row \<and> r = row \<and> b' = b
         else r = reconciled_row actual terminal row \<and>
           b' = (if r = row then b
                 else b\<lparr>bk_revision := bk_revision b + 1, bk_reservations := AList.update rid r (bk_reservations b)\<rparr>)))"
  unfolding reconcile_def
  by (cases "map_of (bk_reservations b) rid")
    (auto simp: tx_results Let_def split: if_splits)

section \<open>Invariant\<close>

definition row_ok :: "book \<Rightarrow> string \<Rightarrow> reservation \<Rightarrow> bool" where
  "row_ok b rid row \<longleftrightarrow>
     rb_reservation_id row = rid \<and> rid = reservation_id (rb_fence_token row) \<and>
     1 \<le> rb_fence_token row \<and> rb_fence_token row \<le> bk_revision b \<and>
     committed_ok (rb_reserved row) \<and> committed_ok (rb_actual row) \<and>
     map_of (bk_by_idempotency b) (rb_idempotency_key row) = Some rid"

definition book_ok :: "book \<Rightarrow> bool" where
  "book_ok b \<longleftrightarrow>
     0 \<le> bk_revision b \<and>
     (\<forall>rid row. map_of (bk_reservations b) rid = Some row \<longrightarrow> row_ok b rid row) \<and>
     (\<forall>key rid. map_of (bk_by_idempotency b) key = Some rid \<longrightarrow>
        (\<exists>row. map_of (bk_reservations b) rid = Some row \<and> rb_idempotency_key row = key)) \<and>
     (\<forall>rid. map_of (bk_plans b) rid = None \<longleftrightarrow> map_of (bk_reservations b) rid = None)"

text \<open>What a later version of a reservation shares with an earlier one.\<close>

definition row_forward :: "reservation \<Rightarrow> reservation \<Rightarrow> bool" where
  "row_forward r r' \<longleftrightarrow>
     r'\<lparr>rb_state := rb_state r, rb_actual := rb_actual r, rb_overage := rb_overage r\<rparr> = r
     \<and> (rb_state r \<noteq> Active \<longrightarrow> r' = r)"

definition book_grows :: "book \<Rightarrow> book \<Rightarrow> bool" where
  "book_grows b b' \<longleftrightarrow> (book_ok b \<longrightarrow>
     book_ok b' \<and> bk_revision b \<le> bk_revision b' \<and> (bk_revision b' = bk_revision b \<longrightarrow> b' = b) \<and>
     map_of (bk_by_idempotency b) \<subseteq>\<^sub>m map_of (bk_by_idempotency b') \<and>
     map_of (bk_plans b) \<subseteq>\<^sub>m map_of (bk_plans b') \<and>
     (\<forall>rid row. map_of (bk_reservations b) rid = Some row \<longrightarrow>
        (\<exists>row'. map_of (bk_reservations b') rid = Some row' \<and> row_forward row row')))"

lemma new_book_ok [simp]: "book_ok new_book"
  by (simp add: book_ok_def new_book_def)

lemma row_forward_refl [simp]: "row_forward r r"
  by (simp add: row_forward_def)

lemma row_forward_trans: "row_forward r s \<Longrightarrow> row_forward s t \<Longrightarrow> row_forward r t"
  unfolding row_forward_def by (cases r; cases s; cases t) auto

lemma book_grows_refl: "book_grows b b"
  by (auto simp: book_grows_def)

lemma book_grows_trans:
  assumes "book_grows b c" and "book_grows c d"
  shows "book_grows b d"
  unfolding book_grows_def
proof (intro impI)
  assume ok: "book_ok b"
  note bc = assms(1) [unfolded book_grows_def, rule_format, OF ok]
  then have okc: "book_ok c" by blast
  note cd = assms(2) [unfolded book_grows_def, rule_format, OF okc]
  have "\<exists>row'. map_of (bk_reservations d) rid = Some row' \<and> row_forward row row'"
    if "map_of (bk_reservations b) rid = Some row" for rid row
    using bc cd that by (meson row_forward_trans)
  with bc cd show "book_ok d \<and> bk_revision b \<le> bk_revision d \<and> (bk_revision d = bk_revision b \<longrightarrow> d = b) \<and>
     map_of (bk_by_idempotency b) \<subseteq>\<^sub>m map_of (bk_by_idempotency d) \<and> map_of (bk_plans b) \<subseteq>\<^sub>m map_of (bk_plans d) \<and>
     (\<forall>rid row. map_of (bk_reservations b) rid = Some row \<longrightarrow>
        (\<exists>row'. map_of (bk_reservations d) rid = Some row' \<and> row_forward row row'))"
    by (auto intro: map_le_trans)
qed

lemma amounts_ok: "requirements_ok req \<Longrightarrow> committed_ok (reserved_amounts req)"
  by (auto simp: requirements_ok_def committed_ok_def reserved_amounts_def memory_with_headroom_def
      gpu_with_headroom_mib_def with_headroom_def non_negative_def known_def py_round_nonneg split: option.splits)

lemma book_ok_key:
  "book_ok b \<Longrightarrow> map_of (bk_by_idempotency b) k = Some i \<Longrightarrow>
    \<exists>row. map_of (bk_reservations b) i = Some row \<and> rb_idempotency_key row = k"
  unfolding book_ok_def by blast

lemma book_ok_row: "book_ok b \<Longrightarrow> map_of (bk_reservations b) i = Some row \<Longrightarrow> row_ok b i row"
  unfolding book_ok_def by blast

lemma fresh_reservation_id:
  assumes "book_ok b"
  shows "map_of (bk_reservations b) (reservation_id (bk_revision b + 1)) = None"
proof (cases "map_of (bk_reservations b) (reservation_id (bk_revision b + 1))")
  case (Some row)
  with assms have "row_ok b (reservation_id (bk_revision b + 1)) row" "0 \<le> bk_revision b"
    unfolding book_ok_def by blast+
  then show ?thesis
    using reservation_id_inject [of "bk_revision b + 1" "rb_fence_token row"] by (auto simp: row_ok_def)
qed

lemma record_reservation_simps [simp]:
  "bk_revision (record_reservation key row p b) = bk_revision b + 1"
  "map_of (bk_reservations (record_reservation key row p b)) = (map_of (bk_reservations b))(rb_reservation_id row \<mapsto> row)"
  "map_of (bk_by_idempotency (record_reservation key row p b)) = (map_of (bk_by_idempotency b))(key \<mapsto> rb_reservation_id row)"
  "map_of (bk_plans (record_reservation key row p b)) = (map_of (bk_plans b))(rb_reservation_id row \<mapsto> p)"
  by (simp_all add: record_reservation_def update_conv')

lemma new_reservation_simps [simp]:
  "rb_reservation_id (new_reservation key d req t n) = reservation_id n"
  "rb_idempotency_key (new_reservation key d req t n) = key" "rb_fence_token (new_reservation key d req t n) = n"
  "rb_reserved (new_reservation key d req t n) = reserved_amounts req"
  "rb_actual (new_reservation key d req t n) = nothing_committed" "rb_state (new_reservation key d req t n) = Active"
  "rb_target_id (new_reservation key d req t n) = t" "rb_request_digest (new_reservation key d req t n) = d"
  by (simp_all add: new_reservation_def)

lemma nothing_ok [simp]: "committed_ok nothing_committed"
  by (simp add: committed_ok_def nothing_committed_def)

lemma row_ok_later:
  "row_ok b rid row \<Longrightarrow> bk_revision b \<le> bk_revision b' \<Longrightarrow>
    map_of (bk_by_idempotency b) \<subseteq>\<^sub>m map_of (bk_by_idempotency b') \<Longrightarrow> row_ok b' rid row"
  by (auto simp: row_ok_def map_le_def dom_def)

lemma record_reservation_grows:
  fixes d t :: string
  assumes "requirements_ok req" and key: "map_of (bk_by_idempotency b) key = None"
  defines "row \<equiv> new_reservation key d req t (bk_revision b + 1)"
  shows "book_grows b (record_reservation key row p b)"
  unfolding book_grows_def
proof (intro impI)
  assume ok: "book_ok b"
  let ?b = "record_reservation key row p b" and ?rid = "reservation_id (bk_revision b + 1)"
  have rid: "rb_reservation_id row = ?rid" "rb_idempotency_key row = key"
    by (simp_all add: row_def)
  have rev: "0 \<le> bk_revision b"
    using ok by (simp add: book_ok_def)
  have new: "map_of (bk_reservations b) ?rid = None"
    by (rule fresh_reservation_id [OF ok])
  then have plans: "map_of (bk_plans b) ?rid = None"
    using ok by (simp add: book_ok_def)
  have keys: "map_of (bk_by_idempotency b) \<subseteq>\<^sub>m map_of (bk_by_idempotency ?b)"
    using key by (auto intro: map_le_update_new)
  have "row_ok ?b ?rid row"
    using rev amounts_ok [OF assms(1)] by (simp add: row_ok_def row_def)
  moreover have "row_ok ?b i r" if "map_of (bk_reservations b) i = Some r" for i r
    using row_ok_later [of b i r ?b] keys ok that unfolding book_ok_def by simp
  ultimately have rows: "row_ok ?b i r" if "map_of (bk_reservations ?b) i = Some r" for i r
    using that by (auto simp: rid split: if_splits)
  have "\<exists>r. map_of (bk_reservations ?b) i = Some r \<and> rb_idempotency_key r = k"
    if "map_of (bk_by_idempotency ?b) k = Some i" for k i
    using that book_ok_key [OF ok, of k i] new by (auto simp: rid split: if_splits)
  then have "book_ok ?b"
    using rev rows ok unfolding book_ok_def by (auto simp: rid)
  then show "book_ok ?b \<and> bk_revision b \<le> bk_revision ?b \<and> (bk_revision ?b = bk_revision b \<longrightarrow> ?b = b) \<and>
     map_of (bk_by_idempotency b) \<subseteq>\<^sub>m map_of (bk_by_idempotency ?b) \<and> map_of (bk_plans b) \<subseteq>\<^sub>m map_of (bk_plans ?b) \<and>
     (\<forall>i r. map_of (bk_reservations b) i = Some r \<longrightarrow> (\<exists>r'. map_of (bk_reservations ?b) i = Some r' \<and> row_forward r r'))"
    using keys new plans by (auto simp: rid intro: map_le_update_new)
qed

lemma reconcile_grows:
  fixes terminal :: "terminal_state option"
  assumes "committed_ok actual" and "map_of (bk_reservations b) rid = Some row" and "rb_state row = Active"
  defines "r \<equiv> reconciled_row actual terminal row"
  shows "book_grows b (b\<lparr>bk_revision := bk_revision b + 1, bk_reservations := AList.update rid r (bk_reservations b)\<rparr>)"
  unfolding book_grows_def
proof (intro impI)
  assume ok: "book_ok b"
  let ?b = "b\<lparr>bk_revision := bk_revision b + 1, bk_reservations := AList.update rid r (bk_reservations b)\<rparr>"
  have fwd: "row_forward row r"
    using assms(3) by (simp add: row_forward_def r_def reconciled_row_def)
  have old: "row_ok ?b i x" if "map_of (bk_reservations b) i = Some x" for i x
    using row_ok_later [of b i x ?b] ok that unfolding book_ok_def by simp
  from old [OF assms(2)] have "row_ok ?b rid r"
    using assms(1) by (simp add: row_ok_def r_def reconciled_row_def)
  with old have rows: "row_ok ?b i x" if "map_of (bk_reservations ?b) i = Some x" for i x
    using that by (auto simp: update_conv' split: if_splits)
  have "\<exists>x. map_of (bk_reservations ?b) i = Some x \<and> rb_idempotency_key x = k"
    if "map_of (bk_by_idempotency ?b) k = Some i" for k i
    using that book_ok_key [OF ok, of k i] assms(2)
    by (cases "i = rid") (auto simp: update_conv' r_def reconciled_row_def)
  then have "book_ok ?b"
    using rows ok assms(2) unfolding book_ok_def by (auto simp: update_conv')
  then show "book_ok ?b \<and> bk_revision b \<le> bk_revision ?b \<and> (bk_revision ?b = bk_revision b \<longrightarrow> ?b = b) \<and>
     map_of (bk_by_idempotency b) \<subseteq>\<^sub>m map_of (bk_by_idempotency ?b) \<and> map_of (bk_plans b) \<subseteq>\<^sub>m map_of (bk_plans ?b) \<and>
     (\<forall>i r. map_of (bk_reservations b) i = Some r \<longrightarrow> (\<exists>r'. map_of (bk_reservations ?b) i = Some r' \<and> row_forward r r'))"
    using fwd assms(2) by (auto simp: update_conv')
qed

lemma book_step_grows: "book_step b b' \<Longrightarrow> book_grows b b'"
proof (induction rule: book_step.induct)
  case (reserved req digest clock now cs key expected b r b')
  then show ?case
    by (cases r) (auto simp: reserve_best_Inr intro: book_grows_refl record_reservation_grows split: option.splits)
next
  case (reconciled actual rid fence terminal b r b')
  then show ?case
    by (auto simp: reconcile_Inr intro: book_grows_refl reconcile_grows split: if_splits)
qed

lemma book_history_grows: "book_step\<^sup>*\<^sup>* b b' \<Longrightarrow> book_grows b b'"
  by (rule steps_preorder [of book_step b b' book_grows])
    (auto intro: book_grows_refl book_grows_trans book_step_grows)

lemma reachable_book_ok: "book_step\<^sup>*\<^sup>* new_book b \<Longrightarrow> book_ok b"
  using book_history_grows [of new_book b] by (simp add: book_grows_def)

section \<open>What is committed\<close>


text \<open>An amount of \<open>committed\<close> that \<open>plus_committed\<close> adds up.\<close>

definition additive :: "(committed \<Rightarrow> int) \<Rightarrow> bool" where
  "additive f \<longleftrightarrow> f nothing_committed = 0 \<and> (\<forall>a b. f (plus_committed a b) = f a + f b)"

lemma additive_amounts [simp]:
  "additive cm_memory_bytes" "additive cm_disk_bytes" "additive cm_disk_inodes" "additive cm_gpu_vram_mib"
  "additive cm_lanes" "additive cm_cpu_threads"
  by (simp_all add: additive_def nothing_committed_def plus_committed_def)

lemma usage_of_update [simp]: "usage_of (AList.update t u totals) t' = (if t' = t then u else usage_of totals t')"
  by (simp add: usage_of_def update_conv')






section \<open>Properties\<close>





lemma reservation_replays:
  assumes "book_step\<^sup>*\<^sup>* new_book b" and "requirements_ok req"
    and "reserve_best digest clock now cs req key expected b = Inr ((p, Some r), b')" and "book_step\<^sup>*\<^sup>* b' b''"
  shows "map_of (bk_by_idempotency b'') key \<noteq> None \<and> (\<exists>r'. reserve_best digest clock' now' cs' req key expected' b'' = Inr ((p, Some r'), b'')
    \<and> rb_reservation_id r' = rb_reservation_id r \<and> rb_target_id r' = rb_target_id r
    \<and> rb_fence_token r' = rb_fence_token r \<and> rb_reserved r' = rb_reserved r)"
proof -
  have ok: "book_ok b'"
    using reachable_book_ok assms by (metis (full_types) book_step.reserved rtranclp.rtrancl_into_rtrancl)
  have known: "\<not> py_blank key" "rb_request_digest r = stable_digest digest req"
      "map_of (bk_by_idempotency b') key = Some (rb_reservation_id r)"
      "map_of (bk_reservations b') (rb_reservation_id r) = Some r" "map_of (bk_plans b') (rb_reservation_id r) = Some p"
  proof -
    have "\<not> py_blank key \<and> rb_request_digest r = stable_digest digest req \<and>
      (\<exists>rid. map_of (bk_by_idempotency b') key = Some rid \<and> map_of (bk_reservations b') rid = Some r
         \<and> map_of (bk_plans b') rid = Some p)"
      using assms(3) by (auto simp: reserve_best_Inr split: option.splits)
    with ok show "\<not> py_blank key" "rb_request_digest r = stable_digest digest req"
        "map_of (bk_by_idempotency b') key = Some (rb_reservation_id r)"
        "map_of (bk_reservations b') (rb_reservation_id r) = Some r" "map_of (bk_plans b') (rb_reservation_id r) = Some p"
      by (auto dest: book_ok_row simp: row_ok_def)
  qed
  note grows = book_history_grows [OF assms(4), unfolded book_grows_def, rule_format, OF ok]
  then obtain r' where r': "map_of (bk_reservations b'') (rb_reservation_id r) = Some r'" "row_forward r r'"
    using known(4) by blast
  have same: "rb_request_digest r' = rb_request_digest r" "rb_reservation_id r' = rb_reservation_id r"
      "rb_target_id r' = rb_target_id r" "rb_fence_token r' = rb_fence_token r" "rb_reserved r' = rb_reserved r"
    using r'(2) by (cases r; cases r'; simp add: row_forward_def)+
  have "map_of (bk_by_idempotency b'') key = Some (rb_reservation_id r)" "map_of (bk_plans b'') (rb_reservation_id r) = Some p"
    using grows known(3,5) by (auto simp: map_le_def dom_def)
  with known r' same show ?thesis
    by (auto simp: reserve_best_Inr)
qed

text \<open>Reserving is idempotent: after a reservation was made under a key, the same request under the
  same key is answered, in every later state and whatever candidates, clock or expected revision come
  with it, by the original plan and the current record of that very reservation (same identifier,
  target, fence and amounts), and the book does not change.\<close>

theorem reservation_replay_is_idempotent:
  assumes "book_step\<^sup>*\<^sup>* new_book b" and "requirements_ok req"
    and "reserve_best digest clock now cs req key expected b = Inr ((p, Some r), b')" and "book_step\<^sup>*\<^sup>* b' b''"
  shows "\<exists>r'. reserve_best digest clock' now' cs' req key expected' b'' = Inr ((p, Some r'), b'')
    \<and> rb_reservation_id r' = rb_reservation_id r \<and> rb_target_id r' = rb_target_id r
    \<and> rb_fence_token r' = rb_fence_token r \<and> rb_reserved r' = rb_reserved r"
  using reservation_replays [OF assms] by blast

text \<open>A key names one request: after a reservation was made under a key, a request with another
  digest that reuses the key raises \<open>ReservationConflict\<close> in every later state.\<close>

theorem reused_key_is_refused:
  assumes "book_step\<^sup>*\<^sup>* new_book b" and "requirements_ok req"
    and "reserve_best digest clock now cs req key expected b = Inr ((p, Some r), b')" and "book_step\<^sup>*\<^sup>* b' b''"
    and "stable_digest digest req' \<noteq> stable_digest digest req"
  shows "reserve_best digest clock' now' cs' req' key expected' b'' = Inl ReservationConflict"
proof -
  obtain r' where "reserve_best digest clock now cs req key expected b'' = Inr ((p, Some r'), b'')"
    using reservation_replays [OF assms(1-4)] by blast
  then have "\<not> py_blank key" "\<exists>rid row. map_of (bk_by_idempotency b'') key = Some rid \<and> map_of (bk_reservations b'') rid = Some row
      \<and> rb_request_digest row = stable_digest digest req" if "map_of (bk_by_idempotency b'') key \<noteq> None"
    using that by (auto simp: reserve_best_Inr)
  moreover have "map_of (bk_by_idempotency b'') key \<noteq> None"
    using reservation_replays [OF assms(1-4)] by blast
  ultimately show ?thesis
    using assms(5) by (auto simp: reserve_best_def tx_bind_def tx_seq_def tx_get_def tx_raise_if_def tx_raise_def tx_return_def)
qed

text \<open>A terminal reservation is immutable: once completed or cancelled, its record is the same in
  every later state, so its use is never recorded twice and it never charges the target again.\<close>

theorem terminal_reservation_is_final:
  assumes "book_step\<^sup>*\<^sup>* new_book b" and "map_of (bk_reservations b) rid = Some r" and "rb_state r \<noteq> Active"
    and "book_step\<^sup>*\<^sup>* b b'"
  shows "map_of (bk_reservations b') rid = Some r"
proof -
  note grows = book_history_grows [OF assms(4), unfolded book_grows_def, rule_format, OF reachable_book_ok [OF assms(1)]]
  then obtain r' where "map_of (bk_reservations b') rid = Some r'" "row_forward r r'"
    using assms(2) by blast
  with assms(3) show ?thesis
    by (simp add: row_forward_def)
qed

text \<open>The expected revision guards the book: a caller that read the book at some state and reserves
  later with that state's revision succeeds with a new reservation only when nothing was reserved or
  reconciled in between, so the plan it read is not outdated.\<close>

theorem expected_revision_guards_the_book:
  assumes "book_step\<^sup>*\<^sup>* new_book b0" and "book_step\<^sup>*\<^sup>* b0 b"
    and "reserve_best digest clock now cs req key (Some (bk_revision b0)) b = Inr ((p, r), b')" and "b' \<noteq> b"
  shows "b = b0 \<and> bk_revision b' = bk_revision b0 + 1"
proof -
  note grows = book_history_grows [OF assms(2), unfolded book_grows_def, rule_format, OF reachable_book_ok [OF assms(1)]]
  have "bk_revision b = bk_revision b0" "bk_revision b' = bk_revision b + 1"
    using assms(3,4) by (auto simp: reserve_best_Inr split: option.splits)
  with grows show ?thesis by simp
qed

section \<open>Examples\<close>

definition sample_reserve :: "string \<Rightarrow> int \<Rightarrow> (placement_plan \<times> reservation option) bop" where
  "sample_reserve key memory =
     reserve_best (\<lambda>v. if v = canon (requirements_to_dict (sample_requirements 500)) then ''1'' else ''2'')
       0 sample_now sample_candidates (sample_requirements memory) key None"

definition one_booked :: book where
  "one_booked = tx_state (sample_reserve ''k1'' 500) new_book"

definition cancelled_book :: book where
  "cancelled_book = tx_state (cancel ''rsv-00000001'' 1) one_booked"

lemma sample_requirements_ok: "requirements_ok (sample_requirements 500)" "requirements_ok (sample_requirements 400)"
  by (simp_all add: requirements_ok_def sample_requirements_def non_negative_def py_blank_def py_space_def)

lemma sample_booking:
  "\<exists>p r. sample_reserve ''k1'' 500 new_book = Inr ((p, Some r), one_booked) \<and> rb_target_id r = ''a''"
  "bk_revision one_booked = 1" "bk_revision cancelled_book = 2"
  "\<exists>r. map_of (bk_reservations cancelled_book) ''rsv-00000001'' = Some r \<and> rb_state r = Cancelled"
proof -
  have "case sample_reserve ''k1'' 500 new_book of Inr ((p, Some r), b) \<Rightarrow> rb_target_id r = ''a'' | _ \<Rightarrow> False"
    by code_simp
  then show "\<exists>p r. sample_reserve ''k1'' 500 new_book = Inr ((p, Some r), one_booked) \<and> rb_target_id r = ''a''"
    by (auto simp: one_booked_def tx_state_def split: sum.splits prod.splits option.splits)
  have "case map_of (bk_reservations cancelled_book) ''rsv-00000001'' of Some r \<Rightarrow> rb_state r = Cancelled | None \<Rightarrow> False"
    by code_simp
  then show "\<exists>r. map_of (bk_reservations cancelled_book) ''rsv-00000001'' = Some r \<and> rb_state r = Cancelled"
    by (auto split: option.splits)
qed code_simp+

lemma sample_history:
  "book_step\<^sup>*\<^sup>* new_book one_booked" "book_step\<^sup>*\<^sup>* one_booked cancelled_book"
proof -
  show "book_step\<^sup>*\<^sup>* new_book one_booked"
    using sample_booking(1) sample_requirements_ok(1) by (auto simp: sample_reserve_def intro: book_step.reserved)
  have "cancelled_book = one_booked \<or> (\<exists>r. cancel ''rsv-00000001'' 1 one_booked = Inr (r, cancelled_book))"
    by (auto simp: cancelled_book_def tx_state_def split: sum.splits prod.splits)
  then show "book_step\<^sup>*\<^sup>* one_booked cancelled_book"
    by (auto simp: cancel_def intro: r_into_rtranclp book_step.reconciled [OF nothing_ok])
qed


theorem reservation_replay_is_idempotent_witness:
  "\<exists>p r. sample_reserve ''k1'' 500 cancelled_book = Inr ((p, Some r), cancelled_book)"
proof -
  obtain p r where "sample_reserve ''k1'' 500 new_book = Inr ((p, Some r), one_booked)"
    using sample_booking(1) by blast
  from reservation_replay_is_idempotent [OF rtranclp.rtrancl_refl sample_requirements_ok(1)
      this [unfolded sample_reserve_def] sample_history(2)]
  show ?thesis unfolding sample_reserve_def by blast
qed

theorem reused_key_is_refused_witness:
  "sample_reserve ''k1'' 400 cancelled_book = Inl ReservationConflict"
proof -
  obtain p r where r: "sample_reserve ''k1'' 500 new_book = Inr ((p, Some r), one_booked)"
    using sample_booking(1) by blast
  have "canon (requirements_to_dict (sample_requirements 400)) \<noteq> canon (requirements_to_dict (sample_requirements 500))"
    by code_simp
  then show ?thesis
    unfolding sample_reserve_def
    by (intro reused_key_is_refused [OF rtranclp.rtrancl_refl sample_requirements_ok(1)
        r [unfolded sample_reserve_def] sample_history(2)]) (simp add: stable_digest_def)
qed

theorem terminal_reservation_is_final_witness:
  "\<exists>r. rb_state r = Cancelled \<and> map_of (bk_reservations (tx_state (sample_reserve ''k1'' 500) cancelled_book)) ''rsv-00000001'' = Some r"
proof -
  obtain r where r: "map_of (bk_reservations cancelled_book) ''rsv-00000001'' = Some r" "rb_state r = Cancelled"
    using sample_booking(4) by blast
  have "book_step\<^sup>*\<^sup>* cancelled_book (tx_state (sample_reserve ''k1'' 500) cancelled_book)"
    using sample_requirements_ok(1)
    by (auto simp: tx_state_def sample_reserve_def intro: book_step.reserved split: sum.splits prod.splits)
  from terminal_reservation_is_final [OF rtranclp_trans [OF sample_history] r(1) _ this] r(2) show ?thesis
    by auto
qed

theorem expected_revision_guards_the_book_witness:
  "\<exists>x b'. reserve_best (\<lambda>v. []) 0 sample_now sample_candidates (sample_requirements 400) ''k2''
     (Some (bk_revision new_book)) new_book = Inr (x, b') \<and> bk_revision b' = 1"
proof -
  have "case reserve_best (\<lambda>v. []) 0 sample_now sample_candidates (sample_requirements 400) ''k2''
     (Some (bk_revision new_book)) new_book of Inr (x, b') \<Rightarrow> bk_revision b' \<noteq> 0 | _ \<Rightarrow> False"
    by code_simp
  then obtain p r b' where b': "reserve_best (\<lambda>v. []) 0 sample_now sample_candidates (sample_requirements 400) ''k2''
     (Some (bk_revision new_book)) new_book = Inr ((p, r), b')" "bk_revision b' \<noteq> 0"
    by (auto split: sum.splits)
  then have "b' \<noteq> new_book"
    by (auto simp: new_book_def)
  from expected_revision_guards_the_book [OF rtranclp.rtrancl_refl rtranclp.rtrancl_refl b'(1) this] b'(1)
  show ?thesis by (auto simp: new_book_def)
qed

end
