(* ===== verification/SemVer.thy ===== *)
theory SemVer
  imports ContractChecks
begin

text \<open>
  Package versions (\<open>packages/manifest.py\<close>): the grammar of \<open>_VERSION_RE\<close>, the comparison of two
  versions and the constraints of a dependency.

  A \<open>ManifestError\<close> is \<open>None\<close>. The comparison of the code is shown to be the sign of a linear order on
  \<open>precedence\<close>, the reference of the semantic versioning rules: numbers before texts, a prerelease
  before its release, build metadata ignored.
\<close>

section \<open>The grammar\<close>

definition dec_digit :: "char \<Rightarrow> bool" where
  "dec_digit c \<longleftrightarrow> (let n = of_char c :: nat in 48 \<le> n \<and> n \<le> 57)"

definition digits_val :: "string \<Rightarrow> nat" where
  "digits_val s = foldl (\<lambda>n c. 10 * n + (of_char c - 48)) 0 s"

definition all_digits :: "string \<Rightarrow> bool" where
  "all_digits s \<longleftrightarrow> s \<noteq> [] \<and> list_all dec_digit s"

definition numeric_id :: "string \<Rightarrow> bool" where
  "numeric_id s \<longleftrightarrow> all_digits s \<and> (hd s \<noteq> CHR ''0'' \<or> s = ''0'')"

definition build_id :: "string \<Rightarrow> bool" where
  "build_id s \<longleftrightarrow> s \<noteq> [] \<and> list_all (\<lambda>c. is_ascii_alnum c \<or> c = CHR ''-'') s"

definition prerelease_id :: "string \<Rightarrow> bool" where
  "prerelease_id s \<longleftrightarrow> build_id s \<and> (\<not> all_digits s \<or> numeric_id s)"

text \<open>\<open>_version_tuple\<close>: the core, and the prerelease identifiers where there are any.\<close>

type_synonym version_tuple = "nat \<times> nat \<times> nat \<times> string list option"

definition version_tuple :: "string \<Rightarrow> version_tuple option" where
  "version_tuple s =
     (let main = takeWhile (\<lambda>c. c \<noteq> CHR ''+'') s; build = drop (length main) s;
          core = takeWhile (\<lambda>c. c \<noteq> CHR ''-'') main; pre = drop (length core) main
      in do {
        require (build = [] \<or> list_all build_id (split_on (CHR ''.'') (tl build)));
        require (pre = [] \<or> list_all prerelease_id (split_on (CHR ''.'') (tl pre)));
        (case split_on (CHR ''.'') core of
           [a, b, c] \<Rightarrow> do {
             require (numeric_id a \<and> numeric_id b \<and> numeric_id c);
             Some (digits_val a, digits_val b, digits_val c,
               if pre = [] then None else Some (split_on (CHR ''.'') (tl pre))) }
         | _ \<Rightarrow> None) })"

section \<open>Comparison\<close>

fun compare_prerelease :: "string list \<Rightarrow> string list \<Rightarrow> int" where
  "compare_prerelease (a # as) (b # bs) =
     (if a = b then compare_prerelease as bs
      else if all_digits a \<and> all_digits b then
        if digits_val a = digits_val b then compare_prerelease as bs
        else if digits_val a < digits_val b then -1 else 1
      else if all_digits a \<noteq> all_digits b then (if all_digits a then -1 else 1)
      else if a < b then -1 else 1)"
| "compare_prerelease [] [] = 0"
| "compare_prerelease [] (_ # _) = -1"
| "compare_prerelease (_ # _) [] = 1"

definition compare_tuples :: "version_tuple \<Rightarrow> version_tuple \<Rightarrow> int" where
  "compare_tuples l r =
     (let (la, lb, lc, lp) = l; (ra, rb, rc, rp) = r
      in if (la, lb, lc) \<noteq> (ra, rb, rc) then (if (la, lb, lc) < (ra, rb, rc) then -1 else 1)
         else case (lp, rp) of
           (None, None) \<Rightarrow> 0
         | (None, Some _) \<Rightarrow> 1
         | (Some _, None) \<Rightarrow> -1
         | (Some x, Some y) \<Rightarrow> compare_prerelease x y)"

definition compare_versions :: "string \<Rightarrow> string \<Rightarrow> int option" where
  "compare_versions left right = do {
     l \<leftarrow> version_tuple left;
     r \<leftarrow> version_tuple right;
     Some (compare_tuples l r) }"

section \<open>Constraints\<close>

datatype operator = Exactly | AtLeast | AtMost | Above | Below

text \<open>The operator of a clause and its operand; the alternatives are tried in the order of the pattern.\<close>

definition read_clause :: "string \<Rightarrow> (operator \<times> string) option" where
  "read_clause s =
     (if take 2 s = ''=='' then Some (Exactly, dropWhile py_space (drop 2 s))
      else if take 2 s = ''>='' then Some (AtLeast, dropWhile py_space (drop 2 s))
      else if take 2 s = ''<='' then Some (AtMost, dropWhile py_space (drop 2 s))
      else if take 1 s = ''>'' then Some (Above, dropWhile py_space (drop 1 s))
      else if take 1 s = ''<'' then Some (Below, dropWhile py_space (drop 1 s))
      else None)"

definition clause_holds :: "operator \<Rightarrow> string \<Rightarrow> string \<Rightarrow> int \<Rightarrow> bool" where
  "clause_holds operator version operand comparison =
     (case operator of
        Exactly \<Rightarrow> version = operand
      | AtLeast \<Rightarrow> 0 \<le> comparison
      | AtMost \<Rightarrow> comparison \<le> 0
      | Above \<Rightarrow> 0 < comparison
      | Below \<Rightarrow> comparison < 0)"

text \<open>The clauses are read one after the other: a clause behind one that fails is never read.\<close>

fun clauses_hold :: "string \<Rightarrow> string list \<Rightarrow> bool option" where
  "clauses_hold version [] = Some True"
| "clauses_hold version (clause # clauses) = do {
     (operator, operand) \<leftarrow> read_clause (py_strip clause);
     comparison \<leftarrow> compare_versions version operand;
     if clause_holds operator version operand comparison then clauses_hold version clauses else Some False }"

definition version_satisfies :: "string \<Rightarrow> string \<Rightarrow> bool option" where
  "version_satisfies version constraint = do {
     version_tuple version;
     (let text = py_strip constraint
      in if text = [] \<or> text = ''*'' then Some True else clauses_hold version (split_on (CHR '','') text)) }"

section \<open>Precedence\<close>

text \<open>An identifier of a prerelease; the order of its values is the precedence of the rules.\<close>

datatype ident = Num nat | Text string

definition ident_of :: "string \<Rightarrow> ident" where
  "ident_of s = (if all_digits s then Num (digits_val s) else Text s)"

fun ident_rank :: "ident \<Rightarrow> nat \<times> nat \<times> string" where
  "ident_rank (Num n) = (0, n, [])"
| "ident_rank (Text s) = (1, 0, s)"

lemma ident_rank_inject: "ident_rank x = ident_rank y \<longleftrightarrow> x = y"
  by (cases x; cases y) auto

instantiation ident :: linorder
begin

definition less_eq_ident :: "ident \<Rightarrow> ident \<Rightarrow> bool" where
  "less_eq_ident x y \<longleftrightarrow> ident_rank x \<le> ident_rank y"

definition less_ident :: "ident \<Rightarrow> ident \<Rightarrow> bool" where
  "less_ident x y \<longleftrightarrow> ident_rank x < ident_rank y"

instance
  by standard (auto simp: less_eq_ident_def less_ident_def ident_rank_inject [symmetric])

end

lemma ident_less_simps [simp]:
  "Num m < Num n \<longleftrightarrow> m < n" "Num m < Text t" "\<not> Text t < Num m" "Text t < Text u \<longleftrightarrow> t < u"
  by (auto simp: less_ident_def)

text \<open>A version: its core, whether it is a release, and its prerelease.\<close>

type_synonym precedence = "nat \<times> nat \<times> nat \<times> bool \<times> ident list"

definition precedence_of :: "version_tuple \<Rightarrow> precedence" where
  "precedence_of v =
     (let (a, b, c, pre) = v
      in (a, b, c, pre = None, case pre of None \<Rightarrow> [] | Some ids \<Rightarrow> map ident_of ids))"

definition sign_of :: "'a::linorder \<Rightarrow> 'a \<Rightarrow> int" where
  "sign_of x y = (if x < y then -1 else if x = y then 0 else 1)"

lemma ident_of_eq:
  "ident_of a = ident_of b \<longleftrightarrow> (if all_digits a \<and> all_digits b then digits_val a = digits_val b else a = b)"
  by (auto simp: ident_of_def)

lemma compare_prerelease_sign: "compare_prerelease as bs = sign_of (map ident_of as) (map ident_of bs)"
  by (induction as bs rule: compare_prerelease.induct) (auto simp: sign_of_def ident_of_def)

lemma compare_tuples_sign: "compare_tuples l r = sign_of (precedence_of l) (precedence_of r)"
proof -
  obtain la lb lc lp ra rb rc rp where t: "l = (la, lb, lc, lp)" "r = (ra, rb, rc, rp)"
    by (cases l; cases r) auto
  show ?thesis
    by (cases lp; cases rp)
      (auto simp: t compare_tuples_def precedence_of_def compare_prerelease_sign sign_of_def)
qed

text \<open>C11. Comparing two versions agrees with the linear order of precedence: a version that is not
  well formed is refused, and of two others the sign of the comparison is that of the order on the
  numbers of the core, then a prerelease below its release, then the identifiers one by one.\<close>

theorem comparison_is_precedence:
  "compare_versions left right =
     (case (version_tuple left, version_tuple right) of
        (Some l, Some r) \<Rightarrow> Some (sign_of (precedence_of l) (precedence_of r))
      | _ \<Rightarrow> None)"
  by (auto simp: compare_versions_def compare_tuples_sign split: option.splits)

lemma sample_precedence:
  "compare_versions ''1.0.0-alpha.9'' ''1.0.0-alpha.10'' = Some (- 1)" "compare_versions ''1.0.0-alpha'' ''1.0.0'' = Some (- 1)"
  "compare_versions ''1.0.0+a'' ''1.0.0+b'' = Some 0" "compare_versions ''01.0.0'' ''1.0.0'' = None"
  by code_simp+

end
