(* ===== verification/Manifest.thy ===== *)
theory Manifest
  imports SemVer ProvEvents Contracts
begin

text \<open>
  Package manifests (\<open>packages/manifest.py\<close>): names, artifact paths, platforms, dependencies,
  artifacts and the manifest itself, each with its checks and its wire format.

  A \<open>ManifestError\<close> is \<open>None\<close>. The names of the standard library's modules (\<open>sys.stdlib_module_names\<close>)
  and the digest of a JSON text are arguments. The metadata of a manifest is a dictionary without an
  order of its keys; it is kept with sorted keys.
\<close>

section \<open>Names and paths\<close>

definition plugin_kinds :: "string list" where
  "plugin_kinds =
     [''system_probe'', ''provider'', ''runtime'', ''transport'', ''validator'', ''agent_harness'',
      ''batch_scheduler'', ''artifact_store'']"

definition package_kinds :: "string list" where
  "package_kinds = plugin_kinds @ [''bundle'', ''skill'']"

definition entrypoint_types :: "string list" where
  "entrypoint_types = [''python'', ''executable'', ''container'', ''endpoint'', ''none'']"

definition package_permissions :: "string list" where
  "package_permissions =
     [''network'', ''provider_prompt'', ''subprocess'', ''workspace_read'', ''workspace_write'', ''host_probe'',
      ''remote_transport'', ''credential_reference'']"

text \<open>\<open>_nonempty\<close> and \<open>_name\<close>: the text without the blanks around it, in lower case for a name.\<close>

definition stripped_text :: "json \<Rightarrow> string option" where
  "stripped_text v = map_option py_strip (nonempty_string v)"

definition name_char :: "char \<Rightarrow> bool" where
  "name_char c \<longleftrightarrow> is_ascii_alnum c \<and> char_lower c = c"

definition name_re :: "string \<Rightarrow> bool" where
  "name_re s \<longleftrightarrow> s \<noteq> [] \<and> length s \<le> 128 \<and> name_char (hd s) \<and> name_char (last s)
     \<and> list_all (\<lambda>c. name_char c \<or> c = CHR ''.'' \<or> c = CHR ''_'' \<or> c = CHR ''-'') s"

definition name_of :: "json \<Rightarrow> string option" where
  "name_of v = do {
     s \<leftarrow> stripped_text v;
     require (name_re (py_lower s));
     Some (py_lower s) }"

definition windows_forbidden :: "string" where
  "windows_forbidden = [CHR ''<'', CHR ''>'', CHR '':'', CHR 0x22, CHR ''/'', CHR 0x5C, CHR ''|'', CHR ''?'', CHR ''*'']"

definition windows_reserved :: "string list" where
  "windows_reserved =
     [''CON'', ''PRN'', ''AUX'', ''NUL'', ''CLOCK$'', ''CONIN$'', ''CONOUT$'']
     @ concat (map (\<lambda>p. map (\<lambda>c. p @ [c]) (''123456789'' @ [CHR 0xB9, CHR 0xB2, CHR 0xB3])) [''COM'', ''LPT''])"

definition portable_component :: "string \<Rightarrow> bool" where
  "portable_component s \<longleftrightarrow>
     s \<noteq> [] \<and> s \<noteq> ''.'' \<and> s \<noteq> ''..'' \<and> last s \<noteq> CHR '' '' \<and> last s \<noteq> CHR ''.''
     \<and> list_all (\<lambda>c. c \<notin> set windows_forbidden \<and> (32::nat) \<le> of_char c) s
     \<and> map char_upper (hd (split_on (CHR ''.'') s)) \<notin> set windows_reserved"

definition package_name_of :: "json \<Rightarrow> string option" where
  "package_name_of v = do { s \<leftarrow> name_of v; require (portable_component s); Some s }"

definition normalize_sha256 :: "json \<Rightarrow> string option" where
  "normalize_sha256 v = do {
     s \<leftarrow> stripped_text v;
     (let text = py_lower s; hex = (if take 7 text = ''sha256:'' then drop 7 text else text)
      in do { require (length hex = 64 \<and> list_all is_lower_hex hex); Some (''sha256:'' @ hex) }) }"

text \<open>
  \<open>PurePosixPath\<close> of a relative text: its parts are the components that are neither empty nor a
  single dot, and its text joins them, or is a dot where there is none.
\<close>

definition posix_parts :: "string \<Rightarrow> string list" where
  "posix_parts s = filter (\<lambda>p. p \<noteq> [] \<and> p \<noteq> ''.'') (split_on (CHR ''/'') s)"

definition posix_text :: "string \<Rightarrow> string" where
  "posix_text s = (if posix_parts s = [] then ''.'' else join_on (CHR ''/'') (posix_parts s))"

definition safe_artifact_path :: "json \<Rightarrow> string option" where
  "safe_artifact_path v = do {
     s \<leftarrow> stripped_text v;
     require (CHR 0x5C \<notin> set s);
     require (hd s \<noteq> CHR ''/'' \<and> ''..'' \<notin> set (posix_parts s));
     require (posix_text s = s);
     require (list_all portable_component (posix_parts s));
     Some s }"

section \<open>Platforms, dependencies and artifacts\<close>

record package_platform =
  pf_os :: string
  pf_arch :: string

definition platform_matches :: "string \<Rightarrow> string \<Rightarrow> package_platform \<Rightarrow> bool" where
  "platform_matches os arch p \<longleftrightarrow>
     pf_os p \<in> {''any'', py_lower os} \<and> pf_arch p \<in> {''any'', py_lower arch}"

definition platform_post_init :: "dict \<Rightarrow> package_platform option" where
  "platform_post_init d = do {
     os \<leftarrow> name_of (dget0 d ''os'');
     arch \<leftarrow> name_of (dget0 d ''arch'');
     Some \<lparr>pf_os = os, pf_arch = arch\<rparr> }"

definition platform_to_dict :: "package_platform \<Rightarrow> json" where
  "platform_to_dict x = JObj [(''os'', JStr (pf_os x)), (''arch'', JStr (pf_arch x))]"

definition platform_from_dict :: "json \<Rightarrow> package_platform option" where
  "platform_from_dict v = do { d \<leftarrow> strict_object [''os'', ''arch''] v; platform_post_init d }"

record dependency =
  dp_name :: string
  dp_constraint :: string
  dp_optional :: bool

text \<open>The constraint is tried on the version \<open>0.0.0\<close>, to find out whether it can be read.\<close>

definition dependency_post_init :: "dict \<Rightarrow> dependency option" where
  "dependency_post_init d = do {
     name \<leftarrow> package_name_of (dget0 d ''name'');
     text \<leftarrow> stripped_text (dget0 d ''constraint'');
     optional \<leftarrow> boolean (dget0 d ''optional'');
     version_satisfies ''0.0.0'' text;
     Some \<lparr>dp_name = name, dp_constraint = text, dp_optional = optional\<rparr> }"

definition dependency_to_dict :: "dependency \<Rightarrow> json" where
  "dependency_to_dict x = JObj
     [(''name'', JStr (dp_name x)), (''constraint'', JStr (dp_constraint x)), (''optional'', JBool (dp_optional x))]"

definition dependency_from_dict :: "json \<Rightarrow> dependency option" where
  "dependency_from_dict v = do {
     d \<leftarrow> strict_object [''name'', ''constraint'', ''optional''] v;
     dependency_post_init d }"

record artifact =
  af_path :: string
  af_sha256 :: string
  af_size :: int
  af_executable :: bool

definition artifact_post_init :: "dict \<Rightarrow> artifact option" where
  "artifact_post_init d = do {
     path \<leftarrow> safe_artifact_path (dget0 d ''path'');
     sha \<leftarrow> normalize_sha256 (dget0 d ''sha256'');
     size \<leftarrow> integer 0 (dget0 d ''size'');
     executable \<leftarrow> boolean (dget0 d ''executable'');
     Some \<lparr>af_path = path, af_sha256 = sha, af_size = size, af_executable = executable\<rparr> }"

definition artifact_to_dict :: "artifact \<Rightarrow> json" where
  "artifact_to_dict x = JObj
     [(''path'', JStr (af_path x)), (''sha256'', JStr (af_sha256 x)), (''size'', JInt (af_size x)),
      (''executable'', JBool (af_executable x))]"

definition artifact_from_dict :: "json \<Rightarrow> artifact option" where
  "artifact_from_dict v = do {
     d \<leftarrow> strict_object [''path'', ''sha256'', ''size'', ''executable''] v;
     artifact_post_init d }"

section \<open>The manifest\<close>

record manifest =
  mf_name :: string
  mf_version :: string
  mf_kind :: string
  mf_entrypoint_type :: string
  mf_entrypoint :: "string option"
  mf_artifacts :: "artifact list"
  mf_description :: string
  mf_capabilities :: "string list"
  mf_platforms :: "package_platform list"
  mf_dependencies :: "dependency list"
  mf_permissions :: "string list"
  mf_publisher :: "string option"
  mf_metadata :: dict

definition manifest_fields :: "string list" where
  "manifest_fields =
     [''schema_version'', ''api_version'', ''name'', ''version'', ''kind'', ''description'', ''entrypoint'',
      ''capabilities'', ''platforms'', ''dependencies'', ''permissions'', ''artifacts'', ''publisher'', ''metadata'']"

definition required_manifest_fields :: "string list" where
  "required_manifest_fields =
     [''schema_version'', ''api_version'', ''name'', ''version'', ''kind'', ''entrypoint'', ''artifacts'']"

definition strict_mapping :: "string list \<Rightarrow> string list \<Rightarrow> json \<Rightarrow> dict option" where
  "strict_mapping allowed required v = (case v of
     JObj d \<Rightarrow> do {
       require (list_all (\<lambda>kv. fst kv \<in> set allowed) d);
       require (list_all (\<lambda>k. k \<in> fst ` set d) required);
       Some d }
   | _ \<Rightarrow> None)"

definition identifier_word :: "string \<Rightarrow> bool" where
  "identifier_word s \<longleftrightarrow> s \<noteq> [] \<and> list_all (\<lambda>c. is_ascii_alnum c \<or> c = CHR ''_'') s \<and> \<not> dec_digit (hd s)"

text \<open>The module of a python entry point that has the form \<open>module:attribute\<close>.\<close>

definition python_module :: "string \<Rightarrow> string option" where
  "python_module s = (case split_on (CHR '':'') s of
     [path, attribute] \<Rightarrow> do {
       require (list_all identifier_word (split_on (CHR ''.'') path @ split_on (CHR ''.'') attribute));
       Some path }
   | _ \<Rightarrow> None)"

definition module_artifacts :: "string \<Rightarrow> string list" where
  "module_artifacts name =
     (let path = map (\<lambda>c. if c = CHR ''.'' then CHR ''/'' else c) name
      in [path @ ''.py'', path @ ''/__init__.py'', ''src/'' @ path @ ''.py'', ''src/'' @ path @ ''/__init__.py''])"

definition container_re :: "string \<Rightarrow> bool" where
  "container_re s \<longleftrightarrow> (case split_on (CHR ''@'') s of
     [repository, digest] \<Rightarrow> repository \<noteq> [] \<and> list_all (\<lambda>c. \<not> py_space c) repository \<and> take 7 digest = ''sha256:''
       \<and> length digest = 71 \<and> list_all is_lower_hex (drop 7 digest)
   | _ \<Rightarrow> False)"

text \<open>What an entry point of each type needs among the artifacts.\<close>

definition entrypoint_backed :: "string list \<Rightarrow> string \<Rightarrow> string option \<Rightarrow> artifact list \<Rightarrow> bool" where
  "entrypoint_backed stdlib kind entry artifacts =
     (case entry of
        None \<Rightarrow> True
      | Some s \<Rightarrow>
          if kind = ''executable'' then
            (case safe_artifact_path (JStr s) of
               None \<Rightarrow> False
             | Some path \<Rightarrow> (case List.find (\<lambda>a. af_path a = path) artifacts of
                 None \<Rightarrow> False | Some a \<Rightarrow> af_executable a))
          else if kind = ''python'' then
            (case python_module s of
               None \<Rightarrow> False
             | Some name \<Rightarrow> hd (split_on (CHR ''.'') name) \<notin> set stdlib
                 \<and> list_ex (\<lambda>a. af_path a \<in> set (module_artifacts name)) artifacts)
          else if kind = ''container'' then container_re s
          else True)"

definition entrypoint_of :: "string \<Rightarrow> json \<Rightarrow> string option option" where
  "entrypoint_of kind v =
     (if kind = ''none'' then do { require (v = JNull \<or> v = JStr []); Some None }
      else map_option Some (stripped_text v))"

definition manifest_post_init ::
  "string list \<Rightarrow> dict \<Rightarrow> dict \<Rightarrow> artifact list \<Rightarrow> package_platform list \<Rightarrow> dependency list \<Rightarrow>
    string list \<Rightarrow> string list \<Rightarrow> string \<Rightarrow> dict \<Rightarrow> manifest option" where
  "manifest_post_init stdlib d entry artifacts platforms dependencies capabilities permissions description metadata = do {
     require (dget0 d ''schema_version'' = JInt 1);
     require (dget0 d ''api_version'' = JStr ''1'');
     name \<leftarrow> package_name_of (dget0 d ''name'');
     version \<leftarrow> stripped_text (dget0 d ''version'');
     require (version_tuple version \<noteq> None);
     kind \<leftarrow> name_of (dget0 d ''kind'');
     require (kind \<in> set package_kinds);
     entrypoint_type \<leftarrow> stripped_text (dget0 entry ''type'');
     require (entrypoint_type \<in> set entrypoint_types);
     entrypoint \<leftarrow> entrypoint_of entrypoint_type (dget0 entry ''value'');
     require (artifacts \<noteq> [] \<or> entrypoint_type = ''endpoint'' \<or> kind = ''bundle'');
     require (distinct (map af_path artifacts));
     require (kind \<noteq> ''skill'' \<or> entrypoint_type = ''none'' \<and> ''SKILL.md'' \<in> set (map af_path artifacts));
     require (name \<notin> set (map dp_name dependencies));
     require (distinct (map dp_name dependencies));
     require (distinct (map (\<lambda>p. (pf_os p, pf_arch p)) platforms));
     require (distinct capabilities);
     require (list_all (\<lambda>p. p \<in> set package_permissions) permissions);
     require (distinct permissions);
     publisher \<leftarrow> optional name_of (dget0 d ''publisher'');
     require (entrypoint_backed stdlib entrypoint_type entrypoint artifacts);
     Some \<lparr>mf_name = name, mf_version = version, mf_kind = kind, mf_entrypoint_type = entrypoint_type,
            mf_entrypoint = entrypoint, mf_artifacts = artifacts, mf_description = description,
            mf_capabilities = capabilities, mf_platforms = platforms, mf_dependencies = dependencies,
            mf_permissions = permissions, mf_publisher = publisher, mf_metadata = metadata\<rparr> }"

text \<open>A field that is absent, read with the default of \<open>payload.get\<close>.\<close>

definition field_or :: "json \<Rightarrow> dict \<Rightarrow> string \<Rightarrow> json" where
  "field_or fallback d k = (case map_of d k of None \<Rightarrow> fallback | Some v \<Rightarrow> v)"

definition plain_string :: "json \<Rightarrow> string option" where
  "plain_string v = (case v of JStr s \<Rightarrow> Some s | _ \<Rightarrow> None)"

definition sorted_mapping :: "json \<Rightarrow> dict option" where
  "sorted_mapping v = (case canon v of JObj d \<Rightarrow> Some d | _ \<Rightarrow> None)"

definition manifest_from_dict :: "string list \<Rightarrow> json \<Rightarrow> manifest option" where
  "manifest_from_dict stdlib v = do {
     d \<leftarrow> strict_mapping manifest_fields required_manifest_fields v;
     entry \<leftarrow> strict_object [''type'', ''value''] (dget0 d ''entrypoint'');
     platforms \<leftarrow> json_array platform_from_dict (field_or (JArr []) d ''platforms'');
     dependencies \<leftarrow> json_array dependency_from_dict (field_or (JArr []) d ''dependencies'');
     artifacts \<leftarrow> json_array artifact_from_dict (dget0 d ''artifacts'');
     metadata \<leftarrow> sorted_mapping (field_or (JObj []) d ''metadata'');
     description \<leftarrow> plain_string (field_or (JStr []) d ''description'');
     capabilities \<leftarrow> json_array name_of (field_or (JArr []) d ''capabilities'');
     permissions \<leftarrow> json_array name_of (field_or (JArr []) d ''permissions'');
     manifest_post_init stdlib d entry artifacts platforms dependencies capabilities permissions description metadata }"

definition manifest_to_dict :: "manifest \<Rightarrow> json" where
  "manifest_to_dict x = JObj
     [(''schema_version'', JInt 1), (''api_version'', JStr ''1''), (''name'', JStr (mf_name x)),
      (''version'', JStr (mf_version x)), (''kind'', JStr (mf_kind x)), (''description'', JStr (mf_description x)),
      (''entrypoint'', JObj [(''type'', JStr (mf_entrypoint_type x)), (''value'', opt_json JStr (mf_entrypoint x))]),
      (''capabilities'', JArr (map JStr (mf_capabilities x))),
      (''platforms'', JArr (map platform_to_dict (mf_platforms x))),
      (''dependencies'', JArr (map dependency_to_dict (mf_dependencies x))),
      (''permissions'', JArr (map JStr (mf_permissions x))),
      (''artifacts'', JArr (map artifact_to_dict (mf_artifacts x))),
      (''publisher'', opt_json JStr (mf_publisher x)), (''metadata'', JObj (mf_metadata x))]"

definition coordinate :: "manifest \<Rightarrow> string" where
  "coordinate x = mf_name x @ ''@'' @ mf_version x"

text \<open>The digest of the canonical JSON text of a manifest; \<open>h\<close> is SHA-256 in hexadecimal.\<close>

definition manifest_digest :: "(json \<Rightarrow> string) \<Rightarrow> manifest \<Rightarrow> string" where
  "manifest_digest h x = ''sha256:'' @ h (canon (manifest_to_dict x))"

definition supports :: "string \<Rightarrow> string \<Rightarrow> package_platform list \<Rightarrow> bool" where
  "supports os arch platforms \<longleftrightarrow> platforms = [] \<or> list_ex (platform_matches os arch) platforms"

definition load_manifest_json :: "string list \<Rightarrow> json \<Rightarrow> manifest option" where
  "load_manifest_json stdlib v = do { require (no_dup_keys v); manifest_from_dict stdlib v }"

section \<open>A value that was read is read again\<close>

declare canon.simps(7) [simp del]

lemma py_strip_ends:
  assumes "py_strip s \<noteq> []"
  shows "\<not> py_space (hd (py_strip s))" and "\<not> py_space (last (py_strip s))"
proof -
  define t where "t = rev (dropWhile py_space s)"
  from assms have t: "dropWhile py_space t \<noteq> []"
    by (simp add: py_strip_def t_def)
  from hd_dropWhile [OF this] show "\<not> py_space (last (py_strip s))"
    by (simp add: py_strip_def t_def last_rev)
  have "hd (py_strip s) = last (dropWhile py_space t)"
    by (simp add: py_strip_def t_def hd_rev)
  also have "\<dots> = last t"
    using t by (metis last_append takeWhile_dropWhile_id)
  also have "\<dots> = hd (dropWhile py_space s)"
    by (simp add: t_def last_rev)
  finally show "\<not> py_space (hd (py_strip s))"
    using hd_dropWhile [of py_space s] t by (simp add: t_def) (metis dropWhile_eq_Nil_conv dropWhile.simps(1) rev_is_Nil_conv)
qed

lemma py_strip_again [simp]: "py_strip (py_strip s) = py_strip s"
  by (cases "py_strip s = []") (simp_all add: py_strip_def [of "[]"] py_strip_id py_strip_ends)

lemma char_lower_space [simp]: "py_space (char_lower c) = py_space c"
  by (auto simp: char_lower_def py_space_def Let_def)

lemma char_lower_again [simp]: "char_lower (char_lower c) = char_lower c"
  by (auto simp: char_lower_def Let_def)

lemma py_lower_again [simp]: "py_lower (py_lower s) = py_lower s"
  by (simp add: py_lower_def)

lemma py_strip_lower: "py_strip (py_lower s) = py_lower (py_strip s)"
proof -
  have "py_space \<circ> char_lower = py_space"
    by (simp add: fun_eq_iff)
  then show ?thesis
    by (simp add: py_strip_def py_lower_def dropWhile_map rev_map)
qed

lemma stripped_text_Some: "stripped_text v = Some s \<longleftrightarrow> (\<exists>t. v = JStr t \<and> s = py_strip t \<and> s \<noteq> [])"
  by (auto simp: stripped_text_def nonempty_string_Some py_strip_blank)

lemma stripped_text_again: "stripped_text v = Some s \<Longrightarrow> stripped_text (JStr s) = Some s"
  by (auto simp: stripped_text_Some)

lemma name_of_JStr: "name_of (JStr t) = Some s \<longleftrightarrow> s = py_lower (py_strip t) \<and> name_re s"
  by (auto simp: name_of_def bind_eq_Some_conv stripped_text_Some name_re_def py_lower_def)

lemma name_of_again: "name_of v = Some s \<Longrightarrow> name_of (JStr s) = Some s"
  by (cases v) (auto simp: name_of_JStr py_strip_lower, auto simp: name_of_def stripped_text_Some bind_eq_Some_conv)

lemma package_name_again: "package_name_of v = Some s \<Longrightarrow> package_name_of (JStr s) = Some s"
  by (auto simp: package_name_of_def bind_eq_Some_conv dest: name_of_again)

lemma lower_hex_plain: "is_lower_hex c \<Longrightarrow> char_lower c = c \<and> \<not> py_space c"
  by (auto simp: is_lower_hex_def is_digit_def char_lower_def py_space_def Let_def)

lemma normalize_hex:
  assumes "length hex = 64" and "list_all is_lower_hex hex"
  shows "normalize_sha256 (JStr (''sha256:'' @ hex)) = Some (''sha256:'' @ hex)"
proof -
  have lower: "py_lower (''sha256:'' @ hex) = ''sha256:'' @ hex"
    using assms lower_hex_plain by (auto simp: py_lower_def list_all_iff char_lower_def intro!: map_idI)
  have "hex \<noteq> []"
    using assms(1) by auto
  then have "py_strip (''sha256:'' @ hex) = ''sha256:'' @ hex"
    using assms lower_hex_plain [of "last hex"] by (intro py_strip_id) (auto simp: list_all_iff py_space_def)
  then have "stripped_text (JStr (''sha256:'' @ hex)) = Some (''sha256:'' @ hex)"
    by (auto simp: stripped_text_Some intro!: exI [of _ "''sha256:'' @ hex"])
  with assms lower show ?thesis
    by (simp add: normalize_sha256_def)
qed

lemma normalize_again: "normalize_sha256 v = Some s \<Longrightarrow> normalize_sha256 (JStr s) = Some s"
  using normalize_hex by (auto simp: normalize_sha256_def [of v] bind_eq_Some_conv Let_def)

lemma safe_path_again: "safe_artifact_path v = Some s \<Longrightarrow> safe_artifact_path (JStr s) = Some s"
  by (auto simp: safe_artifact_path_def bind_eq_Some_conv dest: stripped_text_again)

lemmas read_again = name_of_again package_name_again stripped_text_again normalize_again safe_path_again

section \<open>Wire formats\<close>

lemma platform_post_init_Some:
  "platform_post_init d = Some x \<longleftrightarrow> name_of (dget0 d ''os'') = Some (pf_os x) \<and> name_of (dget0 d ''arch'') = Some (pf_arch x)"
  by (cases x) (auto simp: platform_post_init_def bind_eq_Some_conv)

interpretation platform_wire: wire platform_from_dict platform_to_dict
proof
  fix v x assume "platform_from_dict v = Some x"
  then obtain d where "platform_post_init d = Some x"
    by (auto simp: platform_from_dict_def bind_eq_Some_conv)
  then show "platform_from_dict (canon (platform_to_dict x)) = Some x"
    by (auto simp: wire_simps platform_from_dict_def platform_post_init_Some platform_to_dict_def intro: read_again)
qed (simp_all add: platform_to_dict_def del: no_dup_keys.simps(6))

lemma dependency_post_init_Some:
  "dependency_post_init d = Some x \<longleftrightarrow>
     package_name_of (dget0 d ''name'') = Some (dp_name x) \<and>
     stripped_text (dget0 d ''constraint'') = Some (dp_constraint x) \<and>
     boolean (dget0 d ''optional'') = Some (dp_optional x) \<and>
     version_satisfies ''0.0.0'' (dp_constraint x) \<noteq> None"
  by (cases x) (auto simp: dependency_post_init_def bind_eq_Some_conv)

interpretation dependency_wire: wire dependency_from_dict dependency_to_dict
proof
  fix v x assume "dependency_from_dict v = Some x"
  then obtain d where "dependency_post_init d = Some x"
    by (auto simp: dependency_from_dict_def bind_eq_Some_conv)
  then show "dependency_from_dict (canon (dependency_to_dict x)) = Some x"
    by (auto simp: wire_simps dependency_from_dict_def dependency_post_init_Some dependency_to_dict_def intro: read_again)
qed (simp_all add: dependency_to_dict_def del: no_dup_keys.simps(6))

lemma artifact_post_init_Some:
  "artifact_post_init d = Some x \<longleftrightarrow>
     safe_artifact_path (dget0 d ''path'') = Some (af_path x) \<and>
     normalize_sha256 (dget0 d ''sha256'') = Some (af_sha256 x) \<and>
     integer 0 (dget0 d ''size'') = Some (af_size x) \<and>
     boolean (dget0 d ''executable'') = Some (af_executable x)"
  by (cases x) (auto simp: artifact_post_init_def bind_eq_Some_conv)

interpretation artifact_wire: wire artifact_from_dict artifact_to_dict
proof
  fix v x assume "artifact_from_dict v = Some x"
  then obtain d where "artifact_post_init d = Some x"
    by (auto simp: artifact_from_dict_def bind_eq_Some_conv)
  then show "artifact_from_dict (canon (artifact_to_dict x)) = Some x"
    by (auto simp: wire_simps artifact_from_dict_def artifact_post_init_Some artifact_to_dict_def intro: read_again)
qed (simp_all add: artifact_to_dict_def del: no_dup_keys.simps(6))

lemma manifest_post_init_Some:
  "manifest_post_init stdlib d entry artifacts platforms dependencies capabilities permissions description metadata = Some x \<longleftrightarrow>
     dget0 d ''schema_version'' = JInt 1 \<and> dget0 d ''api_version'' = JStr ''1'' \<and>
     package_name_of (dget0 d ''name'') = Some (mf_name x) \<and>
     stripped_text (dget0 d ''version'') = Some (mf_version x) \<and> version_tuple (mf_version x) \<noteq> None \<and>
     name_of (dget0 d ''kind'') = Some (mf_kind x) \<and> mf_kind x \<in> set package_kinds \<and>
     stripped_text (dget0 entry ''type'') = Some (mf_entrypoint_type x) \<and>
     mf_entrypoint_type x \<in> set entrypoint_types \<and>
     entrypoint_of (mf_entrypoint_type x) (dget0 entry ''value'') = Some (mf_entrypoint x) \<and>
     (artifacts \<noteq> [] \<or> mf_entrypoint_type x = ''endpoint'' \<or> mf_kind x = ''bundle'') \<and>
     distinct (map af_path artifacts) \<and>
     (mf_kind x \<noteq> ''skill'' \<or> mf_entrypoint_type x = ''none'' \<and> ''SKILL.md'' \<in> set (map af_path artifacts)) \<and>
     mf_name x \<notin> set (map dp_name dependencies) \<and> distinct (map dp_name dependencies) \<and>
     distinct (map (\<lambda>p. (pf_os p, pf_arch p)) platforms) \<and> distinct capabilities \<and>
     list_all (\<lambda>p. p \<in> set package_permissions) permissions \<and> distinct permissions \<and>
     optional name_of (dget0 d ''publisher'') = Some (mf_publisher x) \<and>
     entrypoint_backed stdlib (mf_entrypoint_type x) (mf_entrypoint x) artifacts \<and>
     mf_artifacts x = artifacts \<and> mf_platforms x = platforms \<and> mf_dependencies x = dependencies \<and>
     mf_capabilities x = capabilities \<and> mf_permissions x = permissions \<and> mf_description x = description \<and>
     mf_metadata x = metadata"
  by (cases x) (auto simp: manifest_post_init_def bind_eq_Some_conv)

lemma entrypoint_of_again:
  "entrypoint_of kind v = Some z \<Longrightarrow> entrypoint_of kind (opt_json JStr z) = Some z"
  by (auto simp: entrypoint_of_def opt_json_def bind_eq_Some_conv dest: stripped_text_again split: if_splits)

lemma optional_name_again: "optional name_of v = Some z \<Longrightarrow> optional name_of (opt_json JStr z) = Some z"
  by (cases v) (auto simp: optional_def opt_json_def dest: name_of_again split: option.splits)

lemma names_again: "checked_list name_of vs = Some xs \<Longrightarrow> checked_list name_of (map JStr xs) = Some xs"
  by (rule checked_list_map)
    (auto simp: checked_list_Some list_all2_conv_all_nth in_set_conv_nth intro: name_of_again)

lemma field_or_canon_dict:
  assumes "wf_dict d" and "k \<in> fst ` set d"
  shows "field_or fallback (canon_dict d) k = canon (dget0 d k)"
proof -
  have "k \<in> set (map fst (canon_dict d))"
    using assms(2) by (simp add: fst_canon_dict del: set_map) simp
  then have "map_of (canon_dict d) k \<noteq> None"
    by (simp add: map_of_eq_None_iff)
  then have "field_or fallback (canon_dict d) k = dget0 (canon_dict d) k"
    by (auto simp: field_or_def dget0_def)
  with dget0_canon_dict [OF assms(1)] show ?thesis
    by simp
qed

lemma strict_mapping_canon:
  assumes "set (map fst d) = set allowed" and "set required \<subseteq> set allowed"
  shows "strict_mapping allowed required (JObj (canon_dict d)) = Some (canon_dict d)"
  using assms fst_canon_dict [of d] by (auto simp: strict_mapping_def list_all_iff bind_eq_Some_conv)

lemma sorted_mapping_again:
  "sorted_mapping v = Some d \<Longrightarrow> sorted_mapping (JObj d) = Some d"
  using canon_canon [of v] by (auto simp: sorted_mapping_def split: json.splits)

lemma required_manifest_fields: "set required_manifest_fields \<subseteq> set manifest_fields"
  by (simp add: required_manifest_fields_def manifest_fields_def)

interpretation manifest_wire: wire "load_manifest_json stdlib" manifest_to_dict for stdlib
proof
  fix v x assume read: "load_manifest_json stdlib v = Some x"
  then obtain d entry platforms dependencies artifacts metadata description capabilities permissions where
    v: "v = JObj d" "no_dup_keys v"
    and lists: "checked_list platform_from_dict platforms = Some (mf_platforms x)"
      "checked_list dependency_from_dict dependencies = Some (mf_dependencies x)"
      "checked_list artifact_from_dict artifacts = Some (mf_artifacts x)"
      "checked_list name_of capabilities = Some (mf_capabilities x)"
      "checked_list name_of permissions = Some (mf_permissions x)"
    and metadata: "sorted_mapping (field_or (JObj []) d ''metadata'') = Some (mf_metadata x)"
    and made: "manifest_post_init stdlib d entry (mf_artifacts x) (mf_platforms x) (mf_dependencies x)
      (mf_capabilities x) (mf_permissions x) (mf_description x) (mf_metadata x) = Some x"
    by (auto simp: load_manifest_json_def manifest_from_dict_def bind_eq_Some_conv json_array_Some
        manifest_post_init_Some strict_mapping_def split: json.splits)
  have "no_dup_keys (field_or (JObj []) d ''metadata'')"
    using v by (auto simp: field_or_def list_all_iff dest!: map_of_SomeD split: option.splits)
  then have keys: "no_dup_keys (JObj (mf_metadata x))"
    using metadata no_dup_keys_canon [of "field_or (JObj []) d ''metadata''"]
    by (auto simp: sorted_mapping_def split: json.splits simp del: no_dup_keys_canon)
  show clean: "no_dup_keys (manifest_to_dict x)"
    using keys platform_wire.array_clean [OF lists(1)] dependency_wire.array_clean [OF lists(2)]
      artifact_wire.array_clean [OF lists(3)]
    by (simp add: manifest_to_dict_def no_dup_array list.pred_True del: no_dup_keys.simps(6))
  show "load_manifest_json stdlib (canon (manifest_to_dict x)) = Some x"
  proof -
    define D where "D = (case manifest_to_dict x of JObj D \<Rightarrow> D | _ \<Rightarrow> [])"
    have D: "manifest_to_dict x = JObj D"
      by (simp add: D_def manifest_to_dict_def)
    have wf: "wf_dict D" and all: "set (map fst D) = set manifest_fields"
      by (simp_all add: D_def manifest_to_dict_def wf_dict_def manifest_fields_def)
    have field: "field_or fallback (canon_dict D) k = canon (dget0 D k)" if "k \<in> set manifest_fields" for fallback k
      using that all by (intro field_or_canon_dict [OF wf]) auto
    have entry: "strict_object [''type'', ''value''] (dget0 (canon_dict D) ''entrypoint'')
      = Some (canon_dict [(''type'', JStr (mf_entrypoint_type x)), (''value'', opt_json JStr (mf_entrypoint x))])"
      by (simp add: dget0_canon_dict [OF wf]) (simp add: D_def manifest_to_dict_def wire_simps)
    have arrays: "json_array platform_from_dict (field_or (JArr []) (canon_dict D) ''platforms'') = Some (mf_platforms x)"
      "json_array dependency_from_dict (field_or (JArr []) (canon_dict D) ''dependencies'') = Some (mf_dependencies x)"
      "json_array artifact_from_dict (dget0 (canon_dict D) ''artifacts'') = Some (mf_artifacts x)"
      "json_array name_of (field_or (JArr []) (canon_dict D) ''capabilities'') = Some (mf_capabilities x)"
      "json_array name_of (field_or (JArr []) (canon_dict D) ''permissions'') = Some (mf_permissions x)"
      using platform_wire.array [OF lists(1)] dependency_wire.array [OF lists(2)] artifact_wire.array [OF lists(3)]
        names_again [OF lists(4)] names_again [OF lists(5)]
      by (simp_all add: field dget0_canon_dict [OF wf] manifest_fields_def)
        (simp_all add: D_def manifest_to_dict_def json_array_def comp_def)
    have rest: "sorted_mapping (field_or (JObj []) (canon_dict D) ''metadata'') = Some (mf_metadata x)"
      "plain_string (field_or (JStr []) (canon_dict D) ''description'') = Some (mf_description x)"
      using sorted_mapping_again [OF metadata]
      by (simp_all add: field manifest_fields_def) (simp_all add: D_def manifest_to_dict_def sorted_mapping_def plain_string_def canon_canon)
    note parts = made [unfolded manifest_post_init_Some]
    have again: "package_name_of (JStr (mf_name x)) = Some (mf_name x)"
      "stripped_text (JStr (mf_version x)) = Some (mf_version x)"
      "name_of (JStr (mf_kind x)) = Some (mf_kind x)"
      "stripped_text (JStr (mf_entrypoint_type x)) = Some (mf_entrypoint_type x)"
      "entrypoint_of (mf_entrypoint_type x) (opt_json JStr (mf_entrypoint x)) = Some (mf_entrypoint x)"
      "optional name_of (opt_json JStr (mf_publisher x)) = Some (mf_publisher x)"
      using parts by (blast intro: package_name_again stripped_text_again name_of_again entrypoint_of_again optional_name_again)+
    have written: "canon (dget0 D ''schema_version'') = JInt 1" "canon (dget0 D ''api_version'') = JStr ''1''"
      "canon (dget0 D ''name'') = JStr (mf_name x)" "canon (dget0 D ''version'') = JStr (mf_version x)"
      "canon (dget0 D ''kind'') = JStr (mf_kind x)" "canon (dget0 D ''publisher'') = opt_json JStr (mf_publisher x)"
      by (simp_all add: D_def manifest_to_dict_def)
    have type_value:
      "dget0 (canon_dict [(''type'', JStr t), (''value'', opt_json JStr z)]) ''type'' = JStr t"
      "dget0 (canon_dict [(''type'', JStr t), (''value'', opt_json JStr z)]) ''value'' = opt_json JStr z" for t z
      by (simp_all add: dget0_canon_dict wf_dict_def)
    have "manifest_from_dict stdlib (JObj (canon_dict D)) = Some x"
      unfolding manifest_from_dict_def strict_mapping_canon [OF all required_manifest_fields] entry arrays rest
        Option.bind.bind_lunit
      unfolding manifest_post_init_Some dget0_canon_dict [OF wf] written type_value
      using parts again by (intro conjI) (simp_all only: simp_thms)
    then have "manifest_from_dict stdlib (canon (manifest_to_dict x)) = Some x"
      by (simp add: D canon_JObj)
    with clean show ?thesis
      by (simp add: load_manifest_json_def)
  qed
qed (simp add: manifest_to_dict_def)

section \<open>Two gaps of the checks\<close>

text \<open>The trial of a constraint on \<open>0.0.0\<close> ends at its first clause that fails, so a later one may be malformed;
  and the directory of a package is accepted as the path of an artifact in it.\<close>

lemma late_clause_is_not_checked:
  "version_satisfies ''0.0.0'' ''>=1.0.0,later'' = Some False" "version_satisfies ''1.0.0'' ''>=1.0.0,later'' = None"
  by code_simp+

lemma root_is_an_artifact_path: "safe_artifact_path (JStr ''.'') = Some ''.''"
  by code_simp

end
