(* ===== verification/Catalog.thy ===== *)
theory Catalog
  imports Manifest "HOL-Library.AList"
begin

text \<open>
  The package catalog and its resolver (\<open>packages/catalog.py\<close>): a backtracking search for one version
  of every package that the requirements need, and the dependency-first order of the result.

  Requirements, selections and catalogs are dictionaries, kept in the order of insertion. The search
  gives \<open>None\<close> where a constraint cannot be read (a \<open>ManifestError\<close>), \<open>Some None\<close> where it fails and
  \<open>Some (Some r)\<close> for a result. The texts it collects for the error message, and the origin of a
  constraint, which only they show, are left out. Names of requirements are normalised when they are
  read, so \<open>_name\<close> does not change them again.
\<close>

section \<open>The catalog\<close>

type_synonym versions = "(string \<times> manifest) list"
type_synonym catalog = "(string \<times> versions) list"

datatype package_error = ManifestErr | ResolutionErr | LockErr

definition entries :: "'a list option \<Rightarrow> 'a list" where
  "entries z = (case z of None \<Rightarrow> [] | Some xs \<Rightarrow> xs)"

definition catalog_add :: "(json \<Rightarrow> string) \<Rightarrow> catalog \<Rightarrow> manifest \<Rightarrow> catalog option" where
  "catalog_add h cat m =
     (let versions = entries (map_of cat (mf_name m))
      in case map_of versions (mf_version m) of
           Some existing \<Rightarrow>
             if manifest_digest h existing \<noteq> manifest_digest h m then None
             else Some (AList.update (mf_name m) (AList.update (mf_version m) m versions) cat)
         | None \<Rightarrow> Some (AList.update (mf_name m) (AList.update (mf_version m) m versions) cat))"

fun new_catalog :: "(json \<Rightarrow> string) \<Rightarrow> catalog \<Rightarrow> manifest list \<Rightarrow> catalog option" where
  "new_catalog h cat [] = Some cat"
| "new_catalog h cat (m # ms) = Option.bind (catalog_add h cat m) (\<lambda>cat'. new_catalog h cat' ms)"

text \<open>\<open>_compare_manifests\<close>, and the key that orders manifests in the same way.\<close>

definition compare_manifests :: "manifest \<Rightarrow> manifest \<Rightarrow> int option" where
  "compare_manifests l r = do {
     c \<leftarrow> compare_versions (mf_version l) (mf_version r);
     Some (if c \<noteq> 0 then c
           else if mf_version r < mf_version l then 1 else if mf_version l < mf_version r then -1 else 0) }"

definition manifest_order :: "manifest \<Rightarrow> precedence \<times> string" where
  "manifest_order m =
     (case version_tuple (mf_version m) of None \<Rightarrow> (0, 0, 0, False, []) | Some v \<Rightarrow> precedence_of v, mf_version m)"

lemma compare_manifests_order:
  assumes "version_tuple (mf_version l) \<noteq> None" and "version_tuple (mf_version r) \<noteq> None"
  shows "compare_manifests l r = Some (sign_of (manifest_order l) (manifest_order r))"
  using assms by (auto simp: compare_manifests_def compare_versions_def compare_tuples_sign sign_of_def manifest_order_def)

text \<open>All versions of a package, the highest first.\<close>

definition versions_of :: "catalog \<Rightarrow> string \<Rightarrow> manifest list" where
  "versions_of cat name = rev (sort_key manifest_order (map snd (entries (map_of cat name))))"

definition available :: "catalog \<Rightarrow> string \<Rightarrow> manifest list option" where
  "available cat name = map_option (versions_of cat) (name_of (JStr name))"

definition catalog_manifests :: "catalog \<Rightarrow> manifest list" where
  "catalog_manifests cat = concat (map (versions_of cat) (sort (map fst cat)))"

section \<open>Dependency order\<close>

type_synonym selection = "(string \<times> manifest) list"

definition required_dependencies :: "bool \<Rightarrow> manifest \<Rightarrow> dependency list" where
  "required_dependencies optionals m =
     filter (\<lambda>d. optionals \<or> \<not> dp_optional d) (sort_key dp_name (mf_dependencies m))"

definition selected_dependencies :: "bool \<Rightarrow> selection \<Rightarrow> manifest \<Rightarrow> string list" where
  "selected_dependencies optionals sel m =
     filter (\<lambda>n. n \<in> fst ` set sel) (map dp_name (required_dependencies optionals m))"

lemma card_visiting:
  assumes "map_of sel name = Some m" and "name \<notin> set visiting"
  shows "card (fst ` set sel - set (visiting @ [name])) < card (fst ` set sel - set visiting)"
proof (rule psubset_card_mono)
  have "name \<in> fst ` set sel"
    using map_of_SomeD [OF assms(1)] by force
  with assms(2) show "fst ` set sel - set (visiting @ [name]) \<subset> fst ` set sel - set visiting"
    by auto
qed simp

text \<open>
  The depth-first visit; \<open>order\<close> holds the packages already visited. \<open>None\<close> is the error for a cycle.
\<close>

function (sequential) visit :: "bool \<Rightarrow> selection \<Rightarrow> string \<Rightarrow> string list \<Rightarrow> string list \<Rightarrow> string list option"
  and visit_each :: "bool \<Rightarrow> selection \<Rightarrow> string list \<Rightarrow> string list \<Rightarrow> string list \<Rightarrow> string list option" where
  "visit optionals sel name visiting order =
     (if name \<in> set order then Some order
      else if name \<in> set visiting then None
      else case map_of sel name of
        None \<Rightarrow> None
      | Some m \<Rightarrow> map_option (\<lambda>order'. order' @ [name])
          (visit_each optionals sel (selected_dependencies optionals sel m) (visiting @ [name]) order))"
| "visit_each optionals sel [] visiting order = Some order"
| "visit_each optionals sel (name # names) visiting order =
     Option.bind (visit optionals sel name visiting order) (visit_each optionals sel names visiting)"
  by pat_completeness auto

termination
  by (relation "measures
      [\<lambda>z. case z of Inl (_, sel, _, visiting, _) \<Rightarrow> card (fst ` set sel - set visiting)
                  | Inr (_, sel, _, visiting, _) \<Rightarrow> card (fst ` set sel - set visiting),
       \<lambda>z. case z of Inl _ \<Rightarrow> 0 | Inr (_, _, names, _, _) \<Rightarrow> Suc (length names)]")
    (use card_visiting in \<open>auto simp: card_visiting\<close>)

definition dependency_order :: "bool \<Rightarrow> selection \<Rightarrow> string list option" where
  "dependency_order optionals sel = visit_each optionals sel (sort (map fst sel)) [] []"

section \<open>The search\<close>

type_synonym constraints = "(string \<times> string list) list"

fun all_satisfied :: "string \<Rightarrow> string list \<Rightarrow> bool option" where
  "all_satisfied version [] = Some True"
| "all_satisfied version (c # cs) = do {
     b \<leftarrow> version_satisfies version c;
     if b then all_satisfied version cs else Some False }"

fun selected_hold :: "constraints \<Rightarrow> selection \<Rightarrow> bool option" where
  "selected_hold cons [] = Some True"
| "selected_hold cons ((name, m) # sel) = do {
     b \<leftarrow> all_satisfied (mf_version m) (entries (map_of cons name));
     if b then selected_hold cons sel else Some False }"

fun matching :: "string list \<Rightarrow> manifest list \<Rightarrow> manifest list option" where
  "matching required [] = Some []"
| "matching required (m # ms) = do {
     b \<leftarrow> all_satisfied (mf_version m) required;
     rest \<leftarrow> matching required ms;
     Some (if b then m # rest else rest) }"

definition constrain :: "dependency \<Rightarrow> constraints \<Rightarrow> constraints" where
  "constrain d cons = AList.update (dp_name d) (entries (map_of cons (dp_name d)) @ [dp_constraint d]) cons"

definition unresolved :: "selection \<Rightarrow> constraints \<Rightarrow> string list" where
  "unresolved sel cons = sort (filter (\<lambda>n. n \<notin> fst ` set sel) (map fst cons))"

lemma versions_of_known: "m \<in> set (versions_of cat name) \<Longrightarrow> name \<in> fst ` set cat"
  by (cases "map_of cat name") (auto simp: versions_of_def entries_def dest: map_of_SomeD intro: rev_image_eqI)

lemma matching_subset: "matching cs ms = Some fitting \<Longrightarrow> set fitting \<subseteq> set ms"
  by (induction ms arbitrary: fitting) (auto simp: bind_eq_Some_conv split: if_splits)

lemma unresolved_new: "unresolved sel cons = name # ns \<Longrightarrow> name \<notin> fst ` set sel \<and> name \<in> fst ` set cons"
  by (drule arg_cong [of _ _ set]) (auto simp: unresolved_def)

lemma card_unselected:
  assumes "unresolved sel cons = name # ns" and "matching cs (versions_of cat name) = Some fitting"
    and "m \<in> set fitting"
  shows "card (fst ` set cat - insert name (fst ` set sel)) < card (fst ` set cat - fst ` set sel)"
proof (rule psubset_card_mono)
  have "name \<in> fst ` set cat"
    using matching_subset [OF assms(2)] assms(3) versions_of_known by blast
  with unresolved_new [OF assms(1)] show "fst ` set cat - insert name (fst ` set sel) \<subset> fst ` set cat - fst ` set sel"
    by auto
qed simp

type_synonym found = "(selection \<times> string list) option"

function (sequential) search ::
  "catalog \<Rightarrow> string \<Rightarrow> string \<Rightarrow> bool \<Rightarrow> selection \<Rightarrow> constraints \<Rightarrow> found option"
  and search_each ::
  "catalog \<Rightarrow> string \<Rightarrow> string \<Rightarrow> bool \<Rightarrow> selection \<Rightarrow> constraints \<Rightarrow> string \<Rightarrow> manifest list \<Rightarrow> found option" where
  "search cat os arch optionals sel cons =
     (case selected_hold cons (sort_key fst sel) of
        None \<Rightarrow> None
      | Some False \<Rightarrow> Some None
      | Some True \<Rightarrow>
          (case unresolved sel cons of
             [] \<Rightarrow> Some (map_option (Pair sel) (dependency_order optionals sel))
           | name # _ \<Rightarrow>
               (case matching (entries (map_of cons name)) (versions_of cat name) of
                  None \<Rightarrow> None
                | Some fitting \<Rightarrow>
                    if filter (\<lambda>m. supports os arch (mf_platforms m)) fitting = [] then Some None
                    else search_each cat os arch optionals sel cons name
                           (filter (\<lambda>m. supports os arch (mf_platforms m)) fitting))))"
| "search_each cat os arch optionals sel cons name [] = Some None"
| "search_each cat os arch optionals sel cons name (m # ms) =
     (case search cat os arch optionals (sel @ [(name, m)]) (fold constrain (required_dependencies optionals m) cons) of
        Some None \<Rightarrow> search_each cat os arch optionals sel cons name ms
      | r \<Rightarrow> r)"
  by pat_completeness auto

termination
proof (relation "measures
      [\<lambda>z. case z of Inl (cat, _, _, _, sel, _) \<Rightarrow> card (fst ` set cat - fst ` set sel)
                  | Inr (cat, _, _, _, sel, _, name, _) \<Rightarrow> card (fst ` set cat - insert name (fst ` set sel)),
       \<lambda>z. case z of Inl _ \<Rightarrow> 0 | Inr (_, _, _, _, _, _, _, ms) \<Rightarrow> Suc (length ms)]", goal_cases)
  case (2 cat os arch optionals sel cons b name ns fitting)
  then obtain m where "m \<in> set fitting"
    by (auto simp: filter_empty_conv)
  from card_unselected [OF 2(3) 2(4) this] show ?case
    by simp
qed simp_all

section \<open>Resolution\<close>

record resolution =
  rl_roots :: "dependency list"
  rl_packages :: "manifest list"
  rl_os :: string
  rl_arch :: string
  rl_include_optional :: bool

definition resolution_ok :: "manifest list \<Rightarrow> bool" where
  "resolution_ok packages \<longleftrightarrow> distinct (map mf_name packages)"

definition pins :: "resolution \<Rightarrow> (string \<times> string) list" where
  "pins r = map (\<lambda>m. (mf_name m, mf_version m)) (rl_packages r)"

definition lock_row :: "(json \<Rightarrow> string) \<Rightarrow> manifest list \<Rightarrow> manifest \<Rightarrow> json" where
  "lock_row h packages m = JObj
     [(''name'', JStr (mf_name m)), (''version'', JStr (mf_version m)), (''kind'', JStr (mf_kind m)),
      (''manifest_digest'', JStr (manifest_digest h m)),
      (''dependencies'', JArr (concat (map (\<lambda>d.
         case map_of (map (\<lambda>x. (mf_name x, x)) packages) (dp_name d) of
           None \<Rightarrow> []
         | Some x \<Rightarrow> [JObj [(''name'', JStr (dp_name d)), (''version'', JStr (mf_version x)),
             (''manifest_digest'', JStr (manifest_digest h x))]])
         (sort_key dp_name (mf_dependencies m)))))]"

definition to_lock_dict :: "(json \<Rightarrow> string) \<Rightarrow> resolution \<Rightarrow> json" where
  "to_lock_dict h r = JObj
     [(''schema_version'', JInt 1),
      (''platform'', JObj [(''os'', JStr (rl_os r)), (''arch'', JStr (rl_arch r))]),
      (''include_optional'', JBool (rl_include_optional r)),
      (''roots'', JArr (map dependency_to_dict (rl_roots r))),
      (''packages'', JArr (map (lock_row h (rl_packages r)) (rl_packages r)))]"

text \<open>Requirements given as a mapping from names to constraints.\<close>

definition roots_of_mapping :: "(string \<times> string) list \<Rightarrow> dependency list option" where
  "roots_of_mapping rows = checked_list
     (\<lambda>(name, c). dependency_post_init [(''name'', JStr name), (''constraint'', JStr c), (''optional'', JBool False)])
     (sort rows)"

definition sorted_roots :: "dependency list \<Rightarrow> dependency list" where
  "sorted_roots roots = sort_key (\<lambda>d. (dp_name d, dp_constraint d)) roots"

text \<open>An empty name of the platform stands for the one that was detected.\<close>

definition platform_word :: "string option \<Rightarrow> string \<Rightarrow> string" where
  "platform_word z detected = py_lower (py_strip (if otext z = [] then detected else otext z))"

definition resolve_roots ::
  "catalog \<Rightarrow> dependency list \<Rightarrow> string \<times> string \<Rightarrow> string option \<Rightarrow> string option \<Rightarrow> bool \<Rightarrow>
    package_error + resolution" where
  "resolve_roots cat roots detected os arch optionals =
     (let target_os = platform_word os (fst detected); target_arch = platform_word arch (snd detected)
      in if target_os = [] \<or> target_arch = [] then Inl ResolutionErr
         else case search cat target_os target_arch optionals [] (fold constrain roots []) of
           None \<Rightarrow> Inl ManifestErr
         | Some None \<Rightarrow> Inl ResolutionErr
         | Some (Some (sel, order)) \<Rightarrow>
             (let packages = List.map_filter (map_of sel) order
              in if resolution_ok packages
                 then Inr \<lparr>rl_roots = roots, rl_packages = packages, rl_os = target_os, rl_arch = target_arch,
                           rl_include_optional = optionals\<rparr>
                 else Inl ResolutionErr))"

section \<open>The dependency order is topological\<close>

definition depends :: "bool \<Rightarrow> selection \<Rightarrow> (string \<times> string) set" where
  "depends optionals sel =
     {(n, d). \<exists>m. map_of sel n = Some m \<and> d \<in> set (selected_dependencies optionals sel m)}"

definition dependency_first :: "('a \<times> 'a) set \<Rightarrow> 'a list \<Rightarrow> bool" where
  "dependency_first E order \<longleftrightarrow> distinct order \<and> (\<forall>xs n ys. order = xs @ n # ys \<longrightarrow> E `` {n} \<subseteq> set xs)"

lemma dependency_first_Nil [simp]: "dependency_first E []"
  by (simp add: dependency_first_def)

lemma dependency_first_snoc:
  "dependency_first E (order @ [n]) \<longleftrightarrow> dependency_first E order \<and> n \<notin> set order \<and> E `` {n} \<subseteq> set order"
proof
  assume *: "dependency_first E order \<and> n \<notin> set order \<and> E `` {n} \<subseteq> set order"
  have "E `` {k} \<subseteq> set xs" if "order @ [n] = xs @ k # ys" for xs k ys
    using * that by (cases ys rule: rev_cases) (auto simp: dependency_first_def)
  with * show "dependency_first E (order @ [n])"
    by (auto simp: dependency_first_def)
qed (force simp: dependency_first_def)

lemma visit_sound:
  "visit optionals sel name visiting order = Some order' \<Longrightarrow> dependency_first (depends optionals sel) order \<Longrightarrow>
     set order \<inter> set visiting = {} \<Longrightarrow>
     dependency_first (depends optionals sel) order' \<and> set order' \<inter> set visiting = {}
     \<and> insert name (set order) \<subseteq> set order' \<and> set order' \<subseteq> set order \<union> fst ` set sel"
  "visit_each optionals sel names visiting order = Some order' \<Longrightarrow> dependency_first (depends optionals sel) order \<Longrightarrow>
     set order \<inter> set visiting = {} \<Longrightarrow>
     dependency_first (depends optionals sel) order' \<and> set order' \<inter> set visiting = {}
     \<and> set names \<union> set order \<subseteq> set order' \<and> set order' \<subseteq> set order \<union> fst ` set sel"
proof (induction optionals sel name visiting order and optionals sel names visiting order
    arbitrary: order' and order' rule: visit_visit_each.induct)
  case (1 optionals sel name visiting order)
  show ?case
  proof (cases "name \<in> set order")
    case True
    with "1.prems" show ?thesis by simp
  next
    case False
    then obtain m o1 where m: "map_of sel name = Some m" "name \<notin> set visiting"
      and o1: "visit_each optionals sel (selected_dependencies optionals sel m) (visiting @ [name]) order = Some o1"
        "order' = o1 @ [name]"
      using "1.prems"(1) by (auto split: if_splits option.splits)
    have "depends optionals sel `` {name} = set (selected_dependencies optionals sel m)"
      using m(1) by (auto simp: depends_def)
    moreover have "name \<in> fst ` set sel"
      using map_of_SomeD [OF m(1)] by force
    ultimately show ?thesis
      using "1.IH" [OF False m(2) m(1) o1(1) "1.prems"(2)] False "1.prems"(3) m(2)
      by (auto simp: o1(2) dependency_first_snoc)
  qed
next
  case (3 optionals sel name names visiting order)
  from "3.prems"(1) obtain o1 where o1: "visit optionals sel name visiting order = Some o1"
      "visit_each optionals sel names visiting o1 = Some order'"
    by (auto simp: bind_eq_Some_conv)
  from "3.IH"(1) [OF o1(1) "3.prems"(2,3)] "3.IH"(2) [OF o1] show ?case
    by auto
qed auto

lemma visit_complete:
  "acyclic (depends optionals sel) \<Longrightarrow> name \<in> fst ` set sel \<Longrightarrow>
     (\<And>v. v \<in> set visiting \<Longrightarrow> (v, name) \<in> (depends optionals sel)\<^sup>+) \<Longrightarrow>
     visit optionals sel name visiting order \<noteq> None"
  "acyclic (depends optionals sel) \<Longrightarrow> set names \<subseteq> fst ` set sel \<Longrightarrow>
     (\<And>v n. v \<in> set visiting \<Longrightarrow> n \<in> set names \<Longrightarrow> (v, n) \<in> (depends optionals sel)\<^sup>+) \<Longrightarrow>
     visit_each optionals sel names visiting order \<noteq> None"
proof (induction optionals sel name visiting order and optionals sel names visiting order rule: visit_visit_each.induct)
  case (1 optionals sel name visiting order)
  from "1.prems"(2) obtain m where m: "map_of sel name = Some m"
    by (cases "map_of sel name") (auto simp: map_of_eq_None_iff)
  have fresh: "name \<notin> set visiting"
    using "1.prems"(1,3) by (auto simp: acyclic_def)
  have deps: "(name, n) \<in> depends optionals sel" if "n \<in> set (selected_dependencies optionals sel m)" for n
    using m that by (auto simp: depends_def)
  have "set (selected_dependencies optionals sel m) \<subseteq> fst ` set sel"
    by (auto simp: selected_dependencies_def)
  moreover have "(v, n) \<in> (depends optionals sel)\<^sup>+"
    if "v \<in> set (visiting @ [name])" "n \<in> set (selected_dependencies optionals sel m)" for v n
    using that deps "1.prems"(3) by (auto intro: trancl_into_trancl)
  ultimately have "name \<notin> set order \<Longrightarrow>
      visit_each optionals sel (selected_dependencies optionals sel m) (visiting @ [name]) order \<noteq> None"
    using "1.IH" [OF _ fresh m] "1.prems"(1) by blast
  with fresh m show ?case by simp
next
  case (3 optionals sel name names visiting order)
  then show ?case
    by (auto simp: bind_eq_None_conv)
qed auto

lemma dependency_first_acyclic:
  assumes "dependency_first E order" and "E \<subseteq> set order \<times> set order"
  shows "acyclic E"
proof -
  define rank where "rank x = length (takeWhile (\<lambda>y. y \<noteq> x) order)" for x
  have "rank y < rank x" if "(x, y) \<in> E" for x y
  proof -
    from that assms(2) have "x \<in> set order"
      by auto
    then obtain xs ys where o: "order = xs @ x # ys"
      by (meson split_list)
    with assms(1) have "x \<notin> set xs" "E `` {x} \<subseteq> set xs"
      by (auto simp: dependency_first_def)
    with that have "y \<in> set xs"
      by auto
    then obtain us vs where "xs = us @ y # vs" "y \<notin> set us"
      by (meson split_list_first)
    then have "takeWhile (\<lambda>z. z \<noteq> y) order = us" and "takeWhile (\<lambda>z. z \<noteq> x) order = xs"
      using o \<open>x \<notin> set xs\<close> by (auto simp: takeWhile_append)
    with \<open>xs = us @ y # vs\<close> show ?thesis
      by (simp add: rank_def)
  qed
  then have "E\<inverse> \<subseteq> measure rank"
    by auto
  then have "wf (E\<inverse>)"
    by (rule wf_subset [OF wf_measure])
  then show ?thesis
    using wf_acyclic acyclic_converse by blast
qed

text \<open>The order exists exactly when the selected packages have no cycle of dependencies.\<close>

lemma dependency_order_iff: "dependency_order optionals sel \<noteq> None \<longleftrightarrow> acyclic (depends optionals sel)"
proof
  assume "acyclic (depends optionals sel)"
  then show "dependency_order optionals sel \<noteq> None"
    unfolding dependency_order_def by (rule visit_complete(2)) simp_all
next
  assume "dependency_order optionals sel \<noteq> None"
  then obtain order where "visit_each optionals sel (sort (map fst sel)) [] [] = Some order"
    by (auto simp: dependency_order_def)
  from visit_sound(2) [OF this] have order: "dependency_first (depends optionals sel) order" "fst ` set sel \<subseteq> set order"
    by simp_all
  have "depends optionals sel \<subseteq> fst ` set sel \<times> fst ` set sel"
    by (auto simp: depends_def selected_dependencies_def dest: map_of_SomeD intro: rev_image_eqI)
  with order(2) have "depends optionals sel \<subseteq> set order \<times> set order"
    by blast
  with order(1) show "acyclic (depends optionals sel)"
    by (rule dependency_first_acyclic)
qed

lemma dependency_order_Some:
  assumes "dependency_order optionals sel = Some order"
  shows "dependency_first (depends optionals sel) order" and "set order = fst ` set sel"
  using visit_sound(2) [OF assms [unfolded dependency_order_def]] by auto

section \<open>The search is sound and complete\<close>

abbreviation required :: "constraints \<Rightarrow> string \<Rightarrow> string set" where
  "required cons n \<equiv> set (entries (map_of cons n))"

definition satisfied :: "string \<Rightarrow> string \<Rightarrow> bool" where
  "satisfied version c \<longleftrightarrow> version_satisfies version c = Some True"

lemma entries_simps [simp]: "entries None = []" "entries (Some xs) = xs"
  by (simp_all add: entries_def)

lemma required_constrain:
  "required (constrain d cons) n = required cons n \<union> (if n = dp_name d then {dp_constraint d} else {})"
  "fst ` set (constrain d cons) = insert (dp_name d) (fst ` set cons)"
  by (simp_all add: constrain_def update_conv' dom_update)

lemma required_fold:
  "required (fold constrain ds cons) n = required cons n \<union> dp_constraint ` {d \<in> set ds. dp_name d = n}"
  "fst ` set (fold constrain ds cons) = fst ` set cons \<union> dp_name ` set ds"
  by (induction ds arbitrary: cons) (auto simp: required_constrain)

lemma all_satisfied_iff: "all_satisfied version cs = Some True \<longleftrightarrow> (\<forall>c \<in> set cs. satisfied version c)"
  by (induction cs) (auto simp: satisfied_def bind_eq_Some_conv)

lemma all_satisfied_reads: "(\<And>c. c \<in> set cs \<Longrightarrow> version_satisfies version c \<noteq> None) \<Longrightarrow> all_satisfied version cs \<noteq> None"
proof (induction cs)
  case (Cons c cs)
  then obtain b where "version_satisfies version c = Some b"
    by fastforce
  with Cons show ?case by (cases b) auto
qed simp

lemma selected_hold_iff:
  "selected_hold cons sel = Some True \<longleftrightarrow> (\<forall>(n, m) \<in> set sel. \<forall>c \<in> required cons n. satisfied (mf_version m) c)"
proof (induction sel)
  case (Cons x sel)
  then show ?case
    using all_satisfied_iff [of "mf_version (snd x)" "entries (map_of cons (fst x))"]
    by (cases x) (auto simp: bind_eq_Some_conv split: if_splits)
qed simp

lemma selected_hold_reads:
  "(\<And>n m c. (n, m) \<in> set sel \<Longrightarrow> c \<in> required cons n \<Longrightarrow> version_satisfies (mf_version m) c \<noteq> None) \<Longrightarrow>
     selected_hold cons sel \<noteq> None"
proof (induction sel)
  case (Cons x sel)
  then have "all_satisfied (mf_version (snd x)) (entries (map_of cons (fst x))) \<noteq> None"
    by (intro all_satisfied_reads) (metis Cons.prems list.set_intros(1) prod.collapse)
  then obtain b where b: "all_satisfied (mf_version (snd x)) (entries (map_of cons (fst x))) = Some b"
    by blast
  have "selected_hold cons sel \<noteq> None"
    by (rule Cons.IH) (use Cons.prems in auto)
  with b show ?case by (cases x; cases b) auto
qed simp

lemma matching_Some:
  "matching cs ms = Some fitting \<Longrightarrow> set fitting = {m \<in> set ms. \<forall>c \<in> set cs. satisfied (mf_version m) c}"
proof (induction ms arbitrary: fitting)
  case (Cons m ms)
  then show ?case
    using all_satisfied_iff [of "mf_version m" cs] by (auto simp: bind_eq_Some_conv split: if_splits)
qed simp

lemma matching_reads:
  "(\<And>m c. m \<in> set ms \<Longrightarrow> c \<in> set cs \<Longrightarrow> version_satisfies (mf_version m) c \<noteq> None) \<Longrightarrow> matching cs ms \<noteq> None"
proof (induction ms)
  case (Cons m ms)
  then have "all_satisfied (mf_version m) cs \<noteq> None"
    by (intro all_satisfied_reads) auto
  with Cons show ?case by auto
qed simp

lemma unresolved_Nil: "unresolved sel cons = [] \<longleftrightarrow> fst ` set cons \<subseteq> fst ` set sel"
proof -
  have "unresolved sel cons = [] \<longleftrightarrow> set (unresolved sel cons) = {}"
    by simp
  also have "\<dots> \<longleftrightarrow> fst ` set cons \<subseteq> fst ` set sel"
    by (auto simp: unresolved_def simp del: set_empty)
  finally show ?thesis .
qed

text \<open>
  What a resolution is: a choice of versions that the platform supports, closed under the required
  dependencies and the requirements with every constraint satisfied, and without a cycle.
\<close>

definition needs :: "bool \<Rightarrow> (string \<Rightarrow> manifest option) \<Rightarrow> (string \<times> string) set" where
  "needs optionals S = {(n, d). \<exists>m. S n = Some m \<and> d \<in> dp_name ` set (required_dependencies optionals m)}"

definition meets :: "(string \<Rightarrow> manifest option) \<Rightarrow> dependency \<Rightarrow> bool" where
  "meets S d \<longleftrightarrow> (\<exists>m. S (dp_name d) = Some m \<and> satisfied (mf_version m) (dp_constraint d))"

definition solution ::
  "catalog \<Rightarrow> string \<Rightarrow> string \<Rightarrow> bool \<Rightarrow> dependency list \<Rightarrow> (string \<Rightarrow> manifest option) \<Rightarrow> bool" where
  "solution cat os arch optionals roots S \<longleftrightarrow>
     (\<forall>n m. S n = Some m \<longrightarrow> m \<in> set (versions_of cat n) \<and> supports os arch (mf_platforms m)
        \<and> (\<forall>d \<in> set (required_dependencies optionals m). meets S d))
     \<and> (\<forall>d \<in> set roots. meets S d) \<and> acyclic (needs optionals S)"

text \<open>The invariant of the search: every choice is admissible and its constraints are recorded.\<close>

definition tracked ::
  "catalog \<Rightarrow> string \<Rightarrow> string \<Rightarrow> bool \<Rightarrow> dependency list \<Rightarrow> selection \<Rightarrow> constraints \<Rightarrow> bool" where
  "tracked cat os arch optionals roots sel cons \<longleftrightarrow>
     distinct (map fst sel)
     \<and> (\<forall>(n, m) \<in> set sel. m \<in> set (versions_of cat n) \<and> supports os arch (mf_platforms m)
          \<and> (\<forall>d \<in> set (required_dependencies optionals m). dp_constraint d \<in> required cons (dp_name d)))
     \<and> (\<forall>d \<in> set roots. dp_constraint d \<in> required cons (dp_name d))"

lemma tracked_select:
  assumes "tracked cat os arch optionals roots sel cons" and "name \<notin> fst ` set sel"
    and "m \<in> set (versions_of cat name)" and "supports os arch (mf_platforms m)"
  shows "tracked cat os arch optionals roots (sel @ [(name, m)]) (fold constrain (required_dependencies optionals m) cons)"
  using assms unfolding tracked_def by (auto simp: required_fold)

declare search.simps [simp del]

lemma search_sound:
  "search cat os arch optionals sel cons = Some (Some (sel', order)) \<Longrightarrow> tracked cat os arch optionals roots sel cons \<Longrightarrow>
     \<exists>cons'. tracked cat os arch optionals roots sel' cons' \<and> selected_hold cons' (sort_key fst sel') = Some True
       \<and> unresolved sel' cons' = [] \<and> dependency_order optionals sel' = Some order"
  "search_each cat os arch optionals sel cons name ms = Some (Some (sel', order)) \<Longrightarrow>
     tracked cat os arch optionals roots sel cons \<Longrightarrow> name \<notin> fst ` set sel \<Longrightarrow>
     \<forall>m \<in> set ms. m \<in> set (versions_of cat name) \<and> supports os arch (mf_platforms m) \<Longrightarrow>
     \<exists>cons'. tracked cat os arch optionals roots sel' cons' \<and> selected_hold cons' (sort_key fst sel') = Some True
       \<and> unresolved sel' cons' = [] \<and> dependency_order optionals sel' = Some order"
proof (induction cat os arch optionals sel cons and cat os arch optionals sel cons name ms rule: search_search_each.induct)
  case (1 cat os arch optionals sel cons)
  note run = "1.prems"(1) [unfolded search.simps [of cat os arch optionals sel cons]]
  then have hold: "selected_hold cons (sort_key fst sel) = Some True"
    by (simp split: option.splits bool.splits)
  show ?case
  proof (cases "unresolved sel cons")
    case Nil
    with hold run have "sel' = sel" "dependency_order optionals sel = Some order"
      by auto
    with hold Nil "1.prems"(2) show ?thesis
      by blast
  next
    case (Cons name ns)
    with hold run obtain fitting where f: "matching (entries (map_of cons name)) (versions_of cat name) = Some fitting"
        "filter (\<lambda>m. supports os arch (mf_platforms m)) fitting \<noteq> []"
      and each: "search_each cat os arch optionals sel cons name
          (filter (\<lambda>m. supports os arch (mf_platforms m)) fitting) = Some (Some (sel', order))"
      by (auto split: option.splits if_splits)
    show ?thesis
      using "1.IH" [OF hold _ Cons f each "1.prems"(2)] unresolved_new [OF Cons] matching_Some [OF f(1)] by auto
  qed
next
  case (3 cat os arch optionals sel cons name m ms)
  let ?r = "search cat os arch optionals (sel @ [(name, m)]) (fold constrain (required_dependencies optionals m) cons)"
  consider "?r = Some (Some (sel', order))" | "?r = Some None" "search_each cat os arch optionals sel cons name ms = Some (Some (sel', order))"
    using "3.prems"(1) by (auto split: option.splits)
  then show ?case
  proof cases
    case 1
    from "3.prems"(4) have "m \<in> set (versions_of cat name)" "supports os arch (mf_platforms m)"
      by simp_all
    from "3.IH"(1) [OF 1 tracked_select [OF "3.prems"(2,3) this]] show ?thesis .
  next
    case 2
    show ?thesis
      using "3.IH"(2) [OF 2(1) _ 2(2) "3.prems"(2,3)] "3.prems"(4) by auto
  qed
qed simp

text \<open>The constraints of the requirements and of the catalog can be read for every version.\<close>

definition readable :: "catalog \<Rightarrow> dependency list \<Rightarrow> bool" where
  "readable cat roots \<longleftrightarrow>
     (\<forall>n m d. m \<in> set (versions_of cat n) \<longrightarrow>
        d \<in> set roots \<or> (\<exists>k x. x \<in> set (versions_of cat k) \<and> d \<in> set (mf_dependencies x)) \<longrightarrow>
        version_satisfies (mf_version m) (dp_constraint d) \<noteq> None)"

definition known ::
  "catalog \<Rightarrow> dependency list \<Rightarrow> selection \<Rightarrow> constraints \<Rightarrow> bool" where
  "known cat roots sel cons \<longleftrightarrow>
     (\<forall>(n, m) \<in> set sel. m \<in> set (versions_of cat n))
     \<and> (\<forall>n. \<forall>c \<in> required cons n. \<exists>d. dp_constraint d = c
          \<and> (d \<in> set roots \<or> (\<exists>k x. x \<in> set (versions_of cat k) \<and> d \<in> set (mf_dependencies x))))"

lemma known_reads:
  "readable cat roots \<Longrightarrow> known cat roots sel cons \<Longrightarrow> m \<in> set (versions_of cat k) \<Longrightarrow> c \<in> required cons n \<Longrightarrow>
     version_satisfies (mf_version m) c \<noteq> None"
  unfolding readable_def known_def by metis

lemma known_select:
  assumes "known cat roots sel cons" and "m \<in> set (versions_of cat name)"
  shows "known cat roots (sel @ [(name, m)]) (fold constrain (required_dependencies optionals m) cons)"
  using assms unfolding known_def by (auto simp: required_fold required_dependencies_def)

lemma search_reads:
  "readable cat roots \<Longrightarrow> known cat roots sel cons \<Longrightarrow> search cat os arch optionals sel cons \<noteq> None"
  "readable cat roots \<Longrightarrow> known cat roots sel cons \<Longrightarrow> set ms \<subseteq> set (versions_of cat name) \<Longrightarrow>
     search_each cat os arch optionals sel cons name ms \<noteq> None"
proof (induction cat os arch optionals sel cons and cat os arch optionals sel cons name ms rule: search_search_each.induct)
  case (1 cat os arch optionals sel cons)
  have "selected_hold cons (sort_key fst sel) \<noteq> None"
  proof (rule selected_hold_reads)
    fix n m c assume "(n, m) \<in> set (sort_key fst sel)" and c: "c \<in> required cons n"
    with "1.prems"(2) have "m \<in> set (versions_of cat n)"
      by (auto simp: known_def)
    then show "version_satisfies (mf_version m) c \<noteq> None"
      by (rule known_reads [OF "1.prems" _ c])
  qed
  then obtain b where b: "selected_hold cons (sort_key fst sel) = Some b"
    by blast
  show ?case
  proof (cases "b \<and> unresolved sel cons \<noteq> []")
    case True
    then obtain name ns where u: "unresolved sel cons = name # ns"
      by (cases "unresolved sel cons") auto
    have "matching (entries (map_of cons name)) (versions_of cat name) \<noteq> None"
      by (rule matching_reads) (rule known_reads [OF "1.prems"])
    then obtain fitting where f: "matching (entries (map_of cons name)) (versions_of cat name) = Some fitting"
      by blast
    have "set (filter (\<lambda>m. supports os arch (mf_platforms m)) fitting) \<subseteq> set (versions_of cat name)"
      using matching_Some [OF f] by auto
    with "1.IH" [OF b _ u f _ "1.prems"] b True
    have "search_each cat os arch optionals sel cons name (filter (\<lambda>m. supports os arch (mf_platforms m)) fitting) \<noteq> None"
      if "filter (\<lambda>m. supports os arch (mf_platforms m)) fitting \<noteq> []"
      using that by blast
    with b True u f show ?thesis
      by (simp add: search.simps [of cat os arch optionals sel cons])
  next
    case False
    with b show ?thesis
      by (cases b) (simp_all add: search.simps [of cat os arch optionals sel cons])
  qed
next
  case (3 cat os arch optionals sel cons name m ms)
  have "known cat roots (sel @ [(name, m)]) (fold constrain (required_dependencies optionals m) cons)"
    by (rule known_select) (use "3.prems" in auto)
  from "3.IH"(1) [OF "3.prems"(1) this] "3.IH"(2) "3.prems" show ?case
    by (auto split: option.splits)
qed simp

text \<open>A selection that a solution extends is not given up.\<close>

definition agrees :: "(string \<Rightarrow> manifest option) \<Rightarrow> selection \<Rightarrow> constraints \<Rightarrow> bool" where
  "agrees S sel cons \<longleftrightarrow>
     (\<forall>(n, m) \<in> set sel. S n = Some m)
     \<and> (\<forall>n \<in> fst ` set cons. \<exists>m. S n = Some m \<and> (\<forall>c \<in> required cons n. satisfied (mf_version m) c))"

lemma required_unknown: "c \<in> required cons n \<Longrightarrow> n \<in> fst ` set cons"
  by (cases "map_of cons n") (auto dest: map_of_SomeD intro: rev_image_eqI)

lemma agrees_select:
  assumes "agrees S sel cons" and "S name = Some m" and "solution cat os arch optionals roots S"
  shows "agrees S (sel @ [(name, m)]) (fold constrain (required_dependencies optionals m) cons)"
proof -
  have meets: "meets S d" if "d \<in> set (required_dependencies optionals m)" for d
    using assms(2,3) that by (auto simp: solution_def)
  have "\<exists>x. S n = Some x \<and> (\<forall>c \<in> required (fold constrain (required_dependencies optionals m) cons) n. satisfied (mf_version x) c)"
    if n: "n \<in> fst ` set cons \<union> dp_name ` set (required_dependencies optionals m)" for n
  proof -
    from n consider "n \<in> fst ` set cons" | d where "d \<in> set (required_dependencies optionals m)" "dp_name d = n"
      by blast
    then have "\<exists>x. S n = Some x"
    proof cases
      case 1
      then show ?thesis using assms(1) by (auto simp: agrees_def)
    next
      case (2 d)
      then show ?thesis using meets [of d] by (auto simp: meets_def)
    qed
    then obtain x where x: "S n = Some x" ..
    have "satisfied (mf_version x) c" if "c \<in> required cons n" for c
      using assms(1) x that required_unknown [OF that] by (auto simp: agrees_def)
    moreover have "satisfied (mf_version x) (dp_constraint d)"
      if "d \<in> set (required_dependencies optionals m)" "dp_name d = n" for d
      using meets [OF that(1)] x that(2) by (auto simp: meets_def)
    ultimately show ?thesis
      using x by (auto simp: required_fold)
  qed
  with assms show ?thesis
    unfolding agrees_def by (auto simp: required_fold)
qed

lemma search_finds:
  "solution cat os arch optionals roots S \<Longrightarrow> agrees S sel cons \<Longrightarrow> search cat os arch optionals sel cons \<noteq> Some None"
  "solution cat os arch optionals roots S \<Longrightarrow> agrees S sel cons \<Longrightarrow> S name = Some m \<Longrightarrow> m \<in> set ms \<Longrightarrow>
     search_each cat os arch optionals sel cons name ms \<noteq> Some None"
proof (induction cat os arch optionals sel cons and cat os arch optionals sel cons name ms arbitrary: and m rule: search_search_each.induct)
  case (1 cat os arch optionals sel cons)
  have hold: "selected_hold cons (sort_key fst sel) = Some True"
    unfolding selected_hold_iff
  proof safe
    fix n m c assume "(n, m) \<in> set (sort_key fst sel)" and "c \<in> required cons n"
    with "1.prems"(2) required_unknown [OF this(2)] show "satisfied (mf_version m) c"
      by (fastforce simp: agrees_def)
  qed
  show ?case
  proof (cases "unresolved sel cons")
    case Nil
    have "depends optionals sel \<subseteq> needs optionals S"
      using "1.prems"(2) by (auto simp: depends_def needs_def selected_dependencies_def agrees_def dest!: map_of_SomeD)
    moreover have "acyclic (needs optionals S)"
      using "1.prems"(1) by (simp add: solution_def)
    ultimately have "dependency_order optionals sel \<noteq> None"
      unfolding dependency_order_iff using acyclic_subset by blast
    with hold Nil show ?thesis
      by (auto simp: search.simps [of cat os arch optionals sel cons])
  next
    case (Cons name ns)
    from unresolved_new [OF Cons] "1.prems"(2) obtain m where m: "S name = Some m" "\<forall>c \<in> required cons name. satisfied (mf_version m) c"
      by (auto simp: agrees_def)
    then have v: "m \<in> set (versions_of cat name)" "supports os arch (mf_platforms m)"
      using "1.prems"(1) by (auto simp: solution_def)
    show ?thesis
    proof (cases "matching (entries (map_of cons name)) (versions_of cat name)")
      case None
      with hold Cons show ?thesis
        by (simp add: search.simps [of cat os arch optionals sel cons])
    next
      case (Some fitting)
      then have mem: "m \<in> set (filter (\<lambda>m. supports os arch (mf_platforms m)) fitting)"
        using m v matching_Some by auto
      then have "filter (\<lambda>m. supports os arch (mf_platforms m)) fitting \<noteq> []"
        by (metis empty_iff empty_set)
      from "1.IH" [OF hold _ Cons Some this "1.prems" m(1) mem] this hold Cons Some show ?thesis
        by (simp add: search.simps [of cat os arch optionals sel cons])
    qed
  qed
next
  case (3 cat os arch optionals sel cons name m0 ms)
  let ?r = "search cat os arch optionals (sel @ [(name, m0)]) (fold constrain (required_dependencies optionals m0) cons)"
  show ?case
  proof (cases "?r = Some None")
    case True
    have "m \<noteq> m0"
    proof
      assume "m = m0"
      with agrees_select [OF "3.prems"(2,3,1)] "3.IH"(1) [OF "3.prems"(1)] True show False
        by simp
    qed
    with "3.IH"(2) [OF True _ "3.prems"(1,2,3)] True "3.prems"(4) show ?thesis
      by auto
  next
    case False
    then show ?thesis
      by (auto split: option.splits)
  qed
qed simp

text \<open>Both directions, for the call that starts the search.\<close>

lemma search_result:
  assumes "search cat os arch optionals [] (fold constrain roots []) = Some (Some (sel, order))"
  shows "solution cat os arch optionals roots (map_of sel)"
    and "dependency_first (needs optionals (map_of sel)) order" and "set order = fst ` set sel"
    and "distinct (map fst sel)"
proof -
  have "tracked cat os arch optionals roots [] (fold constrain roots [])"
    by (auto simp: tracked_def required_fold)
  from search_sound(1) [OF assms this] obtain cons where
    tracked: "tracked cat os arch optionals roots sel cons" and hold: "selected_hold cons (sort_key fst sel) = Some True"
    and closed: "unresolved sel cons = []" and order: "dependency_order optionals sel = Some order"
    by blast
  have meets: "meets (map_of sel) d" if "dp_constraint d \<in> required cons (dp_name d)" for d
  proof -
    have "dp_name d \<in> fst ` set sel"
      using required_unknown [OF that] closed by (auto simp: unresolved_Nil)
    then obtain m where m: "map_of sel (dp_name d) = Some m"
      by (cases "map_of sel (dp_name d)") (auto simp: map_of_eq_None_iff)
    with hold that map_of_SomeD [OF m] show ?thesis
      by (auto simp: selected_hold_iff meets_def)
  qed
  have same: "needs optionals (map_of sel) = depends optionals sel"
  proof -
    have "d \<in> fst ` set sel" if "map_of sel n = Some m" "d \<in> dp_name ` set (required_dependencies optionals m)" for n m d
      using tracked map_of_SomeD [OF that(1)] that(2) required_unknown closed
      by (fastforce simp: tracked_def unresolved_Nil)
    then show ?thesis
      by (auto simp: needs_def depends_def selected_dependencies_def)
  qed
  show "solution cat os arch optionals roots (map_of sel)"
    unfolding solution_def
  proof (intro conjI allI impI ballI)
    fix n m assume "map_of sel n = Some m"
    then have "(n, m) \<in> set sel"
      by (rule map_of_SomeD)
    with tracked meets show "m \<in> set (versions_of cat n)" "supports os arch (mf_platforms m)"
      "\<And>d. d \<in> set (required_dependencies optionals m) \<Longrightarrow> meets (map_of sel) d"
      by (auto simp: tracked_def)
  next
    fix d assume "d \<in> set roots"
    with tracked meets show "meets (map_of sel) d"
      by (simp add: tracked_def)
  next
    show "acyclic (needs optionals (map_of sel))"
      unfolding same using order dependency_order_iff by (metis option.distinct(1))
  qed
  show "dependency_first (needs optionals (map_of sel)) order" and "set order = fst ` set sel"
    unfolding same using dependency_order_Some [OF order] by auto
  show "distinct (map fst sel)"
    using tracked by (simp add: tracked_def)
qed

lemma search_answers:
  assumes "readable cat roots"
  shows "(\<exists>r. search cat os arch optionals [] (fold constrain roots []) = Some (Some r))
     \<longleftrightarrow> (\<exists>S. solution cat os arch optionals roots S)"
    and "search cat os arch optionals [] (fold constrain roots []) \<noteq> None"
proof -
  have "known cat roots [] (fold constrain roots [])"
    by (auto simp: known_def required_fold)
  from search_reads(1) [OF assms this]
  show total: "search cat os arch optionals [] (fold constrain roots []) \<noteq> None" .
  have "agrees S [] (fold constrain roots [])" if "solution cat os arch optionals roots S" for S
  proof -
    have meets: "\<exists>m. S (dp_name d) = Some m \<and> satisfied (mf_version m) (dp_constraint d)" if "d \<in> set roots" for d
      using \<open>solution cat os arch optionals roots S\<close> that by (simp add: solution_def meets_def)
    show ?thesis
      unfolding agrees_def
    proof (intro conjI ballI)
      fix n assume "n \<in> fst ` set (fold constrain roots [])"
      then obtain d where d: "d \<in> set roots" "n = dp_name d"
        by (auto simp: required_fold)
      then obtain m where m: "S n = Some m"
        using meets by blast
      have "satisfied (mf_version m) c" if "c \<in> required (fold constrain roots []) n" for c
        using that meets m by (fastforce simp: required_fold)
      with m show "\<exists>m. S n = Some m \<and> (\<forall>c \<in> required (fold constrain roots []) n. satisfied (mf_version m) c)"
        by blast
    qed simp
  qed
  with search_finds(1) total search_result(1)
  show "(\<exists>r. search cat os arch optionals [] (fold constrain roots []) = Some (Some r))
     \<longleftrightarrow> (\<exists>S. solution cat os arch optionals roots S)"
    by (metis option.exhaust prod.exhaust)
qed

section \<open>Results of the resolver\<close>

definition resolve :: "catalog \<Rightarrow> dependency list \<Rightarrow> string \<times> string \<Rightarrow> string option \<Rightarrow> string option \<Rightarrow> bool \<Rightarrow>
    package_error + resolution" where
  "resolve cat requirements detected os arch optionals =
     resolve_roots cat (sorted_roots requirements) detected os arch optionals"

definition resolve_mapping :: "catalog \<Rightarrow> (string \<times> string) list \<Rightarrow> string \<times> string \<Rightarrow> string option \<Rightarrow>
    string option \<Rightarrow> bool \<Rightarrow> package_error + resolution" where
  "resolve_mapping cat rows detected os arch optionals =
     (case roots_of_mapping rows of
        None \<Rightarrow> Inl ManifestErr
      | Some roots \<Rightarrow> resolve_roots cat roots detected os arch optionals)"

text \<open>A catalog files every manifest under its own name.\<close>

definition catalog_ok :: "catalog \<Rightarrow> bool" where
  "catalog_ok cat \<longleftrightarrow> (\<forall>n vs. map_of cat n = Some vs \<longrightarrow> (\<forall>m \<in> snd ` set vs. mf_name m = n))"

lemma update_values: "snd ` set (AList.update k v xs) \<subseteq> insert v (snd ` set xs)"
  by (induction xs) auto

lemma catalog_add_ok:
  assumes "catalog_ok cat" and "catalog_add h cat m = Some cat'"
  shows "catalog_ok cat'"
proof -
  let ?vs = "entries (map_of cat (mf_name m))"
  have cat': "cat' = AList.update (mf_name m) (AList.update (mf_version m) m ?vs) cat"
    using assms(2) by (auto simp: catalog_add_def Let_def split: option.splits if_splits)
  have old: "mf_name x = mf_name m" if "x \<in> snd ` set ?vs" for x
  proof (cases "map_of cat (mf_name m)")
    case (Some vs)
    with that have "x \<in> snd ` set vs"
      by simp
    with assms(1) Some show ?thesis
      unfolding catalog_ok_def by blast
  qed (use that in simp)
  have new: "mf_name x = mf_name m" if "x \<in> snd ` set (AList.update (mf_version m) m ?vs)" for x
  proof -
    from that update_values [of "mf_version m" m ?vs] have "x \<in> insert m (snd ` set ?vs)"
      by (rule rev_subsetD)
    then consider "x = m" | "x \<in> snd ` set ?vs"
      by blast
    then show ?thesis
      by cases (simp, rule old)
  qed
  show ?thesis
    unfolding catalog_ok_def
  proof (intro allI impI ballI)
    fix n vs x assume n: "map_of cat' n = Some vs" and x: "x \<in> snd ` set vs"
    show "mf_name x = n"
    proof (cases "n = mf_name m")
      case True
      with n have "vs = AList.update (mf_version m) m ?vs"
        by (simp add: cat' update_conv')
      with x True show ?thesis
        using new by blast
    next
      case False
      with n have "map_of cat n = Some vs"
        by (simp add: cat' update_conv')
      with x assms(1) show ?thesis
        unfolding catalog_ok_def by blast
    qed
  qed
qed

lemma new_catalog_ok: "new_catalog h cat ms = Some cat' \<Longrightarrow> catalog_ok cat \<Longrightarrow> catalog_ok cat'"
  by (induction h cat ms rule: new_catalog.induct) (auto simp: bind_eq_Some_conv dest: catalog_add_ok)

lemma catalog_ok_Nil [simp]: "catalog_ok []"
  by (simp add: catalog_ok_def)

lemma versions_of_name: "catalog_ok cat \<Longrightarrow> m \<in> set (versions_of cat n) \<Longrightarrow> mf_name m = n"
  by (cases "map_of cat n") (auto simp: versions_of_def catalog_ok_def)

definition packages_map :: "manifest list \<Rightarrow> string \<Rightarrow> manifest option" where
  "packages_map packages = map_of (map (\<lambda>m. (mf_name m, m)) packages)"

lemma ordered_packages:
  assumes "catalog_ok cat" and "solution cat os arch optionals roots (map_of sel)" and "set order = fst ` set sel"
  shows "map mf_name (List.map_filter (map_of sel) order) = order"
    and "packages_map (List.map_filter (map_of sel) order) = map_of sel"
proof -
  define f where "f n = the (map_of sel n)" for n
  have f: "map_of sel n = Some (f n)" if "n \<in> set order" for n
    using that assms(3) unfolding f_def by (metis map_of_eq_None_iff option.collapse)
  then have packages: "List.map_filter (map_of sel) order = map f order"
    by (induction order) (auto simp: map_filter_simps)
  have name: "mf_name (f n) = n" if "n \<in> set order" for n
    using f [OF that] assms(1,2) versions_of_name by (auto simp: solution_def)
  then show names: "map mf_name (List.map_filter (map_of sel) order) = order"
    by (simp add: packages map_idI)
  have "map (\<lambda>m. (mf_name m, m)) (map f order) = map (\<lambda>n. (n, f n)) order"
    using name by simp
  then have listed: "packages_map (List.map_filter (map_of sel) order) = (Some \<circ> f) |` set order"
    by (simp only: packages_map_def packages map_of_map_restrict)
  show "packages_map (List.map_filter (map_of sel) order) = map_of sel"
  proof
    fix n
    show "packages_map (List.map_filter (map_of sel) order) n = map_of sel n"
      using f [of n] assms(3) map_of_eq_None_iff [of sel n] by (auto simp: listed restrict_map_def)
  qed
qed

lemma resolve_roots_cases:
  assumes "catalog_ok cat" and "platform_word os (fst detected) \<noteq> []" and "platform_word arch (snd detected) \<noteq> []"
  shows "(case search cat (platform_word os (fst detected)) (platform_word arch (snd detected)) optionals []
             (fold constrain roots []) of
            None \<Rightarrow> resolve_roots cat roots detected os arch optionals = Inl ManifestErr
          | Some None \<Rightarrow> resolve_roots cat roots detected os arch optionals = Inl ResolutionErr
          | Some (Some _) \<Rightarrow> \<exists>r. resolve_roots cat roots detected os arch optionals = Inr r)"
proof -
  have "resolution_ok (List.map_filter (map_of sel) order)"
    if "search cat (platform_word os (fst detected)) (platform_word arch (snd detected)) optionals []
          (fold constrain roots []) = Some (Some (sel, order))" for sel order
    using ordered_packages(1) [OF assms(1) search_result(1,3) [OF that]] search_result(2) [OF that]
    by (simp add: resolution_ok_def dependency_first_def)
  with assms(2,3) show ?thesis
    by (auto simp: resolve_roots_def Let_def split: option.splits)
qed

text \<open>C6. What the resolver returns is a lock: every chosen version is in the catalog and supports the
  platform, every requirement and every required dependency is met by a chosen version that satisfies
  its constraint, no dependency is cyclic, and every package is listed behind all it depends on.\<close>

theorem resolution_is_a_solution:
  assumes "new_catalog h [] manifests = Some cat"
    and "resolve_roots cat roots detected os arch optionals = Inr r"
  shows "solution cat (rl_os r) (rl_arch r) optionals roots (packages_map (rl_packages r))
     \<and> dependency_first (needs optionals (packages_map (rl_packages r))) (map mf_name (rl_packages r))"
proof -
  have ok: "catalog_ok cat"
    using new_catalog_ok [OF assms(1)] by simp
  obtain sel order where
    found: "search cat (platform_word os (fst detected)) (platform_word arch (snd detected)) optionals []
          (fold constrain roots []) = Some (Some (sel, order))"
    and r: "rl_packages r = List.map_filter (map_of sel) order" "rl_os r = platform_word os (fst detected)"
      "rl_arch r = platform_word arch (snd detected)"
    using assms(2) by (auto simp: resolve_roots_def Let_def split: option.splits if_splits)
  show ?thesis
    using search_result [OF found] ordered_packages [OF ok search_result(1,3) [OF found]] by (simp add: r)
qed

text \<open>C7. The resolver decides, on inputs it can read. For a catalogue built by additions, in which every
  constraint can be evaluated on every version it may meet (\<open>readable\<close>), and a target platform that is
  not blank, it returns a resolution exactly when one exists, whatever the backtracking had to give up on
  the way, and raises \<open>ResolutionError\<close> exactly when there is none. On a blank platform it raises
  \<open>ResolutionError\<close> at once. (It always ends: \<open>search\<close> is a total function. On a constraint that cannot be
  read it may raise \<open>ManifestError\<close> instead, see \<open>late_clause_is_not_checked\<close> in \<open>Manifest\<close>.)\<close>

theorem resolver_decides:
  assumes "new_catalog h [] manifests = Some cat" and "readable cat roots"
  shows "if platform_word os (fst detected) = [] \<or> platform_word arch (snd detected) = []
     then resolve_roots cat roots detected os arch optionals = Inl ResolutionErr
     else ((\<exists>r. resolve_roots cat roots detected os arch optionals = Inr r) \<longleftrightarrow>
         (\<exists>S. solution cat (platform_word os (fst detected)) (platform_word arch (snd detected)) optionals roots S))
       \<and> (resolve_roots cat roots detected os arch optionals = Inl ResolutionErr \<longleftrightarrow>
         (\<nexists>S. solution cat (platform_word os (fst detected)) (platform_word arch (snd detected)) optionals roots S))"
proof (cases "platform_word os (fst detected) = [] \<or> platform_word arch (snd detected) = []")
  case True
  then show ?thesis
    by (auto simp: resolve_roots_def Let_def)
next
  case False
  then have named: "platform_word os (fst detected) \<noteq> []" "platform_word arch (snd detected) \<noteq> []"
    by simp_all
  have "catalog_ok cat"
    using new_catalog_ok [OF assms(1)] by simp
  note cases = resolve_roots_cases [OF this named]
  show ?thesis
    using cases [where ?optionals = optionals and ?roots = roots] named
      search_answers [OF assms(2), of "platform_word os (fst detected)" "platform_word arch (snd detected)" optionals]
    by (cases "search cat (platform_word os (fst detected)) (platform_word arch (snd detected)) optionals []
         (fold constrain roots [])") (auto split: option.splits)
qed

section \<open>Examples\<close>

definition sample_manifest :: "string \<Rightarrow> string \<Rightarrow> dependency list \<Rightarrow> manifest" where
  "sample_manifest name version dependencies =
     \<lparr>mf_name = name, mf_version = version, mf_kind = ''bundle'', mf_entrypoint_type = ''none'', mf_entrypoint = None,
      mf_artifacts = [], mf_description = [], mf_capabilities = [], mf_platforms = [],
      mf_dependencies = dependencies, mf_permissions = [], mf_publisher = None, mf_metadata = []\<rparr>"

definition sample_need :: "string \<Rightarrow> string \<Rightarrow> dependency" where
  "sample_need name c = \<lparr>dp_name = name, dp_constraint = c, dp_optional = False\<rparr>"

text \<open>The newest \<open>app\<close> needs a \<open>lib\<close> that does not exist, so the search has to go back to the older one.\<close>

definition sample_manifests :: "manifest list" where
  "sample_manifests =
     [sample_manifest ''app'' ''1.0.0'' [sample_need ''lib'' ''>=1.0.0,<2.0.0''],
      sample_manifest ''app'' ''2.0.0-rc.1'' [sample_need ''lib'' ''>=3.0.0''],
      sample_manifest ''lib'' ''1.10.0'' [], sample_manifest ''lib'' ''1.9.0'' [], sample_manifest ''lib'' ''2.0.0'' []]"

definition sample_catalog :: catalog where
  "sample_catalog = (case new_catalog (\<lambda>_. []) [] sample_manifests of Some cat \<Rightarrow> cat | None \<Rightarrow> [])"

lemma sample_catalog_new: "new_catalog (\<lambda>_. []) [] sample_manifests = Some sample_catalog"
  by code_simp

lemma sample_resolution:
  "(case resolve_roots sample_catalog [sample_need ''app'' ''*''] (''linux'', ''x86_64'') None None False of
      Inr r \<Rightarrow> map coordinate (rl_packages r) | Inl _ \<Rightarrow> []) = [''lib@1.10.0'', ''app@1.0.0'']"
  "resolve_roots sample_catalog [sample_need ''app'' ''>1.0.0''] (''linux'', ''x86_64'') None None False = Inl ResolutionErr"
  by code_simp+

text \<open>\<open>readable\<close> on the entries of a catalog, as a computation.\<close>

definition all_versions :: "catalog \<Rightarrow> manifest list" where
  "all_versions cat = concat (map (map snd \<circ> snd) cat)"

lemma readable_check:
  assumes "list_all (\<lambda>m. list_all (\<lambda>d. version_satisfies (mf_version m) (dp_constraint d) \<noteq> None)
    (roots @ concat (map mf_dependencies (all_versions cat)))) (all_versions cat)"
  shows "readable cat roots"
  unfolding readable_def
proof (intro allI impI)
  have mem: "m \<in> set (all_versions cat)" if "m \<in> set (versions_of cat n)" for m n
  proof (cases "map_of cat n")
    case (Some vs)
    then have "(n, vs) \<in> set cat" and "m \<in> snd ` set vs"
      using that by (auto simp: versions_of_def dest: map_of_SomeD)
    then show ?thesis
      by (auto simp: all_versions_def intro!: bexI)
  qed (use that in \<open>simp add: versions_of_def\<close>)
  fix n m d
  assume "m \<in> set (versions_of cat n)"
    and d: "d \<in> set roots \<or> (\<exists>k x. x \<in> set (versions_of cat k) \<and> d \<in> set (mf_dependencies x))"
  then have "m \<in> set (all_versions cat)"
    using mem by blast
  moreover from d mem have "d \<in> set (roots @ concat (map mf_dependencies (all_versions cat)))"
    by (elim disjE exE conjE) (simp, simp, blast)
  ultimately show "version_satisfies (mf_version m) (dp_constraint d) \<noteq> None"
    using assms unfolding list_all_iff by blast
qed

theorem resolution_is_a_solution_witness:
  "\<exists>r. resolve_roots sample_catalog [sample_need ''app'' ''*''] (''linux'', ''x86_64'') None None False = Inr r
     \<and> dependency_first (needs False (packages_map (rl_packages r))) (map mf_name (rl_packages r))"
proof -
  obtain r where r: "resolve_roots sample_catalog [sample_need ''app'' ''*''] (''linux'', ''x86_64'') None None False = Inr r"
    using sample_resolution(1) by (auto split: sum.splits)
  with resolution_is_a_solution [OF sample_catalog_new r] show ?thesis
    by blast
qed

theorem resolver_decides_witness:
  "\<nexists>S. solution sample_catalog ''linux'' ''x86_64'' False [sample_need ''app'' ''>1.0.0''] S"
proof -
  have "readable sample_catalog [sample_need ''app'' ''>1.0.0'']"
    by (rule readable_check) code_simp
  moreover have "platform_word None (fst (''linux'', ''x86_64'')) = ''linux''" "platform_word None (snd (''linux'', ''x86_64'')) = ''x86_64''"
    by code_simp+
  ultimately show ?thesis
    using resolver_decides [OF sample_catalog_new, of "[sample_need ''app'' ''>1.0.0'']" None "(''linux'', ''x86_64'')" None False]
      sample_resolution(2) by simp
qed

end
