(* ===== verification/Lockfile.thy ===== *)
theory Lockfile
  imports Catalog "HOL-Library.Multiset"
begin

text \<open>
  Package locks (\<open>packages/lockfile.py\<close>): the locked packages, the lock with its checks and its wire
  format, its creation from a snapshot of a catalog and its verification.

  Errors are the constructors of \<open>package_error\<close>; reading a lock gives \<open>None\<close> for a \<open>LockError\<close>. The
  digest of a JSON text is the argument \<open>h\<close>, the platform of the machine the argument \<open>detected\<close>. A
  package store, whose files are not modelled, is its platform and its \<open>verify_installed\<close>.
\<close>

section \<open>Locked packages\<close>

record locked_package =
  lp_name :: string
  lp_version :: string
  lp_manifest_digest :: string
  lp_kind :: string
  lp_platforms :: "package_platform list"

definition locked_fields :: "string list" where
  "locked_fields = [''name'', ''version'', ''manifest_digest'', ''kind'', ''platforms'']"

definition sorted_platforms :: "package_platform list \<Rightarrow> package_platform list" where
  "sorted_platforms = sort_key (\<lambda>p. (pf_os p, pf_arch p))"

definition locked_post_init :: "dict \<Rightarrow> package_platform list \<Rightarrow> locked_package option" where
  "locked_post_init d platforms = do {
     name \<leftarrow> name_of (dget0 d ''name'');
     version \<leftarrow> plain_string (dget0 d ''version'');
     require (version_tuple version \<noteq> None);
     kind \<leftarrow> name_of (dget0 d ''kind'');
     require (kind \<in> set package_kinds);
     require (distinct (map (\<lambda>p. (pf_os p, pf_arch p)) platforms));
     digest \<leftarrow> normalize_sha256 (dget0 d ''manifest_digest'');
     Some \<lparr>lp_name = name, lp_version = version, lp_manifest_digest = digest, lp_kind = kind,
            lp_platforms = sorted_platforms platforms\<rparr> }"

definition locked_of :: "(json \<Rightarrow> string) \<Rightarrow> manifest \<Rightarrow> locked_package option" where
  "locked_of h m = locked_post_init
     [(''name'', JStr (mf_name m)), (''version'', JStr (mf_version m)),
      (''manifest_digest'', JStr (manifest_digest h m)), (''kind'', JStr (mf_kind m))] (mf_platforms m)"

definition locked_to_dict :: "locked_package \<Rightarrow> json" where
  "locked_to_dict x = JObj
     [(''name'', JStr (lp_name x)), (''version'', JStr (lp_version x)),
      (''manifest_digest'', JStr (lp_manifest_digest x)), (''kind'', JStr (lp_kind x)),
      (''platforms'', JArr (map platform_to_dict (lp_platforms x)))]"

definition locked_from_dict :: "json \<Rightarrow> locked_package option" where
  "locked_from_dict v = do {
     d \<leftarrow> strict_object locked_fields v;
     platforms \<leftarrow> json_array platform_from_dict (dget0 d ''platforms'');
     locked_post_init d platforms }"

section \<open>The lock\<close>

record package_lock =
  lk_roots :: "dependency list"
  lk_packages :: "locked_package list"
  lk_os :: string
  lk_arch :: string
  lk_include_optional :: bool
  lk_catalog_digest :: string

definition lock_fields :: "string list" where
  "lock_fields =
     [''schema_version'', ''lock_version'', ''catalog_snapshot_digest'', ''platform'', ''include_optional'',
      ''roots'', ''packages'']"

definition lock_post_init ::
  "dependency list \<Rightarrow> locked_package list \<Rightarrow> json \<Rightarrow> json \<Rightarrow> json \<Rightarrow> json \<Rightarrow> package_lock option" where
  "lock_post_init roots packages os arch optionals digest = do {
     include_optional \<leftarrow> boolean optionals;
     os_name \<leftarrow> name_of os;
     arch_name \<leftarrow> name_of arch;
     require (os_name \<noteq> ''any'' \<and> arch_name \<noteq> ''any'');
     require (roots \<noteq> [] \<and> distinct (map dp_name roots));
     require (packages \<noteq> [] \<and> distinct (map lp_name packages));
     require (list_all (\<lambda>d. dp_name d \<in> lp_name ` set packages) roots);
     require (list_all (\<lambda>p. supports os_name arch_name (lp_platforms p)) packages);
     catalog_digest \<leftarrow> normalize_sha256 digest;
     Some \<lparr>lk_roots = sort_key (\<lambda>d. (dp_name d, dp_constraint d, dp_optional d)) roots,
            lk_packages = sort_key lp_name packages, lk_os = os_name, lk_arch = arch_name,
            lk_include_optional = include_optional, lk_catalog_digest = catalog_digest\<rparr> }"

definition lock_to_dict :: "package_lock \<Rightarrow> json" where
  "lock_to_dict x = JObj
     [(''schema_version'', JInt 1), (''lock_version'', JStr ''1''),
      (''catalog_snapshot_digest'', JStr (lk_catalog_digest x)),
      (''platform'', JObj [(''os'', JStr (lk_os x)), (''arch'', JStr (lk_arch x))]),
      (''include_optional'', JBool (lk_include_optional x)),
      (''roots'', JArr (map dependency_to_dict (lk_roots x))),
      (''packages'', JArr (map locked_to_dict (lk_packages x)))]"

definition lock_from_dict :: "json \<Rightarrow> package_lock option" where
  "lock_from_dict v = do {
     d \<leftarrow> strict_object lock_fields v;
     platform \<leftarrow> strict_object [''os'', ''arch''] (dget0 d ''platform'');
     roots \<leftarrow> json_array dependency_from_dict (dget0 d ''roots'');
     packages \<leftarrow> json_array locked_from_dict (dget0 d ''packages'');
     require (dget0 d ''schema_version'' = JInt 1 \<and> dget0 d ''lock_version'' = JStr ''1'');
     lock_post_init roots packages (dget0 platform ''os'') (dget0 platform ''arch'') (dget0 d ''include_optional'')
       (dget0 d ''catalog_snapshot_digest'') }"

definition load_lock_json :: "json \<Rightarrow> package_lock option" where
  "load_lock_json v = do { require (no_dup_keys v); lock_from_dict v }"

definition lock_digest :: "(json \<Rightarrow> string) \<Rightarrow> package_lock \<Rightarrow> string" where
  "lock_digest h x = ''sha256:'' @ h (canon (lock_to_dict x))"

section \<open>Creation\<close>

definition catalog_row :: "(json \<Rightarrow> string) \<Rightarrow> manifest \<Rightarrow> string \<times> string \<times> string" where
  "catalog_row h m = (mf_name m, mf_version m, manifest_digest h m)"

definition manifests_digest :: "(json \<Rightarrow> string) \<Rightarrow> manifest list \<Rightarrow> string" where
  "manifests_digest h ms = ''sha256:'' @ h (canon (JObj
     [(''schema_version'', JInt 1),
      (''manifests'', JArr (map (\<lambda>(name, version, digest). JObj
         [(''name'', JStr name), (''version'', JStr version), (''manifest_digest'', JStr digest)])
         (sort (map (catalog_row h) ms))))]))"

definition catalog_snapshot_digest :: "(json \<Rightarrow> string) \<Rightarrow> catalog \<Rightarrow> string" where
  "catalog_snapshot_digest h cat = manifests_digest h (catalog_manifests cat)"

definition lock_of :: "(json \<Rightarrow> string) \<Rightarrow> manifest list \<Rightarrow> resolution \<Rightarrow> package_lock option" where
  "lock_of h snapshot r = do {
     packages \<leftarrow> checked_list (locked_of h) (rl_packages r);
     lock_post_init (rl_roots r) packages (JStr (rl_os r)) (JStr (rl_arch r)) (JBool (rl_include_optional r))
       (JStr (manifests_digest h snapshot)) }"

definition resolve_to_lock ::
  "(json \<Rightarrow> string) \<Rightarrow> catalog \<Rightarrow> dependency list \<Rightarrow> string \<times> string \<Rightarrow> string option \<Rightarrow> string option \<Rightarrow> bool \<Rightarrow>
    package_error + package_lock" where
  "resolve_to_lock h cat requirements detected os arch optionals =
     (case new_catalog h [] (catalog_manifests cat) of
        None \<Rightarrow> Inl ResolutionErr
      | Some snapshot \<Rightarrow>
          (case resolve snapshot requirements detected os arch optionals of
             Inl _ \<Rightarrow> Inl LockErr
           | Inr r \<Rightarrow> (case lock_of h (catalog_manifests cat) r of None \<Rightarrow> Inl LockErr | Some lk \<Rightarrow> Inr lk)))"

section \<open>Verification\<close>

record package_store =
  st_os :: string
  st_arch :: string
  st_verify_installed :: "string \<Rightarrow> string \<Rightarrow> manifest option"

record lock_verification =
  lv_lock_digest :: string
  lv_catalog_digest :: string
  lv_packages_verified :: nat
  lv_store_verified :: bool
  lv_artifacts_verified :: bool

definition verification_to_dict :: "lock_verification \<Rightarrow> json" where
  "verification_to_dict x = JObj
     [(''lock_digest'', JStr (lv_lock_digest x)), (''catalog_snapshot_digest'', JStr (lv_catalog_digest x)),
      (''packages_verified'', JInt (int (lv_packages_verified x))), (''catalog_verified'', JBool True),
      (''store_verified'', JBool (lv_store_verified x)), (''artifacts_verified'', JBool (lv_artifacts_verified x)),
      (''entrypoint_executed'', JBool False), (''network_accessed'', JBool False)]"

definition installed_as_locked :: "(json \<Rightarrow> string) \<Rightarrow> package_store \<Rightarrow> locked_package \<Rightarrow> bool" where
  "installed_as_locked h st p =
     (case st_verify_installed st (lp_name p) (lp_version p) of
        None \<Rightarrow> False
      | Some m \<Rightarrow> manifest_digest h m = lp_manifest_digest p \<and> mf_kind m = lp_kind p
          \<and> sorted_platforms (mf_platforms m) = lp_platforms p)"

definition store_verified :: "(json \<Rightarrow> string) \<Rightarrow> package_lock \<Rightarrow> package_store option \<Rightarrow> bool" where
  "store_verified h lk store =
     (case store of
        None \<Rightarrow> True
      | Some st \<Rightarrow> st_os st = lk_os lk \<and> st_arch st = lk_arch lk
          \<and> list_all (installed_as_locked h st) (lk_packages lk))"

definition verify_lock ::
  "(json \<Rightarrow> string) \<Rightarrow> package_lock \<Rightarrow> catalog \<Rightarrow> string \<times> string \<Rightarrow> package_store option \<Rightarrow>
    package_error + lock_verification" where
  "verify_lock h lk cat detected store =
     (if catalog_snapshot_digest h cat \<noteq> lk_catalog_digest lk then Inl LockErr
      else case new_catalog h [] (catalog_manifests cat) of
        None \<Rightarrow> Inl ResolutionErr
      | Some snapshot \<Rightarrow>
          (case resolve_to_lock h snapshot (lk_roots lk) detected (Some (lk_os lk)) (Some (lk_arch lk))
                  (lk_include_optional lk) of
             Inl e \<Rightarrow> Inl e
           | Inr expected \<Rightarrow>
               if lock_to_dict expected \<noteq> lock_to_dict lk \<or> \<not> store_verified h lk store then Inl LockErr
               else Inr \<lparr>lv_lock_digest = lock_digest h lk, lv_catalog_digest = catalog_snapshot_digest h cat,
                         lv_packages_verified = length (lk_packages lk), lv_store_verified = store \<noteq> None,
                         lv_artifacts_verified = store \<noteq> None\<rparr>))"

section \<open>A catalog is what it holds\<close>

definition catalog_at :: "catalog \<Rightarrow> string \<Rightarrow> string \<Rightarrow> manifest option" where
  "catalog_at cat n v = map_of (entries (map_of cat n)) v"

lemma catalog_at_Nil [simp]: "catalog_at [] n v = None"
  by (simp add: catalog_at_def)

definition filed :: "catalog \<Rightarrow> bool" where
  "filed cat \<longleftrightarrow> distinct (map fst cat)
     \<and> (\<forall>n vs. map_of cat n = Some vs \<longrightarrow> vs \<noteq> [] \<and> distinct (map fst vs))
     \<and> (\<forall>n v m. catalog_at cat n v = Some m \<longrightarrow> mf_name m = n \<and> mf_version m = v)"

lemma catalog_add_Some:
  "catalog_add h cat m = Some cat' \<Longrightarrow>
     cat' = AList.update (mf_name m) (AList.update (mf_version m) m (entries (map_of cat (mf_name m)))) cat"
  by (auto simp: catalog_add_def Let_def split: option.splits if_splits)

lemma catalog_add_at:
  "catalog_add h cat m = Some cat' \<Longrightarrow>
     catalog_at cat' n v = (if n = mf_name m \<and> v = mf_version m then Some m else catalog_at cat n v)"
  by (drule catalog_add_Some) (simp add: catalog_at_def update_conv')

lemma catalog_add_filed:
  assumes "filed cat" and "catalog_add h cat m = Some cat'"
  shows "filed cat'"
proof -
  have "distinct (map fst (entries (map_of cat n)))" for n
    using assms(1) by (cases "map_of cat n") (auto simp: filed_def)
  then have shape: "distinct (map fst cat')" "\<forall>n vs. map_of cat' n = Some vs \<longrightarrow> vs \<noteq> [] \<and> distinct (map fst vs)"
    using assms(1) by (auto simp: catalog_add_Some [OF assms(2)] filed_def update_conv' distinct_update)
  from assms(1) have "\<forall>n v m. catalog_at cat' n v = Some m \<longrightarrow> mf_name m = n \<and> mf_version m = v"
    by (auto simp: filed_def catalog_add_at [OF assms(2)])
  with shape show ?thesis
    by (simp add: filed_def)
qed

lemma filed_Nil [simp]: "filed []"
  by (simp add: filed_def catalog_at_def)

lemma new_catalog_filed: "new_catalog h cat ms = Some cat' \<Longrightarrow> filed cat \<Longrightarrow> filed cat'"
  by (induction h cat ms rule: new_catalog.induct) (auto simp: bind_eq_Some_conv dest: catalog_add_filed)

definition filed_under :: "manifest \<Rightarrow> (string \<times> string) \<times> manifest" where
  "filed_under m = ((mf_name m, mf_version m), m)"

lemma new_catalog_at:
  "new_catalog h cat ms = Some cat' \<Longrightarrow>
     catalog_at cat' n v = (case map_of (rev (map filed_under ms)) (n, v) of Some m \<Rightarrow> Some m | None \<Rightarrow> catalog_at cat n v)"
  by (induction h cat ms rule: new_catalog.induct)
    (auto simp: bind_eq_Some_conv catalog_add_at filed_under_def map_add_def split: option.splits)

lemma new_catalog_total:
  "inj_on (fst \<circ> filed_under) (set ms) \<Longrightarrow>
     (\<And>m e. m \<in> set ms \<Longrightarrow> catalog_at cat (mf_name m) (mf_version m) = Some e \<Longrightarrow> e = m) \<Longrightarrow>
     new_catalog h cat ms \<noteq> None"
proof (induction ms arbitrary: cat)
  case (Cons m ms)
  have "catalog_add h cat m \<noteq> None"
    using Cons.prems(2) [of m] by (auto simp: catalog_add_def catalog_at_def Let_def split: option.splits)
  then obtain cat1 where cat1: "catalog_add h cat m = Some cat1"
    by blast
  have "new_catalog h cat1 ms \<noteq> None"
  proof (rule Cons.IH)
    show "inj_on (fst \<circ> filed_under) (set ms)"
      using Cons.prems(1) by (rule inj_on_subset) auto
    fix x e assume x: "x \<in> set ms" "catalog_at cat1 (mf_name x) (mf_version x) = Some e"
    show "e = x"
    proof (cases "mf_name x = mf_name m \<and> mf_version x = mf_version m")
      case True
      with x(1) Cons.prems(1) have "x = m"
        by (auto simp: inj_on_def filed_under_def)
      with True x(2) show ?thesis
        by (simp add: catalog_add_at [OF cat1])
    next
      case False
      with x Cons.prems(2) [of x e] show ?thesis
        by (auto simp: catalog_add_at [OF cat1])
    qed
  qed
  with cat1 show ?case
    by simp
qed simp

lemma catalog_at_iff:
  assumes "new_catalog h [] ms = Some cat" and "inj_on (fst \<circ> filed_under) (set ms)"
  shows "catalog_at cat n v = Some m \<longleftrightarrow> m \<in> set ms \<and> mf_name m = n \<and> mf_version m = v"
proof -
  have at: "catalog_at cat n v = map_of (rev (map filed_under ms)) (n, v)"
    by (simp add: new_catalog_at [OF assms(1)] split: option.split)
  have "(n, v) \<in> fst ` set (rev (map filed_under ms))" if "m \<in> set ms" "mf_name m = n" "mf_version m = v" for m
    using that by (force simp: filed_under_def)
  then have known: "\<exists>m'. map_of (rev (map filed_under ms)) (n, v) = Some m'"
    if "m \<in> set ms" "mf_name m = n" "mf_version m = v" for m
    using that map_of_eq_None_iff [of "rev (map filed_under ms)" "(n, v)"] by (metis not_None_eq)
  have held: "m' \<in> set ms" "mf_name m' = n" "mf_version m' = v"
    if "map_of (rev (map filed_under ms)) (n, v) = Some m'" for m'
    using map_of_SomeD [OF that] by (auto simp: filed_under_def)
  have "x = y" if "x \<in> set ms" "y \<in> set ms" "mf_name x = mf_name y" "mf_version x = mf_version y" for x y
    using that assms(2) by (simp add: inj_on_def filed_under_def)
  with known held show ?thesis
    unfolding at by metis
qed

lemma same_content:
  "(\<And>n v m. catalog_at cat n v = Some m \<longleftrightarrow> catalog_at cat' n v = Some m) \<Longrightarrow> catalog_at cat = catalog_at cat'"
  by (intro ext) (metis not_Some_eq)

lemma entries_at: "filed cat \<Longrightarrow> (v, m) \<in> set (entries (map_of cat n)) \<longleftrightarrow> catalog_at cat n v = Some m"
  by (cases "map_of cat n") (auto simp: filed_def catalog_at_def)

lemma set_versions_of: "filed cat \<Longrightarrow> set (versions_of cat n) = {m. \<exists>v. catalog_at cat n v = Some m}"
  by (force simp: versions_of_def entries_at [symmetric])

lemma versions_of_distinct:
  assumes "filed cat"
  shows "distinct (map mf_version (map snd (entries (map_of cat n))))"
proof -
  have "map mf_version (map snd (entries (map_of cat n))) = map fst (entries (map_of cat n))"
    using assms entries_at [OF assms] by (auto simp: filed_def)
  moreover have "distinct (map fst (entries (map_of cat n)))"
    using assms by (cases "map_of cat n") (auto simp: filed_def)
  ultimately show ?thesis
    by (simp only:)
qed

lemma sort_key_unique:
  assumes "distinct (map f xs)" and "distinct (map f ys)" and "set xs = set ys"
  shows "sort_key f xs = sort_key f ys"
proof (rule sort_key_inj_key_eq)
  show "mset xs = mset (sort_key f ys)"
    using assms by (simp add: set_eq_iff_mset_eq_distinct distinct_map)
  show "inj_on f (set xs)"
    using assms(1) by (simp add: distinct_map)
qed simp

lemma versions_same:
  assumes "filed cat" and "filed cat'" and "catalog_at cat = catalog_at cat'"
  shows "versions_of cat = versions_of cat'"
proof
  fix n
  have order: "distinct (map manifest_order (map snd (entries (map_of c n))))" if "filed c" for c
    using versions_of_distinct [OF that, of n] by (auto simp: distinct_map inj_on_def manifest_order_def)
  have "set (map snd (entries (map_of c n))) = {m. \<exists>v. catalog_at c n v = Some m}" if "filed c" for c
    using set_versions_of [OF that] by (simp add: versions_of_def)
  with assms show "versions_of cat n = versions_of cat' n"
    unfolding versions_of_def by (intro arg_cong [of _ _ rev] sort_key_unique order) simp_all
qed

lemma filed_names: "filed cat \<Longrightarrow> fst ` set cat = {n. \<exists>v m. catalog_at cat n v = Some m}"
proof (intro set_eqI iffI)
  fix n assume "filed cat" and "n \<in> fst ` set cat"
  then obtain vs where "map_of cat n = Some vs" "vs \<noteq> []"
    by (metis (mono_tags, lifting) filed_def map_of_eq_None_iff option.exhaust)
  then have "catalog_at cat n (fst (hd vs)) \<noteq> None"
    by (simp add: catalog_at_def map_of_eq_None_iff)
  then show "n \<in> {n. \<exists>v m. catalog_at cat n v = Some m}"
    by blast
next
  fix n assume "n \<in> {n. \<exists>v m. catalog_at cat n v = Some m}"
  then show "n \<in> fst ` set cat"
    by (cases "map_of cat n") (auto simp: catalog_at_def dest: map_of_SomeD intro: rev_image_eqI)
qed

lemma manifests_same:
  assumes "filed cat" and "filed cat'" and "catalog_at cat = catalog_at cat'"
  shows "catalog_manifests cat = catalog_manifests cat'"
proof -
  have "sort (map fst cat) = sort (map fst cat')"
    using assms(1,2) filed_names [OF assms(1)] filed_names [OF assms(2)] assms(3)
    by (intro sort_key_unique) (simp_all add: filed_def)
  then show ?thesis
    by (simp add: catalog_manifests_def versions_same [OF assms])
qed

lemma set_catalog_manifests: "filed cat \<Longrightarrow> set (catalog_manifests cat) = {m. \<exists>n v. catalog_at cat n v = Some m}"
  using filed_names [of cat] by (fastforce simp: catalog_manifests_def set_versions_of)

text \<open>The catalog built from the snapshot of a catalog holds the same.\<close>

lemma snapshot_same:
  assumes "filed cat"
  obtains s where "new_catalog h [] (catalog_manifests cat) = Some s" "filed s" "catalog_at s = catalog_at cat"
proof -
  have coords: "catalog_at cat (mf_name m) (mf_version m) = Some m" if "m \<in> set (catalog_manifests cat)" for m
    using that assms by (auto simp: set_catalog_manifests filed_def)
  then have inj: "inj_on (fst \<circ> filed_under) (set (catalog_manifests cat))"
    by (intro inj_onI) (simp add: filed_under_def, metis option.inject)
  from new_catalog_total [OF this, of "[]" h] obtain s where s: "new_catalog h [] (catalog_manifests cat) = Some s"
    by auto
  have "catalog_at s n v = Some m \<longleftrightarrow> catalog_at cat n v = Some m" for n v m
    unfolding catalog_at_iff [OF s inj] using assms coords by (auto simp: set_catalog_manifests filed_def)
  then show thesis
    using that s new_catalog_filed [OF s] same_content by simp
qed

section \<open>The resolver looks at versions only\<close>

lemma search_same:
  "versions_of cat = versions_of cat' \<Longrightarrow>
     search cat os arch optionals sel cons = search cat' os arch optionals sel cons"
  "versions_of cat = versions_of cat' \<Longrightarrow>
     search_each cat os arch optionals sel cons name ms = search_each cat' os arch optionals sel cons name ms"
proof (induction cat os arch optionals sel cons and cat os arch optionals sel cons name ms rule: search_search_each.induct)
  case (1 cat os arch optionals sel cons)
  show ?case
    unfolding search.simps(1) [of cat] search.simps(1) [of cat'] "1.prems"
    using "1.IH" "1.prems" by (auto split: option.split bool.split list.split)
next
  case (3 cat os arch optionals sel cons name m ms)
  then show ?case
    by (simp split: option.split)
qed simp

lemma resolve_same:
  assumes "versions_of cat = versions_of cat'"
  shows "resolve_roots cat roots detected os arch optionals = resolve_roots cat' roots detected os arch optionals"
  by (simp add: resolve_roots_def Let_def search_same(1) [OF assms])

section \<open>Locks\<close>

lemma sort_key_names:
  assumes "distinct (map f xs)"
  shows "sort_key (\<lambda>x. (f x, g x)) xs = sort_key f xs"
proof (rule sort_key_inj_key_eq)
  show "inj_on (\<lambda>x. (f x, g x)) (set xs)"
    using assms by (auto simp: distinct_map inj_on_def)
  have "sorted_wrt (<) (map f (sort_key f xs))"
    using assms by (simp add: strict_sorted_iff distinct_map)
  then show "sorted (map (\<lambda>x. (f x, g x)) (sort_key f xs))"
    by (auto simp: sorted_map sorted_wrt_map elim!: sorted_wrt_mono_rel [rotated])
qed simp

lemma lock_post_init_Some:
  "lock_post_init roots packages os arch optionals digest = Some x \<longleftrightarrow>
     boolean optionals = Some (lk_include_optional x) \<and> name_of os = Some (lk_os x) \<and> name_of arch = Some (lk_arch x) \<and>
     lk_os x \<noteq> ''any'' \<and> lk_arch x \<noteq> ''any'' \<and> roots \<noteq> [] \<and> distinct (map dp_name roots) \<and>
     packages \<noteq> [] \<and> distinct (map lp_name packages) \<and>
     list_all (\<lambda>d. dp_name d \<in> lp_name ` set packages) roots \<and>
     list_all (\<lambda>p. supports (lk_os x) (lk_arch x) (lp_platforms p)) packages \<and>
     normalize_sha256 digest = Some (lk_catalog_digest x) \<and>
     lk_roots x = sort_key (\<lambda>d. (dp_name d, dp_constraint d, dp_optional d)) roots \<and>
     lk_packages x = sort_key lp_name packages"
  by (cases x) (auto simp: lock_post_init_def bind_eq_Some_conv)

lemma lock_of_Some:
  "lock_of h ms r = Some lk \<longleftrightarrow> (\<exists>packages. checked_list (locked_of h) (rl_packages r) = Some packages \<and>
     lock_post_init (rl_roots r) packages (JStr (rl_os r)) (JStr (rl_arch r)) (JBool (rl_include_optional r))
       (JStr (manifests_digest h ms)) = Some lk)"
  by (simp add: lock_of_def bind_eq_Some_conv)

lemma platform_word_name:
  assumes "platform_word z d \<noteq> []"
  shows "name_of (JStr (platform_word z d)) = Some x \<Longrightarrow> x = platform_word z d"
    and "platform_word (Some (platform_word z d)) d' = platform_word z d"
  using assms by (auto simp: platform_word_def name_of_JStr py_strip_lower otext_def)

text \<open>SHA-256 in hexadecimal.\<close>

definition hex_digest :: "(json \<Rightarrow> string) \<Rightarrow> bool" where
  "hex_digest h \<longleftrightarrow> (\<forall>v. length (h v) = 64 \<and> list_all is_lower_hex (h v))"

lemma hex_digest_normal: "hex_digest h \<Longrightarrow> normalize_sha256 (JStr (''sha256:'' @ h v)) = Some (''sha256:'' @ h v)"
  using normalize_hex by (simp add: hex_digest_def)


lemma resolve_to_lock_Inr:
  assumes "filed cat" and "resolve_to_lock h cat requirements detected os arch optionals = Inr lk"
  obtains r where "resolve_roots cat (sorted_roots requirements) detected os arch optionals = Inr r"
    and "lock_of h (catalog_manifests cat) r = Some lk"
proof -
  obtain s where s: "new_catalog h [] (catalog_manifests cat) = Some s" "filed s" "catalog_at s = catalog_at cat"
    using snapshot_same [OF assms(1)] .
  from assms(2) s(1) obtain r where "resolve_roots s (sorted_roots requirements) detected os arch optionals = Inr r"
    "lock_of h (catalog_manifests cat) r = Some lk"
    by (auto simp: resolve_to_lock_def resolve_def split: option.splits sum.splits)
  with resolve_same [OF versions_same [OF s(2) assms(1) s(3)]] show thesis
    by (intro that) simp_all
qed

lemma resolve_to_lock_same:
  assumes "filed cat" and "resolve_roots cat (sorted_roots requirements) detected os arch optionals = Inr r"
    and "lock_of h (catalog_manifests cat) r = Some lk"
  shows "resolve_to_lock h cat requirements detected os arch optionals = Inr lk"
proof -
  obtain s where s: "new_catalog h [] (catalog_manifests cat) = Some s" "filed s" "catalog_at s = catalog_at cat"
    using snapshot_same [OF assms(1)] .
  from assms(2,3) s(1) resolve_same [OF versions_same [OF s(2) assms(1) s(3)]] show ?thesis
    by (simp add: resolve_to_lock_def resolve_def)
qed

lemma resolve_roots_Inr:
  assumes "resolve_roots cat roots detected os arch optionals = Inr r"
  shows "rl_roots r = roots" "rl_include_optional r = optionals"
    "rl_os r = platform_word os (fst detected)" "rl_arch r = platform_word arch (snd detected)"
    "rl_os r \<noteq> []" "rl_arch r \<noteq> []"
  using assms by (auto simp: resolve_roots_def Let_def split: option.splits if_splits)

lemma resolved_packages:
  assumes "filed cat" and "resolve_roots cat roots detected os arch optionals = Inr r" and "m \<in> set (rl_packages r)"
  shows "\<exists>n v. catalog_at cat n v = Some m"
proof -
  from assms(2) obtain sel order where found:
      "search cat (platform_word os (fst detected)) (platform_word arch (snd detected)) optionals [] (fold constrain roots [])
        = Some (Some (sel, order))"
    and "rl_packages r = List.map_filter (map_of sel) order"
    by (auto simp: resolve_roots_def Let_def split: option.splits if_splits)
  then obtain n where "map_of sel n = Some m"
    using assms(3) by (auto simp: List.map_filter_def)
  with search_result(1) [OF found] have "m \<in> set (versions_of cat n)"
    by (simp add: solution_def)
  with set_versions_of [OF assms(1)] show ?thesis
    by blast
qed

text \<open>What a lock records is enough to resolve it again.\<close>

lemma resolve_again:
  assumes "resolve_roots cat (sorted_roots requirements) detected os arch optionals = Inr r"
    and "lock_of h ms r = Some lk"
  shows "resolve_roots cat (sorted_roots (lk_roots lk)) detected' (Some (lk_os lk)) (Some (lk_arch lk))
    (lk_include_optional lk) = Inr r"
proof -
  note r = resolve_roots_Inr [OF assms(1)]
  from assms(2) have lk: "name_of (JStr (rl_os r)) = Some (lk_os lk)" "name_of (JStr (rl_arch r)) = Some (lk_arch lk)"
    "lk_include_optional lk = optionals" "distinct (map dp_name (rl_roots r))"
    "lk_roots lk = sort_key (\<lambda>d. (dp_name d, dp_constraint d, dp_optional d)) (rl_roots r)"
    by (auto simp: lock_of_Some lock_post_init_Some boolean_Some r(2))
  have same: "lk_os lk = rl_os r" "lk_arch lk = rl_arch r"
    using lk(1,2) r(3-6) by (auto intro: platform_word_name(1))
  have "lk_roots lk = sort_key dp_name (rl_roots r)"
    using lk(4) by (simp add: lk(5) sort_key_names)
  then have "sorted_roots (lk_roots lk) = sort_key dp_name (sort_key dp_name (rl_roots r))"
    using lk(4) by (simp add: sorted_roots_def sort_key_names distinct_map)
  also have "\<dots> = sort_key dp_name requirements"
    using lk(4) by (intro sort_key_unique) (simp_all add: r(1) sorted_roots_def distinct_map)
  also have "\<dots> = rl_roots r"
    using lk(4) by (simp add: r(1) sorted_roots_def sort_key_names distinct_map)
  finally have roots: "sorted_roots (lk_roots lk) = sorted_roots requirements"
    by (simp add: r(1))
  have "platform_word (Some (lk_os lk)) (fst detected') = rl_os r" "platform_word (Some (lk_arch lk)) (snd detected') = rl_arch r"
    unfolding same using platform_word_name(2) r(3-6) by auto
  with assms(1) roots r lk(3) show ?thesis
    by (simp add: resolve_roots_def Let_def)
qed

definition coordinates :: "manifest \<Rightarrow> string \<times> string" where
  "coordinates m = (mf_name m, mf_version m)"

lemma lock_of_same_manifests:
  assumes "hex_digest h" and "new_catalog h [] manifests = Some cat" and "new_catalog h [] manifests' = Some cat'"
    and "set manifests' = set manifests" and "inj_on coordinates (set manifests)"
    and "resolve_to_lock h cat requirements detected os arch optionals = Inr lk"
  obtains s where "new_catalog h [] (catalog_manifests cat') = Some s"
    and "resolve_to_lock h s (lk_roots lk) detected' (Some (lk_os lk)) (Some (lk_arch lk)) (lk_include_optional lk) = Inr lk"
    and "lk_catalog_digest lk = catalog_snapshot_digest h cat'"
proof -
  have filed: "filed cat" "filed cat'"
    using new_catalog_filed assms(2,3) by auto
  have inj: "inj_on (fst \<circ> filed_under) (set manifests)"
    using assms(5) by (simp add: coordinates_def filed_under_def inj_on_def)
  have at: "catalog_at cat' = catalog_at cat"
    using catalog_at_iff [OF assms(2) inj] catalog_at_iff [OF assms(3)] inj assms(4) by (intro same_content) simp
  have versions: "versions_of cat = versions_of cat'" and rows: "catalog_manifests cat = catalog_manifests cat'"
    by (rule versions_same [OF filed at [symmetric]], rule manifests_same [OF filed at [symmetric]])
  obtain r where r: "resolve_roots cat (sorted_roots requirements) detected os arch optionals = Inr r"
    and lk: "lock_of h (catalog_manifests cat) r = Some lk"
    using resolve_to_lock_Inr [OF filed(1) assms(6)] .
  obtain s where s: "new_catalog h [] (catalog_manifests cat') = Some s" "filed s" "catalog_at s = catalog_at cat'"
    using snapshot_same [OF filed(2)] .
  have "versions_of s = versions_of cat"
    using versions_same [OF s(2) filed(2) s(3)] versions by simp
  from resolve_same [OF this] have
    "resolve_roots s (sorted_roots (lk_roots lk)) detected' (Some (lk_os lk)) (Some (lk_arch lk)) (lk_include_optional lk) = Inr r"
    using resolve_again [OF r lk] by simp
  moreover have "lock_of h (catalog_manifests s) r = Some lk"
    using lk rows manifests_same [OF s(2) filed(2) s(3)] by simp
  moreover have "lk_catalog_digest lk = catalog_snapshot_digest h cat'"
    using lk hex_digest_normal [OF assms(1)]
    by (auto simp: lock_of_Some lock_post_init_Some catalog_snapshot_digest_def manifests_digest_def rows)
  ultimately show thesis
    using that [OF s(1) resolve_to_lock_same [OF s(2)]] by blast
qed

text \<open>C8. Locks are reproducible: a lock verifies against every catalog that holds the same manifests,
  in whatever order they were added and whatever the platform of the machine that verifies it.\<close>

theorem fresh_lock_verifies:
  assumes "hex_digest h" and "new_catalog h [] manifests = Some cat" and "new_catalog h [] manifests' = Some cat'"
    and "set manifests' = set manifests" and "inj_on coordinates (set manifests)"
    and "resolve_to_lock h cat requirements detected os arch optionals = Inr lk"
  shows "verify_lock h lk cat' detected' None = Inr
    \<lparr>lv_lock_digest = lock_digest h lk, lv_catalog_digest = lk_catalog_digest lk,
     lv_packages_verified = length (lk_packages lk), lv_store_verified = False, lv_artifacts_verified = False\<rparr>"
  by (rule lock_of_same_manifests [OF assms, of detected']) (simp add: verify_lock_def store_verified_def)

lemma checked_list_image: "checked_list f xs = Some ys \<Longrightarrow> Some ` set ys = f ` set xs"
  unfolding checked_list_Some by (induction rule: list_all2_induct) simp_all

lemma dict_inject:
  "inj dependency_to_dict" "inj platform_to_dict" "inj locked_to_dict" "inj lock_to_dict"
proof -
  show d: "inj dependency_to_dict" and p: "inj platform_to_dict"
    by (auto simp: inj_def dependency_to_dict_def platform_to_dict_def)
  show l: "inj locked_to_dict"
    by (auto simp: inj_def locked_to_dict_def inj_map_eq_map [OF p])
  show "inj lock_to_dict"
    by (auto simp: inj_def lock_to_dict_def inj_map_eq_map [OF l] inj_map_eq_map [OF d])
qed


text \<open>C9. A lock that verifies is sound: on its platform the versions it names, taken from the catalog,
  solve its requirements, each recorded with the digest of its manifest; and where a store was checked,
  every one of them is installed with a manifest of that digest, of the same kind and for the same platforms.\<close>

theorem verified_lock_is_a_solution:
  assumes "new_catalog h [] manifests = Some cat" and "verify_lock h lk cat detected store = Inr v"
  shows "\<exists>packages. solution cat (lk_os lk) (lk_arch lk) (lk_include_optional lk) (lk_roots lk) (packages_map packages)
     \<and> Some ` set (lk_packages lk) = locked_of h ` set packages
     \<and> (\<forall>st. store = Some st \<longrightarrow> list_all (installed_as_locked h st) (lk_packages lk))"
proof -
  have filed: "filed cat"
    using new_catalog_filed assms(1) by auto
  obtain s where s: "new_catalog h [] (catalog_manifests cat) = Some s" "filed s" "catalog_at s = catalog_at cat"
    using snapshot_same [OF filed] .
  from assms(2) s(1) obtain expected where
    "resolve_to_lock h s (lk_roots lk) detected (Some (lk_os lk)) (Some (lk_arch lk)) (lk_include_optional lk) = Inr expected"
    and "lock_to_dict expected = lock_to_dict lk" and installed: "store_verified h lk store"
    by (auto simp: verify_lock_def split: if_splits sum.splits)
  with dict_inject(4) have "resolve_to_lock h s (lk_roots lk) detected (Some (lk_os lk)) (Some (lk_arch lk))
      (lk_include_optional lk) = Inr lk"
    by (simp add: inj_eq)
  from resolve_to_lock_Inr [OF s(2) this] obtain r where
    r: "resolve_roots s (sorted_roots (lk_roots lk)) detected (Some (lk_os lk)) (Some (lk_arch lk)) (lk_include_optional lk) = Inr r"
    and lk: "lock_of h (catalog_manifests s) r = Some lk" .
  note made = resolve_roots_Inr [OF r]
  from lk obtain packages where packages: "checked_list (locked_of h) (rl_packages r) = Some packages"
      "lk_packages lk = sort_key lp_name packages" "distinct (map lp_name packages)"
    and named: "name_of (JStr (rl_os r)) = Some (lk_os lk)" "name_of (JStr (rl_arch r)) = Some (lk_arch lk)"
    by (auto simp: lock_of_Some lock_post_init_Some)
  have "lk_os lk = rl_os r" "lk_arch lk = rl_arch r"
    using named made(3-6) by (auto intro: platform_word_name(1))
  with resolution_is_a_solution [OF s(1) r] have
    "solution s (lk_os lk) (lk_arch lk) (lk_include_optional lk) (sorted_roots (lk_roots lk)) (packages_map (rl_packages r))"
    by simp
  then have "solution cat (lk_os lk) (lk_arch lk) (lk_include_optional lk) (lk_roots lk) (packages_map (rl_packages r))"
    by (simp add: solution_def sorted_roots_def versions_same [OF s(2) filed s(3)])
  moreover have "Some ` set (lk_packages lk) = locked_of h ` set (rl_packages r)"
    using checked_list_image [OF packages(1)] by (simp add: packages(2))
  ultimately show ?thesis
    using installed by (auto simp: store_verified_def)
qed


section \<open>Wire format\<close>

lemma locked_post_init_Some:
  "locked_post_init d platforms = Some x \<longleftrightarrow>
     name_of (dget0 d ''name'') = Some (lp_name x) \<and> plain_string (dget0 d ''version'') = Some (lp_version x) \<and>
     version_tuple (lp_version x) \<noteq> None \<and> name_of (dget0 d ''kind'') = Some (lp_kind x) \<and>
     lp_kind x \<in> set package_kinds \<and> distinct (map (\<lambda>p. (pf_os p, pf_arch p)) platforms) \<and>
     normalize_sha256 (dget0 d ''manifest_digest'') = Some (lp_manifest_digest x) \<and>
     lp_platforms x = sorted_platforms platforms"
  by (cases x) (auto simp: locked_post_init_def bind_eq_Some_conv)

lemma sort_key_again: "sort_key f (sort_key f xs) = sort_key f xs"
  by (rule properties_for_sort_key) simp_all

lemma sort_key_empty [simp]: "sort_key f xs = [] \<longleftrightarrow> xs = []"
  by (metis set_sort set_empty)

context wire
begin

lemma elements:
  assumes "\<And>x. x \<in> set xs \<Longrightarrow> \<exists>v. dec v = Some x"
  shows "checked_list dec (map (canon \<circ> enc) xs) = Some xs" and "list_all (\<lambda>x. no_dup_keys (enc x)) xs"
  using assms canonical clean by (force intro!: checked_list_map simp: list_all_iff)+

end

lemma checked_list_elem: "checked_list f vs = Some xs \<Longrightarrow> x \<in> set xs \<Longrightarrow> \<exists>v. f v = Some x"
  by (auto simp: checked_list_Some list_all2_conv_all_nth in_set_conv_nth)

lemma plain_string_Some: "plain_string v = Some s \<longleftrightarrow> v = JStr s"
  by (cases v) (simp_all add: plain_string_def)

text \<open>A locked package with readable platforms, and a lock with readable parts, is read back from its text.\<close>

lemma locked_again:
  assumes "locked_post_init d platforms = Some x" and "\<And>p. p \<in> set platforms \<Longrightarrow> \<exists>v. platform_from_dict v = Some p"
  shows "locked_from_dict (canon (locked_to_dict x)) = Some x" and "no_dup_keys (locked_to_dict x)"
proof -
  note made = assms(1) [unfolded locked_post_init_Some]
  have "\<exists>v. platform_from_dict v = Some p" if "p \<in> set (lp_platforms x)" for p
    using that made assms(2) by (simp add: sorted_platforms_def)
  note again = platform_wire.elements [OF this]
  have "sorted_platforms (lp_platforms x) = lp_platforms x"
    using made by (simp add: sorted_platforms_def sort_key_again)
  moreover have "distinct (map (\<lambda>p. (pf_os p, pf_arch p)) (lp_platforms x))"
    using made by (auto simp: sorted_platforms_def distinct_map)
  moreover have "name_of (JStr (lp_name x)) = Some (lp_name x)" "name_of (JStr (lp_kind x)) = Some (lp_kind x)"
    "normalize_sha256 (JStr (lp_manifest_digest x)) = Some (lp_manifest_digest x)"
    using made by (auto intro: name_of_again normalize_again)
  ultimately show "locked_from_dict (canon (locked_to_dict x)) = Some x"
    using made again(1)
    by (simp add: wire_simps locked_from_dict_def locked_post_init_Some locked_to_dict_def locked_fields_def
        json_array_def plain_string_Some comp_def)
  show "no_dup_keys (locked_to_dict x)"
    using again(2) by (simp add: locked_to_dict_def no_dup_array del: no_dup_keys.simps(6))
qed

interpretation locked_wire: wire locked_from_dict locked_to_dict
proof
  fix v x assume "locked_from_dict v = Some x"
  then obtain d vs platforms where x: "locked_post_init d platforms = Some x"
    and "checked_list platform_from_dict vs = Some platforms"
    by (auto simp: locked_from_dict_def bind_eq_Some_conv json_array_Some)
  from locked_again [OF x checked_list_elem [OF this(2)]]
  show "locked_from_dict (canon (locked_to_dict x)) = Some x" "no_dup_keys (locked_to_dict x)"
    by simp_all
qed (simp add: locked_to_dict_def)

lemma lock_again:
  assumes "lock_post_init roots packages os arch optionals digest = Some x"
    and "\<And>r. r \<in> set roots \<Longrightarrow> \<exists>v. dependency_from_dict v = Some r"
    and "\<And>p. p \<in> set packages \<Longrightarrow> \<exists>v. locked_from_dict v = Some p"
  shows "lock_from_dict (canon (lock_to_dict x)) = Some x" and "no_dup_keys (lock_to_dict x)"
proof -
  note made = assms(1) [unfolded lock_post_init_Some]
  have "\<exists>v. dependency_from_dict v = Some r" if "r \<in> set (lk_roots x)" for r
    using that made assms(2) by simp
  note roots_again = dependency_wire.elements [OF this]
  have "\<exists>v. locked_from_dict v = Some p" if "p \<in> set (lk_packages x)" for p
    using that made assms(3) by simp
  note packages_again = locked_wire.elements [OF this]
  have "lock_post_init (lk_roots x) (lk_packages x) (JStr (lk_os x)) (JStr (lk_arch x)) (JBool (lk_include_optional x))
      (JStr (lk_catalog_digest x)) = Some x"
    using made by (auto simp: lock_post_init_Some sort_key_again boolean_Some distinct_map list_all_iff
        intro: name_of_again normalize_again)
  with roots_again(1) packages_again(1) show "lock_from_dict (canon (lock_to_dict x)) = Some x"
    by (simp add: wire_simps lock_from_dict_def lock_to_dict_def lock_fields_def json_array_def comp_def)
  show "no_dup_keys (lock_to_dict x)"
    using roots_again(2) packages_again(2) by (simp add: lock_to_dict_def no_dup_array del: no_dup_keys.simps(6))
qed

interpretation lock_wire: wire lock_from_dict lock_to_dict
proof
  fix v x assume "lock_from_dict v = Some x"
  then obtain d platform ds ps roots packages where
    x: "lock_post_init roots packages (dget0 platform ''os'') (dget0 platform ''arch'') (dget0 d ''include_optional'')
       (dget0 d ''catalog_snapshot_digest'') = Some x"
    and "checked_list dependency_from_dict ds = Some roots" "checked_list locked_from_dict ps = Some packages"
    by (auto simp: lock_from_dict_def bind_eq_Some_conv json_array_Some)
  from lock_again [OF x checked_list_elem [OF this(2)] checked_list_elem [OF this(3)]]
  show "lock_from_dict (canon (lock_to_dict x)) = Some x" "no_dup_keys (lock_to_dict x)"
    by simp_all
qed (simp add: lock_to_dict_def)

text \<open>What the catalog loaded, what the caller asked for, and what is therefore in the lock, was read.\<close>

lemma catalog_holds: "new_catalog h [] ms = Some cat \<Longrightarrow> catalog_at cat n v = Some m \<Longrightarrow> m \<in> set ms"
  by (auto simp: new_catalog_at filed_under_def dest!: map_of_SomeD split: option.splits)

lemma manifest_platform_read:
  "load_manifest_json stdlib v = Some m \<Longrightarrow> p \<in> set (mf_platforms m) \<Longrightarrow> \<exists>w. platform_from_dict w = Some p"
  by (auto simp: load_manifest_json_def manifest_from_dict_def bind_eq_Some_conv json_array_Some
      manifest_post_init_Some dest: checked_list_elem)

text \<open>C10. A lock file never loses anything: the text of a lock that was made from manifests and
  requirements that were read is read back as the same lock.\<close>

theorem written_lock_is_read_back:
  assumes "\<forall>m \<in> set manifests. \<exists>v. load_manifest_json stdlib v = Some m"
    and "\<forall>d \<in> set requirements. \<exists>v. dependency_from_dict v = Some d"
    and "new_catalog h [] manifests = Some cat"
    and "resolve_to_lock h cat requirements detected os arch optionals = Inr lk"
  shows "from_json lock_from_dict (to_json lock_to_dict lk) = Some lk"
proof -
  have filed: "filed cat"
    using new_catalog_filed assms(3) by auto
  obtain r where r: "resolve_roots cat (sorted_roots requirements) detected os arch optionals = Inr r"
    and lk: "lock_of h (catalog_manifests cat) r = Some lk"
    using resolve_to_lock_Inr [OF filed assms(4)] .
  obtain packages where packages: "checked_list (locked_of h) (rl_packages r) = Some packages"
    and made: "lock_post_init (rl_roots r) packages (JStr (rl_os r)) (JStr (rl_arch r)) (JBool (rl_include_optional r))
       (JStr (manifests_digest h (catalog_manifests cat))) = Some lk"
    using lk by (auto simp: lock_of_Some)
  have "\<exists>v. locked_from_dict v = Some p" if "p \<in> set packages" for p
  proof -
    from that checked_list_image [OF packages] obtain m where m: "m \<in> set (rl_packages r)" "locked_of h m = Some p"
      by force
    then have "m \<in> set manifests"
      using resolved_packages [OF filed r] catalog_holds [OF assms(3)] by blast
    then obtain v where "load_manifest_json stdlib v = Some m"
      using assms(1) by blast
    from locked_again(1) [OF m(2) [unfolded locked_of_def] manifest_platform_read [OF this]] show ?thesis ..
  qed
  moreover have "\<exists>v. dependency_from_dict v = Some d" if "d \<in> set (rl_roots r)" for d
    using that assms(2) by (simp add: resolve_roots_Inr(1) [OF r] sorted_roots_def)
  ultimately have "lock_from_dict (canon (lock_to_dict lk)) = Some lk"
    by (intro lock_again(1) [OF made]) blast+
  then have "from_json lock_from_dict (to_json lock_to_dict lk) = Some lk"
    by (rule lock_wire.round_trip)
  then show ?thesis .
qed



definition sample_hash :: "json \<Rightarrow> string" where
  "sample_hash _ = replicate 64 (CHR ''a'')"


definition pair_manifests :: "manifest list" where
  "pair_manifests = [sample_manifest ''app'' ''2.0.0'' [sample_need ''lib'' ''>1.0.0''], sample_manifest ''lib'' ''1.1.0'' []]"

definition pair_catalog :: catalog where
  "pair_catalog = [(''app'', [(''2.0.0'', hd pair_manifests)]), (''lib'', [(''1.1.0'', last pair_manifests)])]"

lemma pair_new: "new_catalog sample_hash [] pair_manifests = Some pair_catalog"
  by code_simp

definition sample_store :: package_store where
  "sample_store = \<lparr>st_os = ''linux'', st_arch = ''arm'', st_verify_installed = catalog_at pair_catalog\<rparr>"

definition sample_digest :: string where
  "sample_digest = ''sha256:'' @ replicate 64 (CHR ''a'')"

definition sample_lock :: package_lock where
  "sample_lock =
     \<lparr>lk_roots = [sample_need ''app'' ''*''],
      lk_packages =
        [\<lparr>lp_name = ''app'', lp_version = ''2.0.0'', lp_manifest_digest = sample_digest, lp_kind = ''bundle'', lp_platforms = []\<rparr>,
         \<lparr>lp_name = ''lib'', lp_version = ''1.1.0'', lp_manifest_digest = sample_digest, lp_kind = ''bundle'', lp_platforms = []\<rparr>],
      lk_os = ''linux'', lk_arch = ''arm'', lk_include_optional = False, lk_catalog_digest = sample_digest\<rparr>"

lemma sample_lock_made:
  "resolve_to_lock sample_hash pair_catalog [sample_need ''app'' ''*''] (''linux'', ''arm'') None None False = Inr sample_lock"
  by code_simp

lemma pair_coordinates: "inj_on coordinates (set pair_manifests)"
  by (simp add: inj_on_def pair_manifests_def sample_manifest_def coordinates_def)

lemma sample_hash_hex: "hex_digest sample_hash"
  by (simp add: hex_digest_def sample_hash_def is_lower_hex_def list_all_iff)

theorem fresh_lock_verifies_witness:
  "verify_lock sample_hash sample_lock pair_catalog (''darwin'', ''x86'') None = Inr
    \<lparr>lv_lock_digest = lock_digest sample_hash sample_lock, lv_catalog_digest = sample_digest,
     lv_packages_verified = 2, lv_store_verified = False, lv_artifacts_verified = False\<rparr>"
  using fresh_lock_verifies [OF sample_hash_hex pair_new pair_new refl pair_coordinates sample_lock_made]
  by (simp add: sample_lock_def)

lemma sample_lock_verified: "\<exists>v. verify_lock sample_hash sample_lock pair_catalog (''linux'', ''arm'') (Some sample_store) = Inr v"
proof -
  have stored: "store_verified sample_hash sample_lock (Some sample_store)"
    by code_simp
  show ?thesis
    by (rule lock_of_same_manifests [OF sample_hash_hex pair_new pair_new refl pair_coordinates sample_lock_made,
        of "(''linux'', ''arm'')"])
      (simp add: verify_lock_def stored)
qed

theorem verified_lock_is_a_solution_witness:
  "\<exists>packages. solution pair_catalog ''linux'' ''arm'' False [sample_need ''app'' ''*''] (packages_map packages)
     \<and> Some ` set (lk_packages sample_lock) = locked_of sample_hash ` set packages"
proof -
  obtain v where "verify_lock sample_hash sample_lock pair_catalog (''linux'', ''arm'') (Some sample_store) = Inr v"
    using sample_lock_verified ..
  from verified_lock_is_a_solution [OF pair_new this] show ?thesis
    by (auto simp: sample_lock_def)
qed

theorem written_lock_is_read_back_witness:
  "from_json lock_from_dict (to_json lock_to_dict sample_lock) = Some sample_lock"
proof -
  have "\<forall>m \<in> set pair_manifests. load_manifest_json [] (manifest_to_dict m) = Some m"
    unfolding pair_manifests_def list.set ball_simps by (intro conjI) code_simp+
  moreover have "\<forall>d \<in> set [sample_need ''app'' ''*'']. dependency_from_dict (dependency_to_dict d) = Some d"
    unfolding list.set ball_simps by (intro conjI) code_simp+
  ultimately show ?thesis
    using written_lock_is_read_back [OF _ _ pair_new sample_lock_made, of "[]"] by blast
qed

end
