(* ===== verification/Waves.thy ===== *)
theory Waves
  imports ContractChecks
begin

text \<open>
  The task graph of a mission (\<open>domain/mission.py\<close>): \<open>compute_waves\<close>, which sorts the nodes of a
  task graph into waves that may run side by side, and reports what no wave can hold.

  The graph is the list of its edges from a dependency to the node that needs it, a repeated
  dependency being a repeated edge. \<open>indegree\<close> is a dictionary of counters, here a function.
\<close>

section \<open>The computation\<close>

type_synonym edges = "(string \<times> string) list"

definition children :: "edges \<Rightarrow> string \<Rightarrow> string list" where
  "children E n = map snd (filter (\<lambda>e. fst e = n) E)"

definition indegree :: "edges \<Rightarrow> string \<Rightarrow> int" where
  "indegree E n = int (length (filter (\<lambda>e. snd e = n) E))"

text \<open>The inner loops: every child counts down, and those that reach zero are collected.\<close>

fun release :: "string list \<Rightarrow> (string \<Rightarrow> int) \<Rightarrow> string list \<Rightarrow> (string \<Rightarrow> int) \<times> string list" where
  "release [] degree ready = (degree, ready)"
| "release (c # cs) degree ready =
     (let degree' = degree(c := degree c - 1)
      in release cs degree' (if degree' c = 0 then c # ready else ready))"

lemma release_degree: "fst (release cs degree ready) c = degree c - int (count_list cs c)"
  by (induction cs arbitrary: degree ready) (simp_all add: Let_def)

lemma release_ready:
  "x \<in> set (snd (release cs degree ready)) \<longleftrightarrow> x \<in> set ready \<or> 1 \<le> degree x \<and> degree x \<le> int (count_list cs x)"
  by (induction cs arbitrary: degree ready) (auto simp: Let_def)

definition open_degrees :: "edges \<Rightarrow> (string \<Rightarrow> int) \<Rightarrow> nat" where
  "open_degrees E degree = (\<Sum>c \<in> snd ` set E. nat (degree c))"

lemma released_children: "set (concat (map (children E) ns)) \<subseteq> snd ` set E"
  by (auto simp: children_def)

lemma release_pending:
  assumes "set cs \<subseteq> snd ` set E" and "snd (release cs degree []) \<noteq> []"
  shows "open_degrees E (fst (release cs degree [])) < open_degrees E degree"
proof -
  from assms(2) obtain c where c: "c \<in> set (snd (release cs degree []))"
    by (meson last_in_set)
  then have "c \<in> set cs" "1 \<le> degree c" "degree c \<le> int (count_list cs c)"
    using count_list_0_iff [of cs c] by (auto simp: release_ready)
  then show ?thesis
    unfolding open_degrees_def
    using assms(1) by (intro sum_strict_mono_ex1 bexI [of _ c]) (auto simp: release_degree)
qed

lemma release_pending_le: "open_degrees E (fst (release cs degree ready)) \<le> open_degrees E degree"
  unfolding open_degrees_def by (rule sum_mono) (simp add: release_degree)

function waves_from :: "edges \<Rightarrow> (string \<Rightarrow> int) \<Rightarrow> string list \<Rightarrow> string list list \<Rightarrow> string list list \<times> (string \<Rightarrow> int)" where
  "waves_from E degree ready waves =
     (if ready = [] then (waves, degree)
      else let released = release (concat (map (children E) ready)) degree []
           in waves_from E (fst released) (sort (remdups (snd released))) (waves @ [sort ready]))"
  by pat_completeness auto

termination
proof (relation "measures [\<lambda>(E, degree, _, _). open_degrees E degree, \<lambda>(_, _, ready, _). if ready = [] then 0 else 1]", goal_cases)
  case (2 E degree ready waves released)
  show ?case
    using release_pending [OF released_children, of E ready degree]
      release_pending_le [of E "concat (map (children E) ready)" degree "[]"]
    using 2 by (cases "snd released = []") (auto simp: le_less)
qed simp

section \<open>Waves are layers\<close>

definition unmet :: "edges \<Rightarrow> string set \<Rightarrow> string \<Rightarrow> nat" where
  "unmet E D n = length (filter (\<lambda>e. snd e = n \<and> fst e \<notin> D) E)"

text \<open>Every node is in the first wave behind all it depends on.\<close>

definition layered :: "('a \<times> 'a) set \<Rightarrow> 'a list list \<Rightarrow> bool" where
  "layered E waves \<longleftrightarrow> (\<forall>xs w ys. waves = xs @ w # ys \<longrightarrow>
     (\<forall>n \<in> set w. E\<inverse> `` {n} \<subseteq> set (concat xs) \<and> (xs \<noteq> [] \<longrightarrow> E\<inverse> `` {n} \<inter> set (last xs) \<noteq> {})))"

lemma layered_Nil [simp]: "layered E []"
  by (simp add: layered_def)

lemma layered_snoc:
  "layered E (waves @ [w]) \<longleftrightarrow> layered E waves
     \<and> (\<forall>n \<in> set w. E\<inverse> `` {n} \<subseteq> set (concat waves) \<and> (waves \<noteq> [] \<longrightarrow> E\<inverse> `` {n} \<inter> set (last waves) \<noteq> {}))"
  (is "?l \<longleftrightarrow> layered E waves \<and> ?new")
proof
  assume l: "layered E waves \<and> ?new"
  show ?l
    unfolding layered_def
  proof (intro allI impI)
    fix xs v ys assume split: "waves @ [w] = xs @ v # ys"
    show "\<forall>n \<in> set v. E\<inverse> `` {n} \<subseteq> set (concat xs) \<and> (xs \<noteq> [] \<longrightarrow> E\<inverse> `` {n} \<inter> set (last xs) \<noteq> {})"
      using split l by (cases ys rule: rev_cases) (auto simp: layered_def)
  qed
next
  assume l: ?l
  have "waves = xs @ v # ys \<Longrightarrow> waves @ [w] = xs @ v # (ys @ [w])" for xs v ys
    by simp
  with l show "layered E waves \<and> ?new"
    unfolding layered_def by blast
qed

lemma unmet_zero: "unmet E D n = 0 \<longleftrightarrow> (set E)\<inverse> `` {n} \<subseteq> D"
  by (auto simp: unmet_def filter_empty_conv)

lemma count_children: "count_list (children E d) n = length (filter (\<lambda>e. snd e = n \<and> fst e = d) E)"
  unfolding children_def by (induction E) auto

lemma count_released:
  "distinct ns \<Longrightarrow> count_list (concat (map (children E) ns)) n = length (filter (\<lambda>e. snd e = n \<and> fst e \<in> set ns) E)"
proof (induction ns)
  case (Cons d ns)
  then have "d \<notin> set ns"
    by simp
  then have "length (filter (\<lambda>e. snd e = n \<and> fst e \<in> set (d # ns)) E)
      = length (filter (\<lambda>e. snd e = n \<and> fst e = d) E) + length (filter (\<lambda>e. snd e = n \<and> fst e \<in> set ns) E)"
    by (induction E) auto
  with Cons show ?case
    by (simp add: count_children)
qed simp

lemma unmet_released:
  assumes "distinct ready" and "set ready \<inter> D = {}"
  shows "unmet E D n = unmet E (D \<union> set ready) n + count_list (concat (map (children E) ready)) n"
  unfolding count_released [OF assms(1)] unmet_def using assms(2) by (induction E) auto

lemma waves_from_layers:
  assumes "waves_from E degree ready waves = (ws, left)"
    and "\<And>n. degree n = int (unmet E (set (concat waves)) n)"
    and "set ready = {n \<in> V. unmet E (set (concat waves)) n = 0} - set (concat waves)" and "distinct ready"
    and "set (concat waves) \<subseteq> V" and "distinct (concat waves)" and "layered (set E) waves"
    and "\<And>n. n \<in> set ready \<Longrightarrow> waves \<noteq> [] \<Longrightarrow> (set E)\<inverse> `` {n} \<inter> set (last waves) \<noteq> {}"
    and "snd ` set E \<subseteq> V"
  shows "layered (set E) ws \<and> distinct (concat ws) \<and> set (concat ws) \<subseteq> V
    \<and> (\<forall>n. left n = int (unmet E (set (concat ws)) n)) \<and> (\<forall>n \<in> V. unmet E (set (concat ws)) n = 0 \<longrightarrow> n \<in> set (concat ws))"
  using assms
proof (induction E degree ready waves rule: waves_from.induct)
  case (1 E degree ready waves)
  show ?case
  proof (cases "ready = []")
    case True
    with 1 show ?thesis
      by auto
  next
    case False
    define D where "D = set (concat waves)"
    define released where "released = release (concat (map (children E) ready)) degree []"
    define D' where "D' = D \<union> set ready"
    have D': "set (concat (waves @ [sort ready])) = D'"
      by (simp add: D'_def D_def)
    have ready: "set ready = {n \<in> V. unmet E D n = 0} - D"
      using "1.prems"(3) by (simp only: D_def)
    have degree: "degree n = int (unmet E D n)" for n
      using "1.prems"(2) by (simp add: D_def)
    have count: "unmet E D n = unmet E D' n + count_list (concat (map (children E) ready)) n" for n
      unfolding D'_def using ready by (intro unmet_released "1.prems"(4)) auto
    have degree': "fst released n = int (unmet E D' n)" for n
      by (simp add: released_def release_degree degree count)
    have freed: "n \<in> set (snd released) \<longleftrightarrow> unmet E D n \<noteq> 0 \<and> unmet E D' n = 0" for n
      using count [of n] by (auto simp: released_def release_ready degree)
    have settled: "unmet E D n = 0" if "n \<in> D" for n
    proof -
      from that obtain xs w ys where "waves = xs @ w # ys" "n \<in> set w"
        by (auto simp: D_def dest: split_list)
      with "1.prems"(7) show ?thesis
        unfolding unmet_zero D_def layered_def by fastforce
    qed
    have node: "n \<in> V" if "unmet E D n \<noteq> 0" for n
      using that "1.prems"(9) by (auto simp: unmet_def filter_empty_conv)
    show ?thesis
    proof (rule "1.IH" [OF False released_def])
      show "waves_from E (fst released) (sort (remdups (snd released))) (waves @ [sort ready]) = (ws, left)"
        using "1.prems"(1) False by (simp add: released_def Let_def)
      show "fst released n = int (unmet E (set (concat (waves @ [sort ready]))) n)" for n
        unfolding D' by (rule degree')
      show "set (sort (remdups (snd released)))
          = {n \<in> V. unmet E (set (concat (waves @ [sort ready]))) n = 0} - set (concat (waves @ [sort ready]))"
        unfolding D' set_sort set_remdups using ready freed settled node by (auto simp: D'_def)
      show "layered (set E) (waves @ [sort ready])"
        using "1.prems"(7,8) ready by (auto simp: layered_snoc D_def unmet_zero)
      show "(set E)\<inverse> `` {n} \<inter> set (last (waves @ [sort ready])) \<noteq> {}" if "n \<in> set (sort (remdups (snd released)))" for n
        using that freed [of n] unfolding unmet_zero by (auto simp: D'_def)
      show "set (concat (waves @ [sort ready])) \<subseteq> V"
        using "1.prems"(3,5) by auto
      show "distinct (concat (waves @ [sort ready]))"
        using "1.prems"(3,4,6) by auto
    qed (simp_all add: "1.prems"(9))
  qed
qed

section \<open>What no wave holds lies behind a cycle\<close>

lemma layered_ancestors:
  assumes "layered R ws" and "(m, n) \<in> R\<^sup>*" and "n \<in> set (concat ws)"
  shows "m \<in> set (concat ws)"
  using assms(2)
proof (induction rule: converse_rtrancl_induct)
  case (step y z)
  then obtain xs w ys where "ws = xs @ w # ys" "z \<in> set w"
    by (auto dest: split_list)
  with assms(1) step(1) have "y \<in> set (concat xs)"
    unfolding layered_def by blast
  with \<open>ws = xs @ w # ys\<close> show ?case
    by simp
qed (rule assms(3))

lemma layered_no_cycle: "layered R ws \<Longrightarrow> n \<in> set (concat ws) \<Longrightarrow> (n, n) \<notin> R\<^sup>+"
proof (induction ws arbitrary: n rule: rev_induct)
  case (snoc w ws)
  have ws: "layered R ws" and w: "\<And>k. k \<in> set w \<Longrightarrow> R\<inverse> `` {k} \<subseteq> set (concat ws)"
    using snoc.prems(1) by (auto simp: layered_snoc)
  show ?case
  proof
    assume cycle: "(n, n) \<in> R\<^sup>+"
    then obtain p where p: "(n, p) \<in> R\<^sup>*" "(p, n) \<in> R"
      by (meson tranclD2)
    have "n \<in> set (concat ws)"
    proof (cases "n \<in> set w")
      case True
      with w p(2) have "p \<in> set (concat ws)"
        by blast
      with layered_ancestors [OF ws p(1)] show ?thesis .
    qed (use snoc.prems(2) in simp)
    with snoc.IH [OF ws] cycle show False
      by blast
  qed
qed simp

lemma cycle_behind:
  assumes "finite L" and "\<And>x. x \<in> L \<Longrightarrow> \<exists>y \<in> L. (y, x) \<in> R" and "n \<in> L"
  shows "\<exists>m. (m, m) \<in> R\<^sup>+ \<and> (m, n) \<in> R\<^sup>*"
proof (rule ccontr)
  assume none: "\<nexists>m. (m, m) \<in> R\<^sup>+ \<and> (m, n) \<in> R\<^sup>*"
  define A where "A = {x \<in> L. (x, n) \<in> R\<^sup>*}"
  define Q where "Q = R \<inter> A \<times> A"
  have "(x, y) \<in> R\<^sup>+ \<and> x \<in> A" if "(x, y) \<in> Q\<^sup>+" for x y
    using that by (induction rule: trancl_induct) (auto simp: Q_def intro: trancl_into_trancl)
  with none have "acyclic Q"
    by (auto simp: acyclic_def A_def)
  moreover have "finite Q"
    using assms(1) unfolding Q_def A_def by (intro finite_Int) simp
  ultimately have "wf Q"
    by (rule finite_acyclic_wf [rotated])
  moreover have "n \<in> A"
    using assms(3) by (simp add: A_def)
  ultimately obtain z where z: "z \<in> A" "\<And>y. (y, z) \<in> Q \<Longrightarrow> y \<notin> A"
    unfolding wf_eq_minimal by blast
  then obtain y where y: "y \<in> L" "(y, z) \<in> R"
    using assms(2) [of z] by (auto simp: A_def)
  with z(1) have "y \<in> A"
    by (auto simp: A_def intro: converse_rtrancl_into_rtrancl)
  moreover from this y(2) z(1) have "(y, z) \<in> Q"
    by (simp add: Q_def)
  ultimately show False
    using z(2) by blast
qed

section \<open>The waves of a graph\<close>

definition graph_waves :: "string list \<Rightarrow> edges \<Rightarrow> string list list \<times> string list" where
  "graph_waves ids E =
     (let (waves, left) = waves_from E (indegree E) (sort (filter (\<lambda>n. indegree E n = 0) (remdups ids))) []
      in (waves, sort (filter (\<lambda>n. 0 < left n) (remdups ids))))"

lemma graph_waves_layers:
  assumes "graph_waves ids E = (waves, stuck)" and "fst ` set E \<union> snd ` set E \<subseteq> set ids"
  shows "layered (set E) waves" and "distinct (concat waves)" and "set (concat waves) = set ids - set stuck"
    and "set stuck = {n \<in> set ids. \<exists>m. (m, m) \<in> (set E)\<^sup>+ \<and> (m, n) \<in> (set E)\<^sup>*}"
    and "distinct stuck" and "sorted stuck"
proof -
  let ?ready = "sort (filter (\<lambda>n. indegree E n = 0) (remdups ids))"
  obtain left where loop: "waves_from E (indegree E) ?ready [] = (waves, left)"
    and stuck: "stuck = sort (filter (\<lambda>n. 0 < left n) (remdups ids))"
    using assms(1) by (auto simp: graph_waves_def split: prod.splits)
  have degree: "indegree E n = int (unmet E {} n)" for n
    by (simp add: indegree_def unmet_def)
  have "layered (set E) waves \<and> distinct (concat waves) \<and> set (concat waves) \<subseteq> set ids
    \<and> (\<forall>n. left n = int (unmet E (set (concat waves)) n)) \<and> (\<forall>n \<in> set ids. unmet E (set (concat waves)) n = 0 \<longrightarrow> n \<in> set (concat waves))"
    using assms(2) by (intro waves_from_layers [OF loop]) (auto simp: degree)
  then have facts: "layered (set E) waves" "distinct (concat waves)" "set (concat waves) \<subseteq> set ids"
    "\<And>n. left n = int (unmet E (set (concat waves)) n)"
    "\<And>n. n \<in> set ids \<Longrightarrow> unmet E (set (concat waves)) n = 0 \<Longrightarrow> n \<in> set (concat waves)"
    by simp_all
  show "layered (set E) waves" "distinct (concat waves)"
    by (rule facts)+
  show "distinct stuck" "sorted stuck"
    by (simp_all add: stuck)
  have met: "unmet E (set (concat waves)) n = 0" if "n \<in> set (concat waves)" for n
    unfolding unmet_zero using layered_ancestors [OF facts(1) _ that] by blast
  have "n \<in> set stuck \<longleftrightarrow> n \<in> set ids \<and> unmet E (set (concat waves)) n \<noteq> 0" for n
    by (simp add: stuck facts(4))
  with met facts(3,5) show held: "set (concat waves) = set ids - set stuck"
    by blast
  show "set stuck = {n \<in> set ids. \<exists>m. (m, m) \<in> (set E)\<^sup>+ \<and> (m, n) \<in> (set E)\<^sup>*}"
  proof (intro set_eqI iffI)
    fix n assume "n \<in> set stuck"
    have "\<exists>y \<in> set stuck. (y, x) \<in> set E" if "x \<in> set stuck" for x
    proof -
      from that have "unmet E (set (concat waves)) x \<noteq> 0"
        by (simp add: stuck facts(4))
      then obtain y where y: "(y, x) \<in> set E" "y \<notin> set (concat waves)"
        unfolding unmet_zero by blast
      with assms(2) have "y \<in> set ids"
        by force
      with y held show ?thesis
        by blast
    qed
    from cycle_behind [OF _ this \<open>n \<in> set stuck\<close>] \<open>n \<in> set stuck\<close>
    show "n \<in> {n \<in> set ids. \<exists>m. (m, m) \<in> (set E)\<^sup>+ \<and> (m, n) \<in> (set E)\<^sup>*}"
      by (simp add: stuck)
  next
    fix n assume "n \<in> {n \<in> set ids. \<exists>m. (m, m) \<in> (set E)\<^sup>+ \<and> (m, n) \<in> (set E)\<^sup>*}"
    then obtain m where n: "n \<in> set ids" and m: "(m, m) \<in> (set E)\<^sup>+" "(m, n) \<in> (set E)\<^sup>*"
      by blast
    from layered_ancestors [OF facts(1) m(2)] layered_no_cycle [OF facts(1)] m(1) have "n \<notin> set (concat waves)"
      by blast
    with n held show "n \<in> set stuck"
      by blast
  qed
qed

lemma no_stuck_iff:
  assumes "graph_waves ids E = (waves, stuck)" and "fst ` set E \<union> snd ` set E \<subseteq> set ids"
  shows "stuck = [] \<longleftrightarrow> acyclic (set E)"
proof -
  have "\<exists>n \<in> set ids. \<exists>m. (m, m) \<in> (set E)\<^sup>+ \<and> (m, n) \<in> (set E)\<^sup>*" if "(m, m) \<in> (set E)\<^sup>+" for m
  proof -
    from that obtain d where "(m, d) \<in> set E"
      by (meson tranclD)
    with assms(2) that show ?thesis
      by force
  qed
  then show ?thesis
    using graph_waves_layers(4) [OF assms] by (auto simp: acyclic_def simp flip: set_empty)
qed

end
