(* ===== verification/Mission.thy ===== *)
theory Mission
  imports Waves Envelope
begin

text \<open>
  The mission contract (\<open>domain/mission.py\<close>): its documents, the waves of its task graph, its validation.

  A mission is what a compiler extracted from a prompt; its values are JSON. Where the code would raise
  a \<open>TypeError\<close> or an \<open>AttributeError\<close> on such a value the result is \<open>None\<close>. The messages of rejections
  are left out; \<open>show\<close> is Python's \<open>str\<close> on values that are not strings.
\<close>

section \<open>The contract\<close>

definition valid_statuses :: "string list" where
  "valid_statuses = [''hard'', ''soft'', ''unknown'']"

definition valid_evidence_levels :: "string list" where
  "valid_evidence_levels = [''E0'', ''E1'', ''E2'', ''E3'', ''E4'']"

definition supported_effort_names :: "string list" where
  "supported_effort_names = [''low'', ''medium'', ''high'', ''xhigh'', ''max'']"

definition opencode_go_pool :: string where
  "opencode_go_pool = ''opencode.go''"

definition materiality_options :: "string list" where
  "materiality_options = [''cost'', ''permissions'', ''data_location'', ''scientific_claims'']"

definition non_code_write_scopes :: "string list" where
  "non_code_write_scopes = [''review/'', ''git/'', ''.lad/'']"

record source_ref =
  sr_origin :: string
  sr_span :: "(int \<times> int) option"
  sr_phrase :: "string option"

definition source_to_dict :: "source_ref \<Rightarrow> json" where
  "source_to_dict x = JObj ((''origin'', JStr (sr_origin x))
     # (case sr_span x of None \<Rightarrow> [] | Some (a, b) \<Rightarrow> [(''span'', JArr [JInt a, JInt b])])
     @ (case sr_phrase x of None \<Rightarrow> [] | Some s \<Rightarrow> [(''phrase'', JStr s)]))"

definition structured :: "string \<Rightarrow> source_ref" where
  "structured path = \<lparr>sr_origin = ''structured_input'', sr_span = None, sr_phrase = Some path\<rparr>"

definition by_compiler :: "string \<Rightarrow> source_ref" where
  "by_compiler remark = \<lparr>sr_origin = ''compiler'', sr_span = None, sr_phrase = Some remark\<rparr>"

record extracted =
  ex_value :: json
  ex_source :: source_ref
  ex_confidence :: rat
  ex_status :: string

definition extracted_ok :: "extracted \<Rightarrow> bool" where
  "extracted_ok x \<longleftrightarrow> ex_status x \<in> set valid_statuses \<and> 0 \<le> ex_confidence x \<and> ex_confidence x \<le> 1"

definition extracted_to_dict :: "extracted \<Rightarrow> json" where
  "extracted_to_dict x = JObj
     [(''value'', ex_value x), (''source'', source_to_dict (ex_source x)), (''confidence'', JFloat (ex_confidence x)),
      (''status'', JStr (ex_status x))]"

record ambiguity =
  am_field :: string
  am_question :: string
  am_materiality :: "string list"
  am_alternatives :: "string list"
  am_source :: "source_ref option"

definition ambiguity_ok :: "ambiguity \<Rightarrow> bool" where
  "ambiguity_ok x \<longleftrightarrow> list_all (\<lambda>m. m \<in> set materiality_options) (am_materiality x)"

definition with_source :: "source_ref option \<Rightarrow> dict \<Rightarrow> json" where
  "with_source z d = JObj (d @ (case z of None \<Rightarrow> [] | Some s \<Rightarrow> [(''source'', source_to_dict s)]))"

definition ambiguity_to_dict :: "ambiguity \<Rightarrow> json" where
  "ambiguity_to_dict x = with_source (am_source x)
     [(''field'', JStr (am_field x)), (''question'', JStr (am_question x)),
      (''materiality'', JArr (map JStr (am_materiality x))), (''alternatives'', JArr (map JStr (am_alternatives x)))]"

record rejection =
  rj_code :: string
  rj_field :: string
  rj_source :: "source_ref option"

record claim_envelope =
  ce_allowed :: "string list"
  ce_deferred :: "string list"
  ce_forbidden :: "string list"
  ce_promotion_gate :: "extracted option"
  ce_evidence_level :: "extracted option"

definition empty_claims :: claim_envelope where
  "empty_claims = \<lparr>ce_allowed = [], ce_deferred = [], ce_forbidden = [], ce_promotion_gate = None, ce_evidence_level = None\<rparr>"

definition extracted_or_null :: "extracted option \<Rightarrow> json" where
  "extracted_or_null = opt_json extracted_to_dict"

definition claims_to_dict :: "claim_envelope \<Rightarrow> json" where
  "claims_to_dict x = JObj
     [(''allowed'', JArr (map JStr (ce_allowed x))), (''deferred'', JArr (map JStr (ce_deferred x))),
      (''forbidden'', JArr (map JStr (ce_forbidden x))), (''promotion_gate'', extracted_or_null (ce_promotion_gate x)),
      (''evidence_level'', extracted_or_null (ce_evidence_level x))]"

record mission =
  ms_id :: string
  ms_goal :: "extracted option"
  ms_non_goals :: "extracted list"
  ms_deliverables :: "extracted list"
  ms_acceptance_tests :: "extracted list"
  ms_claims :: "claim_envelope option"
  ms_data_class :: "extracted option"
  ms_dag_hints :: "extracted list"
  ms_policy :: "(string \<times> extracted) list"
  ms_deadline :: "extracted option"
  ms_quota_reserve :: "extracted option"
  ms_git_authority :: "extracted option"
  ms_cps_profiles :: "extracted list"
  ms_checkpoints :: "extracted list"
  ms_artifacts :: "extracted list"
  ms_validators :: "extracted list"
  ms_stop_conditions :: "extracted list"
  ms_placement :: "extracted option"
  ms_ambiguous :: "ambiguity list"
  ms_compile :: dict

definition extracted_array :: "extracted list \<Rightarrow> json" where
  "extracted_array xs = JArr (map extracted_to_dict xs)"

definition mission_to_dict :: "mission \<Rightarrow> json" where
  "mission_to_dict x = JObj
     [(''schema_version'', JInt 2), (''mission_id'', JStr (ms_id x)), (''goal'', extracted_or_null (ms_goal x)),
      (''non_goals'', extracted_array (ms_non_goals x)), (''deliverables'', extracted_array (ms_deliverables x)),
      (''acceptance_tests'', extracted_array (ms_acceptance_tests x)), (''claim_envelope'', opt_json claims_to_dict (ms_claims x)),
      (''data_class'', extracted_or_null (ms_data_class x)), (''dag_hints'', extracted_array (ms_dag_hints x)),
      (''policy'', JObj (map (map_prod id extracted_to_dict) (ms_policy x))),
      (''deadline'', extracted_or_null (ms_deadline x)), (''quota_reserve'', extracted_or_null (ms_quota_reserve x)),
      (''git_authority'', extracted_or_null (ms_git_authority x)), (''cps_profiles'', extracted_array (ms_cps_profiles x)),
      (''checkpoints'', extracted_array (ms_checkpoints x)), (''artifacts'', extracted_array (ms_artifacts x)),
      (''validators'', extracted_array (ms_validators x)), (''stop_conditions'', extracted_array (ms_stop_conditions x)),
      (''placement'', extracted_or_null (ms_placement x)), (''ambiguous'', JArr (map ambiguity_to_dict (ms_ambiguous x))),
      (''compile'', JObj (ms_compile x))]"

section \<open>The task graph\<close>

text \<open>\<open>str(v)\<close>, and the values that iterating over a value visits.\<close>

definition text_of :: "(json \<Rightarrow> string) \<Rightarrow> json \<Rightarrow> string" where
  "text_of show v = (case v of JStr s \<Rightarrow> s | _ \<Rightarrow> show v)"

definition iterated :: "json \<Rightarrow> json list option" where
  "iterated v = (case v of
     JArr vs \<Rightarrow> Some vs
   | JStr s \<Rightarrow> Some (map (\<lambda>c. JStr [c]) s)
   | JObj d \<Rightarrow> Some (map (JStr \<circ> fst) d)
   | _ \<Rightarrow> None)"

definition mission_nodes :: "mission \<Rightarrow> dict list" where
  "mission_nodes spec = List.map_filter
     (\<lambda>x. case ex_value x of JObj d \<Rightarrow> if truthy (dget0 d ''id'') then Some d else None | _ \<Rightarrow> None) (ms_dag_hints spec)"

definition node_id :: "(json \<Rightarrow> string) \<Rightarrow> dict \<Rightarrow> string" where
  "node_id show n = text_of show (case dget n ''id'' of None \<Rightarrow> JStr [] | Some v \<Rightarrow> v)"

definition node_deps :: "(json \<Rightarrow> string) \<Rightarrow> dict \<Rightarrow> string list option" where
  "node_deps show n =
     (if truthy (dget0 n ''depends_on'') then map_option (map (text_of show)) (iterated (dget0 n ''depends_on'')) else Some [])"

text \<open>The edges to \<open>nodes\<close> from those of their dependencies that are nodes themselves.\<close>

definition task_edges :: "string list \<Rightarrow> (string \<times> string list) list \<Rightarrow> edges" where
  "task_edges ids rows = concat (map (\<lambda>(n, deps). map (\<lambda>d. (d, n)) (filter (\<lambda>d. d \<in> set ids) deps)) rows)"

definition compute_waves :: "(json \<Rightarrow> string) \<Rightarrow> dict list \<Rightarrow> (string list list \<times> string list) option" where
  "compute_waves show nodes = do {
     deps \<leftarrow> checked_list (node_deps show) nodes;
     (let ids = map (node_id show) nodes in Some (graph_waves ids (task_edges ids (zip ids deps)))) }"

section \<open>Validation\<close>

definition write_scope_is_unsafe :: "json \<Rightarrow> bool" where
  "write_scope_is_unsafe scope = (case scope of
     JStr s \<Rightarrow> py_blank s \<or>
       (let normalized = map (\<lambda>c. if c = CHR 0x5C then CHR ''/'' else c) (py_strip s)
        in take 1 normalized = ''/''
           \<or> length normalized \<ge> 3 \<and> is_ascii_alpha (hd normalized) \<and> take 2 (tl normalized) = '':/''
           \<or> ''..'' \<in> set (split_on (CHR ''/'') normalized))
   | _ \<Rightarrow> True)"

definition reject :: "string \<Rightarrow> string \<Rightarrow> source_ref option \<Rightarrow> rejection list" where
  "reject code field source = [\<lparr>rj_code = code, rj_field = field, rj_source = source\<rparr>]"

text \<open>The two checks of a node on its own: the names it depends on and where it writes.\<close>

definition node_rejections :: "(json \<Rightarrow> string) \<Rightarrow> string list \<Rightarrow> dict \<times> string list \<Rightarrow> rejection list" where
  "node_rejections show ids = (\<lambda>(n, deps).
     concat (map (\<lambda>d. reject ''unknown_dependency'' ''dag_hints'' None) (filter (\<lambda>d. d \<notin> set ids) deps))
     @ (if dget0 n ''write_scope'' \<noteq> JNull \<and> write_scope_is_unsafe (JStr (text_of show (dget0 n ''write_scope'')))
        then reject ''invalid_write_scope'' ''dag_hints'' None else []))"

text \<open>The validators a node names: a text is a list of names between semicolons and commas.\<close>

definition listed_names :: "string \<Rightarrow> string list" where
  "listed_names s = filter (\<lambda>w. w \<noteq> []) (map py_strip (split_on (CHR '','') (map (\<lambda>c. if c = CHR '';'' then CHR '','' else c) s)))"

definition validator_refs :: "dict \<Rightarrow> json list option" where
  "validator_refs n = (case dget0 n ''validator'' of
     JStr s \<Rightarrow> Some (map JStr (listed_names s))
   | v \<Rightarrow> if truthy v then iterated v else Some [])"

text \<open>\<open>any(ref not in known ...)\<close>: a list or an object cannot be looked up in a set.\<close>

fun unknown_ref :: "string list \<Rightarrow> json list \<Rightarrow> bool option" where
  "unknown_ref known [] = Some False"
| "unknown_ref known (v # vs) = (case v of
     JStr s \<Rightarrow> if s \<in> set known then unknown_ref known vs else Some True
   | JArr _ \<Rightarrow> None
   | JObj _ \<Rightarrow> None
   | _ \<Rightarrow> Some True)"

definition risk_rejections :: "string list \<Rightarrow> dict \<Rightarrow> rejection list option" where
  "risk_rejections known n =
     (if dget0 n ''risk'' \<noteq> JStr ''high'' then Some []
      else do {
        refs \<leftarrow> validator_refs n;
        missing \<leftarrow> (if refs = [] then Some True else unknown_ref known refs);
        Some (if missing then reject ''missing_validator_for_high_risk'' ''dag_hints'' None else []) })"

definition touches_code :: "dict \<Rightarrow> bool" where
  "touches_code n \<longleftrightarrow>
     (if truthy (dget0 n ''write_scope'') then dget0 n ''write_scope'' else JStr []) \<notin> JStr ` set non_code_write_scopes"

text \<open>\<open>_git_decisions\<close>: the decision of each verb, where the authority is an object at all.\<close>

definition git_decision :: "(json \<Rightarrow> string) \<Rightarrow> dict \<Rightarrow> string \<Rightarrow> string option" where
  "git_decision show d verb = (case dget d verb of
     None \<Rightarrow> Some ''unknown''
   | Some (JObj e) \<Rightarrow> Some (text_of show (case dget e ''decision'' of None \<Rightarrow> JStr ''unknown'' | Some v \<Rightarrow> v))
   | Some _ \<Rightarrow> None)"

definition git_decisions :: "(json \<Rightarrow> string) \<Rightarrow> mission \<Rightarrow> (string \<times> string) list option option" where
  "git_decisions show spec = (case map_option ex_value (ms_git_authority spec) of
     Some (JObj d) \<Rightarrow> map_option Some
       (checked_list (\<lambda>verb. map_option (Pair verb) (git_decision show d verb)) [''commit'', ''push'', ''merge''])
   | _ \<Rightarrow> Some None)"

definition git_rejections :: "(json \<Rightarrow> string) \<Rightarrow> mission \<Rightarrow> rejection list option" where
  "git_rejections show spec = do {
     git \<leftarrow> git_decisions show spec;
     Some (case git of
       None \<Rightarrow> reject ''ambiguous_git_authority'' ''git_authority'' None
     | Some decisions \<Rightarrow> concat (map (\<lambda>verb.
         if map_of decisions verb \<in> {Some ''unknown'', Some ''conflicting''}
         then reject ''ambiguous_git_authority'' ''git_authority'' (map_option ex_source (ms_git_authority spec)) else [])
         [''commit'', ''push''])) }"

definition placement_rejections :: "mission \<Rightarrow> rejection list" where
  "placement_rejections spec = (case map_option ex_value (ms_placement spec) of
     Some (JObj d) \<Rightarrow>
       if dget0 d ''workload_host'' = JStr ''server'' \<and> dget0 d ''wrapper'' \<in> {JStr ''none'', JStr ''absent''}
       then reject ''unwrapped_split_placement'' ''placement'' (map_option ex_source (ms_placement spec)) else []
   | _ \<Rightarrow> [])"

definition override_rejections :: "mission \<Rightarrow> rejection list" where
  "override_rejections spec = (case map_of (ms_policy spec) ''policy_excluded_model_override'' of
     None \<Rightarrow> []
   | Some x \<Rightarrow> (case ex_value x of
       JObj d \<Rightarrow>
         if truthy (dget0 d ''allowed'') \<and> dget0 d ''pool'' \<noteq> JStr opencode_go_pool
         then reject ''invalid_quota_pool'' ''policy.policy_excluded_model_override'' (Some (ex_source x)) else []
     | _ \<Rightarrow> []))"

definition validator_ids :: "(json \<Rightarrow> string) \<Rightarrow> mission \<Rightarrow> string list" where
  "validator_ids show spec = List.map_filter
     (\<lambda>x. case ex_value x of JObj d \<Rightarrow> Some (text_of show (dget0 d ''id'')) | _ \<Rightarrow> None) (ms_validators spec)"

definition scalar_rejections :: "mission \<Rightarrow> rejection list" where
  "scalar_rejections spec =
     (if ms_goal spec = None then reject ''missing_goal'' ''goal'' None else [])
     @ (if ms_deliverables spec = [] then reject ''missing_deliverables'' ''deliverables'' None else [])
     @ (if ms_claims spec = None then reject ''missing_claim_envelope'' ''claim_envelope'' None else [])
     @ (case Option.bind (ms_claims spec) ce_evidence_level of
          None \<Rightarrow> []
        | Some x \<Rightarrow> if ex_value x \<in> JStr ` set valid_evidence_levels then []
            else reject ''invalid_evidence_level'' ''claim_envelope.evidence_level'' (Some (ex_source x)))"

definition effort_rejections :: "mission \<Rightarrow> rejection list" where
  "effort_rejections spec = (case map_of (ms_policy spec) ''effort'' of
     None \<Rightarrow> []
   | Some x \<Rightarrow> if ex_value x \<in> JStr ` set supported_effort_names then []
       else reject ''unsupported_effort'' ''policy.effort'' (Some (ex_source x)))"

definition validate_mission :: "(json \<Rightarrow> string) \<Rightarrow> mission \<Rightarrow> rejection list option" where
  "validate_mission show spec =
     (let nodes = mission_nodes spec; ids = map (node_id show) nodes
      in do {
        (_, stuck) \<leftarrow> compute_waves show nodes;
        deps \<leftarrow> checked_list (node_deps show) nodes;
        risks \<leftarrow> checked_list (risk_rejections (validator_ids show spec)) nodes;
        git \<leftarrow> (if list_ex touches_code nodes then git_rejections show spec else Some []);
        Some (scalar_rejections spec
          @ (if stuck \<noteq> [] then reject ''dag_cycle'' ''dag_hints'' None else [])
          @ concat (map (node_rejections show ids) (zip nodes deps))
          @ effort_rejections spec @ concat risks @ git @ placement_rejections spec @ override_rejections spec) })"

section \<open>Waves of a task graph\<close>

definition task_graph :: "(json \<Rightarrow> string) \<Rightarrow> dict list \<Rightarrow> (string \<times> string) set" where
  "task_graph show nodes =
     {(d, n). \<exists>x deps. x \<in> set nodes \<and> node_id show x = n \<and> node_deps show x = Some deps \<and> d \<in> set deps
        \<and> d \<in> node_id show ` set nodes}"

lemma zip_checked_list:
  "checked_list f xs = Some ys \<Longrightarrow> (x, y) \<in> set (zip xs ys) \<longleftrightarrow> x \<in> set xs \<and> f x = Some y"
  unfolding checked_list_Some by (induction rule: list_all2_induct) auto

lemma set_task_edges:
  assumes "checked_list (node_deps show) nodes = Some deps"
  shows "set (task_edges (map (node_id show) nodes) (zip (map (node_id show) nodes) deps)) = task_graph show nodes"
proof -
  have "zip (map (node_id show) nodes) deps = map (map_prod (node_id show) id) (zip nodes deps)"
    by (simp add: zip_map1 map_prod_def)
  moreover have "set (task_edges ids (map (map_prod (node_id show) id) rows))
      = {(d, n). \<exists>x ds. (x, ds) \<in> set rows \<and> node_id show x = n \<and> d \<in> set ds \<and> d \<in> set ids}" for ids rows
    by (force simp: task_edges_def)
  ultimately show ?thesis
    by (auto simp: task_graph_def zip_checked_list [OF assms])
qed

lemma task_graph_nodes: "task_graph show nodes \<subseteq> node_id show ` set nodes \<times> node_id show ` set nodes"
  by (auto simp: task_graph_def)

lemma compute_waves_Some:
  assumes "compute_waves show nodes = Some (waves, stuck)"
  obtains E where "graph_waves (map (node_id show) nodes) E = (waves, stuck)" and "set E = task_graph show nodes"
    and "fst ` set E \<union> snd ` set E \<subseteq> set (map (node_id show) nodes)"
proof -
  from assms obtain deps where deps: "checked_list (node_deps show) nodes = Some deps"
    and made: "graph_waves (map (node_id show) nodes)
      (task_edges (map (node_id show) nodes) (zip (map (node_id show) nodes) deps)) = (waves, stuck)"
    by (auto simp: compute_waves_def bind_eq_Some_conv Let_def)
  with set_task_edges [OF deps] task_graph_nodes [of "show" nodes] show thesis
    by (intro that) auto
qed

text \<open>C31. \<open>compute_waves\<close> schedules the task graph: every node is in the first wave behind all nodes it
  depends on, in one wave only, and the nodes it reports as cyclic are exactly those on a cycle of
  dependencies or behind one.\<close>

theorem waves_schedule_the_graph:
  assumes "compute_waves show nodes = Some (waves, stuck)"
  shows "layered (task_graph show nodes) waves \<and> distinct (concat waves)
     \<and> set (concat waves) = node_id show ` set nodes - set stuck
     \<and> set stuck = {n \<in> node_id show ` set nodes.
         \<exists>m. (m, m) \<in> (task_graph show nodes)\<^sup>+ \<and> (m, n) \<in> (task_graph show nodes)\<^sup>*}"
proof -
  obtain E where "graph_waves (map (node_id show) nodes) E = (waves, stuck)" "set E = task_graph show nodes"
    "fst ` set E \<union> snd ` set E \<subseteq> set (map (node_id show) nodes)"
    using compute_waves_Some [OF assms] .
  from graph_waves_layers [OF this(1,3)] this(2) show ?thesis
    by simp
qed

lemma no_cycle_found: "compute_waves show nodes = Some (waves, stuck) \<Longrightarrow> stuck = [] \<longleftrightarrow> acyclic (task_graph show nodes)"
  by (erule compute_waves_Some) (simp add: no_stuck_iff)

section \<open>Accepted missions\<close>

lemma reject_not_Nil [simp]: "reject code field source \<noteq> []"
  by (simp add: reject_def)

lemma checked_list_at: "checked_list f xs = Some ys \<Longrightarrow> x \<in> set xs \<Longrightarrow> \<exists>y \<in> set ys. f x = Some y"
  by (induction xs arbitrary: ys) (auto simp: bind_eq_Some_conv)

lemma validate_mission_accepts:
  assumes "validate_mission show spec = Some []"
  obtains waves deps where "compute_waves show (mission_nodes spec) = Some (waves, [])"
    and "checked_list (node_deps show) (mission_nodes spec) = Some deps"
    and "\<forall>row \<in> set (zip (mission_nodes spec) deps). node_rejections show (map (node_id show) (mission_nodes spec)) row = []"
    and "\<forall>n \<in> set (mission_nodes spec). risk_rejections (validator_ids show spec) n = Some []"
    and "list_ex touches_code (mission_nodes spec) \<longrightarrow> git_rejections show spec = Some []"
proof -
  from assms obtain waves stuck deps risks git where
    parts: "compute_waves show (mission_nodes spec) = Some (waves, stuck)"
      "checked_list (node_deps show) (mission_nodes spec) = Some deps"
      "checked_list (risk_rejections (validator_ids show spec)) (mission_nodes spec) = Some risks"
      "(if list_ex touches_code (mission_nodes spec) then git_rejections show spec else Some []) = Some git"
    and none: "stuck = []" "concat (map (node_rejections show (map (node_id show) (mission_nodes spec))) (zip (mission_nodes spec) deps)) = []"
      "concat risks = []" "git = []"
    by (auto simp: validate_mission_def Let_def bind_eq_Some_conv split: if_splits)
  have "risk_rejections (validator_ids show spec) n = Some []" if "n \<in> set (mission_nodes spec)" for n
    using checked_list_at [OF parts(3) that] none(3) by auto
  with parts none show thesis
    by (intro that [of waves deps]) (auto split: if_splits)
qed

lemma unknown_ref_False: "unknown_ref known vs = Some False \<Longrightarrow> set vs \<subseteq> JStr ` set known"
  by (induction vs) (auto split: json.splits if_splits)

lemma risk_accepted:
  assumes "risk_rejections known n = Some []" and "dget0 n ''risk'' = JStr ''high''"
  shows "\<exists>refs. validator_refs n = Some refs \<and> refs \<noteq> [] \<and> set refs \<subseteq> JStr ` set known"
proof -
  from assms obtain refs missing where "validator_refs n = Some refs" "\<not> missing"
    "(if refs = [] then Some True else unknown_ref known refs) = Some missing"
    by (auto simp: risk_rejections_def bind_eq_Some_conv split: if_splits)
  then show ?thesis
    using unknown_ref_False [of known refs] by (auto split: if_splits)
qed

text \<open>C32. A mission that passes the validation can be run: its waves hold every task once and in order,
  every dependency names a task, every task writes inside the project, and every task of high risk
  names validators, all of which the mission declares.\<close>

theorem accepted_mission_can_run:
  assumes "validate_mission show spec = Some []"
  shows "\<exists>waves. compute_waves show (mission_nodes spec) = Some (waves, []) \<and> acyclic (task_graph show (mission_nodes spec))
     \<and> set (concat waves) = node_id show ` set (mission_nodes spec)
     \<and> list_all (\<lambda>n. set (the (node_deps show n)) \<subseteq> node_id show ` set (mission_nodes spec)
          \<and> (dget0 n ''write_scope'' = JNull \<or> \<not> write_scope_is_unsafe (JStr (text_of show (dget0 n ''write_scope''))))
          \<and> (dget0 n ''risk'' = JStr ''high'' \<longrightarrow>
               (\<exists>refs. validator_refs n = Some refs \<and> refs \<noteq> [] \<and> set refs \<subseteq> JStr ` set (validator_ids show spec))))
        (mission_nodes spec)"
proof -
  obtain waves deps where waves: "compute_waves show (mission_nodes spec) = Some (waves, [])"
    and deps: "checked_list (node_deps show) (mission_nodes spec) = Some deps"
    and clean: "\<forall>row \<in> set (zip (mission_nodes spec) deps). node_rejections show (map (node_id show) (mission_nodes spec)) row = []"
    and risks: "\<forall>n \<in> set (mission_nodes spec). risk_rejections (validator_ids show spec) n = Some []"
    and "list_ex touches_code (mission_nodes spec) \<longrightarrow> git_rejections show spec = Some []"
    using validate_mission_accepts [OF assms] .
  have nodes: "set (the (node_deps show n)) \<subseteq> node_id show ` set (mission_nodes spec)
      \<and> (dget0 n ''write_scope'' = JNull \<or> \<not> write_scope_is_unsafe (JStr (text_of show (dget0 n ''write_scope''))))"
    if n: "n \<in> set (mission_nodes spec)" for n
  proof -
    from n obtain ds where "(n, ds) \<in> set (zip (mission_nodes spec) deps)" "node_deps show n = Some ds"
      using checked_list_at [OF deps] zip_checked_list [OF deps] by blast
    with clean have "node_rejections show (map (node_id show) (mission_nodes spec)) (n, ds) = []"
      by blast
    then have "\<forall>d \<in> set ds. d \<in> node_id show ` set (mission_nodes spec)"
      and "dget0 n ''write_scope'' = JNull \<or> \<not> write_scope_is_unsafe (JStr (text_of show (dget0 n ''write_scope'')))"
      by (auto simp: node_rejections_def split: if_splits)
    with \<open>node_deps show n = Some ds\<close> show ?thesis
      by auto
  qed
  obtain E where "graph_waves (map (node_id show) (mission_nodes spec)) E = (waves, [])"
    "fst ` set E \<union> snd ` set E \<subseteq> set (map (node_id show) (mission_nodes spec))"
    using compute_waves_Some [OF waves] .
  from graph_waves_layers(3) [OF this] have "set (concat waves) = node_id show ` set (mission_nodes spec)"
    by simp
  with waves no_cycle_found [OF waves] nodes risks risk_accepted show ?thesis
    unfolding list_all_iff by blast
qed

section \<open>Examples\<close>

definition sample_task :: "string \<Rightarrow> string list \<Rightarrow> string \<Rightarrow> dict" where
  "sample_task name deps scope =
     [(''id'', JStr name), (''depends_on'', JArr (map JStr deps)), (''write_scope'', JStr scope)]"

definition sample_tasks :: "dict list" where
  "sample_tasks = [sample_task ''c'' [''a'', ''a''] ''src/core/'', sample_task ''a'' [] ''git/'', sample_task ''b'' [''a''] ''src'']"

lemma sample_waves: "compute_waves (\<lambda>_. []) sample_tasks = Some ([[''a''], [''b'', ''c'']], [])"
  by code_simp

theorem waves_schedule_the_graph_witness:
  "layered (task_graph (\<lambda>_. []) sample_tasks) [[''a''], [''b'', ''c'']]"
  using waves_schedule_the_graph [OF sample_waves] by simp

definition sample_said :: "json \<Rightarrow> extracted" where
  "sample_said v = \<lparr>ex_value = v, ex_source = structured ''mission'', ex_confidence = 1, ex_status = ''hard''\<rparr>"

definition sample_mission :: mission where
  "sample_mission =
     \<lparr>ms_id = ''m1'', ms_goal = Some (sample_said (JStr ''port the solver'')),
      ms_non_goals = [sample_said (JStr ''do not claim a speedup'')],
      ms_deliverables = [sample_said (JStr ''report'')], ms_acceptance_tests = [],
      ms_claims = Some \<lparr>ce_allowed = [''speedup''], ce_deferred = [], ce_forbidden = [''novel physics''],
                        ce_promotion_gate = None, ce_evidence_level = None\<rparr>,
      ms_data_class = None, ms_dag_hints = map (sample_said \<circ> JObj) sample_tasks, ms_policy = [], ms_deadline = None,
      ms_quota_reserve = None,
      ms_git_authority = Some (sample_said (JObj
        [(''commit'', JObj [(''decision'', JStr ''allow'')]), (''push'', JObj [(''decision'', JStr ''deny'')])])),
      ms_cps_profiles = [], ms_checkpoints = [], ms_artifacts = [], ms_validators = [], ms_stop_conditions = [],
      ms_placement = None, ms_ambiguous = [], ms_compile = []\<rparr>"

lemma sample_mission_valid: "validate_mission (\<lambda>_. []) sample_mission = Some []"
  by code_simp

theorem accepted_mission_can_run_witness: "acyclic (task_graph (\<lambda>_. []) sample_tasks)"
proof -
  have "mission_nodes sample_mission = sample_tasks"
    by code_simp
  with accepted_mission_can_run [OF sample_mission_valid] show ?thesis
    by (simp only:) blast
qed

end
