(* ===== verification/Intent.thy ===== *)
theory Intent
  imports Mission "HOL-Library.Sublist"
begin

text \<open>
  Two checks of the mission compiler: the claim boundary (\<open>intent/claim_contract.py\<close>), which says what
  a mission may claim, and the write scopes of tasks that may run side by side
  (\<open>_install_parallelism_check\<close> of \<open>intent/compiler.py\<close>).

  Texts are compared in ASCII lower case. A node that both checks change is a dictionary in a list, so
  an assignment to it is an update of that list; the conflicts are the pairs of positions in the order in
  which the code meets them. The extraction of a mission from prose is not modelled.
\<close>

section \<open>The claim boundary\<close>

record claim_contract =
  cc_claimable :: "string list"
  cc_deferred :: "string list"
  cc_forbidden :: "string list"
  cc_promotion_gates :: "(string \<times> string) list"
  cc_evidence_level :: string
  cc_non_goals :: "string list"

definition contract_to_dict :: "claim_contract \<Rightarrow> json" where
  "contract_to_dict x = JObj
     [(''schema_version'', JInt 1), (''claimable'', JArr (map JStr (cc_claimable x))),
      (''deferred'', JArr (map JStr (cc_deferred x))), (''forbidden'', JArr (map JStr (cc_forbidden x))),
      (''promotion_gates'', JArr (map (\<lambda>(c, g). JObj [(''claim'', JStr c), (''gate'', JStr g)]) (cc_promotion_gates x))),
      (''evidence_level'', JStr (cc_evidence_level x)), (''non_goals_preserved'', JArr (map JStr (cc_non_goals x))),
      (''immutable'', JBool True)]"

text \<open>\<open>_clean\<close>: the words of a text, in lower case and with one blank between them.\<close>

definition word_char :: "char \<Rightarrow> bool" where
  "word_char c \<longleftrightarrow> is_lower c \<or> is_digit c"

definition clean :: "string \<Rightarrow> string" where
  "clean s = join_on (CHR '' '') (filter (\<lambda>w. w \<noteq> [])
     (split_on (CHR '' '') (map (\<lambda>c. if word_char c then c else CHR '' '') (py_lower s))))"

definition overlapping :: "string \<Rightarrow> string \<Rightarrow> bool" where
  "overlapping a b \<longleftrightarrow> contains (clean a) (clean b) \<or> contains (clean b) (clean a)"

datatype claim_verdict = Allowed | Deferred | Forbidden | Unlisted

definition claim_status :: "claim_contract \<Rightarrow> string \<Rightarrow> claim_verdict" where
  "claim_status k claim =
     (if clean claim = [] then Unlisted
      else if list_ex (overlapping claim) (cc_forbidden k) then Forbidden
      else if list_ex (overlapping claim) (cc_deferred k) then Deferred
      else if list_ex (overlapping claim) (cc_claimable k) then Allowed
      else Unlisted)"

definition claim_is_allowed :: "claim_contract \<Rightarrow> string \<Rightarrow> bool" where
  "claim_is_allowed k claim \<longleftrightarrow> claim_status k claim = Allowed"

definition promotion_gate_for :: "claim_contract \<Rightarrow> string \<Rightarrow> string option" where
  "promotion_gate_for k claim = map_option snd
     (List.find (\<lambda>(c, _). claim_status k c = Deferred \<and> overlapping claim c) (cc_promotion_gates k))"

text \<open>The non-goals that speak of a claim; each is forbidden unless an entry already covers it.\<close>

definition claim_non_goals :: "(json \<Rightarrow> string) \<Rightarrow> mission \<Rightarrow> string list" where
  "claim_non_goals show spec =
     filter (\<lambda>text. contains ''claim'' (clean text)) (map (\<lambda>x. text_of show (ex_value x)) (ms_non_goals spec))"

definition forbid :: "string \<Rightarrow> string list \<Rightarrow> string list" where
  "forbid text forbidden = (if list_ex (overlapping text) forbidden then forbidden else forbidden @ [text])"

definition claims_of :: "mission \<Rightarrow> claim_envelope" where
  "claims_of spec = (case ms_claims spec of None \<Rightarrow> empty_claims | Some e \<Rightarrow> e)"

definition build_claim_contract :: "(json \<Rightarrow> string) \<Rightarrow> mission \<Rightarrow> claim_contract" where
  "build_claim_contract show spec =
     (let envelope = claims_of spec
      in \<lparr>cc_claimable = ce_allowed envelope, cc_deferred = ce_deferred envelope,
          cc_forbidden = fold forbid (claim_non_goals show spec) (ce_forbidden envelope),
          cc_promotion_gates =
            (case ce_promotion_gate envelope of
               None \<Rightarrow> []
             | Some gate \<Rightarrow> map (\<lambda>c. (c, text_of show (ex_value gate))) (ce_deferred envelope)),
          cc_evidence_level =
            (case map_option ex_value (ce_evidence_level envelope) of
               Some (JStr level) \<Rightarrow> if level \<in> set valid_evidence_levels then level else ''E0''
             | _ \<Rightarrow> ''E0''),
          cc_non_goals = claim_non_goals show spec\<rparr>)"

definition overlap_rejections :: "string list \<Rightarrow> string list \<Rightarrow> rejection list" where
  "overlap_rejections left right = concat (map (\<lambda>_. reject ''claim_boundary_overlap'' ''claim_envelope'' None)
     (filter (\<lambda>x. clean x \<in> clean ` set right) left))"

definition validate_claim_contract :: "claim_contract \<Rightarrow> mission \<Rightarrow> rejection list" where
  "validate_claim_contract k spec =
     overlap_rejections (cc_forbidden k) (cc_claimable k)
     @ overlap_rejections (cc_deferred k) (cc_claimable k)
     @ overlap_rejections (cc_deferred k) (cc_forbidden k)
     @ concat (map (\<lambda>_. reject ''missing_promotion_gate'' ''claim_envelope.promotion_gate'' None)
         (filter (\<lambda>c. promotion_gate_for k c = None) (cc_deferred k)))
     @ (if cc_evidence_level k \<in> set valid_evidence_levels then []
        else reject ''invalid_evidence_level'' ''claim_envelope.evidence_level'' None)
     @ (if ce_forbidden (claims_of spec) \<noteq> []
           \<and> \<not> list_ex (\<lambda>x. list_ex (overlapping x) (ce_forbidden (claims_of spec))) (cc_forbidden k)
        then reject ''claim_boundary_dropped'' ''claim_envelope.forbidden'' None else [])"

section \<open>Write scopes of parallel tasks\<close>

definition strip_slashes :: "string \<Rightarrow> string" where
  "strip_slashes s = rev (dropWhile (\<lambda>c. c = CHR ''/'') (rev s))"

definition starts_with :: "string \<Rightarrow> string \<Rightarrow> bool" where
  "starts_with s p \<longleftrightarrow> take (length p) s = p"

definition write_scopes_disjoint :: "json \<Rightarrow> json \<Rightarrow> bool" where
  "write_scopes_disjoint first second = (case (first, second) of
     (JStr s, JStr t) \<Rightarrow> s \<noteq> ''unknown'' \<and> t \<noteq> ''unknown''
       \<and> (let a = strip_slashes s; b = strip_slashes t
          in a \<noteq> b \<and> \<not> (starts_with a (b @ ''/'') \<or> starts_with b (a @ ''/'')))
   | _ \<Rightarrow> False)"

definition with_write_scope :: "dict \<Rightarrow> dict" where
  "with_write_scope n = (if dget0 n ''write_scope'' = JNull then dput ''write_scope'' (JStr ''unknown'') n else n)"

definition in_wave :: "string list \<Rightarrow> dict \<Rightarrow> bool" where
  "in_wave wave n \<longleftrightarrow> dget0 n ''id'' \<in> JStr ` set wave"

definition wave_conflicts :: "dict list \<Rightarrow> string list \<Rightarrow> (nat \<times> nat) list" where
  "wave_conflicts nodes wave =
     (let places = filter (\<lambda>i. in_wave wave (nodes ! i)) [0..<length nodes]
      in concat (map (\<lambda>i. map (Pair i) (filter (\<lambda>j. i < j
           \<and> \<not> write_scopes_disjoint (dget0 (nodes ! i) ''write_scope'') (dget0 (nodes ! j) ''write_scope'')) places)) places))"

definition serialize :: "nat \<times> nat \<Rightarrow> dict list \<Rightarrow> dict list" where
  "serialize = (\<lambda>(i, j) nodes.
     (let marked = nodes[i := dput ''parallel'' (JBool False) (nodes ! i)]
      in marked[j := dput ''parallel'' (JBool False) (marked ! j)]))"

definition parallelism_check :: "(json \<Rightarrow> string) \<Rightarrow> dict list \<Rightarrow> (dict list \<times> (nat \<times> nat) list) option" where
  "parallelism_check show nodes =
     (let scoped = map with_write_scope nodes
      in do {
        (waves, stuck) \<leftarrow> compute_waves show scoped;
        Some (if stuck \<noteq> [] then (scoped, [])
              else let conflicts = concat (map (wave_conflicts scoped) waves)
                   in (fold serialize conflicts scoped, conflicts)) })"

section \<open>The boundary survives\<close>

lemma contains_refl: "contains s s"
  by (auto simp: contains_def list_ex_iff intro!: bexI [of _ 0])

lemma overlapping_refl: "overlapping a a"
  by (simp add: overlapping_def contains_refl)

lemma overlapping_sym: "overlapping a b \<longleftrightarrow> overlapping b a"
  by (auto simp: overlapping_def)

lemma forbid_keeps: "set forbidden \<subseteq> set (fold forbid texts forbidden)"
proof (induction texts arbitrary: forbidden)
  case (Cons t texts)
  have "set forbidden \<subseteq> set (forbid t forbidden)"
    by (auto simp: forbid_def)
  with Cons.IH [of "forbid t forbidden"] show ?case
    by auto
qed simp

lemma forbid_covers: "text \<in> set texts \<Longrightarrow> list_ex (overlapping text) (fold forbid texts forbidden)"
proof (induction texts arbitrary: forbidden)
  case (Cons t texts)
  show ?case
  proof (cases "text = t")
    case True
    then have "list_ex (overlapping text) (forbid t forbidden)"
      by (simp add: forbid_def list_ex_iff overlapping_refl)
    with forbid_keeps [of "forbid t forbidden" texts] show ?thesis
      by (auto simp: list_ex_iff)
  qed (use Cons in simp)
qed simp

lemma forbid_adds_only: "set (fold forbid texts forbidden) \<subseteq> set forbidden \<union> set texts"
proof (induction texts arbitrary: forbidden)
  case (Cons t texts)
  have "set (forbid t forbidden) \<subseteq> insert t (set forbidden)"
    by (auto simp: forbid_def)
  with Cons.IH [of "forbid t forbidden"] show ?case
    by auto
qed simp

text \<open>A text that nothing forbidden before it covers becomes an entry.\<close>

lemma forbid_enters:
  assumes "texts = xs @ text # ys" and "\<not> list_ex (overlapping text) (forbidden @ xs)"
  shows "text \<in> set (fold forbid texts forbidden)"
proof -
  have "\<not> list_ex (overlapping text) (fold forbid xs forbidden)"
    using assms(2) forbid_adds_only [of xs forbidden] by (auto simp: list_ex_iff)
  then have "text \<in> set (forbid text (fold forbid xs forbidden))"
    by (simp add: forbid_def)
  then show ?thesis
    using forbid_keeps [of "forbid text (fold forbid xs forbidden)" ys] by (auto simp: assms(1))
qed

text \<open>C33. The boundary that the user stated survives the compiler: a claim is forbidden by the contract that is
  built, whatever the mission allows or defers, when it overlaps what the mission forbids, when it
  repeats a non-goal about claims, or when it overlaps such a non-goal that neither the forbidden list
  of the mission nor an earlier non-goal overlaps. (A non-goal that is overlapped already adds no entry
  of its own; \<open>covered_non_goal_leaves_a_claim\<close> below shows what that can leave out.)\<close>

theorem stated_boundary_survives:
  assumes "clean claim \<noteq> []"
    and "list_ex (overlapping claim) (ce_forbidden (claims_of spec)) \<or> claim \<in> set (claim_non_goals show spec)
      \<or> (\<exists>xs text ys. claim_non_goals show spec = xs @ text # ys \<and> overlapping claim text
           \<and> \<not> list_ex (overlapping text) (ce_forbidden (claims_of spec) @ xs))"
  shows "claim_status (build_claim_contract show spec) claim = Forbidden"
proof -
  have "list_ex (overlapping claim) (cc_forbidden (build_claim_contract show spec))"
    using assms(2) forbid_keeps [of "ce_forbidden (claims_of spec)" "claim_non_goals show spec"]
      forbid_covers [of claim "claim_non_goals show spec" "ce_forbidden (claims_of spec)"]
      forbid_enters [of "claim_non_goals show spec" _ _ _ "ce_forbidden (claims_of spec)"]
    by (auto simp: build_claim_contract_def Let_def list_ex_iff)
  with assms(1) show ?thesis
    by (simp add: claim_status_def)
qed

text \<open>An allowed entry without a letter or digit of ASCII is contained in every claim.\<close>

lemma blank_entry_allows_everything:
  assumes "clean entry = []" and "entry \<in> set (cc_claimable k)" and "clean claim \<noteq> []"
    and "\<not> list_ex (overlapping claim) (cc_forbidden k)" and "\<not> list_ex (overlapping claim) (cc_deferred k)"
  shows "claim_is_allowed k claim"
proof -
  have "overlapping claim entry"
    using assms(1) by (auto simp: overlapping_def contains_def list_ex_iff intro!: bexI [of _ 0])
  with assms show ?thesis
    by (auto simp: claim_is_allowed_def claim_status_def list_ex_iff)
qed

section \<open>Parallel tasks write apart\<close>

lemma starts_with_prefix: "starts_with s p \<longleftrightarrow> prefix p s"
  by (metis append_eq_conv_conj append_take_drop_id prefix_def starts_with_def)

text \<open>
  What a write scope covers, as places and not as texts: empty components and \<open>.\<close> do not count, and a
  scope covers the place it names and everything below it. A scope is plain when no component of it is
  empty, \<open>.\<close> or \<open>..\<close>, apart from slashes at its end and one at its start.
\<close>

definition scope_components :: "string \<Rightarrow> string list" where
  "scope_components path = filter (\<lambda>w. w \<noteq> [] \<and> w \<noteq> ''.'') (split_on (CHR ''/'') path)"

definition rooted_scope :: "string \<Rightarrow> bool" where
  "rooted_scope path \<longleftrightarrow> take 1 path = ''/''"

definition scope_covers :: "string \<Rightarrow> string \<Rightarrow> bool" where
  "scope_covers scope path \<longleftrightarrow> rooted_scope scope = rooted_scope path \<and> prefix (scope_components scope) (scope_components path)"

definition scope_unrooted :: "string \<Rightarrow> string" where
  "scope_unrooted path = (if rooted_scope path then drop 1 path else path)"

definition plain_scope :: "string \<Rightarrow> bool" where
  "plain_scope scope \<longleftrightarrow>
     list_all (\<lambda>w. w \<noteq> [] \<and> w \<noteq> ''.'' \<and> w \<noteq> ''..'') (split_on (CHR ''/'') (scope_unrooted (strip_slashes scope)))"

lemma split_on_snoc: "split_on c (s @ [c]) = split_on c s @ [[]]"
  by (induction s) (auto split: list.splits)

lemma join_split: "join_on c (split_on c s) = s"
proof (induction s)
  case (Cons x s)
  then show ?case
    by (cases "split_on c s"; cases "tl (split_on c s)") auto
qed simp

lemma join_append: "xs \<noteq> [] \<Longrightarrow> ys \<noteq> [] \<Longrightarrow> join_on c (xs @ ys) = join_on c xs @ c # join_on c ys"
  by (induction c xs rule: join_on.induct) (auto simp: neq_Nil_conv)

lemma scope_components_snoc: "scope_components (s @ ''/'') = scope_components s"
  using split_on_snoc [of "CHR ''/''" s] by (simp add: scope_components_def)

lemma scope_components_replicate: "scope_components (s @ replicate k (CHR ''/'')) = scope_components s"
proof (induction k)
  case (Suc k)
  have "s @ replicate (Suc k) (CHR ''/'') = (s @ replicate k (CHR ''/'')) @ ''/''"
    by (simp add: replicate_append_same)
  with Suc scope_components_snoc show ?case
    by metis
qed simp

lemma takeWhile_equal: "takeWhile (\<lambda>x. x = a) xs = replicate (length (takeWhile (\<lambda>x. x = a) xs)) a"
  by (induction xs) auto

lemma strip_slashes_decomp: obtains k where "s = strip_slashes s @ replicate k (CHR ''/'')"
proof -
  have "s = rev (dropWhile (\<lambda>c. c = CHR ''/'') (rev s)) @ rev (takeWhile (\<lambda>c. c = CHR ''/'') (rev s))"
    by (metis rev_append rev_rev_ident takeWhile_dropWhile_id)
  then have "s = strip_slashes s @ replicate (length (takeWhile (\<lambda>c. c = CHR ''/'') (rev s))) (CHR ''/'')"
    by (metis strip_slashes_def takeWhile_equal rev_replicate)
  then show thesis by (rule that)
qed

lemma scope_components_strip: "scope_components (strip_slashes s) = scope_components s"
  using strip_slashes_decomp [of s] scope_components_replicate by metis

text \<open>A plain scope is the text of its components.\<close>

lemma plain_scope_text:
  assumes "plain_scope s"
  shows "scope_components s \<noteq> []" and "rooted_scope (strip_slashes s) = rooted_scope s"
    and "strip_slashes s = (if rooted_scope s then ''/'' else []) @ join_on (CHR ''/'') (scope_components s)"
proof -
  let ?a = "strip_slashes s"
  have parts: "filter (\<lambda>w. w \<noteq> [] \<and> w \<noteq> ''.'') (split_on (CHR ''/'') (scope_unrooted ?a)) = split_on (CHR ''/'') (scope_unrooted ?a)"
    using assms by (intro filter_True) (auto simp: plain_scope_def list_all_iff)
  have root: "?a = (if rooted_scope ?a then ''/'' else []) @ scope_unrooted ?a"
    by (cases ?a) (auto simp: scope_unrooted_def rooted_scope_def)
  have "split_on (CHR ''/'') ?a = (if rooted_scope ?a then [[]] else []) @ split_on (CHR ''/'') (scope_unrooted ?a)"
    by (subst root) (auto simp: rooted_scope_def)
  with parts have "scope_components ?a = split_on (CHR ''/'') (scope_unrooted ?a)"
    by (simp add: scope_components_def)
  then have c: "scope_components s = split_on (CHR ''/'') (scope_unrooted ?a)"
    by (simp add: scope_components_strip)
  then show "scope_components s \<noteq> []"
    by simp
  have "scope_unrooted ?a \<noteq> []"
    using assms by (auto simp: plain_scope_def)
  then have "?a \<noteq> []"
    by (auto simp: scope_unrooted_def)
  moreover obtain k where "s = ?a @ replicate k (CHR ''/'')"
    by (rule strip_slashes_decomp)
  ultimately show same: "rooted_scope ?a = rooted_scope s"
    by (metis rooted_scope_def append_Cons list.exhaust take_Suc_Cons take0 One_nat_def)
  show "?a = (if rooted_scope s then ''/'' else []) @ join_on (CHR ''/'') (scope_components s)"
    using root by (simp add: c join_split same)
qed

text \<open>Two plain scopes, one of which covers the other, overlap as texts.\<close>

lemma nested_scopes:
  assumes "plain_scope s" and "plain_scope t" and "rooted_scope s = rooted_scope t" and "prefix (scope_components s) (scope_components t)"
  shows "\<not> write_scopes_disjoint (JStr s) (JStr t)" and "\<not> write_scopes_disjoint (JStr t) (JStr s)"
proof -
  obtain zs where zs: "scope_components t = scope_components s @ zs"
    using assms(4) by (auto simp: prefix_def)
  have "strip_slashes t = strip_slashes s \<or> prefix (strip_slashes s @ ''/'') (strip_slashes t)"
  proof (cases "zs = []")
    case True
    then show ?thesis
      by (simp add: plain_scope_text(3) [OF assms(1)] plain_scope_text(3) [OF assms(2)] assms(3) zs)
  next
    case False
    with plain_scope_text(1) [OF assms(1)] show ?thesis
      by (simp add: plain_scope_text(3) [OF assms(1)] plain_scope_text(3) [OF assms(2)] assms(3) zs join_append prefix_def)
  qed
  then show "\<not> write_scopes_disjoint (JStr s) (JStr t)" and "\<not> write_scopes_disjoint (JStr t) (JStr s)"
    by (auto simp: write_scopes_disjoint_def Let_def starts_with_prefix)
qed

lemma disjoint_scopes:
  assumes "write_scopes_disjoint (JStr s) (JStr t)" and "plain_scope s" and "plain_scope t" and "scope_covers s path"
  shows "\<not> scope_covers t path"
proof
  assume "scope_covers t path"
  with assms(4) have "rooted_scope s = rooted_scope t"
      and "prefix (scope_components s) (scope_components t) \<or> prefix (scope_components t) (scope_components s)"
    using prefix_same_cases [of "scope_components s" "scope_components path" "scope_components t"] by (auto simp: scope_covers_def)
  with nested_scopes [of s t] nested_scopes [of t s] assms(1-3) show False
    by auto
qed

lemma serialize_length [simp]: "length (serialize c nodes) = length nodes"
  by (cases c) (simp add: serialize_def Let_def)

lemma serialize_get:
  assumes "k < length nodes" and "i < j"
  shows "dget0 (serialize (i, j) nodes ! k) key
    = (if key = ''parallel'' \<and> k \<in> {i, j} then JBool False else dget0 (nodes ! k) key)"
  using assms by (cases "k = i"; cases "k = j") (simp_all add: serialize_def Let_def)

lemma serialize_all:
  assumes "\<forall>c \<in> set cs. fst c < snd c" and "k < length nodes"
  shows "dget0 (fold serialize cs nodes ! k) key
    = (if key = ''parallel'' \<and> k \<in> fst ` set cs \<union> snd ` set cs then JBool False else dget0 (nodes ! k) key)"
  using assms
proof (induction cs arbitrary: nodes)
  case (Cons c cs)
  then show ?case
    using serialize_get [of k nodes "fst c" "snd c" key] by auto
qed simp

lemma fold_serialize_length [simp]: "length (fold serialize cs nodes) = length nodes"
  by (induction cs arbitrary: nodes) simp_all

lemma wave_conflicts_iff:
  "(i, j) \<in> set (wave_conflicts nodes wave) \<longleftrightarrow> i < j \<and> j < length nodes \<and> in_wave wave (nodes ! i) \<and> in_wave wave (nodes ! j)
     \<and> \<not> write_scopes_disjoint (dget0 (nodes ! i) ''write_scope'') (dget0 (nodes ! j) ''write_scope'')"
  by (auto simp: wave_conflicts_def Let_def image_iff)

text \<open>C34. Tasks that may run side by side write apart: of two tasks of one wave of a task graph without a cycle
  either both are marked as not parallel, or their write scopes are two texts, and when both are plain,
  no path lies in both, with whatever empty or \<open>.\<close> components it is spelled. (A scope that is not plain is compared by its spelling;
  \<open>spelled_scopes_are_disjoint\<close> below shows what that can miss.)\<close>

theorem parallel_tasks_write_apart:
  assumes "parallelism_check show nodes = Some (checked, conflicts)"
    and "compute_waves show (map with_write_scope nodes) = Some (waves, [])" and "wave \<in> set waves"
    and "i < j" and "j < length checked" and "in_wave wave (checked ! i)" and "in_wave wave (checked ! j)"
  shows "dget0 (checked ! i) ''parallel'' = JBool False \<and> dget0 (checked ! j) ''parallel'' = JBool False
     \<or> (\<exists>s t. dget0 (checked ! i) ''write_scope'' = JStr s \<and> dget0 (checked ! j) ''write_scope'' = JStr t
          \<and> (plain_scope s \<and> plain_scope t \<longrightarrow> (\<nexists>path. scope_covers s path \<and> scope_covers t path)))"
proof -
  let ?scoped = "map with_write_scope nodes"
  from assms(1,2) have checked: "checked = fold serialize conflicts ?scoped"
    and conflicts: "conflicts = concat (map (wave_conflicts ?scoped) waves)"
    by (auto simp: parallelism_check_def Let_def)
  have ordered: "\<forall>c \<in> set conflicts. fst c < snd c"
    by (auto simp: conflicts wave_conflicts_iff)
  have length: "length checked = length ?scoped"
    by (simp add: checked)
  have get: "dget0 (checked ! k) key
      = (if key = ''parallel'' \<and> k \<in> fst ` set conflicts \<union> snd ` set conflicts then JBool False else dget0 (?scoped ! k) key)"
    if "k < length checked" for k key
    unfolding checked using that length by (intro serialize_all [OF ordered]) simp
  show ?thesis
  proof (cases "write_scopes_disjoint (dget0 (?scoped ! i) ''write_scope'') (dget0 (?scoped ! j) ''write_scope'')")
    case True
    then obtain s t where "dget0 (?scoped ! i) ''write_scope'' = JStr s" "dget0 (?scoped ! j) ''write_scope'' = JStr t"
      by (auto simp: write_scopes_disjoint_def split: json.splits)
    moreover from this True disjoint_scopes [of s t] have "plain_scope s \<and> plain_scope t \<longrightarrow> (\<nexists>path. scope_covers s path \<and> scope_covers t path)"
      by auto
    ultimately show ?thesis
      using assms(4,5) get by simp
  next
    case False
    with assms(3-7) get length have "(i, j) \<in> set conflicts"
      unfolding conflicts in_wave_def by (auto simp: wave_conflicts_iff in_wave_def)
    with get assms(4,5) show ?thesis
      by (force simp: image_iff)
  qed
qed

section \<open>Examples\<close>

lemma sample_scoped: "map with_write_scope sample_tasks = sample_tasks"
  by code_simp

lemma sample_checked:
  "parallelism_check (\<lambda>_. []) sample_tasks = Some (serialize (0, 2) sample_tasks, [(0, 2)])"
  by code_simp

theorem parallel_tasks_write_apart_witness:
  "\<exists>checked conflicts. parallelism_check (\<lambda>_. []) sample_tasks = Some (checked, conflicts)
     \<and> dget0 (checked ! 0) ''parallel'' = JBool False \<and> dget0 (checked ! 2) ''parallel'' = JBool False"
proof -
  let ?checked = "serialize (0, 2) sample_tasks"
  have "in_wave [''b'', ''c''] (?checked ! 0)" "in_wave [''b'', ''c''] (?checked ! 2)" "2 < length ?checked"
    "plain_scope ''src/core/''" "plain_scope ''src''" "scope_covers ''src/core/'' ''src/core''" "scope_covers ''src'' ''src/core''"
    "dget0 (?checked ! 0) ''write_scope'' = JStr ''src/core/''" "dget0 (?checked ! 2) ''write_scope'' = JStr ''src''"
    by code_simp+
  with parallel_tasks_write_apart [OF sample_checked, of "[[''a''], [''b'', ''c'']]" "[''b'', ''c'']" 0 2] sample_waves
  have "dget0 (?checked ! 0) ''parallel'' = JBool False \<and> dget0 (?checked ! 2) ''parallel'' = JBool False"
    by (auto simp: sample_scoped)
  with sample_checked show ?thesis
    by blast
qed

theorem stated_boundary_survives_witness:
  "claim_status (build_claim_contract (\<lambda>_. []) sample_mission) ''do not claim a speedup'' = Forbidden"
proof -
  have "clean ''do not claim a speedup'' \<noteq> []" "''do not claim a speedup'' \<in> set (claim_non_goals (\<lambda>_. []) sample_mission)"
    by code_simp+
  then show ?thesis
    by (intro stated_boundary_survives) blast+
qed

text \<open>
  Scopes are compared as texts: two spellings of one directory count as disjoint, and so does the whole
  project next to a part of it.
\<close>

lemma spelled_scopes_are_disjoint:
  "write_scopes_disjoint (JStr ''src'') (JStr ''./src'')" "scope_covers ''src'' ''src/a'' \<and> scope_covers ''./src'' ''src/a''"
  "write_scopes_disjoint (JStr ''.'') (JStr ''src/core'')" "scope_covers ''.'' ''src/core'' \<and> scope_covers ''src/core'' ''src/core''"
  by code_simp+

text \<open>
  A non-goal about two claims adds no entry when one of them is forbidden already, so the other stays allowed.
\<close>

definition covered_mission :: mission where
  "covered_mission = sample_mission
     \<lparr>ms_non_goals := [sample_said (JStr ''do not claim a speedup or novel physics'')],
      ms_claims := Some \<lparr>ce_allowed = [''speedup''], ce_deferred = [], ce_forbidden = [''novel physics''],
                        ce_promotion_gate = None, ce_evidence_level = None\<rparr>\<rparr>"

lemma covered_non_goal_leaves_a_claim:
  "list_ex (overlapping ''speedup'') (claim_non_goals (\<lambda>_. []) covered_mission)"
  "claim_is_allowed (build_claim_contract (\<lambda>_. []) covered_mission) ''speedup''"
  by code_simp+

end
