(* ===== verification/Skills.thy ===== *)
theory Skills
  imports Manifest
begin

text \<open>
  The contracts of skill discovery (\<open>skills/models.py\<close>): skill descriptors, index snapshots and
  composition requests, with the checks of their constructors and their wire formats.

  Numbers are converted with \<open>float\<close> and kept as exact rationals; whatever the code raises is \<open>None\<close>.
  The current time is an instant or a text, as the code takes both.
\<close>

section \<open>Checks\<close>

definition short_text :: "nat \<Rightarrow> json \<Rightarrow> string option" where
  "short_text maximum v = do { s \<leftarrow> stripped_text v; require (length s \<le> maximum); Some s }"

definition skill_identifier :: "json \<Rightarrow> string option" where
  "skill_identifier v = do { s \<leftarrow> short_text 128 v; require (identifier_re s); Some s }"

definition semantic_version :: "json \<Rightarrow> string option" where
  "semantic_version v = (case v of JStr s \<Rightarrow> if version_tuple s \<noteq> None then Some s else None | _ \<Rightarrow> None)"

definition tag_re :: "string \<Rightarrow> bool" where
  "tag_re s \<longleftrightarrow> (case s of [] \<Rightarrow> False
     | c # cs \<Rightarrow> name_char c \<and> length cs \<le> 63 \<and> list_all (\<lambda>x. name_char x \<or> x \<in> set ''._:-'') cs)"

definition tag :: "json \<Rightarrow> string option" where
  "tag v = do { s \<leftarrow> short_text 64 v; require (tag_re s); Some s }"

definition selector_tag :: "json \<Rightarrow> string option" where
  "selector_tag v = (if v = JStr ''*'' then Some ''*'' else tag v)"

text \<open>\<open>_string_tuple\<close>: an array of checked texts without repetition.\<close>

definition tuple_of :: "(json \<Rightarrow> string option) \<Rightarrow> json \<Rightarrow> string list option" where
  "tuple_of item v = (case v of
     JArr vs \<Rightarrow> do { xs \<leftarrow> checked_list item vs; require (distinct xs); Some xs }
   | _ \<Rightarrow> None)"

definition nonempty_tuple_of :: "(json \<Rightarrow> string option) \<Rightarrow> json \<Rightarrow> string list option" where
  "nonempty_tuple_of item v = do { xs \<leftarrow> tuple_of item v; require (xs \<noteq> []); Some xs }"

definition float_of :: "json \<Rightarrow> rat option" where
  "float_of v = (case v of JInt i \<Rightarrow> if fits_float i then Some (of_int i) else None | JFloat q \<Rightarrow> Some q | _ \<Rightarrow> None)"

definition nonnegative :: "json \<Rightarrow> rat option" where
  "nonnegative v = do { q \<leftarrow> float_of v; require (0 \<le> q); Some q }"

definition share :: "json \<Rightarrow> rat option" where
  "share v = do { q \<leftarrow> float_of v; require (0 \<le> q); require (q \<le> 1); Some q }"

definition vector :: "json \<Rightarrow> rat list option" where
  "vector v = (case v of
     JArr vs \<Rightarrow> do {
       require (1 \<le> length vs \<and> length vs \<le> 4096);
       xs \<leftarrow> checked_list float_of vs;
       require (list_ex (\<lambda>q. q \<noteq> 0) xs);
       Some xs }
   | _ \<Rightarrow> None)"

definition skill_timestamp :: "json \<Rightarrow> string option" where
  "skill_timestamp v = do { s \<leftarrow> short_text 64 v; timestamp (JStr s) }"

definition index_api_version :: string where
  "index_api_version = ''local-agent-dispatch.skill-index.v1''"

definition request_api_version :: string where
  "request_api_version = ''local-agent-dispatch.skill-composition-request.v1''"

definition check_skill_version :: "dict \<Rightarrow> string \<Rightarrow> unit option" where
  "check_skill_version d api = do {
     require (dget0 d ''schema_version'' = JInt 1);
     require (dget0 d ''api_version'' = JStr api) }"

section \<open>Skill descriptors\<close>

definition availabilities :: "string list" where
  "availabilities = [''available'', ''unknown'', ''disabled'']"

record skill =
  sk_id :: string
  sk_version :: string
  sk_title :: string
  sk_description :: string
  sk_capabilities :: "string list"
  sk_facets :: "string list"
  sk_platforms :: "string list"
  sk_harnesses :: "string list"
  sk_cost :: rat
  sk_uncertainty :: rat
  sk_embedding :: "rat list"
  sk_availability :: string

definition skill_fields :: "string list" where
  "skill_fields =
     [''schema_version'', ''api_version'', ''skill_id'', ''version'', ''title'', ''description'', ''capabilities'',
      ''facets'', ''platforms'', ''harnesses'', ''estimated_cost'', ''uncertainty'', ''embedding'', ''availability'']"

definition line_break :: "char \<Rightarrow> bool" where
  "line_break c \<longleftrightarrow> c = CHR 0x0A \<or> c = CHR 0x0D"

definition skill_post_init :: "dict \<Rightarrow> skill option" where
  "skill_post_init d = do {
     check_skill_version d index_api_version;
     name \<leftarrow> skill_identifier (dget0 d ''skill_id'');
     version \<leftarrow> semantic_version (dget0 d ''version'');
     title \<leftarrow> short_text 120 (dget0 d ''title'');
     description \<leftarrow> short_text 280 (dget0 d ''description'');
     require (\<not> list_ex line_break description);
     capabilities \<leftarrow> nonempty_tuple_of tag (dget0 d ''capabilities'');
     facets \<leftarrow> nonempty_tuple_of tag (dget0 d ''facets'');
     platforms \<leftarrow> nonempty_tuple_of selector_tag (dget0 d ''platforms'');
     harnesses \<leftarrow> nonempty_tuple_of selector_tag (dget0 d ''harnesses'');
     cost \<leftarrow> nonnegative (dget0 d ''estimated_cost'');
     uncertainty \<leftarrow> share (dget0 d ''uncertainty'');
     embedding \<leftarrow> vector (dget0 d ''embedding'');
     availability \<leftarrow> enum availabilities (dget0 d ''availability'');
     Some \<lparr>sk_id = name, sk_version = version, sk_title = title, sk_description = description,
           sk_capabilities = capabilities, sk_facets = facets, sk_platforms = platforms, sk_harnesses = harnesses,
           sk_cost = cost, sk_uncertainty = uncertainty, sk_embedding = embedding, sk_availability = availability\<rparr> }"

definition strings :: "string list \<Rightarrow> json" where
  "strings xs = JArr (map JStr xs)"

definition floats :: "rat list \<Rightarrow> json" where
  "floats xs = JArr (map JFloat xs)"

definition skill_to_dict :: "skill \<Rightarrow> json" where
  "skill_to_dict x = JObj
     [(''schema_version'', JInt 1), (''api_version'', JStr index_api_version), (''skill_id'', JStr (sk_id x)),
      (''version'', JStr (sk_version x)), (''title'', JStr (sk_title x)), (''description'', JStr (sk_description x)),
      (''capabilities'', strings (sk_capabilities x)), (''facets'', strings (sk_facets x)),
      (''platforms'', strings (sk_platforms x)), (''harnesses'', strings (sk_harnesses x)),
      (''estimated_cost'', JFloat (sk_cost x)), (''uncertainty'', JFloat (sk_uncertainty x)),
      (''embedding'', floats (sk_embedding x)), (''availability'', JStr (sk_availability x))]"

definition skill_from_dict :: "json \<Rightarrow> skill option" where
  "skill_from_dict v = do { d \<leftarrow> strict_object skill_fields v; skill_post_init d }"

section \<open>Index snapshots\<close>

record skill_index =
  si_id :: string
  si_generated_at :: string
  si_ttl_seconds :: "int option"
  si_evidence_state :: string
  si_source_digest :: string
  si_embedding_model :: string
  si_embedding_dimensions :: int
  si_skills :: "skill list"

definition skill_index_fields :: "string list" where
  "skill_index_fields =
     [''schema_version'', ''api_version'', ''index_id'', ''generated_at'', ''ttl_seconds'', ''evidence_state'',
      ''source_digest'', ''embedding_model'', ''embedding_dimensions'', ''skills'']"

definition sha256_digest :: "json \<Rightarrow> string option" where
  "sha256_digest v = (case v of JStr s \<Rightarrow> if is_digest_of ''sha256:'' 64 s then Some s else None | _ \<Rightarrow> None)"

definition skill_index_post_init :: "dict \<Rightarrow> skill list \<Rightarrow> skill_index option" where
  "skill_index_post_init d skills = do {
     check_skill_version d index_api_version;
     name \<leftarrow> skill_identifier (dget0 d ''index_id'');
     generated \<leftarrow> skill_timestamp (dget0 d ''generated_at'');
     ttl \<leftarrow> optional (integer 1) (dget0 d ''ttl_seconds'');
     state \<leftarrow> enum [''complete'', ''unknown''] (dget0 d ''evidence_state'');
     digest \<leftarrow> sha256_digest (dget0 d ''source_digest'');
     model \<leftarrow> skill_identifier (dget0 d ''embedding_model'');
     dimensions \<leftarrow> integer 1 (dget0 d ''embedding_dimensions'');
     require (dimensions \<le> 4096);
     require (skills \<noteq> []);
     require (distinct (map sk_id skills));
     require (list_all (\<lambda>s. int (length (sk_embedding s)) = dimensions) skills);
     Some \<lparr>si_id = name, si_generated_at = generated, si_ttl_seconds = ttl, si_evidence_state = state,
           si_source_digest = digest, si_embedding_model = model, si_embedding_dimensions = dimensions,
           si_skills = skills\<rparr> }"

definition skill_index_to_dict :: "skill_index \<Rightarrow> json" where
  "skill_index_to_dict x = JObj
     [(''schema_version'', JInt 1), (''api_version'', JStr index_api_version), (''index_id'', JStr (si_id x)),
      (''generated_at'', JStr (si_generated_at x)), (''ttl_seconds'', opt_json JInt (si_ttl_seconds x)),
      (''evidence_state'', JStr (si_evidence_state x)), (''source_digest'', JStr (si_source_digest x)),
      (''embedding_model'', JStr (si_embedding_model x)), (''embedding_dimensions'', JInt (si_embedding_dimensions x)),
      (''skills'', JArr (map skill_to_dict (si_skills x)))]"

definition skills_of :: "json \<Rightarrow> skill list option" where
  "skills_of v = (case v of JArr vs \<Rightarrow> checked_list skill_from_dict vs | _ \<Rightarrow> None)"

definition skill_index_from_dict :: "json \<Rightarrow> skill_index option" where
  "skill_index_from_dict v = do {
     d \<leftarrow> strict_object skill_index_fields v;
     skills \<leftarrow> skills_of (dget0 d ''skills'');
     skill_index_post_init d skills }"

text \<open>The instant a caller passes as the current time, or the text of one.\<close>

datatype moment = Instant int | Stamp string

definition current_time :: "moment \<Rightarrow> int option" where
  "current_time now = (case now of
     Instant t \<Rightarrow> Some t
   | Stamp s \<Rightarrow> do { skill_timestamp (JStr s); parse_timestamp s })"

definition index_freshness :: "skill_index \<Rightarrow> moment \<Rightarrow> string option" where
  "index_freshness x now =
     (case si_ttl_seconds x of
        None \<Rightarrow> Some ''unknown''
      | Some ttl \<Rightarrow>
          if si_evidence_state x \<noteq> ''complete'' then Some ''unknown''
          else do {
            current \<leftarrow> current_time now;
            generated \<leftarrow> parse_timestamp (si_generated_at x);
            Some (if current < generated then ''unknown''
                  else if current - generated \<le> ttl * 1000000 then ''fresh'' else ''stale'') })"

section \<open>Composition requests\<close>

definition selection_sizes :: "int list" where
  "selection_sizes = [3, 5, 10]"

record composition_request =
  cr_id :: string
  cr_k :: int
  cr_required :: "string list"
  cr_desired :: "string list"
  cr_platform :: string
  cr_harness :: string
  cr_allowed :: "string list"
  cr_prohibited :: "string list"
  cr_max_total_cost :: rat
  cr_max_uncertainty :: rat
  cr_query :: "rat list"

definition request_fields :: "string list" where
  "request_fields =
     [''schema_version'', ''api_version'', ''request_id'', ''k'', ''required_capabilities'', ''desired_facets'',
      ''platform'', ''harness'', ''allowed_skill_ids'', ''prohibited_skill_ids'', ''max_total_cost'',
      ''max_skill_uncertainty'', ''query_embedding'']"

definition selection_size :: "json \<Rightarrow> int option" where
  "selection_size v = (case v of JInt i \<Rightarrow> if i \<in> set selection_sizes then Some i else None | _ \<Rightarrow> None)"

definition request_post_init :: "dict \<Rightarrow> composition_request option" where
  "request_post_init d = do {
     check_skill_version d request_api_version;
     name \<leftarrow> skill_identifier (dget0 d ''request_id'');
     k \<leftarrow> selection_size (dget0 d ''k'');
     required \<leftarrow> nonempty_tuple_of tag (dget0 d ''required_capabilities'');
     desired \<leftarrow> tuple_of tag (dget0 d ''desired_facets'');
     platform \<leftarrow> selector_tag (dget0 d ''platform'');
     harness \<leftarrow> selector_tag (dget0 d ''harness'');
     allowed \<leftarrow> tuple_of skill_identifier (dget0 d ''allowed_skill_ids'');
     prohibited \<leftarrow> tuple_of skill_identifier (dget0 d ''prohibited_skill_ids'');
     require (set allowed \<inter> set prohibited = {});
     cost \<leftarrow> nonnegative (dget0 d ''max_total_cost'');
     uncertainty \<leftarrow> share (dget0 d ''max_skill_uncertainty'');
     query \<leftarrow> vector (dget0 d ''query_embedding'');
     Some \<lparr>cr_id = name, cr_k = k, cr_required = required, cr_desired = desired, cr_platform = platform,
           cr_harness = harness, cr_allowed = allowed, cr_prohibited = prohibited, cr_max_total_cost = cost,
           cr_max_uncertainty = uncertainty, cr_query = query\<rparr> }"

definition request_to_dict :: "composition_request \<Rightarrow> json" where
  "request_to_dict x = JObj
     [(''schema_version'', JInt 1), (''api_version'', JStr request_api_version), (''request_id'', JStr (cr_id x)),
      (''k'', JInt (cr_k x)), (''required_capabilities'', strings (cr_required x)),
      (''desired_facets'', strings (cr_desired x)), (''platform'', JStr (cr_platform x)),
      (''harness'', JStr (cr_harness x)), (''allowed_skill_ids'', strings (cr_allowed x)),
      (''prohibited_skill_ids'', strings (cr_prohibited x)), (''max_total_cost'', JFloat (cr_max_total_cost x)),
      (''max_skill_uncertainty'', JFloat (cr_max_uncertainty x)), (''query_embedding'', floats (cr_query x))]"

definition request_from_dict :: "json \<Rightarrow> composition_request option" where
  "request_from_dict v = do { d \<leftarrow> strict_object request_fields v; request_post_init d }"

section \<open>A value that was read is read again\<close>

declare canon.simps(7) [simp del]

lemma short_text_again: "short_text n v = Some s \<Longrightarrow> short_text n (JStr s) = Some s"
  by (auto simp: short_text_def bind_eq_Some_conv dest: stripped_text_again)

lemma skill_identifier_again: "skill_identifier v = Some s \<Longrightarrow> skill_identifier (JStr s) = Some s"
  by (auto simp: skill_identifier_def bind_eq_Some_conv dest: short_text_again)

lemma semantic_version_again: "semantic_version v = Some s \<Longrightarrow> semantic_version (JStr s) = Some s"
  by (auto simp: semantic_version_def split: json.splits if_splits)

lemma tag_again: "tag v = Some s \<Longrightarrow> tag (JStr s) = Some s"
  by (auto simp: tag_def bind_eq_Some_conv dest: short_text_again)

lemma selector_tag_again: "selector_tag v = Some s \<Longrightarrow> selector_tag (JStr s) = Some s"
  by (auto simp: selector_tag_def dest: tag_again split: if_splits)

lemma sha256_digest_again: "sha256_digest v = Some s \<Longrightarrow> sha256_digest (JStr s) = Some s"
  by (auto simp: sha256_digest_def split: json.splits if_splits)

lemma skill_timestamp_again: "skill_timestamp v = Some s \<Longrightarrow> skill_timestamp (JStr s) = Some s"
  by (auto simp: skill_timestamp_def bind_eq_Some_conv timestamp_Some dest: short_text_again)

lemma selection_size_again: "selection_size v = Some k \<Longrightarrow> selection_size (JInt k) = Some k"
  by (auto simp: selection_size_def split: json.splits if_splits)

lemma nonnegative_again: "nonnegative v = Some q \<Longrightarrow> nonnegative (JFloat q) = Some q"
  by (auto simp: nonnegative_def float_of_def bind_eq_Some_conv)

lemma share_again: "share v = Some q \<Longrightarrow> share (JFloat q) = Some q"
  by (auto simp: share_def float_of_def bind_eq_Some_conv)

lemma checked_list_again:
  assumes "checked_list f vs = Some xs" and "\<And>v x. f v = Some x \<Longrightarrow> f (g x) = Some x"
  shows "checked_list f (map g xs) = Some xs"
  using assms by (intro checked_list_map) (auto simp: checked_list_Some list_all2_conv_all_nth in_set_conv_nth)

lemma tuple_of_again:
  assumes "tuple_of item v = Some xs" and "\<And>v x. item v = Some x \<Longrightarrow> item (JStr x) = Some x"
  shows "tuple_of item (JArr (map JStr xs)) = Some xs"
  using assms by (cases v) (auto simp: tuple_of_def bind_eq_Some_conv intro: checked_list_again)

lemma nonempty_tuple_of_again:
  assumes "nonempty_tuple_of item v = Some xs" and "\<And>v x. item v = Some x \<Longrightarrow> item (JStr x) = Some x"
  shows "nonempty_tuple_of item (JArr (map JStr xs)) = Some xs"
  using assms tuple_of_again [of item v xs] by (auto simp: nonempty_tuple_of_def bind_eq_Some_conv)

lemma vector_again:
  assumes "vector v = Some xs"
  shows "vector (JArr (map JFloat xs)) = Some xs"
proof -
  obtain vs where v: "v = JArr vs" "checked_list float_of vs = Some xs" "1 \<le> length vs" "length vs \<le> 4096"
    "list_ex (\<lambda>q. q \<noteq> 0) xs"
    using assms by (cases v) (auto simp: vector_def bind_eq_Some_conv)
  moreover have "length xs = length vs"
    using v(2) by (auto simp: checked_list_Some list_all2_lengthD)
  moreover have "checked_list float_of (map JFloat xs) = Some xs"
    by (rule checked_list_map) (simp add: float_of_def)
  ultimately show ?thesis
    by (simp add: vector_def)
qed

lemmas skill_again = short_text_again skill_identifier_again semantic_version_again tag_again selector_tag_again
  sha256_digest_again skill_timestamp_again selection_size_again nonnegative_again share_again vector_again
  tuple_of_again nonempty_tuple_of_again

lemma check_skill_version_Some [simp]:
  "check_skill_version d api = Some u \<longleftrightarrow> dget0 d ''schema_version'' = JInt 1 \<and> dget0 d ''api_version'' = JStr api"
  by (auto simp: check_skill_version_def bind_eq_Some_conv)

section \<open>Wire formats\<close>

lemma skill_post_init_Some:
  "skill_post_init d = Some x \<longleftrightarrow>
     dget0 d ''schema_version'' = JInt 1 \<and> dget0 d ''api_version'' = JStr index_api_version \<and>
     skill_identifier (dget0 d ''skill_id'') = Some (sk_id x) \<and>
     semantic_version (dget0 d ''version'') = Some (sk_version x) \<and>
     short_text 120 (dget0 d ''title'') = Some (sk_title x) \<and>
     short_text 280 (dget0 d ''description'') = Some (sk_description x) \<and>
     \<not> list_ex line_break (sk_description x) \<and>
     nonempty_tuple_of tag (dget0 d ''capabilities'') = Some (sk_capabilities x) \<and>
     nonempty_tuple_of tag (dget0 d ''facets'') = Some (sk_facets x) \<and>
     nonempty_tuple_of selector_tag (dget0 d ''platforms'') = Some (sk_platforms x) \<and>
     nonempty_tuple_of selector_tag (dget0 d ''harnesses'') = Some (sk_harnesses x) \<and>
     nonnegative (dget0 d ''estimated_cost'') = Some (sk_cost x) \<and>
     share (dget0 d ''uncertainty'') = Some (sk_uncertainty x) \<and>
     vector (dget0 d ''embedding'') = Some (sk_embedding x) \<and>
     enum availabilities (dget0 d ''availability'') = Some (sk_availability x)"
  by (cases x) (auto simp: skill_post_init_def bind_eq_Some_conv)

lemma array_leaf [simp]:
  "map (canon \<circ> JFloat) qs = map JFloat qs" "canon (strings xs) = strings xs" "canon (floats qs) = floats qs"
  "no_dup_keys (strings xs)" "no_dup_keys (floats qs)"
  by (simp_all add: strings_def floats_def list_all_iff)

interpretation skill_wire: wire skill_from_dict skill_to_dict
proof
  fix v x assume "skill_from_dict v = Some x"
  then obtain d where "skill_post_init d = Some x"
    by (auto simp: skill_from_dict_def bind_eq_Some_conv)
  then show "skill_from_dict (canon (skill_to_dict x)) = Some x"
    by (auto simp: wire_simps skill_from_dict_def skill_post_init_Some skill_to_dict_def skill_fields_def
        strings_def floats_def intro: skill_again)
qed (simp_all add: skill_to_dict_def)

lemma skill_index_post_init_Some:
  "skill_index_post_init d skills = Some x \<longleftrightarrow>
     dget0 d ''schema_version'' = JInt 1 \<and> dget0 d ''api_version'' = JStr index_api_version \<and>
     skill_identifier (dget0 d ''index_id'') = Some (si_id x) \<and>
     skill_timestamp (dget0 d ''generated_at'') = Some (si_generated_at x) \<and>
     optional (integer 1) (dget0 d ''ttl_seconds'') = Some (si_ttl_seconds x) \<and>
     enum [''complete'', ''unknown''] (dget0 d ''evidence_state'') = Some (si_evidence_state x) \<and>
     sha256_digest (dget0 d ''source_digest'') = Some (si_source_digest x) \<and>
     skill_identifier (dget0 d ''embedding_model'') = Some (si_embedding_model x) \<and>
     integer 1 (dget0 d ''embedding_dimensions'') = Some (si_embedding_dimensions x) \<and>
     si_embedding_dimensions x \<le> 4096 \<and> skills \<noteq> [] \<and> distinct (map sk_id skills) \<and>
     list_all (\<lambda>s. int (length (sk_embedding s)) = si_embedding_dimensions x) skills \<and> si_skills x = skills"
  by (cases x) (auto simp: skill_index_post_init_def bind_eq_Some_conv)

lemma skills_of_Some: "skills_of v = Some skills \<longleftrightarrow> (\<exists>vs. v = JArr vs \<and> checked_list skill_from_dict vs = Some skills)"
  by (cases v) (simp_all add: skills_of_def)

interpretation skill_index_wire: wire skill_index_from_dict skill_index_to_dict
proof
  fix v x assume "skill_index_from_dict v = Some x"
  then obtain d vs skills where d: "skill_index_post_init d skills = Some x" and vs: "checked_list skill_from_dict vs = Some skills"
    by (auto simp: skill_index_from_dict_def skills_of_Some bind_eq_Some_conv)
  then have "skills = si_skills x"
    by (simp add: skill_index_post_init_Some)
  with d skill_wire.array [OF vs] show "skill_index_from_dict (canon (skill_index_to_dict x)) = Some x"
    by (auto simp: wire_simps skill_index_from_dict_def skills_of_Some skill_index_post_init_Some skill_index_to_dict_def
        skill_index_fields_def intro: skill_again)
  from skill_wire.array_clean [OF vs] \<open>skills = _\<close> show "no_dup_keys (skill_index_to_dict x)"
    by (simp add: skill_index_to_dict_def list_all_iff)
qed (simp add: skill_index_to_dict_def)

lemma request_post_init_Some:
  "request_post_init d = Some x \<longleftrightarrow>
     dget0 d ''schema_version'' = JInt 1 \<and> dget0 d ''api_version'' = JStr request_api_version \<and>
     skill_identifier (dget0 d ''request_id'') = Some (cr_id x) \<and>
     selection_size (dget0 d ''k'') = Some (cr_k x) \<and>
     nonempty_tuple_of tag (dget0 d ''required_capabilities'') = Some (cr_required x) \<and>
     tuple_of tag (dget0 d ''desired_facets'') = Some (cr_desired x) \<and>
     selector_tag (dget0 d ''platform'') = Some (cr_platform x) \<and>
     selector_tag (dget0 d ''harness'') = Some (cr_harness x) \<and>
     tuple_of skill_identifier (dget0 d ''allowed_skill_ids'') = Some (cr_allowed x) \<and>
     tuple_of skill_identifier (dget0 d ''prohibited_skill_ids'') = Some (cr_prohibited x) \<and>
     set (cr_allowed x) \<inter> set (cr_prohibited x) = {} \<and>
     nonnegative (dget0 d ''max_total_cost'') = Some (cr_max_total_cost x) \<and>
     share (dget0 d ''max_skill_uncertainty'') = Some (cr_max_uncertainty x) \<and>
     vector (dget0 d ''query_embedding'') = Some (cr_query x)"
  by (cases x) (auto simp: request_post_init_def bind_eq_Some_conv)

interpretation request_wire: wire request_from_dict request_to_dict
proof
  fix v x assume "request_from_dict v = Some x"
  then obtain d where "request_post_init d = Some x"
    by (auto simp: request_from_dict_def bind_eq_Some_conv)
  then show "request_from_dict (canon (request_to_dict x)) = Some x"
    by (auto simp: wire_simps request_from_dict_def request_post_init_Some request_to_dict_def request_fields_def
        strings_def floats_def intro: skill_again)
qed (simp_all add: request_to_dict_def)

end
