(* ===== verification/Composition.thy ===== *)
theory Composition
  imports Skills "HOL-Library.AList"
begin

text \<open>
  Search and composition of skills (\<open>skills/composition.py\<close>): hard filters first, then a greedy choice by
  marginal utility in which every step is checked, by an exact dynamic program over covered capabilities,
  to leave a completion that covers what is required within the budget.

  Costs and scores are exact rationals: the decimal numbers that the doubles of the code print as, added
  without rounding. \<open>cosine\<close>, the rounded cosine of two vectors, is a parameter, and so is \<open>digest\<close>, the
  SHA-256 of a canonical JSON text. The work budget and the state budget of the dynamic program are those of
  the code.
\<close>

unbundle bit_operations_syntax

section \<open>Results\<close>

datatype composition_error =
  BadTime | IndexNotFresh string | DimensionsDiffer | BadLimit
| TooManyRequired | TooManyCandidates | TooFewSkills | CapabilityUnavailable
| WorkExceeded | StatesExceeded | NoCompletion | NotCovered | OverBudget

record search_hit =
  sh_id :: string
  sh_version :: string
  sh_title :: string
  sh_description :: string
  sh_similarity :: rat
  sh_capabilities :: "string list"
  sh_facets :: "string list"
  sh_cost :: rat
  sh_uncertainty :: rat

definition hit_to_dict :: "search_hit \<Rightarrow> json" where
  "hit_to_dict x = JObj
     [(''skill_id'', JStr (sh_id x)), (''version'', JStr (sh_version x)), (''title'', JStr (sh_title x)),
      (''description'', JStr (sh_description x)), (''similarity'', JFloat (sh_similarity x)),
      (''matched_capabilities'', strings (sh_capabilities x)), (''matched_facets'', strings (sh_facets x)),
      (''estimated_cost'', JFloat (sh_cost x)), (''uncertainty'', JFloat (sh_uncertainty x))]"

record planned_skill =
  ps_rank :: nat
  ps_id :: string
  ps_version :: string
  ps_similarity :: rat
  ps_capabilities :: "string list"
  ps_facets :: "string list"
  ps_cost :: rat
  ps_uncertainty :: rat
  ps_score :: rat

definition planned_to_dict :: "planned_skill \<Rightarrow> json" where
  "planned_to_dict x = JObj
     [(''rank'', JInt (int (ps_rank x))), (''skill_id'', JStr (ps_id x)), (''version'', JStr (ps_version x)),
      (''similarity'', JFloat (ps_similarity x)), (''marginal_capabilities'', strings (ps_capabilities x)),
      (''marginal_facets'', strings (ps_facets x)), (''estimated_cost'', JFloat (ps_cost x)),
      (''uncertainty'', JFloat (ps_uncertainty x)), (''selection_score'', JFloat (ps_score x))]"

record objective =
  ob_required_coverage :: rat
  ob_desired_coverage :: rat
  ob_relevance :: rat
  ob_complementarity :: rat
  ob_redundancy :: rat
  ob_cost :: rat
  ob_uncertainty :: rat
  ob_total :: rat

definition objective_to_dict :: "objective \<Rightarrow> json" where
  "objective_to_dict x = JObj
     [(''required_coverage'', JFloat (ob_required_coverage x)), (''desired_facet_coverage'', JFloat (ob_desired_coverage x)),
      (''mean_relevance'', JFloat (ob_relevance x)), (''complementarity'', JFloat (ob_complementarity x)),
      (''redundancy'', JFloat (ob_redundancy x)), (''normalized_cost'', JFloat (ob_cost x)),
      (''mean_uncertainty'', JFloat (ob_uncertainty x)), (''total'', JFloat (ob_total x))]"

record composition_plan =
  cp_plan_id :: string
  cp_request_id :: string
  cp_index_id :: string
  cp_index_generated_at :: string
  cp_index_source_digest :: string
  cp_generated_at :: string
  cp_k :: int
  cp_eligible :: nat
  cp_selected :: "planned_skill list"
  cp_capabilities :: "string list"
  cp_facets :: "string list"
  cp_cost :: rat
  cp_uncertainty :: rat
  cp_objective :: objective
  cp_filter_counts :: "(string \<times> nat) list"

definition plan_api_version :: string where
  "plan_api_version = ''local-agent-dispatch.skill-composition-plan.v1''"

definition composition_plan_to_dict :: "composition_plan \<Rightarrow> json" where
  "composition_plan_to_dict x = JObj
     [(''schema_version'', JInt 1), (''api_version'', JStr plan_api_version), (''plan_id'', JStr (cp_plan_id x)),
      (''request_id'', JStr (cp_request_id x)), (''index_id'', JStr (cp_index_id x)),
      (''index_generated_at'', JStr (cp_index_generated_at x)),
      (''index_source_digest'', JStr (cp_index_source_digest x)), (''generated_at'', JStr (cp_generated_at x)),
      (''k'', JInt (cp_k x)), (''eligible_skill_count'', JInt (int (cp_eligible x))),
      (''selected'', JArr (map planned_to_dict (cp_selected x))), (''covered_capabilities'', strings (cp_capabilities x)),
      (''covered_facets'', strings (cp_facets x)), (''total_estimated_cost'', JFloat (cp_cost x)),
      (''mean_uncertainty'', JFloat (cp_uncertainty x)), (''objective'', objective_to_dict (cp_objective x)),
      (''hard_filter_counts'', JArr (map (\<lambda>(r, n). JObj [(''reason'', JStr r), (''count'', JInt (int n))]) (cp_filter_counts x)))]"

section \<open>Hard filters\<close>

definition assert_usable :: "skill_index \<Rightarrow> composition_request \<Rightarrow> moment \<Rightarrow> composition_error option" where
  "assert_usable x request now = (case index_freshness x now of
     None \<Rightarrow> Some BadTime
   | Some state \<Rightarrow>
       if state \<noteq> ''fresh'' then Some (IndexNotFresh state)
       else if int (length (cr_query request)) \<noteq> si_embedding_dimensions x then Some DimensionsDiffer
       else None)"

definition supports_value :: "string list \<Rightarrow> string \<Rightarrow> bool" where
  "supports_value vs requested \<longleftrightarrow> requested = ''*'' \<or> ''*'' \<in> set vs \<or> requested \<in> set vs"

definition within_budget :: "rat \<Rightarrow> rat \<Rightarrow> bool" where
  "within_budget cost budget \<longleftrightarrow> cost \<le> budget"

definition filter_reason :: "composition_request \<Rightarrow> skill \<Rightarrow> string option" where
  "filter_reason request s =
     (if sk_availability s \<noteq> ''available'' then Some ''availability_not_verified''
      else if cr_allowed request \<noteq> [] \<and> sk_id s \<notin> set (cr_allowed request) then Some ''not_in_allowlist''
      else if sk_id s \<in> set (cr_prohibited request) then Some ''prohibited''
      else if \<not> supports_value (sk_platforms s) (cr_platform request) then Some ''platform_mismatch''
      else if \<not> supports_value (sk_harnesses s) (cr_harness request) then Some ''harness_mismatch''
      else if cr_max_uncertainty request < sk_uncertainty s then Some ''uncertainty_above_ceiling''
      else if \<not> within_budget (sk_cost s) (cr_max_total_cost request) then Some ''individual_cost_above_budget''
      else None)"

definition skill_identity :: "skill \<Rightarrow> string \<times> string" where
  "skill_identity s = (sk_id s, sk_version s)"

definition hard_filter :: "skill_index \<Rightarrow> composition_request \<Rightarrow> skill list \<times> (string \<times> nat) list" where
  "hard_filter x request =
     (let ordered = sort_key skill_identity (si_skills x);
          reasons = List.map_filter (filter_reason request) ordered
      in (filter (\<lambda>s. filter_reason request s = None) ordered,
          map (\<lambda>r. (r, count_list reasons r)) (sort (remdups reasons))))"

section \<open>Search\<close>

definition common :: "string list \<Rightarrow> string list \<Rightarrow> string list" where
  "common xs ys = sort (filter (\<lambda>x. x \<in> set ys) (remdups xs))"

definition hit_of :: "(rat list \<Rightarrow> rat list \<Rightarrow> rat) \<Rightarrow> composition_request \<Rightarrow> skill \<Rightarrow> search_hit" where
  "hit_of cosine request s =
     \<lparr>sh_id = sk_id s, sh_version = sk_version s, sh_title = sk_title s, sh_description = sk_description s,
      sh_similarity = cosine (cr_query request) (sk_embedding s),
      sh_capabilities = common (cr_required request) (sk_capabilities s),
      sh_facets = common (cr_desired request) (sk_facets s), sh_cost = sk_cost s, sh_uncertainty = sk_uncertainty s\<rparr>"

definition hit_key :: "search_hit \<Rightarrow> rat \<times> int \<times> int \<times> rat \<times> string \<times> string" where
  "hit_key h = (- sh_similarity h, - int (length (sh_capabilities h)), - int (length (sh_facets h)), sh_cost h,
                sh_id h, sh_version h)"

definition search_skills ::
  "(rat list \<Rightarrow> rat list \<Rightarrow> rat) \<Rightarrow> skill_index \<Rightarrow> composition_request \<Rightarrow> moment \<Rightarrow> int option
     \<Rightarrow> composition_error + search_hit list" where
  "search_skills cosine x request now limit =
     (case assert_usable x request now of
        Some e \<Rightarrow> Inl e
      | None \<Rightarrow>
          let requested = (case limit of None \<Rightarrow> cr_k request | Some n \<Rightarrow> n)
          in if requested \<notin> set selection_sizes then Inl BadLimit
             else Inr (take (nat requested)
               (sort_key hit_key (map (hit_of cosine request) (fst (hard_filter x request))))))"

section \<open>Scores\<close>

definition round12 :: "rat \<Rightarrow> rat" where
  "round12 q = of_int (py_round (q * 10 ^ 12)) / 10 ^ 12"

definition count_distinct :: "string list \<Rightarrow> rat" where
  "count_distinct xs = of_nat (length (remdups xs))"

definition jaccard_dissimilarity :: "string list \<Rightarrow> string list \<Rightarrow> rat" where
  "jaccard_dissimilarity left right =
     (if left @ right = [] then 0 else 1 - count_distinct (filter (\<lambda>x. x \<in> set right) left) / count_distinct (left @ right))"

definition mean :: "rat list \<Rightarrow> rat" where
  "mean qs = sum_list qs / of_nat (length qs)"

definition relevance :: "(rat list \<Rightarrow> rat list \<Rightarrow> rat) \<Rightarrow> composition_request \<Rightarrow> skill \<Rightarrow> rat" where
  "relevance cosine request s = (cosine (cr_query request) (sk_embedding s) + 1) / 2"

definition normalized_cost :: "composition_request \<Rightarrow> rat \<Rightarrow> rat" where
  "normalized_cost request cost = (if 0 < cr_max_total_cost request then cost / cr_max_total_cost request else 0)"

definition utility :: "rat \<Rightarrow> rat \<Rightarrow> rat \<Rightarrow> rat \<Rightarrow> rat \<Rightarrow> rat \<Rightarrow> rat \<Rightarrow> rat" where
  "utility capabilities facets complementarity relevant redundancy cost uncertainty =
     100 * capabilities + 30 * facets + 12 * complementarity + 8 * relevant
     - 18 * redundancy - 5 * cost - 10 * uncertainty"

text \<open>What a skill adds to those selected: its score, and the requirements and facets it covers first.\<close>

definition marginal_score ::
  "(rat list \<Rightarrow> rat list \<Rightarrow> rat) \<Rightarrow> skill \<Rightarrow> skill list \<Rightarrow> composition_request \<Rightarrow> string list \<Rightarrow> string list
     \<Rightarrow> rat \<times> string list \<times> string list" where
  "marginal_score cosine s selected request covered_capabilities covered_facets =
     (let new_capabilities = filter (\<lambda>c. c \<notin> set covered_capabilities) (common (sk_capabilities s) (cr_required request));
          new_facets = filter (\<lambda>c. c \<notin> set covered_facets) (common (sk_facets s) (cr_desired request));
          score = utility
            (of_nat (length new_capabilities) / count_distinct (cr_required request))
            (of_nat (length new_facets) / max 1 (count_distinct (cr_desired request)))
            (if selected = [] then 0 else mean (map (\<lambda>t. jaccard_dissimilarity (sk_facets s) (sk_facets t)) selected))
            (relevance cosine request s)
            (if selected = [] then 0 else mean (map (\<lambda>t. max 0 (cosine (sk_embedding s) (sk_embedding t))) selected))
            (normalized_cost request (sk_cost s))
            (sk_uncertainty s)
      in (round12 score, new_capabilities, new_facets))"

fun pairs_of :: "'a list \<Rightarrow> ('a \<times> 'a) list" where
  "pairs_of [] = []"
| "pairs_of (x # xs) = map (Pair x) xs @ pairs_of xs"

definition objective_of :: "(rat list \<Rightarrow> rat list \<Rightarrow> rat) \<Rightarrow> skill list \<Rightarrow> composition_request \<Rightarrow> objective" where
  "objective_of cosine selected request =
     (let covered = concat (map sk_capabilities selected);
          facets = concat (map sk_facets selected);
          required_coverage = count_distinct (common (cr_required request) covered) / count_distinct (cr_required request);
          desired_coverage = count_distinct (common (cr_desired request) facets) / max 1 (count_distinct (cr_desired request));
          relevant = mean (map (relevance cosine request) selected);
          pairs = pairs_of selected;
          complementarity = (if pairs = [] then 0
            else mean (map (\<lambda>(s, t). jaccard_dissimilarity (sk_facets s) (sk_facets t)) pairs));
          redundancy = (if pairs = [] then 0
            else mean (map (\<lambda>(s, t). max 0 (cosine (sk_embedding s) (sk_embedding t))) pairs));
          cost = normalized_cost request (sum_list (map sk_cost selected));
          uncertainty = mean (map sk_uncertainty selected)
      in \<lparr>ob_required_coverage = round12 required_coverage, ob_desired_coverage = round12 desired_coverage,
          ob_relevance = round12 relevant, ob_complementarity = round12 complementarity,
          ob_redundancy = round12 redundancy, ob_cost = round12 cost, ob_uncertainty = round12 uncertainty,
          ob_total = round12 (utility required_coverage desired_coverage complementarity relevant redundancy cost uncertainty)\<rparr>)"

end
