(* ===== verification/Completion.thy ===== *)
theory Completion
  imports Composition
begin

text \<open>
  The bounded dynamic program of \<open>skills/composition.py\<close> (\<open>_minimum_covering_completion_cost\<close>) for the
  cheapest completion of a selection, and the proof that it is exact: it finds the least cost of all sets of
  the wanted size that cover what is missing.

  A mask is an integer with one bit for each missing capability, in sorted order. A state of the program is
  a number of skills and a mask; it keeps the cheapest choice that reaches it. The work budget is threaded
  through the loops as the code's counter object.
\<close>

section \<open>The program\<close>

definition max_transitions :: int where
  "max_transitions = 2000000"

definition max_states :: int where
  "max_states = 100000"

definition consume :: "int \<Rightarrow> composition_error + int" where
  "consume remaining = (if remaining - 1 < 0 then Inl WorkExceeded else Inr (remaining - 1))"

definition bit_table :: "string list \<Rightarrow> (string \<times> int) list" where
  "bit_table ordered = zip ordered (map (\<lambda>i. push_bit i 1) [0..<length ordered])"

definition skill_mask :: "(string \<times> int) list \<Rightarrow> string list \<Rightarrow> int" where
  "skill_mask table capabilities =
     fold (\<lambda>c m. m OR (case map_of table c of None \<Rightarrow> 0 | Some b \<Rightarrow> b)) capabilities 0"

type_synonym completions = "((int \<times> int) \<times> (rat \<times> (string \<times> string) list)) list"

text \<open>One state is extended by the skill, where there is a slot left.\<close>

definition offer ::
  "int \<Rightarrow> int \<Rightarrow> skill \<Rightarrow> (int \<times> int) \<times> (rat \<times> (string \<times> string) list) \<Rightarrow> completions \<Rightarrow> completions" where
  "offer slots bits s = (\<lambda>((count, m), (cost, identities)) updated.
     if slots \<le> count then updated
     else let key = (count + 1, m OR bits);
              choice = (cost + sk_cost s, identities @ [skill_identity s])
          in case map_of updated key of
               None \<Rightarrow> AList.update key choice updated
             | Some existing \<Rightarrow> if choice < existing then AList.update key choice updated else updated)"

fun extend_states ::
  "int \<Rightarrow> int \<Rightarrow> skill \<Rightarrow> completions \<Rightarrow> completions \<Rightarrow> int \<Rightarrow> composition_error + (completions \<times> int)" where
  "extend_states slots bits s [] updated remaining = Inr (updated, remaining)"
| "extend_states slots bits s (entry # entries) updated remaining =
     (case consume remaining of
        Inl e \<Rightarrow> Inl e
      | Inr left \<Rightarrow> extend_states slots bits s entries (offer slots bits s entry updated) left)"

fun run_states ::
  "int \<Rightarrow> (string \<times> int) list \<Rightarrow> skill list \<Rightarrow> completions \<Rightarrow> int \<Rightarrow> composition_error + (completions \<times> int)" where
  "run_states slots table [] states remaining = Inr (states, remaining)"
| "run_states slots table (s # ss) states remaining =
     (case extend_states slots (skill_mask table (sk_capabilities s)) s states states remaining of
        Inl e \<Rightarrow> Inl e
      | Inr (updated, left) \<Rightarrow>
          if max_states < int (length updated) then Inl StatesExceeded else run_states slots table ss updated left)"

definition minimum_covering_completion_cost ::
  "skill list \<Rightarrow> string list \<Rightarrow> int \<Rightarrow> int \<Rightarrow> composition_error + (rat option \<times> int)" where
  "minimum_covering_completion_cost candidates missing slots remaining =
     (if slots < 0 \<or> int (length candidates) < slots then Inr (None, remaining)
      else let ordered = sort (remdups missing);
               full_mask = push_bit (length ordered) 1 - 1
           in case run_states slots (bit_table ordered) (sort_key skill_identity candidates)
                     [((0, 0), (0, []))] remaining of
                Inl e \<Rightarrow> Inl e
              | Inr (states, left) \<Rightarrow> Inr (map_option fst (map_of states (slots, full_mask)), left))"

section \<open>Masks are sets of capabilities\<close>

text \<open>The mask of the capabilities in \<open>C\<close>.\<close>

definition mask_of :: "string list \<Rightarrow> string set \<Rightarrow> int" where
  "mask_of ordered C = horner_sum of_bool 2 (map (\<lambda>c. c \<in> C) ordered)"

lemma bit_mask_of [simp]: "bit (mask_of ordered C) i \<longleftrightarrow> i < length ordered \<and> ordered ! i \<in> C"
  by (auto simp: mask_of_def bit_horner_sum_bit_iff)

lemma mask_of_empty [simp]: "mask_of ordered {} = 0"
  by (rule bit_eqI) simp

lemma mask_of_Un: "mask_of ordered (C \<union> D) = mask_of ordered C OR mask_of ordered D"
  by (rule bit_eqI) (auto simp: bit_or_iff)

lemma mask_of_full: "mask_of ordered C = push_bit (length ordered) 1 - 1 \<longleftrightarrow> set ordered \<subseteq> C"
proof -
  have "mask_of ordered C = mask (length ordered) \<longleftrightarrow> (\<forall>i < length ordered. ordered ! i \<in> C)"
    by (auto simp: bit_eq_iff bit_mask_iff)
  then show ?thesis
    by (auto simp: mask_eq_exp_minus_1 push_bit_of_1 in_set_conv_nth subset_iff)
qed

lemma table_bit:
  assumes "distinct ordered"
  shows "bit (case map_of (bit_table ordered) c of None \<Rightarrow> 0 | Some b \<Rightarrow> b) i \<longleftrightarrow> i < length ordered \<and> ordered ! i = c"
proof (cases "c \<in> set ordered")
  case True
  then obtain j where j: "j < length ordered" "ordered ! j = c"
    by (auto simp: in_set_conv_nth)
  have "map_of (bit_table ordered) c = Some (push_bit j 1)"
    unfolding bit_table_def using j assms by (intro map_of_is_SomeI) (auto simp: in_set_zip)
  with j assms show ?thesis
    by (auto simp: bit_exp_iff nth_eq_iff_index_eq)
next
  case False
  then have "map_of (bit_table ordered) c = None"
    by (auto simp: bit_table_def map_of_eq_None_iff dest: set_zip_leftD)
  with False nth_mem [of i ordered] show ?thesis
    by auto
qed

lemma skill_mask: "distinct ordered \<Longrightarrow> skill_mask (bit_table ordered) cs = mask_of ordered (set cs)"
proof (rule bit_eqI)
  fix i assume "distinct ordered"
  then have "bit (fold (\<lambda>c m. m OR (case map_of (bit_table ordered) c of None \<Rightarrow> 0 | Some b \<Rightarrow> b)) cs m) i
      \<longleftrightarrow> bit m i \<or> i < length ordered \<and> ordered ! i \<in> set cs" for m
    by (induction cs arbitrary: m) (auto simp: bit_or_iff table_bit)
  from this [of 0] show "bit (skill_mask (bit_table ordered) cs) i \<longleftrightarrow> bit (mask_of ordered (set cs)) i"
    by (simp add: skill_mask_def)
qed

section \<open>The states after some skills\<close>

text \<open>
  The states are sound for a set of skills when each comes from a subset of it, with the cost it says, and
  complete when every subset that fits the slots has a state that costs no more.
\<close>

definition covers_set :: "skill set \<Rightarrow> string set" where
  "covers_set X = (\<Union>s \<in> X. set (sk_capabilities s))"

definition sound_entry :: "string list \<Rightarrow> skill set \<Rightarrow> int \<times> int \<Rightarrow> rat \<Rightarrow> bool" where
  "sound_entry ordered D key cost \<longleftrightarrow>
     (\<exists>X \<subseteq> D. key = (int (card X), mask_of ordered (covers_set X)) \<and> cost = sum sk_cost X)"

definition states_for :: "int \<Rightarrow> string list \<Rightarrow> skill set \<Rightarrow> completions \<Rightarrow> bool" where
  "states_for slots ordered D states \<longleftrightarrow>
     distinct (map fst states)
     \<and> (\<forall>key cost ids. map_of states key = Some (cost, ids) \<longrightarrow> sound_entry ordered D key cost)
     \<and> (\<forall>X \<subseteq> D. int (card X) \<le> slots \<longrightarrow>
          (\<exists>cost ids. map_of states (int (card X), mask_of ordered (covers_set X)) = Some (cost, ids) \<and> cost \<le> sum sk_cost X))"

lemma covers_set_insert [simp]: "covers_set (insert s X) = set (sk_capabilities s) \<union> covers_set X"
  by (simp add: covers_set_def)

lemma covers_set_empty [simp]: "covers_set {} = {}"
  by (simp add: covers_set_def)

lemma offer_at:
  "map_of (offer slots bits s ((n, m), (cost, ids)) updated) key =
     (if n < slots \<and> key = (n + 1, m OR bits)
         \<and> (case map_of updated key of None \<Rightarrow> True | Some v \<Rightarrow> (cost + sk_cost s, ids @ [skill_identity s]) < v)
      then Some (cost + sk_cost s, ids @ [skill_identity s]) else map_of updated key)"
  by (auto simp: offer_def update_conv' Let_def split: option.splits)

lemma offer_le:
  assumes "n < slots"
  shows "\<exists>v. map_of (offer slots bits s ((n, m), (cost, ids)) updated) (n + 1, m OR bits) = Some v
    \<and> v \<le> (cost + sk_cost s, ids @ [skill_identity s])"
proof -
  define choice where "choice = (cost + sk_cost s, ids @ [skill_identity s])"
  have "map_of (offer slots bits s ((n, m), (cost, ids)) updated) (n + 1, m OR bits)
      = (case map_of updated (n + 1, m OR bits) of None \<Rightarrow> Some choice | Some v \<Rightarrow> Some (min choice v))"
    using assms by (auto simp: offer_at choice_def [symmetric] min_def less_le split: option.splits)
  then show ?thesis
    unfolding choice_def [symmetric]
    by (cases "map_of updated (n + 1, m OR bits)") (simp_all del: split_paired_Ex)
qed

lemma offer_distinct [simp]: "distinct (map fst updated) \<Longrightarrow> distinct (map fst (offer slots bits s entry updated))"
  by (auto simp: offer_def Let_def distinct_update split: prod.splits option.splits)

text \<open>What an extension adds comes from its entries, nothing gets dearer, and every entry is extended.\<close>

lemma extend_states_Cons:
  assumes "extend_states slots bits s (entry # entries) updated remaining = Inr result"
  obtains left where "extend_states slots bits s entries (offer slots bits s entry updated) left = Inr result"
  using assms by (auto split: sum.splits)

lemma extend_states_Inr:
  assumes "extend_states slots bits s entries updated remaining = Inr (states, left)"
  shows "distinct (map fst updated) \<Longrightarrow> distinct (map fst states)"
    and "map_of states key = Some v \<Longrightarrow> map_of updated key = Some v
      \<or> (\<exists>n m cost ids. ((n, m), (cost, ids)) \<in> set entries \<and> n < slots \<and> key = (n + 1, m OR bits)
           \<and> v = (cost + sk_cost s, ids @ [skill_identity s]))"
    and "map_of updated key = Some v \<Longrightarrow> \<exists>v'. map_of states key = Some v' \<and> v' \<le> v"
    and "((n, m), (cost, ids)) \<in> set entries \<Longrightarrow> n < slots \<Longrightarrow>
      \<exists>v'. map_of states (n + 1, m OR bits) = Some v' \<and> v' \<le> (cost + sk_cost s, ids @ [skill_identity s])"
  using assms
proof (induction entries arbitrary: updated remaining v key)
  case (Cons entry entries)
  {
    case 1
    from extend_states_Cons [OF 1(2)] obtain left'
      where "extend_states slots bits s entries (offer slots bits s entry updated) left' = Inr (states, left)" .
    with Cons.IH(1) [OF _ this] 1(1) show ?case
      by simp
  next
    case 2
    from extend_states_Cons [OF 2(2)] obtain left'
      where step: "extend_states slots bits s entries (offer slots bits s entry updated) left' = Inr (states, left)" .
    obtain n m cost ids where e: "entry = ((n, m), (cost, ids))"
      by (metis surj_pair)
    from Cons.IH(2) [OF _ step] 2(1) show ?case
      by (fastforce simp: e offer_at split: if_splits)
  next
    case 3
    from extend_states_Cons [OF 3(2)] obtain left'
      where step: "extend_states slots bits s entries (offer slots bits s entry updated) left' = Inr (states, left)" .
    obtain n m cost ids where e: "entry = ((n, m), (cost, ids))"
      by (metis surj_pair)
    obtain v1 where "map_of (offer slots bits s entry updated) key = Some v1" "v1 \<le> v"
      using 3(1) by (cases "map_of (offer slots bits s entry updated) key") (auto simp: e offer_at split: if_splits)
    with Cons.IH(3) [OF _ step] show ?case
      by (meson order_trans)
  next
    case 4
    from extend_states_Cons [OF 4(3)] obtain left'
      where step: "extend_states slots bits s entries (offer slots bits s entry updated) left' = Inr (states, left)" .
    show ?case
    proof (cases "entry = ((n, m), (cost, ids))")
      case True
      with offer_le [OF 4(2)] obtain v1 where "map_of (offer slots bits s entry updated) (n + 1, m OR bits) = Some v1"
          "v1 \<le> (cost + sk_cost s, ids @ [skill_identity s])"
        by blast
      with Cons.IH(3) [OF _ step] show ?thesis
        by (meson order_trans)
    next
      case False
      with 4(1) Cons.IH(4) [OF _ 4(2) step] show ?thesis
        by simp
    qed
  }
qed auto

lemma states_for_start: "0 \<le> slots \<Longrightarrow> states_for slots ordered {} [((0, 0), (0, []))]"
  by (auto simp: states_for_def sound_entry_def)

lemma states_for_step:
  assumes states: "states_for slots ordered D states" and D: "finite D" "s \<notin> D"
    and step: "extend_states slots (mask_of ordered (set (sk_capabilities s))) s states states remaining = Inr (updated, left)"
  shows "states_for slots ordered (insert s D) updated"
proof -
  let ?bits = "mask_of ordered (set (sk_capabilities s))"
  have distinct: "distinct (map fst states)" "distinct (map fst updated)"
    using states extend_states_Inr(1) [OF step] by (auto simp: states_for_def)
  have grow: "\<exists>Y. Y \<subseteq> insert s D \<and> n + 1 = int (card Y) \<and> m OR ?bits = mask_of ordered (covers_set Y)
      \<and> cost + sk_cost s = sum sk_cost Y" if "sound_entry ordered D (n, m) cost" for n m cost
  proof -
    from that obtain X where X: "X \<subseteq> D" "n = int (card X)" "m = mask_of ordered (covers_set X)" "cost = sum sk_cost X"
      by (auto simp: sound_entry_def)
    then have "finite X" "s \<notin> X"
      using D finite_subset by auto
    with X show ?thesis
      by (intro exI [of _ "insert s X"]) (auto simp: mask_of_Un or.commute)
  qed
  have sound: "sound_entry ordered (insert s D) key cost" if "map_of updated key = Some (cost, ids)" for key cost ids
  proof -
    from extend_states_Inr(2) [OF step that] show ?thesis
    proof (elim disjE exE conjE)
      assume "map_of states key = Some (cost, ids)"
      with states show ?thesis
        unfolding states_for_def sound_entry_def by blast
    next
      fix n m c i
      assume e: "((n, m), (c, i)) \<in> set states" "key = (n + 1, m OR ?bits)"
        "(cost, ids) = (c + sk_cost s, i @ [skill_identity s])"
      have "sound_entry ordered D (n, m) c"
        using states e(1) map_of_is_SomeI [OF distinct(1) e(1)] unfolding states_for_def by blast
      from grow [OF this] e(2,3) show ?thesis
        by (auto simp: sound_entry_def)
    qed
  qed
  have complete: "\<exists>cost ids. map_of updated (int (card X), mask_of ordered (covers_set X)) = Some (cost, ids) \<and> cost \<le> sum sk_cost X"
    if X: "X \<subseteq> insert s D" "int (card X) \<le> slots" for X
  proof (cases "s \<in> X")
    case False
    with X states obtain cost ids where "map_of states (int (card X), mask_of ordered (covers_set X)) = Some (cost, ids)" "cost \<le> sum sk_cost X"
      unfolding states_for_def by blast
    with extend_states_Inr(3) [OF step] show ?thesis
      by (fastforce simp: less_eq_prod_def)
  next
    case True
    define Y where "Y = X - {s}"
    have Y: "Y \<subseteq> D" "s \<notin> Y" "X = insert s Y" "finite Y"
      using True X D(1) finite_subset by (auto simp: Y_def)
    then have card: "int (card X) = int (card Y) + 1"
      by simp
    with X(2) have "int (card Y) \<le> slots"
      by linarith
    with states Y(1) obtain cost ids where
      at: "map_of states (int (card Y), mask_of ordered (covers_set Y)) = Some (cost, ids)" "cost \<le> sum sk_cost Y"
      unfolding states_for_def by blast
    from extend_states_Inr(4) [OF step map_of_SomeD [OF at(1)]] X(2) card obtain v where
      "map_of updated (int (card Y) + 1, mask_of ordered (covers_set Y) OR ?bits) = Some v" "v \<le> (cost + sk_cost s, ids @ [skill_identity s])"
      by auto
    moreover have "mask_of ordered (covers_set X) = mask_of ordered (covers_set Y) OR ?bits"
      using Y(3) by (simp add: mask_of_Un or.commute)
    moreover have "sum sk_cost X = sum sk_cost Y + sk_cost s"
      using Y by simp
    ultimately show ?thesis
      using at(2) card by (cases v) (auto simp: less_eq_prod_def)
  qed
  from distinct(2) sound complete show ?thesis
    unfolding states_for_def by blast
qed

lemma run_states_for:
  assumes "run_states slots (bit_table ordered) ss states remaining = Inr (final, left)"
    and "states_for slots ordered D states" and "finite D" and "set ss \<inter> D = {}" and "distinct ss" and "distinct ordered"
  shows "states_for slots ordered (D \<union> set ss) final"
  using assms
proof (induction ss arbitrary: D states remaining)
  case (Cons s ss)
  from Cons.prems(1) obtain updated left' where
    step: "extend_states slots (skill_mask (bit_table ordered) (sk_capabilities s)) s states states remaining = Inr (updated, left')"
    and rest: "run_states slots (bit_table ordered) ss updated left' = Inr (final, left)"
    by (auto split: sum.splits prod.splits if_splits)
  have "states_for slots ordered (insert s D) updated"
    using Cons.prems(2-4,6) step by (intro states_for_step) (auto simp: skill_mask)
  from Cons.IH [OF rest this] Cons.prems show ?case
    by simp
qed simp

section \<open>Exactness\<close>

text \<open>A set of \<open>n\<close> skills of \<open>R\<close> that covers \<open>M\<close>.\<close>

definition completes :: "skill set \<Rightarrow> string set \<Rightarrow> int \<Rightarrow> skill set \<Rightarrow> bool" where
  "completes R M n X \<longleftrightarrow> X \<subseteq> R \<and> int (card X) = n \<and> M \<subseteq> covers_set X"

definition least_completion :: "skill set \<Rightarrow> string set \<Rightarrow> int \<Rightarrow> rat option \<Rightarrow> bool" where
  "least_completion R M n result = (case result of
     None \<Rightarrow> \<not> Ex (completes R M n)
   | Some cost \<Rightarrow> (\<exists>X. completes R M n X \<and> sum sk_cost X = cost)
       \<and> \<not> (\<exists>X. completes R M n X \<and> sum sk_cost X < cost))"

lemma minimum_cost_exact:
  assumes "minimum_covering_completion_cost candidates missing slots remaining = Inr (result, left)"
    and "distinct candidates"
  shows "least_completion (set candidates) (set missing) slots result"
proof (cases "slots < 0 \<or> int (length candidates) < slots")
  case True
  have "int (card X) \<le> int (length candidates)" if "X \<subseteq> set candidates" for X
    using that card_mono [of "set candidates" X] card_length [of candidates] by simp
  then have "\<not> completes (set candidates) (set missing) slots X" for X
    using True by (metis completes_def not_le of_nat_0_le_iff)
  with True assms(1) show ?thesis
    by (simp add: minimum_covering_completion_cost_def least_completion_def)
next
  case False
  define ordered where "ordered = sort (remdups missing)"
  have ordered: "distinct ordered" "set ordered = set missing"
    by (simp_all add: ordered_def)
  from assms(1) False obtain states where run: "run_states slots (bit_table ordered) (sort_key skill_identity candidates)
      [((0, 0), (0, []))] remaining = Inr (states, left)"
    and result: "result = map_option fst (map_of states (slots, push_bit (length ordered) 1 - 1))"
    by (auto simp: minimum_covering_completion_cost_def Let_def ordered_def split: sum.splits)
  have "states_for slots ordered ({} \<union> set (sort_key skill_identity candidates)) states"
    using False ordered(1) assms(2) by (intro run_states_for [OF run] states_for_start) auto
  then have states: "states_for slots ordered (set candidates) states"
    by simp
  define full_mask :: int where "full_mask = push_bit (length ordered) 1 - 1"
  with result have result: "result = map_option fst (map_of states (slots, full_mask))"
    by simp
  have full: "mask_of ordered C = full_mask \<longleftrightarrow> set missing \<subseteq> C" for C
    using mask_of_full [of ordered C] unfolding ordered(2) full_mask_def .
  have bound: "\<exists>cost ids. map_of states (slots, full_mask) = Some (cost, ids) \<and> cost \<le> sum sk_cost X"
    if X: "completes (set candidates) (set missing) slots X" for X
  proof -
    from X have "X \<subseteq> set candidates" "int (card X) = slots" "mask_of ordered (covers_set X) = full_mask"
      by (auto simp: completes_def full)
    with states show ?thesis
      unfolding states_for_def by (metis order_refl)
  qed
  show ?thesis
  proof (cases result)
    case None
    with bound result show ?thesis
      by (fastforce simp: least_completion_def)
  next
    case (Some cost)
    with result obtain ids where at: "map_of states (slots, full_mask) = Some (cost, ids)"
      by (cases "map_of states (slots, full_mask)") auto
    with states have "sound_entry ordered (set candidates) (slots, full_mask) cost"
      unfolding states_for_def by blast
    then obtain X where X: "X \<subseteq> set candidates" "slots = int (card X)" "cost = sum sk_cost X"
        "mask_of ordered (covers_set X) = full_mask"
      by (auto simp: sound_entry_def)
    then have "completes (set candidates) (set missing) slots X"
      using full by (simp add: completes_def)
    moreover have "\<not> (\<exists>X. completes (set candidates) (set missing) slots X \<and> sum sk_cost X < cost)"
      using bound at by fastforce
    ultimately show ?thesis
      using Some X(3) by (auto simp: least_completion_def)
  qed
qed

text \<open>C35. The dynamic program is exact: unless a budget ends it, it returns the least cost of a set of the wanted
  number of candidates that covers everything missing, and none exactly when there is no such set.\<close>

theorem completion_cost_is_least:
  assumes "minimum_covering_completion_cost candidates missing slots remaining = Inr (result, left)"
    and "distinct candidates"
  shows "least_completion (set candidates) (set missing) slots result"
  using assms by (rule minimum_cost_exact)

section \<open>Work\<close>

definition state_bound :: "int \<Rightarrow> nat \<Rightarrow> int" where
  "state_bound slots n = (slots + 1) * 2 ^ n"

definition keys_within :: "int \<Rightarrow> string list \<Rightarrow> completions \<Rightarrow> bool" where
  "keys_within slots ordered states \<longleftrightarrow> distinct (map fst states)
     \<and> fst ` set states \<subseteq> {0..slots} \<times> range (mask_of ordered)"

lemma mask_of_range: "range (mask_of ordered) \<subseteq> {0..<2 ^ length ordered}"
proof
  fix m assume "m \<in> range (mask_of ordered)"
  then have "take_bit (length ordered) m = m"
    by (auto intro!: bit_eqI simp: bit_take_bit_iff)
  then show "m \<in> {0..<2 ^ length ordered}"
    by (metis atLeastLessThan_iff take_bit_int_less_exp take_bit_nonnegative)
qed

lemma keys_within_length:
  assumes "keys_within slots ordered states" and "0 \<le> slots"
  shows "int (length states) \<le> state_bound slots (length ordered)"
proof -
  have "length states = card (fst ` set states)"
    using assms(1) by (metis distinct_card keys_within_def length_map set_map)
  also have "\<dots> \<le> card ({0..slots} \<times> {0..<2 ^ length ordered :: int})"
  proof (rule card_mono)
    have "{0..slots} \<times> range (mask_of ordered) \<subseteq> {0..slots} \<times> {0..<2 ^ length ordered}"
      by (rule Sigma_mono [OF order_refl mask_of_range])
    with assms(1) show "fst ` set states \<subseteq> {0..slots} \<times> {0..<2 ^ length ordered}"
      unfolding keys_within_def by blast
  qed simp
  also have "\<dots> = nat (slots + 1) * 2 ^ length ordered"
    by (simp add: card_cartesian_product nat_power_eq)
  finally have "int (length states) \<le> int (nat (slots + 1) * 2 ^ length ordered)"
    by (rule of_nat_mono)
  with assms(2) show ?thesis
    by (simp only: state_bound_def of_nat_mult of_nat_power of_nat_numeral) simp
qed

lemma extend_states_enough:
  assumes "int (length entries) \<le> remaining"
  shows "\<exists>updated. extend_states slots bits s entries start remaining = Inr (updated, remaining - int (length entries))"
  using assms
proof (induction entries arbitrary: start remaining)
  case (Cons entry entries)
  then show ?case
    using Cons.IH [of "remaining - 1" "offer slots bits s entry start"] by (simp add: consume_def algebra_simps)
qed simp

lemma keys_within_extend:
  assumes "keys_within slots ordered states"
    and "extend_states slots (mask_of ordered C) s states states remaining = Inr (updated, left)"
  shows "keys_within slots ordered updated"
proof -
  have "key \<in> {0..slots} \<times> range (mask_of ordered)" if "map_of updated key = Some v" for key v
    using extend_states_Inr(2) [OF assms(2) that]
  proof (elim disjE exE conjE)
    assume "map_of states key = Some v"
    with assms(1) show ?thesis
      by (force simp: keys_within_def dest: map_of_SomeD)
  next
    fix n m cost ids
    assume "((n, m), (cost, ids)) \<in> set states" "n < slots" "key = (n + 1, m OR mask_of ordered C)"
    with assms(1) show ?thesis
      by (force simp: keys_within_def mask_of_Un [symmetric])
  qed
  then show ?thesis
    using assms(1) extend_states_Inr(1) [OF assms(2)] unfolding keys_within_def
    by (auto simp del: map_of_eq_Some_iff dest!: map_of_is_SomeI)
qed

lemma run_states_enough:
  assumes "keys_within slots ordered states" and "0 \<le> slots" and "distinct ordered"
    and "state_bound slots (length ordered) \<le> max_states"
    and "int (length ss) * state_bound slots (length ordered) \<le> remaining"
  shows "\<exists>final left. run_states slots (bit_table ordered) ss states remaining = Inr (final, left)
    \<and> remaining - int (length ss) * state_bound slots (length ordered) \<le> left"
  using assms(1,5)
proof (induction ss arbitrary: states remaining)
  case (Cons s ss)
  let ?B = "state_bound slots (length ordered)"
  have B: "int (length states) \<le> ?B" "0 \<le> ?B"
    using keys_within_length [OF Cons.prems(1) assms(2)] by simp_all
  have split: "int (length (s # ss)) * ?B = ?B + int (length ss) * ?B"
    by (simp add: algebra_simps)
  then have "int (length states) \<le> remaining"
    using B Cons.prems(2) by (smt (verit) mult_nonneg_nonneg of_nat_0_le_iff)
  from extend_states_enough [OF this, of slots "mask_of ordered (set (sk_capabilities s))" s states]
  obtain updated where step: "extend_states slots (mask_of ordered (set (sk_capabilities s))) s states states remaining
      = Inr (updated, remaining - int (length states))"
    by blast
  have within: "keys_within slots ordered updated"
    by (rule keys_within_extend [OF Cons.prems(1) step])
  have "int (length ss) * ?B \<le> remaining - int (length states)"
    using split Cons.prems(2) B(1) by linarith
  from Cons.IH [OF within this] obtain final left where
    "run_states slots (bit_table ordered) ss updated (remaining - int (length states)) = Inr (final, left)"
    "remaining - int (length states) - int (length ss) * ?B \<le> left"
    by blast
  moreover have "\<not> max_states < int (length updated)"
    using keys_within_length [OF within assms(2)] assms(4) by simp
  ultimately show ?case
    using step split B(1) assms(3) by (auto simp: skill_mask)
qed simp

lemma minimum_cost_enough:
  assumes "state_bound slots (length (remdups missing)) \<le> max_states" and "0 \<le> slots"
    and "int (length candidates) * state_bound slots (length (remdups missing)) \<le> remaining"
  shows "\<exists>result left. minimum_covering_completion_cost candidates missing slots remaining = Inr (result, left)
    \<and> remaining - int (length candidates) * state_bound slots (length (remdups missing)) \<le> left"
proof (cases "int (length candidates) < slots")
  case True
  then show ?thesis
    using assms by (auto simp: minimum_covering_completion_cost_def state_bound_def)
next
  case False
  define ordered where "ordered = sort (remdups missing)"
  have "keys_within slots ordered [((0, 0), (0, []))]"
    using assms(2) rangeI [of "mask_of ordered" "{}"] by (simp add: keys_within_def)
  from run_states_enough [OF this assms(2), of "sort_key skill_identity candidates" remaining] assms False
  show ?thesis
    by (auto simp: minimum_covering_completion_cost_def ordered_def Let_def)
qed

section \<open>Examples\<close>

definition sample_skill :: "string \<Rightarrow> string list \<Rightarrow> string list \<Rightarrow> rat \<Rightarrow> skill" where
  "sample_skill name capabilities facets cost =
     \<lparr>sk_id = name, sk_version = ''1.0.0'', sk_title = name, sk_description = name, sk_capabilities = capabilities,
      sk_facets = facets, sk_platforms = [''*''], sk_harnesses = [''codex''], sk_cost = cost, sk_uncertainty = 1 / 10,
      sk_embedding = [1, cost], sk_availability = ''available''\<rparr>"

definition sample_skills :: "skill list" where
  "sample_skills =
     [sample_skill ''plot'' [''plot''] [''visual''] 3, sample_skill ''test'' [''test''] [''quality''] 1,
      sample_skill ''lint'' [''lint'', ''test''] [''quality''] 2, sample_skill ''docs'' [''docs''] [''text''] 1]"

lemma sample_completion:
  "minimum_covering_completion_cost sample_skills [''lint'', ''plot''] 3 100 = Inr (Some 6, 85)"
  by code_simp

theorem completion_cost_is_least_witness:
  "least_completion (set sample_skills) {''lint'', ''plot''} 3 (Some 6)"
proof -
  have "distinct (map sk_id sample_skills)"
    by code_simp
  then show ?thesis
    using completion_cost_is_least [OF sample_completion] by (simp add: distinct_map)
qed

end
