(* ===== verification/SkillPlans.thy ===== *)
theory SkillPlans
  imports Completion "HOL-Library.Multiset"
begin

text \<open>
  The greedy composition of \<open>skills/composition.py\<close> (\<open>compose_skills\<close>) over the hard filters, the scores and
  the exact lookahead, and what a plan promises: it meets every hard constraint, and the composition finds
  one whenever there is one, unless a budget on its work ends it.
\<close>

section \<open>One round\<close>

definition completion_remains_possible ::
  "composition_request \<Rightarrow> skill \<Rightarrow> skill list \<Rightarrow> int \<Rightarrow> rat \<Rightarrow> string list \<Rightarrow> int \<Rightarrow> composition_error + (bool \<times> int)" where
  "completion_remains_possible request s remaining selected_count selected_cost covered work =
     (let slots_after = cr_k request - selected_count - 1;
          new_cost = selected_cost + sk_cost s;
          others = filter (\<lambda>t. t \<noteq> s) remaining;
          missing = filter (\<lambda>c. c \<notin> set covered \<and> c \<notin> set (sk_capabilities s)) (cr_required request)
      in if \<not> within_budget new_cost (cr_max_total_cost request) then Inr (False, work)
         else if int (length others) < slots_after then Inr (False, work)
         else if slots_after = 0 then Inr (missing = [], work)
         else case minimum_covering_completion_cost others missing slots_after work of
                Inl e \<Rightarrow> Inl e
              | Inr (None, left) \<Rightarrow> Inr (False, left)
              | Inr (Some cost, left) \<Rightarrow> Inr (within_budget (new_cost + cost) (cr_max_total_cost request), left))"

record picking =
  pk_selected :: "skill list"
  pk_planned :: "planned_skill list"
  pk_remaining :: "skill list"
  pk_capabilities :: "string list"
  pk_facets :: "string list"
  pk_cost :: rat
  pk_work :: int

type_synonym scored = "(rat \<times> string list \<times> string list) \<times> skill"

text \<open>The loop over the remaining skills keeps those that leave a completion, with their scores.\<close>

fun score_each ::
  "(rat list \<Rightarrow> rat list \<Rightarrow> rat) \<Rightarrow> composition_request \<Rightarrow> picking \<Rightarrow> skill list \<Rightarrow> int
     \<Rightarrow> composition_error + (scored list \<times> int)" where
  "score_each cosine request st [] work = Inr ([], work)"
| "score_each cosine request st (s # ss) work =
     (case completion_remains_possible request s (pk_remaining st) (int (length (pk_selected st))) (pk_cost st)
             (pk_capabilities st) work of
        Inl e \<Rightarrow> Inl e
      | Inr (possible, left) \<Rightarrow>
          (case score_each cosine request st ss left of
             Inl e \<Rightarrow> Inl e
           | Inr (scored, left) \<Rightarrow>
               Inr (if possible
                    then (marginal_score cosine s (pk_selected st) request (pk_capabilities st) (pk_facets st), s) # scored
                    else scored, left)))"

definition score_key :: "scored \<Rightarrow> rat \<times> string \<times> string" where
  "score_key = (\<lambda>((score, _), s). (- score, sk_id s, sk_version s))"

definition take_skill :: "(rat list \<Rightarrow> rat list \<Rightarrow> rat) \<Rightarrow> composition_request \<Rightarrow> picking \<Rightarrow> scored \<Rightarrow> int \<Rightarrow> picking" where
  "take_skill cosine request st = (\<lambda>((score, capabilities, facets), s) work.
     \<lparr>pk_selected = pk_selected st @ [s],
      pk_planned = pk_planned st @
        [\<lparr>ps_rank = Suc (length (pk_selected st)), ps_id = sk_id s, ps_version = sk_version s,
          ps_similarity = cosine (cr_query request) (sk_embedding s), ps_capabilities = capabilities,
          ps_facets = facets, ps_cost = sk_cost s, ps_uncertainty = sk_uncertainty s, ps_score = round12 score\<rparr>],
      pk_remaining = remove1 s (pk_remaining st),
      pk_capabilities = pk_capabilities st @ sk_capabilities s, pk_facets = pk_facets st @ sk_facets s,
      pk_cost = pk_cost st + sk_cost s, pk_work = work\<rparr>)"

definition pick_one :: "(rat list \<Rightarrow> rat list \<Rightarrow> rat) \<Rightarrow> composition_request \<Rightarrow> picking \<Rightarrow> composition_error + picking" where
  "pick_one cosine request st =
     (case score_each cosine request st (pk_remaining st) (pk_work st) of
        Inl e \<Rightarrow> Inl e
      | Inr (scored, left) \<Rightarrow>
          if scored = [] then Inl NoCompletion
          else Inr (take_skill cosine request st (hd (sort_key score_key scored)) left))"

text \<open>The loop adds one skill a round until there are \<open>k\<close>.\<close>

fun pick_rounds ::
  "(rat list \<Rightarrow> rat list \<Rightarrow> rat) \<Rightarrow> composition_request \<Rightarrow> nat \<Rightarrow> picking \<Rightarrow> composition_error + picking" where
  "pick_rounds cosine request 0 st = Inr st"
| "pick_rounds cosine request (Suc rounds) st =
     (case pick_one cosine request st of Inl e \<Rightarrow> Inl e | Inr st' \<Rightarrow> pick_rounds cosine request rounds st')"

section \<open>Composition\<close>

definition max_candidates :: nat where
  "max_candidates = 128"

definition max_required :: nat where
  "max_required = 16"

definition start_picking :: "skill list \<Rightarrow> picking" where
  "start_picking eligible =
     \<lparr>pk_selected = [], pk_planned = [], pk_remaining = eligible, pk_capabilities = [], pk_facets = [], pk_cost = 0,
      pk_work = max_transitions\<rparr>"

definition moment_text :: "moment \<Rightarrow> string" where
  "moment_text now = (case now of Instant t \<Rightarrow> iso t | Stamp s \<Rightarrow> s)"

definition fingerprint :: "(json \<Rightarrow> string) \<Rightarrow> skill_index \<Rightarrow> composition_request \<Rightarrow> skill list \<Rightarrow> string" where
  "fingerprint digest x request selected = digest (canon (JObj
     [(''index_id'', JStr (si_id x)), (''source_digest'', JStr (si_source_digest x)), (''request'', request_to_dict request),
      (''selected'', JArr (map (\<lambda>s. strings [sk_id s, sk_version s]) selected))]))"

definition plan_of ::
  "(rat list \<Rightarrow> rat list \<Rightarrow> rat) \<Rightarrow> (json \<Rightarrow> string) \<Rightarrow> skill_index \<Rightarrow> composition_request \<Rightarrow> moment \<Rightarrow> picking
     \<Rightarrow> composition_plan" where
  "plan_of cosine digest x request now st =
     \<lparr>cp_plan_id = ''skill-plan-'' @ take 24 (fingerprint digest x request (pk_selected st)),
      cp_request_id = cr_id request, cp_index_id = si_id x, cp_index_generated_at = si_generated_at x,
      cp_index_source_digest = si_source_digest x, cp_generated_at = moment_text now, cp_k = cr_k request,
      cp_eligible = length (fst (hard_filter x request)), cp_selected = pk_planned st,
      cp_capabilities = common (cr_required request) (pk_capabilities st),
      cp_facets = common (cr_desired request) (pk_facets st), cp_cost = round12 (pk_cost st),
      cp_uncertainty = round12 (mean (map sk_uncertainty (pk_selected st))),
      cp_objective = objective_of cosine (pk_selected st) request, cp_filter_counts = snd (hard_filter x request)\<rparr>"

definition compose_skills ::
  "(rat list \<Rightarrow> rat list \<Rightarrow> rat) \<Rightarrow> (json \<Rightarrow> string) \<Rightarrow> skill_index \<Rightarrow> composition_request \<Rightarrow> moment
     \<Rightarrow> composition_error + composition_plan" where
  "compose_skills cosine digest x request now =
     (case assert_usable x request now of
        Some e \<Rightarrow> Inl e
      | None \<Rightarrow>
          let eligible = fst (hard_filter x request)
          in if max_required < length (cr_required request) then Inl TooManyRequired
             else if max_candidates < length eligible then Inl TooManyCandidates
             else if int (length eligible) < cr_k request then Inl TooFewSkills
             else if \<not> set (cr_required request) \<subseteq> set (concat (map sk_capabilities eligible)) then Inl CapabilityUnavailable
             else case pick_rounds cosine request (nat (cr_k request)) (start_picking eligible) of
                    Inl e \<Rightarrow> Inl e
                  | Inr st \<Rightarrow>
                      if \<not> set (cr_required request) \<subseteq> set (pk_capabilities st) then Inl NotCovered
                      else if \<not> within_budget (pk_cost st) (cr_max_total_cost request) then Inl OverBudget
                      else Inr (plan_of cosine digest x request now st))"

section \<open>The invariant of the rounds\<close>

text \<open>
  \<open>E\<close> is the set of eligible skills and \<open>rounds\<close> the number of skills still to be chosen; \<open>completable\<close> says that
  they can be chosen so that everything required is covered within the budget.
\<close>

definition in_progress :: "composition_request \<Rightarrow> skill set \<Rightarrow> nat \<Rightarrow> picking \<Rightarrow> bool" where
  "in_progress request E rounds st \<longleftrightarrow>
     distinct (pk_selected st @ pk_remaining st) \<and> set (pk_selected st @ pk_remaining st) = E
     \<and> int (length (pk_selected st)) + int rounds = cr_k request
     \<and> set (pk_capabilities st) = covers_set (set (pk_selected st))
     \<and> pk_cost st = sum sk_cost (set (pk_selected st))
     \<and> map (\<lambda>p. (ps_id p, ps_version p)) (pk_planned st) = map skill_identity (pk_selected st)"

definition completable :: "composition_request \<Rightarrow> nat \<Rightarrow> picking \<Rightarrow> bool" where
  "completable request rounds st \<longleftrightarrow>
     (\<exists>X. completes (set (pk_remaining st)) (set (cr_required request) - set (pk_capabilities st)) (int rounds) X
        \<and> pk_cost st + sum sk_cost X \<le> cr_max_total_cost request)"

lemma possible_iff:
  assumes "completion_remains_possible request s remaining chosen_count cost covered work = Inr (b, left)"
    and "distinct remaining" and "\<forall>t \<in> set remaining. 0 \<le> sk_cost t"
    and slots: "slots = cr_k request - chosen_count - 1" "0 \<le> slots"
  shows "b \<longleftrightarrow> (\<exists>X. completes (set remaining - {s}) (set (cr_required request) - set covered - set (sk_capabilities s)) slots X
    \<and> cost + sk_cost s + sum sk_cost X \<le> cr_max_total_cost request)" (is "_ \<longleftrightarrow> (\<exists>X. ?ok X)" is "_ \<longleftrightarrow> (\<exists>X. ?completes X \<and> _ X)")
proof -
  let ?others = "filter (\<lambda>t. t \<noteq> s) remaining"
  let ?missing = "filter (\<lambda>c. c \<notin> set covered \<and> c \<notin> set (sk_capabilities s)) (cr_required request)"
  have others: "set ?others = set remaining - {s}" "distinct ?others"
    and missing: "set ?missing = set (cr_required request) - set covered - set (sk_capabilities s)"
    using assms(2) by auto
  have nonneg: "0 \<le> sum sk_cost X" if "?ok X" for X
    using that assms(3) by (intro sum_nonneg) (auto simp: completes_def)
  have few: "int (length ?others) \<ge> slots" if "?ok X" for X
  proof -
    have "card X \<le> card (set ?others)"
      using that unfolding others(1) by (intro card_mono) (auto simp: completes_def)
    also have "card (set ?others) = length ?others"
      by (rule distinct_card [OF others(2)])
    finally show ?thesis
      using that by (simp add: completes_def)
  qed
  show ?thesis
  proof (cases "within_budget (cost + sk_cost s) (cr_max_total_cost request) \<and> slots \<le> int (length ?others)")
    case False
    then have "\<not> b"
      using assms(1) slots by (auto simp: completion_remains_possible_def Let_def not_le split: if_splits)
    moreover have "\<not> ?ok X" for X
    proof
      assume ok: "?ok X"
      with nonneg [OF ok] few [OF ok] False show False
        unfolding within_budget_def by linarith
    qed
    ultimately show ?thesis
      by blast
  next
    case bounds: True
    show ?thesis
    proof (cases "slots = 0")
      case True
      then have "?ok X \<longleftrightarrow> X = {} \<and> ?missing = []" for X
        using bounds missing finite_subset [of X "set remaining - {s}"]
        by (auto simp: completes_def within_budget_def filter_empty_conv)
      moreover have "b \<longleftrightarrow> ?missing = []"
        using assms(1) slots bounds True by (auto simp: completion_remains_possible_def Let_def split: if_splits)
      ultimately show ?thesis
        by blast
    next
      case False
      with assms(1) bounds slots obtain result where
        cost: "minimum_covering_completion_cost ?others ?missing slots work = Inr (result, left)"
        and b: "b \<longleftrightarrow> (case result of None \<Rightarrow> False | Some c \<Rightarrow> cost + sk_cost s + c \<le> cr_max_total_cost request)"
        by (auto simp: completion_remains_possible_def Let_def within_budget_def split: sum.splits option.splits if_splits)
      have "least_completion (set remaining - {s}) (set (cr_required request) - set covered - set (sk_capabilities s)) slots result"
        using minimum_cost_exact [OF cost others(2)] others(1) missing by simp
      show ?thesis
      proof (cases result)
        case None
        with b \<open>least_completion _ _ _ _\<close> show ?thesis
          by (auto simp: least_completion_def)
      next
        case (Some c)
        with \<open>least_completion _ _ _ _\<close> have least: "\<exists>X. ?completes X \<and> sum sk_cost X = c" "\<not> (\<exists>X. ?completes X \<and> sum sk_cost X < c)"
          by (simp_all add: least_completion_def)
        show ?thesis
        proof
          assume b
          with b Some least(1) show "\<exists>X. ?ok X"
            by force
        next
          assume "\<exists>X. ?ok X"
          then obtain X where X: "?completes X" "cost + sk_cost s + sum sk_cost X \<le> cr_max_total_cost request"
            by blast
          with least(2) have "c \<le> sum sk_cost X"
            by (meson not_le)
          with b Some X(2) show b
            by simp
        qed
      qed
    qed
  qed
qed

text \<open>The scored skills are those of the remaining ones that leave a completion.\<close>

lemma score_each_Inr:
  assumes "score_each cosine request st ss work = Inr (scored, left)" and "set ss \<subseteq> set (pk_remaining st)"
    and "in_progress request E (Suc rounds) st" and "\<forall>t \<in> E. 0 \<le> sk_cost t"
  shows "snd ` set scored = {s \<in> set ss. \<exists>X.
    completes (set (pk_remaining st) - {s}) (set (cr_required request) - set (pk_capabilities st) - set (sk_capabilities s))
      (int rounds) X \<and> pk_cost st + sk_cost s + sum sk_cost X \<le> cr_max_total_cost request}"
  using assms(1,2)
proof (induction ss arbitrary: work scored)
  case (Cons s ss)
  from Cons.prems(1) obtain possible left' scored' where
    now: "completion_remains_possible request s (pk_remaining st) (int (length (pk_selected st))) (pk_cost st)
            (pk_capabilities st) work = Inr (possible, left')"
    and later: "score_each cosine request st ss left' = Inr (scored', left)"
    and scored: "snd ` set scored = (if possible then insert s (snd ` set scored') else snd ` set scored')"
    by (auto split: sum.splits prod.splits if_splits)
  have "possible \<longleftrightarrow> (\<exists>X.
    completes (set (pk_remaining st) - {s}) (set (cr_required request) - set (pk_capabilities st) - set (sk_capabilities s))
      (int rounds) X \<and> pk_cost st + sk_cost s + sum sk_cost X \<le> cr_max_total_cost request)"
    using assms(3,4) by (intro possible_iff [OF now]) (auto simp: in_progress_def)
  moreover have "set ss \<subseteq> set (pk_remaining st)"
    using Cons.prems(2) by simp
  ultimately show ?case
    using Cons.IH [OF later] unfolding scored by auto
qed auto

text \<open>Only the budgets end the lookahead.\<close>

definition out_of_budget :: "composition_error \<Rightarrow> bool" where
  "out_of_budget e \<longleftrightarrow> e = WorkExceeded \<or> e = StatesExceeded"

lemma extend_states_Inl: "extend_states slots bits s entries updated remaining = Inl e \<Longrightarrow> out_of_budget e"
  by (induction entries arbitrary: updated remaining)
    (auto simp: consume_def out_of_budget_def split: if_splits sum.splits)

lemma run_states_Inl: "run_states slots table ss states remaining = Inl e \<Longrightarrow> out_of_budget e"
  by (induction ss arbitrary: states remaining)
    (auto split: if_splits sum.splits dest: extend_states_Inl, simp add: out_of_budget_def)

lemma possible_Inl: "completion_remains_possible request s remaining chosen_count cost covered work = Inl e \<Longrightarrow> out_of_budget e"
  by (auto simp: completion_remains_possible_def minimum_covering_completion_cost_def Let_def
      split: if_splits sum.splits option.splits dest: run_states_Inl)

lemma score_each_Inl: "score_each cosine request st ss work = Inl e \<Longrightarrow> out_of_budget e"
  by (induction ss arbitrary: work) (auto split: if_splits sum.splits dest: possible_Inl)

lemma completes_remove:
  assumes "completes R M (int (Suc n)) X"
  obtains s where "s \<in> R" and "completes (R - {s}) (M - set (sk_capabilities s)) (int n) (X - {s})" and "s \<in> X" and "finite X"
proof -
  from assms have X: "X \<subseteq> R" "card X = Suc n" "M \<subseteq> covers_set X"
    by (auto simp: completes_def)
  then have "finite X" "X \<noteq> {}"
    by (auto intro: card_ge_0_finite)
  then obtain s where "s \<in> X"
    by blast
  with X \<open>finite X\<close> have "completes (R - {s}) (M - set (sk_capabilities s)) (int n) (X - {s})"
    by (fastforce simp: completes_def covers_set_def)
  with \<open>s \<in> X\<close> \<open>finite X\<close> X(1) show thesis
    by (intro that) auto
qed

lemma in_progress_step:
  assumes "in_progress request E (Suc rounds) st" and "s \<in> set (pk_remaining st)"
  shows "in_progress request E rounds (take_skill cosine request st (score, s) work)"
proof -
  obtain a b c where "score = (a, b, c)"
    by (metis surj_pair)
  moreover from assms have "s \<notin> set (pk_selected st)"
    by (auto simp: in_progress_def)
  ultimately show ?thesis
    using assms unfolding in_progress_def take_skill_def by (auto simp: skill_identity_def)
qed

lemma pick_one_Inr:
  assumes "pick_one cosine request st = Inr st'" and progress: "in_progress request E (Suc rounds) st"
    and "\<forall>t \<in> E. 0 \<le> sk_cost t"
  shows "in_progress request E rounds st'" and "completable request rounds st'"
proof -
  from assms(1) obtain scored left where scored: "score_each cosine request st (pk_remaining st) (pk_work st) = Inr (scored, left)"
      "scored \<noteq> []" "st' = take_skill cosine request st (hd (sort_key score_key scored)) left"
    by (auto simp: pick_one_def split: sum.splits prod.splits if_splits)
  obtain a b c s where hd: "hd (sort_key score_key scored) = ((a, b, c), s)"
    by (metis surj_pair)
  have "hd (sort_key score_key scored) \<in> set scored"
    using scored(2) by (metis hd_in_set set_sort set_empty)
  then have "s \<in> snd ` set scored"
    using hd by force
  with score_each_Inr [OF scored(1) order_refl progress assms(3)] obtain X where s: "s \<in> set (pk_remaining st)"
    and X: "completes (set (pk_remaining st) - {s}) (set (cr_required request) - set (pk_capabilities st) - set (sk_capabilities s))
        (int rounds) X" "pk_cost st + sk_cost s + sum sk_cost X \<le> cr_max_total_cost request"
    by auto
  show "in_progress request E rounds st'"
    unfolding scored(3) hd by (rule in_progress_step [OF progress s])
  have "distinct (pk_remaining st)"
    using progress by (simp add: in_progress_def)
  with X show "completable request rounds st'"
    unfolding scored(3) hd completable_def take_skill_def
    by (auto simp: set_remove1_eq Diff_eq Int_assoc intro!: exI [of _ X])
qed

lemma pick_one_fails:
  assumes "pick_one cosine request st = Inl NoCompletion" and "in_progress request E (Suc rounds) st"
    and "\<forall>t \<in> E. 0 \<le> sk_cost t"
  shows "\<not> completable request (Suc rounds) st"
proof
  assume "completable request (Suc rounds) st"
  then obtain X where X: "completes (set (pk_remaining st)) (set (cr_required request) - set (pk_capabilities st)) (int (Suc rounds)) X"
    "pk_cost st + sum sk_cost X \<le> cr_max_total_cost request"
    by (auto simp: completable_def)
  from completes_remove [OF X(1)] obtain s where s: "s \<in> set (pk_remaining st)" "s \<in> X" "finite X"
    "completes (set (pk_remaining st) - {s}) (set (cr_required request) - set (pk_capabilities st) - set (sk_capabilities s)) (int rounds) (X - {s})" .
  have "pk_cost st + sk_cost s + sum sk_cost (X - {s}) \<le> cr_max_total_cost request"
    using X(2) s(2,3) by (simp add: sum_diff1)
  with s have possible: "s \<in> {s \<in> set (pk_remaining st). \<exists>X.
      completes (set (pk_remaining st) - {s}) (set (cr_required request) - set (pk_capabilities st) - set (sk_capabilities s))
        (int rounds) X \<and> pk_cost st + sk_cost s + sum sk_cost X \<le> cr_max_total_cost request}"
    by blast
  show False
  proof (cases "score_each cosine request st (pk_remaining st) (pk_work st)")
    case (Inl e)
    with score_each_Inl [OF Inl] assms(1) show False
      by (auto simp: pick_one_def out_of_budget_def)
  next
    case (Inr result)
    then obtain scored left where scored: "score_each cosine request st (pk_remaining st) (pk_work st) = Inr (scored, left)"
      by (metis surj_pair)
    with possible score_each_Inr [OF scored order_refl assms(2,3)] have "scored \<noteq> []"
      by auto
    with scored assms(1) show False
      by (simp add: pick_one_def)
  qed
qed

section \<open>All rounds\<close>

lemma pick_rounds_Inr:
  assumes "pick_rounds cosine request rounds st = Inr st'" and "in_progress request E rounds st" and "\<forall>t \<in> E. 0 \<le> sk_cost t"
  shows "in_progress request E 0 st'" and "rounds \<noteq> 0 \<Longrightarrow> completable request 0 st' \<and> completable request rounds st"
proof -
  have "in_progress request E 0 st' \<and> (rounds \<noteq> 0 \<longrightarrow> completable request 0 st' \<and> completable request rounds st)"
    using assms(1,2)
  proof (induction rounds arbitrary: st)
    case (Suc rounds)
    then obtain st1 where one: "pick_one cosine request st = Inr st1" and rest: "pick_rounds cosine request rounds st1 = Inr st'"
      by (auto split: sum.splits)
    note now = pick_one_Inr [OF one Suc.prems(2) assms(3)]
    have "completable request (Suc rounds) st"
    proof -
      from one obtain scored left where scored: "score_each cosine request st (pk_remaining st) (pk_work st) = Inr (scored, left)" "scored \<noteq> []"
        by (auto simp: pick_one_def split: sum.splits prod.splits if_splits)
      then have "snd (hd scored) \<in> snd ` set scored"
        by simp
      with score_each_Inr [OF scored(1) order_refl Suc.prems(2) assms(3)] obtain s X where s: "s \<in> set (pk_remaining st)"
        and X: "completes (set (pk_remaining st) - {s}) (set (cr_required request) - set (pk_capabilities st) - set (sk_capabilities s))
            (int rounds) X" "pk_cost st + sk_cost s + sum sk_cost X \<le> cr_max_total_cost request"
        by blast
      then have fin: "finite X" "s \<notin> X"
        by (auto simp: completes_def intro: finite_subset)
      with s X show ?thesis
        unfolding completable_def by (intro exI [of _ "insert s X"]) (auto simp: completes_def add.assoc)
    qed
    moreover have "completable request 0 st'"
      using Suc.IH [OF rest now(1)] now(2) rest by (cases rounds) auto
    ultimately show ?case
      using Suc.IH [OF rest now(1)] by blast
  qed simp
  then show "in_progress request E 0 st'" and "rounds \<noteq> 0 \<Longrightarrow> completable request 0 st' \<and> completable request rounds st"
    by blast+
qed

lemma pick_rounds_Inl:
  assumes "pick_rounds cosine request rounds st = Inl e" and "in_progress request E rounds st" and "\<forall>t \<in> E. 0 \<le> sk_cost t"
    and "\<not> out_of_budget e"
  shows "e = NoCompletion \<and> \<not> completable request rounds st"
  using assms(1,2)
proof (induction rounds arbitrary: st)
  case (Suc rounds)
  show ?case
  proof (cases "pick_one cosine request st")
    case (Inl e')
    with Suc.prems(1) have "e' = e"
      by simp
    moreover from Inl have "e' = NoCompletion \<or> out_of_budget e'"
      by (auto simp: pick_one_def split: sum.splits if_splits dest: score_each_Inl)
    ultimately show ?thesis
      using pick_one_fails [OF _ Suc.prems(2) assms(3)] Inl assms(4) by auto
  next
    case (Inr st1)
    note now = pick_one_Inr [OF Inr Suc.prems(2) assms(3)]
    from Suc.prems(1) Inr have "pick_rounds cosine request rounds st1 = Inl e"
      by simp
    from Suc.IH [OF this now(1)] now(2) show ?thesis
      by blast
  qed
qed simp

lemma completable_done: "completable request 0 st \<longleftrightarrow>
    set (cr_required request) \<subseteq> set (pk_capabilities st) \<and> pk_cost st \<le> cr_max_total_cost request"
proof -
  have "completes (set (pk_remaining st)) M 0 X \<longleftrightarrow> X = {} \<and> M = {}" for M X
    using finite_subset [of X "set (pk_remaining st)"] by (auto simp: completes_def)
  then show ?thesis
    by (auto simp: completable_def)
qed

section \<open>What was read is well formed\<close>

lemma skill_read: "skill_from_dict v = Some s \<Longrightarrow> 0 \<le> sk_cost s"
  by (auto simp: skill_from_dict_def skill_post_init_Some bind_eq_Some_conv nonnegative_def)

lemma index_read:
  assumes "skill_index_from_dict v = Some x"
  shows "distinct (map sk_id (si_skills x))" and "\<forall>s \<in> set (si_skills x). 0 \<le> sk_cost s"
proof -
  from assms obtain vs d where "checked_list skill_from_dict vs = Some (si_skills x)"
      and d: "skill_index_post_init d (si_skills x) = Some x"
    by (auto simp: skill_index_from_dict_def skill_index_post_init_Some skills_of_Some bind_eq_Some_conv)
  then show "\<forall>s \<in> set (si_skills x). 0 \<le> sk_cost s"
    by (auto simp: checked_list_Some list_all2_conv_all_nth in_set_conv_nth dest!: skill_read)
  from d show "distinct (map sk_id (si_skills x))"
    by (simp add: skill_index_post_init_Some)
qed

lemma request_read:
  assumes "request_from_dict v = Some request"
  shows "cr_k request \<in> {3, 5, 10}"
proof -
  have "k \<in> {3, 5, 10}" if "selection_size w = Some k" for w k
    using that by (auto simp: selection_size_def selection_sizes_def split: json.splits if_splits)
  then show ?thesis
    using assms unfolding request_from_dict_def by (auto simp: request_post_init_Some bind_eq_Some_conv)
qed

section \<open>What a composition promises\<close>

text \<open>The skills a request admits at all, and the sets of them that answer it.\<close>

definition admissible :: "composition_request \<Rightarrow> skill \<Rightarrow> bool" where
  "admissible request s \<longleftrightarrow>
     sk_availability s = ''available'' \<and> (cr_allowed request = [] \<or> sk_id s \<in> set (cr_allowed request))
     \<and> sk_id s \<notin> set (cr_prohibited request) \<and> supports_value (sk_platforms s) (cr_platform request)
     \<and> supports_value (sk_harnesses s) (cr_harness request) \<and> sk_uncertainty s \<le> cr_max_uncertainty request"

definition selection :: "skill_index \<Rightarrow> composition_request \<Rightarrow> skill set \<Rightarrow> bool" where
  "selection x request X \<longleftrightarrow>
     X \<subseteq> {s \<in> set (si_skills x). admissible request s} \<and> int (card X) = cr_k request
     \<and> set (cr_required request) \<subseteq> covers_set X \<and> sum sk_cost X \<le> cr_max_total_cost request"

lemma eligible_iff:
  "s \<in> set (fst (hard_filter x request)) \<longleftrightarrow>
     s \<in> set (si_skills x) \<and> admissible request s \<and> sk_cost s \<le> cr_max_total_cost request"
  by (auto simp: hard_filter_def Let_def filter_reason_def admissible_def within_budget_def)

lemma eligible_distinct: "distinct (map sk_id (si_skills x)) \<Longrightarrow> distinct (fst (hard_filter x request))"
  by (auto simp: hard_filter_def Let_def distinct_map)

lemma selection_completes:
  assumes "\<forall>s \<in> set (si_skills x). 0 \<le> sk_cost s"
  shows "selection x request X \<longleftrightarrow>
     completes (set (fst (hard_filter x request))) (set (cr_required request)) (cr_k request) X
     \<and> sum sk_cost X \<le> cr_max_total_cost request"
proof -
  have "sk_cost s \<le> cr_max_total_cost request"
    if "X \<subseteq> {s \<in> set (si_skills x). admissible request s}" "sum sk_cost X \<le> cr_max_total_cost request" "s \<in> X" for s
  proof -
    have "sk_cost s \<le> sum sk_cost X"
      using that assms finite_subset [OF that(1)] by (intro member_le_sum) auto
    with that(2) show ?thesis
      by simp
  qed
  then show ?thesis
    unfolding selection_def completes_def by (auto simp: eligible_iff subset_iff)
qed

lemma in_progress_start:
  "distinct eligible \<Longrightarrow> 0 \<le> cr_k request \<Longrightarrow> in_progress request (set eligible) (nat (cr_k request)) (start_picking eligible)"
  by (simp add: in_progress_def start_picking_def)

lemma compose_skills_result:
  assumes x: "skill_index_from_dict v = Some x" and request: "request_from_dict w = Some request"
    and result: "compose_skills cosine digest x request now = result"
    and usable: "assert_usable x request now = None" "length (cr_required request) \<le> max_required"
      "length (fst (hard_filter x request)) \<le> max_candidates"
  shows "result = Inl e \<Longrightarrow> out_of_budget e \<or> \<not> Ex (selection x request)"
    and "result = Inr plan \<Longrightarrow> \<exists>X. selection x request X \<and> (\<exists>chosen. distinct chosen \<and> set chosen = X
      \<and> map (\<lambda>p. (ps_id p, ps_version p)) (cp_selected plan) = map skill_identity chosen)"
proof -
  define eligible where "eligible = fst (hard_filter x request)"
  define rounds where "rounds = nat (cr_k request)"
  have k: "0 \<le> cr_k request" "rounds \<noteq> 0" "int rounds = cr_k request"
    using request_read [OF request] by (auto simp: rounds_def)
  have start: "in_progress request (set eligible) rounds (start_picking eligible)"
    unfolding rounds_def using eligible_distinct index_read(1) [OF x] k(1) by (intro in_progress_start) (simp_all add: eligible_def)
  have nonneg: "\<forall>s \<in> set eligible. 0 \<le> sk_cost s"
    using index_read(2) [OF x] by (auto simp: eligible_def eligible_iff)
  have chosen: "selection x request X \<longleftrightarrow>
      completes (set eligible) (set (cr_required request)) (cr_k request) X \<and> sum sk_cost X \<le> cr_max_total_cost request" for X
    using selection_completes [OF index_read(2) [OF x]] by (simp add: eligible_def)
  have feasible: "completable request rounds (start_picking eligible) \<longleftrightarrow> (\<exists>X. selection x request X)"
    by (simp add: completable_def start_picking_def chosen k(3))
  show "out_of_budget e \<or> \<not> Ex (selection x request)" if r: "result = Inl e"
  proof -
    consider "int (length eligible) < cr_k request" | "\<not> set (cr_required request) \<subseteq> set (concat (map sk_capabilities eligible))"
      | "pick_rounds cosine request rounds (start_picking eligible) = Inl e"
      | st where "pick_rounds cosine request rounds (start_picking eligible) = Inr st" "\<not> completable request 0 st"
      using result r usable
      by (auto simp: compose_skills_def Let_def eligible_def [symmetric] rounds_def [symmetric] completable_done within_budget_def
          split: if_splits sum.splits)
    then show ?thesis
    proof cases
      case 1
      have "\<not> completes (set eligible) M (cr_k request) X" for M X
        using 1 card_mono [of "set eligible" X] card_length [of eligible] by (auto simp: completes_def)
      with chosen show ?thesis
        by blast
    next
      case 2
      then have "\<not> completes (set eligible) (set (cr_required request)) (cr_k request) X" for X
        by (fastforce simp: completes_def covers_set_def)
      with chosen show ?thesis
        by blast
    next
      case 3
      with pick_rounds_Inl [OF 3 start nonneg] feasible show ?thesis
        by blast
    next
      case 4
      with pick_rounds_Inr [OF 4(1) start nonneg] k(2) show ?thesis
        by blast
    qed
  qed
  show "\<exists>X. selection x request X \<and> (\<exists>chosen. distinct chosen \<and> set chosen = X
      \<and> map (\<lambda>p. (ps_id p, ps_version p)) (cp_selected plan) = map skill_identity chosen)" if r: "result = Inr plan"
  proof -
    from result r usable obtain st where st: "pick_rounds cosine request rounds (start_picking eligible) = Inr st"
        "plan = plan_of cosine digest x request now st"
      by (auto simp: compose_skills_def Let_def eligible_def [symmetric] rounds_def [symmetric] split: if_splits sum.splits)
    from pick_rounds_Inr [OF st(1) start nonneg] k(2)
    have final: "in_progress request (set eligible) 0 st" "completable request 0 st"
      by blast+
    then have "selection x request (set (pk_selected st))"
      unfolding chosen by (auto simp: in_progress_def completable_done completes_def distinct_card)
    moreover from final(1) have "distinct (pk_selected st)"
        "map (\<lambda>p. (ps_id p, ps_version p)) (cp_selected plan) = map skill_identity (pk_selected st)"
      by (simp_all add: in_progress_def st(2) plan_of_def)
    ultimately show ?thesis
      by blast
  qed
qed

section \<open>Work\<close>

text \<open>The work of one lookahead over \<open>n\<close> skills.\<close>

definition lookahead_work :: "composition_request \<Rightarrow> nat \<Rightarrow> int" where
  "lookahead_work request n = int n * (cr_k request * 2 ^ length (cr_required request))"

lemma state_bound_le:
  assumes "0 \<le> slots" and "slots < k" and "n \<le> m"
  shows "state_bound slots n \<le> k * 2 ^ m"
  unfolding state_bound_def using assms by (intro mult_mono power_increasing) auto

lemma possible_enough:
  assumes "0 \<le> chosen_count" and "chosen_count < cr_k request" and "length remaining \<le> n"
    and "cr_k request * 2 ^ length (cr_required request) \<le> max_states" and "lookahead_work request n \<le> work"
  shows "\<exists>b left. completion_remains_possible request s remaining chosen_count cost covered work = Inr (b, left)
    \<and> work - lookahead_work request n \<le> left"
proof -
  define slots where "slots = cr_k request - chosen_count - 1"
  define others where "others = filter (\<lambda>t. t \<noteq> s) remaining"
  define missing where "missing = filter (\<lambda>c. c \<notin> set covered \<and> c \<notin> set (sk_capabilities s)) (cr_required request)"
  have "length (remdups missing) \<le> length (cr_required request)"
    unfolding missing_def by (rule order_trans [OF length_remdups_leq length_filter_le])
  then have bound: "state_bound slots (length (remdups missing)) \<le> cr_k request * 2 ^ length (cr_required request)"
    using assms(1,2) by (intro state_bound_le) (auto simp: slots_def)
  moreover have "0 \<le> state_bound slots (length (remdups missing))"
    using assms(1,2) by (simp add: state_bound_def slots_def)
  moreover have "length others \<le> n"
    unfolding others_def by (rule order_trans [OF length_filter_le assms(3)])
  ultimately have work: "int (length others) * state_bound slots (length (remdups missing)) \<le> lookahead_work request n"
    unfolding lookahead_work_def by (intro mult_mono) auto
  have "state_bound slots (length (remdups missing)) \<le> max_states" "0 \<le> slots"
    using bound assms(2,4) by (simp_all add: slots_def)
  from minimum_cost_enough [OF this order_trans [OF work assms(5)]] obtain result left where
    found: "minimum_covering_completion_cost others missing slots work = Inr (result, left)"
    and "work - int (length others) * state_bound slots (length (remdups missing)) \<le> left"
    by blast
  then have "work - lookahead_work request n \<le> left"
    using work by linarith
  moreover have "0 \<le> lookahead_work request n"
    using assms(1,2) by (simp add: lookahead_work_def)
  ultimately show ?thesis
    using found unfolding completion_remains_possible_def Let_def slots_def [symmetric] others_def [symmetric] missing_def [symmetric]
    by (auto split: option.splits)
qed

lemma score_each_enough:
  assumes "int (length (pk_selected st)) < cr_k request" and "length (pk_remaining st) \<le> n"
    and "cr_k request * 2 ^ length (cr_required request) \<le> max_states" and "int (length ss) * lookahead_work request n \<le> work"
  shows "\<exists>scored left. score_each cosine request st ss work = Inr (scored, left)
    \<and> work - int (length ss) * lookahead_work request n \<le> left"
  using assms(4)
proof (induction ss arbitrary: work)
  case (Cons s ss)
  let ?L = "lookahead_work request n"
  have "0 \<le> ?L"
    using assms(1) by (simp add: lookahead_work_def)
  then have "?L \<le> work" and rest: "int (length ss) * ?L \<le> work - ?L"
    using Cons.prems by (auto simp: algebra_simps) (smt (verit) mult_nonneg_nonneg of_nat_0_le_iff)
  from possible_enough [OF _ assms(1,2,3) this(1), of s "pk_cost st" "pk_capabilities st"] obtain b left where
    now: "completion_remains_possible request s (pk_remaining st) (int (length (pk_selected st))) (pk_cost st)
      (pk_capabilities st) work = Inr (b, left)" "work - ?L \<le> left"
    by auto
  from Cons.IH [of left] now(2) rest obtain scored left' where
    "score_each cosine request st ss left = Inr (scored, left')" "left - int (length ss) * ?L \<le> left'"
    by fastforce
  with now show ?case
    by (auto simp: algebra_simps)
qed simp

lemma pick_rounds_enough:
  assumes "int (length (pk_selected st)) + int rounds \<le> cr_k request" and "length (pk_remaining st) \<le> n"
    and "cr_k request * 2 ^ length (cr_required request) \<le> max_states"
    and "int rounds * (int n * lookahead_work request n) \<le> pk_work st"
    and "pick_rounds cosine request rounds st = Inl e"
  shows "\<not> out_of_budget e"
  using assms(1,2,4,5)
proof (induction rounds arbitrary: st)
  case (Suc rounds)
  let ?L = "lookahead_work request n"
  have L: "0 \<le> ?L" "0 \<le> int rounds * (int n * ?L)"
    using Suc.prems(1) by (simp_all add: lookahead_work_def)
  have "int (length (pk_remaining st)) * ?L \<le> int n * ?L"
    using Suc.prems(2) L(1) by (intro mult_right_mono) auto
  moreover have all: "int n * ?L + int rounds * (int n * ?L) \<le> pk_work st"
    using Suc.prems(3) by (simp add: algebra_simps)
  ultimately have "int (length (pk_remaining st)) * ?L \<le> pk_work st"
    using L(2) by linarith
  from score_each_enough [OF _ Suc.prems(2) assms(3) this, of cosine] Suc.prems(1) obtain scored left where
    scored: "score_each cosine request st (pk_remaining st) (pk_work st) = Inr (scored, left)"
    "pk_work st - int (length (pk_remaining st)) * ?L \<le> left"
    by auto
  show ?case
  proof (cases "scored = []")
    case True
    with scored(1) Suc.prems(4) show ?thesis
      by (auto simp: pick_one_def out_of_budget_def)
  next
    case False
    define st1 where "st1 = take_skill cosine request st (hd (sort_key score_key scored)) left"
    have st1: "pk_work st1 = left" "length (pk_selected st1) = Suc (length (pk_selected st))"
        "length (pk_remaining st1) \<le> length (pk_remaining st)"
      by (auto simp: st1_def take_skill_def length_remove1 split: prod.splits)
    have "pick_rounds cosine request rounds st1 = Inl e"
      using Suc.prems(4) scored(1) False by (simp add: pick_one_def st1_def)
    moreover have "int rounds * (int n * ?L) \<le> pk_work st1"
      using st1(1) scored(2) all \<open>int (length (pk_remaining st)) * ?L \<le> int n * ?L\<close> by linarith
    ultimately show ?thesis
      using Suc.prems(1,2) st1(2,3) by (intro Suc.IH [of st1]) auto
  qed
qed simp

section \<open>Properties\<close>

text \<open>C36. A plan meets every hard constraint: it is made only from a fresh index, of distinct skills of it that are
  available, allowed, not prohibited, fit the platform and the harness and the ceiling of uncertainty; there are
  exactly \<open>k\<close> of them, they cover every required capability, and together they cost no more than the budget.\<close>

theorem plan_meets_every_hard_constraint:
  assumes "skill_index_from_dict v = Some x" and "request_from_dict w = Some request"
    and "compose_skills cosine digest x request now = Inr plan"
  shows "index_freshness x now = Some ''fresh''
    \<and> (\<exists>chosen. distinct chosen \<and> selection x request (set chosen)
         \<and> map (\<lambda>p. (ps_id p, ps_version p)) (cp_selected plan) = map skill_identity chosen)"
proof -
  have usable: "assert_usable x request now = None" "length (cr_required request) \<le> max_required"
      "length (fst (hard_filter x request)) \<le> max_candidates"
    using assms(3) by (auto simp: compose_skills_def Let_def not_less split: option.splits if_splits)
  then have "index_freshness x now = Some ''fresh''"
    by (auto simp: assert_usable_def split: option.splits if_splits)
  with compose_skills_result(2) [OF assms(1,2) refl usable assms(3)] show ?thesis
    by blast
qed

text \<open>C37. The greedy choice loses nothing: for a usable index and a request within the size limits, where \<open>n\<close> is the
  number of eligible skills, \<open>k\<close> that of the skills wanted and \<open>m\<close> that of the required capabilities, the
  composition returns a plan exactly when some admissible selection exists, as long as
  \<open>k * (n * (n * (k * 2 ^ m)))\<close> is within the work budget and \<open>k * 2 ^ m\<close> within the state budget.\<close>

theorem composition_finds_a_plan:
  assumes "skill_index_from_dict v = Some x" and "request_from_dict w = Some request"
    and "assert_usable x request now = None" and "length (cr_required request) \<le> max_required"
    and "n = length (fst (hard_filter x request))" and "n \<le> max_candidates"
    and "cr_k request * 2 ^ length (cr_required request) \<le> max_states"
    and "cr_k request * (int n * lookahead_work request n) \<le> max_transitions"
  shows "(\<exists>plan. compose_skills cosine digest x request now = Inr plan) \<longleftrightarrow> (\<exists>X. selection x request X)"
proof (cases "compose_skills cosine digest x request now")
  case (Inr plan)
  with compose_skills_result(2) [OF assms(1,2) refl assms(3,4), of cosine digest plan] assms(5,6) show ?thesis
    by blast
next
  case (Inl e)
  have "\<not> out_of_budget e"
  proof (cases "pick_rounds cosine request (nat (cr_k request)) (start_picking (fst (hard_filter x request)))")
    case rounds: (Inl e')
    have "\<not> out_of_budget e'"
      using request_read [OF assms(2)] assms(5,7,8) by (intro pick_rounds_enough [OF _ _ _ _ rounds]) (auto simp: start_picking_def)
    with rounds Inl assms(3,4,6) show ?thesis
      by (auto simp: compose_skills_def Let_def out_of_budget_def split: if_splits)
  next
    case (Inr st)
    with Inl assms(3,4,6) show ?thesis
      by (auto simp: compose_skills_def Let_def out_of_budget_def split: if_splits)
  qed
  with compose_skills_result(1) [OF assms(1,2) refl assms(3,4), of cosine digest e] assms(5,6) Inl show ?thesis
    by auto
qed

lemma filter_key: "distinct zs \<Longrightarrow> inj_on f (set zs) \<Longrightarrow> s \<in> set zs \<Longrightarrow> filter (\<lambda>y. f s = f y) zs = [s]"
proof (induction zs)
  case (Cons z zs)
  show ?case
  proof (cases "s = z")
    case True
    with Cons.prems have "filter (\<lambda>y. f s = f y) zs = []"
      by (auto simp: filter_empty_conv inj_on_def)
    with True show ?thesis
      by simp
  next
    case False
    with Cons.prems have "f s \<noteq> f z"
      by (auto simp: inj_on_def)
    with Cons False show ?thesis
      by simp
  qed
qed simp

text \<open>Plans and their order depend on the skills of the index, not on the order in which it lists them.\<close>

theorem composition_ignores_index_order:
  assumes "distinct (map sk_id skills)" and "mset skills = mset (si_skills x)"
  shows "compose_skills cosine digest (x\<lparr>si_skills := skills\<rparr>) request now = compose_skills cosine digest x request now"
proof -
  have "sort_key skill_identity (si_skills x) = sort_key skill_identity skills"
  proof (rule properties_for_sort_key)
    show "mset (sort_key skill_identity skills) = mset (si_skills x)"
      using assms(2) by simp
    have "inj_on skill_identity (set skills)" "set (si_skills x) = set skills" "distinct skills" "distinct (si_skills x)"
      using assms by (auto simp: distinct_map inj_on_def skill_identity_def mset_eq_setD[OF assms(2)] intro: mset_eq_imp_distinct_iff [THEN iffD1])
    then show "filter (\<lambda>y. skill_identity s = skill_identity y) (sort_key skill_identity skills)
        = filter (\<lambda>y. skill_identity s = skill_identity y) (si_skills x)" if "s \<in> set (sort_key skill_identity skills)" for s
      using that by (simp add: filter_key distinct_sort)
  qed simp
  then have same: "hard_filter (x\<lparr>si_skills := skills\<rparr>) request = hard_filter x request"
    by (simp add: hard_filter_def)
  have "assert_usable (x\<lparr>si_skills := skills\<rparr>) request now = assert_usable x request now"
    by (simp add: assert_usable_def index_freshness_def cong: option.case_cong if_cong)
  moreover have "plan_of cosine digest (x\<lparr>si_skills := skills\<rparr>) request now = plan_of cosine digest x request now"
    by (rule ext) (simp add: plan_of_def fingerprint_def same)
  ultimately show ?thesis
    by (simp only: compose_skills_def same)
qed

section \<open>Examples\<close>

definition sample_index :: skill_index where
  "sample_index =
     \<lparr>si_id = ''skills'', si_generated_at = ''2026-07-01T00:00:00Z'', si_ttl_seconds = Some 3600,
      si_evidence_state = ''complete'', si_source_digest = ''sha256:'' @ replicate 64 (CHR ''a''),
      si_embedding_model = ''model'', si_embedding_dimensions = 2,
      si_skills = sample_skills\<rparr>"

definition sample_composition :: composition_request where
  "sample_composition =
     \<lparr>cr_id = ''request'', cr_k = 3, cr_required = [''plot'', ''lint''], cr_desired = [''visual''], cr_platform = ''linux'',
      cr_harness = ''codex'', cr_allowed = [], cr_prohibited = [], cr_max_total_cost = 6, cr_max_uncertainty = 1 / 2,
      cr_query = [1, 1]\<rparr>"

definition dot :: "rat list \<Rightarrow> rat list \<Rightarrow> rat" where
  "dot xs ys = sum_list (map2 (*) xs ys)"

lemma sample_index_read: "skill_index_from_dict (skill_index_to_dict sample_index) = Some sample_index"
  by code_simp

lemma sample_composition_read: "request_from_dict (request_to_dict sample_composition) = Some sample_composition"
  by code_simp

definition sample_time :: moment where
  "sample_time = Stamp ''2026-07-01T00:30:00+00:00''"

lemma sample_usable: "assert_usable sample_index sample_composition sample_time = None"
  by code_simp

lemma sample_composed:
  "map_sum (\<lambda>_. ()) (map ps_id \<circ> cp_selected) (compose_skills dot (\<lambda>_. []) sample_index sample_composition sample_time)
     = Inr [''plot'', ''docs'', ''lint'']"
  by code_simp

theorem plan_meets_every_hard_constraint_witness:
  "\<exists>chosen. distinct chosen \<and> selection sample_index sample_composition (set chosen)
     \<and> map sk_id chosen = [''plot'', ''docs'', ''lint'']"
proof -
  from sample_composed obtain plan where plan: "compose_skills dot (\<lambda>_. []) sample_index sample_composition sample_time = Inr plan"
      "map ps_id (cp_selected plan) = [''plot'', ''docs'', ''lint'']"
    by (cases "compose_skills dot (\<lambda>_. []) sample_index sample_composition sample_time") auto
  from plan_meets_every_hard_constraint [OF sample_index_read sample_composition_read plan(1)]
  obtain chosen where chosen: "distinct chosen" "selection sample_index sample_composition (set chosen)"
      "map (\<lambda>p. (ps_id p, ps_version p)) (cp_selected plan) = map skill_identity chosen"
    by blast
  have "map sk_id chosen = map fst (map skill_identity chosen)"
    unfolding map_map by (rule map_cong) (simp_all add: skill_identity_def)
  also have "\<dots> = map ps_id (cp_selected plan)"
    unfolding chosen(3) [symmetric] by simp
  finally have "map sk_id chosen = [''plot'', ''docs'', ''lint'']"
    unfolding plan(2) .
  with chosen(1,2) show ?thesis
    by (intro exI [of _ chosen] conjI)
qed

lemma selection_list:
  assumes "distinct chosen" and "list_all (\<lambda>s. s \<in> set (si_skills x) \<and> admissible request s) chosen"
    and "int (length chosen) = cr_k request"
    and "list_all (\<lambda>c. c \<in> set (concat (map sk_capabilities chosen))) (cr_required request)"
    and "sum_list (map sk_cost chosen) \<le> cr_max_total_cost request"
  shows "selection x request (set chosen)"
  using assms unfolding selection_def
  by (auto simp: list_all_iff distinct_card covers_set_def sum.distinct_set_conv_list)

theorem composition_finds_a_plan_witness:
  "\<exists>plan. compose_skills dot (\<lambda>_. []) sample_index sample_composition sample_time = Inr plan"
proof -
  have "selection sample_index sample_composition (set (take 3 sample_skills))"
    by (rule selection_list; code_simp)
  moreover have "length (cr_required sample_composition) \<le> max_required"
      "4 = length (fst (hard_filter sample_index sample_composition))" "4 \<le> max_candidates"
      "cr_k sample_composition * 2 ^ length (cr_required sample_composition) \<le> max_states"
      "cr_k sample_composition * (int 4 * lookahead_work sample_composition 4) \<le> max_transitions"
    by code_simp+
  ultimately show ?thesis
    using composition_finds_a_plan [OF sample_index_read sample_composition_read sample_usable] by blast
qed

theorem composition_ignores_index_order_witness:
  "compose_skills dot (\<lambda>_. []) (sample_index\<lparr>si_skills := rev sample_skills\<rparr>) sample_composition sample_time
     = compose_skills dot (\<lambda>_. []) sample_index sample_composition sample_time"
proof (rule composition_ignores_index_order)
  show "distinct (map sk_id (rev sample_skills))"
    by code_simp
  show "mset (rev sample_skills) = mset (si_skills sample_index)"
    by (simp add: sample_index_def)
qed

end
