(* ===== verification/Quota.thy ===== *)
theory Quota
  imports ContractChecks ProvEvents
begin

text \<open>
  Quota evidence and the shared-pool accounting (\<open>quota/evidence.py\<close>): evidence records, what is known of a
  balance, the bounds that receipts put on it, the decision about a pilot, and the state of the shared pool.

  \<open>None\<close> stands for an exception. Amounts are exact rationals. Notes and reasons, which are texts for a
  reader, are left out. SHA-256 is \<open>digest\<close>, a function of the canonical JSON; \<open>float\<close> of a text is
  \<open>float_text\<close>, which gives the finite number a text stands for; the current time is an instant.
\<close>

section \<open>Vocabulary\<close>

definition pool_id :: string where
  "pool_id = ''opencode.go''"

definition provider_id :: string where
  "provider_id = ''opencode-go''"

definition quota_sources :: "string list" where
  "quota_sources = [''console'', ''api'', ''receipt'', ''history'', ''runtime_error'', ''manual'']"

definition quota_windows :: "string list" where
  "quota_windows = [''five_hour'', ''weekly'', ''monthly'']"

definition attributions :: "string list" where
  "attributions = [''exclusive'', ''confounded'', ''unknown'']"

definition overage_states :: "string list" where
  "overage_states = [''unknown'', ''enabled'', ''disabled'']"

definition console_ttl :: int where
  "console_ttl = 6 * 3600"

definition runtime_ttl :: int where
  "runtime_ttl = 2 * 3600"

definition usage_api_ttl :: int where
  "usage_api_ttl = 5 * 60"

section \<open>Time\<close>

text \<open>\<open>_parse_utc\<close>: a text without an offset is in UTC. An instant outside the years 1 to 9999 is an
  \<open>OverflowError\<close>, which the handlers of \<open>ValueError\<close> let pass.\<close>

datatype utc = Unreadable | Outside | At int

definition replace_z :: "string \<Rightarrow> string" where
  "replace_z s = concat (map (\<lambda>c. if c = CHR ''Z'' then ''+00:00'' else [c]) s)"

definition parse_utc :: "string \<Rightarrow> utc" where
  "parse_utc s = (case fromisoformat (replace_z (py_strip s)) of
     None \<Rightarrow> Unreadable
   | Some t \<Rightarrow> if in_range t then At t else Outside)"

definition utc_of :: "json \<Rightarrow> utc" where
  "utc_of v = (case v of JStr s \<Rightarrow> parse_utc s | _ \<Rightarrow> Unreadable)"

definition instant :: "utc \<Rightarrow> int option" where
  "instant u = (case u of At t \<Rightarrow> Some t | _ \<Rightarrow> None)"

section \<open>Evidence records\<close>

record quota_record =
  qr_source :: string
  qr_observed_at :: string
  qr_scope_hash :: string
  qr_window :: "string option"
  qr_percent :: "rat option"
  qr_amount :: "rat option"
  qr_cap :: "rat option"
  qr_reset_at :: "string option"
  qr_confidence :: rat
  qr_ttl :: int
  qr_discrepancy :: bool
  qr_attribution :: string
  qr_exact :: bool
  qr_overage :: string
  qr_event :: "dict option"

definition scope_hash :: "(json \<Rightarrow> string) \<Rightarrow> string \<Rightarrow> string" where
  "scope_hash digest hint = digest (canon (JObj
     [(''pool_id'', JStr pool_id), (''provider_id'', JStr provider_id), (''scope_hint'', JStr hint)]))"

definition if_given :: "('a \<Rightarrow> bool) \<Rightarrow> 'a option \<Rightarrow> bool" where
  "if_given p z = (case z of None \<Rightarrow> True | Some x \<Rightarrow> p x)"

definition make_record :: "quota_record \<Rightarrow> quota_record option" where
  "make_record r = do {
     require (qr_source r \<in> set quota_sources);
     require (if_given (\<lambda>w. w \<in> set quota_windows) (qr_window r));
     require (qr_attribution r \<in> set attributions);
     require (qr_overage r \<in> set overage_states);
     require (if_given (\<lambda>p. 0 \<le> p \<and> p \<le> 100) (qr_percent r));
     require (if_given (\<lambda>a. 0 \<le> a) (qr_amount r));
     require (if_given (\<lambda>c. 0 < c) (qr_cap r));
     require (0 < qr_ttl r);
     require (0 \<le> qr_confidence r \<and> qr_confidence r \<le> 1);
     require (if_given (\<lambda>s. instant (parse_utc s) \<noteq> None) (qr_reset_at r));
     Some r }"

text \<open>What a record says by default.\<close>

definition blank_record :: "(json \<Rightarrow> string) \<Rightarrow> string \<Rightarrow> string \<Rightarrow> string option \<Rightarrow> int \<Rightarrow> string \<Rightarrow> quota_record" where
  "blank_record digest source observed window ttl overage =
     \<lparr>qr_source = source, qr_observed_at = observed, qr_scope_hash = scope_hash digest [], qr_window = window,
      qr_percent = None, qr_amount = None, qr_cap = None, qr_reset_at = None, qr_confidence = 1 / 2, qr_ttl = ttl,
      qr_discrepancy = False, qr_attribution = ''unknown'', qr_exact = False, qr_overage = overage, qr_event = None\<rparr>"

text \<open>\<open>timedelta\<close> and the sum of an instant and a \<open>timedelta\<close> raise beyond the years 1 to 9999.\<close>

definition later :: "int \<Rightarrow> int \<Rightarrow> int option" where
  "later t us = (if in_range (t + us) then Some (t + us) else None)"

definition is_stale_record :: "int \<Rightarrow> quota_record \<Rightarrow> bool option" where
  "is_stale_record now r = do {
     observed \<leftarrow> instant (parse_utc (qr_observed_at r));
     expiry \<leftarrow> later observed (qr_ttl r * 1000000);
     Some (expiry < now) }"

section \<open>Balances\<close>

definition numeric_balance :: "quota_record \<Rightarrow> bool" where
  "numeric_balance r \<longleftrightarrow> qr_exact r \<and> \<not> qr_discrepancy r \<and> (qr_percent r \<noteq> None \<or> qr_amount r \<noteq> None)"

text \<open>\<open>balance_state\<close> returns \<open>known\<close> at the first record that shows it, and reads no later one.\<close>

fun balance_known :: "int \<Rightarrow> quota_record list \<Rightarrow> bool option" where
  "balance_known now [] = Some False"
| "balance_known now (r # rs) = do {
     stale \<leftarrow> is_stale_record now r;
     (if \<not> stale \<and> numeric_balance r then Some True else balance_known now rs) }"

definition fresh_records :: "int \<Rightarrow> quota_record list \<Rightarrow> quota_record list option" where
  "fresh_records now rs = do {
     stale \<leftarrow> checked_list (is_stale_record now) rs;
     Some (map fst (filter (\<lambda>(r, s). \<not> s) (zip rs stale))) }"

definition exact_percent :: "quota_record \<Rightarrow> rat option" where
  "exact_percent r = (if qr_exact r \<and> \<not> qr_discrepancy r then qr_percent r else None)"

definition window_percents :: "quota_record list \<Rightarrow> string \<Rightarrow> rat list" where
  "window_percents rs w = List.map_filter exact_percent (filter (\<lambda>r. qr_window r = Some w) rs)"

fun least :: "rat list \<Rightarrow> rat option" where
  "least [] = None"
| "least (q # qs) = Some (fold min qs q)"

definition effective_remaining_percent :: "int \<Rightarrow> quota_record list \<Rightarrow> rat option option" where
  "effective_remaining_percent now rs = do {
     fresh \<leftarrow> fresh_records now rs;
     Some (least (List.map_filter (\<lambda>w. least (window_percents fresh w)) quota_windows)) }"

definition health_bands :: "(string \<times> rat option \<times> rat) list" where
  "health_bands =
     [(''healthy'', Some 70, 100), (''balanced'', Some 40, 70), (''conserve'', Some 15, 40),
      (''drain_preserve'', Some 0, 15), (''blocked'', None, 0)]"

definition health_band :: "rat option \<Rightarrow> string" where
  "health_band p = (case p of
     None \<Rightarrow> ''unknown''
   | Some q \<Rightarrow> (case List.find (\<lambda>(_, lower, upper). case lower of None \<Rightarrow> q \<le> upper | Some l \<Rightarrow> l \<le> q \<and> q < upper) health_bands of
       None \<Rightarrow> ''healthy''
     | Some (name, _) \<Rightarrow> name))"

section \<open>Multipliers\<close>

text \<open>The exact model first, then the longest prefix of it (the first of that length), then the default.\<close>

definition effective_multiplier :: "string \<Rightarrow> (string \<times> rat) list \<Rightarrow> rat \<Rightarrow> rat" where
  "effective_multiplier model multipliers default_multiplier =
     (case map_of multipliers model of
        Some q \<Rightarrow> q
      | None \<Rightarrow>
          (case sort_key (\<lambda>k. - int (length k)) (filter (\<lambda>k. take (length k) model = k) (map fst multipliers)) of
             [] \<Rightarrow> default_multiplier
           | k # _ \<Rightarrow> the (map_of multipliers k)))"

definition scale_cost :: "rat option \<Rightarrow> rat \<Rightarrow> rat option" where
  "scale_cost amount multiplier = map_option (\<lambda>a. a * multiplier) amount"

section \<open>The pilot decision\<close>

record pilot_args =
  pa_catalog_visible :: bool
  pa_auth_state :: string
  pa_unknown_policy :: "string option"
  pa_pilot_percent :: "rat option"
  pa_reserve_percent :: rat
  pa_lanes :: int
  pa_lane_cost_cap :: "rat option"
  pa_lane_token_cap :: "int option"

record pilot_decision =
  pd_known :: bool
  pd_effective :: "rat option"
  pd_band :: string
  pd_catalog_visible :: bool
  pd_pilot_allowed :: bool
  pd_ready :: bool
  pd_blocked :: bool
  pd_cost_cap :: "rat option"
  pd_token_cap :: "int option"

definition pilot_decision_of :: "int \<Rightarrow> pilot_args \<Rightarrow> quota_record list \<Rightarrow> pilot_decision option" where
  "pilot_decision_of now args rs = do {
     require (1 \<le> pa_lanes args);
     require (0 \<le> pa_reserve_percent args \<and> pa_reserve_percent args < 100);
     require (if_given (\<lambda>p. 0 < p \<and> p \<le> 100) (pa_pilot_percent args));
     fresh \<leftarrow> fresh_records now rs;
     known \<leftarrow> balance_known now fresh;
     effective \<leftarrow> effective_remaining_percent now fresh;
     (let blocked = list_ex (\<lambda>r. exact_percent r = Some 0) fresh;
          pilot_allowed =
            (if blocked then False
             else if known then (case effective of None \<Rightarrow> False | Some p \<Rightarrow> 0 < p)
             else pa_unknown_policy args = Some ''pilot'' \<and> pa_catalog_visible args \<and> pa_auth_state args = ''configured'');
          ready = (known \<and> (case effective of None \<Rightarrow> False | Some p \<Rightarrow> pa_reserve_percent args < p) \<and> \<not> blocked)
      in Some \<lparr>pd_known = known, pd_effective = effective, pd_band = health_band effective,
               pd_catalog_visible = pa_catalog_visible args, pd_pilot_allowed = pilot_allowed, pd_ready = ready,
               pd_blocked = blocked,
               pd_cost_cap = (if pa_lane_cost_cap args \<noteq> None then pa_lane_cost_cap args
                              else if pilot_allowed then Some 2 else None),
               pd_token_cap = (if pa_lane_token_cap args \<noteq> None then pa_lane_token_cap args
                               else if pilot_allowed then Some 500000 else None)\<rparr>) }"

section \<open>The usage response\<close>

text \<open>\<open>float(v)\<close>: a number, a \<open>TypeError\<close> or \<open>ValueError\<close>, or an \<open>OverflowError\<close>.\<close>

datatype float_read = Number rat | NotNumber | TooLarge

definition float_value :: "(string \<Rightarrow> rat option) \<Rightarrow> json \<Rightarrow> float_read" where
  "float_value float_text v = (case v of
     JBool b \<Rightarrow> Number (if b then 1 else 0)
   | JInt i \<Rightarrow> if fits_float i then Number (of_int i) else TooLarge
   | JFloat q \<Rightarrow> Number q
   | JStr s \<Rightarrow> (case float_text s of None \<Rightarrow> NotNumber | Some q \<Rightarrow> Number q)
   | _ \<Rightarrow> NotNumber)"

definition sorted_names :: "string list \<Rightarrow> string list" where
  "sorted_names xs = sort (remdups xs)"

text \<open>One window of the response: the record and whether the window is missing, invalid or discrepant.\<close>

record window_reading =
  wr_record :: quota_record
  wr_missing :: bool
  wr_invalid :: bool
  wr_discrepancy :: bool

definition used_percent :: "(string \<Rightarrow> rat option) \<Rightarrow> json \<Rightarrow> rat option option" where
  "used_percent float_text v = (case float_value float_text v of
     TooLarge \<Rightarrow> None
   | NotNumber \<Rightarrow> Some None
   | Number q \<Rightarrow> Some (if 0 \<le> q \<and> q \<le> 100 then Some q else None))"

text \<open>The normalised reset stamp, and whether it is unreadable or precedes the observation.\<close>

definition read_reset :: "int \<Rightarrow> json \<Rightarrow> (string option \<times> bool) option" where
  "read_reset observed v =
     (if v = JNull then Some (None, False)
      else case utc_of v of
             Unreadable \<Rightarrow> Some (None, True)
           | Outside \<Rightarrow> None
           | At t \<Rightarrow> Some (Some (iso t), t < observed))"

definition usage_status_ok :: "json \<Rightarrow> bool" where
  "usage_status_ok v \<longleftrightarrow> \<not> truthy v \<or> v \<in> {JStr ''ok'', JStr ''rate-limited'', JStr ''unknown''}"

definition usage_window ::
  "(json \<Rightarrow> string) \<Rightarrow> (string \<Rightarrow> rat option) \<Rightarrow> string \<Rightarrow> string \<Rightarrow> string \<Rightarrow> json \<Rightarrow> window_reading option" where
  "usage_window digest float_text observed overage window v =
     (let blank = blank_record digest ''api'' observed (Some window) usage_api_ttl overage
      in case v of
           JObj item \<Rightarrow> do {
             now \<leftarrow> instant (parse_utc observed);
             used \<leftarrow> used_percent float_text (dget0 item ''percent'');
             (reset, odd_reset) \<leftarrow> read_reset now (dget0 item ''resetsAt'');
             (let discrepancy = (used = None \<or> odd_reset \<or> \<not> usage_status_ok (dget0 item ''status''))
              in do {
                r \<leftarrow> make_record (blank\<lparr>qr_percent := map_option (\<lambda>q. 100 - q) used, qr_reset_at := reset,
                  qr_confidence := (if used \<noteq> None \<and> \<not> discrepancy then 99 / 100 else 1 / 2),
                  qr_discrepancy := discrepancy, qr_exact := (used \<noteq> None \<and> \<not> discrepancy)\<rparr>);
                Some \<lparr>wr_record = r, wr_missing = False, wr_invalid = (used = None), wr_discrepancy = discrepancy\<rparr> }) }
         | _ \<Rightarrow> do {
             r \<leftarrow> make_record (blank\<lparr>qr_confidence := 45 / 100\<rparr>);
             Some \<lparr>wr_record = r, wr_missing = True, wr_invalid = False, wr_discrepancy = False\<rparr> })"

record usage_reading =
  ug_scope_hash :: string
  ug_observed_at :: string
  ug_records :: "quota_record list"
  ug_overage :: string
  ug_missing :: "string list"
  ug_invalid :: "string list"
  ug_discrepancy :: "string list"

definition api_windows :: "(string \<times> string) list" where
  "api_windows = [(''rolling'', ''five_hour''), (''weekly'', ''weekly''), (''monthly'', ''monthly'')]"

definition response_overage :: "string option \<Rightarrow> dict \<Rightarrow> string" where
  "response_overage overage data =
     (case overage of
        Some s \<Rightarrow> if s = [] then ''unknown'' else s
      | None \<Rightarrow> (case dget0 data ''useBalance'' of
          JBool b \<Rightarrow> if b then ''enabled'' else ''disabled'' | _ \<Rightarrow> ''unknown''))"

definition windows_where :: "(window_reading \<Rightarrow> bool) \<Rightarrow> window_reading list \<Rightarrow> string list" where
  "windows_where p ws = sorted_names (List.map_filter (\<lambda>w. if p w then qr_window (wr_record w) else None) ws)"

definition parse_usage_api_response ::
  "(json \<Rightarrow> string) \<Rightarrow> (string \<Rightarrow> rat option) \<Rightarrow> string \<Rightarrow> string option \<Rightarrow> json \<Rightarrow> usage_reading option" where
  "parse_usage_api_response digest float_text observed overage v = (case v of
     JObj data \<Rightarrow> (case dget0 data ''usage'' of
       JObj usage \<Rightarrow> do {
         instant (parse_utc observed);
         (let state = response_overage overage data
          in do {
            require (state \<in> set overage_states);
            windows \<leftarrow> checked_list (\<lambda>(api, local). usage_window digest float_text observed state local (dget0 usage api)) api_windows;
            Some \<lparr>ug_scope_hash = scope_hash digest ''official-usage-api'', ug_observed_at = observed,
                  ug_records = map wr_record windows, ug_overage = state, ug_missing = windows_where wr_missing windows,
                  ug_invalid = windows_where wr_invalid windows, ug_discrepancy = windows_where wr_discrepancy windows\<rparr> }) }
     | _ \<Rightarrow> None)
   | _ \<Rightarrow> None)"

section \<open>Receipts\<close>

definition receipt_windows :: "dict \<Rightarrow> string list" where
  "receipt_windows d = (case dget0 d ''window'' of
     JStr s \<Rightarrow> if s \<in> set quota_windows then [s] else quota_windows
   | JArr vs \<Rightarrow>
       (let named = List.map_filter (\<lambda>v. case v of JStr s \<Rightarrow> if s \<in> set quota_windows then Some s else None | _ \<Rightarrow> None) vs
        in if named = [] then quota_windows else named)
   | _ \<Rightarrow> quota_windows)"

definition optional_float :: "(string \<Rightarrow> rat option) \<Rightarrow> json \<Rightarrow> float_read option" where
  "optional_float float_text v = (if v = JNull then None else Some (float_value float_text v))"

text \<open>The bounds on the spend of a receipt, where there are both or neither.\<close>

definition receipt_spend :: "(string \<Rightarrow> rat option) \<Rightarrow> dict \<Rightarrow> (rat \<times> rat) option option" where
  "receipt_spend float_text d = (case optional_float float_text (dget0 d ''cost_usd'') of
     Some (Number q) \<Rightarrow> Some (Some (q, q))
   | Some NotNumber \<Rightarrow> Some None
   | Some TooLarge \<Rightarrow> None
   | None \<Rightarrow>
       (case (optional_float float_text (dget0 d ''cost_min_usd''), optional_float float_text (dget0 d ''cost_max_usd'')) of
          (Some TooLarge, _) \<Rightarrow> None
        | (Some NotNumber, _) \<Rightarrow> Some None
        | (_, Some TooLarge) \<Rightarrow> None
        | (_, Some NotNumber) \<Rightarrow> Some None
        | (None, None) \<Rightarrow> Some None
        | (Some (Number lo), None) \<Rightarrow> Some (Some (lo, lo))
        | (None, Some (Number hi)) \<Rightarrow> Some (Some (hi, hi))
        | (Some (Number lo), Some (Number hi)) \<Rightarrow> Some (Some (lo, hi))))"

record spend_row =
  sr_count :: nat
  sr_min :: rat
  sr_max :: rat
  sr_known :: bool
  sr_attribution :: string
  sr_spans :: "(int \<times> int) list"

definition empty_row :: spend_row where
  "empty_row = \<lparr>sr_count = 0, sr_min = 0, sr_max = 0, sr_known = True, sr_attribution = ''exclusive'', sr_spans = []\<rparr>"

definition receipt_attribution :: "dict \<Rightarrow> string" where
  "receipt_attribution d = (case dget0 d ''attribution'' of JStr s \<Rightarrow> if s \<in> set attributions then s else ''unknown'' | _ \<Rightarrow> ''unknown'')"

definition either_of :: "json \<Rightarrow> json \<Rightarrow> json" where
  "either_of v w = (if truthy v then v else w)"

text \<open>The period of a receipt: \<open>Some None\<close> when a stamp is unreadable, an empty list when one is absent.\<close>

definition receipt_span :: "dict \<Rightarrow> (int \<times> int) list option option" where
  "receipt_span d =
     (let start = either_of (dget0 d ''started_at_utc'') (dget0 d ''started_at'');
          finish = either_of (dget0 d ''ended_at_utc'') (dget0 d ''ended_at'')
      in if \<not> (truthy start \<and> truthy finish) then Some (Some [])
         else case utc_of start of
                Unreadable \<Rightarrow> Some None
              | Outside \<Rightarrow> None
              | At a \<Rightarrow> (case utc_of finish of Unreadable \<Rightarrow> Some None | Outside \<Rightarrow> None | At b \<Rightarrow> Some (Some [(a, b)])))"

definition charge_receipt :: "(rat \<times> rat) option \<Rightarrow> string \<Rightarrow> (int \<times> int) list option \<Rightarrow> spend_row \<Rightarrow> spend_row" where
  "charge_receipt spend attribution period row =
     row\<lparr>sr_count := Suc (sr_count row),
         sr_min := sr_min row + (case spend of None \<Rightarrow> 0 | Some (lo, _) \<Rightarrow> lo),
         sr_max := sr_max row + (case spend of None \<Rightarrow> 0 | Some (_, hi) \<Rightarrow> hi),
         sr_known := (sr_known row \<and> spend \<noteq> None),
         sr_attribution :=
           (if period = None then ''unknown''
            else if attribution = ''confounded'' then ''confounded''
            else if attribution = ''unknown'' \<and> sr_attribution row = ''exclusive'' then ''unknown''
            else sr_attribution row),
         sr_spans := sr_spans row @ (case period of None \<Rightarrow> [] | Some xs \<Rightarrow> xs)\<rparr>"

definition add_receipt :: "(string \<Rightarrow> rat option) \<Rightarrow> (string \<Rightarrow> spend_row) \<Rightarrow> dict \<Rightarrow> (string \<Rightarrow> spend_row) option" where
  "add_receipt float_text rows d = do {
     spend \<leftarrow> receipt_spend float_text d;
     period \<leftarrow> receipt_span d;
     Some (fold (\<lambda>w rows. rows(w := charge_receipt spend (receipt_attribution d) period (rows w))) (receipt_windows d) rows) }"

fun add_receipts :: "(string \<Rightarrow> rat option) \<Rightarrow> (string \<Rightarrow> spend_row) \<Rightarrow> json list \<Rightarrow> (string \<Rightarrow> spend_row) option" where
  "add_receipts float_text rows [] = Some rows"
| "add_receipts float_text rows (v # vs) = (case v of
     JObj d \<Rightarrow> Option.bind (add_receipt float_text rows d) (\<lambda>rows'. add_receipts float_text rows' vs)
   | _ \<Rightarrow> add_receipts float_text rows vs)"

fun spans_overlap :: "(int \<times> int) list \<Rightarrow> bool" where
  "spans_overlap [] = False"
| "spans_overlap ((a, b) # spans) = (list_ex (\<lambda>(c, d). a < d \<and> c < b) spans \<or> spans_overlap spans)"

record window_spend =
  ws_count :: nat
  ws_min :: "rat option"
  ws_max :: "rat option"
  ws_cap :: "rat option"
  ws_lower :: "rat option"
  ws_upper :: "rat option"
  ws_attribution :: string
  ws_overlapping :: bool

definition window_spend_of :: "rat option \<Rightarrow> spend_row \<Rightarrow> window_spend" where
  "window_spend_of cap row =
     (if sr_count row = 0 then
        \<lparr>ws_count = 0, ws_min = None, ws_max = None, ws_cap = cap, ws_lower = None, ws_upper = None,
         ws_attribution = ''unknown'', ws_overlapping = False\<rparr>
      else
        let exclusive = (sr_attribution row = ''exclusive'');
            overlapping = (exclusive \<and> spans_overlap (sr_spans row));
            bounded = (sr_known row \<and> (case cap of None \<Rightarrow> False | Some c \<Rightarrow> 0 < c));
            percent = (\<lambda>spent. max 0 (100 * (1 - spent / the cap)))
        in \<lparr>ws_count = sr_count row,
            ws_min = (if sr_known row then Some (sr_min row) else None),
            ws_max = (if sr_known row then Some (sr_max row) else None),
            ws_cap = cap,
            ws_lower = (if bounded then Some (percent (sr_max row)) else None),
            ws_upper = (if bounded then Some (percent (sr_min row)) else None),
            ws_attribution =
              (if overlapping then ''confounded''
               else if exclusive \<and> \<not> distinct (sr_spans row) then ''unknown''
               else sr_attribution row),
            ws_overlapping = overlapping\<rparr>)"

definition spend_bounds ::
  "(string \<Rightarrow> rat option) \<Rightarrow> (string \<Rightarrow> rat option) \<Rightarrow> json list \<Rightarrow> (string \<times> window_spend) list option" where
  "spend_bounds float_text caps receipts = do {
     rows \<leftarrow> add_receipts float_text (\<lambda>_. empty_row) receipts;
     Some (map (\<lambda>w. (w, window_spend_of (caps w) (rows w))) quota_windows) }"

section \<open>Runtime failures\<close>

datatype failure_kind = RateLimit | AuthFailure | QuotaFailure | LocationRestricted | CapabilityFailure | Unclassified

definition kind_text :: "failure_kind \<Rightarrow> string" where
  "kind_text k = (case k of
     RateLimit \<Rightarrow> ''rate_limit'' | AuthFailure \<Rightarrow> ''auth'' | QuotaFailure \<Rightarrow> ''quota''
   | LocationRestricted \<Rightarrow> ''location_restricted'' | CapabilityFailure \<Rightarrow> ''capability'' | Unclassified \<Rightarrow> ''unclassified'')"

text \<open>What the searches of the regular expressions find in the text of a failure.\<close>

record findings_in_text =
  ft_status :: "string option"
  ft_rate :: bool
  ft_auth :: bool
  ft_quota :: bool
  ft_location :: bool
  ft_capability :: bool
  ft_window :: "string option"
  ft_retry_after :: "rat option"
  ft_reset_in :: "(rat \<times> string) option"
  ft_reset_at :: "string option"
  ft_redacted :: string

definition failure_kind_of :: "findings_in_text \<Rightarrow> failure_kind" where
  "failure_kind_of f =
     (let rate = (ft_rate f \<or> ft_status f = Some ''429'')
      in if rate then RateLimit
         else if ft_auth f \<or> ft_status f \<in> {Some ''401'', Some ''403''} then AuthFailure
         else if ft_quota f then QuotaFailure
         else if ft_location f then LocationRestricted
         else if ft_capability f then CapabilityFailure
         else Unclassified)"

definition pool_level :: "failure_kind \<Rightarrow> bool" where
  "pool_level k \<longleftrightarrow> k \<in> {RateLimit, AuthFailure, QuotaFailure}"

text \<open>The first word of a text that contains one of the two longer names, else the five-hour window.\<close>

definition occurs_in :: "string \<Rightarrow> string \<Rightarrow> bool" where
  "occurs_in w s \<longleftrightarrow> list_ex (\<lambda>i. take (length w) (drop i s) = w) [0..<Suc (length s)]"

definition match_window_hint :: "string option \<Rightarrow> string option" where
  "match_window_hint found = map_option (\<lambda>s.
     if occurs_in ''monthly'' (py_lower s) then ''monthly''
     else if occurs_in ''weekly'' (py_lower s) then ''weekly'' else ''five_hour'') found"

definition unit_seconds :: "string \<Rightarrow> rat option" where
  "unit_seconds u = map_of
     [(''second'', 1), (''sec'', 1), (''s'', 1), (''minute'', 60), (''min'', 60), (''m'', 60),
      (''hour'', 3600), (''hr'', 3600), (''h'', 3600)] (py_lower u)"

text \<open>The seconds until the reset; a \<open>timedelta\<close> is rounded to microseconds.\<close>

definition reset_delta :: "findings_in_text \<Rightarrow> rat option option" where
  "reset_delta f = (case ft_retry_after f of
     Some q \<Rightarrow> Some (Some q)
   | None \<Rightarrow> (case ft_reset_in f of
       None \<Rightarrow> Some None
     | Some (q, u) \<Rightarrow> map_option (\<lambda>k. Some (q * k)) (unit_seconds u)))"

definition reset_stamp :: "int \<Rightarrow> rat option \<Rightarrow> string option \<Rightarrow> string option option" where
  "reset_stamp observed delta written = (case delta of
     Some q \<Rightarrow> map_option (\<lambda>t. Some (iso t)) (later observed (py_round (q * 1000000)))
   | None \<Rightarrow> (case written of
       None \<Rightarrow> Some None
     | Some s \<Rightarrow> (case parse_utc s of Unreadable \<Rightarrow> Some None | Outside \<Rightarrow> None | At t \<Rightarrow> Some (Some (iso t)))))"

record runtime_event =
  re_model :: string
  re_variant :: "string option"
  re_pool_id :: string
  re_kind :: failure_kind
  re_pool_level :: bool
  re_status_hint :: "string option"
  re_window_hint :: "string option"
  re_reset_at :: "string option"
  re_reset_estimated :: bool
  re_text :: string

definition location_fields :: dict where
  "location_fields =
     [(''retryable'', JBool False), (''route_change_required'', JBool True),
      (''recovery_action'', JStr ''gcp_project_or_supported_region'')]"

definition event_to_dict :: "runtime_event \<Rightarrow> dict" where
  "event_to_dict e =
     [(''model_id'', JStr (re_model e)), (''variant'', jopt (re_variant e)), (''pool_id'', JStr (re_pool_id e)),
      (''kind'', JStr (kind_text (re_kind e))), (''pool_level'', JBool (re_pool_level e)),
      (''status_hint'', jopt (re_status_hint e)), (''window_hint'', jopt (re_window_hint e)),
      (''reset_at_utc'', jopt (re_reset_at e)), (''reset_estimated'', JBool (re_reset_estimated e)),
      (''redacted_text'', JStr (re_text e))]
     @ (if re_kind e = LocationRestricted then location_fields else [])"

definition classify_runtime_failure ::
  "(json \<Rightarrow> string) \<Rightarrow> findings_in_text \<Rightarrow> string \<Rightarrow> string option \<Rightarrow> int \<Rightarrow> string
     \<Rightarrow> (quota_record \<times> runtime_event) option" where
  "classify_runtime_failure digest f model variant observed pool =
     (let kind = failure_kind_of f;
          hint = (if kind \<in> {RateLimit, QuotaFailure} then match_window_hint (ft_window f) else None)
      in do {
        delta \<leftarrow> reset_delta f;
        reset \<leftarrow> reset_stamp observed delta (ft_reset_at f);
        (let window = (if hint = None \<and> (case delta of None \<Rightarrow> False | Some q \<Rightarrow> q \<le> 24 * 3600) then Some ''five_hour'' else hint);
             event = \<lparr>re_model = model, re_variant = variant, re_pool_id = pool, re_kind = kind,
               re_pool_level = pool_level kind, re_status_hint = map_option (\<lambda>s. ''HTTP '' @ s) (ft_status f),
               re_window_hint = window, re_reset_at = reset, re_reset_estimated = (delta \<noteq> None),
               re_text = ft_redacted f\<rparr>
         in do {
           r \<leftarrow> make_record ((blank_record digest ''runtime_error'' (iso observed) window runtime_ttl ''unknown'')
             \<lparr>qr_reset_at := reset, qr_confidence := (if pool_level kind then 9 / 10 else 7 / 10),
              qr_event := Some (event_to_dict event)\<rparr>);
           Some (r, event) }) })"

section \<open>The shared pool\<close>

text \<open>\<open>d.setdefault(key, default)\<close> where an object is expected.\<close>

definition object_at :: "string \<Rightarrow> dict \<Rightarrow> dict \<Rightarrow> dict option" where
  "object_at k start d = (case dget d k of None \<Rightarrow> Some start | Some (JObj e) \<Rightarrow> Some e | Some _ \<Rightarrow> None)"

definition set_default :: "string \<Rightarrow> json \<Rightarrow> dict \<Rightarrow> dict" where
  "set_default k v d = (if dget d k = None then dput k v d else d)"

definition empty_quota :: dict where
  "empty_quota = [(''state'', JStr ''unknown''), (''windows'', JObj [])]"

definition optional_float_json :: "rat option \<Rightarrow> json" where
  "optional_float_json q = opt_json JFloat q"

definition window_row :: "quota_record \<Rightarrow> dict" where
  "window_row r =
     [(''remaining_percent'', optional_float_json (qr_percent r)), (''remaining_amount'', optional_float_json (qr_amount r)),
      (''cap_amount'', optional_float_json (qr_cap r)), (''reset_at_utc'', jopt (qr_reset_at r)),
      (''observed_at_utc'', JStr (qr_observed_at r)), (''source'', JStr (qr_source r)),
      (''confidence'', JFloat (qr_confidence r)), (''ttl_seconds'', JInt (qr_ttl r)),
      (''discrepancy'', JBool (qr_discrepancy r)), (''exact_balance'', JBool (qr_exact r)),
      (''overage_fallback_state'', JStr (qr_overage r))]"

definition empty_window :: "json \<Rightarrow> bool" where
  "empty_window v = (case v of JObj row \<Rightarrow> num_of (dget0 row ''remaining_percent'') = Some 0 | _ \<Rightarrow> False)"

definition update_pool :: "dict \<Rightarrow> quota_record \<Rightarrow> dict option" where
  "update_pool pool r = do {
     quota \<leftarrow> object_at ''quota'' empty_quota pool;
     windows \<leftarrow> object_at ''windows'' [] quota;
     (let windows = (case qr_window r of None \<Rightarrow> windows | Some w \<Rightarrow> if w \<in> set quota_windows then dput w (JObj (window_row r)) windows else windows);
          quota = dput ''windows'' (JObj windows) quota;
          quota = (if qr_percent r \<noteq> None \<or> qr_amount r \<noteq> None then dput ''state'' (JStr ''known'') quota else quota);
          blocked = list_ex (empty_window \<circ> snd) windows;
          quota = dput ''blocked'' (JBool blocked) quota
      in if blocked
         then Some (dput ''health'' (JStr ''blocked'') (dput ''quota''
           (JObj (dput ''blocked_reason'' (JStr ''A fresh evidence window reports exactly 0% remaining.'') quota)) pool))
         else do {
           state \<leftarrow> dget quota ''state'';
           Some (let pool = dput ''quota'' (JObj quota) pool
                 in if state = JStr ''known'' then dput ''health'' (JStr ''ready'') pool else pool) }) }"

definition runtime_state_of :: "failure_kind \<Rightarrow> string" where
  "runtime_state_of k = (case k of RateLimit \<Rightarrow> ''rate_limited'' | QuotaFailure \<Rightarrow> ''quota_blocked'' | AuthFailure \<Rightarrow> ''auth_failed'' | _ \<Rightarrow> ''failed'')"

definition runtime_reason :: "runtime_event \<Rightarrow> string" where
  "runtime_reason e = kind_text (re_kind e) @ '' at shared pool level; exact model '' @ re_model e
     @ (case re_variant e of None \<Rightarrow> [] | Some v \<Rightarrow> if v = [] then [] else ''/'' @ v) @ '' retained in the event.''"

definition block_quota :: "runtime_event \<Rightarrow> dict \<Rightarrow> dict option" where
  "block_quota e pool =
     (if re_kind e \<noteq> QuotaFailure then Some pool
      else do {
        quota \<leftarrow> object_at ''quota'' empty_quota pool;
        Some (dput ''quota'' (JObj (set_default ''blocked_reason'' (JStr ''Runtime quota failure at shared pool level.'')
          (dput ''blocked'' (JBool True) quota))) pool) })"

definition note_reset :: "runtime_event \<Rightarrow> dict \<Rightarrow> dict option" where
  "note_reset e pool = (case (re_reset_at e, re_window_hint e) of
     (Some stamp, Some w) \<Rightarrow>
       if stamp = [] \<or> w \<notin> set quota_windows then Some pool
       else do {
         quota \<leftarrow> object_at ''quota'' empty_quota pool;
         windows \<leftarrow> object_at ''windows'' [] quota;
         row \<leftarrow> object_at w [] windows;
         Some (dput ''quota'' (JObj (dput ''windows'' (JObj (dput w
           (JObj (dput ''reset_estimated'' (JBool (re_reset_estimated e)) (set_default ''reset_at_utc'' (JStr stamp) row)))
           windows)) quota)) pool) }
   | _ \<Rightarrow> Some pool)"

definition model_state :: "runtime_event \<Rightarrow> dict" where
  "model_state e =
     [(''variant'', jopt (re_variant e)),
      (''runtime_state'', JStr (if re_kind e \<in> {CapabilityFailure, LocationRestricted} then ''rejected'' else ''unknown'')),
      (''kind'', JStr (kind_text (re_kind e))), (''pool_level'', JBool False),
      (''reason'', JStr (if re_kind e = LocationRestricted
         then ''Location restriction requires a supported region or GCP/enterprise configuration before retry.''
         else ''Capability rejection affects only this exact model tuple.''))]
     @ (if re_kind e = LocationRestricted then location_fields else [])"

definition last_events :: "json list \<Rightarrow> json list" where
  "last_events vs = drop (length vs - 5) vs"

definition apply_pool_event :: "dict \<Rightarrow> runtime_event \<Rightarrow> dict option" where
  "apply_pool_event pool e = do {
     events \<leftarrow> (case dget pool ''recent_runtime_events'' of None \<Rightarrow> Some [] | Some (JArr vs) \<Rightarrow> Some vs | Some _ \<Rightarrow> None);
     pool' \<leftarrow>
       (let pool = set_default ''recent_runtime_events'' (JArr []) pool in if re_pool_level e
        then Option.bind (block_quota e (dput ''runtime_reason'' (JStr (runtime_reason e))
               (dput ''runtime_state'' (JStr (runtime_state_of (re_kind e))) (dput ''health'' (JStr ''cooldown'') pool))))
               (note_reset e)
        else do {
          models \<leftarrow> object_at ''model_runtime_states'' [] pool;
          Some (dput ''model_runtime_states'' (JObj (dput (re_model e) (JObj (model_state e)) models)) pool) });
     Some (dput ''recent_runtime_events'' (JArr (last_events (events @ [JObj (event_to_dict e)]))) pool') }"

end
