(* ===== verification/PoolEvidence.thy ===== *)
theory PoolEvidence
  imports Quota
begin

text \<open>
  What the quota evidence promises: bounds from receipts hold for every spend the receipts allow, a pool is
  ready only on fresh exact evidence above the reserve, and a failure of one model leaves the pool alone.
\<close>

section \<open>Receipts\<close>

text \<open>The receipts of a list, and whether an amount is one the receipt allows.\<close>

definition receipts_of :: "json list \<Rightarrow> dict list" where
  "receipts_of vs = List.map_filter (\<lambda>v. case v of JObj d \<Rightarrow> Some d | _ \<Rightarrow> None) vs"

definition allows :: "(string \<Rightarrow> rat option) \<Rightarrow> dict \<Rightarrow> rat \<Rightarrow> bool" where
  "allows float_text d a \<longleftrightarrow> (case receipt_spend float_text d of Some (Some (lo, hi)) \<Rightarrow> lo \<le> a \<and> a \<le> hi | _ \<Rightarrow> True)"

text \<open>What was spent in a window when the receipts stand for these amounts.\<close>

definition spent_in :: "string \<Rightarrow> dict list \<Rightarrow> rat list \<Rightarrow> rat" where
  "spent_in w ds amounts = sum_list (map2 (\<lambda>d a. of_nat (count_list (receipt_windows d) w) * a) ds amounts)"

lemma charged_row:
  "sr_known (fold (\<lambda>w rows. rows(w := charge_receipt spend attribution period (rows w))) ws rows w) \<longleftrightarrow>
     sr_known (rows w) \<and> (w \<in> set ws \<longrightarrow> spend \<noteq> None)"
  "sr_min (fold (\<lambda>w rows. rows(w := charge_receipt (Some (lo, hi)) attribution period (rows w))) ws rows w)
     = sr_min (rows w) + of_nat (count_list ws w) * lo"
  "sr_max (fold (\<lambda>w rows. rows(w := charge_receipt (Some (lo, hi)) attribution period (rows w))) ws rows w)
     = sr_max (rows w) + of_nat (count_list ws w) * hi"
  by (induction ws arbitrary: rows) (auto simp: charge_receipt_def algebra_simps)

lemma uncharged_row:
  "w \<notin> set ws \<Longrightarrow> fold (\<lambda>w rows. rows(w := charge_receipt spend attribution period (rows w))) ws rows w = rows w"
  by (induction ws arbitrary: rows) auto

lemma add_receipt_bounds:
  assumes "add_receipt float_text rows d = Some rows'" and "allows float_text d a" and "sr_known (rows' w)"
  shows "sr_known (rows w)"
    and "sr_min (rows' w) \<le> sr_min (rows w) + of_nat (count_list (receipt_windows d) w) * a"
    and "sr_max (rows w) + of_nat (count_list (receipt_windows d) w) * a \<le> sr_max (rows' w)"
proof -
  from assms(1) obtain spend period where spend: "receipt_spend float_text d = Some spend"
    and rows': "rows' = fold (\<lambda>w rows. rows(w := charge_receipt spend (receipt_attribution d) period (rows w))) (receipt_windows d) rows"
    by (auto simp: add_receipt_def bind_eq_Some_conv)
  from assms(3) show "sr_known (rows w)"
    by (simp add: rows' charged_row)
  have "sr_min (rows' w) \<le> sr_min (rows w) + of_nat (count_list (receipt_windows d) w) * a
      \<and> sr_max (rows w) + of_nat (count_list (receipt_windows d) w) * a \<le> sr_max (rows' w)"
  proof (cases "w \<in> set (receipt_windows d)")
    case True
    with assms(3) obtain lo hi where "spend = Some (lo, hi)"
      by (auto simp: rows' charged_row)
    with assms(2) spend show ?thesis
      by (auto simp: rows' charged_row allows_def intro: mult_left_mono)
  next
    case False
    then show ?thesis
      by (simp add: rows' uncharged_row count_list_0_iff)
  qed
  then show "sr_min (rows' w) \<le> sr_min (rows w) + of_nat (count_list (receipt_windows d) w) * a"
    and "sr_max (rows w) + of_nat (count_list (receipt_windows d) w) * a \<le> sr_max (rows' w)"
    by blast+
qed

lemma add_receipts_bounds:
  assumes "add_receipts float_text rows vs = Some rows'" and "list_all2 (allows float_text) (receipts_of vs) amounts"
    and "sr_known (rows' w)"
  shows "sr_known (rows w) \<and> sr_min (rows' w) \<le> sr_min (rows w) + spent_in w (receipts_of vs) amounts
    \<and> sr_max (rows w) + spent_in w (receipts_of vs) amounts \<le> sr_max (rows' w)"
  using assms(1,2)
proof (induction vs arbitrary: rows amounts)
  case (Cons v vs)
  show ?case
  proof (cases "\<exists>d. v = JObj d")
    case False
    with Cons show ?thesis
      by (cases v) (auto simp: receipts_of_def List.map_filter_def)
  next
    case True
    then obtain d rows1 a as where v: "v = JObj d" "add_receipt float_text rows d = Some rows1"
        "add_receipts float_text rows1 vs = Some rows'" "amounts = a # as" "allows float_text d a"
        "list_all2 (allows float_text) (receipts_of vs) as"
      using Cons.prems by (auto simp: receipts_of_def List.map_filter_def bind_eq_Some_conv list_all2_Cons1)
    note later = Cons.IH [OF v(3,6)]
    from later have "sr_known (rows1 w)"
      by blast
    note now = add_receipt_bounds [OF v(2,5) this]
    have "receipts_of (v # vs) = d # receipts_of vs"
      by (simp add: v(1) receipts_of_def List.map_filter_def)
    with later now show ?thesis
      by (simp add: v(4) spent_in_def)
  qed
qed (simp add: assms(3) receipts_of_def spent_in_def List.map_filter_def)

text \<open>C38. Bounds from receipts are conservative: whatever amounts the receipts allow, the percentage they leave of
  a window's cap, no less than zero, lies between the lower and the upper bound of that window.\<close>

theorem spend_bounds_are_conservative:
  assumes "spend_bounds float_text caps receipts = Some result" and "map_of result w = Some row"
    and "list_all2 (allows float_text) (receipts_of receipts) amounts"
    and "ws_lower row = Some lower" and "ws_upper row = Some upper"
  shows "\<exists>cap. caps w = Some cap \<and> 0 < cap
    \<and> lower \<le> max 0 (100 * (1 - spent_in w (receipts_of receipts) amounts / cap))
    \<and> max 0 (100 * (1 - spent_in w (receipts_of receipts) amounts / cap)) \<le> upper"
proof -
  from assms(1) obtain rows where rows: "add_receipts float_text (\<lambda>_. empty_row) receipts = Some rows"
    and result: "result = map (\<lambda>w. (w, window_spend_of (caps w) (rows w))) quota_windows"
    by (auto simp: spend_bounds_def bind_eq_Some_conv)
  from assms(2) have row: "row = window_spend_of (caps w) (rows w)"
    by (auto simp: result map_of_map_restrict restrict_map_def split: if_splits)
  from assms(4) obtain cap where cap: "caps w = Some cap" "0 < cap" "sr_known (rows w)"
      "lower = max 0 (100 * (1 - sr_max (rows w) / cap))"
    by (auto simp: row window_spend_of_def Let_def split: if_splits option.splits)
  with assms(5) have "upper = max 0 (100 * (1 - sr_min (rows w) / cap))"
    by (auto simp: row window_spend_of_def Let_def split: if_splits)
  moreover have "sr_min (rows w) \<le> spent_in w (receipts_of receipts) amounts"
    "spent_in w (receipts_of receipts) amounts \<le> sr_max (rows w)"
    using add_receipts_bounds [OF rows assms(3) cap(3)] by (simp_all add: empty_row_def)
  then have "sr_min (rows w) / cap \<le> spent_in w (receipts_of receipts) amounts / cap"
    "spent_in w (receipts_of receipts) amounts / cap \<le> sr_max (rows w) / cap"
    using cap(2) by (simp_all add: divide_right_mono)
  ultimately show ?thesis
    using cap by auto
qed

section \<open>Balances\<close>

definition fresh :: "int \<Rightarrow> quota_record \<Rightarrow> bool" where
  "fresh now r \<longleftrightarrow> is_stale_record now r = Some False"

lemma fresh_records_set:
  assumes "fresh_records now rs = Some fs"
  shows "set fs = {r \<in> set rs. fresh now r}"
proof -
  obtain stale where stale: "list_all2 (\<lambda>r s. is_stale_record now r = Some s) rs stale"
    and fs: "fs = map fst (filter (\<lambda>(r, s). \<not> s) (zip rs stale))"
    using assms by (auto simp: fresh_records_def bind_eq_Some_conv checked_list_Some)
  from stale show ?thesis
    unfolding fs fresh_def by (induction rs stale rule: list_all2_induct) auto
qed

lemma fold_min: "fold min qs q \<in> insert q (set qs) \<and> (\<forall>p \<in> insert q (set qs). fold min qs q \<le> p)" for q :: rat
proof (induction qs arbitrary: q)
  case (Cons p qs)
  from Cons [of "min p q"] show ?case
    by (auto simp: min_def split: if_splits)
qed simp

lemma least_Some:
  assumes "least qs = Some q"
  shows "q \<in> set qs \<and> (\<forall>p \<in> set qs. q \<le> p)"
proof (cases qs)
  case (Cons p ps)
  with assms fold_min [of ps p] show ?thesis
    by auto
qed (use assms in simp)

lemma least_None: "least qs = None \<longleftrightarrow> qs = []"
  by (cases qs) simp_all

lemma window_percents_set: "p \<in> set (window_percents rs w) \<longleftrightarrow> (\<exists>r \<in> set rs. qr_window r = Some w \<and> exact_percent r = Some p)"
  by (auto simp: window_percents_def List.map_filter_def image_iff)

lemma effective_least:
  assumes "effective_remaining_percent now rs = Some (Some q)"
  shows "\<exists>r \<in> set rs. fresh now r \<and> exact_percent r = Some q"
    and "r \<in> set rs \<Longrightarrow> fresh now r \<Longrightarrow> exact_percent r = Some p \<Longrightarrow> qr_window r = Some w \<Longrightarrow> w \<in> set quota_windows \<Longrightarrow> q \<le> p"
proof -
  obtain fs where fs: "fresh_records now rs = Some fs" "least (List.map_filter (\<lambda>w. least (window_percents fs w)) quota_windows) = Some q"
    using assms by (auto simp: effective_remaining_percent_def bind_eq_Some_conv)
  note set = fresh_records_set [OF fs(1)]
  from least_Some [OF fs(2)] have q: "\<exists>w \<in> set quota_windows. least (window_percents fs w) = Some q"
    and q_least: "\<forall>w \<in> set quota_windows. \<forall>p. least (window_percents fs w) = Some p \<longrightarrow> q \<le> p"
    by (force simp: List.map_filter_def)+
  from q obtain v where "least (window_percents fs v) = Some q"
    by blast
  from least_Some [OF this] set show "\<exists>r \<in> set rs. fresh now r \<and> exact_percent r = Some q"
    by (auto simp: window_percents_set)
  assume r: "r \<in> set rs" "fresh now r" "exact_percent r = Some p" "qr_window r = Some w" "w \<in> set quota_windows"
  then have p: "p \<in> set (window_percents fs w)"
    using set by (auto simp: window_percents_set)
  then obtain p' where "least (window_percents fs w) = Some p'"
    by (cases "least (window_percents fs w)") (auto simp: least_None)
  with least_Some [OF this] p q_least r(5) show "q \<le> p"
    by fastforce
qed

text \<open>C39. An unknown balance is never claimed ready: the pilot decision claims that a pool is ready only on a fresh,
  exact percentage above the reserve, while no fresh exact percentage of a window is at or below it; it
  allows a pilot without a known balance only with the pilot policy, a visible catalog and configured
  authentication; and it neither claims nor allows on a fresh exact zero. (The field \<open>health\<close> of the
  pool is set by \<open>update_pool\<close>, not by this decision.)\<close>

theorem unknown_balance_is_never_ready:
  assumes "pilot_decision_of now args rs = Some decision"
  shows "(pd_ready decision \<longrightarrow>
      (\<exists>r \<in> set rs. \<exists>p. fresh now r \<and> exact_percent r = Some p \<and> pa_reserve_percent args < p)
      \<and> (\<forall>r \<in> set rs. \<forall>p w. fresh now r \<and> exact_percent r = Some p \<and> qr_window r = Some w \<and> w \<in> set quota_windows
           \<longrightarrow> pa_reserve_percent args < p))
    \<and> (pd_pilot_allowed decision \<longrightarrow> pd_known decision
      \<or> pa_unknown_policy args = Some ''pilot'' \<and> pa_catalog_visible args \<and> pa_auth_state args = ''configured'')
    \<and> ((\<exists>r \<in> set rs. fresh now r \<and> exact_percent r = Some 0) \<longrightarrow> \<not> pd_ready decision \<and> \<not> pd_pilot_allowed decision)"
proof -
  obtain fs known effective where fs: "fresh_records now rs = Some fs"
    and effective: "effective_remaining_percent now fs = Some effective"
    and decision: "pd_ready decision \<longleftrightarrow>
        known \<and> (case effective of None \<Rightarrow> False | Some p \<Rightarrow> pa_reserve_percent args < p) \<and> \<not> list_ex (\<lambda>r. exact_percent r = Some 0) fs"
      "pd_known decision = known"
      "pd_pilot_allowed decision =
         (if list_ex (\<lambda>r. exact_percent r = Some 0) fs then False
          else if known then (case effective of None \<Rightarrow> False | Some p \<Rightarrow> 0 < p)
          else pa_unknown_policy args = Some ''pilot'' \<and> pa_catalog_visible args \<and> pa_auth_state args = ''configured'')"
    using assms by (auto simp: pilot_decision_of_def bind_eq_Some_conv Let_def)
  note set = fresh_records_set [OF fs]
  have ready: "\<exists>r \<in> set rs. \<exists>p. fresh now r \<and> exact_percent r = Some p \<and> pa_reserve_percent args < p"
    "\<forall>r \<in> set rs. \<forall>p w. fresh now r \<and> exact_percent r = Some p \<and> qr_window r = Some w \<and> w \<in> set quota_windows
       \<longrightarrow> pa_reserve_percent args < p" if "pd_ready decision"
  proof -
    from that decision(1) obtain q where q: "effective = Some q" "pa_reserve_percent args < q"
      by (auto split: option.splits)
    from effective_least(1) [OF effective [unfolded q(1)]] set q(2)
    show "\<exists>r \<in> set rs. \<exists>p. fresh now r \<and> exact_percent r = Some p \<and> pa_reserve_percent args < p"
      by blast
    show "\<forall>r \<in> set rs. \<forall>p w. fresh now r \<and> exact_percent r = Some p \<and> qr_window r = Some w \<and> w \<in> set quota_windows
       \<longrightarrow> pa_reserve_percent args < p"
      using effective_least(2) [OF effective [unfolded q(1)]] set q(2) by fastforce
  qed
  have "list_ex (\<lambda>r. exact_percent r = Some 0) fs \<longleftrightarrow> (\<exists>r \<in> set rs. fresh now r \<and> exact_percent r = Some 0)"
    using set by (auto simp: list_ex_iff)
  with ready decision show ?thesis
    by auto
qed

section \<open>The shared pool\<close>

lemma dget_set_default: "dget (set_default k v d) k' = (if k' = k \<and> dget d k = None then Some v else dget d k')"
  by (simp add: set_default_def dget_dput)

text \<open>The states of the models and the recent events that a pool holds.\<close>

definition models_of :: "dict \<Rightarrow> dict" where
  "models_of pool = (case dget pool ''model_runtime_states'' of Some (JObj models) \<Rightarrow> models | _ \<Rightarrow> [])"

definition recent_of :: "dict \<Rightarrow> json list" where
  "recent_of pool = (case dget pool ''recent_runtime_events'' of Some (JArr events) \<Rightarrow> events | _ \<Rightarrow> [])"

lemma cooling_keeps:
  assumes "block_quota e q = Some q1" and "note_reset e q1 = Some q2" and "k \<noteq> ''quota''"
  shows "dget q2 k = dget q k"
proof -
  have "dget q1 k = dget q k"
    using assms(1,3) by (auto simp: block_quota_def bind_eq_Some_conv split: if_splits)
  moreover have "dget q2 k = dget q1 k"
    using assms(2,3) by (auto simp: note_reset_def bind_eq_Some_conv split: if_splits option.splits)
  ultimately show ?thesis by simp
qed

lemma pool_event_cools:
  assumes "apply_pool_event pool e = Some pool'" and "re_pool_level e"
  shows "dget pool' ''health'' = Some (JStr ''cooldown'')"
    and "dget pool' ''runtime_state'' = Some (JStr (runtime_state_of (re_kind e)))"
    and "k \<notin> {''health'', ''runtime_state'', ''runtime_reason'', ''quota'', ''recent_runtime_events''} \<Longrightarrow>
      dget pool' k = dget pool k"
proof -
  from assms obtain events q1 q2 where
    q1: "block_quota e (dput ''runtime_reason'' (JStr (runtime_reason e)) (dput ''runtime_state'' (JStr (runtime_state_of (re_kind e)))
           (dput ''health'' (JStr ''cooldown'') (set_default ''recent_runtime_events'' (JArr []) pool)))) = Some q1"
    and q2: "note_reset e q1 = Some q2" "pool' = dput ''recent_runtime_events'' (JArr events) q2"
    by (auto simp: apply_pool_event_def bind_eq_Some_conv Let_def)
  note keeps = cooling_keeps [OF q1 q2(1)]
  show "dget pool' ''health'' = Some (JStr ''cooldown'')"
    "dget pool' ''runtime_state'' = Some (JStr (runtime_state_of (re_kind e)))"
    by (simp_all add: q2(2) keeps)
  show "dget pool' k = dget pool k"
    if "k \<notin> {''health'', ''runtime_state'', ''runtime_reason'', ''quota'', ''recent_runtime_events''}"
    using that by (simp add: q2(2) keeps dget_set_default)
qed

lemma model_event_spares:
  assumes "apply_pool_event pool e = Some pool'" and "\<not> re_pool_level e"
  shows "\<exists>models. dget pool' ''model_runtime_states'' = Some (JObj models)
      \<and> dget models (re_model e) = Some (JObj (model_state e))
      \<and> (\<forall>m. m \<noteq> re_model e \<longrightarrow> dget models m = dget (models_of pool) m)"
    and "k \<notin> {''model_runtime_states'', ''recent_runtime_events''} \<Longrightarrow> dget pool' k = dget pool k"
  using assms
  by (auto simp: apply_pool_event_def bind_eq_Some_conv Let_def dget_set_default object_at_def models_of_def
      split: option.splits json.splits)

lemma event_is_noted:
  "apply_pool_event pool e = Some pool' \<Longrightarrow>
    dget pool' ''recent_runtime_events'' = Some (JArr (last_events (recent_of pool @ [JObj (event_to_dict e)])))"
  by (auto simp: apply_pool_event_def bind_eq_Some_conv Let_def recent_of_def split: option.splits json.splits)

text \<open>C40. A failure is charged where it belongs. The evidence of a failure never claims a balance, and the event
  joins the five most recent ones. A rate-limit, quota or authentication failure cools the shared pool,
  and of the other entries of the pool it can touch only the quota and the reason: the states of the
  models stay. Any other failure sets the state of its own model, leaves the state of every other model
  as it was, and changes no other entry of the pool.\<close>

theorem failures_are_charged_where_they_belong:
  assumes "classify_runtime_failure digest found model variant observed name = Some (r, e)"
    and "apply_pool_event pool e = Some pool'"
  shows "qr_percent r = None \<and> qr_amount r = None \<and> \<not> qr_exact r
    \<and> dget pool' ''recent_runtime_events'' = Some (JArr (last_events (recent_of pool @ [JObj (event_to_dict e)])))
    \<and> (if failure_kind_of found \<in> {RateLimit, AuthFailure, QuotaFailure}
       then dget pool' ''health'' = Some (JStr ''cooldown'')
         \<and> dget pool' ''runtime_state'' = Some (JStr (runtime_state_of (failure_kind_of found)))
         \<and> (\<forall>k. k \<notin> {''health'', ''runtime_state'', ''runtime_reason'', ''quota'', ''recent_runtime_events''} \<longrightarrow>
              dget pool' k = dget pool k)
       else (\<exists>models. dget pool' ''model_runtime_states'' = Some (JObj models)
              \<and> dget models model = Some (JObj (model_state e))
              \<and> (\<forall>m. m \<noteq> model \<longrightarrow> dget models m = dget (models_of pool) m))
         \<and> (\<forall>k. k \<notin> {''model_runtime_states'', ''recent_runtime_events''} \<longrightarrow> dget pool' k = dget pool k))"
proof -
  have e: "re_model e = model" "re_kind e = failure_kind_of found" "re_pool_level e = pool_level (failure_kind_of found)"
    and r: "qr_percent r = None" "qr_amount r = None" "\<not> qr_exact r"
    using assms(1) by (auto simp: classify_runtime_failure_def make_record_def bind_eq_Some_conv Let_def blank_record_def)
  have level: "re_pool_level e \<longleftrightarrow> failure_kind_of found \<in> {RateLimit, AuthFailure, QuotaFailure}"
    by (auto simp: e(3) pool_level_def)
  show ?thesis
  proof (cases "re_pool_level e")
    case True
    with pool_event_cools [OF assms(2) True] r event_is_noted [OF assms(2)] level e(2) show ?thesis
      by simp
  next
    case False
    with model_event_spares [OF assms(2) False] r event_is_noted [OF assms(2)] level e(1) show ?thesis
      by simp
  qed
qed

section \<open>Gaps\<close>

text \<open>The band \<open>blocked\<close> is listed behind \<open>drain_preserve\<close>, which takes zero already: no percentage is in it.\<close>

lemma no_percentage_is_blocked: "0 \<le> q \<Longrightarrow> health_band (Some q) \<noteq> ''blocked''"
  by (simp add: health_band_def health_bands_def)

section \<open>Examples\<close>

definition sample_record :: quota_record where
  "sample_record = (blank_record (\<lambda>_. []) ''api'' ''2026-07-01T00:00:00+00:00'' (Some ''weekly'') 300 ''unknown'')
     \<lparr>qr_percent := Some 0, qr_exact := True, qr_confidence := 99 / 100\<rparr>"

definition sample_found :: findings_in_text where
  "sample_found =
     \<lparr>ft_status = Some ''429'', ft_rate = False, ft_auth = False, ft_quota = False, ft_location = False, ft_capability = False,
      ft_window = Some ''Weekly'', ft_retry_after = Some 60, ft_reset_in = None, ft_reset_at = None, ft_redacted = []\<rparr>"

definition sample_instant :: int where
  "sample_instant = 1782864060000000"

definition sample_failure :: "quota_record \<times> runtime_event" where
  "sample_failure = the (classify_runtime_failure (\<lambda>_. []) sample_found ''kimi'' None sample_instant pool_id)"

lemma sample_classified:
  "classify_runtime_failure (\<lambda>_. []) sample_found ''kimi'' None sample_instant pool_id = Some (fst sample_failure, snd sample_failure)"
  by code_simp

text \<open>
  The record of a failure, merged after the exact zero of a window, erases that zero: the pool, blocked
  before, is then ready.
\<close>

lemma failure_record_unblocks_the_pool:
  "case update_pool [] sample_record of
     Some pool \<Rightarrow> dget pool ''health'' = Some (JStr ''blocked'')
       \<and> (case update_pool pool (fst sample_failure) of
            Some pool' \<Rightarrow> dget pool' ''health'' = Some (JStr ''ready'') | None \<Rightarrow> False)
   | None \<Rightarrow> False"
  by code_simp

definition sample_pool :: dict where
  "sample_pool = the (apply_pool_event [(''health'', JStr ''ready'')] (snd sample_failure))"

lemma sample_applied: "apply_pool_event [(''health'', JStr ''ready'')] (snd sample_failure) = Some sample_pool"
  by code_simp

theorem failures_are_charged_where_they_belong_witness:
  "dget sample_pool ''health'' = Some (JStr ''cooldown'') \<and> \<not> qr_exact (fst sample_failure)"
proof -
  have "failure_kind_of sample_found = RateLimit"
    by code_simp
  then show ?thesis
    using failures_are_charged_where_they_belong [OF sample_classified sample_applied] by simp
qed

definition sample_pilot :: pilot_args where
  "sample_pilot =
     \<lparr>pa_catalog_visible = True, pa_auth_state = ''configured'', pa_unknown_policy = Some ''pilot'', pa_pilot_percent = None,
      pa_reserve_percent = 10, pa_lanes = 1, pa_lane_cost_cap = None, pa_lane_token_cap = None\<rparr>"

definition sample_decision :: pilot_decision where
  "sample_decision = the (pilot_decision_of sample_instant sample_pilot [sample_record])"

lemma sample_decided: "pilot_decision_of sample_instant sample_pilot [sample_record] = Some sample_decision"
  by code_simp

theorem unknown_balance_is_never_ready_witness: "\<not> pd_ready sample_decision \<and> \<not> pd_pilot_allowed sample_decision"
proof -
  have "fresh sample_instant sample_record" "exact_percent sample_record = Some 0"
    by code_simp+
  then show ?thesis
    using unknown_balance_is_never_ready [OF sample_decided] by simp
qed

definition sample_receipts :: "json list" where
  "sample_receipts =
     [JObj [(''cost_min_usd'', JInt 1), (''cost_max_usd'', JInt 2), (''window'', JStr ''weekly'')], JNull]"

lemma sample_bounds:
  "map_option (\<lambda>bounds. map_option (\<lambda>row. (ws_lower row, ws_upper row)) (map_of bounds ''weekly''))
     (spend_bounds (\<lambda>_. None) (\<lambda>_. Some 10) sample_receipts) = Some (Some (Some 80, Some 90))"
  by code_simp

theorem spend_bounds_are_conservative_witness:
  "80 \<le> max 0 (100 * (1 - spent_in ''weekly'' (receipts_of sample_receipts) [3 / 2] / 10))
     \<and> max 0 (100 * (1 - spent_in ''weekly'' (receipts_of sample_receipts) [3 / 2] / 10)) \<le> 90"
proof -
  from sample_bounds obtain bounds row where bounds: "spend_bounds (\<lambda>_. None) (\<lambda>_. Some 10) sample_receipts = Some bounds"
      "map_of bounds ''weekly'' = Some row" and row: "ws_lower row = Some 80" "ws_upper row = Some 90"
    by (clarsimp simp only: map_option_eq_Some prod.inject option.inject)
  have "list_all2 (allows (\<lambda>_. None)) (receipts_of sample_receipts) [3 / 2]"
    by code_simp
  from spend_bounds_are_conservative [OF bounds this row] show ?thesis
    by simp
qed

end
